(* ===== verification/Prelude.thy ===== *)
theory Prelude
  imports Complex_Main "HOL-Library.AList" "HOL-Library.Sublist"
begin

text \<open>
  What every component theory of the development shares: the types that stand for Python's
  values (association lists for insertion-ordered dictionaries, rationals for floats, a
  datatype for dynamically typed JSON-like values, an error datatype for raised exceptions),
  the string and slice operations the engine uses, and the generic lemmas about them.
\<close>

named_theorems py_dict \<open>lookups and key sets of dictionaries after an update or a deletion\<close>
named_theorems py_slice \<open>lengths and members of slices\<close>

section \<open>Numbers and dictionaries\<close>

text \<open>
  Python floats (clock readings, weights, latencies) are modelled as exact rationals: every
  comparison and arithmetic operation the engine makes on them is exact here and rounded there.
\<close>

type_synonym pyfloat = rat

text \<open>\<open>int(x)\<close> of a float truncates towards zero.\<close>

definition py_trunc :: "pyfloat \<Rightarrow> int" where
  "py_trunc x = (if x < 0 then \<lceil>x\<rceil> else \<lfloor>x\<rfloor>)"

text \<open>
  A Python dictionary keeps insertion order: overwriting a key keeps its position, a new key
  goes to the end. \<^theory_text>\<open>AList.update\<close> does exactly that.
\<close>

type_synonym ('k, 'v) dict = "('k \<times> 'v) list"

abbreviation dget :: "('k, 'v) dict \<Rightarrow> 'k \<Rightarrow> 'v option" where
  "dget d k \<equiv> map_of d k"

abbreviation dset :: "'k \<Rightarrow> 'v \<Rightarrow> ('k, 'v) dict \<Rightarrow> ('k, 'v) dict" where
  "dset k v d \<equiv> AList.update k v d"

abbreviation ddel :: "'k \<Rightarrow> ('k, 'v) dict \<Rightarrow> ('k, 'v) dict" where
  "ddel k d \<equiv> AList.delete k d"

abbreviation keys :: "('k, 'v) dict \<Rightarrow> 'k list" where
  "keys d \<equiv> map fst d"

definition dget_or :: "('k, 'v) dict \<Rightarrow> 'k \<Rightarrow> 'v \<Rightarrow> 'v" where
  "dget_or d k v = (case dget d k of None \<Rightarrow> v | Some x \<Rightarrow> x)"

definition wf_dict :: "('k, 'v) dict \<Rightarrow> bool" where
  "wf_dict d \<longleftrightarrow> distinct (keys d)"

lemma dget_dset [py_dict, simp]: "dget (dset k v d) k' = (if k' = k then Some v else dget d k')"
  by (simp add: update_conv)

lemma dget_ddel [py_dict, simp]: "dget (ddel k d) k' = (if k' = k then None else dget d k')"
  by (simp add: delete_conv')

lemma dget_or_dset [py_dict, simp]:
  "dget_or (dset k v d) k' w = (if k' = k then v else dget_or d k' w)"
  by (simp add: dget_or_def)

lemma set_keys_dset [py_dict, simp]: "set (keys (dset k v d)) = insert k (set (keys d))"
  using dom_update [of k v d] by simp

lemma set_keys_ddel [py_dict, simp]: "set (keys (ddel k d)) = set (keys d) - {k}"
  by (simp add: delete_keys del: set_map)

lemma wf_dict_Nil [simp, intro]: "wf_dict []"
  by (simp add: wf_dict_def)

lemma wf_dict_dset [simp, intro]: "wf_dict d \<Longrightarrow> wf_dict (dset k v d)"
  by (simp add: wf_dict_def distinct_update)

lemma wf_dict_ddel [simp, intro]: "wf_dict d \<Longrightarrow> wf_dict (ddel k d)"
  by (simp add: wf_dict_def distinct_delete)

lemma wf_dict_tl [simp, intro]: "wf_dict d \<Longrightarrow> wf_dict (tl d)"
  by (simp add: wf_dict_def map_tl distinct_tl)

lemma wf_dict_Cons: "wf_dict ((k, v) # d) \<longleftrightarrow> k \<notin> set (keys d) \<and> wf_dict d"
  by (simp add: wf_dict_def)

lemma keys_dset: "keys (dset k v d) = (if k \<in> set (keys d) then keys d else keys d @ [k])"
  by (rule update_keys)

lemma set_dset: "set (dset k v d) \<subseteq> insert (k, v) (set d)"
  by (induction d) auto

lemma dset_fresh: "k \<notin> set (keys d) \<Longrightarrow> dset k v d = d @ [(k, v)]"
  by (induction d) auto

lemma dget_None_keys: "dget d k = None \<longleftrightarrow> k \<notin> set (keys d)"
  by (simp add: map_of_eq_None_iff)

lemma dget_Some_keys: "dget d k = Some v \<Longrightarrow> k \<in> set (keys d)"
  using dget_None_keys [of d k] by (metis option.distinct(1))

lemma dget_value: "dget d k = Some v \<Longrightarrow> v \<in> snd ` set d"
  by (drule map_of_SomeD) (rule image_eqI [of _ snd], simp_all)

lemma length_dset:
  "length (dset k v d) = (if k \<in> set (keys d) then length d else Suc (length d))"
  using arg_cong [OF keys_dset [of k v d], of length] by simp

lemma wf_dget_iff: "wf_dict d \<Longrightarrow> dget d k = Some v \<longleftrightarrow> (k, v) \<in> set d"
  by (simp add: wf_dict_def)

lemma keys_ddel: "keys (ddel k d) = filter (\<lambda>x. x \<noteq> k) (keys d)"
  by (induction d) auto

lemma concat_split:
  "concat ls = xs @ t # ys \<Longrightarrow>
   \<exists>us l vs as bs. ls = us @ l # vs \<and> l = as @ t # bs \<and> xs = concat us @ as"
proof (induction ls arbitrary: xs)
  case Nil
  then show ?case by simp
next
  case (Cons m ls)
  then have "m @ concat ls = xs @ t # ys" by simp
  then consider (here) us where "m = xs @ t # us"
    | (later) zs where "xs = m @ zs" "concat ls = zs @ t # ys"
    by (auto simp: append_eq_append_conv2 append_eq_Cons_conv)
  then show ?case
  proof cases
    case here
    then have "m # ls = [] @ m # ls \<and> m = xs @ t # us \<and> xs = concat [] @ xs" by simp
    then show ?thesis by blast
  next
    case later
    with Cons.IH [of zs] obtain us l vs as bs where
      "ls = us @ l # vs" "l = as @ t # bs" "zs = concat us @ as" by blast
    with later have "m # ls = (m # us) @ l # vs \<and> l = as @ t # bs \<and> xs = concat (m # us) @ as" by simp
    then show ?thesis by blast
  qed
qed

section \<open>Raised exceptions\<close>

text \<open>The exceptions the modelled functions raise themselves, as values of a sum type.\<close>

datatype py_error =
    KeyError string
  | IndexError
  | TypeError
  | ValueError string
  | AttributeError
  | RuntimeError
  | ZeroDivisionError
  | UnboundLocalError

type_synonym 'a res = "py_error + 'a"

definition bind_res :: "'a res \<Rightarrow> ('a \<Rightarrow> 'b res) \<Rightarrow> 'b res" where
  "bind_res r f = (case r of Inl e \<Rightarrow> Inl e | Inr x \<Rightarrow> f x)"

lemma bind_res_simps [simp]: "bind_res (Inl e) f = Inl e" "bind_res (Inr x) f = f x"
  by (simp_all add: bind_res_def)

lemma bind_res_Inr: "bind_res r f = Inr y \<longleftrightarrow> (\<exists>x. r = Inr x \<and> f x = Inr y)"
  by (simp add: bind_res_def split: sum.splits)

text \<open>\<open>map_res f xs\<close> is a list comprehension whose body may raise.\<close>

fun map_res :: "('a \<Rightarrow> 'b res) \<Rightarrow> 'a list \<Rightarrow> 'b list res" where
  "map_res f [] = Inr []"
| "map_res f (x # xs) = bind_res (f x) (\<lambda>y. bind_res (map_res f xs) (\<lambda>ys. Inr (y # ys)))"

lemma map_res_Inr: "(\<And>x. x \<in> set xs \<Longrightarrow> f x = Inr (g x)) \<Longrightarrow> map_res f xs = Inr (map g xs)"
  by (induction xs) auto

lemma length_map_res: "map_res f xs = Inr ys \<Longrightarrow> length ys = length xs"
  by (induction xs arbitrary: ys) (auto simp: bind_res_Inr)

section \<open>Slices\<close>

text \<open>
  \<open>xs[-n:]\<close>: the last \<open>n\<close> elements for a positive \<open>n\<close>; for \<open>n = 0\<close> the slice is \<open>xs[0:]\<close>,
  the whole list, and for a negative \<open>n\<close> it is \<open>xs[|n|:]\<close>.
\<close>

definition py_last :: "int \<Rightarrow> 'a list \<Rightarrow> 'a list" where
  "py_last n xs = (if 0 < n then drop (length xs - nat n) xs else drop (nat (- n)) xs)"

lemma set_py_last [py_slice]: "set (py_last n xs) \<subseteq> set xs"
  by (simp add: py_last_def set_drop_subset)

lemma in_py_last: "x \<in> set (py_last n xs) \<Longrightarrow> x \<in> set xs"
  using set_py_last by (rule subsetD)

lemma length_py_last [py_slice]: "0 < n \<Longrightarrow> length (py_last n xs) = min (length xs) (nat n)"
  by (simp add: py_last_def)

lemma py_last_all: "int (length xs) \<le> n \<Longrightarrow> py_last n xs = xs"
  by (simp add: py_last_def)

lemma py_last_zero: "py_last 0 xs = xs"
  by (simp add: py_last_def)

lemma py_last_one: "py_last 1 xs = (if xs = [] then [] else [last xs])"
  by (cases xs rule: rev_cases) (simp_all add: py_last_def)

lemma py_last_window: "0 < n \<Longrightarrow> py_last n (py_last n xs @ ys) = py_last n (xs @ ys)"
  by (cases "length xs \<le> nat n") (simp_all add: py_last_def add.commute)

lemma py_last_idem: "0 < n \<Longrightarrow> py_last n (py_last n xs) = py_last n xs"
  using py_last_window [of n xs "[]"] by simp

lemma py_last_snoc: "py_last n (xs @ ys) = ys" if "int (length ys) = n" "0 < n"
  using that by (auto simp: py_last_def)

lemma py_last_suffix: "\<exists>ys. xs = ys @ py_last n xs"
  by (metis append_take_drop_id py_last_def)

text \<open>\<open>xs[:n]\<close>; a negative \<open>n\<close> drops from the end.\<close>

definition py_take :: "int \<Rightarrow> 'a list \<Rightarrow> 'a list" where
  "py_take n xs = (if 0 \<le> n then take (nat n) xs else take (length xs - nat (- n)) xs)"

lemma set_py_take: "set (py_take n xs) \<subseteq> set xs"
  by (simp add: py_take_def set_take_subset)

lemma length_py_take: "0 \<le> n \<Longrightarrow> length (py_take n xs) = min (length xs) (nat n)"
  by (simp add: py_take_def min.commute)

section \<open>Strings\<close>

text \<open>
  Strings are lists of characters. Literals in the modelled code that are outside ASCII (prompt
  texts, log messages) do not occur in the models; case conversion is that of the ASCII letters.
\<close>

definition lower_char :: "char \<Rightarrow> char" where
  "lower_char c =
     (if 65 \<le> (of_char c :: nat) \<and> (of_char c :: nat) \<le> 90 then char_of ((of_char c :: nat) + 32) else c)"

definition lower :: "string \<Rightarrow> string" where
  "lower s = map lower_char s"

lemma length_lower [simp]: "length (lower s) = length s"
  by (simp add: lower_def)

lemma lower_Nil [simp]: "lower [] = []"
  by (simp add: lower_def)

lemma lower_append [simp]: "lower (s @ t) = lower s @ lower t"
  by (simp add: lower_def)

text \<open>\<open>p in s\<close> on strings.\<close>

fun has_sub :: "string \<Rightarrow> string \<Rightarrow> bool" where
  "has_sub p [] = (p = [])"
| "has_sub p (c # cs) = (prefix p (c # cs) \<or> has_sub p cs)"

lemma has_sub_iff: "has_sub p s \<longleftrightarrow> (\<exists>a b. s = a @ p @ b)"
proof (induction s)
  case Nil
  then show ?case by auto
next
  case (Cons c s)
  show ?case
  proof
    assume "has_sub p (c # s)"
    then consider (here) "prefix p (c # s)" | (later) "has_sub p s" by auto
    then show "\<exists>a b. c # s = a @ p @ b"
    proof cases
      case here
      then obtain b where "c # s = p @ b" by (auto simp: prefix_def)
      then show ?thesis by (metis append_Nil)
    next
      case later
      with Cons.IH obtain a b where "s = a @ p @ b" by blast
      then show ?thesis by (metis append_Cons)
    qed
  next
    assume "\<exists>a b. c # s = a @ p @ b"
    then obtain a b where ab: "c # s = a @ p @ b" by blast
    show "has_sub p (c # s)"
    proof (cases a)
      case Nil
      with ab have "prefix p (c # s)" by (simp add: prefix_def)
      then show ?thesis by simp
    next
      case (Cons x a')
      with ab Cons.IH show ?thesis by auto
    qed
  qed
qed

lemma has_sub_Nil [simp]: "has_sub [] s"
  by (cases s) auto

lemma has_sub_append: "has_sub p s \<Longrightarrow> has_sub p (t @ s @ u)"
  unfolding has_sub_iff by (metis append.assoc)

text \<open>\<open>sep.join(parts)\<close>.\<close>

fun py_join :: "string \<Rightarrow> string list \<Rightarrow> string" where
  "py_join sep [] = []"
| "py_join sep [x] = x"
| "py_join sep (x # y # xs) = x @ sep @ py_join sep (y # xs)"

text \<open>\<open>s.split(c)\<close> for a one-character separator; \<open>s.startswith(p)\<close> and \<open>s.endswith(p)\<close>.\<close>

fun split_char :: "char \<Rightarrow> string \<Rightarrow> string list" where
  "split_char c [] = [[]]"
| "split_char c (x # xs) =
     (if x = c then [] # split_char c xs
      else case split_char c xs of [] \<Rightarrow> [[x]] | w # ws \<Rightarrow> (x # w) # ws)"

lemma split_char_not_Nil [simp]: "split_char c s \<noteq> []"
  by (induction s) (auto split: list.splits)

lemma split_char_none: "c \<notin> set s \<Longrightarrow> split_char c s = [s]"
  by (induction s) auto

lemma split_char_append: "c \<notin> set a \<Longrightarrow> split_char c (a @ c # b) = a # split_char c b"
  by (induction a) auto

lemma split_char_join:
  "ps \<noteq> [] \<Longrightarrow> (\<And>p. p \<in> set ps \<Longrightarrow> c \<notin> set p) \<Longrightarrow> split_char c (py_join [c] ps) = ps"
  by (induction "[c]" ps rule: py_join.induct) (simp_all add: split_char_none split_char_append)

lemma split_char_join_append:
  "ps \<noteq> [] \<Longrightarrow> (\<And>p. p \<in> set ps \<Longrightarrow> c \<notin> set p) \<Longrightarrow> split_char c (py_join [c] ps @ c # r) = ps @ split_char c r"
  by (induction "[c]" ps rule: py_join.induct) (simp_all add: split_char_append)

definition starts_with :: "string \<Rightarrow> string \<Rightarrow> bool" where
  "starts_with p s \<longleftrightarrow> take (length p) s = p"

definition ends_with :: "string \<Rightarrow> string \<Rightarrow> bool" where
  "ends_with p s \<longleftrightarrow> length p \<le> length s \<and> drop (length s - length p) s = p"

subsection \<open>White space, decimal numbers\<close>

definition is_space :: "char \<Rightarrow> bool" where
  "is_space c \<longleftrightarrow> (let n = (of_char c :: nat) in 9 \<le> n \<and> n \<le> 13 \<or> 28 \<le> n \<and> n \<le> 32 \<or> n = 133 \<or> n = 160)"

definition py_lstrip :: "string \<Rightarrow> string" where
  "py_lstrip s = dropWhile is_space s"

definition py_strip :: "string \<Rightarrow> string" where
  "py_strip s = rev (dropWhile is_space (rev (py_lstrip s)))"

definition is_digit :: "char \<Rightarrow> bool" where
  "is_digit c \<longleftrightarrow> (let n = (of_char c :: nat) in 48 \<le> n \<and> n \<le> 57)"

definition digit_char :: "nat \<Rightarrow> char" where
  "digit_char d = char_of (48 + d)"

definition digit_val :: "char \<Rightarrow> nat" where
  "digit_val c = of_char c - 48"

lemma of_char_digit_char: "d < 10 \<Longrightarrow> (of_char (digit_char d) :: nat) = 48 + d"
  by (simp add: digit_char_def)

lemma is_digit_digit_char [simp]: "d < 10 \<Longrightarrow> is_digit (digit_char d)"
  by (simp add: is_digit_def of_char_digit_char)

lemma digit_val_digit_char [simp]: "d < 10 \<Longrightarrow> digit_val (digit_char d) = d"
  by (simp add: digit_val_def of_char_digit_char)

text \<open>\<open>str(n)\<close> of a natural number and of an integer.\<close>

fun str_nat :: "nat \<Rightarrow> string" where
  "str_nat n = (if n < 10 then [digit_char n] else str_nat (n div 10) @ [digit_char (n mod 10)])"

declare str_nat.simps [simp del]

definition str_int :: "int \<Rightarrow> string" where
  "str_int i = (if i < 0 then ''-'' @ str_nat (nat (- i)) else str_nat (nat i))"

definition digits_val :: "string \<Rightarrow> nat" where
  "digits_val s = foldl (\<lambda>acc c. 10 * acc + digit_val c) 0 s"

lemma digits_val_snoc [simp]: "digits_val (s @ [c]) = 10 * digits_val s + digit_val c"
  by (simp add: digits_val_def)

lemma str_nat_digits: "str_nat n \<noteq> [] \<and> (\<forall>c \<in> set (str_nat n). is_digit c) \<and> digits_val (str_nat n) = n"
proof (induction n rule: str_nat.induct)
  case (1 n)
  show ?case
  proof (cases "n < 10")
    case True
    then show ?thesis
      using digits_val_snoc [of "[]"] by (subst str_nat.simps, subst str_nat.simps, subst str_nat.simps)
        (simp add: digits_val_def)
  next
    case False
    with 1 have IH: "str_nat (n div 10) \<noteq> []" "\<forall>c \<in> set (str_nat (n div 10)). is_digit c"
      "digits_val (str_nat (n div 10)) = n div 10" by simp_all
    have "str_nat n = str_nat (n div 10) @ [digit_char (n mod 10)]"
      using False by (subst str_nat.simps) simp
    with IH show ?thesis by (simp add: mult.commute)
  qed
qed

lemma str_nat_inj: "str_nat m = str_nat n \<Longrightarrow> m = n"
  using str_nat_digits by metis

text \<open>
  \<open>int(s)\<close> of a string: surrounding white space, an optional sign, digits with single
  underscores between them; anything else raises \<open>ValueError\<close> (\<open>None\<close>).
\<close>

fun no_double_underscore :: "string \<Rightarrow> bool" where
  "no_double_underscore (c # d # cs) =
     (\<not> (c = CHR ''_'' \<and> d = CHR ''_'') \<and> no_double_underscore (d # cs))"
| "no_double_underscore cs = True"

definition digit_group :: "string \<Rightarrow> nat option" where
  "digit_group s =
     (if s \<noteq> [] \<and> is_digit (hd s) \<and> is_digit (last s) \<and>
         list_all (\<lambda>c. is_digit c \<or> c = CHR ''_'') s \<and> no_double_underscore s
      then Some (digits_val (filter is_digit s)) else None)"

definition py_int :: "string \<Rightarrow> int option" where
  "py_int s =
     (let t = py_strip s
      in case t of
           [] \<Rightarrow> None
         | c # cs \<Rightarrow>
             if c = CHR ''-'' then map_option (\<lambda>n. - int n) (digit_group cs)
             else if c = CHR ''+'' then map_option int (digit_group cs)
             else map_option int (digit_group t))"

lemma not_space_digit: "is_digit c \<Longrightarrow> \<not> is_space c"
  by (auto simp: is_digit_def is_space_def Let_def)

lemma py_strip_id:
  assumes "s = [] \<or> (\<not> is_space (hd s) \<and> \<not> is_space (last s))"
  shows "py_strip s = s"
proof (cases "s = []")
  case True
  then show ?thesis by (simp add: py_strip_def py_lstrip_def)
next
  case False
  with assms have "py_lstrip s = s" by (cases s) (simp_all add: py_lstrip_def)
  moreover have "dropWhile is_space (rev s) = rev s"
    using False assms by (cases s rule: rev_cases) simp_all
  ultimately show ?thesis by (simp add: py_strip_def)
qed

lemma no_double_underscore_digits: "\<forall>c \<in> set s. is_digit c \<Longrightarrow> no_double_underscore s"
  by (induction s rule: no_double_underscore.induct) (auto simp: is_digit_def)

text \<open>The round trip of integers through their decimal text.\<close>

lemma digit_group_str_nat: "digit_group (str_nat n) = Some n"
proof -
  have d: "str_nat n \<noteq> []" "\<forall>c \<in> set (str_nat n). is_digit c" "digits_val (str_nat n) = n"
    using str_nat_digits by simp_all
  then have "is_digit (hd (str_nat n))" "is_digit (last (str_nat n))" by simp_all
  moreover have "filter is_digit (str_nat n) = str_nat n" using d(2) by (simp add: filter_id_conv)
  ultimately show ?thesis
    using d no_double_underscore_digits [of "str_nat n"]
    by (auto simp: digit_group_def list_all_iff)
qed

lemma py_int_str_int: "py_int (str_int i) = Some i"
proof -
  have d: "str_nat n \<noteq> []" "\<forall>c \<in> set (str_nat n). is_digit c" for n
    using str_nat_digits by simp_all
  obtain n where n: "n = nat \<bar>i\<bar>" by blast
  obtain c cs where c: "str_nat n = c # cs" using d(1) [of n] by (meson list.exhaust)
  have dc: "is_digit c" "is_digit (last (str_nat n))" using d [of n] c by (simp_all add: last_in_set)
  have ns: "\<not> is_space c" "\<not> is_space (last (str_nat n))" using dc by (simp_all add: not_space_digit)
  have notsign: "c \<noteq> CHR ''-''" "c \<noteq> CHR ''+''" using dc(1) by (auto simp: is_digit_def)
  show ?thesis
  proof (cases "i < 0")
    case True
    have "py_strip (''-'' @ str_nat n) = ''-'' @ str_nat n"
      using ns(2) d(1) [of n] by (intro py_strip_id) (simp add: is_space_def)
    with True n show ?thesis by (simp add: str_int_def py_int_def digit_group_str_nat)
  next
    case False
    have "py_strip (str_nat n) = str_nat n" using ns c by (intro py_strip_id) simp
    with False n c notsign show ?thesis
      using digit_group_str_nat [of n] by (simp add: str_int_def py_int_def)
  qed
qed

section \<open>Bounded logs\<close>

text \<open>
  A log that keeps the last \<open>cap\<close> of the entries pushed to it. Several logs may share one state:
  \<open>accepts\<close> tells the entries that go to this one.
\<close>

locale bounded_log =
  fixes push :: "'x \<Rightarrow> 's \<Rightarrow> 's"
    and entries :: "'s \<Rightarrow> 'x list"
    and accepts :: "'x \<Rightarrow> bool"
    and cap :: int
  assumes cap_pos: "0 < cap"
    and push_in: "accepts x \<Longrightarrow> entries (push x s) = py_last cap (entries s @ [x])"
    and push_out: "\<not> accepts x \<Longrightarrow> entries (push x s) = entries s"
begin

lemma entries_fold_window:
  "py_last cap (entries s) = entries s \<Longrightarrow>
   entries (fold push xs s) = py_last cap (entries s @ filter accepts xs)"
proof (induction xs arbitrary: s)
  case Nil
  then show ?case by simp
next
  case (Cons x xs)
  show ?case
  proof (cases "accepts x")
    case True
    have "entries (fold push xs (push x s)) = py_last cap (entries (push x s) @ filter accepts xs)"
      by (rule Cons.IH) (simp add: push_in [OF True] py_last_idem cap_pos)
    also have "\<dots> = py_last cap (entries s @ x # filter accepts xs)"
      using py_last_window [OF cap_pos, of "entries s @ [x]" "filter accepts xs"]
      by (simp add: push_in [OF True])
    finally show ?thesis using True by simp
  next
    case False
    then show ?thesis using Cons by (simp add: push_out)
  qed
qed

lemma entries_bounded:
  "entries s = [] \<Longrightarrow> int (length (entries (fold push xs s))) \<le> cap"
  using entries_fold_window [of s xs] cap_pos by (simp add: py_last_def)

end

section \<open>Steps of a system and their runs\<close>

text \<open>A run of a step function over a list of events, the shape of every component's trace.\<close>

fun run_events :: "('s \<Rightarrow> 'e \<Rightarrow> 's) \<Rightarrow> 's \<Rightarrow> 'e list \<Rightarrow> 's" where
  "run_events step s [] = s"
| "run_events step s (e # es) = run_events step (step s e) es"

lemma run_events_append:
  "run_events step s (es @ es') = run_events step (run_events step s es) es'"
  by (induction es arbitrary: s) auto

lemma run_events_inv:
  assumes "\<And>s e. P s \<Longrightarrow> P (step s e)" and "P s"
  shows "P (run_events step s es)"
  using assms(2) by (induction es arbitrary: s) (auto intro: assms(1))

end
