(* ===== verification/Circuit.thy ===== *)
theory Circuit
  imports Prelude
begin

text \<open>
  The provider circuit breaker of \<^verbatim>\<open>app/gateway/circuit_breaker.py\<close>: its state, one definition
  per method (the clock reading of \<^verbatim>\<open>time.monotonic()\<close> is the argument \<open>now\<close>; the lock makes
  each method one atomic step), the interface \<open>breaker\<close> that both breakers of the gateway
  provide, and the facts their clients use.
\<close>

section \<open>The breaker\<close>

datatype circuit_state = CLOSED | OPEN | HALF_OPEN

record circuit_breaker =
  failure_threshold :: int
  recovery_timeout :: pyfloat
  failure_count :: int
  cb_state :: circuit_state
  last_failure_time :: pyfloat

definition new_breaker :: "int \<Rightarrow> pyfloat \<Rightarrow> circuit_breaker" where
  "new_breaker thr tmo = \<lparr>failure_threshold = thr, recovery_timeout = tmo,
     failure_count = 0, cb_state = CLOSED, last_failure_time = 0\<rparr>"

text \<open>\<open>CircuitBreaker()\<close> with the default arguments.\<close>

abbreviation default_breaker :: circuit_breaker where
  "default_breaker \<equiv> new_breaker 5 30"

definition cb_allow :: "pyfloat \<Rightarrow> circuit_breaker \<Rightarrow> bool \<times> circuit_breaker" where
  "cb_allow now b =
     (case cb_state b of
        CLOSED \<Rightarrow> (True, b)
      | OPEN \<Rightarrow>
          (if now - last_failure_time b > recovery_timeout b
           then (True, b\<lparr>cb_state := HALF_OPEN\<rparr>) else (False, b))
      | HALF_OPEN \<Rightarrow> (True, b))"

definition cb_record_success :: "circuit_breaker \<Rightarrow> circuit_breaker" where
  "cb_record_success b =
     (let b' = (if cb_state b = HALF_OPEN then b\<lparr>cb_state := CLOSED\<rparr> else b)
      in b'\<lparr>failure_count := 0\<rparr>)"

definition cb_record_failure :: "pyfloat \<Rightarrow> circuit_breaker \<Rightarrow> circuit_breaker" where
  "cb_record_failure now b =
     (let b' = b\<lparr>failure_count := failure_count b + 1, last_failure_time := now\<rparr>
      in if failure_count b' \<ge> failure_threshold b' then b'\<lparr>cb_state := OPEN\<rparr> else b')"

definition cb_reset :: "circuit_breaker \<Rightarrow> circuit_breaker" where
  "cb_reset b = b\<lparr>failure_count := 0, cb_state := CLOSED\<rparr>"

datatype cb_event = Allow pyfloat | Success | Failure pyfloat | Reset

fun cb_step :: "circuit_breaker \<Rightarrow> cb_event \<Rightarrow> circuit_breaker" where
  "cb_step b (Allow t) = snd (cb_allow t b)"
| "cb_step b Success = cb_record_success b"
| "cb_step b (Failure t) = cb_record_failure t b"
| "cb_step b Reset = cb_reset b"

lemmas cb_defs = cb_allow_def cb_record_success_def cb_record_failure_def cb_reset_def Let_def

lemma cb_step_config [simp]:
  "failure_threshold (cb_step b e) = failure_threshold b"
  "recovery_timeout (cb_step b e) = recovery_timeout b"
  by (cases e; simp add: cb_defs split: circuit_state.splits)+

text \<open>A closed breaker has fewer failures on record than its threshold.\<close>

definition cb_inv :: "circuit_breaker \<Rightarrow> bool" where
  "cb_inv b \<longleftrightarrow> 0 < failure_threshold b \<and> 0 \<le> failure_count b \<and>
     (cb_state b = CLOSED \<longrightarrow> failure_count b < failure_threshold b)"

lemma cb_inv_step: "cb_inv b \<Longrightarrow> cb_inv (cb_step b e)"
  by (cases e) (auto simp: cb_inv_def cb_defs split: circuit_state.splits)

lemma cb_inv_run: "cb_inv b \<Longrightarrow> cb_inv (run_events cb_step b es)"
  using cb_inv_step by (rule run_events_inv)

lemma cb_inv_new: "0 < thr \<Longrightarrow> cb_inv (new_breaker thr tmo)"
  by (simp add: cb_inv_def new_breaker_def)

text \<open>Exactly the open state within the recovery window denies.\<close>

lemma cb_allow_iff:
  "fst (cb_allow t b) \<longleftrightarrow>
     \<not> (cb_state b = OPEN \<and> t - last_failure_time b \<le> recovery_timeout b)"
  by (auto simp: cb_allow_def split: circuit_state.splits)

lemma cb_denied_unchanged: "\<not> fst (cb_allow t b) \<Longrightarrow> snd (cb_allow t b) = b"
  by (auto simp: cb_allow_def split: circuit_state.splits if_splits)

section \<open>The interface of a circuit breaker\<close>

text \<open>
  What a client of a breaker relies on: failures are counted, reaching the threshold trips the
  breaker, a tripped breaker denies until its recovery window has passed and admits afterwards.
\<close>

locale breaker =
  fixes probe :: "pyfloat \<Rightarrow> 's \<Rightarrow> bool \<times> 's"
    and fail :: "pyfloat \<Rightarrow> 's \<Rightarrow> 's"
    and fails :: "'s \<Rightarrow> int"
    and limit :: "'s \<Rightarrow> int"
    and window :: "'s \<Rightarrow> pyfloat"
    and last_fail :: "'s \<Rightarrow> pyfloat"
    and tripped :: "'s \<Rightarrow> bool"
  assumes fails_fail: "fails (fail t s) = fails s + 1"
    and limit_fail: "limit (fail t s) = limit s"
    and window_fail: "window (fail t s) = window s"
    and last_fail_fail: "last_fail (fail t s) = t"
    and fail_trips: "limit s \<le> fails s + 1 \<Longrightarrow> tripped (fail t s)"
    and tripped_denies:
      "tripped s \<Longrightarrow> t - last_fail s \<le> window s \<Longrightarrow> probe t s = (False, s)"
    and tripped_admits: "tripped s \<Longrightarrow> window s < t - last_fail s \<Longrightarrow> fst (probe t s)"
begin

fun fail_all :: "pyfloat list \<Rightarrow> 's \<Rightarrow> 's" where
  "fail_all [] s = s"
| "fail_all (t # ts) s = fail_all ts (fail t s)"

lemma fail_all_config:
  "limit (fail_all ts s) = limit s" "window (fail_all ts s) = window s"
  "fails (fail_all ts s) = fails s + int (length ts)"
  by (induction ts arbitrary: s) (auto simp: limit_fail window_fail fails_fail)

lemma fail_all_snoc: "fail_all (ts @ [t]) s = fail t (fail_all ts s)"
  by (induction ts arbitrary: s) auto

lemma fail_all_trips:
  assumes "ts \<noteq> []" and "limit s \<le> fails s + int (length ts)"
  shows "tripped (fail_all ts s) \<and> last_fail (fail_all ts s) = last ts"
proof -
  from assms(1) obtain us u where ts: "ts = us @ [u]" by (metis rev_exhaust)
  have "tripped (fail u (fail_all us s))"
    using assms(2) by (intro fail_trips) (simp add: ts fail_all_config)
  then show ?thesis by (simp add: ts fail_all_snoc last_fail_fail)
qed

lemma burst_window:
  assumes "ts \<noteq> []" and "limit s \<le> fails s + int (length ts)"
  shows "fst (probe t (fail_all ts s)) \<longleftrightarrow> window s < t - last ts"
  using fail_all_trips [OF assms] tripped_denies [of "fail_all ts s" t]
    tripped_admits [of "fail_all ts s" t]
  by (cases "window s < t - last ts") (auto simp: fail_all_config)

end

interpretation gw_breaker: breaker cb_allow cb_record_failure failure_count failure_threshold
  recovery_timeout last_failure_time "\<lambda>b. cb_state b = OPEN"
  by unfold_locales (auto simp: cb_defs)

section \<open>Bursts of failures\<close>

definition cb_fail_all :: "pyfloat list \<Rightarrow> circuit_breaker \<Rightarrow> circuit_breaker" where
  "cb_fail_all ts b = run_events cb_step b (map Failure ts)"

lemma cb_fail_all_eq: "cb_fail_all ts b = gw_breaker.fail_all ts b"
  by (induction ts arbitrary: b) (simp_all add: cb_fail_all_def)

lemma cb_fail_all_closed:
  "cb_state b = CLOSED \<Longrightarrow> failure_count b + int (length ts) < failure_threshold b \<Longrightarrow>
   cb_state (cb_fail_all ts b) = CLOSED"
proof (induction ts arbitrary: b)
  case Nil
  then show ?case by (simp add: cb_fail_all_def)
next
  case (Cons t ts)
  have "cb_state (cb_fail_all ts (cb_record_failure t b)) = CLOSED"
    using Cons.prems by (intro Cons.IH) (auto simp: cb_record_failure_def Let_def)
  then show ?case by (simp add: cb_fail_all_def)
qed

section \<open>Properties\<close>

text \<open>C21: after any burst of consecutive failures on a fresh breaker with a positive threshold,
  a request is admitted exactly when the burst was shorter than the threshold or the recovery
  window has passed since its last failure.\<close>

theorem breaker_trips_and_recovers:
  assumes "0 < thr"
  shows "fst (cb_allow t (cb_fail_all ts (new_breaker thr tmo))) \<longleftrightarrow>
    int (length ts) < thr \<or> tmo < t - last ts"
proof (cases "int (length ts) < thr")
  case True
  then have "cb_state (cb_fail_all ts (new_breaker thr tmo)) = CLOSED"
    by (intro cb_fail_all_closed) (simp_all add: new_breaker_def)
  with True show ?thesis by (simp add: cb_allow_iff)
next
  case False
  with assms have ts: "ts \<noteq> []" by auto
  have "fst (cb_allow t (gw_breaker.fail_all ts (new_breaker thr tmo))) \<longleftrightarrow>
      recovery_timeout (new_breaker thr tmo) < t - last ts"
    using False by (intro gw_breaker.burst_window ts) (simp add: new_breaker_def)
  with False show ?thesis by (simp add: cb_fail_all_eq new_breaker_def)
qed

theorem breaker_trips_and_recovers_witness:
  "(0::int) < 5 \<and> \<not> fst (cb_allow 34 (cb_fail_all [1, 2, 3, 4, 5] default_breaker)) \<and>
   fst (cb_allow 36 (cb_fail_all [1, 2, 3, 4, 5] default_breaker))"
  using breaker_trips_and_recovers [of 5 34 "[1, 2, 3, 4, 5]" 30]
    breaker_trips_and_recovers [of 5 36 "[1, 2, 3, 4, 5]" 30] by simp

text \<open>On every run of a fresh breaker with a positive threshold, whatever the order of
  probes, successes, failures and resets, the closed state holds fewer failures than the
  threshold, so a denial means the breaker is open and within its window.\<close>

theorem breaker_denial_means_open:
  assumes "0 < thr" and "b = run_events cb_step (new_breaker thr tmo) es"
  shows "(cb_state b = CLOSED \<longrightarrow> failure_count b < thr) \<and>
    (\<not> fst (cb_allow t b) \<longrightarrow> cb_state b = OPEN \<and> t - last_failure_time b \<le> tmo)"
proof -
  have config: "failure_threshold b = thr \<and> recovery_timeout b = tmo"
    unfolding assms(2) by (rule run_events_inv) (auto simp: new_breaker_def)
  have "cb_inv b" unfolding assms(2) by (intro cb_inv_run cb_inv_new assms(1))
  with config show ?thesis by (auto simp: cb_inv_def cb_allow_iff)
qed

theorem breaker_denial_means_open_witness:
  "let b = run_events cb_step (new_breaker 1 30) [Failure 2, Allow 3]
   in \<not> fst (cb_allow 4 b) \<and> cb_state b = OPEN \<and> 4 - last_failure_time b \<le> 30"
  using breaker_denial_means_open [of 1 "run_events cb_step (new_breaker 1 30) [Failure 2, Allow 3]"
      30 "[Failure 2, Allow 3]" 4]
  by (simp add: cb_defs new_breaker_def)

text \<open>A half-open breaker admits every probe, not one: any series of probes leaves it half
  open and admits the next one too (the code's comment promises a single probe).\<close>

theorem half_open_admits_every_probe:
  assumes "cb_state b = HALF_OPEN"
  shows "run_events cb_step b (map Allow ts) = b \<and> fst (cb_allow t b)"
  using assms by (induction ts) (simp_all add: cb_allow_def)

theorem half_open_admits_every_probe_witness:
  "let b = snd (cb_allow 40 (cb_fail_all [1, 2, 3, 4, 5] default_breaker))
   in cb_state b = HALF_OPEN \<and> run_events cb_step b (map Allow [41, 42]) = b \<and>
      fst (cb_allow 43 b)"
  using half_open_admits_every_probe
    [of "snd (cb_allow 40 (cb_fail_all [1, 2, 3, 4, 5] default_breaker))" "[41, 42]" 43]
  by (simp add: cb_fail_all_def cb_defs new_breaker_def)

end
