(* ===== verification/Weighted.thy ===== *)
theory Weighted
  imports Prelude
begin

text \<open>
  The cumulative-weight selection that the key pool (\<^verbatim>\<open>SmartAPIKeyPool.get_key\<close>) and the router
  (\<^verbatim>\<open>GatewayRouter._weighted_select\<close>) share: walk the candidates, add up their weights, take
  the first one at which the sum reaches the random number.
\<close>

fun cum_pick :: "pyfloat \<Rightarrow> pyfloat \<Rightarrow> ('a \<times> pyfloat) list \<Rightarrow> 'a option" where
  "cum_pick r acc [] = None"
| "cum_pick r acc ((x, w) # xs) = (if r \<le> acc + w then Some x else cum_pick r (acc + w) xs)"

abbreviation total_weight :: "('a \<times> pyfloat) list \<Rightarrow> pyfloat" where
  "total_weight xs \<equiv> sum_list (map snd xs)"

lemma cum_pick_mem: "cum_pick r acc xs = Some x \<Longrightarrow> x \<in> fst ` set xs"
  by (induction r acc xs rule: cum_pick.induct) (auto split: if_splits)

lemma cum_pick_total:
  "xs \<noteq> [] \<Longrightarrow> r \<le> acc + total_weight xs \<Longrightarrow> \<exists>x. cum_pick r acc xs = Some x"
proof (induction r acc xs rule: cum_pick.induct)
  case (2 r acc x w xs)
  then show ?case by (cases "xs = []") (auto simp: add.assoc)
qed simp

lemma cum_pick_skip:
  "(\<And>w. w \<in> snd ` set ys \<Longrightarrow> 0 \<le> w) \<Longrightarrow> acc + total_weight ys < r \<Longrightarrow>
   cum_pick r acc (ys @ xs) = cum_pick r (acc + total_weight ys) xs"
proof (induction ys arbitrary: acc)
  case Nil
  then show ?case by simp
next
  case (Cons y ys)
  obtain x w where y: "y = (x, w)" by (cases y)
  have "0 \<le> total_weight ys" using Cons.prems(1) by (intro sum_list_nonneg) auto
  with Cons show ?case by (simp add: y add.assoc)
qed

text \<open>Each candidate owns the half-open interval of its weight.\<close>

lemma cum_pick_interval:
  assumes "\<And>w. w \<in> snd ` set ys \<Longrightarrow> 0 \<le> w"
    and "total_weight ys < r" and "r \<le> total_weight ys + w"
  shows "cum_pick r 0 (ys @ (x, w) # zs) = Some x"
  using cum_pick_skip [of ys 0 r "(x, w) # zs"] assms by simp

lemma total_weight_nonneg: "(\<And>w. w \<in> snd ` set xs \<Longrightarrow> 0 \<le> w) \<Longrightarrow> 0 \<le> total_weight xs"
  by (intro sum_list_nonneg) auto

text \<open>A scaled random number in the unit interval never exceeds the total.\<close>

lemma scaled_le_total:
  assumes "\<And>w. w \<in> snd ` set xs \<Longrightarrow> 0 \<le> w" and "0 \<le> u" and "u \<le> (1 :: pyfloat)"
  shows "u * total_weight xs \<le> 0 + total_weight xs"
  using assms total_weight_nonneg [of xs] by (simp add: mult_left_le_one_le)

end
