(* ===== verification/KeyPool.thy ===== *)
theory KeyPool
  imports Circuit Weighted
begin

text \<open>
  The API-key pool of \<^verbatim>\<open>app/gateway/smart_key_pool.py\<close>: keys grouped by provider, each with a
  weight, a failure count and its own circuit breaker. Clock readings and the random number are
  arguments; the asyncio lock makes each method body one atomic step.
\<close>

section \<open>The breaker of a key\<close>

datatype key_status = ACTIVE | RATE_LIMITED | CIRCUIT_OPEN

record key_breaker =
  kb_threshold :: int
  kb_timeout :: pyfloat
  kb_failures :: int
  kb_last :: pyfloat
  kb_state :: circuit_state

definition new_key_breaker :: "int \<Rightarrow> pyfloat \<Rightarrow> key_breaker" where
  "new_key_breaker thr tmo = \<lparr>kb_threshold = thr, kb_timeout = tmo, kb_failures = 0,
     kb_last = 0, kb_state = CLOSED\<rparr>"

definition kb_record_success :: "key_breaker \<Rightarrow> key_breaker" where
  "kb_record_success b = b\<lparr>kb_failures := 0, kb_state := CLOSED\<rparr>"

definition kb_record_failure :: "pyfloat \<Rightarrow> key_breaker \<Rightarrow> key_breaker" where
  "kb_record_failure now b =
     (let b' = b\<lparr>kb_failures := kb_failures b + 1, kb_last := now\<rparr>
      in if kb_failures b' \<ge> kb_threshold b' then b'\<lparr>kb_state := OPEN\<rparr> else b')"

text \<open>\<open>is_open\<close> also moves the breaker to half open when its window has passed.\<close>

definition kb_is_open :: "pyfloat \<Rightarrow> key_breaker \<Rightarrow> bool \<times> key_breaker" where
  "kb_is_open now b =
     (if kb_state b = CLOSED then (False, b)
      else if now - kb_last b > kb_timeout b then (False, b\<lparr>kb_state := HALF_OPEN\<rparr>)
      else (True, b))"

definition kb_is_half_open :: "key_breaker \<Rightarrow> bool" where
  "kb_is_half_open b \<longleftrightarrow> kb_state b = HALF_OPEN"

lemmas kb_defs = kb_record_success_def kb_record_failure_def kb_is_open_def Let_def

definition kb_probe :: "pyfloat \<Rightarrow> key_breaker \<Rightarrow> bool \<times> key_breaker" where
  "kb_probe now b = (case kb_is_open now b of (op, b') \<Rightarrow> (\<not> op, b'))"

interpretation key_breaker: breaker kb_probe kb_record_failure kb_failures kb_threshold
  kb_timeout kb_last "\<lambda>b. kb_state b = OPEN"
  by unfold_locales (auto simp: kb_defs kb_probe_def)

section \<open>Keys and pools\<close>

record key_info =
  ki_key :: string
  ki_provider :: string
  ki_weight :: pyfloat
  ki_failures :: int
  ki_last_used :: pyfloat
  ki_status :: key_status
  ki_breaker :: "key_breaker option"
  ki_remark :: string

record key_pool =
  kp_threshold :: int
  kp_timeout :: pyfloat
  kp_decay :: pyfloat
  kp_recovery :: pyfloat
  kp_max_weight :: pyfloat
  kp_pools :: "(string, key_info list) dict"

definition new_key_info :: "int \<Rightarrow> pyfloat \<Rightarrow> string \<Rightarrow> string \<Rightarrow> string \<Rightarrow> key_info" where
  "new_key_info thr tmo provider key remark = \<lparr>ki_key = key, ki_provider = provider,
     ki_weight = 1, ki_failures = 0, ki_last_used = 0, ki_status = ACTIVE,
     ki_breaker = Some (new_key_breaker thr tmo), ki_remark = remark\<rparr>"

definition init_pool ::
  "(string, string list) dict \<Rightarrow> int \<Rightarrow> pyfloat \<Rightarrow> pyfloat \<Rightarrow> pyfloat \<Rightarrow> pyfloat \<Rightarrow> key_pool" where
  "init_pool ks thr tmo decay recov mx = \<lparr>kp_threshold = thr, kp_timeout = tmo,
     kp_decay = decay, kp_recovery = recov, kp_max_weight = mx,
     kp_pools = map (\<lambda>(p, l). (p, map (\<lambda>k. new_key_info thr tmo p k []) l)) ks\<rparr>"

section \<open>Choosing a key\<close>

text \<open>
  The filter \<open>not k.circuit_breaker or not k.circuit_breaker.is_open()\<close>: whether the key is
  available, and the key with its breaker as \<open>is_open\<close> left it.
\<close>

definition probe_key :: "pyfloat \<Rightarrow> key_info \<Rightarrow> bool \<times> key_info" where
  "probe_key now k =
     (case ki_breaker k of
        None \<Rightarrow> (True, k)
      | Some b \<Rightarrow>
          (case kb_is_open now b of (op, b') \<Rightarrow> (\<not> op, k\<lparr>ki_breaker := Some b'\<rparr>)))"

definition available_idx :: "pyfloat \<Rightarrow> key_info list \<Rightarrow> nat list" where
  "available_idx now pool = filter (\<lambda>i. fst (probe_key now (pool ! i))) [0..<length pool]"

definition opt_min :: "pyfloat \<Rightarrow> pyfloat option \<Rightarrow> pyfloat option" where
  "opt_min w m = Some (case m of None \<Rightarrow> w | Some v \<Rightarrow> min w v)"

text \<open>\<open>_calc_recovery_wait\<close>; \<open>None\<close> is the infinite wait.\<close>

fun calc_recovery_wait :: "pyfloat \<Rightarrow> key_info list \<Rightarrow> pyfloat option \<times> key_info list" where
  "calc_recovery_wait now [] = (None, [])"
| "calc_recovery_wait now (k # ks) =
     (case calc_recovery_wait now ks of (m, ks') \<Rightarrow>
        (case ki_breaker k of
           None \<Rightarrow> (m, k # ks')
         | Some b \<Rightarrow>
             (case kb_is_open now b of (op, b') \<Rightarrow>
                (if op then opt_min (max 0 (kb_timeout b' - (now - kb_last b'))) m else m,
                 k\<lparr>ki_breaker := Some b'\<rparr> # ks'))))"

datatype key_result = NoKey | Got string | Wait pyfloat

text \<open>
  One pass of \<open>get_key\<close>: \<open>now1\<close> is the clock while filtering, \<open>now2\<close> the clock of the later
  readings, \<open>u\<close> the unit random number behind \<open>random.uniform(0, total)\<close>.
\<close>

definition choose_idx :: "pyfloat \<Rightarrow> key_info list \<Rightarrow> nat list \<Rightarrow> nat" where
  "choose_idx u pool av =
     (let cand = map (\<lambda>i. (i, ki_weight (pool ! i))) av
      in case cum_pick (u * total_weight cand) 0 cand of Some i \<Rightarrow> i | None \<Rightarrow> hd av)"

definition try_get_key ::
  "pyfloat \<Rightarrow> pyfloat \<Rightarrow> pyfloat \<Rightarrow> string \<Rightarrow> key_pool \<Rightarrow> key_result \<times> key_pool" where
  "try_get_key now1 now2 u provider kp =
     (let pool = dget_or (kp_pools kp) provider [];
          upd = (\<lambda>p. kp\<lparr>kp_pools := dset provider p (kp_pools kp)\<rparr>)
      in if pool = [] then (NoKey, kp)
         else
           let pool1 = map (snd \<circ> probe_key now1) pool; av = available_idx now1 pool
           in if av = [] then
                (case calc_recovery_wait now2 pool1 of
                   (None, pool2) \<Rightarrow> (NoKey, upd pool2)
                 | (Some w, pool2) \<Rightarrow> (Wait w, upd pool2))
              else
                let i = choose_idx u pool1 av
                in (Got (ki_key (pool1 ! i)),
                    upd (pool1[i := (pool1 ! i)\<lparr>ki_last_used := now2\<rparr>])))"


section \<open>Reports and administration\<close>

text \<open>The double loops over \<open>self._pools\<close> that update the first matching key and return.\<close>

fun update_first :: "('a \<Rightarrow> bool) \<Rightarrow> ('a \<Rightarrow> 'a) \<Rightarrow> 'a list \<Rightarrow> 'a list option" where
  "update_first p f [] = None"
| "update_first p f (x # xs) =
     (if p x then Some (f x # xs) else map_option ((#) x) (update_first p f xs))"

fun update_first_pool ::
  "('a \<Rightarrow> bool) \<Rightarrow> ('a \<Rightarrow> 'a) \<Rightarrow> (string, 'a list) dict \<Rightarrow> (string, 'a list) dict option" where
  "update_first_pool p f [] = None"
| "update_first_pool p f ((q, l) # d) =
     (case update_first p f l of
        Some l' \<Rightarrow> Some ((q, l') # d)
      | None \<Rightarrow> map_option ((#) (q, l)) (update_first_pool p f d))"

definition success_key :: "key_pool \<Rightarrow> key_info \<Rightarrow> key_info" where
  "success_key kp k = k\<lparr>ki_failures := max 0 (ki_failures k - 1),
     ki_weight := min (kp_max_weight kp) (ki_weight k * kp_recovery kp),
     ki_status := ACTIVE, ki_breaker := map_option kb_record_success (ki_breaker k)\<rparr>"

definition report_success :: "string \<Rightarrow> key_pool \<Rightarrow> key_pool" where
  "report_success key kp =
     (case update_first_pool (\<lambda>k. ki_key k = key) (success_key kp) (kp_pools kp) of
        None \<Rightarrow> kp | Some d \<Rightarrow> kp\<lparr>kp_pools := d\<rparr>)"

definition failure_key :: "pyfloat \<Rightarrow> pyfloat \<Rightarrow> key_pool \<Rightarrow> key_info \<Rightarrow> key_info" where
  "failure_key now now' kp k =
     (let k' = k\<lparr>ki_failures := ki_failures k + 1, ki_weight := ki_weight k * kp_decay kp\<rparr>
      in case ki_breaker k' of
           None \<Rightarrow> k'
         | Some b \<Rightarrow>
             (case kb_is_open now' (kb_record_failure now b) of (op, b') \<Rightarrow>
                let k2 = k'\<lparr>ki_breaker := Some b'\<rparr>
                in if op then k2\<lparr>ki_status := CIRCUIT_OPEN\<rparr> else k2))"

definition report_failure :: "pyfloat \<Rightarrow> pyfloat \<Rightarrow> string \<Rightarrow> key_pool \<Rightarrow> key_pool" where
  "report_failure now now' key kp =
     (case update_first_pool (\<lambda>k. ki_key k = key) (failure_key now now' kp) (kp_pools kp) of
        None \<Rightarrow> kp | Some d \<Rightarrow> kp\<lparr>kp_pools := d\<rparr>)"

definition add_key :: "string \<Rightarrow> string \<Rightarrow> string \<Rightarrow> key_pool \<Rightarrow> key_pool" where
  "add_key provider key remark kp =
     (let d = (if dget (kp_pools kp) provider = None then dset provider [] (kp_pools kp)
               else kp_pools kp)
      in kp\<lparr>kp_pools := dset provider
           (dget_or d provider [] @
              [new_key_info (kp_threshold kp) (kp_timeout kp) provider key remark]) d\<rparr>)"

fun remove_first :: "('a \<Rightarrow> bool) \<Rightarrow> 'a list \<Rightarrow> 'a list option" where
  "remove_first p [] = None"
| "remove_first p (x # xs) = (if p x then Some xs else map_option ((#) x) (remove_first p xs))"

definition remove_key :: "string \<Rightarrow> string \<Rightarrow> key_pool \<Rightarrow> bool \<times> key_pool" where
  "remove_key provider key kp =
     (case remove_first (\<lambda>k. ki_key k = key) (dget_or (kp_pools kp) provider []) of
        None \<Rightarrow> (False, kp)
      | Some l \<Rightarrow> (True, kp\<lparr>kp_pools := dset provider l (kp_pools kp)\<rparr>))"

text \<open>\<open>digest\<close> is the hexadecimal SHA-256 of \<^verbatim>\<open>hashlib\<close>.\<close>

definition key_id :: "(string \<Rightarrow> string) \<Rightarrow> string \<Rightarrow> string \<Rightarrow> string" where
  "key_id digest provider key = provider @ ''-'' @ take 12 (digest (provider @ '':'' @ key))"

definition parse_status :: "string \<Rightarrow> key_status option" where
  "parse_status s =
     (if s = ''active'' then Some ACTIVE
      else if s = ''rate_limited'' then Some RATE_LIMITED
      else if s = ''circuit_open'' then Some CIRCUIT_OPEN else None)"

definition set_status :: "key_status \<Rightarrow> key_info \<Rightarrow> key_info" where
  "set_status st k =
     (let k' = k\<lparr>ki_status := st\<rparr>
      in if st = ACTIVE then k'\<lparr>ki_breaker := map_option kb_record_success (ki_breaker k')\<rparr>
         else k')"

definition update_key_status ::
  "(string \<Rightarrow> string) \<Rightarrow> string \<Rightarrow> string \<Rightarrow> key_pool \<Rightarrow> bool \<times> key_pool" where
  "update_key_status digest kid status kp =
     (case parse_status status of
        None \<Rightarrow> (False, kp)
      | Some st \<Rightarrow>
          (case update_first_pool (\<lambda>k. key_id digest (ki_provider k) (ki_key k) = kid)
                  (set_status st) (kp_pools kp) of
             None \<Rightarrow> (False, kp)
           | Some d \<Rightarrow> (True, kp\<lparr>kp_pools := d\<rparr>)))"

fun remove_first_pool ::
  "('a \<Rightarrow> bool) \<Rightarrow> (string, 'a list) dict \<Rightarrow> (string, 'a list) dict option" where
  "remove_first_pool p [] = None"
| "remove_first_pool p ((q, l) # d) =
     (case remove_first p l of
        Some l' \<Rightarrow> Some (if l' = [] then d else (q, l') # d)
      | None \<Rightarrow> map_option ((#) (q, l)) (remove_first_pool p d))"

definition remove_key_by_id :: "(string \<Rightarrow> string) \<Rightarrow> string \<Rightarrow> key_pool \<Rightarrow> bool \<times> key_pool" where
  "remove_key_by_id digest kid kp =
     (case remove_first_pool (\<lambda>k. key_id digest (ki_provider k) (ki_key k) = kid) (kp_pools kp) of
        None \<Rightarrow> (False, kp)
      | Some d \<Rightarrow> (True, kp\<lparr>kp_pools := d\<rparr>))"

section \<open>Statistics\<close>

record pool_stats =
  st_total :: nat
  st_active :: nat
  st_rate_limited :: nat
  st_circuit_open :: nat

definition count_status :: "key_status \<Rightarrow> key_info list \<Rightarrow> nat" where
  "count_status st pool = length (filter (\<lambda>k. ki_status k = st) pool)"

definition provider_stats :: "key_info list \<Rightarrow> pool_stats" where
  "provider_stats pool = \<lparr>st_total = length pool, st_active = count_status ACTIVE pool,
     st_rate_limited = count_status RATE_LIMITED pool,
     st_circuit_open = count_status CIRCUIT_OPEN pool\<rparr>"

fun add_stats :: "pool_stats \<Rightarrow> key_info list \<Rightarrow> pool_stats" where
  "add_stats s [] = s"
| "add_stats s (k # ks) =
     (let s' = s\<lparr>st_total := st_total s + 1\<rparr>
      in add_stats
           (case ki_status k of
              ACTIVE \<Rightarrow> s'\<lparr>st_active := st_active s' + 1\<rparr>
            | RATE_LIMITED \<Rightarrow> s'\<lparr>st_rate_limited := st_rate_limited s' + 1\<rparr>
            | CIRCUIT_OPEN \<Rightarrow> s'\<lparr>st_circuit_open := st_circuit_open s' + 1\<rparr>) ks)"

definition zero_stats :: pool_stats where
  "zero_stats = \<lparr>st_total = 0, st_active = 0, st_rate_limited = 0, st_circuit_open = 0\<rparr>"

definition kp_get_stats :: "key_pool \<Rightarrow> pool_stats \<times> (string, pool_stats) dict" where
  "kp_get_stats kp =
     (foldl add_stats zero_stats (map snd (kp_pools kp)),
      map (\<lambda>(p, l). (p, provider_stats l)) (kp_pools kp))"

record key_view =
  kv_id :: string
  kv_provider :: string
  kv_key :: string
  kv_weight :: pyfloat
  kv_failures :: int
  kv_status :: key_status
  kv_last_used :: pyfloat
  kv_remark :: string

definition key_view_of :: "(string \<Rightarrow> string) \<Rightarrow> string \<Rightarrow> key_info \<Rightarrow> key_view" where
  "key_view_of digest p k = \<lparr>kv_id = key_id digest (ki_provider k) (ki_key k), kv_provider = p,
     kv_key = take 20 (ki_key k) @ ''...'', kv_weight = ki_weight k, kv_failures = ki_failures k,
     kv_status = ki_status k, kv_last_used = ki_last_used k, kv_remark = ki_remark k\<rparr>"

definition get_all_keys :: "(string \<Rightarrow> string) \<Rightarrow> key_pool \<Rightarrow> key_view list" where
  "get_all_keys digest kp = concat (map (\<lambda>(p, l). map (key_view_of digest p) l) (kp_pools kp))"

section \<open>Selection\<close>

lemma choose_idx_mem:
  assumes "av \<noteq> []"
  shows "choose_idx u pool av \<in> set av"
proof -
  let ?c = "map (\<lambda>i. (i, ki_weight (pool ! i))) av"
  show ?thesis
  proof (cases "cum_pick (u * total_weight ?c) 0 ?c")
    case None
    with assms show ?thesis by (simp add: choose_idx_def Let_def)
  next
    case (Some i)
    from cum_pick_mem [OF Some] Some show ?thesis by (auto simp: choose_idx_def Let_def)
  qed
qed

lemma available_idx_iff [simp]:
  "i \<in> set (available_idx now pool) \<longleftrightarrow> i < length pool \<and> fst (probe_key now (pool ! i))"
  by (auto simp: available_idx_def)

lemma probe_key_frame [simp]:
  "ki_key (snd (probe_key now k)) = ki_key k" "ki_weight (snd (probe_key now k)) = ki_weight k"
  "ki_provider (snd (probe_key now k)) = ki_provider k"
  by (auto simp: probe_key_def split: option.splits prod.splits)

lemma try_get_key_Got:
  assumes "try_get_key n1 n2 u p kp = (Got k, kp')"
  shows "\<exists>x \<in> set (dget_or (kp_pools kp) p []). ki_key x = k \<and> fst (probe_key n1 x)"
proof -
  define pool where "pool = dget_or (kp_pools kp) p []"
  define av where "av = available_idx n1 pool"
  define i where "i = choose_idx u (map (snd \<circ> probe_key n1) pool) av"
  from assms have av: "av \<noteq> []" and k: "k = ki_key (map (snd \<circ> probe_key n1) pool ! i)"
    by (auto simp: try_get_key_def Let_def pool_def av_def i_def split: if_splits option.splits
        prod.splits)
  have "i \<in> set av" unfolding i_def using av by (rule choose_idx_mem)
  then have "i < length pool \<and> fst (probe_key n1 (pool ! i))" by (simp add: av_def)
  with k show ?thesis by (intro bexI [of _ "pool ! i"]) (auto simp: pool_def)
qed

section \<open>Waiting for a recovery\<close>

lemma length_calc_recovery_wait [simp]: "length (snd (calc_recovery_wait now ks)) = length ks"
  by (induction ks) (auto split: prod.splits option.splits)




section \<open>The weight invariant\<close>

definition all_keys :: "('a \<Rightarrow> bool) \<Rightarrow> (string, 'a list) dict \<Rightarrow> bool" where
  "all_keys P d \<longleftrightarrow> (\<forall>l \<in> snd ` set d. \<forall>k \<in> set l. P k)"

lemma all_keys_simps [simp]:
  "all_keys P []" "all_keys P ((q, l) # d) \<longleftrightarrow> (\<forall>k \<in> set l. P k) \<and> all_keys P d"
  by (auto simp: all_keys_def)

lemma all_keys_dget_or: "all_keys P d \<Longrightarrow> k \<in> set (dget_or d q []) \<Longrightarrow> P k"
  by (fastforce simp: all_keys_def dget_or_def split: option.splits dest: map_of_SomeD [OF sym])

lemma all_keys_dset: "all_keys P d \<Longrightarrow> (\<forall>k \<in> set l. P k) \<Longrightarrow> all_keys P (dset q l d)"
  by (induction d) auto

lemma update_first_set:
  "update_first p f l = Some l' \<Longrightarrow> \<forall>k \<in> set l. P k \<Longrightarrow> (\<And>k. P k \<Longrightarrow> P (f k)) \<Longrightarrow>
   \<forall>k \<in> set l'. P k"
  by (induction l arbitrary: l') (auto split: if_splits)

lemma all_keys_update_first:
  "update_first_pool p f d = Some d' \<Longrightarrow> all_keys P d \<Longrightarrow> (\<And>k. P k \<Longrightarrow> P (f k)) \<Longrightarrow>
   all_keys P d'"
proof (induction p f d arbitrary: d' rule: update_first_pool.induct)
  case (2 p f q l d)
  then show ?case
    using update_first_set [of p f l _ P] by (auto split: option.splits)
qed simp

lemma remove_first_subset: "remove_first p l = Some l' \<Longrightarrow> set l' \<subseteq> set l"
  by (induction l arbitrary: l') (auto split: if_splits)

lemma all_keys_remove_first:
  "remove_first_pool p d = Some d' \<Longrightarrow> all_keys P d \<Longrightarrow> all_keys P d'"
proof (induction p d arbitrary: d' rule: remove_first_pool.induct)
  case (2 p q l d)
  then show ?case
    using remove_first_subset [of p l] by (fastforce split: option.splits if_splits)
qed simp

datatype pool_event =
    GetKey pyfloat pyfloat pyfloat string
  | ReportSuccess string
  | ReportFailure pyfloat pyfloat string
  | AddKey string string string
  | RemoveKey string string
  | UpdateStatus string string
  | RemoveById string

fun pool_step :: "(string \<Rightarrow> string) \<Rightarrow> key_pool \<Rightarrow> pool_event \<Rightarrow> key_pool" where
  "pool_step dg kp (GetKey n1 n2 u p) = snd (try_get_key n1 n2 u p kp)"
| "pool_step dg kp (ReportSuccess k) = report_success k kp"
| "pool_step dg kp (ReportFailure n n' k) = report_failure n n' k kp"
| "pool_step dg kp (AddKey p k r) = add_key p k r kp"
| "pool_step dg kp (RemoveKey p k) = snd (remove_key p k kp)"
| "pool_step dg kp (UpdateStatus i st) = snd (update_key_status dg i st kp)"
| "pool_step dg kp (RemoveById i) = snd (remove_key_by_id dg i kp)"

definition pool_config_ok :: "key_pool \<Rightarrow> bool" where
  "pool_config_ok kp \<longleftrightarrow> 0 < kp_decay kp \<and> kp_decay kp \<le> 1 \<and> 0 < kp_recovery kp \<and>
     1 \<le> kp_max_weight kp"

definition weight_ok :: "key_pool \<Rightarrow> key_info \<Rightarrow> bool" where
  "weight_ok kp k \<longleftrightarrow> 0 < ki_weight k \<and> ki_weight k \<le> kp_max_weight kp"

definition weights_ok :: "key_pool \<Rightarrow> bool" where
  "weights_ok kp \<longleftrightarrow> pool_config_ok kp \<and> all_keys (weight_ok kp) (kp_pools kp)"

lemma weights_ok_update [simp]:
  "weights_ok (kp\<lparr>kp_pools := d\<rparr>) \<longleftrightarrow> pool_config_ok kp \<and> all_keys (weight_ok kp) d"
proof -
  have "weight_ok (kp\<lparr>kp_pools := d\<rparr>) = weight_ok kp" by (rule ext) (simp add: weight_ok_def)
  then show ?thesis by (simp add: weights_ok_def pool_config_ok_def)
qed

lemma weight_ok_success: "pool_config_ok kp \<Longrightarrow> weight_ok kp k \<Longrightarrow> weight_ok kp (success_key kp k)"
  by (auto simp: weight_ok_def success_key_def pool_config_ok_def)

lemma ki_weight_failure [simp]: "ki_weight (failure_key n n' kp k) = ki_weight k * kp_decay kp"
  by (auto simp: failure_key_def Let_def split: option.splits prod.splits)

lemma weight_ok_failure:
  "pool_config_ok kp \<Longrightarrow> weight_ok kp k \<Longrightarrow> weight_ok kp (failure_key n n' kp k)"
  by (auto simp: weight_ok_def pool_config_ok_def intro: order_trans [OF mult_right_le_one_le])

lemma weight_ok_set_status [simp]: "weight_ok kp (set_status st k) = weight_ok kp k"
  by (simp add: weight_ok_def set_status_def Let_def)

lemma weight_ok_new: "pool_config_ok kp \<Longrightarrow> weight_ok kp (new_key_info t o' p k r)"
  by (simp add: weight_ok_def new_key_info_def pool_config_ok_def)

lemma calc_recovery_wait_weights:
  "\<forall>k \<in> set ks. weight_ok kp k \<Longrightarrow> k \<in> set (snd (calc_recovery_wait now ks)) \<Longrightarrow> weight_ok kp k"
  by (induction ks) (auto simp: weight_ok_def split: prod.splits option.splits)

lemma weights_ok_try_get_key:
  assumes "weights_ok kp"
  shows "weights_ok (snd (try_get_key n1 n2 u p kp))"
proof -
  define pool where "pool = dget_or (kp_pools kp) p []"
  define pool1 where "pool1 = map (snd \<circ> probe_key n1) pool"
  have "\<forall>k \<in> set pool. weight_ok kp k"
    using assms all_keys_dget_or unfolding weights_ok_def pool_def by metis
  then have pool1: "\<forall>k \<in> set pool1. weight_ok kp k" by (simp add: pool1_def weight_ok_def)
  have wait: "\<forall>k \<in> set pool2. weight_ok kp k" if "calc_recovery_wait n2 pool1 = (m, pool2)"
    for m pool2 using calc_recovery_wait_weights [OF pool1, of _ n2] that by simp
  have used: "\<forall>k \<in> set (pool1[i := (pool1 ! i)\<lparr>ki_last_used := n2\<rparr>]). weight_ok kp k" for i
  proof (cases "i < length pool1")
    case True
    then have "weight_ok kp (pool1 ! i)" using pool1 by simp
    then have "weight_ok kp ((pool1 ! i)\<lparr>ki_last_used := n2\<rparr>)" by (simp add: weight_ok_def)
    then show ?thesis using pool1 set_update_subset_insert by fastforce
  next
    case False
    then show ?thesis using pool1 by (simp add: list_update_beyond)
  qed
  have "pool_config_ok kp" "all_keys (weight_ok kp) (kp_pools kp)"
    using assms by (simp_all add: weights_ok_def)
  then show ?thesis
    using assms wait used
    by (auto simp: try_get_key_def Let_def pool_def [symmetric] pool1_def [symmetric]
        split: prod.splits option.splits intro!: all_keys_dset)
qed

lemma weights_ok_step: "weights_ok kp \<Longrightarrow> weights_ok (pool_step dg kp e)"
proof (cases e)
  case (GetKey n1 n2 u p)
  then show "weights_ok kp \<Longrightarrow> ?thesis" by (simp add: weights_ok_try_get_key)
next
  case (ReportSuccess k)
  then show "weights_ok kp \<Longrightarrow> ?thesis"
    by (auto simp: report_success_def weights_ok_def [of kp] split: option.splits
        elim!: all_keys_update_first intro: weight_ok_success)
next
  case (ReportFailure n n' k)
  then show "weights_ok kp \<Longrightarrow> ?thesis"
    by (auto simp: report_failure_def weights_ok_def [of kp] split: option.splits
        elim!: all_keys_update_first intro: weight_ok_failure)
next
  case (AddKey p k r)
  then show "weights_ok kp \<Longrightarrow> ?thesis"
    by (auto simp: add_key_def Let_def weights_ok_def [of kp] weight_ok_new
        intro!: all_keys_dset dest: all_keys_dget_or)
next
  case (RemoveKey p k)
  then show "weights_ok kp \<Longrightarrow> ?thesis"
    by (auto simp: remove_key_def weights_ok_def [of kp] split: option.splits
        intro!: all_keys_dset dest!: remove_first_subset dest: all_keys_dget_or)
next
  case (UpdateStatus i st)
  then show "weights_ok kp \<Longrightarrow> ?thesis"
    by (auto simp: update_key_status_def weights_ok_def [of kp] split: option.splits
        elim!: all_keys_update_first)
next
  case (RemoveById i)
  then show "weights_ok kp \<Longrightarrow> ?thesis"
    by (auto simp: remove_key_by_id_def weights_ok_def [of kp] split: option.splits
        elim!: all_keys_remove_first)
qed

lemma weights_ok_init:
  "0 < decay \<Longrightarrow> decay \<le> 1 \<Longrightarrow> 0 < recov \<Longrightarrow> 1 \<le> mx \<Longrightarrow> weights_ok (init_pool ks thr tmo decay recov mx)"
  by (auto simp: weights_ok_def pool_config_ok_def all_keys_def init_pool_def weight_ok_def
      new_key_info_def)

section \<open>Statistics add up\<close>

lemma add_stats_eq:
  "add_stats s l = \<lparr>st_total = st_total s + length l,
     st_active = st_active s + count_status ACTIVE l,
     st_rate_limited = st_rate_limited s + count_status RATE_LIMITED l,
     st_circuit_open = st_circuit_open s + count_status CIRCUIT_OPEN l\<rparr>"
proof (induction l arbitrary: s)
  case Nil
  then show ?case by (simp add: count_status_def)
next
  case (Cons k l)
  then show ?case by (cases "ki_status k") (simp_all add: count_status_def)
qed

lemma count_status_total:
  "count_status ACTIVE l + count_status RATE_LIMITED l + count_status CIRCUIT_OPEN l = length l"
proof (induction l)
  case Nil
  then show ?case by (simp add: count_status_def)
next
  case (Cons k l)
  then show ?case by (cases "ki_status k") (simp_all add: count_status_def)
qed

lemma foldl_add_stats:
  "foldl add_stats s ls = \<lparr>st_total = st_total s + sum_list (map length ls),
     st_active = st_active s + sum_list (map (count_status ACTIVE) ls),
     st_rate_limited = st_rate_limited s + sum_list (map (count_status RATE_LIMITED) ls),
     st_circuit_open = st_circuit_open s + sum_list (map (count_status CIRCUIT_OPEN) ls)\<rparr>"
  by (induction ls arbitrary: s) (simp_all add: add_stats_eq)

section \<open>The administrative status and the selection\<close>

text \<open>\<open>forget_status\<close> is a key without its administrative status; the selection never reads it.\<close>

definition forget_status :: "key_info \<Rightarrow> key_info" where
  "forget_status k = k\<lparr>ki_status := ACTIVE\<rparr>"

definition forget_pool :: "key_pool \<Rightarrow> key_pool" where
  "forget_pool kp = kp\<lparr>kp_pools := map (\<lambda>(q, l). (q, map forget_status l)) (kp_pools kp)\<rparr>"

lemma forget_status_frame [simp]:
  "ki_key (forget_status k) = ki_key k" "ki_weight (forget_status k) = ki_weight k"
  "ki_breaker (forget_status k) = ki_breaker k"
  by (simp_all add: forget_status_def)

lemma probe_key_forget:
  "probe_key now (forget_status k) = (fst (probe_key now k), forget_status (snd (probe_key now k)))"
  by (auto simp: probe_key_def forget_status_def split: option.splits prod.splits)

lemma calc_recovery_wait_forget:
  "fst (calc_recovery_wait now (map forget_status ks)) = fst (calc_recovery_wait now ks)"
  by (induction ks) (auto split: prod.splits option.splits)

lemma available_idx_forget: "available_idx now (map forget_status l) = available_idx now l"
  by (auto simp: available_idx_def probe_key_forget intro!: filter_cong)

lemma choose_idx_forget:
  assumes "\<forall>i \<in> set av. i < length l"
  shows "choose_idx u (map forget_status l) av = choose_idx u l av"
proof -
  have "map (\<lambda>i. (i, ki_weight (map forget_status l ! i))) av = map (\<lambda>i. (i, ki_weight (l ! i))) av"
    using assms by auto
  then show ?thesis by (simp only: choose_idx_def Let_def)
qed

lemma dget_or_forget:
  "dget_or (map (\<lambda>(q, l). (q, map forget_status l)) d) q [] = map forget_status (dget_or d q [])"
  by (simp add: dget_or_def map_of_map split: option.splits)

lemma fst_case_wait:
  "fst (case r of (None, a) \<Rightarrow> (NoKey, f a) | (Some w, a) \<Rightarrow> (Wait w, f a)) =
   (case fst r of None \<Rightarrow> NoKey | Some w \<Rightarrow> Wait w)"
  by (cases r) (simp split: option.splits)

lemma try_get_key_forget: "fst (try_get_key n1 n2 u p (forget_pool kp)) = fst (try_get_key n1 n2 u p kp)"
proof -
  define pool where "pool = dget_or (kp_pools kp) p []"
  have get: "dget_or (kp_pools (forget_pool kp)) p [] = map forget_status pool"
    by (simp add: forget_pool_def dget_or_forget pool_def)
  have probed: "map (snd \<circ> probe_key n1) (map forget_status pool) =
      map forget_status (map (snd \<circ> probe_key n1) pool)"
    by (simp add: probe_key_forget)
  have "choose_idx u (map forget_status (map (snd \<circ> probe_key n1) pool)) (available_idx n1 pool) =
      choose_idx u (map (snd \<circ> probe_key n1) pool) (available_idx n1 pool)"
    by (rule choose_idx_forget) simp
  moreover have "choose_idx u (map (snd \<circ> probe_key n1) pool) (available_idx n1 pool) < length pool"
    if "available_idx n1 pool \<noteq> []"
    using choose_idx_mem [OF that, of u "map (snd \<circ> probe_key n1) pool"] by simp
  ultimately show ?thesis
    unfolding try_get_key_def Let_def get probed available_idx_forget pool_def [symmetric]
    by (simp add: fst_case_wait calc_recovery_wait_forget del: map_map)
qed

lemma update_first_forget:
  "update_first p f l = Some l' \<Longrightarrow> (\<And>k. forget_status (f k) = forget_status k) \<Longrightarrow>
   map forget_status l' = map forget_status l"
  by (induction l arbitrary: l') (auto split: if_splits)

lemma update_first_pool_forget:
  "update_first_pool p f d = Some d' \<Longrightarrow> (\<And>k. forget_status (f k) = forget_status k) \<Longrightarrow>
   map (\<lambda>(q, l). (q, map forget_status l)) d' = map (\<lambda>(q, l). (q, map forget_status l)) d"
proof (induction p f d arbitrary: d' rule: update_first_pool.induct)
  case (2 p f q l d)
  then show ?case using update_first_forget [of p f l] by (auto split: option.splits)
qed simp

lemma update_key_status_forget:
  assumes "status \<noteq> ''active''"
  shows "forget_pool (snd (update_key_status dg kid status kp)) = forget_pool kp"
proof (cases "parse_status status")
  case None
  then show ?thesis by (simp add: update_key_status_def)
next
  case (Some st)
  with assms have "st \<noteq> ACTIVE" by (auto simp: parse_status_def split: if_splits)
  then have "forget_status (set_status st k) = forget_status k" for k
    by (simp add: set_status_def forget_status_def)
  with Some show ?thesis
    by (auto simp: update_key_status_def forget_pool_def split: option.splits
        dest!: update_first_pool_forget)
qed

section \<open>Properties\<close>

text \<open>A key that \<open>get_key\<close> returns belongs to the requested provider's pool, and its breaker
  admitted the request when the pool was filtered.\<close>

theorem get_key_returns_available:
  assumes "try_get_key n1 n2 u p kp = (Got k, kp')"
  shows "\<exists>x \<in> set (dget_or (kp_pools kp) p []). ki_key x = k \<and>
    (case ki_breaker x of None \<Rightarrow> True
     | Some b \<Rightarrow> kb_state b = CLOSED \<or> kb_timeout b < n1 - kb_last b)"
proof -
  from try_get_key_Got [OF assms] obtain x where x: "x \<in> set (dget_or (kp_pools kp) p [])"
    "ki_key x = k" "fst (probe_key n1 x)" by blast
  then show ?thesis
    by (intro bexI [of _ x]) (auto simp: probe_key_def kb_is_open_def split: option.splits if_splits)
qed

definition sample_pool :: key_pool where
  "sample_pool = init_pool [(''openai'', [''ka'', ''kb''])] 1 60 (1/2) (11/10) 2"

theorem get_key_returns_available_witness:
  "let kp = report_failure 10 10 ''ka'' sample_pool
   in fst (try_get_key 20 20 (1/10) ''openai'' kp) = Got ''kb'' \<and>
      (\<exists>x \<in> set (dget_or (kp_pools kp) ''openai'' []). ki_key x = ''kb'')"
proof -
  let ?kp = "report_failure 10 10 ''ka'' sample_pool"
  have got: "fst (try_get_key 20 20 (1/10) ''openai'' ?kp) = Got ''kb''" by code_simp
  then have "try_get_key 20 20 (1/10) ''openai'' ?kp =
      (Got ''kb'', snd (try_get_key 20 20 (1/10) ''openai'' ?kp))" by (metis prod.collapse)
  from get_key_returns_available [OF this] got show ?thesis by (auto simp: Let_def)
qed



text \<open>From a pool configured with a decay in (0, 1], a positive recovery factor and a maximal
  weight of at least 1, no sequence of selections, reports and administrative calls drives the
  weight of a key to zero or above the maximum.\<close>

theorem key_weights_stay_bounded:
  assumes "0 < decay" "decay \<le> 1" "0 < recov" "1 \<le> mx"
    and "kp = run_events (pool_step dg) (init_pool ks thr tmo decay recov mx) es"
    and "(q, l) \<in> set (kp_pools kp)" and "k \<in> set l"
  shows "0 < ki_weight k \<and> ki_weight k \<le> mx"
proof -
  have "weights_ok kp \<and> kp_max_weight kp = mx" unfolding assms(5)
  proof (rule run_events_inv)
    fix s e
    assume "weights_ok s \<and> kp_max_weight s = mx"
    moreover have "kp_max_weight (pool_step dg s e) = kp_max_weight s"
      by (cases e) (auto simp: try_get_key_def report_success_def report_failure_def add_key_def
          remove_key_def update_key_status_def remove_key_by_id_def Let_def
          split: option.splits prod.splits)
    ultimately show "weights_ok (pool_step dg s e) \<and> kp_max_weight (pool_step dg s e) = mx"
      by (simp add: weights_ok_step)
  next
    show "weights_ok (init_pool ks thr tmo decay recov mx) \<and>
        kp_max_weight (init_pool ks thr tmo decay recov mx) = mx"
      using weights_ok_init [OF assms(1-4)] by (simp add: init_pool_def)
  qed
  then show ?thesis
    using assms(6,7) by (force simp: weights_ok_def all_keys_def weight_ok_def)
qed

theorem key_weights_stay_bounded_witness:
  "let kp = run_events (pool_step id) (init_pool [(''p'', [''k''])] 1 60 (1/2) (11/10) 2)
      [ReportFailure 1 1 ''k'', ReportSuccess ''k'']
   in ki_weight (hd (snd (hd (kp_pools kp)))) = 11/20 \<and> (0 :: pyfloat) < 11/20"
proof -
  let ?kp = "run_events (pool_step id) (init_pool [(''p'', [''k''])] 1 60 (1/2) (11/10) 2)
      [ReportFailure 1 1 ''k'', ReportSuccess ''k'']"
  obtain k where k: "kp_pools ?kp = [(''p'', [k])]" "ki_weight k = 11/20"
    by (simp add: init_pool_def report_failure_def report_success_def failure_key_def
        success_key_def new_key_info_def new_key_breaker_def kb_defs)
  have "0 < ki_weight k \<and> ki_weight k \<le> 2"
    by (rule key_weights_stay_bounded [of "1/2" "11/10" 2 ?kp id "[(''p'', [''k''])]" 1 60
          "[ReportFailure 1 1 ''k'', ReportSuccess ''k'']" "''p''" "[k]"])
      (use k(1) in simp_all)
  with k show ?thesis by (simp add: Let_def)
qed

text \<open>The statistics of the pool are consistent: the statuses partition the keys and the
  totals are the sums of the providers' totals.\<close>

theorem pool_stats_consistent:
  "let s = fst (kp_get_stats kp); per = map snd (snd (kp_get_stats kp))
   in st_total s = st_active s + st_rate_limited s + st_circuit_open s \<and>
      st_total s = sum_list (map st_total per) \<and> st_active s = sum_list (map st_active per) \<and>
      st_rate_limited s = sum_list (map st_rate_limited per) \<and>
      st_circuit_open s = sum_list (map st_circuit_open per)"
proof -
  have "sum_list (map length ls) = sum_list (map (count_status ACTIVE) ls) +
      sum_list (map (count_status RATE_LIMITED) ls) + sum_list (map (count_status CIRCUIT_OPEN) ls)"
    for ls by (induction ls) (simp_all add: count_status_total [symmetric])
  from this [of "map snd (kp_pools kp)"] show ?thesis
    by (simp add: kp_get_stats_def foldl_add_stats zero_stats_def Let_def comp_def split_def
        provider_stats_def)
qed

text \<open>Marking a key as rate limited or circuit open through the administrative call never
  changes what \<open>get_key\<close> selects: only the breaker decides.\<close>

theorem admin_status_ignored_by_selection:
  assumes "status \<noteq> ''active''"
  shows "fst (try_get_key n1 n2 u p (snd (update_key_status dg kid status kp))) =
    fst (try_get_key n1 n2 u p kp)"
  using update_key_status_forget [OF assms, of dg kid kp] try_get_key_forget
  by metis

theorem admin_status_ignored_by_selection_witness:
  "let kp' = snd (update_key_status id (key_id id ''openai'' ''ka'') ''rate_limited'' sample_pool)
   in kp' \<noteq> sample_pool \<and>
      fst (try_get_key 1 1 0 ''openai'' kp') = fst (try_get_key 1 1 0 ''openai'' sample_pool)"
  using admin_status_ignored_by_selection
    [of "''rate_limited''" 1 1 0 "''openai''" id "key_id id ''openai'' ''ka''" sample_pool]
  by (simp add: update_key_status_def parse_status_def sample_pool_def init_pool_def
      new_key_info_def set_status_def key_id_def)

end
