(* ===== verification/Coalescer.thy ===== *)
theory Coalescer
  imports Prelude "HOL-Library.List_Lexorder"
begin

text \<open>
  The request coalescer of \<^verbatim>\<open>app/gateway/coalescer.py\<close> as a machine of interleaved tasks. A task
  runs \<open>coalesce\<close>; control can change hands where the coroutine awaits: the two acquisitions of
  the lock, the future of another task, the sleep with the callback, and the acquisition in the
  \<^verbatim>\<open>finally\<close> block. Everything between two awaits is one step. What a callback returns is an
  argument of the step that ends it.
\<close>

section \<open>State\<close>

datatype 'v outcome = Returned 'v | Raised | Cancelled

datatype 'v fut_state = Pending | Done "'v outcome"

text \<open>
  Where a task is: not started, before the first lock, awaiting the future of task \<open>f\<close>, before
  the second lock, in the callback of the overflow branch (holding the lock), in the sleep and
  callback with future \<open>f\<close>, before the lock of the \<^verbatim>\<open>finally\<close> block, finished.
\<close>

datatype 'v pc =
    AtStart | AtLock1 | AtFuture nat | AtLock2 | InOverflow | InCall nat
  | AtCleanup "'v outcome" | Finished "'v outcome"

record 'v coalescer =
  max_pending :: int
  pending :: "string \<Rightarrow> nat option"
  pending_count :: int
  lock_holder :: "nat option"
  total_requests :: nat
  coalesced_requests :: nat
  saved_calls :: nat
  futures :: "nat \<Rightarrow> 'v fut_state"
  pcs :: "nat \<Rightarrow> 'v pc"

definition new_coalescer :: "int \<Rightarrow> 'v coalescer" where
  "new_coalescer mx = \<lparr>max_pending = mx, pending = (\<lambda>_. None), pending_count = 0,
     lock_holder = None, total_requests = 0, coalesced_requests = 0, saved_calls = 0,
     futures = (\<lambda>_. Pending), pcs = (\<lambda>_. AtStart)\<rparr>"

section \<open>Steps\<close>

text \<open>
  \<open>CallEnds t r\<close>: the callback of task \<open>t\<close> returns or raises. \<open>Cancel t\<close>: task \<open>t\<close> is
  cancelled where it waits; awaiting a future directly passes the cancellation on to it, and a
  task cancelled while it waits for the lock of the \<^verbatim>\<open>finally\<close> block skips that block's body.
\<close>

datatype 'v action =
    Begin nat | Lock1 nat | Lock2 nat | CallEnds nat "'v outcome" | Wake nat
  | Cleanup nat | Cancel nat

definition goto :: "nat \<Rightarrow> 'v pc \<Rightarrow> 'v coalescer \<Rightarrow> 'v coalescer" where
  "goto t p s = s\<lparr>pcs := (pcs s)(t := p)\<rparr>"

definition settle :: "nat \<Rightarrow> 'v outcome \<Rightarrow> 'v coalescer \<Rightarrow> 'v coalescer" where
  "settle f r s = (if futures s f = Pending then s\<lparr>futures := (futures s)(f := Done r)\<rparr> else s)"

definition co_begin :: "nat \<Rightarrow> 'v coalescer \<Rightarrow> 'v coalescer" where
  "co_begin t s = goto t AtLock1 (s\<lparr>total_requests := total_requests s + 1\<rparr>)"

definition co_lock1 :: "string \<Rightarrow> nat \<Rightarrow> 'v coalescer \<Rightarrow> 'v coalescer" where
  "co_lock1 key t s =
     (case pending s key of
        Some f \<Rightarrow> goto t (AtFuture f)
          (s\<lparr>coalesced_requests := coalesced_requests s + 1, saved_calls := saved_calls s + 1\<rparr>)
      | None \<Rightarrow> goto t AtLock2 s)"

definition co_lock2 :: "string \<Rightarrow> nat \<Rightarrow> 'v coalescer \<Rightarrow> 'v coalescer" where
  "co_lock2 key t s =
     (case pending s key of
        Some f \<Rightarrow> goto t (InCall f) s
      | None \<Rightarrow>
          (if pending_count s \<ge> max_pending s
           then goto t InOverflow (s\<lparr>lock_holder := Some t\<rparr>)
           else goto t (InCall t)
                  (s\<lparr>pending := (pending s)(key \<mapsto> t), pending_count := pending_count s + 1\<rparr>)))"

text \<open>The \<^verbatim>\<open>finally\<close> block.\<close>

definition co_cleanup :: "string \<Rightarrow> nat \<Rightarrow> 'v outcome \<Rightarrow> 'v coalescer \<Rightarrow> 'v coalescer" where
  "co_cleanup key t r s =
     goto t (Finished r)
       (s\<lparr>pending := (pending s)(key := None), pending_count := pending_count s - 1\<rparr>)"

fun co_step :: "(nat \<Rightarrow> string) \<Rightarrow> 'v coalescer \<Rightarrow> 'v action \<Rightarrow> 'v coalescer option" where
  "co_step key s (Begin t) = (if pcs s t = AtStart then Some (co_begin t s) else None)"
| "co_step key s (Lock1 t) =
     (if pcs s t = AtLock1 \<and> lock_holder s = None then Some (co_lock1 (key t) t s) else None)"
| "co_step key s (Lock2 t) =
     (if pcs s t = AtLock2 \<and> lock_holder s = None then Some (co_lock2 (key t) t s) else None)"
| "co_step key s (CallEnds t r) =
     (case pcs s t of
        InOverflow \<Rightarrow> Some (goto t (Finished r) (s\<lparr>lock_holder := None\<rparr>))
      | InCall f \<Rightarrow> Some (goto t (AtCleanup r) (settle f r s))
      | _ \<Rightarrow> None)"
| "co_step key s (Wake t) =
     (case pcs s t of
        AtFuture f \<Rightarrow> (case futures s f of Done r \<Rightarrow> Some (goto t (Finished r) s) | Pending \<Rightarrow> None)
      | _ \<Rightarrow> None)"
| "co_step key s (Cleanup t) =
     (case pcs s t of
        AtCleanup r \<Rightarrow> (if lock_holder s = None then Some (co_cleanup (key t) t r s) else None)
      | _ \<Rightarrow> None)"
| "co_step key s (Cancel t) =
     (case pcs s t of
        AtLock1 \<Rightarrow> Some (goto t (Finished Cancelled) s)
      | AtLock2 \<Rightarrow> Some (goto t (Finished Cancelled) s)
      | AtFuture f \<Rightarrow> Some (goto t (Finished Cancelled) (settle f Cancelled s))
      | InOverflow \<Rightarrow> Some (goto t (Finished Cancelled) (s\<lparr>lock_holder := None\<rparr>))
      | InCall f \<Rightarrow> Some (goto t (AtCleanup Cancelled) (settle f Cancelled s))
      | AtCleanup r \<Rightarrow>
          (if lock_holder s \<noteq> None then Some (goto t (Finished Cancelled) s) else None)
      | _ \<Rightarrow> None)"

fun co_run :: "(nat \<Rightarrow> string) \<Rightarrow> 'v coalescer \<Rightarrow> 'v action list \<Rightarrow> 'v coalescer option" where
  "co_run key s [] = Some s"
| "co_run key s (a # as) = Option.bind (co_step key s a) (\<lambda>s'. co_run key s' as)"

text \<open>The states that some schedule reaches, with the callback results seen on the way.\<close>

inductive co_reach :: "(nat \<Rightarrow> string) \<Rightarrow> int \<Rightarrow> 'v action list \<Rightarrow> 'v coalescer \<Rightarrow> bool" for key mx where
  co_init: "co_reach key mx [] (new_coalescer mx)"
| co_next: "co_reach key mx as s \<Longrightarrow> co_step key s a = Some s' \<Longrightarrow> co_reach key mx (as @ [a]) s'"

inductive_cases co_reach_NilE: "co_reach key mx [] s"
inductive_simps co_reach_snoc: "co_reach key mx (as @ [a]) s"

lemma co_run_snoc: "co_run key s (as @ [a]) = Option.bind (co_run key s as) (\<lambda>s'. co_step key s' a)"
  by (induction as arbitrary: s) auto

lemma co_reach_run: "co_run key (new_coalescer mx) as = Some s \<Longrightarrow> co_reach key mx as s"
proof (induction as arbitrary: s rule: rev_induct)
  case Nil
  then show ?case by (auto intro: co_init)
next
  case (snoc a as)
  then show ?case by (auto simp: co_run_snoc bind_eq_Some_conv intro: co_next)
qed

section \<open>The key of a request and the statistics\<close>

text \<open>
  \<open>dumps\<close> is \<^verbatim>\<open>json.dumps(kwargs, sort_keys=True, ensure_ascii=False)\<close> and \<open>md5\<close> the hexadecimal
  digest of \<^verbatim>\<open>hashlib\<close>.
\<close>

definition compute_key ::
  "('k \<Rightarrow> string) \<Rightarrow> (string \<Rightarrow> string) \<Rightarrow> string \<Rightarrow> 'k \<Rightarrow> string" where
  "compute_key dumps md5 prompt kwargs = md5 (prompt @ ''|'' @ dumps kwargs)"

record coalescer_stats =
  cs_total :: nat
  cs_coalesced :: nat
  cs_saved :: nat
  cs_pending :: int
  cs_rate :: pyfloat

definition co_get_stats :: "'v coalescer \<Rightarrow> coalescer_stats" where
  "co_get_stats s = \<lparr>cs_total = total_requests s, cs_coalesced = coalesced_requests s,
     cs_saved = saved_calls s, cs_pending = pending_count s,
     cs_rate = (if total_requests s > 0
                then of_nat (coalesced_requests s) / of_nat (total_requests s) else 0)\<rparr>"

text \<open>\<^verbatim>\<open>PromptHasher.hash\<close>: the keyword arguments come with their values already printed.\<close>

definition hash_parts :: "string \<Rightarrow> (string \<times> string) list \<Rightarrow> string list" where
  "hash_parts prompt kwargs =
     lower (py_strip prompt) #
     map (\<lambda>k. k @ ''='' @ dget_or kwargs k [])
       (filter (\<lambda>k. k \<in> {''model'', ''temperature'', ''max_tokens''})
         (sort_key (map (of_char :: char \<Rightarrow> nat)) (keys kwargs)))"

definition prompt_hash :: "(string \<Rightarrow> string) \<Rightarrow> string \<Rightarrow> (string \<times> string) list \<Rightarrow> string" where
  "prompt_hash sha256 prompt kwargs = take 16 (sha256 (py_join ''|'' (hash_parts prompt kwargs)))"

definition quantize :: "pyfloat list \<Rightarrow> nat \<Rightarrow> int list" where
  "quantize embedding prefix_dims = map (\<lambda>v. py_trunc (v * 1000)) (take prefix_dims embedding)"

definition semantic_hash :: "(string \<Rightarrow> string) \<Rightarrow> pyfloat list \<Rightarrow> nat \<Rightarrow> string" where
  "semantic_hash sha256 embedding prefix_dims =
     take 16 (sha256 (py_join '','' (map str_int (quantize embedding prefix_dims))))"

section \<open>No result crosses keys\<close>

definition returned :: "(nat \<Rightarrow> string) \<Rightarrow> 'v action list \<Rightarrow> string \<Rightarrow> 'v \<Rightarrow> bool" where
  "returned key as k v \<longleftrightarrow> (\<exists>t. key t = k \<and> CallEnds t (Returned v) \<in> set as)"

definition co_inv :: "(nat \<Rightarrow> string) \<Rightarrow> (string \<Rightarrow> 'v \<Rightarrow> bool) \<Rightarrow> 'v coalescer \<Rightarrow> bool" where
  "co_inv key E s \<longleftrightarrow>
     (\<forall>k f. pending s k = Some f \<longrightarrow> key f = k) \<and>
     (\<forall>t f. pcs s t = AtFuture f \<or> pcs s t = InCall f \<longrightarrow> key f = key t) \<and>
     (\<forall>f v. futures s f = Done (Returned v) \<longrightarrow> E (key f) v) \<and>
     (\<forall>t v. pcs s t = AtCleanup (Returned v) \<or> pcs s t = Finished (Returned v) \<longrightarrow> E (key t) v)"

lemma returned_mono: "returned key as k v \<Longrightarrow> returned key (as @ [a]) k v"
  by (auto simp: returned_def)

lemma returned_new: "returned key (as @ [CallEnds t (Returned v)]) (key t) v"
  by (auto simp: returned_def)

lemma co_inv_mono: "co_inv key E s \<Longrightarrow> (\<And>k v. E k v \<Longrightarrow> E' k v) \<Longrightarrow> co_inv key E' s"
  unfolding co_inv_def by blast

lemma co_inv_goto:
  assumes "co_inv key E s"
    and "\<And>f. p = AtFuture f \<or> p = InCall f \<Longrightarrow> key f = key t"
    and "\<And>v. p = AtCleanup (Returned v) \<or> p = Finished (Returned v) \<Longrightarrow> E (key t) v"
  shows "co_inv key E (goto t p s)"
  using assms unfolding co_inv_def goto_def by (auto split: if_splits)

lemma co_inv_settle:
  assumes "co_inv key E s" and "\<And>v. r = Returned v \<Longrightarrow> E (key f) v"
  shows "co_inv key E (settle f r s)"
  using assms unfolding co_inv_def settle_def by auto

lemma co_inv_fields:
  assumes "co_inv key E s" and "\<And>k f. pending s' k = Some f \<Longrightarrow> pending s k = Some f \<or> key f = k"
    and "pcs s' = pcs s" and "futures s' = futures s"
  shows "co_inv key E s'"
proof -
  have "\<forall>k f. pending s' k = Some f \<longrightarrow> key f = k"
    using assms(1,2) unfolding co_inv_def by blast
  then show ?thesis using assms(1) by (simp add: co_inv_def assms(3,4))
qed

lemma co_inv_step:
  assumes inv: "co_inv key E s" and step: "co_step key s a = Some s'"
    and new: "\<And>t v. a = CallEnds t (Returned v) \<Longrightarrow> E (key t) v"
  shows "co_inv key E s'"
proof -
  note fut = inv [unfolded co_inv_def]
  show ?thesis
  proof (cases a)
    case (Begin t)
    with step show ?thesis
      by (auto simp: co_begin_def split: if_splits intro!: co_inv_goto intro: co_inv_fields [OF inv])
  next
    case (Lock1 t)
    with step fut show ?thesis
      by (auto simp: co_lock1_def split: if_splits option.splits intro!: co_inv_goto inv
          intro: co_inv_fields [OF inv])
  next
    case (Lock2 t)
    with step fut show ?thesis
      by (auto simp: co_lock2_def split: if_splits option.splits intro!: co_inv_goto inv
          intro: co_inv_fields [OF inv])
  next
    case (CallEnds t r)
    with step fut new show ?thesis
      by (auto split: pc.splits intro!: co_inv_goto co_inv_settle inv intro: co_inv_fields [OF inv])
  next
    case (Wake t)
    with step obtain f r where f: "pcs s t = AtFuture f" "futures s f = Done r"
      and s': "s' = goto t (Finished r) s" by (auto split: pc.splits fut_state.splits)
    from fut f have "key f = key t" "\<And>v. r = Returned v \<Longrightarrow> E (key f) v" by blast+
    then show ?thesis unfolding s' by (intro co_inv_goto inv) auto
  next
    case (Cleanup t)
    with step fut show ?thesis
      by (auto simp: co_cleanup_def split: pc.splits if_splits intro!: co_inv_goto
          intro: co_inv_fields [OF inv])
  next
    case (Cancel t)
    with step fut show ?thesis
      by (auto split: pc.splits if_splits intro!: co_inv_goto co_inv_settle inv
          intro: co_inv_fields [OF inv])
  qed
qed

lemma co_reach_inv: "co_reach key mx as s \<Longrightarrow> co_inv key (returned key as) s"
proof (induction rule: co_reach.induct)
  case co_init
  show ?case by (simp add: co_inv_def new_coalescer_def)
next
  case (co_next as s a s')
  have "co_inv key (returned key (as @ [a])) s"
    using co_next.IH by (rule co_inv_mono) (rule returned_mono)
  then show ?case using co_next.hyps(2)
    by (rule co_inv_step) (simp add: returned_new)
qed

section \<open>Joining a call in flight\<close>

definition join_all :: "nat list \<Rightarrow> 'v action list" where
  "join_all ws = concat (map (\<lambda>w. [Begin w, Lock1 w]) ws)"

lemma co_run_append:
  "co_run key s (as @ bs) = Option.bind (co_run key s as) (\<lambda>s'. co_run key s' bs)"
  by (induction as arbitrary: s) auto

lemma co_run_join:
  assumes "lock_holder s = None" and "\<And>w. w \<in> set ws \<Longrightarrow> pcs s w = AtStart \<and> pending s (key w) = Some f"
    and "distinct ws"
  shows "co_run key s (join_all ws) = Some (s\<lparr>total_requests := total_requests s + length ws,
     coalesced_requests := coalesced_requests s + length ws, saved_calls := saved_calls s + length ws,
     pcs := (\<lambda>t. if t \<in> set ws then AtFuture f else pcs s t)\<rparr>)"
  using assms
proof (induction ws arbitrary: s)
  case Nil
  then show ?case by (simp add: join_all_def)
next
  case (Cons w ws)
  let ?s = "goto w (AtFuture f) (s\<lparr>total_requests := total_requests s + 1,
     coalesced_requests := coalesced_requests s + 1, saved_calls := saved_calls s + 1\<rparr>)"
  have "co_run key s (join_all (w # ws)) = co_run key ?s (join_all ws)"
    using Cons.prems by (simp add: join_all_def co_begin_def co_lock1_def goto_def)
  also have "\<dots> = Some (?s\<lparr>total_requests := total_requests ?s + length ws,
     coalesced_requests := coalesced_requests ?s + length ws, saved_calls := saved_calls ?s + length ws,
     pcs := (\<lambda>t. if t \<in> set ws then AtFuture f else pcs ?s t)\<rparr>)"
    using Cons.prems by (intro Cons.IH) (auto simp: goto_def)
  finally show ?case using Cons.prems(3) by (simp add: goto_def fun_eq_iff)
qed

lemma co_run_wake:
  assumes "futures s f = Done r" and "\<And>w. w \<in> set ws \<Longrightarrow> pcs s w = AtFuture f" and "distinct ws"
  shows "co_run key s (map Wake ws) =
    Some (s\<lparr>pcs := (\<lambda>t. if t \<in> set ws then Finished r else pcs s t)\<rparr>)"
  using assms
proof (induction ws arbitrary: s)
  case Nil
  then show ?case by simp
next
  case (Cons w ws)
  have "co_run key s (map Wake (w # ws)) = co_run key (goto w (Finished r) s) (map Wake ws)"
    using Cons.prems by simp
  also have "\<dots> = Some ((goto w (Finished r) s)\<lparr>pcs := (\<lambda>t. if t \<in> set ws then Finished r
      else pcs (goto w (Finished r) s) t)\<rparr>)"
    using Cons.prems by (intro Cons.IH) (auto simp: goto_def)
  finally show ?case using Cons.prems(3) by (simp add: goto_def fun_eq_iff)
qed

text \<open>The schedule in which \<open>ws\<close> join the call that \<open>t\<close> makes.\<close>

definition coalesced_schedule :: "nat \<Rightarrow> nat list \<Rightarrow> 'v outcome \<Rightarrow> 'v action list" where
  "coalesced_schedule t ws r =
     [Begin t, Lock1 t, Lock2 t] @ join_all ws @ [CallEnds t r, Cleanup t] @ map Wake ws"

section \<open>Properties\<close>

text \<open>C11: in every interleaving, including cancellations, a request that returns a value returns
  one that the callback of a request with the same key returned.\<close>

theorem coalesced_value_has_same_key:
  assumes "co_reach key mx as s" and "pcs s t = Finished (Returned v)"
  shows "\<exists>t'. key t' = key t \<and> CallEnds t' (Returned v) \<in> set as"
  using co_reach_inv [OF assms(1)] assms(2) by (auto simp: co_inv_def returned_def)

theorem coalesced_value_has_same_key_witness:
  "\<exists>s. co_reach (\<lambda>_. ''k'') 9 (coalesced_schedule 0 [1] (Returned (7 :: int))) s \<and>
     pcs s 1 = Finished (Returned 7) \<and>
     (\<exists>t'. CallEnds t' (Returned (7 :: int)) \<in> set (coalesced_schedule 0 [1] (Returned 7)))"
proof -
  let ?as = "coalesced_schedule 0 [1] (Returned (7 :: int))"
  obtain s where s: "co_run (\<lambda>_. ''k'') (new_coalescer 9) ?as = Some s" "pcs s 1 = Finished (Returned 7)"
    by (simp add: coalesced_schedule_def join_all_def new_coalescer_def co_begin_def co_lock1_def
        co_lock2_def co_cleanup_def goto_def settle_def)
  from coalesced_value_has_same_key [OF co_reach_run [OF s(1)] s(2)] s co_reach_run [OF s(1)]
  show ?thesis by blast
qed

text \<open>When requests with the same key arrive while the first one's call is in flight, one
  callback answers them all: every task finishes with its outcome, the statistics count each of
  the others as one saved call, and the pending table is empty again.\<close>

theorem coalescing_shares_one_call:
  assumes "0 < mx" and "distinct (t # ws)" and "\<And>w. w \<in> set ws \<Longrightarrow> key w = key t"
  shows "\<exists>s. co_run key (new_coalescer mx) (coalesced_schedule t ws r) = Some s \<and>
    (\<forall>w \<in> set (t # ws). pcs s w = Finished r) \<and> saved_calls s = length ws \<and>
    total_requests s = Suc (length ws) \<and> pending s = (\<lambda>_. None) \<and> pending_count s = 0"
proof -
  let ?s0 = "goto t (InCall t) ((new_coalescer mx)\<lparr>total_requests := 1,
     pending := [key t \<mapsto> t], pending_count := 1\<rparr>)"
  have start: "co_run key (new_coalescer mx) [Begin t, Lock1 t, Lock2 t] = Some ?s0"
    using assms(1) by (simp add: co_begin_def co_lock1_def co_lock2_def new_coalescer_def goto_def)
  let ?s1 = "?s0\<lparr>total_requests := 1 + length ws, coalesced_requests := length ws,
     saved_calls := length ws, pcs := (\<lambda>w. if w \<in> set ws then AtFuture t else pcs ?s0 w)\<rparr>"
  have join: "co_run key ?s0 (join_all ws) = Some ?s1"
    using assms by (subst co_run_join [where f = t]) (auto simp: new_coalescer_def goto_def)
  let ?s2 = "?s1\<lparr>futures := (\<lambda>_. Pending)(t := Done r), pending := (\<lambda>_. None), pending_count := 0,
     pcs := (pcs ?s1)(t := Finished r)\<rparr>"
  have call: "co_run key ?s1 [CallEnds t r, Cleanup t] = Some ?s2"
    using assms(2) by (simp add: new_coalescer_def goto_def settle_def co_cleanup_def)
  have wake: "co_run key ?s2 (map Wake ws) =
      Some (?s2\<lparr>pcs := (\<lambda>w. if w \<in> set ws then Finished r else pcs ?s2 w)\<rparr>)"
    using assms(2) by (intro co_run_wake [where f = t]) auto
  have "co_run key (new_coalescer mx) (coalesced_schedule t ws r) =
      Some (?s2\<lparr>pcs := (\<lambda>w. if w \<in> set ws then Finished r else pcs ?s2 w)\<rparr>)"
    unfolding coalesced_schedule_def co_run_append start join call wake bind.bind_lunit ..
  then show ?thesis by simp
qed

theorem coalescing_shares_one_call_witness:
  "\<exists>s. co_run (\<lambda>_. ''k'') (new_coalescer 1) (coalesced_schedule 0 [1, 2] (Returned True)) = Some s \<and>
     pcs s 2 = Finished (Returned True) \<and> saved_calls s = 2"
  using coalescing_shares_one_call [of 1 0 "[1, 2]" "\<lambda>_. ''k''" "Returned True"] by auto

text \<open>A waiter that is cancelled cancels the shared future, so the other waiters of the same
  key finish as cancelled even though the call itself returns a value.\<close>

theorem cancelled_waiter_cancels_others:
  assumes "pcs s w = AtFuture f" "pcs s w' = AtFuture f" "w \<noteq> w'" "pcs s f = InCall f"
    and "futures s f = Pending"
  shows "\<exists>s'. co_run key s [Cancel w, CallEnds f (Returned v), Wake w'] = Some s' \<and>
    pcs s' w' = Finished Cancelled \<and> pcs s' f = AtCleanup (Returned v)"
proof -
  from assms have "f \<noteq> w" "f \<noteq> w'" by auto
  with assms show ?thesis by (auto simp: goto_def settle_def)
qed

theorem cancelled_waiter_cancels_others_witness:
  "\<exists>s s'. co_run (\<lambda>_. ''k'') (new_coalescer 9) ([Begin 0, Lock1 0, Lock2 0] @ join_all [1, 2]) = Some s \<and>
     co_run (\<lambda>_. ''k'') s [Cancel 1, CallEnds 0 (Returned (7 :: int)), Wake 2] = Some s' \<and>
     pcs s' 2 = Finished Cancelled"
proof -
  obtain s :: "int coalescer" where s:
    "co_run (\<lambda>_. ''k'') (new_coalescer 9) ([Begin 0, Lock1 0, Lock2 0] @ join_all [1, 2]) = Some s"
    "pcs s 1 = AtFuture 0" "pcs s 2 = AtFuture 0" "pcs s 0 = InCall 0" "futures s 0 = Pending"
    by (simp add: join_all_def new_coalescer_def co_begin_def co_lock1_def co_lock2_def goto_def)
  have "(1 :: nat) \<noteq> 2" by simp
  from cancelled_waiter_cancels_others [OF s(2,3) this s(4,5), of "\<lambda>_. ''k''" 7] s(1)
  show ?thesis by blast
qed

text \<open>A schedule that contends for the lock with a call in the overflow branch.\<close>

definition double_check_schedule :: "unit action list" where
  "double_check_schedule =
     [Begin 0, Lock1 0, Lock2 0, Begin 1, Lock1 1, Lock2 1, Begin 2, Begin 3,
      CallEnds 0 (Returned ()), CallEnds 1 (Returned ()), Lock1 2, Lock1 3, Cleanup 0,
      Lock2 2, Lock2 3, CallEnds 2 (Returned ()), Cleanup 2, CallEnds 3 (Returned ()), Cleanup 3]"

text \<open>The pending counter is not kept: a task that misses at the first lock and finds the key
  at the second one makes a second call and releases a slot it never took, and the counter
  becomes negative.\<close>

theorem pending_count_becomes_negative:
  "\<exists>s. co_reach (\<lambda>t. if t = 0 then ''a'' else if t = 1 then ''b'' else ''c'') 1
      double_check_schedule s \<and> pending_count s = -1 \<and> pcs s 3 = Finished (Returned ())"
proof -
  let ?key = "\<lambda>t :: nat. if t = 0 then ''a'' else if t = 1 then ''b'' else ''c''"
  obtain s where s: "co_run ?key (new_coalescer 1) double_check_schedule = Some s"
    "pending_count s = -1" "pcs s 3 = Finished (Returned ())"
    by (simp add: double_check_schedule_def new_coalescer_def co_begin_def co_lock1_def co_lock2_def
        co_cleanup_def goto_def settle_def)
  from co_reach_run [OF s(1)] s(2,3) show ?thesis by blast
qed

end
