(* ===== verification/TenantLimits.thy ===== *)
theory TenantLimits
  imports Prelude
begin

text \<open>
  The tenant limits of the gateway: the sliding-window rate limiter of \<^verbatim>\<open>app/gateway/ratelimit.py\<close>
  and the monthly token budget of \<^verbatim>\<open>app/gateway/budget.py\<close>. The Redis commands are parameters; what
  they do is stated as a law on the values they store, a hypothesis of the theorems.
\<close>

section \<open>Rate limiter\<close>

text \<open>
  \<open>zs_clean\<close> removes the scores up to a bound, \<open>zs_add\<close> adds a fresh member with a score. The
  expiry set on the key only removes it when all its scores have left the window.
\<close>

record 'r zset_ops =
  zs_clean :: "string \<Rightarrow> pyfloat \<Rightarrow> 'r \<Rightarrow> 'r"
  zs_card :: "string \<Rightarrow> 'r \<Rightarrow> nat"
  zs_add :: "string \<Rightarrow> pyfloat \<Rightarrow> 'r \<Rightarrow> 'r"
  zs_count :: "string \<Rightarrow> pyfloat \<Rightarrow> pyfloat \<Rightarrow> 'r \<Rightarrow> nat"

record rate_limiter =
  rl_rpm :: int
  rl_rps :: int

definition second_key :: "string \<Rightarrow> string" where
  "second_key tenant = ''ratelimit:'' @ tenant @ '':s''"

definition minute_key :: "string \<Rightarrow> string" where
  "minute_key tenant = ''ratelimit:'' @ tenant @ '':m''"

text \<open>The transaction of \<^verbatim>\<open>_check_window\<close>; the request is recorded in a later command.\<close>

definition window_check ::
  "'r zset_ops \<Rightarrow> string \<Rightarrow> pyfloat \<Rightarrow> pyfloat \<Rightarrow> int \<Rightarrow> 'r \<Rightarrow> bool \<times> 'r" where
  "window_check ops key now window mx r =
     (let r' = zs_clean ops key (now - window) r in (int (zs_card ops key r') < mx, r'))"

definition check_window ::
  "'r zset_ops \<Rightarrow> string \<Rightarrow> pyfloat \<Rightarrow> pyfloat \<Rightarrow> int \<Rightarrow> 'r \<Rightarrow> bool \<times> 'r" where
  "check_window ops key now window mx r =
     (case window_check ops key now window mx r of
        (False, r') \<Rightarrow> (False, r')
      | (True, r') \<Rightarrow> (True, zs_add ops key now r'))"

definition rl_allow :: "'r zset_ops \<Rightarrow> rate_limiter \<Rightarrow> string \<Rightarrow> pyfloat \<Rightarrow> 'r \<Rightarrow> bool \<times> 'r" where
  "rl_allow ops rl tenant now r =
     (if tenant = [] then (True, r)
      else case check_window ops (second_key tenant) now 1 (rl_rps rl) r of
             (False, r1) \<Rightarrow> (False, r1)
           | (True, r1) \<Rightarrow> check_window ops (minute_key tenant) now 60 (rl_rpm rl) r1)"

definition rl_get_remaining :: "'r zset_ops \<Rightarrow> rate_limiter \<Rightarrow> string \<Rightarrow> pyfloat \<Rightarrow> 'r \<Rightarrow> int \<times> int" where
  "rl_get_remaining ops rl tenant now r =
     (max 0 (rl_rps rl - int (zs_count ops (second_key tenant) (now - 1) now r)),
      max 0 (rl_rpm rl - int (zs_count ops (minute_key tenant) (now - 60) now r)))"

text \<open>The documented effect of the commands on the scores of a key.\<close>

definition zset_laws :: "'r zset_ops \<Rightarrow> ('r \<Rightarrow> string \<Rightarrow> pyfloat list) \<Rightarrow> bool" where
  "zset_laws ops scores \<longleftrightarrow>
     (\<forall>k t r k'. scores (zs_clean ops k t r) k' =
        (if k' = k then filter (\<lambda>x. t < x) (scores r k) else scores r k')) \<and>
     (\<forall>k r. zs_card ops k r = length (scores r k)) \<and>
     (\<forall>k t r k'. scores (zs_add ops k t r) k' = (if k' = k then scores r k @ [t] else scores r k'))"

section \<open>The window bound\<close>

text \<open>The requests of a tenant at the given times, one after the other; those admitted.\<close>

fun admitted ::
  "'r zset_ops \<Rightarrow> string \<Rightarrow> pyfloat \<Rightarrow> int \<Rightarrow> pyfloat list \<Rightarrow> 'r \<Rightarrow> pyfloat list" where
  "admitted ops key window mx [] r = []"
| "admitted ops key window mx (t # ts) r =
     (case check_window ops key t window mx r of
        (ok, r') \<Rightarrow> (if ok then t # admitted ops key window mx ts r' else admitted ops key window mx ts r'))"

definition in_window :: "pyfloat \<Rightarrow> pyfloat \<Rightarrow> pyfloat list \<Rightarrow> nat" where
  "in_window t window xs = length (filter (\<lambda>x. t - window < x \<and> x \<le> t) xs)"

lemma in_window_append: "in_window t w (xs @ ys) = in_window t w xs + in_window t w ys"
  by (simp add: in_window_def)

text \<open>
  With the requests of the past \<open>past\<close> (all recorded), the scores kept are those of the past still
  in some window to come.
\<close>

lemma admitted_bound:
  "zset_laws ops scores \<Longrightarrow> sorted (past @ ts) \<Longrightarrow> 0 < window \<Longrightarrow> 0 \<le> mx \<Longrightarrow>
   (\<And>t. (past = [] \<or> last past \<le> t) \<Longrightarrow>
      filter (\<lambda>x. t - window < x) (scores r key) = filter (\<lambda>x. t - window < x) adm) \<Longrightarrow>
   set adm \<subseteq> set past \<Longrightarrow> (\<And>t. t \<in> set adm \<Longrightarrow> int (in_window t window adm) \<le> mx) \<Longrightarrow>
   t \<in> set (adm @ admitted ops key window mx ts r) \<Longrightarrow>
   int (in_window t window (adm @ admitted ops key window mx ts r)) \<le> mx"
proof (induction ts arbitrary: past r adm)
  case Nil
  then show ?case by simp
next
  case (Cons u ts)
  let ?r = "zs_clean ops key (u - window) r"
  have sorted: "sorted ((past @ [u]) @ ts)" using Cons.prems(2) by simp
  have last_u: "past = [] \<or> last past \<le> u"
    using Cons.prems(2) by (cases past rule: rev_cases) (auto simp: sorted_append)
  have past_le: "x \<le> u" if "x \<in> set past" for x using Cons.prems(2) that by (auto simp: sorted_append)
  have scores: "scores ?r key = filter (\<lambda>x. u - window < x) adm"
    using Cons.prems(1) Cons.prems(5) [OF last_u] by (simp add: zset_laws_def)
  have keep: "filter (\<lambda>x. t - window < x) (filter (\<lambda>x. u - window < x) xs) = filter (\<lambda>x. t - window < x) xs"
    if "u \<le> t" for t and xs :: "pyfloat list"
    using that by (auto intro!: filter_cong)
  have filt: "filter (\<lambda>x. u - window < x \<and> x \<le> u) adm = filter (\<lambda>x. u - window < x) adm"
    using past_le Cons.prems(6) by (intro filter_cong) auto
  have card: "int (zs_card ops key ?r) = int (in_window u window adm)"
    using Cons.prems(1) scores filt by (simp add: zset_laws_def in_window_def)
  show ?case
  proof (cases "int (in_window u window adm) < mx")
    case False
    have step: "admitted ops key window mx (u # ts) r = admitted ops key window mx ts ?r"
      using False card by (simp add: check_window_def window_check_def Let_def)
    have inv: "filter (\<lambda>x. t - window < x) (scores ?r key) = filter (\<lambda>x. t - window < x) adm"
      if "past @ [u] = [] \<or> last (past @ [u]) \<le> t" for t
      using keep [of t adm] that by (simp add: scores)
    show ?thesis
      using Cons.IH [OF Cons.prems(1) sorted Cons.prems(3,4) inv _ Cons.prems(7)] Cons.prems(6,8)
      unfolding step by auto
  next
    case True
    let ?r2 = "zs_add ops key u ?r"
    have step: "admitted ops key window mx (u # ts) r = u # admitted ops key window mx ts ?r2"
      using True card by (simp add: check_window_def window_check_def Let_def)
    have scores2: "scores ?r2 key = filter (\<lambda>x. u - window < x) (adm @ [u])"
      using Cons.prems(1,3) scores by (simp add: zset_laws_def)
    have inv: "filter (\<lambda>x. t - window < x) (scores ?r2 key) = filter (\<lambda>x. t - window < x) (adm @ [u])"
      if "past @ [u] = [] \<or> last (past @ [u]) \<le> t" for t
      using keep [of t "adm @ [u]"] that unfolding scores2 by simp
    have bound: "int (in_window t window (adm @ [u])) \<le> mx" if "t \<in> set (adm @ [u])" for t
    proof (cases "u \<le> t")
      case False
      then have "in_window t window (adm @ [u]) = in_window t window adm" by (simp add: in_window_def)
      moreover have "t \<in> set adm" using False that by auto
      ultimately show ?thesis using Cons.prems(7) by simp
    next
      case ge: True
      have "t \<le> u" using that past_le Cons.prems(6) by auto
      with ge have "t = u" by simp
      with True Cons.prems(3) show ?thesis by (simp add: in_window_def)
    qed
    have sub: "set (adm @ [u]) \<subseteq> set (past @ [u])" using Cons.prems(6) by auto
    show ?thesis
      using Cons.IH [OF Cons.prems(1) sorted Cons.prems(3,4) inv sub bound] Cons.prems(8)
      unfolding step by simp
  qed
qed

section \<open>Token budget\<close>

text \<open>
  The hash of a tenant and month: its fields as Redis returns them, the atomic increment, and the
  alert. The commands are taken to succeed; a field that is not a number makes \<open>check\<close> raise and
  ends \<open>deduct\<close>, which swallows the exception.
\<close>

record 'r hash_ops =
  hs_getall :: "string \<Rightarrow> 'r \<Rightarrow> (string, string) dict"
  hs_incr :: "string \<Rightarrow> string \<Rightarrow> int \<Rightarrow> 'r \<Rightarrow> int \<times> 'r"
  hs_set :: "string \<Rightarrow> string \<Rightarrow> string \<Rightarrow> 'r \<Rightarrow> 'r"
  hs_alert :: "string \<Rightarrow> int \<Rightarrow> int \<Rightarrow> 'r \<Rightarrow> 'r"

definition budget_key :: "string \<Rightarrow> string \<Rightarrow> string" where
  "budget_key month tenant = ''budget:'' @ tenant @ '':'' @ month"

text \<open>\<open>int(data.get(field, 0))\<close>; \<open>None\<close> is the \<open>ValueError\<close>.\<close>

definition int_field :: "(string, string) dict \<Rightarrow> string \<Rightarrow> int option" where
  "int_field d f = (case dget d f of None \<Rightarrow> Some 0 | Some s \<Rightarrow> py_int s)"

definition bg_check :: "'r hash_ops \<Rightarrow> string \<Rightarrow> string \<Rightarrow> int \<Rightarrow> 'r \<Rightarrow> bool res" where
  "bg_check ops month tenant estimated r =
     (if tenant = [] then Inr True
      else let data = hs_getall ops (budget_key month tenant) r
      in if data = [] then Inr True
         else case int_field data ''limit'' of
                None \<Rightarrow> Inl (ValueError ''limit'')
              | Some limit \<Rightarrow>
                  (if limit \<le> 0 then Inr True
                   else case int_field data ''used'' of
                          None \<Rightarrow> Inl (ValueError ''used'')
                        | Some used \<Rightarrow> Inr (used + estimated \<le> limit)))"

definition bg_deduct :: "'r hash_ops \<Rightarrow> string \<Rightarrow> string \<Rightarrow> int \<Rightarrow> 'r \<Rightarrow> 'r" where
  "bg_deduct ops month tenant actual r =
     (if tenant = [] \<or> actual \<le> 0 then r
      else let key = budget_key month tenant
      in case hs_incr ops key ''used'' actual r of
           (new_used, r1) \<Rightarrow>
             (case dget (hs_getall ops key r1) ''limit'' of
                None \<Rightarrow> r1
              | Some raw \<Rightarrow>
                  (case py_int raw of
                     None \<Rightarrow> r1
                   | Some limit \<Rightarrow>
                       (if limit > 0 \<and> (of_int new_used :: pyfloat) / of_int limit \<ge> 8 / 10
                        then hs_alert ops tenant new_used limit r1 else r1))))"

definition bg_get_usage :: "'r hash_ops \<Rightarrow> string \<Rightarrow> string \<Rightarrow> 'r \<Rightarrow> (int \<times> int) option" where
  "bg_get_usage ops month tenant r =
     (let data = hs_getall ops (budget_key month tenant) r
      in if data = [] then Some (0, 0)
         else case (int_field data ''used'', int_field data ''limit'') of
                (Some u, Some l) \<Rightarrow> Some (u, l)
              | _ \<Rightarrow> None)"

definition bg_set_limit :: "'r hash_ops \<Rightarrow> string \<Rightarrow> string \<Rightarrow> int \<Rightarrow> 'r \<Rightarrow> 'r" where
  "bg_set_limit ops month tenant limit r = hs_set ops (budget_key month tenant) ''limit'' (str_int limit) r"

definition bg_reset :: "'r hash_ops \<Rightarrow> string \<Rightarrow> string \<Rightarrow> 'r \<Rightarrow> 'r" where
  "bg_reset ops month tenant r = hs_set ops (budget_key month tenant) ''used'' ''0'' r"

definition hash_laws :: "'r hash_ops \<Rightarrow> ('r \<Rightarrow> string \<Rightarrow> (string, string) dict) \<Rightarrow> bool" where
  "hash_laws ops view \<longleftrightarrow>
     (\<forall>k r. hs_getall ops k r = view r k) \<and>
     (\<forall>k f n r u. int_field (view r k) f = Some u \<longrightarrow>
        fst (hs_incr ops k f n r) = u + n \<and>
        (\<forall>k'. view (snd (hs_incr ops k f n r)) k' =
           (if k' = k then dset f (str_int (u + n)) (view r k) else view r k'))) \<and>
     (\<forall>t u l r k. view (hs_alert ops t u l r) k = view r k)"

text \<open>Requests one after the other: an estimate for the check, then the actual usage.\<close>

fun spend :: "'r hash_ops \<Rightarrow> string \<Rightarrow> string \<Rightarrow> (int \<times> int) list \<Rightarrow> 'r \<Rightarrow> 'r" where
  "spend ops month tenant [] r = r"
| "spend ops month tenant ((est, act) # reqs) r =
     (case bg_check ops month tenant est r of
        Inr True \<Rightarrow> spend ops month tenant reqs (bg_deduct ops month tenant act r)
      | _ \<Rightarrow> spend ops month tenant reqs r)"

lemma deduct_view:
  assumes "hash_laws ops view" and "tenant \<noteq> []" and "0 < act"
    and "int_field (view r (budget_key month tenant)) ''used'' = Some u"
  shows "view (bg_deduct ops month tenant act r) (budget_key month tenant) =
    dset ''used'' (str_int (u + act)) (view r (budget_key month tenant))"
proof -
  obtain nu r1 where incr: "hs_incr ops (budget_key month tenant) ''used'' act r = (nu, r1)" by fastforce
  have law: "view (snd (hs_incr ops (budget_key month tenant) ''used'' act r)) (budget_key month tenant) =
      dset ''used'' (str_int (u + act)) (view r (budget_key month tenant))"
    using assms(1,4) unfolding hash_laws_def by simp
  have alert: "view (hs_alert ops t x l r1) k = view r1 k" for t x l k
    using assms(1) unfolding hash_laws_def by simp
  show ?thesis
    using law assms(2,3) by (auto simp: bg_deduct_def Let_def incr alert split: option.splits)
qed

lemma spend_within_limit:
  "hash_laws ops view \<Longrightarrow> tenant \<noteq> [] \<Longrightarrow> 0 < limit \<Longrightarrow>
   int_field (view r (budget_key month tenant)) ''limit'' = Some limit \<Longrightarrow>
   int_field (view r (budget_key month tenant)) ''used'' = Some u \<Longrightarrow> u \<le> limit \<Longrightarrow>
   (\<And>est act. (est, act) \<in> set reqs \<Longrightarrow> act \<le> est) \<Longrightarrow>
   \<exists>u'. int_field (view (spend ops month tenant reqs r) (budget_key month tenant)) ''used'' = Some u' \<and>
     u' \<le> limit"
proof (induction reqs arbitrary: r u)
  case Nil
  then show ?case by simp
next
  case (Cons q reqs)
  obtain est act where q: "q = (est, act)" by fastforce
  let ?key = "budget_key month tenant"
  have le: "act \<le> est" using Cons.prems(7) q by simp
  have rest: "act' \<le> est'" if "(est', act') \<in> set reqs" for est' act' using Cons.prems(7) that by simp
  have all: "hs_getall ops k r = view r k" for k using Cons.prems(1) by (simp add: hash_laws_def)
  have "view r ?key \<noteq> []" using Cons.prems(3,4) by (auto simp: int_field_def)
  then have check: "bg_check ops month tenant est r = Inr (u + est \<le> limit)"
    using Cons.prems(2-5) by (simp add: bg_check_def all Let_def)
  show ?case
  proof (cases "u + est \<le> limit")
    case False
    with check show ?thesis
      using Cons.IH [OF Cons.prems(1-6) rest] by (simp add: q)
  next
    case True
    let ?r = "bg_deduct ops month tenant act r"
    have step: "spend ops month tenant (q # reqs) r = spend ops month tenant reqs ?r"
      using True check by (simp add: q)
    show ?thesis
    proof (cases "0 < act")
      case False
      then have "?r = r" by (simp add: bg_deduct_def)
      then show ?thesis using Cons.IH [OF Cons.prems(1-6) rest] step by simp
    next
      case pos: True
      have view: "view ?r ?key = dset ''used'' (str_int (u + act)) (view r ?key)"
        by (rule deduct_view [OF Cons.prems(1,2) pos Cons.prems(5)])
      have lim: "int_field (view ?r ?key) ''limit'' = Some limit"
        using Cons.prems(4) by (simp add: view int_field_def)
      have used: "int_field (view ?r ?key) ''used'' = Some (u + act)"
        by (simp add: view int_field_def py_int_str_int)
      have "u + act \<le> limit" using True le by simp
      from Cons.IH [OF Cons.prems(1-3) lim used this rest] show ?thesis using step by simp
    qed
  qed
qed

section \<open>Concrete stores for the examples\<close>

definition list_zset :: "(string \<times> pyfloat) list zset_ops" where
  "list_zset = \<lparr>zs_clean = (\<lambda>k t r. filter (\<lambda>(k', x). k' \<noteq> k \<or> t < x) r),
     zs_card = (\<lambda>k r. length (filter (\<lambda>(k', x). k' = k) r)), zs_add = (\<lambda>k t r. r @ [(k, t)]),
     zs_count = (\<lambda>k a b r. length (filter (\<lambda>(k', x). k' = k \<and> a \<le> x \<and> x \<le> b) r))\<rparr>"

definition list_scores :: "(string \<times> pyfloat) list \<Rightarrow> string \<Rightarrow> pyfloat list" where
  "list_scores r k = map snd (filter (\<lambda>(k', x). k' = k) r)"

lemma list_zset_laws: "zset_laws list_zset list_scores"
proof -
  have "list_scores (zs_clean list_zset k t r) k' =
      (if k' = k then filter (\<lambda>x. t < x) (list_scores r k) else list_scores r k')" for k t r k'
    by (induction r) (auto simp: list_zset_def list_scores_def)
  moreover have "zs_card list_zset k r = length (list_scores r k)" for k r
    by (simp add: list_zset_def list_scores_def)
  moreover have "list_scores (zs_add list_zset k t r) k' =
      (if k' = k then list_scores r k @ [t] else list_scores r k')" for k t r k'
    by (simp add: list_zset_def list_scores_def)
  ultimately show ?thesis unfolding zset_laws_def by blast
qed

definition map_hash :: "(string \<Rightarrow> (string, string) dict) hash_ops" where
  "map_hash = \<lparr>hs_getall = (\<lambda>k r. r k),
     hs_incr = (\<lambda>k f n r. case int_field (r k) f of None \<Rightarrow> (0, r)
       | Some u \<Rightarrow> (u + n, r(k := dset f (str_int (u + n)) (r k)))),
     hs_set = (\<lambda>k f v r. r(k := dset f v (r k))), hs_alert = (\<lambda>t u l r. r)\<rparr>"

lemma map_hash_laws: "hash_laws map_hash (\<lambda>r. r)"
  by (simp add: hash_laws_def map_hash_def)

section \<open>Properties\<close>

text \<open>Of requests that arrive one after the other, no window that ends with an admitted request
  holds more admitted requests than the limit.\<close>

theorem sliding_window_bound:
  assumes "zset_laws ops scores" and "sorted ts" and "0 < window" and "0 \<le> mx" and "scores r key = []"
    and "t \<in> set (admitted ops key window mx ts r)"
  shows "int (in_window t window (admitted ops key window mx ts r)) \<le> mx"
  using admitted_bound [of ops scores "[]" ts window mx r key "[]" t] assms by simp

theorem sliding_window_bound_witness:
  "int (in_window (3 / 2) 1 (admitted list_zset ''k'' 1 2 [0, 1 / 2, 3 / 4, 3 / 2] [])) \<le> 2"
proof -
  have "sorted [0 :: pyfloat, 1 / 2, 3 / 4, 3 / 2]" "(0 :: pyfloat) < 1" "(0 :: int) \<le> 2" "list_scores [] ''k'' = []"
    by (simp_all add: list_scores_def)
  moreover have "3 / 2 \<in> set (admitted list_zset ''k'' 1 2 [0, 1 / 2, 3 / 4, 3 / 2] [])" by code_simp
  ultimately show ?thesis using sliding_window_bound [OF list_zset_laws] by blast
qed

text \<open>The check and the recording of a request are two commands: two requests that both check
  before either is recorded are both admitted although one slot is left.\<close>

theorem rate_limit_race:
  assumes "zset_laws ops scores" and "length (filter (\<lambda>x. now - window < x) (scores r key)) = n"
  shows "fst (window_check ops key now window (int n + 1) r) \<and>
    fst (window_check ops key now window (int n + 1) (snd (window_check ops key now window (int n + 1) r))) \<and>
    (let r2 = snd (window_check ops key now window (int n + 1) (snd (window_check ops key now window (int n + 1) r)))
     in length (scores (zs_add ops key now (zs_add ops key now r2)) key) = n + 2)"
proof -
  have idem: "filter (\<lambda>x. now - window < x) (filter (\<lambda>x. now - window < x) xs) = filter (\<lambda>x. now - window < x) xs"
    for xs :: "pyfloat list" by simp
  show ?thesis using assms by (simp add: window_check_def zset_laws_def Let_def)
qed

theorem rate_limit_race_witness:
  "fst (window_check list_zset ''k'' 1 1 (int 0 + 1) (snd (window_check list_zset ''k'' 1 1 (int 0 + 1) [])))"
  using rate_limit_race [OF list_zset_laws, of 1 1 "[]" "''k''" 0] by (simp add: list_scores_def)

text \<open>Requests whose usage stays within their estimate never overdraw a positive limit.\<close>

theorem budget_never_overdrawn:
  assumes "hash_laws ops view" and "tenant \<noteq> []" and "0 < limit"
    and "int_field (view r (budget_key month tenant)) ''limit'' = Some limit"
    and "int_field (view r (budget_key month tenant)) ''used'' = Some u" and "u \<le> limit"
    and "\<And>est act. (est, act) \<in> set reqs \<Longrightarrow> act \<le> est"
  shows "\<exists>u'. int_field (view (spend ops month tenant reqs r) (budget_key month tenant)) ''used'' = Some u' \<and>
     u' \<le> limit"
  using spend_within_limit [OF assms] .

theorem budget_never_overdrawn_witness:
  "\<exists>u'. int_field (spend map_hash ''2026-08'' ''acme'' [(60, 50), (60, 60)]
       (\<lambda>k. [(''limit'', ''100'')]) (budget_key ''2026-08'' ''acme'')) ''used'' = Some u' \<and> u' \<le> 100"
proof -
  have "int_field [(''limit'', ''100'')] ''limit'' = Some 100" "int_field [(''limit'', ''100'')] ''used'' = Some 0"
    by code_simp+
  then show ?thesis
    by (intro budget_never_overdrawn [OF map_hash_laws, where u = 0]) auto
qed

end
