(* ===== verification/PyVal.thy ===== *)
theory PyVal
  imports Prelude
begin

text \<open>
  Dynamically typed values: what Python's \<^verbatim>\<open>json\<close> and keyword dictionaries carry through the
  engine. Truth value, \<open>str\<close>, \<open>repr\<close> and \<open>int\<close> follow the built-ins; the printed form of a
  float is the argument \<open>fl\<close> wherever it is needed.
\<close>

datatype pyval =
    PNone
  | PBool bool
  | PInt int
  | PFloat pyfloat
  | PStr string
  | PList "pyval list"
  | PDict "(string \<times> pyval) list"

type_synonym pydict = "(string, pyval) dict"

fun truthy :: "pyval \<Rightarrow> bool" where
  "truthy PNone = False"
| "truthy (PBool b) = b"
| "truthy (PInt i) = (i \<noteq> 0)"
| "truthy (PFloat x) = (x \<noteq> 0)"
| "truthy (PStr s) = (s \<noteq> [])"
| "truthy (PList xs) = (xs \<noteq> [])"
| "truthy (PDict d) = (d \<noteq> [])"

text \<open>\<open>a or b\<close>.\<close>

definition py_or :: "pyval \<Rightarrow> pyval \<Rightarrow> pyval" where
  "py_or a b = (if truthy a then a else b)"

fun is_str :: "pyval \<Rightarrow> bool" where
  "is_str (PStr _) = True" | "is_str _ = False"

fun is_dict :: "pyval \<Rightarrow> bool" where
  "is_dict (PDict _) = True" | "is_dict _ = False"

abbreviation mget :: "pydict \<Rightarrow> string \<Rightarrow> pyval" where
  "mget m k \<equiv> dget_or m k PNone"

fun str_of :: "pyval \<Rightarrow> string" where
  "str_of (PStr s) = s"
| "str_of _ = []"

fun type_name :: "pyval \<Rightarrow> string" where
  "type_name PNone = ''NoneType''"
| "type_name (PBool _) = ''bool''"
| "type_name (PInt _) = ''int''"
| "type_name (PFloat _) = ''float''"
| "type_name (PStr _) = ''str''"
| "type_name (PList _) = ''list''"
| "type_name (PDict _) = ''dict''"

section \<open>Printing\<close>

definition hex_digit :: "nat \<Rightarrow> char" where
  "hex_digit d = (if d < 10 then digit_char d else char_of (87 + d))"

definition escape_char :: "char \<Rightarrow> char \<Rightarrow> string" where
  "escape_char q c =
     (let n = (of_char c :: nat)
      in if c = q \<or> n = 92 then [char_of (92 :: nat), c]
         else if n = 10 then [char_of (92 :: nat), CHR ''n'']
         else if n = 13 then [char_of (92 :: nat), CHR ''r'']
         else if n = 9 then [char_of (92 :: nat), CHR ''t'']
         else if n < 32 \<or> n = 127
         then [char_of (92 :: nat), CHR ''x'', hex_digit (n div 16), hex_digit (n mod 16)]
         else [c])"

definition squote :: char where
  "squote = char_of (39 :: nat)"

text \<open>The quotes of an f-string, whatever the text holds.\<close>

definition quoted :: "string \<Rightarrow> string" where
  "quoted s = [squote] @ s @ [squote]"

definition dquote :: char where
  "dquote = char_of (34 :: nat)"

text \<open>\<open>repr\<close> of a string prefers single quotes unless only those occur inside.\<close>

definition repr_str :: "string \<Rightarrow> string" where
  "repr_str s =
     (let q = (if squote \<in> set s \<and> dquote \<notin> set s then dquote else squote)
      in [q] @ concat (map (escape_char q) s) @ [q])"

fun py_repr :: "(pyfloat \<Rightarrow> string) \<Rightarrow> pyval \<Rightarrow> string"
  and repr_list :: "(pyfloat \<Rightarrow> string) \<Rightarrow> pyval list \<Rightarrow> string"
  and repr_items :: "(pyfloat \<Rightarrow> string) \<Rightarrow> (string \<times> pyval) list \<Rightarrow> string" where
  "py_repr fl PNone = ''None''"
| "py_repr fl (PBool b) = (if b then ''True'' else ''False'')"
| "py_repr fl (PInt i) = str_int i"
| "py_repr fl (PFloat x) = fl x"
| "py_repr fl (PStr s) = repr_str s"
| "py_repr fl (PList xs) = ''['' @ repr_list fl xs @ '']''"
| "py_repr fl (PDict d) = ''{'' @ repr_items fl d @ ''}''"
| "repr_list fl [] = []"
| "repr_list fl (x # xs) = py_repr fl x @ (if xs = [] then [] else '', '' @ repr_list fl xs)"
| "repr_items fl [] = []"
| "repr_items fl ((k, v) # d) =
     repr_str k @ '': '' @ py_repr fl v @ (if d = [] then [] else '', '' @ repr_items fl d)"

text \<open>\<open>str\<close> differs from \<open>repr\<close> on strings only.\<close>

fun py_str :: "(pyfloat \<Rightarrow> string) \<Rightarrow> pyval \<Rightarrow> string" where
  "py_str fl (PStr s) = s"
| "py_str fl v = py_repr fl v"

section \<open>Conversion to an integer\<close>

text \<open>\<open>int(v)\<close>; the error carries the message of the exception.\<close>

fun to_int :: "pyval \<Rightarrow> string + int" where
  "to_int (PInt i) = Inr i"
| "to_int (PBool b) = Inr (if b then 1 else 0)"
| "to_int (PFloat x) = Inr (py_trunc x)"
| "to_int (PStr s) =
     (case py_int s of
        Some i \<Rightarrow> Inr i
      | None \<Rightarrow> Inl (''invalid literal for int() with base 10: '' @ repr_str s))"
| "to_int v = Inl (''int() argument must be a string, a bytes-like object or a real number, not ''
     @ repr_str (type_name v))"

lemma to_int_str_int [simp]: "to_int (PStr (str_int i)) = Inr i"
  by (simp add: py_int_str_int)

section \<open>Iteration\<close>

text \<open>Iteration over a value: a dictionary gives its keys, a string its characters.\<close>

fun py_iter :: "pyval \<Rightarrow> pyval list res" where
  "py_iter (PList xs) = Inr xs"
| "py_iter (PDict d) = Inr (map (\<lambda>(k, v). PStr k) d)"
| "py_iter (PStr s) = Inr (map (\<lambda>c. PStr [c]) s)"
| "py_iter _ = Inl TypeError"

end
