(* ===== verification/Messages.thy ===== *)
theory Messages
  imports PyVal
begin

text \<open>
  The neutral message format of \<^verbatim>\<open>app/agent/message_codec.py\<close> and its conversions from and to the
  formats of OpenAI, Anthropic and Gemini. A message is a dictionary of dynamically typed values;
  \<open>dumps\<close> is \<^verbatim>\<open>json.dumps\<close>. Values of \<^verbatim>\<open>type\<close> fields are hashable.
\<close>

section \<open>Messages\<close>

abbreviation es :: pyval where
  "es \<equiv> PStr []"

definition roles :: "pyval list" where
  "roles = [PStr ''system'', PStr ''user'', PStr ''assistant'', PStr ''tool'']"

definition call_dict :: "pyval \<Rightarrow> pyval \<Rightarrow> pyval \<Rightarrow> pyval" where
  "call_dict i n a = PDict [(''id'', i), (''name'', n), (''arguments'', a)]"

fun norm_call :: "pyval \<Rightarrow> pyval res" where
  "norm_call (PDict d) =
     (case dget d ''function'' of
        Some (PDict fn) \<Rightarrow>
          Inr (call_dict (dget_or d ''id'' es) (dget_or fn ''name'' es) (dget_or fn ''arguments'' es))
      | _ \<Rightarrow> Inr (call_dict (dget_or d ''id'' es) (dget_or d ''name'' es) (dget_or d ''arguments'' es)))"
| "norm_call v = Inl AttributeError"

definition merge_extra :: "pydict \<Rightarrow> pydict \<Rightarrow> pydict" where
  "merge_extra extra m = foldl (\<lambda>acc (k, v). dset k v acc) m (ddel ''reasoning_content'' extra)"

definition make_message :: "pyval \<Rightarrow> pyval \<Rightarrow> pyval \<Rightarrow> pyval \<Rightarrow> pydict \<Rightarrow> pydict res" where
  "make_message role content tcid tcs extra =
     (if role \<notin> set roles then Inl (ValueError ''unknown role'')
      else
        let base = [(''role'', role), (''content'', if content = PNone then es else content)] @
              (if truthy tcid \<and> role = PStr ''tool'' then [(''tool_call_id'', tcid)] else [])
        in bind_res
             (if truthy tcs
              then bind_res (py_iter tcs) (\<lambda>xs. bind_res (map_res norm_call xs)
                     (\<lambda>ys. Inr (base @ [(''tool_calls'', PList ys)])))
              else Inr base)
             (\<lambda>m. Inr (merge_extra extra m)))"

definition has_function :: "pyval \<Rightarrow> bool" where
  "has_function tc \<longleftrightarrow> (case tc of PDict d \<Rightarrow> dget d ''function'' \<noteq> None | _ \<Rightarrow> False)"

fun is_neutral :: "pydict list \<Rightarrow> bool res" where
  "is_neutral [] = Inr True"
| "is_neutral (m # ms) =
     bind_res (py_iter (py_or (mget m ''tool_calls'') (PList []))) (\<lambda>tcs.
       if list_ex has_function tcs then Inr False else is_neutral ms)"

section \<open>OpenAI\<close>

fun openai_call :: "pyval \<Rightarrow> pyval res" where
  "openai_call (PDict d) = Inr (PDict [(''id'', dget_or d ''id'' es), (''type'', PStr ''function''),
     (''function'', PDict [(''name'', dget_or d ''name'' es), (''arguments'', dget_or d ''arguments'' es)])])"
| "openai_call v = Inl AttributeError"

definition to_openai_one :: "pydict \<Rightarrow> pydict res" where
  "to_openai_one m =
     (let role = dget_or m ''role'' (PStr ''user'');
          content = py_or (mget m ''content'') es;
          tcs = mget m ''tool_calls'';
          tcid = mget m ''tool_call_id'';
          base = [(''role'', role),
                  (''content'', if truthy content then content else if truthy tcs then PNone else es)] @
            (if truthy tcid \<and> role = PStr ''tool'' then [(''tool_call_id'', tcid)] else [])
      in if truthy tcs
         then bind_res (py_iter tcs) (\<lambda>xs. bind_res (map_res openai_call xs)
                (\<lambda>ys. Inr (base @ [(''tool_calls'', PList ys)])))
         else Inr base)"

definition to_openai :: "pydict list \<Rightarrow> pydict list res" where
  "to_openai ms = map_res to_openai_one ms"

definition from_openai_one :: "pydict \<Rightarrow> pydict res" where
  "from_openai_one m =
     make_message (dget_or m ''role'' (PStr ''user'')) (py_or (mget m ''content'') es)
       (dget_or m ''tool_call_id'' es) (mget m ''tool_calls'') []"

definition from_openai :: "pydict list \<Rightarrow> pydict list res" where
  "from_openai ms = map_res from_openai_one ms"

section \<open>Anthropic\<close>

record blocks =
  bl_text :: "string list"
  bl_calls :: "pyval list"
  bl_results :: "(pyval \<times> pyval) list"

definition newline :: string where
  "newline = [char_of (10 :: nat)]"

definition anthropic_block :: "(pyval \<Rightarrow> string) \<Rightarrow> (pyfloat \<Rightarrow> string) \<Rightarrow> blocks \<Rightarrow> pyval \<Rightarrow> blocks" where
  "anthropic_block dumps fl bl b =
     (case b of
        PDict d \<Rightarrow>
          (let ty = mget d ''type''
           in if ty = PStr ''text'' then bl\<lparr>bl_text := bl_text bl @ [py_str fl (dget_or d ''text'' es)]\<rparr>
              else if ty = PStr ''tool_use'' then
                bl\<lparr>bl_calls := bl_calls bl @ [call_dict (dget_or d ''id'' es) (dget_or d ''name'' es)
                     (PStr (dumps (py_or (mget d ''input'') (PDict []))))]\<rparr>
              else if ty = PStr ''tool_result'' then
                bl\<lparr>bl_results := bl_results bl @ [(dget_or d ''tool_use_id'' es,
                     if is_str (mget d ''content'') then mget d ''content''
                     else PStr (dumps (mget d ''content'')))]\<rparr>
              else bl)
      | _ \<Rightarrow> bl)"

definition single_res :: "'a res \<Rightarrow> 'a list res" where
  "single_res r = bind_res r (\<lambda>x. Inr [x])"

definition from_anthropic_one ::
  "(pyval \<Rightarrow> string) \<Rightarrow> (pyfloat \<Rightarrow> string) \<Rightarrow> pydict \<Rightarrow> pydict list res" where
  "from_anthropic_one dumps fl m =
     (let role = dget_or m ''role'' (PStr ''user'')
      in case mget m ''content'' of
           PList bs \<Rightarrow>
             (let bl = foldl (anthropic_block dumps fl) \<lparr>bl_text = [], bl_calls = [], bl_results = []\<rparr> bs;
                  text = PStr (py_join newline (bl_text bl));
                  first = (if bl_calls bl \<noteq> []
                    then single_res (make_message (PStr ''assistant'') text es (PList (bl_calls bl)) [])
                    else if bl_text bl \<noteq> [] then single_res (make_message role text es PNone [])
                    else Inr [])
              in bind_res first (\<lambda>f. bind_res
                   (map_res (\<lambda>(i, c). make_message (PStr ''tool'') c i PNone []) (bl_results bl))
                   (\<lambda>rs. Inr (f @ rs))))
         | c \<Rightarrow> single_res (make_message role (if is_str c then c else es) es PNone []))"

definition from_anthropic ::
  "(pyval \<Rightarrow> string) \<Rightarrow> (pyfloat \<Rightarrow> string) \<Rightarrow> pydict list \<Rightarrow> pydict list res" where
  "from_anthropic dumps fl ms =
     bind_res (map_res (from_anthropic_one dumps fl) ms) (\<lambda>xs. Inr (concat xs))"

section \<open>Gemini\<close>

text \<open>One part: the text and calls so far, and the tool messages appended at once.\<close>

definition gemini_part ::
  "(pyval \<Rightarrow> string) \<Rightarrow> (pyfloat \<Rightarrow> string) \<Rightarrow> (string list \<times> pyval list \<times> pydict list) res \<Rightarrow> pyval \<Rightarrow>
   (string list \<times> pyval list \<times> pydict list) res" where
  "gemini_part dumps fl acc p =
     bind_res acc (\<lambda>(ts, cs, out).
       case p of
         PDict d \<Rightarrow>
           (if dget d ''text'' \<noteq> None then Inr (ts @ [py_str fl (dget_or d ''text'' es)], cs, out)
            else case dget d ''functionCall'' of
                   Some (PDict fc) \<Rightarrow> Inr (ts, cs @ [call_dict (dget_or fc ''id'' es) (dget_or fc ''name'' es)
                     (PStr (dumps (py_or (mget fc ''args'') (PDict []))))], out)
                 | Some v \<Rightarrow> Inl AttributeError
                 | None \<Rightarrow>
                     (case dget d ''functionResponse'' of
                        Some (PDict fr) \<Rightarrow>
                          bind_res (make_message (PStr ''tool'')
                              (PStr (dumps (py_or (mget fr ''response'') (PDict [])))) (dget_or fr ''id'' es) PNone [])
                            (\<lambda>m. Inr (ts, cs, out @ [m]))
                      | Some v \<Rightarrow> Inl AttributeError
                      | None \<Rightarrow> Inr (ts, cs, out)))
       | _ \<Rightarrow> Inr (ts, cs, out))"

definition from_gemini_one ::
  "(pyval \<Rightarrow> string) \<Rightarrow> (pyfloat \<Rightarrow> string) \<Rightarrow> pydict \<Rightarrow> pydict list res" where
  "from_gemini_one dumps fl m =
     (let role = (if mget m ''role'' = PStr ''model'' then PStr ''assistant'' else dget_or m ''role'' (PStr ''user''));
          parts = (case mget m ''content'' of PList xs \<Rightarrow> PList xs | _ \<Rightarrow> dget_or m ''parts'' (PList []))
      in bind_res (py_iter (py_or parts (PList []))) (\<lambda>ps.
           bind_res (foldl (gemini_part dumps fl) (Inr ([], [], [])) ps) (\<lambda>(ts, cs, out).
             let text = PStr (py_join newline ts)
             in if cs \<noteq> [] then bind_res (make_message (PStr ''assistant'') text es (PList cs) []) (\<lambda>x. Inr (out @ [x]))
                else if ts \<noteq> [] then bind_res (make_message role text es PNone []) (\<lambda>x. Inr (out @ [x]))
                else Inr out)))"

definition from_gemini ::
  "(pyval \<Rightarrow> string) \<Rightarrow> (pyfloat \<Rightarrow> string) \<Rightarrow> pydict list \<Rightarrow> pydict list res" where
  "from_gemini dumps fl ms =
     bind_res (map_res (from_gemini_one dumps fl) ms) (\<lambda>xs. Inr (concat xs))"

section \<open>Detection\<close>

datatype msg_format = OpenAI | Anthropic | Gemini | Neutral | UnknownFormat

definition block_type_in :: "pyval list \<Rightarrow> string list \<Rightarrow> bool" where
  "block_type_in bs tys \<longleftrightarrow>
     list_ex (\<lambda>b. case b of PDict d \<Rightarrow> list_ex (\<lambda>t. mget d ''type'' = PStr t) tys | _ \<Rightarrow> False) bs"

fun detect_loop :: "pydict list \<Rightarrow> msg_format option res" where
  "detect_loop [] = Inr None"
| "detect_loop (m # ms) =
     bind_res (if truthy (mget m ''tool_calls'') then py_iter (mget m ''tool_calls'') else Inr []) (\<lambda>tcs.
       if list_ex has_function tcs then Inr (Some OpenAI)
       else if dget_or m ''role'' es = PStr ''model'' then Inr (Some Gemini)
       else case mget m ''content'' of
              PList bs \<Rightarrow>
                (if block_type_in bs [''tool_use'', ''tool_result''] then Inr (Some Anthropic)
                 else if block_type_in bs [''functionCall'', ''functionResponse''] then Inr (Some Gemini)
                 else detect_loop ms)
            | _ \<Rightarrow> detect_loop ms)"

definition detect_format :: "pydict list \<Rightarrow> msg_format res" where
  "detect_format ms =
     bind_res (detect_loop ms) (\<lambda>r. case r of
         Some f \<Rightarrow> Inr f
       | None \<Rightarrow> bind_res (is_neutral ms) (\<lambda>b. Inr (if b then Neutral else UnknownFormat)))"

definition unknown_one :: "pydict \<Rightarrow> pydict res" where
  "unknown_one m =
     make_message (dget_or m ''role'' (PStr ''user''))
       (if is_str (mget m ''content'') then dget_or m ''content'' es else es)
       (dget_or m ''tool_call_id'' es) (mget m ''tool_calls'') []"

definition auto_normalize ::
  "(pyval \<Rightarrow> string) \<Rightarrow> (pyfloat \<Rightarrow> string) \<Rightarrow> pydict list \<Rightarrow> pydict list res" where
  "auto_normalize dumps fl ms =
     (if ms = [] then Inr []
      else bind_res (detect_format ms) (\<lambda>f. case f of
          OpenAI \<Rightarrow> from_openai ms
        | Anthropic \<Rightarrow> from_anthropic dumps fl ms
        | Gemini \<Rightarrow> from_gemini dumps fl ms
        | Neutral \<Rightarrow> Inr ms
        | UnknownFormat \<Rightarrow> map_res unknown_one ms))"

section \<open>Gateway messages\<close>

record chat_call =
  cl_id :: pyval
  cl_name :: pyval
  cl_arguments :: pyval

record chat_message =
  ch_role :: pyval
  ch_content :: pyval
  ch_tool_call_id :: pyval
  ch_tool_calls :: "chat_call list option"

fun chat_call_of :: "pyval \<Rightarrow> chat_call res" where
  "chat_call_of (PDict d) = Inr \<lparr>cl_id = dget_or d ''id'' es, cl_name = dget_or d ''name'' es,
     cl_arguments = dget_or d ''arguments'' es\<rparr>"
| "chat_call_of v = Inl AttributeError"

definition to_chat_message :: "pydict \<Rightarrow> chat_message res" where
  "to_chat_message m =
     bind_res (py_iter (py_or (mget m ''tool_calls'') (PList []))) (\<lambda>xs.
       bind_res (map_res chat_call_of xs) (\<lambda>cs.
         Inr \<lparr>ch_role = dget_or m ''role'' (PStr ''user''), ch_content = py_or (mget m ''content'') es,
              ch_tool_call_id = dget_or m ''tool_call_id'' es,
              ch_tool_calls = (if cs = [] then None else Some cs)\<rparr>))"

definition to_chat_messages :: "pydict list \<Rightarrow> chat_message list res" where
  "to_chat_messages ms = map_res to_chat_message ms"

section \<open>Neutral messages\<close>

definition neutral_calls :: "(string \<times> string \<times> string) list \<Rightarrow> pyval list" where
  "neutral_calls cs = map (\<lambda>(i, n, a). call_dict (PStr i) (PStr n) (PStr a)) cs"

text \<open>What \<open>make_message\<close> builds from strings.\<close>

definition neutral ::
  "string \<Rightarrow> string \<Rightarrow> string \<Rightarrow> (string \<times> string \<times> string) list \<Rightarrow> pydict" where
  "neutral role content tcid calls =
     [(''role'', PStr role), (''content'', PStr content)] @
     (if role = ''tool'' \<and> tcid \<noteq> [] then [(''tool_call_id'', PStr tcid)] else []) @
     (if calls \<noteq> [] then [(''tool_calls'', PList (neutral_calls calls))] else [])"

definition neutral_message :: "pydict \<Rightarrow> bool" where
  "neutral_message m \<longleftrightarrow>
     (\<exists>role content tcid calls. m = neutral role content tcid calls \<and> PStr role \<in> set roles)"

definition openai_calls :: "(string \<times> string \<times> string) list \<Rightarrow> pyval list" where
  "openai_calls cs = map (\<lambda>(i, n, a). PDict [(''id'', PStr i), (''type'', PStr ''function''),
     (''function'', PDict [(''name'', PStr n), (''arguments'', PStr a)])]) cs"

definition openai_message ::
  "string \<Rightarrow> string \<Rightarrow> string \<Rightarrow> (string \<times> string \<times> string) list \<Rightarrow> pydict" where
  "openai_message role content tcid calls =
     [(''role'', PStr role), (''content'', if content = [] \<and> calls \<noteq> [] then PNone else PStr content)] @
     (if role = ''tool'' \<and> tcid \<noteq> [] then [(''tool_call_id'', PStr tcid)] else []) @
     (if calls \<noteq> [] then [(''tool_calls'', PList (openai_calls calls))] else [])"

lemma map_res_openai_call: "map_res openai_call (neutral_calls cs) = Inr (openai_calls cs)"
  by (induction cs) (auto simp: neutral_calls_def openai_calls_def call_dict_def dget_or_def)

lemma map_res_norm_openai: "map_res norm_call (openai_calls cs) = Inr (neutral_calls cs)"
  by (induction cs) (auto simp: neutral_calls_def openai_calls_def call_dict_def dget_or_def)

lemma map_res_norm_neutral: "map_res norm_call (neutral_calls cs) = Inr (neutral_calls cs)"
  by (induction cs) (auto simp: neutral_calls_def call_dict_def dget_or_def)

lemma calls_Nil [simp]:
  "neutral_calls cs = [] \<longleftrightarrow> cs = []" "openai_calls cs = [] \<longleftrightarrow> cs = []"
  by (simp_all add: neutral_calls_def openai_calls_def)

lemma merge_extra_Nil [simp]: "merge_extra [] m = m"
  by (simp add: merge_extra_def)

lemma neutral_get:
  "dget_or (neutral r c t cs) ''role'' d = PStr r"
  "dget_or (neutral r c t cs) ''content'' d = PStr c"
  "dget_or (neutral r c t cs) ''tool_call_id'' d = (if r = ''tool'' \<and> t \<noteq> [] then PStr t else d)"
  "dget_or (neutral r c t cs) ''tool_calls'' d = (if cs \<noteq> [] then PList (neutral_calls cs) else d)"
  by (simp_all add: neutral_def dget_or_def)

lemma openai_get:
  "dget_or (openai_message r c t cs) ''role'' d = PStr r"
  "dget_or (openai_message r c t cs) ''content'' d = (if c = [] \<and> cs \<noteq> [] then PNone else PStr c)"
  "dget_or (openai_message r c t cs) ''tool_call_id'' d = (if r = ''tool'' \<and> t \<noteq> [] then PStr t else d)"
  "dget_or (openai_message r c t cs) ''tool_calls'' d = (if cs \<noteq> [] then PList (openai_calls cs) else d)"
  by (simp_all add: openai_message_def dget_or_def)

lemma to_openai_one_neutral: "to_openai_one (neutral r c t cs) = Inr (openai_message r c t cs)"
  unfolding to_openai_one_def Let_def neutral_get
  by (auto simp: py_or_def map_res_openai_call openai_message_def)

lemma make_message_neutral:
  assumes "PStr r \<in> set roles"
  shows "make_message (PStr r) (PStr c) (if r = ''tool'' \<and> t \<noteq> [] then PStr t else es)
      (if cs \<noteq> [] then PList (openai_calls cs) else PNone) [] = Inr (neutral r c t cs)"
  using assms by (auto simp: make_message_def neutral_def map_res_norm_openai Let_def)

lemma from_openai_one_message:
  assumes "PStr r \<in> set roles"
  shows "from_openai_one (openai_message r c t cs) = Inr (neutral r c t cs)"
proof -
  have "py_or (if c = [] \<and> cs \<noteq> [] then PNone else PStr c) es = PStr c" by (simp add: py_or_def)
  then show ?thesis
    using make_message_neutral [OF assms] by (simp add: from_openai_one_def openai_get)
qed

definition openai_like :: "pydict \<Rightarrow> bool" where
  "openai_like m \<longleftrightarrow> (\<exists>r c t cs. m = openai_message r c t cs \<and> PStr r \<in> set roles)"

lemma openai_roundtrip_list:
  assumes "list_all neutral_message ms"
  shows "\<exists>os. to_openai ms = Inr os \<and> from_openai os = Inr ms \<and> list_all openai_like os \<and> length os = length ms"
  using assms
proof (induction ms)
  case Nil
  then show ?case by (simp add: to_openai_def from_openai_def)
next
  case (Cons m ms)
  then obtain r c t cs where m: "m = neutral r c t cs" "PStr r \<in> set roles"
    by (auto simp: neutral_message_def)
  from Cons obtain os where os: "to_openai ms = Inr os" "from_openai os = Inr ms" "list_all openai_like os"
    "length os = length ms" by auto
  have "to_openai (m # ms) = Inr (openai_message r c t cs # os)"
    using os(1) by (simp add: to_openai_def m(1) to_openai_one_neutral)
  moreover have "from_openai (openai_message r c t cs # os) = Inr (m # ms)"
    using os(2) by (simp add: from_openai_def m(1) from_openai_one_message [OF m(2)])
  moreover have "openai_like (openai_message r c t cs)" using m(2) by (auto simp: openai_like_def)
  ultimately show ?case using os(3,4) by auto
qed

text \<open>Detection of the converted messages.\<close>

lemma openai_has_function: "list_ex has_function (openai_calls cs) \<longleftrightarrow> cs \<noteq> []"
  by (cases cs) (auto simp: openai_calls_def has_function_def)

lemma detect_openai_like:
  assumes "list_all openai_like os"
  shows "detect_format os = Inr OpenAI \<or>
    (detect_format os = Inr Neutral \<and> list_all (\<lambda>m. mget m ''tool_calls'' = PNone) os)"
proof -
  have loop: "detect_loop os = Inr (Some OpenAI) \<or>
      (detect_loop os = Inr None \<and> list_all (\<lambda>m. mget m ''tool_calls'' = PNone) os)"
    using assms
  proof (induction os)
    case (Cons m os)
    then obtain r c t cs where m: "m = openai_message r c t cs" "PStr r \<in> set roles"
      by (auto simp: openai_like_def)
    have "r \<noteq> ''model''" using m(2) by (auto simp: roles_def)
    then show ?case
      using Cons by (cases "cs = []") (auto simp: m(1) openai_get openai_has_function split: if_splits)
  qed simp
  have "is_neutral os = Inr True" if "list_all (\<lambda>m. mget m ''tool_calls'' = PNone) os"
    using that by (induction os) (auto simp: py_or_def)
  with loop show ?thesis by (auto simp: detect_format_def)
qed

lemma openai_like_plain:
  assumes "openai_like m" and "mget m ''tool_calls'' = PNone"
  shows "from_openai_one m = Inr m"
proof -
  from assms(1) obtain r c t cs where m: "m = openai_message r c t cs" "PStr r \<in> set roles"
    by (auto simp: openai_like_def)
  with assms(2) have "cs = []" by (auto simp: openai_get split: if_splits)
  with from_openai_one_message [OF m(2), of c t cs] m(1) show ?thesis
    by (simp add: neutral_def openai_message_def)
qed

section \<open>Properties\<close>

text \<open>C38: a history of neutral messages survives the conversion to the OpenAI format and the automatic
  detection and conversion back: nothing is lost or changed.\<close>

theorem openai_roundtrip:
  assumes "list_all neutral_message ms"
  shows "\<exists>os. to_openai ms = Inr os \<and> from_openai os = Inr ms \<and> auto_normalize dumps fl os = Inr ms"
proof -
  obtain os where os: "to_openai ms = Inr os" "from_openai os = Inr ms" "list_all openai_like os"
    "length os = length ms" using openai_roundtrip_list [OF assms] by blast
  consider "detect_format os = Inr OpenAI"
    | "detect_format os = Inr Neutral" "list_all (\<lambda>m. mget m ''tool_calls'' = PNone) os"
    using detect_openai_like [OF os(3)] by blast
  then have "auto_normalize dumps fl os = Inr ms"
  proof cases
    case 1
    with os(2,4) show ?thesis by (auto simp: auto_normalize_def)
  next
    case 2
    then have "from_openai os = Inr os"
      using os(3) by (auto simp: from_openai_def list_all_iff openai_like_plain intro!: map_res_Inr [where g = id, simplified])
    with 2 os(2,4) show ?thesis by (auto simp: auto_normalize_def)
  qed
  with os show ?thesis by blast
qed

theorem openai_roundtrip_witness:
  "\<exists>os. to_openai [neutral ''user'' ''hi'' [] [], neutral ''assistant'' [] [] [(''c1'', ''run'', ''{}'')],
      neutral ''tool'' ''ok'' ''c1'' []] = Inr os \<and>
    from_openai os = Inr [neutral ''user'' ''hi'' [] [], neutral ''assistant'' [] [] [(''c1'', ''run'', ''{}'')],
      neutral ''tool'' ''ok'' ''c1'' []]"
  using openai_roundtrip [of "[neutral ''user'' ''hi'' [] [], neutral ''assistant'' [] [] [(''c1'', ''run'', ''{}'')],
      neutral ''tool'' ''ok'' ''c1'' []]"]
  by (fastforce simp: neutral_message_def roles_def)

end
