(* ===== verification/Lru.thy ===== *)
theory Lru
  imports Prelude
begin

text \<open>
  Dictionaries kept in the order of last use, as \<^verbatim>\<open>OrderedDict\<close> serves in the response cache and in the
  session store: \<open>move_to_end\<close>, the reference order \<open>lru\<close>, and the contract under which a container
  follows it.
\<close>

definition move_to_end :: "string \<Rightarrow> (string, 'v) dict \<Rightarrow> (string, 'v) dict" where
  "move_to_end k d = (case dget d k of None \<Rightarrow> d | Some v \<Rightarrow> ddel k d @ [(k, v)])"

lemma keys_move_to_end:
  "k \<in> set (keys d) \<Longrightarrow> keys (move_to_end k d) = filter (\<lambda>x. x \<noteq> k) (keys d) @ [k]"
  by (auto simp: move_to_end_def keys_ddel dget_None_keys split: option.splits)

lemma dget_move_to_end [simp]: "dget (move_to_end k d) k' = dget d k'"
  by (auto simp: move_to_end_def map_add_def split: option.splits)

lemma remdups_snoc: "remdups (xs @ [k]) = filter (\<lambda>x. x \<noteq> k) (remdups xs) @ [k]"
proof (induction xs)
  case (Cons x xs)
  then show ?case by (cases "x = k") auto
qed simp

text \<open>Touching a key in the whole history \<open>P @ L\<close>, and in its last \<open>n\<close> entries \<open>L\<close>.\<close>

lemma touch_present:
  assumes "distinct (P @ L)" and "length L \<le> n" and "P = [] \<or> length L = n" and "k \<in> set L"
  shows "drop (length (filter (\<lambda>x. x \<noteq> k) (P @ L) @ [k]) - n) (filter (\<lambda>x. x \<noteq> k) (P @ L) @ [k]) =
    filter (\<lambda>x. x \<noteq> k) L @ [k]"
proof -
  have P: "filter (\<lambda>x. x \<noteq> k) P = P" using assms(1,4) by (auto simp: filter_id_conv)
  have "length (filter (\<lambda>x. x \<noteq> k) L) = length (remove1 k L)"
    using assms(1) by (simp add: distinct_remove1_removeAll removeAll_filter_not_eq)
      (metis (mono_tags, lifting) filter_cong)
  then have len: "Suc (length (filter (\<lambda>x. x \<noteq> k) L)) = length L"
    using assms(4) by (simp add: length_remove1) (metis Suc_pred length_pos_if_in_set)
  show ?thesis
    using assms(3)
  proof
    assume "P = []"
    then show ?thesis using len assms(2) by simp
  next
    assume "length L = n"
    then have "length (filter (\<lambda>x. x \<noteq> k) (P @ L) @ [k]) - n = length P" using P len by simp
    then show ?thesis using P by simp
  qed
qed

lemma touch_absent:
  assumes "P = [] \<or> length L = n" and "k \<notin> set L"
  shows "drop (length (filter (\<lambda>x. x \<noteq> k) (P @ L) @ [k]) - n) (filter (\<lambda>x. x \<noteq> k) (P @ L) @ [k]) =
    drop (length (L @ [k]) - n) (L @ [k])"
proof -
  have L: "filter (\<lambda>x. x \<noteq> k) L = L" using assms(2) by (auto simp: filter_id_conv)
  show ?thesis using assms(1) by (auto simp: L)
qed

text \<open>\<open>lru n ks\<close>: the distinct keys of a history of touches, oldest touch first, cut to the last \<open>n\<close>.\<close>

definition lru :: "nat \<Rightarrow> string list \<Rightarrow> string list" where
  "lru n ks = (let r = remdups ks in drop (length r - n) r)"

lemma length_lru: "length (lru n ks) \<le> n"
  by (simp add: lru_def Let_def)

lemma lru_split:
  obtains P where "remdups ks = P @ lru n ks" and "P = [] \<or> length (lru n ks) = n"
proof
  show "remdups ks = take (length (remdups ks) - n) (remdups ks) @ lru n ks"
    by (simp add: lru_def Let_def)
  show "take (length (remdups ks) - n) (remdups ks) = [] \<or> length (lru n ks) = n"
    by (auto simp: lru_def Let_def)
qed

lemma lru_snoc:
  "lru n (ks @ [k]) =
     (if k \<in> set (lru n ks) then filter (\<lambda>x. x \<noteq> k) (lru n ks) @ [k]
      else drop (length (lru n ks @ [k]) - n) (lru n ks @ [k]))"
proof -
  obtain P where P: "remdups ks = P @ lru n ks" "P = [] \<or> length (lru n ks) = n" by (rule lru_split)
  then have dist: "distinct (P @ lru n ks)" by (metis distinct_remdups)
  have eq: "lru n (ks @ [k]) = drop (length (filter (\<lambda>x. x \<noteq> k) (P @ lru n ks) @ [k]) - n)
      (filter (\<lambda>x. x \<noteq> k) (P @ lru n ks) @ [k])"
    unfolding lru_def [of n "ks @ [k]"] remdups_snoc P(1) Let_def by (rule refl)
  show ?thesis
  proof (cases "k \<in> set (lru n ks)")
    case True
    then show ?thesis using touch_present [OF dist length_lru P(2) True] unfolding eq by simp
  next
    case False
    then show ?thesis using touch_absent [OF P(2) False] unfolding eq by simp
  qed
qed

text \<open>The contract: \<open>put\<close> moves its key to the end and cuts, \<open>touch\<close> moves a present key to the end.\<close>

locale recency =
  fixes n :: nat
    and put :: "string \<Rightarrow> 'v \<Rightarrow> (string, 'v) dict \<Rightarrow> (string, 'v) dict"
    and touch :: "string \<Rightarrow> (string, 'v) dict \<Rightarrow> (string, 'v) dict"
  assumes keys_put: "keys (put k v d) = (let ks = filter (\<lambda>x. x \<noteq> k) (keys d) @ [k] in drop (length ks - n) ks)"
    and keys_touch: "k \<in> set (keys d) \<Longrightarrow> keys (touch k d) = filter (\<lambda>x. x \<noteq> k) (keys d) @ [k]"
begin

lemma put_lru:
  assumes "keys d = lru n ks"
  shows "keys (put k v d) = lru n (ks @ [k])"
proof (cases "k \<in> set (lru n ks)")
  case True
  then have "length (filter (\<lambda>x. x \<noteq> k) (lru n ks)) < length (lru n ks)"
    by (auto intro: length_filter_less)
  then have "length (filter (\<lambda>x. x \<noteq> k) (lru n ks) @ [k]) \<le> n" using length_lru [of n ks] by simp
  then show ?thesis using True by (simp add: keys_put assms lru_snoc)
next
  case False
  then have "filter (\<lambda>x. x \<noteq> k) (lru n ks) = lru n ks" by (auto simp: filter_id_conv)
  then show ?thesis using False by (simp add: keys_put assms lru_snoc)
qed

lemma touch_lru:
  assumes "keys d = lru n ks" and "k \<in> set (keys d)"
  shows "keys (touch k d) = lru n (ks @ [k])"
  using assms(2) by (simp add: keys_touch assms(1) lru_snoc del: set_map)

end

end
