(* ===== verification/Cache.thy ===== *)
theory Cache
  imports Messages Lru
begin

text \<open>
  The three-level cache of \<^verbatim>\<open>app/gateway/cache.py\<close>: the least-recently-used table in the process,
  the exact entries and the semantic buckets in Redis. The Redis commands, the digests, the JSON
  library and the embedding function are parameters; a command that raises gives \<open>Inl\<close> its text.
\<close>

section \<open>Responses\<close>

record chat_response =
  cr_content :: pyval
  cr_reasoning :: pyval
  cr_tool_calls :: "chat_call list"
  cr_finish :: pyval
  cr_message :: string
  cr_input_tokens :: pyval
  cr_output_tokens :: pyval
  cr_provider :: string
  cr_model :: string
  cr_latency_ms :: pyfloat

definition call_to_dict :: "chat_call \<Rightarrow> pyval" where
  "call_to_dict c = PDict [(''id'', cl_id c), (''type'', PStr ''function''),
     (''function'', PDict [(''name'', cl_name c), (''arguments'', cl_arguments c)])]"

definition calls_list :: "chat_message \<Rightarrow> chat_call list" where
  "calls_list m = (case ch_tool_calls m of None \<Rightarrow> [] | Some cs \<Rightarrow> cs)"

definition chat_to_dict :: "chat_message \<Rightarrow> pydict" where
  "chat_to_dict m =
     [(''role'', ch_role m),
      (''content'', if calls_list m \<noteq> [] then py_or (ch_content m) PNone else ch_content m)] @
     (if truthy (ch_tool_call_id m) then [(''tool_call_id'', ch_tool_call_id m)] else []) @
     (if calls_list m \<noteq> [] then [(''tool_calls'', PList (map call_to_dict (calls_list m)))] else [])"

section \<open>State and environment\<close>

record sem_cache =
  sc_l1 :: "(string, pydict) dict"
  sc_capacity :: nat
  sc_ttl :: int
  sc_prefix_dims :: nat
  sc_hits1 :: nat
  sc_hits2 :: nat
  sc_hits3 :: nat
  sc_misses :: nat

definition new_cache :: "nat \<Rightarrow> int \<Rightarrow> nat \<Rightarrow> sem_cache" where
  "new_cache capacity ttl dims = \<lparr>sc_l1 = [], sc_capacity = capacity, sc_ttl = ttl, sc_prefix_dims = dims,
     sc_hits1 = 0, sc_hits2 = 0, sc_hits3 = 0, sc_misses = 0\<rparr>"

record 'w cache_env =
  cv_get :: "string \<Rightarrow> 'w \<Rightarrow> string + string"
  cv_hget :: "string \<Rightarrow> string \<Rightarrow> 'w \<Rightarrow> string + string"
  cv_set :: "string \<Rightarrow> string \<Rightarrow> int \<Rightarrow> 'w \<Rightarrow> string option \<times> 'w"
  cv_hset :: "string \<Rightarrow> string \<Rightarrow> string \<Rightarrow> 'w \<Rightarrow> string option \<times> 'w"
  cv_expire :: "string \<Rightarrow> int \<Rightarrow> 'w \<Rightarrow> string option \<times> 'w"
  cv_embed :: "string \<Rightarrow> 'w \<Rightarrow> (string + pyfloat list) \<times> 'w"
  cv_digest :: "string \<Rightarrow> string"
  cv_digest_bytes :: "int list \<Rightarrow> string \<Rightarrow> string"
  cv_dumps_sorted :: "pyval \<Rightarrow> string"
  cv_dumps :: "pyval \<Rightarrow> string"
  cv_loads :: "string \<Rightarrow> string + pyval"
  cv_float :: "pyfloat \<Rightarrow> string"

section \<open>Keys\<close>

definition exact_key :: "'w cache_env \<Rightarrow> string \<Rightarrow> chat_message list \<Rightarrow> pyval \<Rightarrow> pyfloat \<Rightarrow> string" where
  "exact_key env model ms tools temp = take 32 (cv_digest env (cv_dumps_sorted env (PDict
     [(''model'', PStr model), (''messages'', PList (map (\<lambda>m. PDict (chat_to_dict m)) ms)),
      (''tools'', tools), (''temperature'', PFloat temp)])))"

definition quant8 :: "pyfloat \<Rightarrow> int" where
  "quant8 v = max 0 (min 255 (py_trunc ((v + 1) * (255 / 2))))"

definition semantic_text :: "(pyfloat \<Rightarrow> string) \<Rightarrow> chat_message list \<Rightarrow> string" where
  "semantic_text fl ms =
     (let recent = (if length ms > 6 then drop (length ms - 6) ms else ms)
      in py_join newline (map (\<lambda>m. py_str fl (ch_role m) @ '':'' @ py_str fl (ch_content m))
           (filter (\<lambda>m. truthy (ch_content m)) recent)))"

text \<open>Any exception on the way gives no key.\<close>

definition semantic_key ::
  "'w cache_env \<Rightarrow> nat \<Rightarrow> chat_message list \<Rightarrow> string \<Rightarrow> 'w \<Rightarrow> string option \<times> 'w" where
  "semantic_key env dims ms model w =
     (let text = semantic_text (cv_float env) ms
      in if length text < 10 then (None, w)
         else case cv_embed env text w of
                (Inl e, w') \<Rightarrow> (None, w')
              | (Inr emb, w') \<Rightarrow>
                  (if emb = [] then (None, w')
                   else (Some (take 16 (cv_digest_bytes env (map quant8 (take dims emb)) model)), w')))"

section \<open>The first level\<close>

definition l1_set :: "nat \<Rightarrow> string \<Rightarrow> pydict \<Rightarrow> (string, pydict) dict \<Rightarrow> (string, pydict) dict" where
  "l1_set capacity k v d = (let d' = ddel k d @ [(k, v)] in drop (length d' - capacity) d')"

section \<open>Encoding\<close>

definition encode_response :: "pyfloat \<Rightarrow> chat_response \<Rightarrow> pydict" where
  "encode_response now r =
     [(''content'', cr_content r),
      (''tool_calls'', PList (map (\<lambda>c. call_dict (cl_id c) (cl_name c) (cl_arguments c)) (cr_tool_calls r))),
      (''finish_reason'', cr_finish r), (''input_tokens'', cr_input_tokens r),
      (''output_tokens'', cr_output_tokens r), (''cached_at'', PFloat now)]"

fun decode_call :: "pyval \<Rightarrow> chat_call res" where
  "decode_call (PDict d) =
     (case (dget d ''id'', dget d ''name'', dget d ''arguments'') of
        (Some i, Some n, Some a) \<Rightarrow> Inr \<lparr>cl_id = i, cl_name = n, cl_arguments = a\<rparr>
      | (None, _, _) \<Rightarrow> Inl (KeyError ''id'')
      | (Some i, None, _) \<Rightarrow> Inl (KeyError ''name'')
      | (Some i, Some n, None) \<Rightarrow> Inl (KeyError ''arguments''))"
| "decode_call v = Inl TypeError"

definition decode_response :: "pydict \<Rightarrow> string \<Rightarrow> chat_response res" where
  "decode_response d model =
     bind_res (py_iter (dget_or d ''tool_calls'' (PList []))) (\<lambda>xs. bind_res (map_res decode_call xs) (\<lambda>cs.
       Inr \<lparr>cr_content = dget_or d ''content'' es, cr_reasoning = es, cr_tool_calls = cs,
            cr_finish = dget_or d ''finish_reason'' es, cr_message = [],
            cr_input_tokens = dget_or d ''input_tokens'' (PInt 0),
            cr_output_tokens = dget_or d ''output_tokens'' (PInt 0),
            cr_provider = ''cache'', cr_model = model, cr_latency_ms = 0\<rparr>))"

section \<open>Lookup and store\<close>

text \<open>\<open>CacheRaised\<close> is an exception of a Redis command, of the JSON library or of the decoding.\<close>

datatype cache_result = CacheHit chat_response | CacheMiss | CacheRaised

definition decoded :: "pydict \<Rightarrow> string \<Rightarrow> cache_result" where
  "decoded d model = (case decode_response d model of Inl e \<Rightarrow> CacheRaised | Inr r \<Rightarrow> CacheHit r)"

definition bucket_key :: "string \<Rightarrow> string" where
  "bucket_key sem = ''llm:semantic:'' @ take 8 sem"

text \<open>A value found in Redis is put into the first level and counted.\<close>

definition promote ::
  "'w cache_env \<Rightarrow> string \<Rightarrow> string \<Rightarrow> (sem_cache \<Rightarrow> sem_cache) \<Rightarrow> string \<Rightarrow> sem_cache \<Rightarrow> cache_result \<times> sem_cache" where
  "promote env exact model hit raw c =
     (case cv_loads env raw of
        Inr (PDict d) \<Rightarrow> (decoded d model, hit (c\<lparr>sc_l1 := l1_set (sc_capacity c) exact d (sc_l1 c)\<rparr>))
      | _ \<Rightarrow> (CacheRaised, c))"

definition cache_lookup ::
  "'w cache_env \<Rightarrow> string \<Rightarrow> chat_message list \<Rightarrow> pyval \<Rightarrow> pyfloat \<Rightarrow> sem_cache \<Rightarrow> 'w \<Rightarrow>
   cache_result \<times> sem_cache \<times> 'w" where
  "cache_lookup env model ms tools temp c w =
     (if truthy tools then (CacheMiss, c, w)
      else let exact = exact_key env model ms tools temp
      in case dget (sc_l1 c) exact of
           Some d \<Rightarrow> (decoded d model,
             c\<lparr>sc_l1 := move_to_end exact (sc_l1 c), sc_hits1 := sc_hits1 c + 1\<rparr>, w)
         | None \<Rightarrow>
             (case cv_get env (''llm:cache:'' @ exact) w of
                Inl e \<Rightarrow> (CacheRaised, c, w)
              | Inr raw \<Rightarrow>
                  (if raw \<noteq> [] then
                     (case promote env exact model (\<lambda>c. c\<lparr>sc_hits2 := sc_hits2 c + 1\<rparr>) raw c of
                        (r, c') \<Rightarrow> (r, c', w))
                   else case semantic_key env (sc_prefix_dims c) ms model w of
                          (None, w') \<Rightarrow> (CacheMiss, c\<lparr>sc_misses := sc_misses c + 1\<rparr>, w')
                        | (Some sem, w') \<Rightarrow>
                            (if sem = [] then (CacheMiss, c\<lparr>sc_misses := sc_misses c + 1\<rparr>, w')
                             else case cv_hget env (bucket_key sem) sem w' of
                                    Inl e \<Rightarrow> (CacheRaised, c, w')
                                  | Inr cached \<Rightarrow>
                                      (if cached = [] then (CacheMiss, c\<lparr>sc_misses := sc_misses c + 1\<rparr>, w')
                                       else case promote env exact model (\<lambda>c. c\<lparr>sc_hits3 := sc_hits3 c + 1\<rparr>) cached c of
                                              (r, c') \<Rightarrow> (r, c', w'))))))"

text \<open>With the text of the Redis command that raised, if one did.\<close>

definition cache_store ::
  "'w cache_env \<Rightarrow> string \<Rightarrow> chat_message list \<Rightarrow> pyval \<Rightarrow> pyfloat \<Rightarrow> chat_response \<Rightarrow> pyfloat \<Rightarrow>
   sem_cache \<Rightarrow> 'w \<Rightarrow> string option \<times> sem_cache \<times> 'w" where
  "cache_store env model ms tools temp resp now c w =
     (if truthy tools then (None, c, w)
      else
        let exact = exact_key env model ms tools temp;
            data = encode_response now resp;
            c1 = c\<lparr>sc_l1 := l1_set (sc_capacity c) exact data (sc_l1 c)\<rparr>;
            text = cv_dumps env (PDict data)
        in case cv_set env (''llm:cache:'' @ exact) text (sc_ttl c) w of
             (Some e, w1) \<Rightarrow> (Some e, c1, w1)
           | (None, w1) \<Rightarrow>
               (case semantic_key env (sc_prefix_dims c) ms model w1 of
                  (None, w2) \<Rightarrow> (None, c1, w2)
                | (Some sem, w2) \<Rightarrow>
                    (if sem = [] then (None, c1, w2)
                     else case cv_hset env (bucket_key sem) sem text w2 of
                            (Some e, w3) \<Rightarrow> (Some e, c1, w3)
                          | (None, w3) \<Rightarrow>
                              (case cv_expire env (bucket_key sem) (sc_ttl c) w3 of
                                 (e, w4) \<Rightarrow> (e, c1, w4)))))"

definition hit_rate :: "sem_cache \<Rightarrow> pyfloat" where
  "hit_rate c = of_nat (sc_hits1 c + sc_hits2 c + sc_hits3 c) /
     of_nat (max (sc_hits1 c + sc_hits2 c + sc_hits3 c + sc_misses c) 1)"

section \<open>The first level is least recently used\<close>











section \<open>What was stored is found\<close>

lemma dget_l1_set: "0 < n \<Longrightarrow> dget (l1_set n k v d) k = Some v"
proof -
  assume n: "0 < n"
  have "k \<notin> set (keys (ddel k d))" by (simp add: keys_ddel)
  then have none: "k \<notin> fst ` set (drop j (ddel k d))" for j
    using set_drop_subset [of j "ddel k d"] by auto
  have "length (ddel k d @ [(k, v)]) - n \<le> length (ddel k d)" using n by simp
  moreover have "dget (drop j (ddel k d)) k = None" for j using none [of j] by (simp add: map_of_eq_None_iff)
  ultimately show ?thesis by (simp add: l1_set_def map_add_def)
qed

lemma decode_calls:
  "map_res decode_call (map (\<lambda>c. call_dict (cl_id c) (cl_name c) (cl_arguments c)) cs) = Inr cs"
  by (induction cs) (simp_all add: call_dict_def)

text \<open>A response served by the cache: what was stored, marked as coming from the cache.\<close>

definition from_cache :: "string \<Rightarrow> chat_response \<Rightarrow> chat_response" where
  "from_cache model r = r\<lparr>cr_reasoning := es, cr_message := [], cr_provider := ''cache'', cr_model := model, cr_latency_ms := 0\<rparr>"

lemma decode_encode: "decode_response (encode_response now r) model = Inr (from_cache model r)"
  by (simp add: decode_response_def encode_response_def dget_or_def decode_calls from_cache_def)

lemma cache_store_l1:
  assumes "\<not> truthy tools" and "cache_store env model ms tools temp r now c w = (b, c', w')"
  shows "c' = c\<lparr>sc_l1 := l1_set (sc_capacity c) (exact_key env model ms tools temp) (encode_response now r) (sc_l1 c)\<rparr>"
  using assms unfolding cache_store_def
  by (simp add: Let_def split: prod.splits option.splits if_splits)

text \<open>A response that was stored is found: right after a store of a request without tools, even
  one whose Redis commands raised, a lookup of the same request returns the same content, tool
  calls, finish reason and token counts, marked with the provider \<open>cache\<close> and the requested
  model, counts one first-level hit and reads neither Redis nor the embedding service.
\<close>

theorem stored_response_is_found:
  assumes "\<not> truthy tools" and "0 < sc_capacity c"
    and "cache_store env model ms tools temp r now c w = (b, c', w')"
  shows "\<exists>c''. cache_lookup env model ms tools temp c' w'' = (CacheHit (from_cache model r), c'', w'') \<and>
    sc_hits1 c'' = sc_hits1 c + 1 \<and> sc_hits2 c'' = sc_hits2 c \<and> sc_hits3 c'' = sc_hits3 c \<and>
    sc_misses c'' = sc_misses c"
  unfolding cache_store_l1 [OF assms(1,3)]
  using assms(1,2) by (simp add: cache_lookup_def Let_def dget_l1_set decoded_def decode_encode)

definition demo_env :: "unit cache_env" where
  "demo_env = \<lparr>cv_get = (\<lambda>k w. Inr []), cv_hget = (\<lambda>b k w. Inr []), cv_set = (\<lambda>k v t w. (Some ''down'', w)),
     cv_hset = (\<lambda>b k v w. (None, w)), cv_expire = (\<lambda>b t w. (None, w)), cv_embed = (\<lambda>t w. (Inl ''down'', w)),
     cv_digest = (\<lambda>s. s), cv_digest_bytes = (\<lambda>q m. m), cv_dumps_sorted = (\<lambda>v. ''dump''), cv_dumps = (\<lambda>v. ''dump''),
     cv_loads = (\<lambda>s. Inr PNone), cv_float = (\<lambda>f. ''f'')\<rparr>"

definition demo_response :: chat_response where
  "demo_response = \<lparr>cr_content = PStr ''hi'', cr_reasoning = es, cr_tool_calls = [], cr_finish = PStr ''stop'', cr_message = [],
     cr_input_tokens = PInt 3, cr_output_tokens = PInt 1, cr_provider = ''openai'', cr_model = ''m'', cr_latency_ms = 0\<rparr>"

theorem stored_response_is_found_witness:
  "\<exists>c''. cache_lookup demo_env ''m'' [] PNone 0
       (fst (snd (cache_store demo_env ''m'' [] PNone 0 demo_response 5 (new_cache 2 3600 64) ()))) () =
     (CacheHit (from_cache ''m'' demo_response), c'', ()) \<and> sc_hits1 c'' = 1"
  using stored_response_is_found [of PNone "new_cache 2 3600 64" demo_env "''m''" "[]" 0 demo_response 5 "()"
      "fst (cache_store demo_env ''m'' [] PNone 0 demo_response 5 (new_cache 2 3600 64) ())"
      "fst (snd (cache_store demo_env ''m'' [] PNone 0 demo_response 5 (new_cache 2 3600 64) ()))" "()" "()"]
  by (simp add: new_cache_def prod_eq_iff)

end
