(* ===== verification/Router.thy ===== *)
theory Router
  imports Circuit Weighted TenantLimits Cache
begin

text \<open>
  The gateway router of \<^verbatim>\<open>app/gateway/router.py\<close>: normalisation of messages, selection of a
  provider (hint, model prefix, circuit breakers, weighted choice), and the chat, streaming and
  embedding calls with their cache, budget, breaker and latency bookkeeping. The providers, the
  clocks and the random numbers are parameters; \<open>'w\<close> is the world they and Redis live in.
\<close>

section \<open>Messages\<close>

datatype raw_message = MsgObj chat_message | MsgVal pyval

fun normalize_message :: "(pyfloat \<Rightarrow> string) \<Rightarrow> raw_message \<Rightarrow> chat_message res" where
  "normalize_message fl (MsgObj m) = Inr m"
| "normalize_message fl (MsgVal (PDict d)) =
     Inr \<lparr>ch_role = PStr (py_str fl (dget_or d ''role'' (PStr ''user''))),
          ch_content = py_or (mget d ''content'') es,
          ch_tool_call_id = PStr (py_str fl (py_or (dget_or d ''tool_call_id'' es) es)),
          ch_tool_calls = None\<rparr>"
| "normalize_message fl (MsgVal v) = Inl TypeError"

definition normalize_messages :: "(pyfloat \<Rightarrow> string) \<Rightarrow> raw_message list \<Rightarrow> chat_message list res" where
  "normalize_messages fl ms = map_res (normalize_message fl) ms"

section \<open>State and environment\<close>

text \<open>
  Providers are known by their names, in the order of registration; each is registered under its
  own name.
\<close>

record router =
  rt_providers :: "string list"
  rt_breakers :: "(string, circuit_breaker) dict"
  rt_latencies :: "(string, pyfloat) dict"
  rt_cache :: "sem_cache option"
  rt_budget :: bool
  rt_w_cost :: pyfloat
  rt_w_latency :: pyfloat
  rt_w_quality :: pyfloat

definition new_router :: "string list \<Rightarrow> sem_cache option \<Rightarrow> bool \<Rightarrow> router" where
  "new_router ps cache budget =
     \<lparr>rt_providers = ps, rt_breakers = map (\<lambda>p. (p, default_breaker)) ps,
      rt_latencies = map (\<lambda>p. (p, 500)) ps, rt_cache = cache, rt_budget = budget,
      rt_w_cost = 3 / 10, rt_w_latency = 3 / 10, rt_w_quality = 4 / 10\<rparr>"

text \<open>
  A stream is its chunks, the exception that ends it, and the world after its first \<open>n\<close> chunks.
\<close>

record 'w router_env =
  rv_cache :: "'w cache_env"
  rv_budget :: "'w hash_ops"
  rv_month :: "'w \<Rightarrow> string"
  rv_mono :: "'w \<Rightarrow> pyfloat"
  rv_time :: "'w \<Rightarrow> pyfloat"
  rv_uniform :: "'w \<Rightarrow> pyfloat \<times> 'w"
  rv_choice :: "nat \<Rightarrow> 'w \<Rightarrow> nat \<times> 'w"
  rv_chat :: "string \<Rightarrow> chat_message list \<Rightarrow> string \<Rightarrow> int \<Rightarrow> pyfloat \<Rightarrow> pyval \<Rightarrow> 'w \<Rightarrow> (string + chat_response) \<times> 'w"
  rv_stream :: "string \<Rightarrow> chat_message list \<Rightarrow> string \<Rightarrow> int \<Rightarrow> pyfloat \<Rightarrow> pyval \<Rightarrow> 'w \<Rightarrow>
    chat_response list \<times> string option \<times> (nat \<Rightarrow> 'w)"
  rv_embed :: "string \<Rightarrow> string \<Rightarrow> string \<Rightarrow> 'w \<Rightarrow> (string + pyfloat list \<times> int) \<times> 'w"

text \<open>The arguments of a chat request.\<close>

record chat_request =
  rq_messages :: "raw_message list"
  rq_model :: string
  rq_tenant :: string
  rq_hint :: string
  rq_max_tokens :: int
  rq_temperature :: pyfloat
  rq_tools :: pyval

definition breaker_of :: "router \<Rightarrow> string \<Rightarrow> circuit_breaker" where
  "breaker_of rt p = dget_or (rt_breakers rt) p default_breaker"

definition latency_of :: "router \<Rightarrow> string \<Rightarrow> pyfloat" where
  "latency_of rt p = dget_or (rt_latencies rt) p 500"

definition set_breaker :: "string \<Rightarrow> circuit_breaker \<Rightarrow> router \<Rightarrow> router" where
  "set_breaker p b rt = rt\<lparr>rt_breakers := dset p b (rt_breakers rt)\<rparr>"

definition record_latency :: "string \<Rightarrow> pyfloat \<Rightarrow> router \<Rightarrow> router" where
  "record_latency p elapsed rt =
     rt\<lparr>rt_latencies := dset p (latency_of rt p * (8 / 10) + elapsed * (2 / 10)) (rt_latencies rt)\<rparr>"

section \<open>Selection\<close>

definition find_candidates :: "string \<Rightarrow> string list \<Rightarrow> string list" where
  "find_candidates model ps =
     (let m = lower model in
      if has_sub ''claude'' m \<and> ''anthropic'' \<in> set ps then [''anthropic'']
      else if has_sub ''deepseek'' m \<and> ''deepseek'' \<in> set ps then [''deepseek'']
      else if (has_sub ''gpt'' m \<or> has_sub ''o1'' m \<or> has_sub ''o3'' m \<or> has_sub ''embedding'' m) \<and>
              ''openai'' \<in> set ps then [''openai'']
      else if ''openai'' \<in> set ps then [''openai'']
      else ps)"

definition default_cost :: "(string, pyfloat) dict" where
  "default_cost = [(''anthropic'', 3), (''openai'', 5), (''deepseek'', 2 / 10)]"

definition default_quality :: "(string, pyfloat) dict" where
  "default_quality = [(''anthropic'', 95 / 100), (''openai'', 90 / 100), (''deepseek'', 80 / 100)]"

definition provider_score :: "router \<Rightarrow> string \<Rightarrow> pyfloat" where
  "provider_score rt p =
     rt_w_cost rt * (1 / dget_or default_cost p 5) +
     rt_w_latency rt * (1000 / max (latency_of rt p) 1) +
     rt_w_quality rt * dget_or default_quality p (1 / 2)"

definition weighted_select :: "'w router_env \<Rightarrow> router \<Rightarrow> string list \<Rightarrow> 'w \<Rightarrow> string \<times> 'w" where
  "weighted_select env rt ps w =
     (if length ps = 1 then (hd ps, w)
      else let scored = map (\<lambda>p. (p, provider_score rt p)) ps; total = total_weight scored
      in if total \<le> 0 then (case rv_choice env (length ps) w of (i, w') \<Rightarrow> (ps ! i, w'))
         else case rv_uniform env w of (u, w') \<Rightarrow>
           (case cum_pick (u * total) 0 scored of Some p \<Rightarrow> (p, w') | None \<Rightarrow> (last ps, w')))"

text \<open>Asking the breakers of the candidates, one after the other.\<close>

fun filter_open :: "pyfloat \<Rightarrow> string list \<Rightarrow> router \<Rightarrow> string list \<times> router" where
  "filter_open now [] rt = ([], rt)"
| "filter_open now (p # ps) rt =
     (let (ok, b) = cb_allow now (breaker_of rt p);
          (rest, rt') = filter_open now ps (set_breaker p b rt)
      in (if ok then p # rest else rest, rt'))"

definition select_rest :: "'w router_env \<Rightarrow> string \<Rightarrow> router \<Rightarrow> 'w \<Rightarrow> string option \<times> router \<times> 'w" where
  "select_rest env model rt w =
     (let cands = find_candidates model (rt_providers rt);
          cands' = (if cands = [] then rt_providers rt else cands)
      in case filter_open (rv_mono env w) cands' rt of (avail, rt') \<Rightarrow>
           (if avail = [] then (None, rt', w)
            else case weighted_select env rt' avail w of (p, w') \<Rightarrow> (Some p, rt', w')))"

definition select_provider ::
  "'w router_env \<Rightarrow> string \<Rightarrow> string \<Rightarrow> router \<Rightarrow> 'w \<Rightarrow> string option \<times> router \<times> 'w" where
  "select_provider env model hint rt w =
     (if hint \<noteq> [] \<and> hint \<in> set (rt_providers rt)
      then case cb_allow (rv_mono env w) (breaker_of rt hint) of (ok, b) \<Rightarrow>
             (if ok then (Some hint, set_breaker hint b rt, w)
              else select_rest env model (set_breaker hint b rt) w)
      else select_rest env model rt w)"

section \<open>Bookkeeping shared by the calls\<close>

definition record_ok :: "string \<Rightarrow> router \<Rightarrow> router" where
  "record_ok p rt = set_breaker p (cb_record_success (breaker_of rt p)) rt"

definition record_fail :: "pyfloat \<Rightarrow> string \<Rightarrow> router \<Rightarrow> router" where
  "record_fail now p rt = set_breaker p (cb_record_failure now (breaker_of rt p)) rt"

definition response :: "pyval \<Rightarrow> pyval \<Rightarrow> string \<Rightarrow> int \<Rightarrow> int \<Rightarrow> string \<Rightarrow> string \<Rightarrow> chat_response" where
  "response content finish message tin tout provider model =
     \<lparr>cr_content = content, cr_reasoning = es, cr_tool_calls = [], cr_finish = finish, cr_message = message,
      cr_input_tokens = PInt tin, cr_output_tokens = PInt tout, cr_provider = provider, cr_model = model,
      cr_latency_ms = 0\<rparr>"

definition error_response :: "string \<Rightarrow> string \<Rightarrow> string \<Rightarrow> chat_response" where
  "error_response message provider model = response es (PStr ''error'') message 0 0 provider model"

text \<open>The providers fill in token counts that are integers.\<close>

definition tokens :: "pyval \<Rightarrow> int" where
  "tokens v = (case v of PInt i \<Rightarrow> i | _ \<Rightarrow> 0)"

definition total_tokens :: "chat_response \<Rightarrow> int" where
  "total_tokens r = tokens (cr_input_tokens r) + tokens (cr_output_tokens r)"

datatype 'a outcome = Returned 'a | Raised

text \<open>The cache in front of a request; \<open>CacheRaised\<close> escapes from the call.\<close>

definition try_cache ::
  "'w router_env \<Rightarrow> chat_request \<Rightarrow> chat_message list \<Rightarrow> router \<Rightarrow> 'w \<Rightarrow> cache_result \<times> router \<times> 'w" where
  "try_cache env q ms rt w =
     (case rt_cache rt of
        None \<Rightarrow> (CacheMiss, rt, w)
      | Some c \<Rightarrow>
          (if truthy (rq_tools q) then (CacheMiss, rt, w)
           else case cache_lookup (rv_cache env) (rq_model q) ms (rq_tools q) (rq_temperature q) c w of
                  (r, c', w') \<Rightarrow> (r, rt\<lparr>rt_cache := Some c'\<rparr>, w')))"

definition try_store ::
  "'w router_env \<Rightarrow> chat_request \<Rightarrow> chat_message list \<Rightarrow> chat_response \<Rightarrow> router \<Rightarrow> 'w \<Rightarrow>
   string option \<times> router \<times> 'w" where
  "try_store env q ms resp rt w =
     (case rt_cache rt of
        None \<Rightarrow> (None, rt, w)
      | Some c \<Rightarrow>
          (case cache_store (rv_cache env) (rq_model q) ms (rq_tools q) (rq_temperature q) resp (rv_time env w) c w of
             (e, c', w') \<Rightarrow> (e, rt\<lparr>rt_cache := Some c'\<rparr>, w')))"

definition budget_allows :: "'w router_env \<Rightarrow> chat_request \<Rightarrow> router \<Rightarrow> 'w \<Rightarrow> bool res" where
  "budget_allows env q rt w =
     (if rt_budget rt \<and> rq_tenant q \<noteq> []
      then bg_check (rv_budget env) (rv_month env w) (rq_tenant q) (rq_max_tokens q) w else Inr True)"

definition charge :: "'w router_env \<Rightarrow> chat_request \<Rightarrow> int \<Rightarrow> router \<Rightarrow> 'w \<Rightarrow> 'w" where
  "charge env q n rt w =
     (if rt_budget rt \<and> rq_tenant q \<noteq> [] \<and> 0 < n
      then bg_deduct (rv_budget env) (rv_month env w) (rq_tenant q) n w else w)"

definition close_latency :: "'w router_env \<Rightarrow> string \<Rightarrow> pyfloat \<Rightarrow> 'w \<Rightarrow> router \<Rightarrow> router" where
  "close_latency env p start w rt = record_latency p ((rv_mono env w - start) * 1000) rt"

section \<open>chat\<close>

text \<open>The body of the \<open>try\<close>: \<open>None\<close> is an exception, of the provider or of the cache.\<close>

definition chat_try ::
  "'w router_env \<Rightarrow> chat_request \<Rightarrow> chat_message list \<Rightarrow> string \<Rightarrow> router \<Rightarrow> 'w \<Rightarrow>
   chat_response option \<times> router \<times> 'w" where
  "chat_try env q ms p rt w =
     (case rv_chat env p ms (rq_model q) (rq_max_tokens q) (rq_temperature q) (rq_tools q) w of
        (Inl e, w1) \<Rightarrow> (None, rt, w1)
      | (Inr r, w1) \<Rightarrow>
          (let resp = r\<lparr>cr_provider := p, cr_model := rq_model q\<rparr>;
               rt1 = record_ok p rt
           in case (if \<not> truthy (rq_tools q) \<and> cr_finish resp \<noteq> PStr ''error''
                    then try_store env q ms resp rt1 w1 else (None, rt1, w1)) of
                (err, rt2, w2) \<Rightarrow>
                  (if err \<noteq> None then (None, rt2, w2)
                   else (Some resp, rt2, charge env q (total_tokens resp) rt2 w2))))"

definition chat_with ::
  "'w router_env \<Rightarrow> chat_request \<Rightarrow> chat_message list \<Rightarrow> string \<Rightarrow> router \<Rightarrow> 'w \<Rightarrow>
   chat_response \<times> router \<times> 'w" where
  "chat_with env q ms p rt w =
     (case chat_try env q ms p rt w of
        (Some resp, rt1, w1) \<Rightarrow> (resp, close_latency env p (rv_mono env w) w1 rt1, w1)
      | (None, rt1, w1) \<Rightarrow>
          (error_response [] p (rq_model q),
           close_latency env p (rv_mono env w) w1 (record_fail (rv_mono env w1) p rt1), w1))"

definition chat ::
  "'w router_env \<Rightarrow> chat_request \<Rightarrow> router \<Rightarrow> 'w \<Rightarrow> chat_response outcome \<times> router \<times> 'w" where
  "chat env q rt w =
     (case normalize_messages (cv_float (rv_cache env)) (rq_messages q) of
        Inl e \<Rightarrow> (Raised, rt, w)
      | Inr ms \<Rightarrow>
          (case try_cache env q ms rt w of
             (CacheRaised, rt1, w1) \<Rightarrow> (Raised, rt1, w1)
           | (CacheHit r, rt1, w1) \<Rightarrow> (Returned r, rt1, w1)
           | (CacheMiss, rt1, w1) \<Rightarrow>
               (case select_provider env (rq_model q) (rq_hint q) rt1 w1 of
                  (None, rt2, w2) \<Rightarrow> (Returned (error_response [] ''none'' (rq_model q)), rt2, w2)
                | (Some p, rt2, w2) \<Rightarrow>
                    (case budget_allows env q rt2 w2 of
                       Inl e \<Rightarrow> (Raised, rt2, w2)
                     | Inr False \<Rightarrow> (Returned (error_response [] p (rq_model q)), rt2, w2)
                     | Inr True \<Rightarrow> (case chat_with env q ms p rt2 w2 of (r, rt3, w3) \<Rightarrow> (Returned r, rt3, w3))))))"

section \<open>chat_stream\<close>

record stream_acc =
  sa_content :: string
  sa_finish :: pyval
  sa_in :: int
  sa_out :: int

definition text_of :: "pyval \<Rightarrow> string" where
  "text_of v = (case v of PStr s \<Rightarrow> s | _ \<Rightarrow> [])"

definition add_chunk :: "stream_acc \<Rightarrow> chat_response \<Rightarrow> stream_acc" where
  "add_chunk a c =
     \<lparr>sa_content = sa_content a @ text_of (cr_content c),
      sa_finish = (if truthy (cr_finish c) then cr_finish c else sa_finish a),
      sa_in = sa_in a + tokens (cr_input_tokens c),
      sa_out = sa_out a + tokens (cr_output_tokens c)\<rparr>"

definition collect :: "chat_response list \<Rightarrow> stream_acc" where
  "collect cs = foldl add_chunk \<lparr>sa_content = [], sa_finish = es, sa_in = 0, sa_out = 0\<rparr> cs"

definition relabel :: "string \<Rightarrow> string \<Rightarrow> chat_response \<Rightarrow> chat_response" where
  "relabel p model c = c\<lparr>cr_provider := p, cr_model := model\<rparr>"

text \<open>
  After the last chunk: the success is recorded and the text cached; an exception of the cache
  gives its text.
\<close>

definition stream_end ::
  "'w router_env \<Rightarrow> chat_request \<Rightarrow> chat_message list \<Rightarrow> string \<Rightarrow> stream_acc \<Rightarrow> router \<Rightarrow> 'w \<Rightarrow>
   string option \<times> router \<times> 'w" where
  "stream_end env q ms p a rt w =
     (let rt1 = record_ok p rt
      in if \<not> truthy (rq_tools q) \<and> sa_finish a \<noteq> PStr ''error'' \<and> sa_content a \<noteq> []
         then try_store env q ms (response (PStr (sa_content a)) (sa_finish a) [] (sa_in a) (sa_out a) p (rq_model q)) rt1 w
         else (None, rt1, w))"

text \<open>
  \<open>quit = Some n\<close>: the consumer closes the generator when it has received its \<open>n\<close>-th item. The
  exception it sees then is not an \<open>Exception\<close>, so no failure is recorded and nothing is charged.
\<close>

definition stream_message :: "string \<Rightarrow> string \<Rightarrow> string" where
  "stream_message p e = ''provider '' @ p @ '' stream failed: '' @ e"

definition stream_finish ::
  "'w router_env \<Rightarrow> chat_request \<Rightarrow> chat_message list \<Rightarrow> string \<Rightarrow> chat_response list \<Rightarrow> string option \<Rightarrow>
   nat option \<Rightarrow> pyfloat \<Rightarrow> router \<Rightarrow> 'w \<Rightarrow> chat_response list \<times> router \<times> 'w" where
  "stream_finish env q ms p chunks err quit start rt w =
     (let a = collect chunks;
          items = map (relabel p (rq_model q)) chunks
      in case (case err of Some e \<Rightarrow> (Some e, rt, w)
               | None \<Rightarrow> stream_end env q ms p a rt w) of
           (None, rt1, w1) \<Rightarrow>
             (let w2 = charge env q (sa_in a + sa_out a) rt1 w1
              in (items, close_latency env p start w2 rt1, w2))
         | (Some e, rt1, w1) \<Rightarrow>
             (let rt2 = record_fail (rv_mono env w1) p rt1;
                  w2 = (if quit = Some (length chunks + 1) then w1 else charge env q (sa_in a + sa_out a) rt2 w1)
              in (items @ [error_response (stream_message p e) p (rq_model q)],
                  close_latency env p start w2 rt2, w2)))"

definition stream_with ::
  "'w router_env \<Rightarrow> chat_request \<Rightarrow> chat_message list \<Rightarrow> string \<Rightarrow> nat option \<Rightarrow> router \<Rightarrow> 'w \<Rightarrow>
   chat_response list \<times> router \<times> 'w" where
  "stream_with env q ms p quit rt w =
     (case rv_stream env p ms (rq_model q) (rq_max_tokens q) (rq_temperature q) (rq_tools q) w of
        (chunks, err, world) \<Rightarrow>
          (case quit of
             Some n \<Rightarrow>
               (if n \<le> length chunks
                then (map (relabel p (rq_model q)) (take n chunks), close_latency env p (rv_mono env w) (world n) rt, world n)
                else stream_finish env q ms p chunks err (Some n) (rv_mono env w) rt (world (length chunks)))
           | None \<Rightarrow> stream_finish env q ms p chunks err None (rv_mono env w) rt (world (length chunks))))"

definition no_provider_message :: "string \<Rightarrow> string list \<Rightarrow> string" where
  "no_provider_message model ps = ''no LLM provider available for model='' @ model @
     '' (check API keys in .env; configured: '' @ py_join '','' ps @ '')''"

definition chat_stream ::
  "'w router_env \<Rightarrow> chat_request \<Rightarrow> nat option \<Rightarrow> router \<Rightarrow> 'w \<Rightarrow>
   chat_response list outcome \<times> router \<times> 'w" where
  "chat_stream env q quit rt w =
     (case normalize_messages (cv_float (rv_cache env)) (rq_messages q) of
        Inl e \<Rightarrow> (Raised, rt, w)
      | Inr ms \<Rightarrow>
          (case try_cache env q ms rt w of
             (CacheRaised, rt1, w1) \<Rightarrow> (Raised, rt1, w1)
           | (CacheHit r, rt1, w1) \<Rightarrow> (Returned [r], rt1, w1)
           | (CacheMiss, rt1, w1) \<Rightarrow>
               (case select_provider env (rq_model q) (rq_hint q) rt1 w1 of
                  (None, rt2, w2) \<Rightarrow>
                    (Returned [error_response (no_provider_message (rq_model q) (rt_providers rt2)) ''none'' (rq_model q)],
                     rt2, w2)
                | (Some p, rt2, w2) \<Rightarrow>
                    (case budget_allows env q rt2 w2 of
                       Inl e \<Rightarrow> (Raised, rt2, w2)
                     | Inr False \<Rightarrow>
                         (Returned [error_response (''token budget exceeded for tenant '' @ rq_tenant q) p (rq_model q)], rt2, w2)
                     | Inr True \<Rightarrow>
                         (case stream_with env q ms p quit rt2 w2 of (rs, rt3, w3) \<Rightarrow> (Returned rs, rt3, w3))))))"

section \<open>embed, stats\<close>

definition embed ::
  "'w router_env \<Rightarrow> string \<Rightarrow> string \<Rightarrow> string \<Rightarrow> router \<Rightarrow> 'w \<Rightarrow> (pyfloat list \<times> int) \<times> router \<times> 'w" where
  "embed env text model hint rt w =
     (case select_provider env model hint rt w of
        (None, rt1, w1) \<Rightarrow> (([], 0), rt1, w1)
      | (Some p, rt1, w1) \<Rightarrow>
          (case rv_embed env p text model w1 of
             (Inr r, w2) \<Rightarrow> (r, record_ok p rt1, w2)
           | (Inl e, w2) \<Rightarrow> (([], 0), record_fail (rv_mono env w2) p rt1, w2)))"

definition router_stats ::
  "(pyfloat \<Rightarrow> pyfloat) \<Rightarrow> router \<Rightarrow> (string \<times> circuit_state \<times> pyfloat) list \<times> pyfloat option" where
  "router_stats round1 rt =
     (map (\<lambda>p. (p, cb_state (breaker_of rt p), round1 (latency_of rt p))) (rt_providers rt),
      map_option hit_rate (rt_cache rt))"

section \<open>Facts about the pieces\<close>

lemma breaker_of_set [simp]: "breaker_of (set_breaker p b rt) p' = (if p' = p then b else breaker_of rt p')"
  by (simp add: breaker_of_def set_breaker_def)

lemma router_set [simp]:
  "rt_providers (set_breaker p b rt) = rt_providers rt" "rt_cache (set_breaker p b rt) = rt_cache rt"
  "rt_budget (set_breaker p b rt) = rt_budget rt" "latency_of (set_breaker p b rt) = latency_of rt"
  by (simp_all add: set_breaker_def latency_of_def fun_eq_iff)

lemma router_latency [simp]:
  "rt_providers (close_latency env p t w rt) = rt_providers rt" "rt_cache (close_latency env p t w rt) = rt_cache rt"
  "rt_budget (close_latency env p t w rt) = rt_budget rt" "breaker_of (close_latency env p t w rt) = breaker_of rt"
  by (simp_all add: close_latency_def record_latency_def breaker_of_def fun_eq_iff)

lemma router_cache [simp]:
  "rt_providers (rt\<lparr>rt_cache := c\<rparr>) = rt_providers rt" "breaker_of (rt\<lparr>rt_cache := c\<rparr>) = breaker_of rt"
  "latency_of (rt\<lparr>rt_cache := c\<rparr>) = latency_of rt"
  by (simp_all add: breaker_of_def latency_of_def fun_eq_iff)

lemma cb_allow_again: "fst (cb_allow t (snd (cb_allow t b))) = fst (cb_allow t b)"
  by (auto simp: cb_allow_def split: circuit_state.splits)

lemma filter_open_eq:
  "fst (filter_open now ps rt) = filter (\<lambda>p. fst (cb_allow now (breaker_of rt p))) ps"
proof (induction ps arbitrary: rt)
  case (Cons p ps)
  obtain ok b where a: "cb_allow now (breaker_of rt p) = (ok, b)" by fastforce
  obtain rest rt' where r: "filter_open now ps (set_breaker p b rt) = (rest, rt')" by fastforce
  have "fst (cb_allow now b) = ok" using cb_allow_again [of now "breaker_of rt p"] a by simp
  then have "filter (\<lambda>q. fst (cb_allow now (breaker_of (set_breaker p b rt) q))) ps =
      filter (\<lambda>q. fst (cb_allow now (breaker_of rt q))) ps"
    using a by (intro filter_cong) auto
  with Cons.IH [of "set_breaker p b rt"] show ?case by (simp add: a r)
qed simp

lemma filter_open_providers: "rt_providers (snd (filter_open now ps rt)) = rt_providers rt"
  by (induction ps arbitrary: rt) (auto simp: split_beta)

lemma weighted_select_mem:
  assumes "ps \<noteq> []" and "\<And>n w. 0 < n \<Longrightarrow> fst (rv_choice env n w) < n"
  shows "fst (weighted_select env rt ps w) \<in> set ps"
proof -
  have choice: "ps ! fst (rv_choice env (length ps) w) \<in> set ps" using assms by simp
  have pick: "p \<in> set ps" if "cum_pick r 0 (map (\<lambda>p. (p, provider_score rt p)) ps) = Some p" for r p
    using cum_pick_mem [OF that] by auto
  show ?thesis
    using assms(1) choice pick unfolding weighted_select_def
    by (auto simp: Let_def split_beta split: option.splits)
qed

text \<open>With the OpenAI provider configured the prefix rules leave one candidate.\<close>

lemma find_candidates_single: "''openai'' \<in> set ps \<Longrightarrow> length (find_candidates model ps) = 1"
  by (simp add: find_candidates_def Let_def)

lemma find_candidates_sub: "set (find_candidates model ps) \<subseteq> set ps"
  by (simp add: find_candidates_def Let_def)

definition candidates :: "string \<Rightarrow> router \<Rightarrow> string list" where
  "candidates model rt =
     (let cs = find_candidates model (rt_providers rt) in if cs = [] then rt_providers rt else cs)"

lemma candidates_sub: "p \<in> set (candidates model rt) \<Longrightarrow> p \<in> set (rt_providers rt)"
  using find_candidates_sub [of model "rt_providers rt"] by (auto simp: candidates_def Let_def split: if_splits)

lemma select_rest_Some:
  assumes "select_rest env model rt w = (Some p, rt', w')"
    and "\<And>n w. 0 < n \<Longrightarrow> fst (rv_choice env n w) < n"
  shows "p \<in> set (candidates model rt) \<and> fst (cb_allow (rv_mono env w) (breaker_of rt p))"
proof -
  obtain avail rt1 where a: "filter_open (rv_mono env w) (candidates model rt) rt = (avail, rt1)" by fastforce
  then have avail: "avail = filter (\<lambda>p. fst (cb_allow (rv_mono env w) (breaker_of rt p))) (candidates model rt)"
    by (metis filter_open_eq fst_conv)
  from assms(1) a have "avail \<noteq> []" and "fst (weighted_select env rt1 avail w) = p"
    by (auto simp: select_rest_def candidates_def Let_def split_beta split: if_splits)
  then have "p \<in> set avail" using weighted_select_mem [OF _ assms(2)] by metis
  then show ?thesis by (simp add: avail)
qed

lemma select_rest_None:
  assumes "\<And>p. p \<in> set (candidates model rt) \<Longrightarrow> \<not> fst (cb_allow (rv_mono env w) (breaker_of rt p))"
  shows "fst (select_rest env model rt w) = None \<and> snd (snd (select_rest env model rt w)) = w"
proof -
  obtain avail rt1 where a: "filter_open (rv_mono env w) (candidates model rt) rt = (avail, rt1)" by fastforce
  then have "avail = filter (\<lambda>p. fst (cb_allow (rv_mono env w) (breaker_of rt p))) (candidates model rt)"
    by (metis filter_open_eq fst_conv)
  with assms have "avail = []" by (simp add: filter_empty_conv)
  with a show ?thesis by (simp add: select_rest_def candidates_def Let_def)
qed

lemma select_single:
  assumes "candidates model rt = [p]" and "fst (cb_allow (rv_mono env w) (breaker_of rt p))"
  shows "select_provider env model [] rt w =
    (Some p, set_breaker p (snd (cb_allow (rv_mono env w) (breaker_of rt p))) rt, w)"
proof -
  obtain b where a: "cb_allow (rv_mono env w) (breaker_of rt p) = (True, b)"
    using assms(2) by (metis prod.collapse)
  show ?thesis
    using assms(1) a by (simp add: select_provider_def select_rest_def candidates_def weighted_select_def Let_def)
qed

section \<open>What one call records\<close>

lemma record_breaker [simp]:
  "breaker_of (record_ok p rt) p' = (if p' = p then cb_record_success (breaker_of rt p) else breaker_of rt p')"
  "breaker_of (record_fail t p rt) p' = (if p' = p then cb_record_failure t (breaker_of rt p) else breaker_of rt p')"
  "rt_providers (record_ok p rt) = rt_providers rt" "rt_providers (record_fail t p rt) = rt_providers rt"
  "rt_cache (record_ok p rt) = rt_cache rt" "rt_cache (record_fail t p rt) = rt_cache rt"
  "rt_budget (record_ok p rt) = rt_budget rt" "rt_budget (record_fail t p rt) = rt_budget rt"
  by (simp_all add: record_ok_def record_fail_def)

abbreviation ask where
  "ask env q ms p w \<equiv> rv_chat env p ms (rq_model q) (rq_max_tokens q) (rq_temperature q) (rq_tools q) w"

lemma charge_cong:
  "rt_budget rt = rt_budget rt' \<Longrightarrow> charge env q n rt w = charge env q n rt' w"
  by (simp add: charge_def)

lemma chat_with_failure:
  assumes "ask env q ms p w = (Inl e, w1)"
  shows "chat_with env q ms p rt w =
    (error_response [] p (rq_model q), close_latency env p (rv_mono env w) w1 (record_fail (rv_mono env w1) p rt), w1)"
  using assms by (simp add: chat_with_def chat_try_def)

lemma chat_with_success:
  assumes "ask env q ms p w = (Inr r, w1)" and "rt_cache rt = None"
  shows "chat_with env q ms p rt w =
    (let w2 = charge env q (total_tokens r) rt w1
     in (relabel p (rq_model q) r, close_latency env p (rv_mono env w) w2 (record_ok p rt), w2))"
  using assms charge_cong [of "record_ok p rt" rt env q "total_tokens r" w1]
  by (auto simp: chat_with_def chat_try_def try_store_def Let_def relabel_def total_tokens_def)

text \<open>The time of the failure of a failing chat.\<close>

lemma chat_failing:
  assumes "normalize_messages (cv_float (rv_cache env)) (rq_messages q) = Inr ms" and "rq_hint q = []"
    and "rt_cache rt = None" and "\<not> rt_budget rt" and "candidates (rq_model q) rt = [p]"
    and "cb_state (breaker_of rt p) = CLOSED" and "ask env q ms p w = (Inl e, w1)"
  shows "\<exists>rt'. chat env q rt w = (Returned (error_response [] p (rq_model q)), rt', w1) \<and>
    breaker_of rt' p = cb_record_failure (rv_mono env w1) (breaker_of rt p) \<and>
    rt_providers rt' = rt_providers rt \<and> rt_cache rt' = None \<and> \<not> rt_budget rt'"
proof -
  have allow: "cb_allow (rv_mono env w) (breaker_of rt p) = (True, breaker_of rt p)"
    using assms(6) by (simp add: cb_allow_def)
  have sel: "select_provider env (rq_model q) [] rt w = (Some p, set_breaker p (breaker_of rt p) rt, w)"
    using select_single [OF assms(5), of env w] allow by simp
  have cache: "try_cache env q ms rt w = (CacheMiss, rt, w)" using assms(3) by (simp add: try_cache_def)
  have budget: "budget_allows env q (set_breaker p (breaker_of rt p) rt) w = Inr True"
    using assms(4) by (simp add: budget_allows_def)
  show ?thesis
    using assms(3,4) by (simp add: chat_def assms(1,2) cache sel budget chat_with_failure [OF assms(7)])
qed

text \<open>Chats one after the other, each in the world its predecessor left.\<close>

fun chat_run :: "'w router_env \<Rightarrow> chat_request list \<Rightarrow> router \<Rightarrow> 'w \<Rightarrow> router \<times> 'w" where
  "chat_run env [] rt w = (rt, w)"
| "chat_run env (q # qs) rt w = (case chat env q rt w of (r, rt', w') \<Rightarrow> chat_run env qs rt' w')"

text \<open>Requests that only the provider \<open>p\<close>, which always fails, can serve.\<close>

definition doomed :: "'w router_env \<Rightarrow> string \<Rightarrow> string list \<Rightarrow> chat_request \<Rightarrow> bool" where
  "doomed env p ps q \<longleftrightarrow> rq_hint q = [] \<and> find_candidates (rq_model q) ps = [p] \<and>
     (\<exists>ms. normalize_messages (cv_float (rv_cache env)) (rq_messages q) = Inr ms \<and>
       (\<forall>w. \<exists>e w1. ask env q ms p w = (Inl e, w1)))"

lemma doomed_candidates: "doomed env p (rt_providers rt) q \<Longrightarrow> candidates (rq_model q) rt = [p]"
  by (simp add: doomed_def candidates_def)

lemma chat_run_failing:
  "(\<And>q. q \<in> set qs \<Longrightarrow> doomed env p (rt_providers rt) q) \<Longrightarrow> rt_cache rt = None \<Longrightarrow> \<not> rt_budget rt \<Longrightarrow>
   int (length qs) + failure_count (breaker_of rt p) \<le> failure_threshold (breaker_of rt p) \<Longrightarrow>
   cb_state (breaker_of rt p) = CLOSED \<Longrightarrow>
   \<exists>ts. length ts = length qs \<and> (qs \<noteq> [] \<longrightarrow> last ts = rv_mono env (snd (chat_run env qs rt w))) \<and>
     breaker_of (fst (chat_run env qs rt w)) p = gw_breaker.fail_all ts (breaker_of rt p) \<and>
     rt_providers (fst (chat_run env qs rt w)) = rt_providers rt \<and> rt_cache (fst (chat_run env qs rt w)) = None"
proof (induction qs arbitrary: rt w)
  case Nil
  then show ?case by simp
next
  case (Cons q qs)
  have q: "doomed env p (rt_providers rt) q" using Cons.prems(1) by simp
  then obtain ms e w1 where "normalize_messages (cv_float (rv_cache env)) (rq_messages q) = Inr ms"
    "rq_hint q = []" "ask env q ms p w = (Inl e, w1)" unfolding doomed_def by blast
  from chat_failing [OF this(1,2) Cons.prems(2,3) doomed_candidates [OF q] Cons.prems(5) this(3)]
  obtain rt' where chat: "chat env q rt w = (Returned (error_response [] p (rq_model q)), rt', w1)"
    and b: "breaker_of rt' p = cb_record_failure (rv_mono env w1) (breaker_of rt p)"
    and rest: "rt_providers rt' = rt_providers rt" "rt_cache rt' = None" "\<not> rt_budget rt'" by blast
  have run: "chat_run env (q # qs) rt w = chat_run env qs rt' w1" by (simp add: chat)
  show ?case
  proof (cases "qs = []")
    case True
    have "chat_run env [q] rt w = (rt', w1)" by (simp add: chat)
    then show ?thesis
      using True rest by (intro exI [of _ "[rv_mono env w1]"]) (simp add: b del: chat_run.simps(2))
  next
    case False
    then have "1 \<le> int (length qs)" by (cases qs) simp_all
    moreover have "int (length (q # qs)) = 1 + int (length qs)" by simp
    ultimately have "failure_count (breaker_of rt p) + 1 < failure_threshold (breaker_of rt p)"
      using Cons.prems(4) by linarith
    then have b': "cb_state (breaker_of rt' p) = CLOSED"
      "int (length qs) + failure_count (breaker_of rt' p) \<le> failure_threshold (breaker_of rt' p)"
      using Cons.prems(4,5) by (auto simp: b cb_record_failure_def Let_def)
    have doomed: "doomed env p (rt_providers rt') q'" if "q' \<in> set qs" for q'
      using Cons.prems(1) that rest(1) by simp
    from Cons.IH [OF doomed rest(2,3) b'(2,1), of w1] obtain ts where
      ts: "length ts = length qs" "last ts = rv_mono env (snd (chat_run env qs rt' w1))"
        "breaker_of (fst (chat_run env qs rt' w1)) p = gw_breaker.fail_all ts (breaker_of rt' p)"
        "rt_providers (fst (chat_run env qs rt' w1)) = rt_providers rt'"
        "rt_cache (fst (chat_run env qs rt' w1)) = None"
      using False by blast
    then show ?thesis
      using False rest by (intro exI [of _ "rv_mono env w1 # ts"]) (auto simp: run b simp del: chat_run.simps(2))
  qed
qed

lemma chat_denied:
  assumes "normalize_messages (cv_float (rv_cache env)) (rq_messages q) = Inr ms" and "rq_hint q = []"
    and "rt_cache rt = None"
    and "\<And>p. p \<in> set (candidates (rq_model q) rt) \<Longrightarrow> \<not> fst (cb_allow (rv_mono env w) (breaker_of rt p))"
  shows "fst (chat env q rt w) = Returned (error_response [] ''none'' (rq_model q)) \<and>
    snd (snd (chat env q rt w)) = w"
proof -
  obtain rt' where "select_provider env (rq_model q) [] rt w = (None, rt', w)"
    using select_rest_None [OF assms(4)]
    by (metis (no_types, lifting) prod.collapse select_provider_def)
  then show ?thesis by (simp add: chat_def assms(1-3) try_cache_def)
qed

section \<open>Streams\<close>

lemma collect_snoc: "collect (cs @ [c]) = add_chunk (collect cs) c"
  by (simp add: collect_def)

lemma collect_tokens:
  "sa_in (collect cs) + sa_out (collect cs) = sum_list (map total_tokens cs)"
  "sa_content (collect cs) = concat (map (\<lambda>c. text_of (cr_content c)) cs)"
  by (induction cs rule: rev_induct)
    (simp_all add: collect_snoc add_chunk_def total_tokens_def, simp_all add: collect_def)

abbreviation ask_stream where
  "ask_stream env q ms p w \<equiv> rv_stream env p ms (rq_model q) (rq_max_tokens q) (rq_temperature q) (rq_tools q) w"

lemma stream_with_failure:
  assumes "ask_stream env q ms p w = (chunks, Some e, world)"
  shows "stream_with env q ms p None rt w =
    (let rt1 = record_fail (rv_mono env (world (length chunks))) p rt;
         w2 = charge env q (sum_list (map total_tokens chunks)) rt (world (length chunks))
     in (map (relabel p (rq_model q)) chunks @ [error_response (stream_message p e) p (rq_model q)],
         close_latency env p (rv_mono env w) w2 rt1, w2))"
  using charge_cong [of "record_fail (rv_mono env (world (length chunks))) p rt" rt env q]
  by (simp add: assms stream_with_def stream_finish_def Let_def collect_tokens)

lemma stream_with_success:
  assumes "ask_stream env q ms p w = (chunks, None, world)" and "rt_cache rt = None"
  shows "stream_with env q ms p None rt w =
    (let w2 = charge env q (sum_list (map total_tokens chunks)) rt (world (length chunks))
     in (map (relabel p (rq_model q)) chunks, close_latency env p (rv_mono env w) w2 (record_ok p rt), w2))"
  using charge_cong [of "record_ok p rt" rt env q] assms(2)
  by (auto simp: assms(1) stream_with_def stream_finish_def stream_end_def try_store_def Let_def collect_tokens)

lemma stream_with_closed:
  assumes "ask_stream env q ms p w = (chunks, err, world)" and "n \<le> length chunks"
  shows "stream_with env q ms p (Some n) rt w =
    (map (relabel p (rq_model q)) (take n chunks), close_latency env p (rv_mono env w) (world n) rt, world n)"
  using assms by (simp add: stream_with_def)

section \<open>Properties\<close>

text \<open>A provider that is selected is registered and its breaker admits the request; a registered
  hint that is admitted wins, and otherwise the provider is a candidate for the model. The random
  index is one of the indices asked for.
\<close>

theorem selection_sound:
  assumes "select_provider env model hint rt w = (Some p, rt', w')"
    and "\<And>n w. 0 < n \<Longrightarrow> fst (rv_choice env n w) < n"
  shows "p \<in> set (rt_providers rt) \<and> fst (cb_allow (rv_mono env w) (breaker_of rt p)) \<and>
    (if hint \<noteq> [] \<and> hint \<in> set (rt_providers rt) \<and> fst (cb_allow (rv_mono env w) (breaker_of rt hint))
     then p = hint else p \<in> set (candidates model rt))"
proof (cases "hint \<noteq> [] \<and> hint \<in> set (rt_providers rt)")
  case False
  then have "select_rest env model rt w = (Some p, rt', w')" using assms(1) by (auto simp: select_provider_def)
  from select_rest_Some [OF this assms(2)] False show ?thesis by (auto dest: candidates_sub)
next
  case True
  obtain ok b where a: "cb_allow (rv_mono env w) (breaker_of rt hint) = (ok, b)" by fastforce
  show ?thesis
  proof (cases ok)
    case ok: True
    then show ?thesis using assms(1) True a by (auto simp: select_provider_def)
  next
    case denied: False
    let ?rt = "set_breaker hint b rt"
    have "b = breaker_of rt hint" using cb_denied_unchanged [of "rv_mono env w" "breaker_of rt hint"] a denied by simp
    then have same: "breaker_of ?rt p = breaker_of rt p" by simp
    have "select_rest env model ?rt w = (Some p, rt', w')"
      using assms(1) True a denied by (simp add: select_provider_def)
    moreover have "candidates model ?rt = candidates model rt" by (simp add: candidates_def Let_def)
    ultimately show ?thesis
      using select_rest_Some [OF _ assms(2), of model ?rt w p rt' w'] same True a denied
        candidates_sub [of p model rt] by simp
  qed
qed

text \<open>
  An example world is the clock; the \<open>flaky\<close> environment has a provider that always fails, the
  \<open>steady\<close> one a provider that answers.
\<close>

definition example_cache_env :: "pyfloat cache_env" where
  "example_cache_env = \<lparr>cv_get = (\<lambda>k w. Inr []), cv_hget = (\<lambda>b k w. Inr []), cv_set = (\<lambda>k v t w. (Some ''READONLY'', w)),
     cv_hset = (\<lambda>b k v w. (None, w)), cv_expire = (\<lambda>b t w. (None, w)), cv_embed = (\<lambda>t w. (Inl ''down'', w)),
     cv_digest = (\<lambda>s. s), cv_digest_bytes = (\<lambda>q m. m), cv_dumps_sorted = (\<lambda>v. ''k''), cv_dumps = (\<lambda>v. ''v''),
     cv_loads = (\<lambda>s. Inr PNone), cv_float = (\<lambda>f. ''f'')\<rparr>"

definition no_hash :: "pyfloat hash_ops" where
  "no_hash = \<lparr>hs_getall = (\<lambda>k w. []), hs_incr = (\<lambda>k f n w. (n, w)), hs_set = (\<lambda>k f v w. w), hs_alert = (\<lambda>t u l w. w)\<rparr>"

definition answer :: chat_response where
  "answer = response (PStr ''hi'') (PStr ''stop'') [] 3 1 [] []"

definition example_env :: "bool \<Rightarrow> pyfloat router_env" where
  "example_env ok = \<lparr>rv_cache = example_cache_env, rv_budget = no_hash, rv_month = (\<lambda>w. ''2026-08''),
     rv_mono = (\<lambda>w. w), rv_time = (\<lambda>w. w), rv_uniform = (\<lambda>w. (1 / 2, w)), rv_choice = (\<lambda>n w. (0, w)),
     rv_chat = (\<lambda>p ms m mt t tools w. (if ok then Inr answer else Inl ''down'', w + 1)),
     rv_stream = (\<lambda>p ms m mt t tools w. ([answer, answer], if ok then None else Some ''reset'', \<lambda>n. w + of_nat n)),
     rv_embed = (\<lambda>p t m w. (Inl ''down'', w))\<rparr>"

abbreviation "flaky \<equiv> example_env False"
abbreviation "steady \<equiv> example_env True"

definition example_request :: chat_request where
  "example_request = \<lparr>rq_messages = [MsgVal (PDict [(''role'', PStr ''user''), (''content'', PStr ''hello'')])],
     rq_model = ''gpt-4o'', rq_tenant = ''acme'', rq_hint = [], rq_max_tokens = 100, rq_temperature = 0, rq_tools = PNone\<rparr>"

lemmas example_defs = example_env_def example_request_def example_cache_env_def no_hash_def

theorem selection_sound_witness:
  "fst (select_provider steady ''gpt-4o'' ''anthropic'' (new_router [''anthropic'', ''openai''] None False) 7) = Some ''anthropic'' \<and>
   ''anthropic'' \<in> set (rt_providers (new_router [''anthropic'', ''openai''] None False)) \<and>
   fst (cb_allow (rv_mono steady 7) (breaker_of (new_router [''anthropic'', ''openai''] None False) ''anthropic''))"
proof -
  let ?rt = "new_router [''anthropic'', ''openai''] None False"
  let ?s = "select_provider steady ''gpt-4o'' ''anthropic'' ?rt 7"
  have one: "fst ?s = Some ''anthropic''" by code_simp
  then have "?s = (Some ''anthropic'', fst (snd ?s), snd (snd ?s))" by (simp add: prod_eq_iff)
  from selection_sound [OF this] one show ?thesis by (simp add: example_env_def)
qed

text \<open>With the OpenAI provider configured every model has exactly one candidate, so the weighted
  choice never decides; and when no candidate of a request without hint is admitted, the request
  fails at once with the provider \<open>none\<close>, in an unchanged world, whatever the breakers of the
  other providers say (no fallback provider is tried). The router has no cache here.
\<close>

theorem no_failover:
  assumes "normalize_messages (cv_float (rv_cache env)) (rq_messages q) = Inr ms" and "rq_hint q = []"
    and "rt_cache rt = None" and "''openai'' \<in> set (rt_providers rt)"
    and "\<not> fst (cb_allow (rv_mono env w) (breaker_of rt (hd (candidates (rq_model q) rt))))"
  shows "length (candidates (rq_model q) rt) = 1 \<and>
    fst (chat env q rt w) = Returned (error_response [] ''none'' (rq_model q)) \<and> snd (snd (chat env q rt w)) = w"
proof -
  have "length (find_candidates (rq_model q) (rt_providers rt)) = 1" by (rule find_candidates_single [OF assms(4)])
  then have one: "length (candidates (rq_model q) rt) = 1" by (auto simp: candidates_def Let_def)
  then obtain p where p: "candidates (rq_model q) rt = [p]" by (auto simp: length_Suc_conv)
  with assms(5) have "\<not> fst (cb_allow (rv_mono env w) (breaker_of rt p'))"
    if "p' \<in> set (candidates (rq_model q) rt)" for p' using that by simp
  from chat_denied [OF assms(1-3) this] one show ?thesis by simp
qed

text \<open>C23: a provider that keeps failing is cut off: a fresh router whose provider \<open>p\<close> fails every
  request sends it five requests that only it can serve; the sixth one, made within thirty seconds
  of the fifth failure, fails without reaching any provider. There is no cache and no budget.
\<close>

theorem failing_provider_is_cut_off:
  assumes "\<And>q. q \<in> set (q6 # qs) \<Longrightarrow> doomed env p ps q" and "length qs = 5"
    and "chat_run env qs (new_router ps None False) w = (rt, w')"
    and "rv_mono env w'' - rv_mono env w' \<le> 30"
  shows "fst (chat env q6 rt w'') = Returned (error_response [] ''none'' (rq_model q6)) \<and>
    snd (snd (chat env q6 rt w'')) = w''"
proof -
  let ?rt = "new_router ps None False"
  have new: "rt_providers ?rt = ps" "rt_cache ?rt = None" "\<not> rt_budget ?rt" by (simp_all add: new_router_def)
  have "dget_or (map (\<lambda>p. (p, b)) xs) p b = b" for b :: circuit_breaker and xs :: "string list"
    by (induction xs) (simp_all add: dget_or_def)
  then have fresh: "breaker_of ?rt p = default_breaker" by (simp add: breaker_of_def new_router_def)
  have "\<exists>ts. length ts = length qs \<and> (qs \<noteq> [] \<longrightarrow> last ts = rv_mono env (snd (chat_run env qs ?rt w))) \<and>
     breaker_of (fst (chat_run env qs ?rt w)) p = gw_breaker.fail_all ts (breaker_of ?rt p) \<and>
     rt_providers (fst (chat_run env qs ?rt w)) = rt_providers ?rt \<and> rt_cache (fst (chat_run env qs ?rt w)) = None"
    using assms(1,2) new by (intro chat_run_failing) (simp_all add: fresh new_breaker_def)
  then obtain ts where ts: "length ts = 5" "last ts = rv_mono env w'" "breaker_of rt p = gw_breaker.fail_all ts default_breaker"
    and rt: "rt_providers rt = ps" "rt_cache rt = None"
    using assms(2,3) by (auto simp: fresh new)
  have "\<not> fst (cb_allow (rv_mono env w'') (breaker_of rt p))"
    using gw_breaker.burst_window [of ts default_breaker "rv_mono env w''"] ts assms(4)
    by (cases ts) (auto simp: new_breaker_def)
  moreover have q6: "doomed env p (rt_providers rt) q6" using assms(1) rt(1) by simp
  then obtain ms where "normalize_messages (cv_float (rv_cache env)) (rq_messages q6) = Inr ms" "rq_hint q6 = []"
    unfolding doomed_def by blast
  ultimately show ?thesis
    using rt(2) doomed_candidates [OF q6] by (intro chat_denied) auto
qed

theorem no_failover_witness:
  "let rt = set_breaker ''openai'' (cb_fail_all [1, 2, 3, 4, 5] default_breaker)
     (new_router [''anthropic'', ''openai''] None False)
   in fst (cb_allow (rv_mono steady 9) (breaker_of rt ''anthropic'')) \<and>
      fst (chat steady example_request rt 9) = Returned (error_response [] ''none'' ''gpt-4o'')"
proof -
  let ?rt = "set_breaker ''openai'' (cb_fail_all [1, 2, 3, 4, 5] default_breaker)
     (new_router [''anthropic'', ''openai''] None False)"
  have "\<exists>ms. normalize_messages (cv_float (rv_cache steady)) (rq_messages example_request) = Inr ms"
    by (simp add: example_defs normalize_messages_def)
  then obtain ms where ms: "normalize_messages (cv_float (rv_cache steady)) (rq_messages example_request) = Inr ms" ..
  have hint: "rq_hint example_request = []" "rt_cache ?rt = None" "''openai'' \<in> set (rt_providers ?rt)"
    and model: "rq_model example_request = ''gpt-4o''" by (simp_all add: example_request_def new_router_def)
  have "\<not> fst (cb_allow (rv_mono steady 9) (breaker_of ?rt (hd (candidates (rq_model example_request) ?rt))))"
    and "fst (cb_allow (rv_mono steady 9) (breaker_of ?rt ''anthropic''))" by code_simp+
  with no_failover [OF ms hint] model show ?thesis by (simp add: Let_def)
qed

theorem failing_provider_is_cut_off_witness:
  "let run = chat_run flaky (replicate 5 example_request) (new_router [''anthropic'', ''openai''] None False) 0
   in snd run = 5 \<and> fst (chat flaky example_request (fst run) 35) = Returned (error_response [] ''none'' ''gpt-4o'')"
proof -
  let ?run = "chat_run flaky (replicate 5 example_request) (new_router [''anthropic'', ''openai''] None False) 0"
  have doomed: "doomed flaky ''openai'' [''anthropic'', ''openai''] example_request"
  proof -
    have "find_candidates ''gpt-4o'' [''anthropic'', ''openai''] = [''openai'']" by code_simp
    then show ?thesis by (simp add: doomed_def example_defs normalize_messages_def)
  qed
  have w: "snd ?run = 5" by code_simp
  have run: "?run = (fst ?run, snd ?run)" by simp
  have "fst (chat flaky example_request (fst ?run) 35) = Returned (error_response [] ''none'' (rq_model example_request)) \<and>
      snd (snd (chat flaky example_request (fst ?run) 35)) = 35"
    by (rule failing_provider_is_cut_off [where p = "''openai''" and ps = "[''anthropic'', ''openai'']"
        and qs = "replicate 5 example_request", OF _ _ run])
      (use doomed in \<open>simp_all add: w, simp add: example_env_def\<close>)
  moreover have "rq_model example_request = ''gpt-4o''" by (simp add: example_request_def)
  ultimately show ?thesis using w by (simp add: Let_def del: chat_run.simps)
qed

text \<open>A stream that is read to its end yields every chunk of the provider in order, marked with the
  provider and the model; it is charged the sum of the chunks' tokens whether it ends normally or by
  an exception. An exception adds one error item and one failure of the breaker, a normal end
  records a success; a stream closed by its reader after \<open>n\<close> chunks yields those and records and
  charges nothing. The router has no cache here.
\<close>

theorem stream_accounting:
  assumes "rv_stream env p ms (rq_model q) (rq_max_tokens q) (rq_temperature q) (rq_tools q) w = (chunks, err, world)"
    and "rt_cache rt = None"
  shows "(err = None \<longrightarrow> (\<exists>rt'. stream_with env q ms p None rt w =
        (map (relabel p (rq_model q)) chunks, rt', charge env q (sum_list (map total_tokens chunks)) rt (world (length chunks))) \<and>
        breaker_of rt' p = cb_record_success (breaker_of rt p))) \<and>
    (\<forall>e. err = Some e \<longrightarrow> (\<exists>rt'. stream_with env q ms p None rt w =
        (map (relabel p (rq_model q)) chunks @ [error_response (stream_message p e) p (rq_model q)], rt',
         charge env q (sum_list (map total_tokens chunks)) rt (world (length chunks))) \<and>
        breaker_of rt' p = cb_record_failure (rv_mono env (world (length chunks))) (breaker_of rt p))) \<and>
    (\<forall>n \<le> length chunks. \<exists>rt'. stream_with env q ms p (Some n) rt w =
        (map (relabel p (rq_model q)) (take n chunks), rt', world n) \<and> breaker_of rt' = breaker_of rt)"
  using stream_with_success [of env p ms q w chunks world rt] stream_with_failure [of env p ms q w chunks _ world rt]
    stream_with_closed [OF assms(1)] assms
  by (auto simp: Let_def)

theorem stream_accounting_witness:
  "\<exists>rt'. stream_with flaky example_request [] ''openai'' None (new_router [''openai''] None False) 0 =
     ([relabel ''openai'' ''gpt-4o'' answer, relabel ''openai'' ''gpt-4o'' answer,
       error_response (stream_message ''openai'' ''reset'') ''openai'' ''gpt-4o''], rt', 2) \<and>
     failure_count (breaker_of rt' ''openai'') = 1"
  using stream_accounting [of flaky "''openai''" "[]" example_request 0 "[answer, answer]" "Some ''reset''"
      "\<lambda>n. of_nat n" "new_router [''openai''] None False"]
  by (auto simp: example_defs new_router_def charge_def breaker_of_def dget_or_def cb_record_failure_def new_breaker_def)

text \<open>An exception of the response cache after the provider has answered turns the answer into an
  error: the caller gets the error response, the breaker records a failure after the success, and
  the tokens of the answer are not charged.
\<close>

theorem cache_failure_discards_answer:
  assumes "rv_chat env p ms (rq_model q) (rq_max_tokens q) (rq_temperature q) (rq_tools q) w = (Inr r, w1)"
    and "\<not> truthy (rq_tools q)" and "cr_finish r \<noteq> PStr ''error''" and "rt_cache rt = Some c"
    and "cache_store (rv_cache env) (rq_model q) ms (rq_tools q) (rq_temperature q) (relabel p (rq_model q) r)
      (rv_time env w1) c w1 = (Some e, c', w2)"
  shows "\<exists>rt'. chat_with env q ms p rt w = (error_response [] p (rq_model q), rt', w2) \<and>
    breaker_of rt' p = cb_record_failure (rv_mono env w2) (cb_record_success (breaker_of rt p))"
  using assms by (simp add: chat_with_def chat_try_def try_store_def relabel_def Let_def)

theorem cache_failure_discards_answer_witness:
  "\<exists>rt'. chat_with steady example_request [] ''openai'' (new_router [''openai''] (Some (new_cache 4 60 8)) True) 0 =
     (error_response [] ''openai'' ''gpt-4o'', rt', 1) \<and> failure_count (breaker_of rt' ''openai'') = 1"
proof -
  let ?s = "cache_store (rv_cache steady) (rq_model example_request) [] (rq_tools example_request) (rq_temperature example_request)
      (relabel ''openai'' (rq_model example_request) answer) (rv_time steady 1) (new_cache 4 60 8) 1"
  have s: "?s = (Some ''READONLY'', fst (snd ?s), 1)" by (simp add: example_defs cache_store_def Let_def)
  let ?rt = "new_router [''openai''] (Some (new_cache 4 60 8)) True"
  have "rv_chat steady ''openai'' [] (rq_model example_request) (rq_max_tokens example_request)
      (rq_temperature example_request) (rq_tools example_request) 0 = (Inr answer, 1)"
    and "\<not> truthy (rq_tools example_request)" and "cr_finish answer \<noteq> PStr ''error''"
    by (simp_all add: example_env_def example_request_def answer_def response_def)
  moreover have "rt_cache ?rt = Some (new_cache 4 60 8)" by (simp add: new_router_def)
  ultimately obtain rt' where "chat_with steady example_request [] ''openai'' ?rt 0 =
      (error_response [] ''openai'' (rq_model example_request), rt', 1)"
    and "breaker_of rt' ''openai'' = cb_record_failure (rv_mono steady 1) (cb_record_success (breaker_of ?rt ''openai''))"
    using cache_failure_discards_answer [OF _ _ _ _ s] by blast
  moreover have "failure_count (cb_record_failure t (cb_record_success (breaker_of ?rt ''openai''))) = 1" for t
    by (simp add: new_router_def breaker_of_def dget_or_def cb_record_failure_def cb_record_success_def new_breaker_def Let_def)
  moreover have "rq_model example_request = ''gpt-4o''" by (simp add: example_request_def)
  ultimately show ?thesis by auto
qed

end
