(* ===== verification/Kahn.thy ===== *)
theory Kahn
  imports Prelude "HOL-Library.Multiset"
begin

text \<open>
  The topological sort of \<^verbatim>\<open>app/workflow/engine.py\<close> (\<^verbatim>\<open>_topological_sort\<close>), over the identifiers and
  edges of a graph: in-degrees, a queue of nodes without unmet dependencies, and the nodes the
  queue never reaches appended in their original order. A node is anything with an identifier
  \<open>nid\<close>; an edge is a pair of source and target.
\<close>

section \<open>The algorithm\<close>

definition adj_of :: "('k \<times> 'k) list \<Rightarrow> 'k \<Rightarrow> 'k list" where
  "adj_of es s = map snd (filter (\<lambda>e. fst e = s) es)"

definition in_degree_of :: "('k \<times> 'k) list \<Rightarrow> 'k \<Rightarrow> int" where
  "in_degree_of es t = int (length (filter (\<lambda>e. snd e = t) es))"

text \<open>\<open>node_map\<close>: the last node with an identifier wins.\<close>

definition node_map_of :: "('n \<Rightarrow> 'k) \<Rightarrow> 'n list \<Rightarrow> 'k \<Rightarrow> 'n option" where
  "node_map_of nid ns k = map_of (rev (map (\<lambda>n. (nid n, n)) ns)) k"

lemma node_map_of_Some: "node_map_of nid ns k = Some n \<Longrightarrow> n \<in> set ns \<and> nid n = k"
  by (auto simp: node_map_of_def dest!: map_of_SomeD)

lemma node_map_of_node:
  assumes "distinct (map nid ns)" and "n \<in> set ns"
  shows "node_map_of nid ns (nid n) = Some n"
proof -
  have "map fst (map (\<lambda>n. (nid n, n)) ns) = map nid ns" by simp
  then have "distinct (map fst (rev (map (\<lambda>n. (nid n, n)) ns)))"
    using assms(1) by (metis distinct_rev rev_map)
  then show ?thesis unfolding node_map_of_def by (rule map_of_is_SomeI) (use assms(2) in auto)
qed

text \<open>The inner loop over the neighbours of a node taken from the queue.\<close>

fun relax :: "('k \<Rightarrow> 'n option) \<Rightarrow> 'k list \<Rightarrow> ('k \<Rightarrow> int) \<Rightarrow> 'n list \<Rightarrow> ('k \<Rightarrow> int) \<times> 'n list" where
  "relax nm [] deg q = (deg, q)"
| "relax nm (t # ts) deg q =
     (let deg' = deg(t := deg t - 1)
      in relax nm ts deg'
           (if deg' t = 0 then (case nm t of None \<Rightarrow> q | Some n \<Rightarrow> q @ [n]) else q))"

text \<open>The identifiers of \<open>ids\<close> with a positive in-degree: each of them can enter the queue once.\<close>

fun positives :: "'k list \<Rightarrow> ('k \<Rightarrow> int) \<Rightarrow> nat" where
  "positives [] deg = 0"
| "positives (k # ks) deg = (if 0 < deg k then 1 else 0) + positives ks deg"

lemma positives_other: "t \<notin> set ids \<Longrightarrow> positives ids (deg(t := d)) = positives ids deg"
  by (induction ids) auto

lemma positives_dec:
  "distinct ids \<Longrightarrow>
   positives ids (deg(t := deg t - 1)) + (if deg t = 1 \<and> t \<in> set ids then 1 else 0) \<le>
     positives ids deg"
proof (induction ids)
  case (Cons k ids)
  then show ?case by (cases "k = t") (auto simp: positives_other)
qed simp

lemma relax_measure:
  assumes "distinct ids" and "\<And>k n. nm k = Some n \<Longrightarrow> k \<in> set ids"
  shows "length (snd (relax nm ts deg q)) + positives ids (fst (relax nm ts deg q)) \<le>
    length q + positives ids deg"
proof (induction ts arbitrary: deg q)
  case Nil
  then show ?case by simp
next
  case (Cons t ts)
  let ?deg = "deg(t := deg t - 1)"
  let ?q = "if ?deg t = 0 then (case nm t of None \<Rightarrow> q | Some n \<Rightarrow> q @ [n]) else q"
  have "length ?q + positives ids ?deg \<le> length q + positives ids deg"
    using positives_dec [OF assms(1), of deg t] assms(2)
    by (auto split: option.splits if_splits)
  with Cons.IH [of ?deg ?q] show ?case unfolding relax.simps Let_def by (rule order_trans)
qed

function topo_loop ::
  "('n \<Rightarrow> 'k) \<Rightarrow> 'n list \<Rightarrow> ('k \<Rightarrow> 'k list) \<Rightarrow> ('k \<Rightarrow> int) \<Rightarrow> 'n list \<Rightarrow> 'n list \<Rightarrow> 'n list" where
  "topo_loop nid ns adj deg [] result = result"
| "topo_loop nid ns adj deg (n # q) result =
     (case relax (node_map_of nid ns) (adj (nid n)) deg q of
        (deg', q') \<Rightarrow> topo_loop nid ns adj deg' q' (result @ [n]))"
  by pat_completeness auto
termination
proof (relation "measure (\<lambda>(nid, ns, adj, deg, q, result).
    length q + positives (remdups (map nid ns)) deg)", goal_cases)
  case 1
  then show ?case by simp
next
  case (2 nid ns adj deg n q result deg' q')
  have "length q' + positives (remdups (map nid ns)) deg' \<le>
      length q + positives (remdups (map nid ns)) deg"
  proof -
    have "k \<in> set (remdups (map nid ns))" if "node_map_of nid ns k = Some x" for k x
      using node_map_of_Some [OF that] by auto
    then show ?thesis
      using relax_measure [of "remdups (map nid ns)" "node_map_of nid ns" "adj (nid n)" deg q]
        2 by (metis distinct_remdups fst_conv snd_conv)
  qed
  then show ?case by simp
qed

definition topological_sort :: "('n \<Rightarrow> 'k) \<Rightarrow> 'n list \<Rightarrow> ('k \<times> 'k) list \<Rightarrow> 'n list" where
  "topological_sort nid ns es =
     (let deg = in_degree_of es;
          result = topo_loop nid ns (adj_of es) deg (filter (\<lambda>n. deg (nid n) = 0) ns) []
      in result @ filter (\<lambda>n. nid n \<notin> nid ` set result) ns)"

declare topo_loop.simps [simp del]

section \<open>The invariant of the loop\<close>

text \<open>Every edge into a node of the list starts at an earlier node of it.\<close>

definition preds_before :: "('n \<Rightarrow> 'k) \<Rightarrow> ('k \<times> 'k) list \<Rightarrow> 'n list \<Rightarrow> bool" where
  "preds_before nid es l \<longleftrightarrow>
     (\<forall>xs n ys. l = xs @ n # ys \<longrightarrow> (\<forall>e \<in> set es. snd e = nid n \<longrightarrow> fst e \<in> nid ` set xs))"

lemma preds_before_Nil [simp]: "preds_before nid es []"
  by (simp add: preds_before_def)

lemma preds_before_snoc:
  assumes "preds_before nid es l" and "\<And>e. e \<in> set es \<Longrightarrow> snd e = nid n \<Longrightarrow> fst e \<in> nid ` set l"
  shows "preds_before nid es (l @ [n])"
  unfolding preds_before_def
proof (intro allI impI ballI)
  fix xs m ys e
  assume split: "l @ [n] = xs @ m # ys" and e: "e \<in> set es" "snd e = nid m"
  show "fst e \<in> nid ` set xs"
  proof (cases ys rule: rev_cases)
    case Nil
    with split assms(2) e show ?thesis by auto
  next
    case (snoc zs z)
    with split have "l = xs @ m # zs" by simp
    with assms(1) e show ?thesis by (auto simp: preds_before_def)
  qed
qed

definition open_edges :: "('k \<times> 'k) list \<Rightarrow> 'k set \<Rightarrow> 'k \<Rightarrow> nat" where
  "open_edges es P t = length (filter (\<lambda>e. snd e = t \<and> fst e \<notin> P) es)"

lemma open_edges_insert:
  "s \<notin> P \<Longrightarrow> open_edges es (insert s P) t + count_list (adj_of es s) t = open_edges es P t"
  by (induction es) (auto simp: open_edges_def adj_of_def)

lemma open_edges_0: "open_edges es P t = 0 \<longleftrightarrow> (\<forall>e \<in> set es. snd e = t \<longrightarrow> fst e \<in> P)"
  by (auto simp: open_edges_def filter_empty_conv)

lemma in_degree_open: "in_degree_of es t = int (open_edges es {} t)"
  by (simp add: in_degree_of_def open_edges_def)

text \<open>The nodes that the inner loop queues are those whose last open edges it removes.\<close>

lemma relax_spec:
  assumes "\<And>t. int (count_list ts t) \<le> deg t" and "\<And>k n. nm k = Some n \<Longrightarrow> nid n = k"
  shows "\<exists>hs. relax nm ts deg q = ((\<lambda>t. deg t - int (count_list ts t)), q @ hs) \<and>
    distinct (map nid hs) \<and>
    set hs = {n. \<exists>t \<in> set ts. nm t = Some n \<and> deg t = int (count_list ts t)}"
  using assms(1)
proof (induction ts arbitrary: deg q)
  case Nil
  then show ?case by (intro exI [of _ "[]"]) auto
next
  case (Cons t ts)
  let ?deg = "deg(t := deg t - 1)"
  let ?h = "if ?deg t = 0 then (case nm t of None \<Rightarrow> [] | Some n \<Rightarrow> [n]) else []"
  have pre: "int (count_list ts t') \<le> ?deg t'" for t'
    using Cons.prems [of t'] by (auto split: if_splits)
  from Cons.IH [OF pre, of "q @ ?h"] obtain hs where
    hs: "relax nm ts ?deg (q @ ?h) = ((\<lambda>t'. ?deg t' - int (count_list ts t')), (q @ ?h) @ hs)"
      "distinct (map nid hs)"
      "set hs = {n. \<exists>t' \<in> set ts. nm t' = Some n \<and> ?deg t' = int (count_list ts t')}" by blast
  have fresh: "t \<notin> set ts" if "?deg t = 0"
    using pre [of t] that by (auto simp: count_list_0_iff)
  have "relax nm (t # ts) deg q =
      ((\<lambda>t'. deg t' - int (count_list (t # ts) t')), q @ (?h @ hs))"
    using hs(1) by (auto simp: Let_def fun_eq_iff split: option.splits)
  moreover have "distinct (map nid (?h @ hs))"
  proof -
    have sub: "nid ` set hs \<subseteq> set ts" using hs(3) assms(2) by auto
    have "distinct (map nid (h @ hs))" if "h = [] \<or> ?deg t = 0 \<and> (\<exists>n. h = [n] \<and> nid n = t)" for h
      using that sub hs(2) fresh by fastforce
    moreover have "?h = [] \<or> ?deg t = 0 \<and> (\<exists>n. ?h = [n] \<and> nid n = t)"
      using assms(2) by (cases "nm t") auto
    ultimately show ?thesis by blast
  qed
  moreover have "set (?h @ hs) =
      {n. \<exists>t' \<in> set (t # ts). nm t' = Some n \<and> deg t' = int (count_list (t # ts) t')}"
  proof -
    have h: "set ?h = {n. t \<notin> set ts \<and> nm t = Some n \<and> deg t = 1}"
      using fresh by (cases "nm t"; cases "deg t = 1") auto
    have rest: "set hs = {n. (\<exists>t' \<in> set ts. t' \<noteq> t \<and> nm t' = Some n \<and>
        deg t' = int (count_list ts t')) \<or>
        (t \<in> set ts \<and> nm t = Some n \<and> deg t = int (count_list ts t) + 1)}"
    proof -
      have "?deg t' = int (count_list ts t') \<longleftrightarrow> (t' \<noteq> t \<and> deg t' = int (count_list ts t')) \<or>
          (t' = t \<and> deg t = int (count_list ts t) + 1)" for t' by auto
      then show ?thesis unfolding hs(3) by (intro Collect_cong) blast
    qed
    have count: "deg t' = int (count_list (t # ts) t') \<longleftrightarrow> (t' \<noteq> t \<and> deg t' = int (count_list ts t')) \<or>
        (t' = t \<and> deg t = int (count_list ts t) + 1)" for t' by auto
    have zero: "count_list ts t = 0 \<longleftrightarrow> t \<notin> set ts" by (rule count_list_0_iff)
    show ?thesis unfolding set_append h rest count
    proof (intro set_eqI)
      fix n
      show "n \<in> {n. t \<notin> set ts \<and> nm t = Some n \<and> deg t = 1} \<union>
          {n. (\<exists>t' \<in> set ts. t' \<noteq> t \<and> nm t' = Some n \<and> deg t' = int (count_list ts t')) \<or>
            t \<in> set ts \<and> nm t = Some n \<and> deg t = int (count_list ts t) + 1} \<longleftrightarrow>
        n \<in> {n. \<exists>t' \<in> set (t # ts). nm t' = Some n \<and> (t' \<noteq> t \<and> deg t' = int (count_list ts t') \<or>
            t' = t \<and> deg t = int (count_list ts t) + 1)}"
        using zero by (cases "t \<in> set ts") auto
    qed
  qed
  ultimately show ?case by blast
qed

definition kahn_inv :: "('n \<Rightarrow> 'k) \<Rightarrow> 'n list \<Rightarrow> ('k \<times> 'k) list \<Rightarrow> ('k \<Rightarrow> int) \<Rightarrow> 'n list \<Rightarrow> 'n list \<Rightarrow> bool" where
  "kahn_inv nid ns es deg q res \<longleftrightarrow>
     distinct (map nid (res @ q)) \<and> set (res @ q) \<subseteq> set ns \<and>
     (\<forall>t. deg t = int (open_edges es (nid ` set res) t)) \<and>
     (\<forall>n \<in> set ns. deg (nid n) = 0 \<longleftrightarrow> n \<in> set (res @ q)) \<and> preds_before nid es res"

lemma kahn_inv_init:
  assumes "distinct (map nid ns)"
  shows "kahn_inv nid ns es (in_degree_of es) (filter (\<lambda>n. in_degree_of es (nid n) = 0) ns) []"
  using assms by (auto simp: kahn_inv_def in_degree_open distinct_map intro: inj_on_subset)

lemma kahn_inv_step:
  assumes dist: "distinct (map nid ns)" and inv: "kahn_inv nid ns es deg (n # q) res"
    and relax: "relax (node_map_of nid ns) (adj_of es (nid n)) deg q = (deg', q')"
  shows "kahn_inv nid ns es deg' q' (res @ [n])"
proof -
  let ?nm = "node_map_of nid ns" and ?ts = "adj_of es (nid n)"
  from inv have d: "distinct (map nid (res @ n # q))" and sub: "set (res @ n # q) \<subseteq> set ns"
    and deg: "\<And>t. deg t = int (open_edges es (nid ` set res) t)"
    and zero: "\<And>m. m \<in> set ns \<Longrightarrow> deg (nid m) = 0 \<longleftrightarrow> m \<in> set (res @ n # q)"
    and before: "preds_before nid es res" unfolding kahn_inv_def by blast+
  have new: "nid n \<notin> nid ` set res" using d by auto
  note edges = open_edges_insert [OF new, of es]
  have le: "int (count_list ?ts t) \<le> deg t" for t using edges [of t] deg [of t] by simp
  obtain hs where hs: "deg' = (\<lambda>t. deg t - int (count_list ?ts t))" "q' = q @ hs"
      "distinct (map nid hs)"
      "set hs = {m. \<exists>t \<in> set ?ts. ?nm t = Some m \<and> deg t = int (count_list ?ts t)}"
    using relax_spec [of ?ts deg ?nm nid q] le node_map_of_Some [of nid ns] relax by force
  have deg': "deg' t = int (open_edges es (nid ` set (res @ [n])) t)" for t
    using edges [of t] deg [of t] by (simp add: hs(1))
  have pos: "deg (nid m) \<noteq> 0 \<and> m \<in> set ns" if m: "m \<in> set hs" for m
  proof -
    from m hs(4) obtain t where t: "t \<in> set ?ts" "?nm t = Some m" "deg t = int (count_list ?ts t)"
      by blast
    then have "count_list ?ts t \<noteq> 0" by (simp add: count_list_0_iff)
    with t node_map_of_Some [OF t(2)] show ?thesis by simp
  qed
  have disj: "set hs \<inter> set (res @ n # q) = {}" using pos zero by fastforce
  have "distinct (map nid ((res @ [n]) @ q'))"
  proof -
    have "inj_on nid (set ns)" using dist by (simp add: distinct_map)
    then have "nid ` set hs \<inter> nid ` set (res @ n # q) = {}"
      using disj pos sub by (metis (no_types) inj_on_image_Int image_empty subsetI)
    then show ?thesis using d hs(2,3) by auto
  qed
  moreover have "set ((res @ [n]) @ q') \<subseteq> set ns" using sub pos hs(2) by auto
  moreover have "deg' (nid m) = 0 \<longleftrightarrow> m \<in> set ((res @ [n]) @ q')" if m: "m \<in> set ns" for m
  proof (cases "deg (nid m) = 0")
    case True
    then show ?thesis using zero [OF m] le [of "nid m"] hs(1,2) by auto
  next
    case False
    then have "m \<notin> set (res @ n # q)" using zero [OF m] by simp
    moreover have "deg' (nid m) = 0 \<longleftrightarrow> m \<in> set hs"
    proof
      assume "deg' (nid m) = 0"
      with False hs(1) have "count_list ?ts (nid m) \<noteq> 0" "deg (nid m) = int (count_list ?ts (nid m))"
        by simp_all
      then show "m \<in> set hs" using node_map_of_node [OF dist m] hs(4) by (auto simp: count_list_0_iff)
    next
      assume "m \<in> set hs"
      then show "deg' (nid m) = 0" using hs(1,4) node_map_of_Some [of nid ns] by fastforce
    qed
    ultimately show ?thesis using hs(2) by auto
  qed
  moreover have "preds_before nid es (res @ [n])"
  proof (rule preds_before_snoc [OF before])
    fix e
    assume "e \<in> set es" "snd e = nid n"
    moreover have "deg (nid n) = 0" using zero [of n] sub by simp
    ultimately show "fst e \<in> nid ` set res" using deg [of "nid n"] by (simp add: open_edges_0)
  qed
  ultimately show ?thesis unfolding kahn_inv_def using deg' by blast
qed

lemma kahn_inv_loop:
  "distinct (map nid ns) \<Longrightarrow> kahn_inv nid ns es deg q res \<Longrightarrow>
   \<exists>deg'. kahn_inv nid ns es deg' [] (topo_loop nid ns (adj_of es) deg q res)"
proof (induction nid ns "adj_of es" deg q res rule: topo_loop.induct)
  case (1 nid ns deg result)
  then show ?case by (auto simp: topo_loop.simps)
next
  case (2 nid ns deg n q result)
  obtain deg' q' where r: "relax (node_map_of nid ns) (adj_of es (nid n)) deg q = (deg', q')"
    by fastforce
  from 2 r kahn_inv_step [OF 2(2,3) r] show ?case by (simp add: topo_loop.simps)
qed

section \<open>Results of the sort\<close>

lemma kahn_result:
  assumes "distinct (map nid ns)"
  obtains R deg where "kahn_inv nid ns es deg [] R"
    "topological_sort nid ns es = R @ filter (\<lambda>n. nid n \<notin> nid ` set R) ns"
  using kahn_inv_loop [OF assms kahn_inv_init [OF assms]] that
  by (auto simp: topological_sort_def Let_def)

lemma mset_topological_sort:
  assumes "distinct (map nid ns)"
  shows "mset (topological_sort nid ns es) = mset ns"
proof -
  obtain R deg where inv: "kahn_inv nid ns es deg [] R"
    and res: "topological_sort nid ns es = R @ filter (\<lambda>n. nid n \<notin> nid ` set R) ns"
    using kahn_result [OF assms] by blast
  have d: "distinct ns" "distinct R" "set R \<subseteq> set ns"
    using assms inv by (auto simp: kahn_inv_def distinct_map)
  have "inj_on nid (set ns)" using assms by (simp add: distinct_map)
  then have "filter (\<lambda>n. nid n \<notin> nid ` set R) ns = filter (\<lambda>n. n \<notin> set R) ns"
    using d(3) by (intro filter_cong refl) (simp add: inj_on_image_mem_iff)
  then have "set (topological_sort nid ns es) = set ns" "distinct (topological_sort nid ns es)"
    using d unfolding res by auto
  with d(1) show ?thesis by (simp add: set_eq_iff_mset_eq_distinct)
qed

text \<open>Without a cycle and without a source outside the graph the queue reaches every node.\<close>

lemma topo_loop_complete:
  assumes dist: "distinct (map nid ns)" and src: "fst ` set es \<subseteq> nid ` set ns"
    and acyclic: "acyclic (set es)"
  defines "R \<equiv> topo_loop nid ns (adj_of es) (in_degree_of es) (filter (\<lambda>n. in_degree_of es (nid n) = 0) ns) []"
  shows "topological_sort nid ns es = R \<and> preds_before nid es R"
proof -
  obtain deg where inv: "kahn_inv nid ns es deg [] R"
    using kahn_inv_loop [OF dist kahn_inv_init [OF dist]] unfolding R_def by blast
  let ?L = "{n \<in> set ns. nid n \<notin> nid ` set R}"
  have "?L = {}"
  proof (rule ccontr)
    assume "?L \<noteq> {}"
    then obtain k where k: "k \<in> nid ` ?L" by blast
    have wf: "wf (set es)" by (simp add: finite_acyclic_wf acyclic)
    obtain m where m: "m \<in> nid ` ?L" "\<And>k. (k, m) \<in> set es \<Longrightarrow> k \<notin> nid ` ?L"
      by (rule wfE_min [OF wf k]) blast
    then obtain n where n: "n \<in> ?L" "nid n = m" by auto
    then have "n \<notin> set R" by auto
    with inv n have "deg m \<noteq> 0" by (auto simp: kahn_inv_def)
    with inv have "open_edges es (nid ` set R) m \<noteq> 0" by (simp add: kahn_inv_def)
    then obtain k where "(k, m) \<in> set es" "k \<notin> nid ` set R" by (auto simp: open_edges_0)
    moreover from this src have "k \<in> nid ` ?L" by force
    ultimately show False using m(2) by blast
  qed
  then have "filter (\<lambda>n. nid n \<notin> nid ` set R) ns = []" by (auto simp: filter_empty_conv)
  then have "topological_sort nid ns es = R" by (simp add: topological_sort_def Let_def R_def)
  with inv show ?thesis by (simp add: kahn_inv_def)
qed

lemma topological_sort_order:
  assumes "distinct (map nid ns)" and "fst ` set es \<subseteq> nid ` set ns" and "acyclic (set es)"
  shows "preds_before nid es (topological_sort nid ns es)"
  using topo_loop_complete [OF assms] by simp

end
