(* ===== verification/Workflow.thy ===== *)
theory Workflow
  imports Kahn PyVal
begin

text \<open>
  The workflow engine of \<^verbatim>\<open>app/workflow/engine.py\<close>: node functions, the run of a graph in
  topological order, and the bounded table of instances. What a node calls (the gateway's
  stream, a tool, a skill, a knowledge-base search, a sub-agent) is a field of \<open>services\<close>, a
  function on the state \<open>'w\<close> of the outside world; \<open>Inl msg\<close> is a raised exception with its text.
  Texts outside ASCII (the defaults of the agent node) and the printing of floats are fields too.
\<close>

section \<open>Graphs, results, instances\<close>

record wf_node =
  wn_id :: string
  wn_type :: "string option"
  wn_label :: "pyval option"
  wn_config :: pydict

type_synonym wf_edge = "string \<times> string"

record wf_graph =
  wg_name :: string
  wg_nodes :: "wf_node list"
  wg_edges :: "wf_edge list"

record node_result =
  nr_node_id :: string
  nr_status :: string
  nr_output :: string
  nr_error :: string

record workflow_instance =
  wi_id :: string
  wi_graph_name :: string
  wi_state :: pydict
  wi_results :: "(string, node_result) dict"
  wi_status :: string
  wi_error :: string
  wi_started :: pyfloat
  wi_finished :: "pyfloat option"

record agent_config =
  ac_name :: pyval
  ac_description :: pyval
  ac_system_prompt :: pyval
  ac_model :: pyval
  ac_max_turns :: int

record 'w services =
  sv_chat :: "pydict list \<Rightarrow> pyval \<Rightarrow> 'w \<Rightarrow> (string list \<times> string option) \<times> 'w"
  sv_tool :: "pyval \<Rightarrow> pyval \<Rightarrow> 'w \<Rightarrow> (string + pyval) \<times> 'w"
  sv_skill :: "pyval \<Rightarrow> pyval \<Rightarrow> 'w \<Rightarrow> (string + pydict) \<times> 'w"
  sv_kb :: "pyval \<Rightarrow> pyval \<Rightarrow> int \<Rightarrow> 'w \<Rightarrow> (string + pyval) \<times> 'w"
  sv_agent :: "agent_config \<Rightarrow> string \<Rightarrow> 'w \<Rightarrow> (string + (bool \<times> string \<times> pyval)) \<times> 'w"
  sv_float :: "pyfloat \<Rightarrow> string"
  sv_agent_description :: string
  sv_agent_prompt :: string

section \<open>Helpers of the node functions\<close>

definition out_key :: "string \<Rightarrow> string" where
  "out_key node_id = ''__out_'' @ node_id @ ''__''"

text \<open>\<^verbatim>\<open>expression\<close> is a string in every graph the editor writes; another truthy value has no \<open>lower\<close>.\<close>

definition eval_condition :: "pyval \<Rightarrow> string \<Rightarrow> string + bool" where
  "eval_condition expression text =
     (if \<not> truthy expression then Inr (text \<noteq> [])
      else case expression of
             PStr s \<Rightarrow> Inr (has_sub (lower s) (lower text))
           | v \<Rightarrow> Inl (repr_str (type_name v) @ '' object has no attribute '' @ repr_str ''lower''))"

definition preds_of :: "wf_edge list \<Rightarrow> string \<Rightarrow> string list" where
  "preds_of es t = map fst (filter (\<lambda>e. snd e = t) es)"

fun first_output :: "(pyfloat \<Rightarrow> string) \<Rightarrow> pydict \<Rightarrow> string list \<Rightarrow> string" where
  "first_output fl st [] = []"
| "first_output fl st (p # ps) =
     (case dget st (out_key p) of
        None \<Rightarrow> first_output fl st ps
      | Some PNone \<Rightarrow> first_output fl st ps
      | Some v \<Rightarrow> py_str fl v)"

definition prev_output :: "(pyfloat \<Rightarrow> string) \<Rightarrow> wf_edge list \<Rightarrow> pydict \<Rightarrow> string \<Rightarrow> string" where
  "prev_output fl es st node_id = first_output fl st (rev (preds_of es node_id))"

text \<open>\<open>config[''input''][1:]\<close> of a reference, when the value is a string that starts with a dollar.\<close>

fun dollar_ref :: "pyval \<Rightarrow> string option" where
  "dollar_ref (PStr (c # cs)) = (if c = CHR ''$'' then Some cs else None)"
| "dollar_ref v = None"

section \<open>Node functions\<close>

text \<open>
  A node function gives the value of its own key \<^verbatim>\<open>__out_<id>__\<close>, or the exception that leaves it.
\<close>

definition input_node :: "'w services \<Rightarrow> wf_node \<Rightarrow> pydict \<Rightarrow> string \<Rightarrow> pyval" where
  "input_node sv node st node_id =
     PStr (case dget st node_id of
             Some v \<Rightarrow> py_str (sv_float sv) v
           | None \<Rightarrow>
               (case dget st ''input'' of
                  Some v \<Rightarrow> py_str (sv_float sv) v
                | None \<Rightarrow> ''[input] '' @
                    (case wn_label node of
                       None \<Rightarrow> node_id | Some l \<Rightarrow> py_str (sv_float sv) l)))"

definition cfg :: "wf_node \<Rightarrow> string \<Rightarrow> pyval \<Rightarrow> pyval" where
  "cfg node k d = dget_or (wn_config node) k d"

abbreviation empty_str :: pyval where
  "empty_str \<equiv> PStr []"

definition llm_node ::
  "'w services \<Rightarrow> wf_edge list \<Rightarrow> wf_node \<Rightarrow> pydict \<Rightarrow> string \<Rightarrow> 'w \<Rightarrow> pyval \<times> 'w" where
  "llm_node sv es node st node_id w =
     (let system = cfg node ''system_prompt'' empty_str;
          user_msg = cfg node ''user_message'' empty_str;
          prompt = py_or user_msg (py_or (cfg node ''prompt'' PNone)
                     (PStr (prev_output (sv_float sv) es st node_id)));
          model = cfg node ''model'' empty_str;
          messages =
            (if truthy system then [[(''role'', PStr ''system''), (''content'', system)]] else []) @
            [[(''role'', PStr ''user''), (''content'', prompt)]]
      in case sv_chat sv messages (py_or model (PStr ''gpt-4o-mini'')) w of
           ((chunks, None), w') \<Rightarrow> (PStr (concat chunks), w')
         | ((chunks, Some e), w') \<Rightarrow> (PStr (''llm error: '' @ e), w'))"

text \<open>A tool result that counts as a failure: a dictionary with a truthy \<open>error\<close> entry.\<close>

fun tool_failed :: "pyval \<Rightarrow> bool" where
  "tool_failed (PDict d) = truthy (dget_or d ''error'' PNone)"
| "tool_failed v = False"

text \<open>The attempts left; a failed last attempt breaks out of the loop with its text.\<close>

fun tool_attempts ::
  "'w services \<Rightarrow> pyval \<Rightarrow> pyval \<Rightarrow> nat \<Rightarrow> string \<Rightarrow> 'w \<Rightarrow> string \<times> 'w" where
  "tool_attempts sv name params 0 last_output w = (last_output, w)"
| "tool_attempts sv name params (Suc n) last_output w =
     (case sv_tool sv name params w of
        (Inl e, w') \<Rightarrow> tool_attempts sv name params n (''error: '' @ e) w'
      | (Inr r, w') \<Rightarrow>
          (if tool_failed r then tool_attempts sv name params n (py_str (sv_float sv) r) w'
           else (py_str (sv_float sv) r, w')))"

definition tool_node ::
  "'w services \<Rightarrow> wf_node \<Rightarrow> 'w \<Rightarrow> (string + pyval) \<times> 'w" where
  "tool_node sv node w =
     (let name = cfg node ''tool_name''
            (case wn_label node of None \<Rightarrow> empty_str | Some l \<Rightarrow> l);
          params = cfg node ''params'' (PDict [])
      in case to_int (py_or (cfg node ''retries'' (PInt 0)) (PInt 0)) of
           Inl e \<Rightarrow> (Inl e, w)
         | Inr retries \<Rightarrow>
             (case tool_attempts sv name params (nat (retries + 1)) [] w of
                (out, w') \<Rightarrow> (Inr (PStr out), w')))"

definition condition_node ::
  "'w services \<Rightarrow> wf_edge list \<Rightarrow> wf_node \<Rightarrow> pydict \<Rightarrow> string \<Rightarrow> string + pyval" where
  "condition_node sv es node st node_id =
     (let expr = py_or (cfg node ''condition'' PNone) (cfg node ''expression'' empty_str);
          ref = py_or (cfg node ''variable'' PNone) (cfg node ''input'' empty_str);
          prev = prev_output (sv_float sv) es st node_id;
          text = (case dollar_ref ref of
                    None \<Rightarrow> prev
                  | Some key \<Rightarrow>
                      py_str (sv_float sv)
                        (dget_or st (out_key key) (dget_or st key (PStr prev))))
      in case eval_condition expr text of
           Inl e \<Rightarrow> Inl e
         | Inr matched \<Rightarrow> Inr (PStr (if matched then ''true'' else ''false'')))"

definition output_node :: "'w services \<Rightarrow> wf_edge list \<Rightarrow> pydict \<Rightarrow> string \<Rightarrow> pyval" where
  "output_node sv es st node_id = PStr (prev_output (sv_float sv) es st node_id)"

definition skill_node ::
  "'w services \<Rightarrow> wf_edge list \<Rightarrow> wf_node \<Rightarrow> pydict \<Rightarrow> string \<Rightarrow> 'w \<Rightarrow> (string + pyval) \<times> 'w" where
  "skill_node sv es node st node_id w =
     (let skill_name = cfg node ''skill_name'' empty_str
      in if \<not> truthy skill_name
         then (Inr (PStr ''error: skill_name is required in node config''), w)
         else
           let params = py_or (cfg node ''params'' (PDict [])) (PDict []);
               merged = (case dollar_ref (cfg node ''input'' PNone) of
                    None \<Rightarrow> Inr params
                  | Some key \<Rightarrow>
                      (case params of
                         PDict d \<Rightarrow>
                           Inr (PDict (dset key (PStr (prev_output (sv_float sv) es st node_id)) d))
                       | v \<Rightarrow> Inl (repr_str (type_name v) @ '' object is not a mapping'')))
           in case merged of
                Inl e \<Rightarrow> (Inl e, w)
              | Inr ps \<Rightarrow>
                  (case sv_skill sv skill_name ps w of
                     (Inl e, w') \<Rightarrow> (Inl e, w')
                   | (Inr result, w') \<Rightarrow>
                       (Inr (dget_or result ''output'' (dget_or result ''error'' empty_str)), w')))"

definition knowledge_node ::
  "'w services \<Rightarrow> wf_edge list \<Rightarrow> wf_node \<Rightarrow> pydict \<Rightarrow> string \<Rightarrow> 'w \<Rightarrow> (string + pyval) \<times> 'w" where
  "knowledge_node sv es node st node_id w =
     (let kb_id = cfg node ''kb_id'' empty_str
      in if \<not> truthy kb_id then (Inr (PStr ''error: kb_id is required in node config''), w)
         else
           let query = py_or (cfg node ''query'' empty_str)
                 (PStr (prev_output (sv_float sv) es st node_id))
           in case to_int (py_or (cfg node ''top_k'' (PInt 5)) (PInt 5)) of
                Inl e \<Rightarrow> (Inl e, w)
              | Inr top_k \<Rightarrow>
                  (case sv_kb sv kb_id query top_k w of
                     (Inl e, w') \<Rightarrow> (Inl e, w')
                   | (Inr r, w') \<Rightarrow> (Inr (PStr (py_str (sv_float sv) r)), w')))"

definition agent_node ::
  "'w services \<Rightarrow> wf_edge list \<Rightarrow> wf_node \<Rightarrow> pydict \<Rightarrow> string \<Rightarrow> 'w \<Rightarrow> pyval \<times> 'w" where
  "agent_node sv es node st node_id w =
     (let task = py_or (cfg node ''task'' empty_str)
            (PStr (prev_output (sv_float sv) es st node_id))
      in if \<not> truthy task then (PStr ''error: task is required'', w)
         else case to_int (py_or (cfg node ''max_turns'' (PInt 6)) (PInt 6)) of
                Inl e \<Rightarrow> (PStr (''agent error: '' @ e), w)
              | Inr max_turns \<Rightarrow>
                  (case sv_agent sv
                      \<lparr>ac_name = cfg node ''name'' (PStr ''workflow_agent''),
                       ac_description = cfg node ''description'' (PStr (sv_agent_description sv)),
                       ac_system_prompt = py_or (cfg node ''system_prompt'' empty_str)
                         (PStr (sv_agent_prompt sv)),
                       ac_model = cfg node ''model'' (PStr ''gpt-4o-mini''),
                       ac_max_turns = max_turns\<rparr>
                      (py_str (sv_float sv) task) w of
                     (Inl e, w') \<Rightarrow> (PStr (''agent error: '' @ e), w')
                   | (Inr (success, error, output), w') \<Rightarrow>
                       (if \<not> success
                        then (PStr (''agent error: '' @ (if error = [] then ''unknown'' else error)), w')
                        else (PStr (py_str (sv_float sv) output), w'))))"

text \<open>The dispatch on \<^verbatim>\<open>node_type\<close>; an unknown type behaves as an input node.\<close>

definition node_fn ::
  "'w services \<Rightarrow> wf_edge list \<Rightarrow> string \<Rightarrow> wf_node \<Rightarrow> pydict \<Rightarrow> string \<Rightarrow> 'w \<Rightarrow> (string + pyval) \<times> 'w" where
  "node_fn sv es node_type node st node_id w =
     (if node_type = ''llm'' then map_prod Inr id (llm_node sv es node st node_id w)
      else if node_type = ''tool'' then tool_node sv node w
      else if node_type = ''condition'' then (condition_node sv es node st node_id, w)
      else if node_type = ''output'' then (Inr (output_node sv es st node_id), w)
      else if node_type = ''skill'' then skill_node sv es node st node_id w
      else if node_type = ''knowledge'' then knowledge_node sv es node st node_id w
      else if node_type = ''agent'' then map_prod Inr id (agent_node sv es node st node_id w)
      else (Inr (input_node sv node st node_id), w))"

text \<open>
  \<^verbatim>\<open>_build_node_fns\<close> reads every node's type; a missing one is a \<open>KeyError\<close> before any node runs.
  With equal identifiers the last node's function and configuration serve them all.
\<close>

definition build_node_fns ::
  "'w services \<Rightarrow> wf_graph \<Rightarrow> string + (string \<Rightarrow> pydict \<Rightarrow> 'w \<Rightarrow> (string + pyval) \<times> 'w)" where
  "build_node_fns sv g =
     (if \<exists>n \<in> set (wg_nodes g). wn_type n = None then Inl (repr_str ''node_type'')
      else Inr (\<lambda>node_id st w.
        case node_map_of wn_id (wg_nodes g) node_id of
          None \<Rightarrow> (Inl (repr_str node_id), w)
        | Some n \<Rightarrow> node_fn sv (wg_edges g) (the (wn_type n)) n st node_id w))"

section \<open>Running a graph\<close>

fun run_nodes ::
  "(pyfloat \<Rightarrow> string) \<Rightarrow> (string \<Rightarrow> pydict \<Rightarrow> 'w \<Rightarrow> (string + pyval) \<times> 'w) \<Rightarrow> string list \<Rightarrow>
   pydict \<Rightarrow> (string, node_result) dict \<Rightarrow> 'w \<Rightarrow>
   (string option \<times> pydict \<times> (string, node_result) dict) \<times> 'w" where
  "run_nodes fl fns [] st res w = ((None, st, res), w)"
| "run_nodes fl fns (i # is) st res w =
     (case fns i st w of
        (Inl e, w') \<Rightarrow> ((Some e, st, res), w')
      | (Inr v, w') \<Rightarrow>
          (let st' = dset (out_key i) v st;
               r = \<lparr>nr_node_id = i, nr_status = ''completed'', nr_output = py_str fl v, nr_error = []\<rparr>
           in run_nodes fl fns is st' (dset i r res) w'))"

text \<open>The keys of the final state overwrite those of the instance: \<^verbatim>\<open>instance.state.update(state)\<close>.\<close>

definition dict_update :: "('k, 'v) dict \<Rightarrow> ('k, 'v) dict \<Rightarrow> ('k, 'v) dict" where
  "dict_update d e = foldl (\<lambda>acc (k, v). dset k v acc) d e"

definition execute_graph ::
  "'w services \<Rightarrow> wf_graph \<Rightarrow> workflow_instance \<Rightarrow> 'w \<Rightarrow> workflow_instance \<times> 'w" where
  "execute_graph sv g inst w =
     (case build_node_fns sv g of
        Inl e \<Rightarrow> (inst\<lparr>wi_status := ''error'', wi_error := e\<rparr>, w)
      | Inr fns \<Rightarrow>
          (let order = map wn_id (topological_sort wn_id (wg_nodes g) (wg_edges g))
           in case run_nodes (sv_float sv) fns order (wi_state inst) (wi_results inst) w of
                ((Some e, st, res), w') \<Rightarrow>
                  (inst\<lparr>wi_results := res, wi_status := ''error'', wi_error := e\<rparr>, w')
              | ((None, st, res), w') \<Rightarrow>
                  (inst\<lparr>wi_results := res, wi_state := dict_update (wi_state inst) st,
                        wi_status := ''completed''\<rparr>, w')))"

text \<open>The module-level tables, with the size limit \<^verbatim>\<open>_MAX_INSTANCES\<close>.\<close>

record instance_table =
  it_instances :: "(string, workflow_instance) dict"
  it_order :: "string list"

definition max_instances :: nat where
  "max_instances = 500"

definition instance_timeout :: pyfloat where
  "instance_timeout = 3600 * 24"

definition register_instance :: "nat \<Rightarrow> workflow_instance \<Rightarrow> instance_table \<Rightarrow> instance_table" where
  "register_instance mx inst tb =
     (let ins = dset (wi_id inst) inst (it_instances tb); ord = it_order tb @ [wi_id inst]
      in if length ins > mx then \<lparr>it_instances = ddel (hd ord) ins, it_order = tl ord\<rparr>
         else \<lparr>it_instances = ins, it_order = ord\<rparr>)"

definition new_instance :: "string \<Rightarrow> wf_graph \<Rightarrow> pydict \<Rightarrow> pyfloat \<Rightarrow> workflow_instance" where
  "new_instance iid g init now = \<lparr>wi_id = iid, wi_graph_name = wg_name g, wi_state = init,
     wi_results = [], wi_status = ''running'', wi_error = [], wi_started = now, wi_finished = None\<rparr>"

definition should_timeout :: "pyfloat \<Rightarrow> workflow_instance \<Rightarrow> bool" where
  "should_timeout now inst \<longleftrightarrow> now - wi_started inst > instance_timeout"

text \<open>
  \<open>run_workflow\<close> with the clock at its start and at its end. The name \<^verbatim>\<open>_persist_workflow_instance\<close>
  called for a timed-out instance is defined nowhere, so the call raises a \<open>NameError\<close>. The table
  holds a reference to the instance: its entry shows the final instance while it is still there.
\<close>

datatype wf_outcome = WfReturned workflow_instance | WfNameError

definition replace_instance :: "workflow_instance \<Rightarrow> instance_table \<Rightarrow> instance_table" where
  "replace_instance inst tb =
     (if dget (it_instances tb) (wi_id inst) = None then tb
      else tb\<lparr>it_instances := dset (wi_id inst) inst (it_instances tb)\<rparr>)"

definition run_workflow ::
  "'w services \<Rightarrow> wf_graph \<Rightarrow> pydict \<Rightarrow> string \<Rightarrow> pyfloat \<Rightarrow> pyfloat \<Rightarrow> instance_table \<Rightarrow> 'w \<Rightarrow>
   wf_outcome \<times> instance_table \<times> 'w" where
  "run_workflow sv g init iid start finish tb w =
     (let inst = new_instance iid g init start;
          tb' = register_instance max_instances inst tb
      in case execute_graph sv g inst w of
           (inst', w') \<Rightarrow>
             let done = inst'\<lparr>wi_finished := Some finish\<rparr>
             in (if should_timeout finish done then WfNameError else WfReturned done,
                 replace_instance done tb', w'))"

definition get_instance :: "string \<Rightarrow> instance_table \<Rightarrow> workflow_instance option" where
  "get_instance iid tb = dget (it_instances tb) iid"

section \<open>Runs of a node list\<close>

lemma out_key_inj [simp]: "out_key a = out_key b \<longleftrightarrow> a = b"
  by (simp add: out_key_def)

lemma run_nodes_keys:
  "run_nodes fl fns is st res w = ((None, st', res'), w') \<Longrightarrow> distinct (keys res @ is) \<Longrightarrow>
   keys res' = keys res @ is"
proof (induction "is" arbitrary: st res w)
  case Nil
  then show ?case by simp
next
  case (Cons i "is")
  from Cons.prems(1) obtain v w1 where v: "fns i st w = (Inr v, w1)"
    by (auto split: prod.splits sum.splits)
  let ?r = "\<lparr>nr_node_id = i, nr_status = ''completed'', nr_output = py_str fl v, nr_error = []\<rparr>"
  have "keys res' = keys (dset i ?r res) @ is"
    using Cons.prems v by (intro Cons.IH [of "dset (out_key i) v st" _ w1])
      (auto simp: Let_def keys_dset)
  with Cons.prems(2) show ?case by (simp add: keys_dset)
qed

text \<open>What a completed node left: its value in the state, the printed value in the results.\<close>

definition results_match :: "(pyfloat \<Rightarrow> string) \<Rightarrow> pydict \<Rightarrow> (string, node_result) dict \<Rightarrow> bool" where
  "results_match fl st res \<longleftrightarrow>
     (\<forall>i r. dget res i = Some r \<longrightarrow> (\<exists>v. dget st (out_key i) = Some v \<and> nr_output r = py_str fl v))"

lemma results_match_dset:
  "results_match fl st res \<Longrightarrow> nr_output r = py_str fl v \<Longrightarrow>
   results_match fl (dset (out_key i) v st) (dset i r res)"
  by (simp add: results_match_def)

abbreviation completed_node :: "(pyfloat \<Rightarrow> string) \<Rightarrow> string \<Rightarrow> pyval \<Rightarrow> node_result" where
  "completed_node fl i v \<equiv>
     \<lparr>nr_node_id = i, nr_status = ''completed'', nr_output = py_str fl v, nr_error = []\<rparr>"

lemma run_nodes_ConsE:
  assumes "run_nodes fl fns (i # is) st res w = ((None, st', res'), w')"
  obtains v w1 where "fns i st w = (Inr v, w1)"
    "run_nodes fl fns is (dset (out_key i) v st) (dset i (completed_node fl i v) res) w1 =
       ((None, st', res'), w')"
  using assms by (auto simp: Let_def split: prod.splits sum.splits)

lemma run_nodes_frame:
  "run_nodes fl fns is st res w = ((None, st', res'), w') \<Longrightarrow> k \<notin> set is \<Longrightarrow>
   dget res' k = dget res k"
proof (induction "is" arbitrary: st res w)
  case (Cons i "is")
  from Cons.prems(1) show ?case
    by (rule run_nodes_ConsE) (use Cons.IH Cons.prems(2) in fastforce)
qed simp

lemma run_nodes_split:
  "run_nodes fl fns (xs @ i # ys) st res w = ((None, st', res'), w') \<Longrightarrow> distinct (xs @ i # ys) \<Longrightarrow>
   results_match fl st res \<Longrightarrow>
   \<exists>st1 res1 w1 v w2. results_match fl st1 res1 \<and> fns i st1 w1 = (Inr v, w2) \<and>
     set (keys res1) = set (keys res) \<union> set xs \<and>
     (\<forall>k. k \<notin> set (i # ys) \<longrightarrow> dget res' k = dget res1 k) \<and>
     dget res' i = Some (completed_node fl i v)"
proof (induction xs arbitrary: st res w)
  case Nil
  from Nil.prems(1) have run: "run_nodes fl fns (i # ys) st res w = ((None, st', res'), w')" by simp
  obtain v w2 where v: "fns i st w = (Inr v, w2)"
    and rest: "run_nodes fl fns ys (dset (out_key i) v st) (dset i (completed_node fl i v) res) w2 =
      ((None, st', res'), w')" using run by (rule run_nodes_ConsE)
  have "dget res' k = dget (dset i (completed_node fl i v) res) k" if "k \<notin> set ys" for k
    using run_nodes_frame [OF rest that] .
  with Nil.prems(2,3) v show ?case
    by (intro exI [of _ st] exI [of _ res] exI [of _ w] exI [of _ v] exI [of _ w2]) simp
next
  case (Cons x xs)
  from Cons.prems(1) have run: "run_nodes fl fns (x # (xs @ i # ys)) st res w = ((None, st', res'), w')"
    by simp
  obtain v w1 where rest: "run_nodes fl fns (xs @ i # ys) (dset (out_key x) v st)
      (dset x (completed_node fl x v) res) w1 = ((None, st', res'), w')"
    using run by (rule run_nodes_ConsE)
  have match: "results_match fl (dset (out_key x) v st) (dset x (completed_node fl x v) res)"
    using Cons.prems(3) by (intro results_match_dset) simp_all
  have dist: "distinct (xs @ i # ys)" using Cons.prems(2) by simp
  have ks: "set (keys (dset x (completed_node fl x v) res)) \<union> set xs = set (keys res) \<union> set (x # xs)"
    by (simp only: set_keys_dset list.simps Un_insert_left Un_insert_right)
  from Cons.IH [OF rest dist match] show ?case unfolding ks .
qed

lemma execute_graph_completed:
  assumes "execute_graph sv g inst w = (inst', w')" and "wi_status inst' = ''completed''"
  obtains fns st where "build_node_fns sv g = Inr fns"
    "run_nodes (sv_float sv) fns (map wn_id (topological_sort wn_id (wg_nodes g) (wg_edges g)))
       (wi_state inst) (wi_results inst) w = ((None, st, wi_results inst'), w')"
  using assms that by (auto simp: execute_graph_def Let_def split: sum.splits prod.splits option.splits)

lemma preds_before_map:
  assumes "preds_before nid es l"
  shows "preds_before id es (map nid l)"
  unfolding preds_before_def
proof (intro allI impI ballI)
  fix xs t ys e
  assume "map nid l = xs @ t # ys" and e: "e \<in> set es" "snd e = id t"
  then obtain ls n rs where "l = ls @ n # rs" "xs = map nid ls" "t = nid n"
    by (auto simp: map_eq_append_conv)
  with assms e show "fst e \<in> id ` set xs" by (auto simp: preds_before_def)
qed

text \<open>Graphs an editor accepts: distinct node identifiers, edges between nodes, no cycle.\<close>

definition wf_graph_ok :: "wf_graph \<Rightarrow> bool" where
  "wf_graph_ok g \<longleftrightarrow> distinct (map wn_id (wg_nodes g)) \<and>
     fst ` set (wg_edges g) \<subseteq> wn_id ` set (wg_nodes g) \<and> acyclic (set (wg_edges g))"

lemma completed_order:
  assumes "wf_graph_ok g" and "execute_graph sv g inst w = (inst', w')"
    and "wi_status inst' = ''completed''" and "wi_results inst = []"
  shows "keys (wi_results inst') = map wn_id (topological_sort wn_id (wg_nodes g) (wg_edges g)) \<and>
    mset (keys (wi_results inst')) = mset (map wn_id (wg_nodes g)) \<and>
    preds_before id (wg_edges g) (keys (wi_results inst'))"
proof -
  let ?order = "map wn_id (topological_sort wn_id (wg_nodes g) (wg_edges g))"
  have ok: "distinct (map wn_id (wg_nodes g))" "fst ` set (wg_edges g) \<subseteq> wn_id ` set (wg_nodes g)"
    "acyclic (set (wg_edges g))" using assms(1) by (auto simp: wf_graph_ok_def)
  have mset: "mset ?order = mset (map wn_id (wg_nodes g))"
    using mset_topological_sort [OF ok(1)] by simp
  then have "distinct ?order" using ok(1) by (metis mset_eq_imp_distinct_iff)
  then have "keys (wi_results inst') = ?order"
    by (rule_tac execute_graph_completed [OF assms(2,3)]) (auto dest!: run_nodes_keys simp: assms(4))
  then show ?thesis
    using mset preds_before_map [OF topological_sort_order [OF ok]] by metis
qed

section \<open>The instance table\<close>

definition table_ok :: "nat \<Rightarrow> instance_table \<Rightarrow> bool" where
  "table_ok mx tb \<longleftrightarrow> keys (it_instances tb) = it_order tb \<and> distinct (it_order tb) \<and>
     length (it_order tb) \<le> mx"

lemma register_fresh:
  assumes "table_ok mx tb" and "wi_id inst \<notin> set (it_order tb)" and "0 < mx"
  shows "table_ok mx (register_instance mx inst tb)"
proof -
  let ?ins = "dset (wi_id inst) inst (it_instances tb)" and ?ord = "it_order tb @ [wi_id inst]"
  have ins: "keys ?ins = ?ord" and d: "distinct ?ord"
    using assms(1,2) by (auto simp: table_ok_def keys_dset simp del: set_map)
  then have len: "length ?ins = length ?ord" by (metis length_map)
  show ?thesis
  proof (cases "length ?ins > mx")
    case True
    have "keys (ddel (hd ?ord) ?ins) = filter (\<lambda>x. x \<noteq> hd ?ord) ?ord"
      by (simp only: keys_ddel ins)
    also have "\<dots> = tl ?ord"
      using d by (cases "it_order tb") (auto simp: filter_id_conv)
    finally have "keys (ddel (hd ?ord) ?ins) = tl ?ord" .
    moreover have "distinct (tl ?ord)" "length (tl ?ord) \<le> mx"
      using d assms(1) by (auto simp: distinct_tl table_ok_def simp del: tl_append)
    ultimately show ?thesis using True by (simp add: register_instance_def Let_def table_ok_def)
  next
    case False
    with ins d len show ?thesis by (simp add: register_instance_def Let_def table_ok_def)
  qed
qed

lemma register_all_fresh:
  "table_ok mx tb \<Longrightarrow> 0 < mx \<Longrightarrow> distinct (map wi_id insts) \<Longrightarrow>
   set (map wi_id insts) \<inter> set (it_order tb) = {} \<Longrightarrow>
   table_ok mx (foldl (\<lambda>t i. register_instance mx i t) tb insts)"
proof (induction insts arbitrary: tb)
  case Nil
  then show ?case by simp
next
  case (Cons i insts)
  have ok: "table_ok mx (register_instance mx i tb)"
    using Cons.prems by (intro register_fresh) auto
  have sub: "set (it_order (register_instance mx i tb)) \<subseteq> set (it_order tb) \<union> {wi_id i}"
    by (cases "it_order tb") (auto simp: register_instance_def Let_def)
  have "set (map wi_id insts) \<inter> (set (it_order tb) \<union> {wi_id i}) = {}"
    using Cons.prems(3,4) by auto
  with sub have disj: "set (map wi_id insts) \<inter> set (it_order (register_instance mx i tb)) = {}"
    by blast
  have "table_ok mx (foldl (\<lambda>t i. register_instance mx i t) (register_instance mx i tb) insts)"
    using Cons.prems(3) by (intro Cons.IH [OF ok Cons.prems(2) _ disj]) simp
  then show ?case by simp
qed

section \<open>Properties\<close>


definition sample_services :: "unit services" where
  "sample_services = \<lparr>sv_chat = (\<lambda>ms m w. (([''hi''], None), w)), sv_tool = (\<lambda>n p w. (Inr PNone, w)),
     sv_skill = (\<lambda>n p w. (Inr [], w)), sv_kb = (\<lambda>k q n w. (Inr PNone, w)),
     sv_agent = (\<lambda>c t w. (Inl ''none'', w)), sv_float = (\<lambda>_. ''0.0''),
     sv_agent_description = [], sv_agent_prompt = []\<rparr>"

definition sample_graph :: wf_graph where
  "sample_graph = \<lparr>wg_name = ''g'',
     wg_nodes = [\<lparr>wn_id = ''b'', wn_type = Some ''output'', wn_label = None, wn_config = []\<rparr>,
                 \<lparr>wn_id = ''a'', wn_type = Some ''input'', wn_label = None, wn_config = []\<rparr>],
     wg_edges = [(''a'', ''b'')]\<rparr>"

definition sample_instance :: workflow_instance where
  "sample_instance = new_instance ''i'' sample_graph [(''input'', PStr ''x'')] 0"

lemma sample_graph_ok: "wf_graph_ok sample_graph"
  by (auto simp: wf_graph_ok_def sample_graph_def acyclic_def elim: tranclE dest: tranclD)

lemma sample_run:
  "wi_status (fst (execute_graph sample_services sample_graph sample_instance ())) = ''completed''"
  "keys (wi_results (fst (execute_graph sample_services sample_graph sample_instance ()))) = [''a'', ''b'']"
  "wi_results sample_instance = []"
  by code_simp+


text \<open>In a completed run of such a graph an output node shows the output of its last
  predecessor, unless that output is the text of \<open>None\<close>.\<close>

theorem output_node_shows_last_predecessor:
  assumes "wf_graph_ok g" and "execute_graph sv g inst w = (inst', w')"
    and "wi_status inst' = ''completed''" and "wi_results inst = []"
    and n: "n \<in> set (wg_nodes g)" "wn_type n = Some ''output''"
    and "preds_of (wg_edges g) (wn_id n) = ps @ [p]"
    and rp: "dget (wi_results inst') p = Some rp" "nr_output rp \<noteq> ''None''"
  shows "\<exists>r. dget (wi_results inst') (wn_id n) = Some r \<and> nr_output r = nr_output rp"
proof -
  let ?order = "map wn_id (topological_sort wn_id (wg_nodes g) (wg_edges g))"
  have dist: "distinct (map wn_id (wg_nodes g))" using assms(1) by (simp add: wf_graph_ok_def)
  note order = completed_order [OF assms(1-4)]
  have set_order: "set ?order = wn_id ` set (wg_nodes g)" and dist_order: "distinct ?order"
    using order dist by (metis mset_eq_setD set_map, metis mset_eq_imp_distinct_iff)
  obtain xs ys where split: "?order = xs @ wn_id n # ys"
    using n(1) set_order by (metis image_eqI split_list)
  have edge: "(p, wn_id n) \<in> set (wg_edges g)"
  proof -
    have "p \<in> set (preds_of (wg_edges g) (wn_id n))" using assms(7) by simp
    then show ?thesis by (auto simp: preds_of_def)
  qed
  have p: "p \<in> set xs" using order split edge unfolding preds_before_def by fastforce
  obtain fns st where fns: "build_node_fns sv g = Inr fns"
    and run: "run_nodes (sv_float sv) fns (xs @ wn_id n # ys) (wi_state inst) [] w =
      ((None, st, wi_results inst'), w')"
    by (rule execute_graph_completed [OF assms(2,3)]) (auto simp: split assms(4))
  have match: "results_match (sv_float sv) (wi_state inst) []" by (simp add: results_match_def)
  have "distinct (xs @ wn_id n # ys)" using dist_order split by simp
  from run_nodes_split [OF run this match]
  obtain st1 res1 w1 v w2 where one: "results_match (sv_float sv) st1 res1"
    "fns (wn_id n) st1 w1 = (Inr v, w2)"
    "\<forall>k. k \<notin> set (wn_id n # ys) \<longrightarrow> dget (wi_results inst') k = dget res1 k"
    "dget (wi_results inst') (wn_id n) = Some (completed_node (sv_float sv) (wn_id n) v)" by blast
  have "p \<notin> set (wn_id n # ys)" using p dist_order split by auto
  with one(3) rp(1) have "dget res1 p = Some rp" by simp
  then obtain vp where vp: "dget st1 (out_key p) = Some vp" "nr_output rp = py_str (sv_float sv) vp"
    using one(1) unfolding results_match_def by blast
  then have "vp \<noteq> PNone" using rp(2) by auto
  with vp(1) have "prev_output (sv_float sv) (wg_edges g) st1 (wn_id n) = py_str (sv_float sv) vp"
    by (cases vp) (simp_all add: prev_output_def assms(7))
  moreover have "fns = (\<lambda>node_id st w. case node_map_of wn_id (wg_nodes g) node_id of
        None \<Rightarrow> (Inl (repr_str node_id), w)
      | Some n \<Rightarrow> node_fn sv (wg_edges g) (the (wn_type n)) n st node_id w)"
    using fns by (auto simp: build_node_fns_def split: if_splits)
  ultimately have "v = PStr (py_str (sv_float sv) vp)"
    using one(2) n node_map_of_node [OF dist n(1)] by (auto simp: node_fn_def output_node_def)
  with one(4) vp(2) show ?thesis by simp
qed

theorem output_node_shows_last_predecessor_witness:
  "\<exists>r. dget (wi_results (fst (execute_graph sample_services sample_graph sample_instance ()))) ''b'' =
     Some r \<and> nr_output r = ''x''"
proof -
  let ?inst = "fst (execute_graph sample_services sample_graph sample_instance ())"
  let ?n = "\<lparr>wn_id = ''b'', wn_type = Some ''output'', wn_label = None, wn_config = []\<rparr>"
  have n: "?n \<in> set (wg_nodes sample_graph)" "wn_type ?n = Some ''output''"
    "preds_of (wg_edges sample_graph) (wn_id ?n) = [] @ [''a'']"
    by (simp_all add: sample_graph_def preds_of_def)
  have rp: "dget (wi_results ?inst) ''a'' = Some (completed_node (sv_float sample_services) ''a'' (PStr ''x''))"
    by code_simp
  show ?thesis
    using output_node_shows_last_predecessor
      [OF sample_graph_ok surjective_pairing sample_run(1,3) n rp] by simp
qed

lemma tool_attempts_skip:
  assumes "\<And>name params w. sv_tool sv name params w = (hd w, tl w)"
    and "\<And>r. r \<in> set fs \<Longrightarrow> (case r of Inl e \<Rightarrow> True | Inr v \<Rightarrow> tool_failed v)"
  shows "\<exists>l. tool_attempts sv name params (length fs + n) l0 (fs @ w) =
    tool_attempts sv name params n l w"
  using assms(2)
proof (induction fs arbitrary: l0)
  case Nil
  then show ?case by auto
next
  case (Cons f fs)
  have IH: "\<exists>l. tool_attempts sv name params (length fs + n) l0 (fs @ w) =
    tool_attempts sv name params n l w" for l0
    using Cons.prems by (intro Cons.IH) simp
  show ?case
  proof (cases f)
    case (Inl e)
    with IH [of "''error: '' @ e"] show ?thesis by (simp add: assms(1))
  next
    case (Inr v)
    with Cons.prems [of f] have "tool_failed v" by simp
    with Inr IH [of "py_str (sv_float sv) v"] show ?thesis by (simp add: assms(1))
  qed
qed

lemma tool_node_skip:
  assumes "\<And>name params w. sv_tool sv name params w = (hd w, tl w)"
    and "to_int (py_or (cfg node ''retries'' (PInt 0)) (PInt 0)) = Inr (int k)"
    and "\<And>r. r \<in> set fs \<Longrightarrow> (case r of Inl e \<Rightarrow> True | Inr v \<Rightarrow> tool_failed v)"
    and "length fs \<le> k"
  shows "\<exists>name params l. tool_node sv node (fs @ w) =
    (case tool_attempts sv name params (Suc (k - length fs)) l w of (out, w') \<Rightarrow> (Inr (PStr out), w'))"
proof -
  have nat: "nat (int k + 1) = length fs + Suc (k - length fs)" using assms(4) by simp
  show ?thesis
    using tool_attempts_skip [OF assms(1,3), of fs _ _ "Suc (k - length fs)" "[]" w]
    unfolding tool_node_def Let_def assms(2) sum.case nat by metis
qed

text \<open>A tool node with \<open>retries = k\<close> stops at the first attempt that succeeds and uses no more
  than \<open>k + 1\<close> attempts; when they all fail its output is the text of the last failure. The tool
  here answers from a list of results, one per call.\<close>

theorem tool_node_retries:
  assumes "\<And>name params w. sv_tool sv name params w = (hd w, tl w)"
    and "to_int (py_or (cfg node ''retries'' (PInt 0)) (PInt 0)) = Inr (int k)"
    and "\<And>r. r \<in> set fs \<Longrightarrow> (case r of Inl e \<Rightarrow> True | Inr v \<Rightarrow> tool_failed v)"
    and "length fs \<le> k"
  shows "(\<not> tool_failed v \<or> length fs = k \<longrightarrow>
       tool_node sv node (fs @ Inr v # rest) = (Inr (PStr (py_str (sv_float sv) v)), rest)) \<and>
    (length fs = k \<longrightarrow>
       tool_node sv node (fs @ Inl e # rest) = (Inr (PStr (''error: '' @ e)), rest))"
proof (intro conjI impI)
  obtain name params l where "tool_node sv node (fs @ Inr v # rest) =
    (case tool_attempts sv name params (Suc (k - length fs)) l (Inr v # rest) of
       (out, w') \<Rightarrow> (Inr (PStr out), w'))" using tool_node_skip [OF assms] by blast
  then show "tool_node sv node (fs @ Inr v # rest) = (Inr (PStr (py_str (sv_float sv) v)), rest)"
    if "\<not> tool_failed v \<or> length fs = k" using that by (auto simp: assms(1))
next
  obtain name params l where "tool_node sv node (fs @ Inl e # rest) =
    (case tool_attempts sv name params (Suc (k - length fs)) l (Inl e # rest) of
       (out, w') \<Rightarrow> (Inr (PStr out), w'))" using tool_node_skip [OF assms] by blast
  then show "tool_node sv node (fs @ Inl e # rest) = (Inr (PStr (''error: '' @ e)), rest)"
    if "length fs = k" using that by (simp add: assms(1))
qed

definition queue_services :: "(string + pyval) list services" where
  "queue_services = \<lparr>sv_chat = (\<lambda>ms m w. (([], None), w)), sv_tool = (\<lambda>n p w. (hd w, tl w)),
     sv_skill = (\<lambda>n p w. (Inr [], w)), sv_kb = (\<lambda>k q n w. (Inr PNone, w)),
     sv_agent = (\<lambda>c t w. (Inl ''none'', w)), sv_float = (\<lambda>_. ''0.0''),
     sv_agent_description = [], sv_agent_prompt = []\<rparr>"

definition sample_tool :: wf_node where
  "sample_tool = \<lparr>wn_id = ''t'', wn_type = Some ''tool'', wn_label = None,
     wn_config = [(''retries'', PInt 2)]\<rparr>"

theorem tool_node_retries_witness:
  "tool_node queue_services sample_tool [Inl ''down'', Inr (PStr ''ok''), Inr PNone] =
    (Inr (PStr ''ok''), [Inr PNone])"
proof -
  have a: "sv_tool queue_services name params w = (hd w, tl w)" for name params w
    by (simp add: queue_services_def)
  have b: "to_int (py_or (cfg sample_tool ''retries'' (PInt 0)) (PInt 0)) = Inr (int 2)"
    by code_simp
  have c: "case r of Inl e \<Rightarrow> True | Inr v \<Rightarrow> tool_failed v"
    if "r \<in> set [Inl ''down'']" for r :: "string + pyval"
    using that by simp
  show ?thesis
    using tool_node_retries [where v = "PStr ''ok''" and rest = "[Inr PNone]"
      and fs = "[Inl ''down'']", OF a b c] by simp
qed

text \<open>The table never holds more than its limit of instances and evicts in order of
  registration, as long as the identifiers registered are new.\<close>

theorem instance_table_bounded:
  assumes "distinct (map wi_id insts)"
  shows "table_ok max_instances
    (foldl (\<lambda>t i. register_instance max_instances i t) \<lparr>it_instances = [], it_order = []\<rparr> insts)"
  by (rule register_all_fresh) (simp_all add: table_ok_def max_instances_def assms)

theorem instance_table_bounded_witness:
  "table_ok max_instances
    (foldl (\<lambda>t i. register_instance max_instances i t) \<lparr>it_instances = [], it_order = []\<rparr>
      [sample_instance, sample_instance\<lparr>wi_id := ''j''\<rparr>])"
  by (rule instance_table_bounded) (simp add: sample_instance_def new_instance_def)

text \<open>An edge whose source is not a node of the graph is counted in the in-degree of its target
  and never released: the target and all that follow it are appended in the order of the node list,
  so a valid dependency between them can be violated.\<close>

theorem dangling_edge_breaks_order:
  "topological_sort id [''c'', ''a''] [(''x'', ''a''), (''a'', ''c'')] = [''c'', ''a''] \<and>
   acyclic (set [(''x'', ''a''), (''a'', ''c'')])"
proof
  show "topological_sort id [''c'', ''a''] [(''x'', ''a''), (''a'', ''c'')] = [''c'', ''a'']"
    by code_simp
  show "acyclic (set [(''x'', ''a''), (''a'', ''c'')])"
    by (simp add: acyclic_insert rtrancl_insert, simp add: acyclic_def)
qed

text \<open>A run longer than the instance timeout never returns its instance: the call of the
  undefined persistence function in the final block raises, whatever the nodes did.\<close>

theorem long_run_loses_its_result:
  assumes "finish - start > instance_timeout"
  shows "fst (run_workflow sv g init iid start finish tb w) = WfNameError"
proof -
  obtain inst' w' where run: "execute_graph sv g (new_instance iid g init start) w = (inst', w')"
    by fastforce
  have "wi_started inst' = start"
    using run by (auto simp: execute_graph_def new_instance_def Let_def
      split: sum.splits prod.splits option.splits)
  then show ?thesis using assms run by (simp add: run_workflow_def Let_def should_timeout_def)
qed

theorem long_run_loses_its_result_witness:
  "fst (run_workflow sample_services sample_graph [] ''i'' 0 86401
     \<lparr>it_instances = [], it_order = []\<rparr> ()) = WfNameError"
  by (rule long_run_loses_its_result) (simp add: instance_timeout_def)

end
