(* ===== verification/ContextBus.thy ===== *)
theory ContextBus
  imports PyVal
begin

text \<open>
  The context bus of \<^verbatim>\<open>app/core/context_bus.py\<close>: the in-memory bus with its bounded logs, and the
  Redis bus with the dispatch of messages that arrive over the Pub/Sub channel. A callback is a
  value \<open>'c\<close>; \<open>call\<close> is its effect on the outside world \<open>'w\<close> (an exception in it is logged and
  swallowed, so only the effect matters). Message identifiers and clock readings are arguments.
\<close>

section \<open>Messages\<close>

datatype message_type = STATE_CHANGE | RESULT_PUBLISH | COMMAND | QUERY | EVENT

fun mt_value :: "message_type \<Rightarrow> string" where
  "mt_value STATE_CHANGE = ''state_change''"
| "mt_value RESULT_PUBLISH = ''result_publish''"
| "mt_value COMMAND = ''command''"
| "mt_value QUERY = ''query''"
| "mt_value EVENT = ''event''"

definition all_message_types :: "message_type list" where
  "all_message_types = [STATE_CHANGE, RESULT_PUBLISH, COMMAND, QUERY, EVENT]"

text \<open>\<open>MessageType(s)\<close>; \<open>None\<close> is the \<open>ValueError\<close>.\<close>

definition mt_of :: "string \<Rightarrow> message_type option" where
  "mt_of s = find (\<lambda>t. mt_value t = s) all_message_types"

record ctx_message =
  cm_topic :: string
  cm_type :: message_type
  cm_data :: pyval
  cm_tenant :: string
  cm_id :: string
  cm_timestamp :: pyfloat
  cm_ttl :: int
  cm_reply_to :: string

section \<open>The in-memory bus\<close>

record 'c memory_bus =
  mb_subscriptions :: "(string, 'c list) dict"
  mb_log :: "(string, ctx_message list) dict"

definition max_log_size :: int where
  "max_log_size = 1000"

definition new_bus :: "'c memory_bus" where
  "new_bus = \<lparr>mb_subscriptions = [], mb_log = []\<rparr>"

text \<open>Reading a \<^verbatim>\<open>defaultdict\<close> by index inserts the default.\<close>

definition default_list :: "string \<Rightarrow> (string, 'a list) dict \<Rightarrow> (string, 'a list) dict" where
  "default_list k d = (if dget d k = None then dset k [] d else d)"

definition append_log :: "ctx_message \<Rightarrow> (string, ctx_message list) dict \<Rightarrow> (string, ctx_message list) dict" where
  "append_log m d =
     (let ms = dget_or d (cm_topic m) [] @ [m]
      in dset (cm_topic m) (if int (length ms) > max_log_size then py_last max_log_size ms else ms) d)"

definition new_message ::
  "string \<Rightarrow> message_type \<Rightarrow> pyval \<Rightarrow> string \<Rightarrow> int \<Rightarrow> string \<Rightarrow> pyfloat \<Rightarrow> ctx_message" where
  "new_message topic mt d tenant ttl mid now =
     \<lparr>cm_topic = topic, cm_type = mt, cm_data = d, cm_tenant = tenant, cm_id = mid,
      cm_timestamp = now, cm_ttl = ttl, cm_reply_to = []\<rparr>"

definition deliver :: "('c \<Rightarrow> ctx_message \<Rightarrow> 'w \<Rightarrow> 'w) \<Rightarrow> ctx_message \<Rightarrow> 'c list \<Rightarrow> 'w \<Rightarrow> 'w" where
  "deliver call m cs w = foldl (\<lambda>w c. call c m w) w cs"

definition mb_publish ::
  "('c \<Rightarrow> ctx_message \<Rightarrow> 'w \<Rightarrow> 'w) \<Rightarrow> ctx_message \<Rightarrow> 'c memory_bus \<Rightarrow> 'w \<Rightarrow>
   ctx_message \<times> 'c memory_bus \<times> 'w" where
  "mb_publish call m b w =
     (let b' = b\<lparr>mb_log := append_log m (mb_log b),
                mb_subscriptions := default_list (cm_topic m) (mb_subscriptions b)\<rparr>
      in (m, b', deliver call m (dget_or (mb_subscriptions b') (cm_topic m) []) w))"

definition mb_subscribe :: "string \<Rightarrow> 'c \<Rightarrow> 'c memory_bus \<Rightarrow> 'c memory_bus" where
  "mb_subscribe topic c b =
     b\<lparr>mb_subscriptions := dset topic (dget_or (mb_subscriptions b) topic [] @ [c]) (mb_subscriptions b)\<rparr>"

definition mb_unsubscribe :: "string \<Rightarrow> 'c \<Rightarrow> 'c memory_bus \<Rightarrow> bool \<times> 'c memory_bus" where
  "mb_unsubscribe topic c b =
     (case dget (mb_subscriptions b) topic of
        None \<Rightarrow> (False, b)
      | Some cs \<Rightarrow>
          (if c \<in> set cs
           then (True, b\<lparr>mb_subscriptions := dset topic (remove1 c cs) (mb_subscriptions b)\<rparr>)
           else (False, b)))"

definition mb_query :: "string \<Rightarrow> string \<Rightarrow> int \<Rightarrow> 'c memory_bus \<Rightarrow> ctx_message list" where
  "mb_query topic tenant limit b =
     py_last limit (filter (\<lambda>m. cm_tenant m = tenant) (dget_or (mb_log b) topic []))"

definition mb_latest :: "string \<Rightarrow> string \<Rightarrow> 'c memory_bus \<Rightarrow> ctx_message option" where
  "mb_latest topic tenant b =
     (case mb_query topic tenant 1 b of [] \<Rightarrow> None | m # _ \<Rightarrow> Some m)"

section \<open>The Redis bus\<close>

text \<open>
  The Redis client, the JSON library and the parsing and printing of floats are parameters. Every
  client call may raise (\<open>Some e\<close>) and acts on the outside world.
\<close>

record 'w redis_client =
  rc_xadd :: "string \<Rightarrow> (string \<times> string) list \<Rightarrow> 'w \<Rightarrow> string option \<times> 'w"
  rc_setex :: "string \<Rightarrow> int \<Rightarrow> string \<Rightarrow> 'w \<Rightarrow> string option \<times> 'w"
  rc_publish :: "string \<Rightarrow> string \<Rightarrow> 'w \<Rightarrow> string option \<times> 'w"
  rc_get :: "string \<Rightarrow> 'w \<Rightarrow> string + string option"
  rc_xrange :: "string \<Rightarrow> int \<Rightarrow> 'w \<Rightarrow> string + (string, string) dict list"

record codec =
  cd_dumps :: "pyval \<Rightarrow> string"
  cd_loads :: "string \<Rightarrow> string + pyval"
  cd_float :: "pyfloat \<Rightarrow> string"
  cd_parse_float :: "string \<Rightarrow> pyfloat option"

record 'c redis_bus =
  rb_subs :: "(string, 'c list) dict"
  rb_channels :: "string set"
  rb_started :: bool

definition new_redis_bus :: "'c redis_bus" where
  "new_redis_bus = \<lparr>rb_subs = [], rb_channels = {}, rb_started = False\<rparr>"

definition channel_of :: "string \<Rightarrow> string \<Rightarrow> string" where
  "channel_of tenant topic = ''contextbus:'' @ tenant @ '':'' @ topic"

definition snapshot_key :: "string \<Rightarrow> string \<Rightarrow> string" where
  "snapshot_key tenant topic = ''contextbus:snapshot:'' @ tenant @ '':'' @ topic"

definition entry_of :: "codec \<Rightarrow> ctx_message \<Rightarrow> (string, string) dict" where
  "entry_of cd m =
     [(''message_id'', cm_id m), (''message_type'', mt_value (cm_type m)),
      (''timestamp'', cd_float cd (cm_timestamp m)), (''data'', cd_dumps cd (cm_data m)),
      (''ttl'', str_int (cm_ttl m))]"

definition str_dict :: "(string, string) dict \<Rightarrow> pyval" where
  "str_dict d = PDict (map (\<lambda>(k, v). (k, PStr v)) d)"

definition rb_publish ::
  "'w redis_client \<Rightarrow> codec \<Rightarrow> ('c \<Rightarrow> ctx_message \<Rightarrow> 'w \<Rightarrow> 'w) \<Rightarrow> ctx_message \<Rightarrow> 'c redis_bus \<Rightarrow> 'w \<Rightarrow>
   (string + ctx_message) \<times> 'c redis_bus \<times> 'w" where
  "rb_publish rc cd call m b w =
     (let key = channel_of (cm_tenant m) (cm_topic m); entry = entry_of cd m
      in case rc_xadd rc key entry w of
           (Some e, w1) \<Rightarrow> (Inl e, b, w1)
         | (None, w1) \<Rightarrow>
             (case rc_setex rc (snapshot_key (cm_tenant m) (cm_topic m)) (cm_ttl m)
                     (cd_dumps cd (cm_data m)) w1 of
                (Some e, w2) \<Rightarrow> (Inl e, b, w2)
              | (None, w2) \<Rightarrow>
                  (case rc_publish rc key (cd_dumps cd (str_dict entry)) w2 of
                     (Some e, w3) \<Rightarrow> (Inl e, b, w3)
                   | (None, w3) \<Rightarrow>
                       (let subs = default_list (cm_topic m) (rb_subs b)
                        in (Inr m, b\<lparr>rb_subs := subs\<rparr>,
                            deliver call m (dget_or subs (cm_topic m) []) w3)))))"

definition sub_channel :: "string \<Rightarrow> string \<Rightarrow> string" where
  "sub_channel tenant topic = (if tenant \<noteq> [] then channel_of tenant topic else channel_of ''*'' topic)"

definition rb_subscribe :: "string \<Rightarrow> 'c \<Rightarrow> string \<Rightarrow> 'c redis_bus \<Rightarrow> 'c redis_bus" where
  "rb_subscribe topic c tenant b =
     b\<lparr>rb_subs := dset topic (dget_or (rb_subs b) topic [] @ [c]) (rb_subs b),
       rb_channels := insert (sub_channel tenant topic) (rb_channels b), rb_started := True\<rparr>"

definition rb_unsubscribe :: "string \<Rightarrow> 'c \<Rightarrow> string \<Rightarrow> 'c redis_bus \<Rightarrow> bool \<times> 'c redis_bus" where
  "rb_unsubscribe topic c tenant b =
     (case dget (rb_subs b) topic of
        None \<Rightarrow> (False, b)
      | Some cs \<Rightarrow>
          (let cs' = remove1 c cs; b' = b\<lparr>rb_subs := dset topic cs' (rb_subs b)\<rparr>
           in (c \<in> set cs,
               if cs' = [] then b'\<lparr>rb_channels := rb_channels b' - {sub_channel tenant topic}\<rparr> else b')))"

text \<open>\<open>s.split('':'', n)\<close>.\<close>

fun split_colon :: "nat \<Rightarrow> string \<Rightarrow> string list" where
  "split_colon 0 s = [s]"
| "split_colon (Suc n) s =
     (case dropWhile (\<lambda>c. c \<noteq> CHR '':'') s of
        [] \<Rightarrow> [s]
      | _ # rest \<Rightarrow> takeWhile (\<lambda>c. c \<noteq> CHR '':'') s # split_colon n rest)"

definition str_field :: "pydict \<Rightarrow> string \<Rightarrow> string \<Rightarrow> string option" where
  "str_field d k dflt = (case dget_or d k (PStr dflt) of PStr s \<Rightarrow> Some s | _ \<Rightarrow> None)"

text \<open>
  The body of the listener for one raw message on a channel: \<open>None\<close> when the message is skipped or
  an exception in it is logged. A \<^verbatim>\<open>message_id\<close> that is not a string is outside the model.
\<close>

definition parse_raw :: "codec \<Rightarrow> pyfloat \<Rightarrow> string \<Rightarrow> string \<Rightarrow> ctx_message option" where
  "parse_raw cd now channel raw =
     (case split_colon 2 channel of
        [_, tenant, topic] \<Rightarrow>
          (case cd_loads cd raw of
             Inr (PDict entry) \<Rightarrow>
               (case (str_field entry ''message_type'' ''event'', str_field entry ''data'' ''{}'',
                      str_field entry ''message_id'' []) of
                  (Some mts, Some ds, Some mid) \<Rightarrow>
                    (case (mt_of mts, cd_loads cd ds,
                           case dget entry ''timestamp'' of
                             None \<Rightarrow> Some now
                           | Some (PStr s) \<Rightarrow> cd_parse_float cd s
                           | Some (PFloat x) \<Rightarrow> Some x
                           | Some (PInt i) \<Rightarrow> Some (of_int i)
                           | Some (PBool t) \<Rightarrow> Some (if t then 1 else 0)
                           | Some _ \<Rightarrow> None) of
                       (Some mt, Inr d, Some ts) \<Rightarrow>
                         Some (new_message topic mt d tenant 3600 mid ts)
                     | _ \<Rightarrow> None)
                | _ \<Rightarrow> None)
           | _ \<Rightarrow> None)
      | _ \<Rightarrow> None)"

definition rb_dispatch ::
  "codec \<Rightarrow> ('c \<Rightarrow> ctx_message \<Rightarrow> 'w \<Rightarrow> 'w) \<Rightarrow> pyfloat \<Rightarrow> string \<Rightarrow> string \<Rightarrow> string \<Rightarrow>
   'c redis_bus \<Rightarrow> 'w \<Rightarrow> 'w" where
  "rb_dispatch cd call now kind channel raw b w =
     (if kind \<noteq> ''message'' then w else case parse_raw cd now channel raw of
        None \<Rightarrow> w
      | Some m \<Rightarrow> deliver call m (dget_or (rb_subs b) (cm_topic m) []) w)"

text \<open>An entry of the stream read back; a missing field is a \<open>KeyError\<close>.\<close>

definition message_of_entry ::
  "codec \<Rightarrow> string \<Rightarrow> string \<Rightarrow> (string, string) dict \<Rightarrow> string + ctx_message" where
  "message_of_entry cd topic tenant e =
     (case dget e ''data'' of None \<Rightarrow> Inl (repr_str ''data'')
      | Some raw \<Rightarrow> (case cd_loads cd raw of Inl x \<Rightarrow> Inl x
      | Inr d \<Rightarrow> (case dget e ''message_type'' of None \<Rightarrow> Inl (repr_str ''message_type'')
      | Some mts \<Rightarrow> (case mt_of mts of None \<Rightarrow> Inl (repr_str mts @ '' is not a valid MessageType'')
      | Some mt \<Rightarrow> (case dget e ''message_id'' of None \<Rightarrow> Inl (repr_str ''message_id'')
      | Some mid \<Rightarrow> (case dget e ''timestamp'' of None \<Rightarrow> Inl (repr_str ''timestamp'')
      | Some tss \<Rightarrow> (case cd_parse_float cd tss of
                       None \<Rightarrow> Inl (''could not convert string to float: '' @ repr_str tss)
      | Some ts \<Rightarrow> Inr (new_message topic mt d tenant 3600 mid ts))))))))"

fun map_sum :: "('a \<Rightarrow> string + 'b) \<Rightarrow> 'a list \<Rightarrow> string + 'b list" where
  "map_sum f [] = Inr []"
| "map_sum f (x # xs) =
     (case f x of Inl e \<Rightarrow> Inl e
      | Inr y \<Rightarrow> (case map_sum f xs of Inl e \<Rightarrow> Inl e | Inr ys \<Rightarrow> Inr (y # ys)))"

definition rb_query ::
  "'w redis_client \<Rightarrow> codec \<Rightarrow> string \<Rightarrow> string \<Rightarrow> int \<Rightarrow> 'w \<Rightarrow> string + ctx_message list" where
  "rb_query rc cd topic tenant limit w =
     (case rc_xrange rc (channel_of tenant topic) limit w of
        Inl e \<Rightarrow> Inl e
      | Inr es \<Rightarrow> map_sum (message_of_entry cd topic tenant) es)"

definition rb_latest ::
  "'w redis_client \<Rightarrow> codec \<Rightarrow> pyfloat \<Rightarrow> string \<Rightarrow> string \<Rightarrow> 'w \<Rightarrow> string + ctx_message option" where
  "rb_latest rc cd now topic tenant w =
     (case rc_get rc (snapshot_key tenant topic) w of
        Inl e \<Rightarrow> Inl e
      | Inr None \<Rightarrow> Inr None
      | Inr (Some s) \<Rightarrow>
          (if s = [] then Inr None
           else case cd_loads cd s of
                  Inl e \<Rightarrow> Inl e
                | Inr d \<Rightarrow> Inr (Some (new_message topic RESULT_PUBLISH d tenant 3600 [] now))))"

text \<open>The process-wide bus, created by the first call.\<close>

datatype 'c any_bus = MemoryBus "'c memory_bus" | RedisBus "'c redis_bus"

definition get_context_bus :: "bool \<Rightarrow> 'c any_bus option \<Rightarrow> 'c any_bus" where
  "get_context_bus has_redis cur =
     (case cur of
        Some b \<Rightarrow> b
      | None \<Rightarrow> (if has_redis then RedisBus new_redis_bus else MemoryBus new_bus))"

section \<open>The logs of the in-memory bus\<close>

lemma append_log_same:
  "cm_topic m = topic \<Longrightarrow>
   dget_or (append_log m d) topic [] = py_last max_log_size (dget_or d topic [] @ [m])"
  by (auto simp: append_log_def Let_def py_last_all)

lemma append_log_other:
  "cm_topic m \<noteq> topic \<Longrightarrow> dget_or (append_log m d) topic [] = dget_or d topic []"
  by (simp add: append_log_def Let_def)

interpretation topic_log: bounded_log append_log "\<lambda>d. dget_or d topic []" "\<lambda>m. cm_topic m = topic"
  max_log_size for topic
  by unfold_locales (simp_all add: append_log_same append_log_other max_log_size_def)

text \<open>What clients do to the bus, and the messages published by a run.\<close>

datatype 'c bus_event =
    BusPublish ctx_message
  | BusSubscribe string 'c
  | BusUnsubscribe string 'c

fun bus_step :: "('c \<Rightarrow> ctx_message \<Rightarrow> 'w \<Rightarrow> 'w) \<Rightarrow> 'c memory_bus \<times> 'w \<Rightarrow> 'c bus_event \<Rightarrow> 'c memory_bus \<times> 'w"
  where
  "bus_step call (b, w) (BusPublish m) = snd (mb_publish call m b w)"
| "bus_step call (b, w) (BusSubscribe t c) = (mb_subscribe t c b, w)"
| "bus_step call (b, w) (BusUnsubscribe t c) = (snd (mb_unsubscribe t c b), w)"

fun published :: "'c bus_event list \<Rightarrow> ctx_message list" where
  "published [] = []"
| "published (BusPublish m # es) = m # published es"
| "published (_ # es) = published es"

lemma mb_log_step:
  "mb_log (fst (bus_step call (b, w) e)) = (case e of BusPublish m \<Rightarrow> append_log m (mb_log b) | _ \<Rightarrow> mb_log b)"
  by (cases e) (simp_all add: mb_publish_def mb_subscribe_def mb_unsubscribe_def Let_def split: option.splits)

lemma mb_log_run:
  "mb_log (fst (run_events (bus_step call) (b, w) es)) = fold append_log (published es) (mb_log b)"
proof (induction es arbitrary: b w)
  case Nil
  then show ?case by simp
next
  case (Cons e es)
  obtain b' w' where bw: "bus_step call (b, w) e = (b', w')" by fastforce
  with mb_log_step [of call b w e]
  have "mb_log b' = (case e of BusPublish m \<Rightarrow> append_log m (mb_log b) | _ \<Rightarrow> mb_log b)" by simp
  with Cons.IH [of b' w'] bw show ?case by (cases e) simp_all
qed

lemma log_of_run:
  "dget_or (mb_log (fst (run_events (bus_step call) (new_bus, w) es))) topic [] =
   py_last max_log_size (filter (\<lambda>m. cm_topic m = topic) (published es))"
  using topic_log.entries_fold_window [where s = "[]" and xs = "published es" and topic = topic]
  by (simp add: mb_log_run new_bus_def dget_or_def py_last_def)

section \<open>Parsing what was printed\<close>

lemma mt_of_value [simp]: "mt_of (mt_value t) = Some t"
  by (cases t) (simp_all add: mt_of_def all_message_types_def)

lemma split_colon_append:
  "CHR '':'' \<notin> set a \<Longrightarrow> split_colon (Suc n) (a @ CHR '':'' # b) = a # split_colon n b"
proof -
  assume "CHR '':'' \<notin> set a"
  then have "dropWhile (\<lambda>c. c \<noteq> CHR '':'') (a @ CHR '':'' # b) = CHR '':'' # b"
    "takeWhile (\<lambda>c. c \<noteq> CHR '':'') (a @ CHR '':'' # b) = a"
    by (auto simp: dropWhile_append takeWhile_append)
  then show ?thesis by simp
qed

lemma split_channel:
  assumes "CHR '':'' \<notin> set tenant"
  shows "split_colon 2 (channel_of tenant topic) = [''contextbus'', tenant, topic]"
proof -
  have "channel_of tenant topic = ''contextbus'' @ CHR '':'' # (tenant @ CHR '':'' # topic)"
    by (simp add: channel_of_def)
  moreover have "split_colon (Suc (Suc 0)) \<dots> = ''contextbus'' # split_colon (Suc 0) (tenant @ CHR '':'' # topic)"
    by (rule split_colon_append) simp
  moreover have "split_colon (Suc 0) (tenant @ CHR '':'' # topic) = [tenant, topic]"
    using split_colon_append [OF assms, of 0 topic] by simp
  ultimately show ?thesis by (simp only: numeral_2_eq_2)
qed

lemmas bus_fields = entry_of_def str_dict_def str_field_def dget_or_def

text \<open>The codec undoes its own printing on the values of one message.\<close>

definition codec_ok :: "codec \<Rightarrow> ctx_message \<Rightarrow> bool" where
  "codec_ok cd m \<longleftrightarrow> cd_loads cd (cd_dumps cd (cm_data m)) = Inr (cm_data m) \<and>
     cd_loads cd (cd_dumps cd (str_dict (entry_of cd m))) = Inr (str_dict (entry_of cd m)) \<and>
     cd_parse_float cd (cd_float cd (cm_timestamp m)) = Some (cm_timestamp m)"

lemma parse_raw_of_publish:
  assumes "codec_ok cd m" and "CHR '':'' \<notin> set (cm_tenant m)"
  shows "parse_raw cd now (channel_of (cm_tenant m) (cm_topic m)) (cd_dumps cd (str_dict (entry_of cd m))) =
    Some (m\<lparr>cm_ttl := 3600, cm_reply_to := []\<rparr>)"
  using assms(1) unfolding parse_raw_def split_channel [OF assms(2)]
  by (simp add: codec_ok_def bus_fields new_message_def)

section \<open>Properties\<close>

text \<open>C37: whatever clients did to a fresh bus, a query returns the last \<open>limit\<close> of the tenant's
  messages among the last thousand messages published to the topic, oldest first.\<close>

theorem bus_query_window:
  "mb_query topic tenant limit (fst (run_events (bus_step call) (new_bus, w) es)) =
   py_last limit (filter (\<lambda>m. cm_tenant m = tenant)
     (py_last 1000 (filter (\<lambda>m. cm_topic m = topic) (published es))))"
  using log_of_run [of call w es topic] by (simp add: mb_query_def max_log_size_def)

lemma bus_query_member:
  "m \<in> set (mb_query topic tenant limit (fst (run_events (bus_step call) (new_bus, w) es))) \<Longrightarrow>
   cm_tenant m = tenant \<and> cm_topic m = topic \<and> m \<in> set (published es)"
  unfolding mb_query_def log_of_run
  by (drule in_py_last, simp only: set_filter mem_Collect_eq, elim conjE, drule in_py_last, simp)

text \<open>The log of a topic is shared by all tenants: a thousand messages of other tenants on the
  topic leave nothing of a tenant's own messages to be found, whatever it published before.\<close>

theorem noisy_tenant_evicts_others:
  assumes "length ms = 1000" and "set ms \<subseteq> {m. cm_topic m = topic \<and> cm_tenant m \<noteq> tenant}"
  shows "mb_query topic tenant limit
    (fst (run_events (bus_step call) (new_bus, w) (es @ map BusPublish ms))) = []"
proof -
  have pub: "published (es @ map BusPublish ms) = published es @ ms"
  proof (induction es)
    case Nil
    show ?case by (induction ms) simp_all
  next
    case (Cons e es)
    then show ?case by (cases e) simp_all
  qed
  have "filter (\<lambda>m. cm_topic m = topic) ms = ms" using assms(2) by (auto simp: filter_id_conv)
  then have "dget_or (mb_log (fst (run_events (bus_step call) (new_bus, w) (es @ map BusPublish ms)))) topic [] = ms"
    unfolding log_of_run pub filter_append using assms(1)
    by (simp add: py_last_snoc max_log_size_def)
  moreover have "filter (\<lambda>m. cm_tenant m = tenant) ms = []"
    using assms(2) by (auto simp: filter_empty_conv)
  ultimately show ?thesis by (simp add: mb_query_def py_last_def)
qed

definition sample_message :: "string \<Rightarrow> ctx_message" where
  "sample_message tenant = new_message ''t'' EVENT (PInt 1) tenant 60 ''i'' 5"

theorem noisy_tenant_evicts_others_witness:
  "mb_query ''t'' ''a'' 10 (fst (run_events (bus_step (\<lambda>c m w. w)) (new_bus :: unit memory_bus, ())
     ([BusPublish (sample_message ''a'')] @ map BusPublish (replicate 1000 (sample_message ''b''))))) = []"
  by (rule noisy_tenant_evicts_others) (auto simp: sample_message_def new_message_def)

text \<open>A message published to Redis arrives over the channel with the topic, type, data, tenant,
  identifier and time stamp it was sent with, when the tenant's name has no colon; its time to live
  is lost, the receiver sees the default.\<close>

theorem redis_message_roundtrip:
  assumes "codec_ok cd m" and "CHR '':'' \<notin> set (cm_tenant m)"
  shows "rb_dispatch cd call now ''message'' (channel_of (cm_tenant m) (cm_topic m))
      (cd_dumps cd (str_dict (entry_of cd m))) b w =
    deliver call (m\<lparr>cm_ttl := 3600, cm_reply_to := []\<rparr>) (dget_or (rb_subs b) (cm_topic m) []) w"
  by (simp add: rb_dispatch_def parse_raw_of_publish [OF assms])

definition sample_codec :: codec where
  "sample_codec = \<lparr>cd_dumps = (\<lambda>v. if v = PInt 1 then ''1'' else ''entry''),
     cd_loads = (\<lambda>s. if s = ''1'' then Inr (PInt 1)
        else Inr (PDict [(''message_id'', PStr ''i''), (''message_type'', PStr ''event''),
          (''timestamp'', PStr ''5.0''), (''data'', PStr ''1''), (''ttl'', PStr ''60'')])),
     cd_float = (\<lambda>_. ''5.0''), cd_parse_float = (\<lambda>_. Some 5)\<rparr>"

theorem redis_message_roundtrip_witness:
  "rb_dispatch sample_codec (\<lambda>c m w. (c, cm_tenant m, cm_ttl m) # w) 9 ''message''
     (channel_of ''acme'' ''t'')
     (cd_dumps sample_codec (str_dict (entry_of sample_codec (sample_message ''acme''))))
     \<lparr>rb_subs = [(''t'', [''s1'', ''s2''])], rb_channels = {}, rb_started = True\<rparr> [] =
   [(''s2'', ''acme'', 3600), (''s1'', ''acme'', 3600)]"
proof -
  have ok: "codec_ok sample_codec (sample_message ''acme'')"
    unfolding codec_ok_def by code_simp
  show ?thesis
    using redis_message_roundtrip [where call = "\<lambda>c m w. (c, cm_tenant m, cm_ttl m) # w" and now = 9
      and b = "\<lparr>rb_subs = [(''t'', [''s1'', ''s2''])], rb_channels = {}, rb_started = True\<rparr>"
      and w = "[]", OF ok]
    by (simp add: sample_message_def new_message_def deliver_def dget_or_def)
qed

text \<open>With a colon in the tenant's name the channel is cut in the wrong place: subscribers of
  the topic are not called.\<close>

theorem colon_tenant_message_misrouted:
  "split_colon 2 (channel_of ''a:b'' ''t'') = [''contextbus'', ''a'', ''b:t''] \<and>
   rb_dispatch cd call now kind (channel_of ''a:b'' ''t'') raw
     \<lparr>rb_subs = [(''t'', cs)], rb_channels = ch, rb_started = s\<rparr> w = w"
proof -
  have split: "split_colon 2 (channel_of ''a:b'' ''t'') = [''contextbus'', ''a'', ''b:t'']"
    by code_simp
  have "cm_topic m = ''b:t''" if "parse_raw cd now (channel_of ''a:b'' ''t'') raw = Some m" for m
    using that unfolding parse_raw_def split
    by (auto simp: new_message_def split: sum.splits pyval.splits option.splits)
  then show ?thesis
    by (auto simp: split rb_dispatch_def dget_or_def deliver_def split: option.splits)
qed

end
