(* ===== verification/Capabilities.thy ===== *)
theory Capabilities
  imports Prelude
begin

text \<open>
  The capabilities registry of \<^verbatim>\<open>app/core/capabilities.py\<close>: registration under a tenant prefix,
  lookup with the fallback to global capabilities, scored search, the call statistics, and the
  breadth-first resolution of composite capabilities. An executor is a value \<open>'e\<close>. Descriptions
  and queries are strings of one-byte characters: words are the maximal runs of letters and digits.
\<close>

section \<open>Capabilities\<close>

datatype workstation_type = DIALOGUE | AGENT | WORKFLOW | SKILL | KNOWLEDGE | PLUGIN

fun ws_value :: "workstation_type \<Rightarrow> string" where
  "ws_value DIALOGUE = ''dialogue''"
| "ws_value AGENT = ''agent''"
| "ws_value WORKFLOW = ''workflow''"
| "ws_value SKILL = ''skill''"
| "ws_value KNOWLEDGE = ''knowledge''"
| "ws_value PLUGIN = ''plugin''"

definition ws_of :: "string \<Rightarrow> workstation_type option" where
  "ws_of s = find (\<lambda>t. ws_value t = s) [DIALOGUE, AGENT, WORKFLOW, SKILL, KNOWLEDGE, PLUGIN]"

datatype capability_type = TOOL | SERVICE | TEMPLATE | COMPOSITE

record capability_param =
  cp_name :: string
  cp_type :: string
  cp_description :: string
  cp_required :: bool

record 'e capability =
  cap_id :: string
  cap_name :: string
  cap_description :: string
  cap_workstation :: workstation_type
  cap_type :: capability_type
  cap_input :: "capability_param list"
  cap_version :: string
  cap_tags :: "string list"
  cap_status :: string
  cap_tenant :: string
  cap_avg_latency :: int
  cap_executor :: "'e option"
  cap_subs :: "string list"
  cap_calls :: int
  cap_total_ms :: int
  cap_successes :: int
  cap_failures :: int

definition avg_duration_ms :: "'e capability \<Rightarrow> int" where
  "avg_duration_ms c =
     (if cap_calls c = 0 then cap_avg_latency c else cap_total_ms c div max (cap_calls c) 1)"

definition success_rate :: "'e capability \<Rightarrow> pyfloat" where
  "success_rate c =
     (if cap_calls c = 0 then 1 else of_int (cap_successes c) / of_int (max (cap_calls c) 1))"

definition record_call :: "int \<Rightarrow> bool \<Rightarrow> 'e capability \<Rightarrow> 'e capability" where
  "record_call ms ok c =
     (let c1 = c\<lparr>cap_calls := cap_calls c + 1, cap_total_ms := cap_total_ms c + ms\<rparr>;
          c2 = (if ok then c1\<lparr>cap_successes := cap_successes c1 + 1\<rparr>
                else c1\<lparr>cap_failures := cap_failures c1 + 1\<rparr>)
      in c2\<lparr>cap_avg_latency := cap_total_ms c2 div max (cap_calls c2) 1\<rparr>)"

section \<open>The registry\<close>

record 'e cap_registry =
  rg_caps :: "(string, 'e capability) dict"
  rg_tags :: "(string, string list) dict"
  rg_words :: "(string \<times> string) list"

definition new_registry :: "'e cap_registry" where
  "new_registry = \<lparr>rg_caps = [], rg_tags = [], rg_words = []\<rparr>"

definition is_alnum :: "char \<Rightarrow> bool" where
  "is_alnum c \<longleftrightarrow> (let n = (of_char c :: nat)
     in 48 \<le> n \<and> n \<le> 57 \<or> 65 \<le> n \<and> n \<le> 90 \<or> 97 \<le> n \<and> n \<le> 122)"

fun word_runs :: "string \<Rightarrow> string \<Rightarrow> string list" where
  "word_runs acc [] = (if acc = [] then [] else [rev acc])"
| "word_runs acc (c # cs) =
     (if is_alnum c then word_runs (c # acc) cs
      else if acc = [] then word_runs [] cs else rev acc # word_runs [] cs)"

definition tokenize :: "string \<Rightarrow> string list" where
  "tokenize text = filter (\<lambda>w. length w > 1) (word_runs [] (lower text))"

definition full_id :: "string \<Rightarrow> string \<Rightarrow> string" where
  "full_id tenant cid = (if tenant \<noteq> [] then tenant @ '':'' @ cid else cid)"

text \<open>An update keeps the executor of the capability it replaces.\<close>

definition cap_register :: "'e capability \<Rightarrow> 'e cap_registry \<Rightarrow> 'e cap_registry" where
  "cap_register c rg =
     (let fid = full_id (cap_tenant c) (cap_id c);
          c' = (case dget (rg_caps rg) fid of
                  Some old \<Rightarrow> c\<lparr>cap_executor := cap_executor old\<rparr> | None \<Rightarrow> c);
          tags = foldl (\<lambda>d t. dset t (dget_or d t [] @ [fid]) d) (rg_tags rg) (cap_tags c);
          ws = tokenize (cap_description c @ '' '' @ py_join '' '' (cap_tags c))
      in \<lparr>rg_caps = dset fid c' (rg_caps rg), rg_tags = tags,
          rg_words = rg_words rg @ map (\<lambda>w. (w, fid)) ws\<rparr>)"

definition cap_unregister :: "string \<Rightarrow> string \<Rightarrow> 'e cap_registry \<Rightarrow> bool \<times> 'e cap_registry" where
  "cap_unregister cid tenant rg =
     (let fid = full_id tenant cid
      in if dget (rg_caps rg) fid \<noteq> None then (True, rg\<lparr>rg_caps := ddel fid (rg_caps rg)\<rparr>)
         else (False, rg))"

definition get_by_id :: "'e cap_registry \<Rightarrow> string \<Rightarrow> string \<Rightarrow> 'e capability option" where
  "get_by_id rg cid tenant =
     (case (if tenant \<noteq> [] then dget (rg_caps rg) (tenant @ '':'' @ cid) else None) of
        Some c \<Rightarrow> Some c
      | None \<Rightarrow> dget (rg_caps rg) cid)"

definition cap_visible :: "string \<Rightarrow> 'e capability \<Rightarrow> bool" where
  "cap_visible tenant c \<longleftrightarrow> \<not> (tenant \<noteq> [] \<and> cap_tenant c \<notin> {[], tenant})"

definition list_by_workstation ::
  "'e cap_registry \<Rightarrow> workstation_type \<Rightarrow> string \<Rightarrow> string option \<Rightarrow> 'e capability list" where
  "list_by_workstation rg ws tenant status =
     filter (\<lambda>c. cap_workstation c = ws \<and> cap_visible tenant c \<and>
         \<not> ((case status of None \<Rightarrow> False | Some s \<Rightarrow> s \<noteq> []) \<and> Some (cap_status c) \<noteq> status))
       (map snd (rg_caps rg))"

definition cap_score :: "string \<Rightarrow> 'e capability \<Rightarrow> int" where
  "cap_score query c =
     (let ws = tokenize query
      in (if has_sub (lower query) (lower (cap_id c)) then 10 else 0)
         + 5 * int (length (filter (\<lambda>t. t \<in> set ws) (cap_tags c)))
         + 3 * int (length (filter (\<lambda>w. has_sub w (lower (cap_description c))) ws))
         + 7 * int (length (filter (\<lambda>w. has_sub w (lower (cap_name c))) ws)))"

text \<open>\<open>sorted(\<dots>, reverse=True)\<close> keeps the order of equal scores.\<close>

definition ranked_caps ::
  "'e cap_registry \<Rightarrow> string \<Rightarrow> string \<Rightarrow> workstation_type option \<Rightarrow> capability_type option \<Rightarrow>
   'e capability list" where
  "ranked_caps rg query tenant ws ct =
     sort_key (\<lambda>c. - cap_score query c)
       (filter (\<lambda>c. cap_visible tenant c \<and> (ws = None \<or> Some (cap_workstation c) = ws) \<and>
           (ct = None \<or> Some (cap_type c) = ct) \<and> 0 < cap_score query c)
         (map snd (rg_caps rg)))"

definition cap_search ::
  "'e cap_registry \<Rightarrow> string \<Rightarrow> string \<Rightarrow> workstation_type option \<Rightarrow> capability_type option \<Rightarrow> int \<Rightarrow>
   'e capability list" where
  "cap_search rg query tenant ws ct limit = py_take limit (ranked_caps rg query tenant ws ct)"

definition find_best_match ::
  "'e cap_registry \<Rightarrow> string \<Rightarrow> string \<Rightarrow> workstation_type list \<Rightarrow> 'e capability option" where
  "find_best_match rg intent tenant available =
     (case cap_search rg intent tenant None None 5 of
        [] \<Rightarrow> None
      | best # rest \<Rightarrow>
          (case find (\<lambda>c. cap_workstation c \<in> set available) (best # rest) of
             Some c \<Rightarrow> Some c | None \<Rightarrow> Some best))"

section \<open>Composite capabilities\<close>

definition sub_ids :: "'e cap_registry \<Rightarrow> string list" where
  "sub_ids rg = concat (map (\<lambda>(k, c). cap_subs c) (rg_caps rg))"

lemma get_by_id_mem: "get_by_id rg s tenant = Some c \<Longrightarrow> c \<in> snd ` set (rg_caps rg)"
  by (auto simp: get_by_id_def dest: dget_value split: option.splits if_splits simp del: set_map)

lemma get_by_id_subs: "get_by_id rg s tenant = Some c \<Longrightarrow> set (cap_subs c) \<subseteq> set (sub_ids rg)"
  using get_by_id_mem [of rg s tenant c] by (auto simp: sub_ids_def)

text \<open>
  The breadth-first walk over sub-capabilities: the queue and the visited identifiers. It ends
  because every identifier taken off the queue for the first time comes from the initial queue or
  from one of the finitely many registered capabilities.
\<close>

function bfs_caps :: "'e cap_registry \<Rightarrow> string \<Rightarrow> string list \<Rightarrow> string list \<Rightarrow> 'e capability list" where
  "bfs_caps rg tenant [] visited = []"
| "bfs_caps rg tenant (s # queue) visited =
     (if s \<in> set visited then bfs_caps rg tenant queue visited
      else case get_by_id rg s tenant of
             None \<Rightarrow> bfs_caps rg tenant queue (s # visited)
           | Some c \<Rightarrow> c # bfs_caps rg tenant (queue @ cap_subs c) (s # visited))"
  by pat_completeness auto

termination
proof (relation "inv_image (less_than <*lex*> less_than)
    (\<lambda>(rg, t, q, v). (card ((set q \<union> set (sub_ids rg)) - set v), length q))", goal_cases)
  case 1
  then show ?case by auto
next
  case (2 rg tenant s queue visited)
  have "card ((set queue \<union> set (sub_ids rg)) - set visited)
      \<le> card ((set (s # queue) \<union> set (sub_ids rg)) - set visited)"
    by (intro card_mono) auto
  then show ?case by auto
next
  case (3 rg tenant s queue visited)
  have "card ((set queue \<union> set (sub_ids rg)) - set (s # visited))
      < card ((set (s # queue) \<union> set (sub_ids rg)) - set visited)"
    using 3 by (intro psubset_card_mono) auto
  then show ?case by simp
next
  case (4 rg tenant s queue visited c)
  have "card ((set (queue @ cap_subs c) \<union> set (sub_ids rg)) - set (s # visited))
      < card ((set (s # queue) \<union> set (sub_ids rg)) - set visited)"
    using 4 get_by_id_subs [of rg s tenant c] by (intro psubset_card_mono) auto
  then show ?case by simp
qed

definition resolve_dependencies :: "'e cap_registry \<Rightarrow> string \<Rightarrow> string \<Rightarrow> 'e capability list" where
  "resolve_dependencies rg cid tenant =
     (case get_by_id rg cid tenant of
        None \<Rightarrow> []
      | Some c \<Rightarrow> (if cap_type c \<noteq> COMPOSITE then [c] else bfs_caps rg tenant (cap_subs c) []))"

section \<open>The walk visits what is reachable\<close>

definition sub_edge :: "'e cap_registry \<Rightarrow> string \<Rightarrow> (string \<times> string) set" where
  "sub_edge rg tenant = {(s, s'). \<exists>c. get_by_id rg s tenant = Some c \<and> s' \<in> set (cap_subs c)}"

lemma bfs_caps_correct:
  "sub_edge rg tenant `` set visited \<subseteq> set visited \<union> set queue \<Longrightarrow>
   set (bfs_caps rg tenant queue visited) =
     {c. \<exists>s. s \<in> (sub_edge rg tenant)\<^sup>* `` (set queue \<union> set visited) \<and> s \<notin> set visited \<and>
        get_by_id rg s tenant = Some c}"
proof (induction rg tenant queue visited rule: bfs_caps.induct)
  case (1 rg tenant visited)
  then have "(sub_edge rg tenant)\<^sup>* `` set visited = set visited" by (intro Image_closed_trancl) simp
  then show ?case by auto
next
  case (2 rg tenant s queue visited)
  let ?E = "sub_edge rg tenant"
  show ?case
  proof (cases "s \<in> set visited")
    case True
    with 2 show ?thesis by (simp add: insert_absorb)
  next
    case False
    show ?thesis
    proof (cases "get_by_id rg s tenant")
      case None
      have "?E `` set (s # visited) \<subseteq> set (s # visited) \<union> set queue"
        using 2(4) None by (auto simp: sub_edge_def)
      from 2(2) [OF False None this] show ?thesis using False None by auto
    next
      case (Some c)
      have closed: "?E `` set (s # visited) \<subseteq> set (s # visited) \<union> set (queue @ cap_subs c)"
        using 2(4) Some by (auto simp: sub_edge_def)
      have "set (cap_subs c) \<subseteq> ?E\<^sup>* `` {s}" using Some by (auto simp: sub_edge_def)
      then have "?E\<^sup>* `` set (cap_subs c) \<subseteq> ?E\<^sup>* `` {s}"
        by (meson Image_mono ImageE ImageI rtrancl_trans subsetD subsetI)
      then have same: "?E\<^sup>* `` (set (queue @ cap_subs c) \<union> set (s # visited)) =
          ?E\<^sup>* `` (set (s # queue) \<union> set visited)" by auto
      have "s \<in> ?E\<^sup>* `` (set (s # queue) \<union> set visited)" by auto
      then show ?thesis
        using 2(3) [OF False Some closed] False Some unfolding same by auto
    qed
  qed
qed

lemma resolve_composite:
  assumes "get_by_id rg cid tenant = Some c" and "cap_type c = COMPOSITE"
  shows "set (resolve_dependencies rg cid tenant) =
    {d. \<exists>s. (cid, s) \<in> (sub_edge rg tenant)\<^sup>+ \<and> get_by_id rg s tenant = Some d}"
proof -
  have "(sub_edge rg tenant)\<^sup>* `` set (cap_subs c) = {s. (cid, s) \<in> (sub_edge rg tenant)\<^sup>+}"
    using assms(1) by (auto simp: sub_edge_def trancl_unfold_left relcomp_def)
  then show ?thesis
    using assms bfs_caps_correct [of rg tenant "[]" "cap_subs c"]
    by (simp add: resolve_dependencies_def)
qed

section \<open>Search\<close>

definition search_candidates ::
  "'e cap_registry \<Rightarrow> string \<Rightarrow> string \<Rightarrow> 'e capability set" where
  "search_candidates rg query tenant =
     {c \<in> snd ` set (rg_caps rg). (tenant = [] \<or> cap_tenant c = [] \<or> cap_tenant c = tenant) \<and>
        0 < cap_score query c}"

lemma py_take_nonneg: "0 \<le> n \<Longrightarrow> py_take n xs = take (nat n) xs"
  by (simp add: py_take_def)

lemma take_sorted_top:
  assumes "sorted (map f xs)" and "x \<in> set (take n xs)" and "y \<in> set xs" and "y \<notin> set (take n xs)"
  shows "f x \<le> f y"
proof -
  have "y \<in> set (drop n xs)"
    using assms(3,4) by (metis Un_iff append_take_drop_id set_append)
  moreover have "sorted (map f (take n xs) @ map f (drop n xs))"
    using assms(1) by (metis append_take_drop_id map_append)
  ultimately show ?thesis using assms(2) by (auto simp: sorted_append)
qed

lemma set_ranked_caps:
  "set (ranked_caps rg query tenant None None) = search_candidates rg query tenant"
  unfolding ranked_caps_def search_candidates_def cap_visible_def by auto

lemma sorted_ranked_caps: "sorted (map (\<lambda>c. - cap_score query c) (ranked_caps rg query tenant ws ct))"
  unfolding ranked_caps_def by (rule sorted_sort_key)

section \<open>Properties\<close>

text \<open>A search returns visible capabilities with a positive score, best first, and no candidate
  left out by the limit scores higher than one returned.\<close>

theorem search_returns_best_visible:
  assumes "0 \<le> limit"
  shows "(let rs = cap_search rg query tenant None None limit
     in sorted (map (\<lambda>c. - cap_score query c) rs) \<and> length rs \<le> nat limit \<and>
        set rs \<subseteq> search_candidates rg query tenant \<and>
        (\<forall>c d. c \<in> set rs \<longrightarrow> d \<in> search_candidates rg query tenant - set rs \<longrightarrow>
           cap_score query d \<le> cap_score query c))"
proof -
  let ?f = "\<lambda>c. - cap_score query c" and ?xs = "ranked_caps rg query tenant None None"
  have rs: "cap_search rg query tenant None None limit = take (nat limit) ?xs"
    unfolding cap_search_def by (rule py_take_nonneg [OF assms])
  have "sorted (map ?f (take (nat limit) ?xs))"
    using sorted_wrt_take [OF sorted_ranked_caps, of "nat limit"] by (simp add: take_map)
  moreover have "cap_score query d \<le> cap_score query c"
    if "c \<in> set (take (nat limit) ?xs)" "d \<in> set ?xs - set (take (nat limit) ?xs)" for c d
    using take_sorted_top [OF sorted_ranked_caps that(1), of d] that(2) by simp
  moreover have "set (take (nat limit) ?xs) \<subseteq> set ?xs" by (rule set_take_subset)
  ultimately show ?thesis
    unfolding rs Let_def set_ranked_caps [symmetric] by (auto simp del: set_take_subset)
qed

definition sample_capability :: "string \<Rightarrow> string \<Rightarrow> nat capability" where
  "sample_capability tenant cid = \<lparr>cap_id = cid, cap_name = cid, cap_description = ''demo'',
     cap_workstation = SKILL, cap_type = TOOL, cap_input = [], cap_version = ''1.0.0'', cap_tags = [],
     cap_status = ''active'', cap_tenant = tenant, cap_avg_latency = 0, cap_executor = None,
     cap_subs = [], cap_calls = 0, cap_total_ms = 0, cap_successes = 0, cap_failures = 0\<rparr>"

definition sample_registry :: "nat cap_registry" where
  "sample_registry = foldl (\<lambda>rg c. cap_register c rg) new_registry
     [sample_capability [] ''read'', sample_capability ''acme'' ''read'', sample_capability ''evil'' ''read'']"

theorem search_returns_best_visible_witness:
  "set (cap_search sample_registry ''read'' ''acme'' None None 5) \<subseteq>
     search_candidates sample_registry ''read'' ''acme'' \<and>
   map cap_tenant (cap_search sample_registry ''read'' ''acme'' None None 5) = [[], ''acme'']"
proof
  have five: "0 \<le> (5 :: int)" by simp
  show "set (cap_search sample_registry ''read'' ''acme'' None None 5) \<subseteq>
     search_candidates sample_registry ''read'' ''acme''"
    using search_returns_best_visible [OF five] unfolding Let_def by blast
  show "map cap_tenant (cap_search sample_registry ''read'' ''acme'' None None 5) = [[], ''acme'']"
    by code_simp
qed

text \<open>Resolving a composite capability returns exactly the registered capabilities that its
  sub-capabilities lead to, also when they refer to each other in a circle.\<close>

theorem resolve_dependencies_reachable:
  assumes "get_by_id rg cid tenant = Some c" and "cap_type c = COMPOSITE"
  shows "set (resolve_dependencies rg cid tenant) =
    {d. \<exists>s. (cid, s) \<in> {(a, b). \<exists>e. get_by_id rg a tenant = Some e \<and> b \<in> set (cap_subs e)}\<^sup>+ \<and>
        get_by_id rg s tenant = Some d}"
  using resolve_composite [OF assms] by (simp only: sub_edge_def)

definition circle_registry :: "nat cap_registry" where
  "circle_registry = foldl (\<lambda>rg c. cap_register c rg) new_registry
     [(sample_capability [] ''a'')\<lparr>cap_type := COMPOSITE, cap_subs := [''b'', ''x'']\<rparr>,
      (sample_capability [] ''b'')\<lparr>cap_subs := [''a'']\<rparr>]"

theorem resolve_dependencies_reachable_witness:
  "set (resolve_dependencies circle_registry ''a'' []) =
    {d. \<exists>s. (''a'', s) \<in> {(a, b). \<exists>e. get_by_id circle_registry a [] = Some e \<and> b \<in> set (cap_subs e)}\<^sup>+ \<and>
        get_by_id circle_registry s [] = Some d} \<and>
   map cap_id (resolve_dependencies circle_registry ''a'' []) = [''b'', ''a'']"
proof
  have "get_by_id circle_registry ''a'' [] =
      Some ((sample_capability [] ''a'')\<lparr>cap_type := COMPOSITE, cap_subs := [''b'', ''x'']\<rparr>)"
    by code_simp
  from resolve_dependencies_reachable [OF this]
  show "set (resolve_dependencies circle_registry ''a'' []) =
    {d. \<exists>s. (''a'', s) \<in> {(a, b). \<exists>e. get_by_id circle_registry a [] = Some e \<and> b \<in> set (cap_subs e)}\<^sup>+ \<and>
        get_by_id circle_registry s [] = Some d}" by simp
  show "map cap_id (resolve_dependencies circle_registry ''a'' []) = [''b'', ''a'']"
    by code_simp
qed

text \<open>A tenant that asks for \<open><other>:<id>\<close> is given the private capability of the other tenant:
  the fallback to global capabilities looks the prefixed key up as it is.\<close>

theorem get_by_id_leaks_private_capability:
  assumes "cap_tenant c \<noteq> []" and "tenant \<noteq> []"
    and "dget (rg_caps rg) (tenant @ '':'' @ cap_tenant c @ '':'' @ cap_id c) = None"
  shows "\<exists>d. get_by_id (cap_register c rg) (cap_tenant c @ '':'' @ cap_id c) tenant = Some d \<and>
    cap_tenant d = cap_tenant c \<and> cap_id d = cap_id c"
proof -
  have ne: "tenant @ '':'' @ cap_tenant c @ '':'' @ cap_id c \<noteq> cap_tenant c @ '':'' @ cap_id c"
    using arg_cong [where f = length] by fastforce
  then show ?thesis
    using assms by (auto simp: get_by_id_def cap_register_def full_id_def Let_def split: option.splits)
qed

theorem get_by_id_leaks_private_capability_witness:
  "\<exists>d. get_by_id (cap_register (sample_capability ''acme'' ''key'') new_registry) ''acme:key'' ''evil'' = Some d \<and>
    cap_tenant d = ''acme'' \<and> cap_id d = ''key''"
  using get_by_id_leaks_private_capability [of "sample_capability ''acme'' ''key''" "''evil''" new_registry]
  by (simp add: sample_capability_def new_registry_def)

definition record_calls :: "(int \<times> bool) list \<Rightarrow> 'e capability \<Rightarrow> 'e capability" where
  "record_calls cs c = foldl (\<lambda>c (ms, ok). record_call ms ok c) c cs"

lemma record_calls_counts:
  "cap_calls (record_calls cs c) = cap_calls c + int (length cs) \<and>
   cap_successes (record_calls cs c) = cap_successes c + int (length (filter snd cs)) \<and>
   cap_failures (record_calls cs c) = cap_failures c + int (length (filter (\<lambda>x. \<not> snd x) cs)) \<and>
   cap_total_ms (record_calls cs c) = cap_total_ms c + sum_list (map fst cs) \<and>
   (cs \<noteq> [] \<longrightarrow> cap_avg_latency (record_calls cs c) =
      cap_total_ms (record_calls cs c) div max (cap_calls (record_calls cs c)) 1)"
proof (induction cs rule: rev_induct)
  case Nil
  then show ?case by (simp add: record_calls_def)
next
  case (snoc x cs)
  obtain ms ok where x: "x = (ms, ok)" by fastforce
  have "record_calls (cs @ [x]) c = record_call ms ok (record_calls cs c)"
    by (simp add: record_calls_def x)
  with snoc x show ?case by (simp add: record_call_def Let_def)
qed

text \<open>After any calls of a new capability the successes and failures add up to the number of
  calls, the success rate is the share of successes and lies between zero and one, and the latency
  is the mean duration rounded down.\<close>

theorem capability_statistics:
  assumes "cap_calls c = 0" and "cap_successes c = 0" and "cap_failures c = 0" and "cap_total_ms c = 0"
    and "cs \<noteq> []"
  shows "(let d = record_calls cs c
     in cap_successes d + cap_failures d = int (length cs) \<and> cap_calls d = int (length cs) \<and>
        success_rate d = of_nat (length (filter snd cs)) / of_nat (length cs) \<and>
        0 \<le> success_rate d \<and> success_rate d \<le> 1 \<and>
        cap_avg_latency d = sum_list (map fst cs) div int (length cs) \<and>
        avg_duration_ms d = cap_avg_latency d)"
proof -
  note counts = record_calls_counts [of cs c]
  have len: "length (filter snd cs) + length (filter (\<lambda>x. \<not> snd x) cs) = length cs"
    by (rule sum_length_filter_compl)
  have pos: "0 < length cs" using assms(5) by simp
  then have max: "max (int (length cs)) 1 = int (length cs)" by linarith
  have rate: "success_rate (record_calls cs c) = of_nat (length (filter snd cs)) / of_nat (length cs)"
    using counts assms pos by (simp add: success_rate_def max)
  have "(of_nat (length (filter snd cs)) :: rat) \<le> of_nat (length cs)"
    by (simp add: of_nat_mono)
  then have "success_rate (record_calls cs c) \<le> 1" "0 \<le> success_rate (record_calls cs c)"
    unfolding rate using pos by (simp_all add: divide_le_eq)
  then show ?thesis
    using counts assms len pos rate by (simp add: Let_def max avg_duration_ms_def)
qed

theorem capability_statistics_witness:
  "success_rate (record_calls [(10, True), (5, False)] (sample_capability [] ''a'')) = 1 / 2"
  using capability_statistics [of "sample_capability [] ''a''" "[(10, True), (5, False)]"]
  by (simp add: Let_def sample_capability_def)

end
