(* ===== verification/Layering.thy ===== *)
theory Layering
  imports Prelude "HOL-Library.Multiset"
begin

text \<open>
  Execution in rounds, shared by the task router (\<^verbatim>\<open>_group_by_dependencies\<close>) and the collaboration
  hub (\<^verbatim>\<open>_topological_waves\<close>): each round takes the items that are not done and whose dependencies
  are all done, until as many keys are done as there are items. A round without such an item is
  stuck; what happens then differs between the two callers.
\<close>

definition ready_items :: "('a \<Rightarrow> 'k) \<Rightarrow> ('a \<Rightarrow> 'k set) \<Rightarrow> 'a list \<Rightarrow> 'k set \<Rightarrow> 'a list" where
  "ready_items key deps items done = filter (\<lambda>t. key t \<notin> done \<and> deps t \<subseteq> done) items"

text \<open>The rounds, whether the loop got stuck, and the keys done.\<close>

function rounds ::
  "('a \<Rightarrow> 'k) \<Rightarrow> ('a \<Rightarrow> 'k set) \<Rightarrow> 'a list \<Rightarrow> 'k set \<Rightarrow> 'a list list \<times> bool \<times> 'k set" where
  "rounds key deps items done =
     (if card done < length items then
        (let ready = ready_items key deps items done
         in if ready = [] then ([], True, done)
            else case rounds key deps items (done \<union> key ` set ready) of
                   (ls, stuck, d) \<Rightarrow> (ready # ls, stuck, d))
      else ([], False, done))"
  by pat_completeness auto
termination
proof (relation "measure (\<lambda>(key, deps, items, done). card (key ` set items - done))", goal_cases)
  case 1
  then show ?case by simp
next
  case (2 key deps items "done" ready)
  then obtain t where t: "t \<in> set ready" by (meson last_in_set)
  with 2(2) have "key t \<in> key ` set items - done" "key t \<in> key ` set ready"
    by (auto simp: ready_items_def)
  then have "key ` set items - (done \<union> key ` set ready) \<subset> key ` set items - done" by blast
  then show ?case by (simp add: psubset_card_mono)
qed

declare rounds.simps [simp del]

lemma ready_itemsD:
  "t \<in> set (ready_items key deps items done) \<Longrightarrow> t \<in> set items \<and> key t \<notin> done \<and> deps t \<subseteq> done"
  by (simp add: ready_items_def)

lemma rounds_step:
  assumes "card done < length items" and "ready_items key deps items done \<noteq> []"
    and "rounds key deps items (done \<union> key ` set (ready_items key deps items done)) = (ls, stuck, d)"
  shows "rounds key deps items done = (ready_items key deps items done # ls, stuck, d)"
  using assms by (subst rounds.simps) simp

lemma rounds_stuck:
  "card done < length items \<Longrightarrow> ready_items key deps items done = [] \<Longrightarrow>
   rounds key deps items done = ([], True, done)"
  by (subst rounds.simps) simp

lemma rounds_end: "\<not> card done < length items \<Longrightarrow> rounds key deps items done = ([], False, done)"
  by (subst rounds.simps) simp

text \<open>Computation induction in the form the proofs below use.\<close>

lemma rounds_induct [case_names End Stuck Step]:
  assumes "\<And>done. \<not> card done < length items \<Longrightarrow> P done ([], False, done)"
    and "\<And>done. card done < length items \<Longrightarrow> ready_items key deps items done = [] \<Longrightarrow>
      P done ([], True, done)"
    and "\<And>done ls stuck d. card done < length items \<Longrightarrow> ready_items key deps items done \<noteq> [] \<Longrightarrow>
      P (done \<union> key ` set (ready_items key deps items done)) (ls, stuck, d) \<Longrightarrow>
      P done (ready_items key deps items done # ls, stuck, d)"
  shows "P done (rounds key deps items done)"
proof (induction key deps items "done" rule: rounds.induct [where P = "\<lambda>k dp i dn.
    k = key \<longrightarrow> dp = deps \<longrightarrow> i = items \<longrightarrow> P dn (rounds k dp i dn)", rule_format])
  case (1 k dp i dn)
  show ?case
  proof (cases "card dn < length items")
    case False
    with 1 show ?thesis using assms(1) by (simp add: rounds_end)
  next
    case card: True
    show ?thesis
    proof (cases "ready_items key deps items dn = []")
      case True
      with 1 card show ?thesis using assms(2) by (simp add: rounds_stuck)
    next
      case False
      obtain ls st d where r: "rounds key deps items (dn \<union> key ` set (ready_items key deps items dn)) = (ls, st, d)"
        by (metis surj_pair)
      with 1 card False have "P (dn \<union> key ` set (ready_items key deps items dn)) (ls, st, d)" by simp
      with assms(3) [OF card False this] rounds_step [OF card False r] 1 show ?thesis by simp
    qed
  qed
qed simp_all

section \<open>Order\<close>

text \<open>In every round the dependencies of an item are keys done before or items of earlier rounds.\<close>

definition layered :: "('a \<Rightarrow> 'k) \<Rightarrow> ('a \<Rightarrow> 'k set) \<Rightarrow> 'k set \<Rightarrow> 'a list list \<Rightarrow> bool" where
  "layered key deps done ls \<longleftrightarrow>
     (\<forall>xs l ys t. ls = xs @ l # ys \<longrightarrow> t \<in> set l \<longrightarrow> deps t \<subseteq> done \<union> key ` set (concat xs))"

lemma layered_Nil [simp]: "layered key deps done []"
  by (simp add: layered_def)

lemma layered_Cons:
  assumes "\<And>t. t \<in> set l \<Longrightarrow> deps t \<subseteq> done" and "layered key deps (done \<union> key ` set l) ls"
  shows "layered key deps done (l # ls)"
  unfolding layered_def
proof (intro allI impI)
  fix xs m ys t assume "l # ls = xs @ m # ys" and t: "t \<in> set m"
  then consider "xs = []" "m = l" | xs' where "xs = l # xs'" "ls = xs' @ m # ys"
    by (cases xs) auto
  then show "deps t \<subseteq> done \<union> key ` set (concat xs)"
  proof cases
    case 1
    with t assms(1) show ?thesis by auto
  next
    case 2
    with t assms(2) have "deps t \<subseteq> (done \<union> key ` set l) \<union> key ` set (concat xs')"
      unfolding layered_def by blast
    with 2 show ?thesis by auto
  qed
qed

lemma rounds_layered: "layered key deps done (fst (rounds key deps items done))"
  by (induction rule: rounds_induct) (auto intro!: layered_Cons dest: ready_itemsD)

section \<open>Completeness\<close>

lemma rounds_result:
  assumes "distinct (map key items)" and "done \<subseteq> key ` set items" and "rounds key deps items done = (ls, stuck, d)"
  shows "distinct (concat ls) \<and> set (concat ls) = {t \<in> set items. key t \<in> d - done} \<and>
    done \<subseteq> d \<and> d \<subseteq> key ` set items \<and> (\<not> stuck \<longrightarrow> d = key ` set items) \<and>
    (stuck \<longrightarrow> d \<noteq> key ` set items \<and> ready_items key deps items d = [])"
proof -
  have card: "card (key ` set items) = length items"
    using distinct_card [OF assms(1)] by simp
  have "case r of (ls, stuck, d) \<Rightarrow> dn \<subseteq> key ` set items \<longrightarrow>
      distinct (concat ls) \<and> set (concat ls) = {t \<in> set items. key t \<in> d - dn} \<and>
      dn \<subseteq> d \<and> d \<subseteq> key ` set items \<and> (\<not> stuck \<longrightarrow> d = key ` set items) \<and>
      (stuck \<longrightarrow> d \<noteq> key ` set items \<and> ready_items key deps items d = [])"
    if "r = rounds key deps items dn" for r dn
    unfolding that
  proof (induction rule: rounds_induct)
    case (End dn)
    have "dn = key ` set items" if "dn \<subseteq> key ` set items"
      using End card that by (metis List.finite_set card_seteq finite_imageI linorder_not_less)
    then show ?case by auto
  next
    case (Stuck dn)
    have "dn \<noteq> key ` set items" using Stuck(1) card by auto
    then show ?case using Stuck(2) by auto
  next
    case (Step dn ls stuck d)
    let ?r = "ready_items key deps items dn"
    have sub: "dn \<union> key ` set ?r \<subseteq> key ` set items" if "dn \<subseteq> key ` set items"
      using that by (auto dest: ready_itemsD)
    have inj: "inj_on key (set items)" using assms(1) by (simp add: distinct_map)
    have dr: "distinct ?r" using assms(1) by (simp add: ready_items_def distinct_map)
    show ?case
    proof (clarify, intro conjI)
      assume dn: "dn \<subseteq> key ` set items"
      with Step(3) sub have IH: "distinct (concat ls)"
        "set (concat ls) = {t \<in> set items. key t \<in> d - (dn \<union> key ` set ?r)}"
        "dn \<union> key ` set ?r \<subseteq> d" "d \<subseteq> key ` set items" "\<not> stuck \<longrightarrow> d = key ` set items"
        "stuck \<longrightarrow> d \<noteq> key ` set items \<and> ready_items key deps items d = []" by auto
      show "distinct (concat (?r # ls))" using IH(1,2) dr by auto
      show "set (concat (?r # ls)) = {t \<in> set items. key t \<in> d - dn}"
      proof (intro set_eqI iffI)
        fix t assume "t \<in> set (concat (?r # ls))"
        then consider "t \<in> set ?r" | "t \<in> set (concat ls)" by auto
        then show "t \<in> {t \<in> set items. key t \<in> d - dn}"
          using IH(2,3) by cases (auto dest: ready_itemsD)
      next
        fix t assume t: "t \<in> {t \<in> set items. key t \<in> d - dn}"
        show "t \<in> set (concat (?r # ls))"
        proof (cases "key t \<in> key ` set ?r")
          case True
          then obtain u where u: "u \<in> set ?r" "key t = key u" by auto
          then have "t = u" using inj t ready_itemsD [OF u(1)] by (auto dest: inj_onD)
          with u show ?thesis by simp
        next
          case False
          with t IH(2) have "t \<in> set (concat ls)" by simp
          then show ?thesis by simp
        qed
      qed
      show "dn \<subseteq> d" "d \<subseteq> key ` set items" using IH(3,4) by auto
      show "\<not> stuck \<longrightarrow> d = key ` set items" by (rule IH(5))
      show "stuck \<longrightarrow> d \<noteq> key ` set items \<and> ready_items key deps items d = []" by (rule IH(6))
    qed
  qed
  from this [OF refl, of "done"] assms(2,3) show ?thesis by simp
qed

text \<open>Without a missing dependency and without a cycle the rounds end with everything done.\<close>

definition dep_edges :: "('a \<Rightarrow> 'k) \<Rightarrow> ('a \<Rightarrow> 'k set) \<Rightarrow> 'a list \<Rightarrow> ('k \<times> 'k) set" where
  "dep_edges key deps items = {(d, key t) | d t. t \<in> set items \<and> d \<in> deps t}"

lemma stuck_cause:
  assumes "distinct (map key items)" and "d \<subseteq> key ` set items" and "d \<noteq> key ` set items"
    and "ready_items key deps items d = []"
    and "\<And>t. t \<in> set items \<Longrightarrow> deps t \<subseteq> key ` set items" and "wf (dep_edges key deps items)"
  shows False
proof -
  obtain k where k: "k \<in> key ` set items - d" using assms(2,3) by blast
  obtain m where m: "m \<in> key ` set items - d"
      "\<And>y. (y, m) \<in> dep_edges key deps items \<Longrightarrow> y \<notin> key ` set items - d"
    by (rule wfE_min [OF assms(6) k]) blast
  then obtain t where t: "t \<in> set items" "key t = m" by auto
  have "deps t \<subseteq> d"
  proof
    fix y assume y: "y \<in> deps t"
    then have "(y, m) \<in> dep_edges key deps items" using t by (auto simp: dep_edges_def)
    with m(2) assms(5) [OF t(1)] y show "y \<in> d" by blast
  qed
  then have "t \<in> set (ready_items key deps items d)" using t m(1) by (simp add: ready_items_def)
  with assms(4) show False by simp
qed

lemma rounds_complete:
  assumes "distinct (map key items)" and "\<And>t. t \<in> set items \<Longrightarrow> deps t \<subseteq> key ` set items"
    and "wf (dep_edges key deps items)"
  shows "fst (snd (rounds key deps items {})) = False"
proof -
  obtain ls stuck d where r: "rounds key deps items {} = (ls, stuck, d)" by (metis surj_pair)
  note res = rounds_result [OF assms(1) empty_subsetI r]
  have "\<not> stuck"
  proof
    assume stuck
    with res have d: "d \<subseteq> key ` set items" "d \<noteq> key ` set items" "ready_items key deps items d = []"
      by simp_all
    show False by (rule stuck_cause [OF assms(1) d assms(2,3)])
  qed
  with r show ?thesis by simp
qed

text \<open>A missing dependency of any item gets the rounds stuck.\<close>

lemma rounds_missing:
  assumes "distinct (map key items)" and "t \<in> set items" and "x \<in> deps t" and "x \<notin> key ` set items"
  shows "fst (snd (rounds key deps items {})) = True"
proof (rule ccontr)
  obtain ls stuck d where r: "rounds key deps items {} = (ls, stuck, d)" by (metis surj_pair)
  assume "\<not> ?thesis"
  with r have "\<not> stuck" by simp
  with rounds_result [OF assms(1) empty_subsetI r]
  have d: "d = key ` set items" and concat: "set (concat ls) = {t \<in> set items. key t \<in> d - {}}" by simp_all
  then have all: "set (concat ls) = set items" by auto
  with assms(2) have "t \<in> set (concat ls)" by simp
  then obtain l where l: "l \<in> set ls" "t \<in> set l" by auto
  then obtain xs ys where "ls = xs @ l # ys" by (meson split_list)
  with rounds_layered [of key deps "{}" items] r l(2) have "deps t \<subseteq> {} \<union> key ` set (concat xs)"
    unfolding layered_def by simp
  moreover have "set (concat xs) \<subseteq> set items" using \<open>ls = xs @ l # ys\<close> all by auto
  ultimately show False using assms(3,4) by blast
qed

lemma rounds_mset:
  assumes "distinct (map key items)" and "rounds key deps items {} = (ls, False, d)"
  shows "mset (concat ls) = mset items"
proof -
  note res = rounds_result [OF assms(1) empty_subsetI assms(2)]
  then have "d = key ` set items" by simp
  with res have "distinct (concat ls)" "set (concat ls) = set items" by auto
  moreover have "distinct items" using assms(1) by (simp add: distinct_map)
  ultimately show ?thesis by (metis set_eq_iff_mset_eq_distinct)
qed

lemma rounds_chain:
  assumes "key a \<noteq> key b" and "deps a = {}" and "deps b = {key a}"
  shows "rounds key deps [a, b] {} = ([[a], [b]], False, {key a, key b})"
proof -
  have r1: "ready_items key deps [a, b] {} = [a]" and r2: "ready_items key deps [a, b] {key a} = [b]"
    using assms by (auto simp: ready_items_def)
  have "rounds key deps [a, b] {key a, key b} = ([], False, {key a, key b})"
    using assms(1) by (intro rounds_end) simp
  then have "rounds key deps [a, b] {key a} = ([[b]], False, {key a, key b})"
    using rounds_step [of "{key a}" "[a, b]" key deps "[]" False] r2 by (simp add: insert_commute)
  then show ?thesis using rounds_step [of "{}" "[a, b]" key deps "[[b]]" False] r1 by simp
qed

end
