(* ===== verification/TaskRouter.thy ===== *)
theory TaskRouter
  imports Kahn Layering Capabilities PyVal
begin

text \<open>
  The task router of \<^verbatim>\<open>app/core/task_router.py\<close>: decomposition of an intent into subtasks, matching
  of capabilities, the topological sort, the execution in rounds with the templates that pass
  outputs on, and the aggregation of the results. Parameters of the model: the LLM, the executors
  with the durations they take, the notification of tracing and context bus, and the texts outside
  ASCII. The executions of one round are awaited together; none reads what another one of the round
  writes except the call counters, so the model runs them in the order of the round.
\<close>

section \<open>Subtasks\<close>

record subtask =
  st_id :: string
  st_description :: string
  st_capability :: string
  st_params :: pydict
  st_deps :: "string list"
  st_tags :: "string list"
  st_workstation :: "workstation_type option"

record executed_task =
  et_id :: string
  et_capability :: string
  et_input :: pydict
  et_output :: pyval
  et_error :: string
  et_ms :: int
  et_status :: string

section \<open>Topological sort\<close>

text \<open>
  The adjacency lists are created while the tasks are read: a dependency on a task further down
  the list has no list yet and raises \<open>KeyError\<close>.
\<close>

fun add_deps ::
  "string set \<Rightarrow> string \<Rightarrow> string list \<Rightarrow> (string, string list) dict \<Rightarrow> (string, string list) dict res" where
  "add_deps ids tid [] adj = Inr adj"
| "add_deps ids tid (d # ds) adj =
     (if d \<notin> ids then add_deps ids tid ds adj
      else case dget adj d of
             None \<Rightarrow> Inl (KeyError d)
           | Some l \<Rightarrow> add_deps ids tid ds (dset d (l @ [tid]) adj))"

fun build_adj ::
  "string set \<Rightarrow> subtask list \<Rightarrow> (string, string list) dict \<Rightarrow> (string, string list) dict res" where
  "build_adj ids [] adj = Inr adj"
| "build_adj ids (t # ts) adj =
     bind_res (add_deps ids (st_id t) (st_deps t) (dset (st_id t) [] adj)) (build_adj ids ts)"

definition task_edges :: "subtask list \<Rightarrow> (string \<times> string) list" where
  "task_edges ts = concat (map (\<lambda>t. map (\<lambda>d. (d, st_id t))
     (filter (\<lambda>d. d \<in> st_id ` set ts) (st_deps t))) ts)"

text \<open>The identifiers in the order of the dictionary of in-degrees.\<close>

definition first_ids :: "subtask list \<Rightarrow> string list" where
  "first_ids ts = rev (remdups (rev (map st_id ts)))"

definition tr_sort :: "subtask list \<Rightarrow> subtask list res" where
  "tr_sort ts =
     bind_res (build_adj (st_id ` set ts) ts []) (\<lambda>adj.
       let deg = in_degree_of (task_edges ts);
           roots = filter (\<lambda>i. deg i = 0) (first_ids ts)
       in Inr (topo_loop st_id ts (\<lambda>i. dget_or adj i [])
                 deg (map (\<lambda>i. the (node_map_of st_id ts i)) roots) []))"

section \<open>Rounds\<close>

text \<open>
  A round without a ready task builds \<open>[t for t in tasks if t not in resolved]\<close>: membership in a
  set hashes the task, and a dataclass with equality is not hashable, so \<open>TypeError\<close> is raised.
\<close>

definition group_by_deps :: "subtask list \<Rightarrow> subtask list list res" where
  "group_by_deps ts =
     (case rounds st_id (\<lambda>t. set (st_deps t)) ts {} of
        (ls, stuck, d) \<Rightarrow> if stuck then Inl TypeError else Inr ls)"

section \<open>Templates\<close>

text \<open>One step of a path into a value; \<open>PNone\<close> where the code breaks out with \<open>None\<close>.\<close>

fun path_step :: "pyval \<Rightarrow> string \<Rightarrow> pyval" where
  "path_step (PDict d) f = (case dget d f of Some v \<Rightarrow> v | None \<Rightarrow> PNone)"
| "path_step (PList xs) f =
     (if f \<noteq> [] \<and> list_all is_digit f \<and> digits_val f < length xs then xs ! digits_val f else PNone)"
| "path_step v f = PNone"

fun path_walk :: "pyval \<Rightarrow> string list \<Rightarrow> pyval" where
  "path_walk v [] = v"
| "path_walk v (f # fs) = path_walk (path_step v f) fs"

definition is_template :: "string \<Rightarrow> bool" where
  "is_template s \<longleftrightarrow> starts_with ''${'' s \<and> ends_with ''}'' s"

definition template_path :: "string \<Rightarrow> string list" where
  "template_path s = split_char (CHR ''.'') (butlast (drop 2 s))"

definition resolve_value :: "(string, executed_task) dict \<Rightarrow> pyval \<Rightarrow> pyval" where
  "resolve_value completed v =
     (case v of
        PStr s \<Rightarrow>
          (if is_template s then
             (let path = template_path s;
                  node = (case dget completed (hd path) of None \<Rightarrow> PNone | Some e \<Rightarrow> et_output e);
                  r = path_walk node (tl path)
              in if r = PNone then PStr [] else r)
           else v)
      | _ \<Rightarrow> v)"

definition resolve_params :: "pydict \<Rightarrow> (string, executed_task) dict \<Rightarrow> pydict" where
  "resolve_params params completed = map (\<lambda>(k, v). (k, resolve_value completed v)) params"

section \<open>Execution\<close>

record ('e, 'w) router_env =
  re_execute :: "'e \<Rightarrow> pydict \<Rightarrow> 'w \<Rightarrow> (string + pyval) \<times> int \<times> 'w"
  re_notify :: "subtask \<Rightarrow> bool \<Rightarrow> int \<Rightarrow> 'w \<Rightarrow> string option \<times> 'w"
  re_float :: "pyfloat \<Rightarrow> string"

definition failed_task :: "subtask \<Rightarrow> string \<Rightarrow> pydict \<Rightarrow> string \<Rightarrow> int \<Rightarrow> executed_task" where
  "failed_task t cid input err ms = \<lparr>et_id = st_id t, et_capability = cid, et_input = input,
     et_output = PNone, et_error = err, et_ms = ms, et_status = ''failed''\<rparr>"

definition lookup_key :: "'e cap_registry \<Rightarrow> string \<Rightarrow> string \<Rightarrow> string" where
  "lookup_key rg cid tenant =
     (if tenant \<noteq> [] \<and> dget (rg_caps rg) (tenant @ '':'' @ cid) \<noteq> None then tenant @ '':'' @ cid else cid)"

definition count_call :: "string \<Rightarrow> string \<Rightarrow> int \<Rightarrow> bool \<Rightarrow> 'e cap_registry \<Rightarrow> 'e cap_registry" where
  "count_call cid tenant ms ok rg =
     (case get_by_id rg cid tenant of
        None \<Rightarrow> rg
      | Some c \<Rightarrow> rg\<lparr>rg_caps := dset (lookup_key rg cid tenant) (record_call ms ok c) (rg_caps rg)\<rparr>)"

text \<open>An output that is a dictionary with an \<open>error\<close> key is a failure.\<close>

definition output_error :: "(pyfloat \<Rightarrow> string) \<Rightarrow> pyval \<Rightarrow> string option" where
  "output_error fl v =
     (case v of PDict d \<Rightarrow> (case dget d ''error'' of Some e \<Rightarrow> Some (py_str fl e) | None \<Rightarrow> None) | _ \<Rightarrow> None)"

definition execute_single ::
  "('e, 'w) router_env \<Rightarrow> string \<Rightarrow> subtask \<Rightarrow> (string, executed_task) dict \<Rightarrow> 'e cap_registry \<Rightarrow> 'w \<Rightarrow>
   executed_task \<times> 'e cap_registry \<times> 'w" where
  "execute_single env tenant t completed rg w =
     (case get_by_id rg (st_capability t) tenant of
        None \<Rightarrow> (failed_task t (st_capability t) (st_params t) (''Capability not found: '' @ st_capability t) 0, rg, w)
      | Some cap \<Rightarrow>
          (case cap_executor cap of
             None \<Rightarrow>
               (failed_task t (st_capability t) (st_params t) (''No executor registered for: '' @ st_capability t) 0, rg, w)
           | Some ex \<Rightarrow>
               (let input = resolve_params (st_params t) completed
                in case re_execute env ex input w of
                     (Inl e, ms, w1) \<Rightarrow>
                       (failed_task t (cap_id cap) input e ms, count_call (st_capability t) tenant ms False rg, w1)
                   | (Inr out, ms, w1) \<Rightarrow>
                       (let err = output_error (re_float env) out
                        in case re_notify env t (err = None) ms w1 of
                             (Some e, w2) \<Rightarrow>
                               (failed_task t (cap_id cap) input e ms, count_call (st_capability t) tenant ms False rg, w2)
                           | (None, w2) \<Rightarrow>
                               (\<lparr>et_id = st_id t, et_capability = cap_id cap, et_input = input,
                                 et_output = (if err = None then out else PNone),
                                 et_error = (case err of None \<Rightarrow> [] | Some m \<Rightarrow> m), et_ms = ms,
                                 et_status = (if err = None then ''completed'' else ''failed'')\<rparr>,
                                count_call (st_capability t) tenant ms (err = None) rg, w2)))))"

fun execute_layer ::
  "('e, 'w) router_env \<Rightarrow> string \<Rightarrow> subtask list \<Rightarrow> (string, executed_task) dict \<Rightarrow> 'e cap_registry \<Rightarrow> 'w \<Rightarrow>
   executed_task list \<times> 'e cap_registry \<times> 'w" where
  "execute_layer env tenant [] completed rg w = ([], rg, w)"
| "execute_layer env tenant (t # ts) completed rg w =
     (case execute_single env tenant t completed rg w of
        (r, rg1, w1) \<Rightarrow>
          (case execute_layer env tenant ts completed rg1 w1 of (rs, rg2, w2) \<Rightarrow> (r # rs, rg2, w2)))"

fun execute_layers ::
  "('e, 'w) router_env \<Rightarrow> string \<Rightarrow> subtask list list \<Rightarrow> (string, executed_task) dict \<Rightarrow> 'e cap_registry \<Rightarrow> 'w \<Rightarrow>
   executed_task list \<times> 'e cap_registry \<times> 'w" where
  "execute_layers env tenant [] completed rg w = ([], rg, w)"
| "execute_layers env tenant (l # ls) completed rg w =
     (case execute_layer env tenant l completed rg w of
        (rs, rg1, w1) \<Rightarrow>
          (case execute_layers env tenant ls (foldl (\<lambda>d r. dset (et_id r) r d) completed rs) rg1 w1 of
             (rs', rg2, w2) \<Rightarrow> (rs @ rs', rg2, w2)))"

definition execute_tasks ::
  "('e, 'w) router_env \<Rightarrow> string \<Rightarrow> subtask list \<Rightarrow> 'e cap_registry \<Rightarrow> 'w \<Rightarrow>
   (executed_task list \<times> 'e cap_registry \<times> 'w) res" where
  "execute_tasks env tenant ts rg w =
     bind_res (group_by_deps ts) (\<lambda>ls. Inr (execute_layers env tenant ls [] rg w))"

section \<open>Intents and decomposition\<close>

text \<open>
  What the LLM answers is a JSON object; the fields the router reads are taken with the types the
  prompt asks for. The texts outside ASCII are a record of their own.
\<close>

record intent =
  in_action :: string
  in_keywords :: "string list"
  in_complexity :: string
  in_fallback :: bool
  in_workstations :: "string list"
  in_description :: string

record router_texts =
  rt_read :: string
  rt_analyze :: string
  rt_parse :: string
  rt_write :: string
  rt_list_kb :: string
  rt_search_kb :: string
  rt_kw_analyze :: string
  rt_kw_generate :: string
  rt_kw_code :: string
  rt_kw_search :: string
  rt_found :: "nat \<Rightarrow> string"
  rt_query :: "string \<Rightarrow> string"

definition infer_action :: "router_texts \<Rightarrow> string \<Rightarrow> string" where
  "infer_action tx text =
     (let l = lower text
      in if has_sub (rt_kw_analyze tx) l \<or> has_sub ''analyze'' l then ''analyze''
         else if has_sub (rt_kw_generate tx) l \<or> has_sub ''generate'' l \<or> has_sub (rt_kw_code tx) l
         then ''generate_code''
         else if has_sub (rt_kw_search tx) l \<or> has_sub ''search'' l then ''search''
         else ''general'')"

definition extract_keywords :: "string \<Rightarrow> string list" where
  "extract_keywords text = filter (\<lambda>w. length w > 2) (word_runs [] (lower text))"

definition fallback_intent :: "router_texts \<Rightarrow> string \<Rightarrow> intent" where
  "fallback_intent tx text = \<lparr>in_action = infer_action tx text, in_keywords = extract_keywords text,
     in_complexity = ''simple'', in_fallback = True, in_workstations = [], in_description = []\<rparr>"

text \<open>\<open>None\<close> is an exception of the LLM call or of the parsing of its answer.\<close>

definition understand_intent :: "router_texts \<Rightarrow> intent option \<Rightarrow> string \<Rightarrow> intent" where
  "understand_intent tx llm text =
     (case llm of Some i \<Rightarrow> i\<lparr>in_fallback := False\<rparr> | None \<Rightarrow> fallback_intent tx text)"

definition mk_subtask ::
  "string \<Rightarrow> string \<Rightarrow> string \<Rightarrow> pydict \<Rightarrow> string list \<Rightarrow> string list \<Rightarrow> subtask" where
  "mk_subtask sid desc cid ps deps tags = \<lparr>st_id = sid, st_description = desc, st_capability = cid,
     st_params = ps, st_deps = deps, st_tags = tags, st_workstation = None\<rparr>"

definition rule_based ::
  "router_texts \<Rightarrow> string \<Rightarrow> string list \<Rightarrow> string \<Rightarrow> subtask list" where
  "rule_based tx action kws input =
     (if action = ''analyze'' then
        [mk_subtask ''sub_0_read'' (rt_read tx) ''skill:read_file''
           [(''path'', PStr (py_join '' '' kws))] [] kws,
         mk_subtask ''sub_1_analyze'' (rt_analyze tx) ''agent:analyzer''
           [(''task'', PStr input)] [''sub_0_read''] kws]
      else if action = ''generate_code'' then
        [mk_subtask ''sub_0_parse'' (rt_parse tx) ''agent:requirement_parser''
           [(''task'', PStr input)] [] kws,
         mk_subtask ''sub_1_write'' (rt_write tx) ''skill:execute_python''
           [(''code'', PStr ''${sub_0_parse.result}'')] [''sub_0_parse''] kws]
      else if action = ''search'' then
        [mk_subtask ''sub_0_list'' (rt_list_kb tx) ''knowledge:kb_list''
           [(''query'', PStr [])] [] kws,
         mk_subtask ''sub_1_search'' (rt_search_kb tx) ''knowledge:kb_search''
           [(''kb_id'', PStr ''${sub_0_list.knowledge_bases.0.id}''), (''query'', PStr input)]
           [''sub_0_list''] kws]
      else [mk_subtask ''sub_0_default'' (if input = [] then ''Execute task'' else input) [] [] [] kws])"

fun by_recommendation ::
  "'e cap_registry \<Rightarrow> string \<Rightarrow> string \<Rightarrow> string list \<Rightarrow> string list \<Rightarrow> subtask list \<Rightarrow> subtask list" where
  "by_recommendation rg tenant input kws [] acc = acc"
| "by_recommendation rg tenant input kws (ws # wss) acc =
     (case ws_of ws of
        None \<Rightarrow> by_recommendation rg tenant input kws wss acc
      | Some wst \<Rightarrow>
          (case list_by_workstation rg wst tenant None of
             [] \<Rightarrow> by_recommendation rg tenant input kws wss acc
           | cap # _ \<Rightarrow>
               (let names = set (map cp_name (cap_input cap));
                    ps = (if ''task'' \<in> names then [(''task'', PStr input)]
                          else if ''query'' \<in> names then [(''query'', PStr input)] else []);
                    deps = (if acc = [] then [] else [st_id (last acc)]);
                    sid = ''sub_'' @ str_nat (length acc) @ ''_'' @ ws_value wst
                in by_recommendation rg tenant input kws wss
                     (acc @ [(mk_subtask sid input (cap_id cap) ps deps kws)
                        \<lparr>st_workstation := Some wst\<rparr>]))))"

definition decompose_task ::
  "router_texts \<Rightarrow> 'e cap_registry \<Rightarrow> intent \<Rightarrow> string \<Rightarrow> string \<Rightarrow> subtask list" where
  "decompose_task tx rg i tenant input =
     (if in_fallback i then rule_based tx (in_action i) (in_keywords i) input
      else if in_complexity i = ''simple''
      then [mk_subtask ''sub_0_default'' (if input = [] then in_description i else input) [] [] []
              (in_keywords i)]
      else let sts = by_recommendation rg tenant input (in_keywords i) (in_workstations i) []
           in if sts \<noteq> [] then sts else rule_based tx (in_action i) (in_keywords i) input)"

section \<open>Matching capabilities\<close>

definition with_capability :: "'e capability \<Rightarrow> subtask \<Rightarrow> subtask" where
  "with_capability c t = t\<lparr>st_capability := cap_id c, st_workstation := Some (cap_workstation c)\<rparr>"

definition match_one :: "'e cap_registry \<Rightarrow> string \<Rightarrow> subtask \<Rightarrow> subtask option" where
  "match_one rg tenant t =
     (case (if st_capability t \<noteq> [] then get_by_id rg (st_capability t) tenant else None) of
        Some c \<Rightarrow> Some (with_capability c t)
      | None \<Rightarrow>
          (case cap_search rg (st_description t @ '' '' @ py_join '' '' (st_tags t)) tenant None None 3 of
             c # _ \<Rightarrow> Some (with_capability c t)
           | [] \<Rightarrow>
               (case get_by_id rg ''agent:general_chat'' tenant of
                  Some c \<Rightarrow> Some ((with_capability c t)\<lparr>st_params := [(''task'', PStr (st_description t))]\<rparr>)
                | None \<Rightarrow> None)))"

definition match_capabilities :: "'e cap_registry \<Rightarrow> string \<Rightarrow> subtask list \<Rightarrow> subtask list" where
  "match_capabilities rg tenant ts = List.map_filter (match_one rg tenant) ts"

section \<open>Aggregation\<close>

definition is_completed :: "executed_task \<Rightarrow> bool" where
  "is_completed r \<longleftrightarrow> et_status r = ''completed''"

definition add_source :: "pyval list \<times> pyval list \<Rightarrow> pyval \<Rightarrow> pyval list \<times> pyval list" where
  "add_source acc item =
     (case (acc, item) of
        ((sources, snippets), PDict d) \<Rightarrow>
          (let title = dget_or d ''title'' (dget_or d ''name'' (PStr []));
               url = dget_or d ''url'' (dget_or d ''id'' (PStr []));
               snippet = dget_or d ''snippet'' (dget_or d ''description'' (PStr []));
               source = PDict [(''title'', title), (''url'', url), (''snippet'', snippet)];
               seen = (\<exists>s \<in> set sources. path_step s ''url'' = url)
           in (if truthy url \<and> \<not> seen then sources @ [source] else sources,
               if truthy snippet then snippets @ [snippet] else snippets))
      | (acc, _) \<Rightarrow> acc)"

fun collect_sources :: "executed_task list \<Rightarrow> pyval list \<times> pyval list \<Rightarrow> (pyval list \<times> pyval list) res" where
  "collect_sources [] acc = Inr acc"
| "collect_sources (r # rs) acc =
     (case et_output r of
        PDict d \<Rightarrow>
          bind_res (py_iter (dget_or d ''results'' (dget_or d ''knowledge_bases'' (PList []))))
            (\<lambda>items. collect_sources rs (foldl add_source acc items))
      | PStr s \<Rightarrow> collect_sources rs (if s \<noteq> [] then (fst acc, snd acc @ [PStr (take 200 s)]) else acc)
      | _ \<Rightarrow> collect_sources rs acc)"

definition base_output :: "executed_task list \<Rightarrow> string \<Rightarrow> pydict" where
  "base_output rs action =
     [(''subtasks_completed'', PInt (int (length (filter is_completed rs)))),
      (''subtasks_failed'', PInt (int (length (filter (\<lambda>r. et_status r = ''failed'') rs)))),
      (''intent'', PStr action)]"

definition with_errors :: "executed_task list \<Rightarrow> pydict \<Rightarrow> pydict" where
  "with_errors failed d =
     (if failed = [] then d else dset ''errors'' (PList (map (\<lambda>r. PStr (et_error r)) failed)) d)"

definition aggregate_search ::
  "router_texts \<Rightarrow> executed_task list \<Rightarrow> executed_task list \<Rightarrow> pydict \<Rightarrow> string \<Rightarrow> pydict res" where
  "aggregate_search tx completed failed base input =
     bind_res (collect_sources completed ([], [])) (\<lambda>(sources, snippets).
       let d1 = dset ''sources'' (PList sources) base;
           d2 = dset ''summary'' (PStr (rt_found tx (length sources) @
                  (if input \<noteq> [] then rt_query tx (take 60 input) else []))) d1;
           d3 = (if snippets \<noteq> [] then dset ''key_snippets'' (PList (take 5 snippets)) d2 else d2)
       in Inr (with_errors failed d3))"

text \<open>A conclusion that is neither a string nor empty cannot be cut and joined.\<close>

definition conclusion_of :: "(pyfloat \<Rightarrow> string) \<Rightarrow> pyval \<Rightarrow> string res" where
  "conclusion_of fl out =
     (let c = (case out of
                 PDict d \<Rightarrow> dget_or d ''result'' (dget_or d ''analysis'' (dget_or d ''summary'' (PStr [])))
               | PStr s \<Rightarrow> PStr s
               | v \<Rightarrow> PStr (if truthy v then py_str fl v else []))
      in if \<not> truthy c then Inr []
         else case c of PStr s \<Rightarrow> Inr (take 500 s) | _ \<Rightarrow> Inl TypeError)"

definition finding_of :: "(pyfloat \<Rightarrow> string) \<Rightarrow> executed_task \<Rightarrow> (executed_task \<times> string) res" where
  "finding_of fl r = bind_res (conclusion_of fl (et_output r)) (\<lambda>c. Inr (r, c))"

definition aggregate_analyze ::
  "(pyfloat \<Rightarrow> string) \<Rightarrow> executed_task list \<Rightarrow> executed_task list \<Rightarrow> pydict \<Rightarrow> pydict res" where
  "aggregate_analyze fl completed failed base =
     bind_res (map_res (finding_of fl) completed) (\<lambda>fs.
       let d1 = dset ''findings'' (PList (map (\<lambda>(r, c). PDict [(''subtask_id'', PStr (et_id r)),
                  (''capability_id'', PStr (et_capability r)), (''conclusion'', PStr c)]) fs)) base;
           d2 = dset ''synthesis'' (PStr (if fs = [] then ''No analysis output''
                  else py_join '' | '' (filter (\<lambda>c. c \<noteq> []) (map snd fs)))) d1
       in Inr (with_errors failed d2))"

definition code_of :: "(pyfloat \<Rightarrow> string) \<Rightarrow> pyval \<Rightarrow> pyval" where
  "code_of fl out =
     (case out of
        PDict d \<Rightarrow> dget_or d ''code'' (dget_or d ''result'' (PStr []))
      | PStr s \<Rightarrow> PStr s
      | v \<Rightarrow> PStr (if truthy v then py_str fl v else []))"

definition str_res :: "pyval \<Rightarrow> string res" where
  "str_res v = (case v of PStr s \<Rightarrow> Inr s | _ \<Rightarrow> Inl TypeError)"

definition newlines :: string where
  "newlines = [char_of (10 :: nat), char_of (10 :: nat)]"

definition aggregate_code ::
  "(pyfloat \<Rightarrow> string) \<Rightarrow> executed_task list \<Rightarrow> executed_task list \<Rightarrow> pydict \<Rightarrow> pydict res" where
  "aggregate_code fl completed failed base =
     (let codes = map (\<lambda>r. code_of fl (et_output r)) completed;
          blocks = map (\<lambda>r. PDict [(''subtask_id'', PStr (et_id r)), (''code'', code_of fl (et_output r))]) completed
      in bind_res (map_res str_res (filter truthy codes)) (\<lambda>cs.
           Inr (with_errors failed (dset ''combined_code'' (PStr (py_join newlines cs))
             (dset ''code_blocks'' (PList blocks) base)))))"

definition aggregate_results ::
  "router_texts \<Rightarrow> (pyfloat \<Rightarrow> string) \<Rightarrow> executed_task list \<Rightarrow> string \<Rightarrow> string \<Rightarrow> pydict res" where
  "aggregate_results tx fl rs action input =
     (let completed = filter is_completed rs;
          failed = filter (\<lambda>r. et_status r = ''failed'') rs;
          base = base_output rs action
      in if action = ''search'' then aggregate_search tx completed failed base input
         else if action = ''analyze'' then aggregate_analyze fl completed failed base
         else if action = ''generate_code'' then aggregate_code fl completed failed base
         else Inr (dset ''outputs'' (PList (map (\<lambda>r. PDict
                [(''subtask_id'', PStr (et_id r)), (''capability_id'', PStr (et_capability r)),
                 (''output'', if is_completed r then et_output r else PNone),
                 (''error'', if et_status r = ''failed'' then PStr (et_error r) else PNone)]) rs)) base))"

section \<open>Routing\<close>

datatype route_outcome =
    RouteNoMatch
  | RouteCompleted pydict "executed_task list"
  | RouteError py_error

definition route_task ::
  "router_texts \<Rightarrow> ('e, 'w) router_env \<Rightarrow> intent option \<Rightarrow> string \<Rightarrow> string \<Rightarrow> 'e cap_registry \<Rightarrow> 'w \<Rightarrow>
   route_outcome \<times> 'e cap_registry \<times> 'w" where
  "route_task tx env llm input tenant rg w =
     (let i = understand_intent tx llm input; sts = decompose_task tx rg i tenant input
      in if sts = [] then (RouteNoMatch, rg, w)
         else case tr_sort (match_capabilities rg tenant sts) of
                Inl e \<Rightarrow> (RouteError e, rg, w)
              | Inr order \<Rightarrow>
                  (case execute_tasks env tenant order rg w of
                     Inl e \<Rightarrow> (RouteError e, rg, w)
                   | Inr (rs, rg', w') \<Rightarrow>
                       (case aggregate_results tx (re_float env) rs (in_action i) input of
                          Inl e \<Rightarrow> (RouteError e, rg', w')
                        | Inr out \<Rightarrow> (RouteCompleted out rs, rg', w'))))"

section \<open>The sort\<close>

lemma adj_of_append [simp]: "adj_of (xs @ ys) i = adj_of xs i @ adj_of ys i"
  by (simp add: adj_of_def)

lemma adj_of_Nil [simp]: "adj_of [] i = []"
  by (simp add: adj_of_def)

definition dep_pairs :: "string set \<Rightarrow> string \<Rightarrow> string list \<Rightarrow> (string \<times> string) list" where
  "dep_pairs ids tid ds = map (\<lambda>d. (d, tid)) (filter (\<lambda>d. d \<in> ids) ds)"

lemma dep_pairs_simps [simp]:
  "dep_pairs ids tid [] = []"
  "dep_pairs ids tid (d # ds) = (if d \<in> ids then (d, tid) # dep_pairs ids tid ds else dep_pairs ids tid ds)"
  by (simp_all add: dep_pairs_def)

lemma task_edges_pairs:
  "task_edges ts = concat (map (\<lambda>t. dep_pairs (st_id ` set ts) (st_id t) (st_deps t)) ts)"
  by (simp add: task_edges_def dep_pairs_def)

lemma add_deps_ok:
  "set ds \<inter> ids \<subseteq> set (keys adj) \<Longrightarrow>
   \<exists>adj'. add_deps ids tid ds adj = Inr adj' \<and> set (keys adj') = set (keys adj) \<and>
     (\<forall>i. dget_or adj' i [] = dget_or adj i [] @ adj_of (dep_pairs ids tid ds) i)"
proof (induction ds arbitrary: adj)
  case Nil
  then show ?case by simp
next
  case (Cons d ds)
  show ?case
  proof (cases "d \<in> ids")
    case False
    with Cons show ?thesis by auto
  next
    case True
    then obtain l where l: "dget adj d = Some l"
      using Cons.prems dget_None_keys [of adj d] by (cases "dget adj d") auto
    let ?adj = "dset d (l @ [tid]) adj"
    have same: "set (keys ?adj) = set (keys adj)"
      using dget_Some_keys [OF l] by (auto simp: set_keys_dset simp del: set_map)
    have "set ds \<inter> ids \<subseteq> set (keys ?adj)" unfolding same using Cons.prems by simp blast
    from Cons.IH [OF this, unfolded same] obtain adj' where adj': "add_deps ids tid ds ?adj = Inr adj'"
      "set (keys adj') = set (keys adj)"
      "\<forall>i. dget_or adj' i [] = dget_or ?adj i [] @ adj_of (dep_pairs ids tid ds) i" by blast
    have "dget_or adj' i [] = dget_or adj i [] @ adj_of (dep_pairs ids tid (d # ds)) i" for i
      using adj'(3) True l by (auto simp: adj_of_def dget_or_def)
    with adj' True l show ?thesis by auto
  qed
qed

lemma add_deps_err:
  "\<not> set ds \<inter> ids \<subseteq> set (keys adj) \<Longrightarrow> \<exists>d. add_deps ids tid ds adj = Inl (KeyError d)"
proof (induction ds arbitrary: adj)
  case (Cons d ds)
  show ?case
  proof (cases "d \<in> ids \<and> d \<notin> set (keys adj)")
    case True
    then show ?thesis using dget_None_keys [of adj d] by auto
  next
    case False
    show ?thesis
    proof (cases "d \<in> ids")
      case True
      with False obtain l where l: "dget adj d = Some l"
        using dget_None_keys [of adj d] by (cases "dget adj d") auto
      have "set (keys (dset d (l @ [tid]) adj)) = set (keys adj)"
        using dget_Some_keys [OF l] by (auto simp: set_keys_dset simp del: set_map)
      with Cons True False l show ?thesis by auto
    next
      case no: False
      with Cons show ?thesis by auto
    qed
  qed
qed simp

text \<open>Every dependency on a task of the list points to an earlier task or to the task itself.\<close>

fun backward :: "string set \<Rightarrow> string set \<Rightarrow> subtask list \<Rightarrow> bool" where
  "backward ids seen [] = True"
| "backward ids seen (t # ts) =
     (set (st_deps t) \<inter> ids \<subseteq> insert (st_id t) seen \<and> backward ids (insert (st_id t) seen) ts)"

lemma build_adj_ok:
  "backward ids (set (keys adj)) ts \<Longrightarrow> distinct (map st_id ts) \<Longrightarrow>
   set (map st_id ts) \<inter> set (keys adj) = {} \<Longrightarrow>
   \<exists>adj'. build_adj ids ts adj = Inr adj' \<and> (\<forall>i. dget_or adj' i [] = dget_or adj i [] @
     adj_of (concat (map (\<lambda>t. dep_pairs ids (st_id t) (st_deps t)) ts)) i)"
proof (induction ts arbitrary: adj)
  case Nil
  then show ?case by simp
next
  case (Cons t ts)
  let ?adj = "dset (st_id t) [] adj"
  have keys: "set (keys ?adj) = insert (st_id t) (set (keys adj))" by (rule set_keys_dset)
  have new: "dget adj (st_id t) = None" using Cons.prems(3) dget_None_keys [of adj] by auto
  from Cons.prems(1) have sub: "set (st_deps t) \<inter> ids \<subseteq> set (keys ?adj)"
    and rest: "backward ids (set (keys ?adj)) ts" unfolding keys by simp_all
  obtain a where a: "add_deps ids (st_id t) (st_deps t) ?adj = Inr a" "set (keys a) = set (keys ?adj)"
    "\<forall>i. dget_or a i [] = dget_or ?adj i [] @ adj_of (dep_pairs ids (st_id t) (st_deps t)) i"
    using add_deps_ok [OF sub] by blast
  have disj: "set (map st_id ts) \<inter> set (keys a) = {}"
    unfolding a(2) keys using Cons.prems(2,3) by auto
  have "backward ids (set (keys a)) ts" unfolding a(2) by (rule rest)
  from Cons.IH [OF this _ disj] Cons.prems(2) obtain b where b: "build_adj ids ts a = Inr b"
    "\<forall>i. dget_or b i [] = dget_or a i [] @
       adj_of (concat (map (\<lambda>t. dep_pairs ids (st_id t) (st_deps t)) ts)) i" by auto
  have "dget_or ?adj i [] = dget_or adj i []" for i using new by (simp add: dget_or_def)
  with a b show ?case by auto
qed

lemma build_adj_err:
  "\<not> backward ids (set (keys adj)) ts \<Longrightarrow> \<exists>d. build_adj ids ts adj = Inl (KeyError d)"
proof (induction ts arbitrary: adj)
  case (Cons t ts)
  let ?adj = "dset (st_id t) [] adj"
  have keys: "set (keys ?adj) = insert (st_id t) (set (keys adj))" by (rule set_keys_dset)
  show ?case
  proof (cases "set (st_deps t) \<inter> ids \<subseteq> set (keys ?adj)")
    case False
    from add_deps_err [OF this, of "st_id t"] show ?thesis by auto
  next
    case True
    obtain a where a: "add_deps ids (st_id t) (st_deps t) ?adj = Inr a" "set (keys a) = set (keys ?adj)"
      using add_deps_ok [OF True] by blast
    have "\<not> backward ids (set (keys a)) ts" using Cons.prems True unfolding a(2) keys by simp
    from Cons.IH [OF this] a show ?thesis by auto
  qed
qed simp

lemma backward_split:
  "backward ids seen (xs @ t # ys) \<Longrightarrow>
   set (st_deps t) \<inter> ids \<subseteq> insert (st_id t) (seen \<union> st_id ` set xs)"
  by (induction xs arbitrary: seen) auto

lemma takeWhile_length_less:
  "i \<in> f ` set xs \<Longrightarrow> length (takeWhile (\<lambda>t. f t \<noteq> i) (xs @ ys)) < length xs"
  by (induction xs) auto

lemma takeWhile_length_eq:
  "f t \<notin> f ` set xs \<Longrightarrow> length (takeWhile (\<lambda>u. f u \<noteq> f t) (xs @ t # ys)) = length xs"
  by (induction xs) auto

text \<open>The input lists every task after the tasks it depends on.\<close>

definition deps_listed_first :: "subtask list \<Rightarrow> bool" where
  "deps_listed_first ts \<longleftrightarrow>
     (\<forall>xs t ys. ts = xs @ t # ys \<longrightarrow> set (st_deps t) \<inter> st_id ` set ts \<subseteq> st_id ` set xs)"

lemma listed_first_backward:
  assumes "deps_listed_first ts"
  shows "backward (st_id ` set ts) {} ts"
proof -
  have "backward ids (st_id ` set xs) ys"
    if "\<And>us t vs. xs @ ys = us @ t # vs \<Longrightarrow> set (st_deps t) \<inter> ids \<subseteq> st_id ` set us" for ids xs ys
    using that
  proof (induction ys arbitrary: xs)
    case (Cons y ys)
    have "set (st_deps y) \<inter> ids \<subseteq> st_id ` set xs" by (rule Cons.prems) simp
    moreover have "backward ids (st_id ` set (xs @ [y])) ys"
      by (rule Cons.IH) (use Cons.prems in simp)
    ultimately show ?case by auto
  qed simp
  from this [of "[]" ts "st_id ` set ts"] assms show ?thesis by (simp add: deps_listed_first_def)
qed

lemma task_edges_acyclic:
  assumes "distinct (map st_id ts)" and "deps_listed_first ts"
  shows "acyclic (set (task_edges ts))"
proof -
  let ?f = "\<lambda>i. length (takeWhile (\<lambda>t. st_id t \<noteq> i) ts)"
  have "set (task_edges ts) \<subseteq> inv_image less_than ?f"
  proof
    fix e assume "e \<in> set (task_edges ts)"
    then obtain t d where t: "t \<in> set ts" "d \<in> set (st_deps t)" "d \<in> st_id ` set ts" "e = (d, st_id t)"
      by (auto simp: task_edges_def)
    then obtain xs ys where ts: "ts = xs @ t # ys" by (meson split_list)
    with assms(2) t have "d \<in> st_id ` set xs" unfolding deps_listed_first_def by blast
    then have "?f d < length xs" unfolding ts by (rule takeWhile_length_less)
    moreover have "?f (st_id t) = length xs"
      unfolding ts by (rule takeWhile_length_eq) (use assms(1) ts in auto)
    ultimately show "e \<in> inv_image less_than ?f" using t by simp
  qed
  then show ?thesis by (meson acyclic_subset wf_acyclic wf_inv_image wf_less_than)
qed

lemma first_ids_distinct: "distinct (map st_id ts) \<Longrightarrow> first_ids ts = map st_id ts"
  by (simp add: first_ids_def distinct_remdups_id)

lemma tr_sort_ok:
  assumes "distinct (map st_id ts)" and "backward (st_id ` set ts) {} ts"
  shows "tr_sort ts = Inr (topo_loop st_id ts (adj_of (task_edges ts)) (in_degree_of (task_edges ts))
    (filter (\<lambda>t. in_degree_of (task_edges ts) (st_id t) = 0) ts) [])"
proof -
  obtain adj where adj: "build_adj (st_id ` set ts) ts [] = Inr adj"
    "\<forall>i. dget_or adj i [] = dget_or [] i [] @
       adj_of (concat (map (\<lambda>t. dep_pairs (st_id ` set ts) (st_id t) (st_deps t)) ts)) i"
    using build_adj_ok [of "st_id ` set ts" "[]" ts] assms by auto
  have fun_eq: "(\<lambda>i. dget_or adj i []) = adj_of (task_edges ts)"
    using adj(2) by (simp add: task_edges_pairs dget_or_def fun_eq_iff)
  have "map (\<lambda>i. the (node_map_of st_id ts i)) (filter P (first_ids ts)) = filter (\<lambda>t. P (st_id t)) ts" for P
  proof -
    have "map (\<lambda>i. the (node_map_of st_id ts i)) (filter P (map st_id ts)) =
        map (\<lambda>t. the (node_map_of st_id ts (st_id t))) (filter (\<lambda>t. P (st_id t)) ts)"
      by (simp add: filter_map comp_def)
    also have "\<dots> = map (\<lambda>t. t) (filter (\<lambda>t. P (st_id t)) ts)"
      by (rule map_cong) (auto simp: node_map_of_node [OF assms(1)])
    finally show ?thesis using assms(1) by (simp add: first_ids_distinct)
  qed
  then show ?thesis by (simp add: tr_sort_def adj(1) Let_def fun_eq)
qed

section \<open>Properties\<close>

text \<open>When every task is listed after the tasks it depends on, the sort succeeds, keeps every
  task exactly once and puts dependencies first.\<close>

theorem tr_sort_respects_dependencies:
  assumes "distinct (map st_id ts)" and "deps_listed_first ts"
  shows "\<exists>order. tr_sort ts = Inr order \<and> mset order = mset ts \<and>
    (\<forall>xs t ys. order = xs @ t # ys \<longrightarrow> set (st_deps t) \<inter> st_id ` set ts \<subseteq> st_id ` set xs)"
proof -
  let ?es = "task_edges ts"
  let ?order = "topo_loop st_id ts (adj_of ?es) (in_degree_of ?es)
    (filter (\<lambda>t. in_degree_of ?es (st_id t) = 0) ts) []"
  have src: "fst ` set ?es \<subseteq> st_id ` set ts" by (auto simp: task_edges_def)
  have topo: "topological_sort st_id ts ?es = ?order" "preds_before st_id ?es ?order"
    using topo_loop_complete [OF assms(1) src task_edges_acyclic [OF assms]] by blast+
  then have mset: "mset ?order = mset ts" using mset_topological_sort [OF assms(1), of ?es] by simp
  have "set (st_deps t) \<inter> st_id ` set ts \<subseteq> st_id ` set xs" if split: "?order = xs @ t # ys" for xs t ys
  proof
    fix d assume d: "d \<in> set (st_deps t) \<inter> st_id ` set ts"
    have "t \<in> set ?order" unfolding split by simp
    then have "t \<in> set ts" using mset by (metis set_mset_mset)
    with d have "(d, st_id t) \<in> set ?es" by (auto simp: task_edges_def)
    with topo(2) split show "d \<in> st_id ` set xs" unfolding preds_before_def by fastforce
  qed
  then show ?thesis
    using tr_sort_ok [OF assms(1) listed_first_backward [OF assms(2)]] mset by blast
qed

definition sample_subtask :: "string \<Rightarrow> string list \<Rightarrow> subtask" where
  "sample_subtask i ds = mk_subtask i i ''cap'' [] ds []"

theorem tr_sort_respects_dependencies_witness:
  "tr_sort [sample_subtask ''a'' [], sample_subtask ''b'' [''a'', ''zz''], sample_subtask ''c'' [''a'', ''b'']] =
     Inr [sample_subtask ''a'' [], sample_subtask ''b'' [''a'', ''zz''], sample_subtask ''c'' [''a'', ''b'']] \<and>
   (\<exists>order. tr_sort [sample_subtask ''a'' [], sample_subtask ''b'' [''a'', ''zz'']] = Inr order \<and>
      mset order = mset [sample_subtask ''a'' [], sample_subtask ''b'' [''a'', ''zz'']])"
proof
  show "tr_sort [sample_subtask ''a'' [], sample_subtask ''b'' [''a'', ''zz''], sample_subtask ''c'' [''a'', ''b'']] =
     Inr [sample_subtask ''a'' [], sample_subtask ''b'' [''a'', ''zz''], sample_subtask ''c'' [''a'', ''b'']]"
    by code_simp
  let ?ts = "[sample_subtask ''a'' [], sample_subtask ''b'' [''a'', ''zz'']]"
  have "distinct (map st_id ?ts)" by (simp add: sample_subtask_def mk_subtask_def)
  moreover have "deps_listed_first ?ts"
    by (auto simp: deps_listed_first_def sample_subtask_def mk_subtask_def Cons_eq_append_conv)
  ultimately show "\<exists>order. tr_sort ?ts = Inr order \<and> mset order = mset ?ts"
    using tr_sort_respects_dependencies by blast
qed

text \<open>A task that depends on a task listed after it makes the sort raise \<open>KeyError\<close>: the lists of
  neighbours are created in the order of the input, so nothing can be reordered.\<close>

theorem tr_sort_forward_reference_raises:
  assumes "distinct (map st_id (xs @ t # ys))" and "d \<in> set (st_deps t)" and "d \<in> st_id ` set ys"
  shows "\<exists>k. tr_sort (xs @ t # ys) = Inl (KeyError k)"
proof -
  let ?ids = "st_id ` set (xs @ t # ys)"
  have "\<not> backward ?ids {} (xs @ t # ys)"
  proof
    assume "backward ?ids {} (xs @ t # ys)"
    from backward_split [OF this] assms(2,3) have "d \<in> insert (st_id t) (st_id ` set xs)" by auto
    with assms(1,3) show False by (auto simp del: image_iff) (metis image_eqI)
  qed
  with build_adj_err [of ?ids "[]" "xs @ t # ys"] show ?thesis
    by (auto simp: tr_sort_def simp del: set_append)
qed

theorem tr_sort_forward_reference_raises_witness:
  "\<exists>k. tr_sort ([] @ sample_subtask ''b'' [''a''] # [sample_subtask ''a'' []]) = Inl (KeyError k)"
  by (rule tr_sort_forward_reference_raises) (simp_all add: sample_subtask_def mk_subtask_def)

section \<open>The execution\<close>

lemma execute_single_id [simp]:
  "et_id (fst (execute_single env tenant t completed rg w)) = st_id t"
  by (simp add: execute_single_def failed_task_def Let_def split: option.splits sum.splits prod.splits)

lemma execute_layer_ids:
  "map et_id (fst (execute_layer env tenant ts completed rg w)) = map st_id ts"
proof (induction ts arbitrary: rg w)
  case (Cons t ts)
  obtain r rg1 w1 where "execute_single env tenant t completed rg w = (r, rg1, w1)"
    by (rule prod_cases3)
  moreover from this have "et_id r = st_id t" using execute_single_id by (metis fst_conv)
  moreover obtain rs rg2 w2 where "execute_layer env tenant ts completed rg1 w1 = (rs, rg2, w2)"
    by (rule prod_cases3)
  ultimately show ?case using Cons.IH [of rg1 w1] by simp
qed simp

lemma execute_layers_ids:
  "map et_id (fst (execute_layers env tenant ls completed rg w)) = map st_id (concat ls)"
proof (induction ls arbitrary: completed rg w)
  case Nil
  then show ?case by simp
next
  case (Cons l ls)
  obtain rs rg1 w1 where l: "execute_layer env tenant l completed rg w = (rs, rg1, w1)"
    by (rule prod_cases3)
  have ids: "map et_id rs = map st_id l"
    using execute_layer_ids [of env tenant l completed rg w] by (simp add: l)
  obtain rs' rg2 w2 where
    ls: "execute_layers env tenant ls (foldl (\<lambda>d r. dset (et_id r) r d) completed rs) rg1 w1 = (rs', rg2, w2)"
    by (rule prod_cases3)
  have ids': "map et_id rs' = map st_id (concat ls)"
    using Cons.IH [of "foldl (\<lambda>d r. dset (et_id r) r d) completed rs" rg1 w1] unfolding ls fst_conv .
  have "fst (execute_layers env tenant (l # ls) completed rg w) = rs @ rs'"
    unfolding execute_layers.simps l prod.case ls fst_conv ..
  then show ?case by (simp only: map_append ids ids' concat.simps)
qed

text \<open>C9: when the tasks get executed, every task has exactly one result and the results of the tasks
  it depends on come before its own.\<close>

theorem tasks_run_after_their_dependencies:
  assumes "distinct (map st_id ts)" and "execute_tasks env tenant ts rg w = Inr (rs, rg', w')"
  shows "mset (map et_id rs) = mset (map st_id ts) \<and>
    (\<forall>t xs r ys. t \<in> set ts \<longrightarrow> rs = xs @ r # ys \<longrightarrow> et_id r = st_id t \<longrightarrow>
       set (st_deps t) \<subseteq> et_id ` set xs)"
proof -
  let ?deps = "\<lambda>t. set (st_deps t)"
  obtain ls d where rounds: "rounds st_id ?deps ts {} = (ls, False, d)"
    and rs: "rs = fst (execute_layers env tenant ls [] rg w)"
    using assms(2) by (auto simp: execute_tasks_def group_by_deps_def bind_res_def split: prod.splits if_splits)
  have ids: "map et_id rs = map st_id (concat ls)" unfolding rs by (rule execute_layers_ids)
  have mset: "mset (concat ls) = mset ts" by (rule rounds_mset [OF assms(1) rounds])
  have "set (st_deps t) \<subseteq> et_id ` set xs"
    if t: "t \<in> set ts" and split: "rs = xs @ r # ys" and r: "et_id r = st_id t" for t xs r ys
  proof -
    have "map st_id (concat ls) = map et_id xs @ st_id t # map et_id ys"
      using ids unfolding split by (simp add: r)
    then obtain as u bs where cs: "concat ls = as @ u # bs" "map et_id xs = map st_id as" "st_id u = st_id t"
      by (auto simp: map_eq_append_conv)
    have "u = t"
    proof -
      have "u \<in> set ts" using mset cs(1) by (metis in_set_conv_decomp set_mset_mset)
      then show ?thesis using assms(1) cs(3) t by (auto simp: distinct_map dest: inj_onD)
    qed
    with cs(1) concat_split [of ls as t bs] obtain us l vs as' where
      l: "ls = us @ l # vs" "t \<in> set l" "as = concat us @ as'" by fastforce
    have "set (st_deps t) \<subseteq> {} \<union> st_id ` set (concat us)"
      using rounds_layered [of st_id ?deps "{}" ts] rounds l(1,2) unfolding layered_def by simp
    also have "\<dots> \<subseteq> st_id ` set as" using l(3) by auto
    also have "\<dots> = et_id ` set xs" using cs(2) by (metis set_map)
    finally show ?thesis .
  qed
  moreover have "mset (map et_id rs) = mset (map st_id ts)" unfolding ids using mset by simp
  ultimately show ?thesis by blast
qed

text \<open>A task with a dependency on an identifier that is not in the list (its capability matched
  nothing, or it was dropped) makes the whole execution raise \<open>TypeError\<close> before any task runs.\<close>

theorem missing_dependency_fails_the_route:
  assumes "distinct (map st_id ts)" and "t \<in> set ts" and "d \<in> set (st_deps t)" and "d \<notin> st_id ` set ts"
  shows "execute_tasks env tenant ts rg w = Inl TypeError"
  using rounds_missing [where key = st_id and deps = "\<lambda>t. set (st_deps t)", OF assms]
  by (auto simp: execute_tasks_def group_by_deps_def split: prod.splits)

definition sample_env :: "(string, string list) router_env" where
  "sample_env = \<lparr>re_execute = (\<lambda>e ps w. (Inr (PDict [(''knowledge_bases'',
       PList [PDict [(''id'', PStr ''kb7'')]])]), 1, e # w)),
     re_notify = (\<lambda>t ok ms w. (None, w)), re_float = (\<lambda>_. ''0.0'')\<rparr>"

theorem missing_dependency_fails_the_route_witness:
  "execute_tasks sample_env ''acme'' [sample_subtask ''a'' [], sample_subtask ''b'' [''zz'']] new_registry [] =
    Inl TypeError"
  by (rule missing_dependency_fails_the_route [where t = "sample_subtask ''b'' [''zz'']" and d = "''zz''"])
    (simp_all add: sample_subtask_def mk_subtask_def)

lemma sample_tasks:
  "execute_tasks sample_env ''acme'' [sample_subtask ''a'' [], sample_subtask ''b'' [''a'']] new_registry [] =
    Inr (fst (execute_layers sample_env ''acme'' [[sample_subtask ''a'' []], [sample_subtask ''b'' [''a'']]] [] new_registry []),
      snd (execute_layers sample_env ''acme'' [[sample_subtask ''a'' []], [sample_subtask ''b'' [''a'']]] [] new_registry []))"
  by (simp add: execute_tasks_def group_by_deps_def rounds.simps ready_items_def sample_subtask_def
      mk_subtask_def)

theorem tasks_run_after_their_dependencies_witness:
  "mset (map et_id (fst (execute_layers sample_env ''acme''
      [[sample_subtask ''a'' []], [sample_subtask ''b'' [''a'']]] [] new_registry []))) = {#''a'', ''b''#}"
proof -
  have d: "distinct (map st_id [sample_subtask ''a'' [], sample_subtask ''b'' [''a'']])"
    by (simp add: sample_subtask_def mk_subtask_def)
  obtain rs rg' w' where r: "execute_layers sample_env ''acme''
      [[sample_subtask ''a'' []], [sample_subtask ''b'' [''a'']]] [] new_registry [] = (rs, rg', w')"
    by (rule prod_cases3)
  from tasks_run_after_their_dependencies [OF d sample_tasks [unfolded r fst_conv snd_conv]]
  show ?thesis unfolding r by (simp add: sample_subtask_def mk_subtask_def)
qed

section \<open>The pipeline of a search\<close>

lemma get_by_id_lookup: "get_by_id rg cid tenant = dget (rg_caps rg) (lookup_key rg cid tenant)"
  by (cases "dget (rg_caps rg) (tenant @ '':'' @ cid)") (simp_all add: get_by_id_def lookup_key_def)

lemma record_call_fields [simp]:
  "cap_executor (record_call ms ok c) = cap_executor c" "cap_id (record_call ms ok c) = cap_id c"
  by (simp_all add: record_call_def Let_def)

lemma count_call_executor:
  assumes "get_by_id rg cid tenant = Some c"
  shows "\<exists>c'. get_by_id (count_call cid' tenant ms ok rg) cid tenant = Some c' \<and>
    cap_executor c' = cap_executor c \<and> cap_id c' = cap_id c"
proof (cases "get_by_id rg cid' tenant")
  case None
  with assms show ?thesis by (simp add: count_call_def)
next
  case (Some d)
  obtain k where lk: "lookup_key rg cid' tenant = k" by blast
  let ?k = k and ?rg = "rg\<lparr>rg_caps := dset k (record_call ms ok d) (rg_caps rg)\<rparr>"
  have k: "dget (rg_caps rg) ?k = Some d" using Some by (simp add: get_by_id_lookup lk)
  then have "lookup_key ?rg cid tenant = lookup_key rg cid tenant" by (simp add: lookup_key_def)
  then have "get_by_id ?rg cid tenant =
      (if lookup_key rg cid tenant = ?k then Some (record_call ms ok d) else Some c)"
    using assms by (simp add: get_by_id_lookup)
  moreover have "lookup_key rg cid tenant = ?k \<Longrightarrow> d = c" using assms k by (simp add: get_by_id_lookup)
  moreover have "count_call cid' tenant ms ok rg = ?rg" by (simp add: count_call_def Some lk)
  ultimately show ?thesis by simp
qed

lemma search_rounds:
  "group_by_deps (rule_based tx ''search'' kws input) =
    Inr [[hd (rule_based tx ''search'' kws input)], [last (rule_based tx ''search'' kws input)]]"
proof -
  let ?ts = "rule_based tx ''search'' kws input"
  have two: "?ts = [hd ?ts, last ?ts]" and "st_id (hd ?ts) \<noteq> st_id (last ?ts)"
    and "set (st_deps (hd ?ts)) = {}" and "set (st_deps (last ?ts)) = {st_id (hd ?ts)}"
    by (simp_all add: rule_based_def mk_subtask_def)
  then have "rounds st_id (\<lambda>t. set (st_deps t)) [hd ?ts, last ?ts] {} =
      ([[hd ?ts], [last ?ts]], False, {st_id (hd ?ts), st_id (last ?ts)})"
    by (intro rounds_chain)
  then show ?thesis unfolding group_by_deps_def by (subst two) simp
qed

lemma kb_template: "is_template ''${sub_0_list.knowledge_bases.0.id}'' \<and>
  template_path ''${sub_0_list.knowledge_bases.0.id}'' = [''sub_0_list'', ''knowledge_bases'', ''0'', ''id'']"
  by code_simp

text \<open>The fallback pipeline of a search hands the identifier of the first knowledge base found by
  its first step to the executor of its second step, together with the user's query.\<close>

theorem search_pipeline_passes_first_kb:
  assumes "get_by_id rg ''knowledge:kb_list'' tenant = Some c1" and "cap_executor c1 = Some e1"
    and "get_by_id rg ''knowledge:kb_search'' tenant = Some c2" and "cap_executor c2 = Some e2"
    and "re_execute env e1 [(''query'', PStr [])] w = (Inr (PDict out), ms, w1)"
    and "re_notify env (hd (rule_based tx ''search'' kws input)) True ms w1 = (None, w2)"
    and "dget out ''error'' = None" and "dget out ''knowledge_bases'' = Some (PList (PDict kb # kbs))"
    and "dget kb ''id'' = Some v" and "v \<noteq> PNone" and "\<not> is_template input"
  shows "\<exists>r1 r2 rg' w'. execute_tasks env tenant (rule_based tx ''search'' kws input) rg w = Inr ([r1, r2], rg', w') \<and>
    et_status r1 = ''completed'' \<and> et_input r2 = [(''kb_id'', v), (''query'', PStr input)]"
proof -
  let ?ts = "rule_based tx ''search'' kws input" and ?rg = "count_call ''knowledge:kb_list'' tenant ms True rg"
  let ?r1 = "\<lparr>et_id = ''sub_0_list'', et_capability = cap_id c1, et_input = [(''query'', PStr [])],
    et_output = PDict out, et_error = [], et_ms = ms, et_status = ''completed''\<rparr>"
  have t0: "\<not> is_template []" by (simp add: is_template_def starts_with_def)
  have hd: "st_capability (hd ?ts) = ''knowledge:kb_list''" "st_params (hd ?ts) = [(''query'', PStr [])]"
      "st_id (hd ?ts) = ''sub_0_list''"
    by (simp_all add: rule_based_def mk_subtask_def)
  have last: "st_capability (last ?ts) = ''knowledge:kb_search''"
      "st_params (last ?ts) = [(''kb_id'', PStr ''${sub_0_list.knowledge_bases.0.id}''), (''query'', PStr input)]"
    by (simp_all add: rule_based_def mk_subtask_def)
  have first: "execute_single env tenant (hd ?ts) [] rg w = (?r1, ?rg, w2)"
    using assms(1,2,5-7) t0
    by (simp add: execute_single_def hd resolve_params_def resolve_value_def output_error_def Let_def)
  obtain c2' where c2': "get_by_id ?rg ''knowledge:kb_search'' tenant = Some c2'" "cap_executor c2' = Some e2"
    using count_call_executor [OF assms(3), of "''knowledge:kb_list''" ms True] assms(4) by auto
  have input: "resolve_params (st_params (last ?ts)) [(''sub_0_list'', ?r1)] = [(''kb_id'', v), (''query'', PStr input)]"
    using assms(8-11) kb_template
    by (simp add: last resolve_params_def resolve_value_def Let_def is_digit_def digits_val_def digit_val_def)
  obtain r2 rg2 w3 where second: "execute_single env tenant (last ?ts) [(''sub_0_list'', ?r1)] ?rg w2 = (r2, rg2, w3)"
    by (rule prod_cases3)
  have "et_input (fst (execute_single env tenant (last ?ts) [(''sub_0_list'', ?r1)] ?rg w2)) =
      [(''kb_id'', v), (''query'', PStr input)]"
    using c2' input
    by (simp add: execute_single_def last(1) failed_task_def Let_def split: sum.splits prod.splits option.splits)
  then have "et_input r2 = [(''kb_id'', v), (''query'', PStr input)]" unfolding second by simp
  moreover have "execute_tasks env tenant ?ts rg w = Inr ([?r1, r2], rg2, w3)"
    by (simp add: execute_tasks_def search_rounds first second)
  ultimately show ?thesis by fastforce
qed

definition search_registry :: "string cap_registry" where
  "search_registry = \<lparr>rg_caps = map (\<lambda>(cid, e). (cid, \<lparr>cap_id = cid, cap_name = [], cap_description = [],
       cap_workstation = KNOWLEDGE, cap_type = SERVICE, cap_input = [], cap_version = [], cap_tags = [],
       cap_status = [], cap_tenant = [], cap_avg_latency = 0, cap_executor = Some e, cap_subs = [],
       cap_calls = 0, cap_total_ms = 0, cap_successes = 0, cap_failures = 0\<rparr>))
     [(''knowledge:kb_list'', ''list''), (''knowledge:kb_search'', ''search'')], rg_tags = [], rg_words = []\<rparr>"

definition sample_texts :: router_texts where
  "sample_texts = \<lparr>rt_read = [], rt_analyze = [], rt_parse = [], rt_write = [], rt_list_kb = [],
     rt_search_kb = [], rt_kw_analyze = ''fenxi'', rt_kw_generate = ''shengcheng'', rt_kw_code = ''xie'',
     rt_kw_search = ''sousuo'', rt_found = str_nat, rt_query = (\<lambda>q. q)\<rparr>"

theorem search_pipeline_passes_first_kb_witness:
  "\<exists>r1 r2 rg' w'. execute_tasks sample_env ''acme'' (rule_based sample_texts ''search'' [] ''how'') search_registry [] =
      Inr ([r1, r2], rg', w') \<and>
    et_status r1 = ''completed'' \<and> et_input r2 = [(''kb_id'', PStr ''kb7''), (''query'', PStr ''how'')]"
  by (rule search_pipeline_passes_first_kb [where out = "[(''knowledge_bases'', PList [PDict [(''id'', PStr ''kb7'')]])]"
      and kb = "[(''id'', PStr ''kb7'')]" and kbs = "[]" and ms = 1 and ?w1.0 = "[''list'']" and ?w2.0 = "[''list'']"
      and ?e1.0 = "''list''" and ?e2.0 = "''search''"])
    (simp_all add: search_registry_def get_by_id_def sample_env_def is_template_def starts_with_def, simp_all)

section \<open>Sources\<close>

definition source_url :: "pyval \<Rightarrow> pyval" where
  "source_url s = path_step s ''url''"

lemma add_source_distinct:
  "distinct (map source_url (fst acc)) \<Longrightarrow> distinct (map source_url (fst (add_source acc item)))"
proof (cases item)
  case (PDict d)
  assume dist: "distinct (map source_url (fst acc))"
  obtain sources snippets where acc: "acc = (sources, snippets)" by fastforce
  let ?url = "dget_or d ''url'' (dget_or d ''id'' (PStr []))"
  obtain source sn where add: "fst (add_source acc item) =
      (if truthy ?url \<and> \<not> (\<exists>s \<in> set sources. path_step s ''url'' = ?url) then sources @ [source] else sources)"
    and url: "source_url source = ?url" and "sn = snippets"
    unfolding acc PDict add_source_def by (simp add: Let_def source_url_def)
  then show ?thesis using dist acc by (auto simp: source_url_def)
qed (simp_all add: add_source_def split: prod.splits)

lemma collect_sources_distinct:
  "collect_sources rs acc = Inr (ss, sn) \<Longrightarrow> distinct (map source_url (fst acc)) \<Longrightarrow>
   distinct (map source_url ss)"
proof (induction rs arbitrary: acc)
  case Nil
  then show ?case by simp
next
  case (Cons r rs)
  have fold: "distinct (map source_url (fst (foldl add_source acc items)))" for items
    using Cons.prems(2) by (induction items rule: rev_induct) (simp_all add: add_source_distinct)
  show ?case
  proof (cases "et_output r")
    case (PDict d)
    with Cons.prems(1) obtain items where "collect_sources rs (foldl add_source acc items) = Inr (ss, sn)"
      by (auto simp: bind_res_Inr)
    from Cons.IH [OF this fold] show ?thesis .
  qed (use Cons in \<open>auto split: if_splits\<close>)
qed

text \<open>In an aggregated search no two sources have the same address, however often the subtasks
  reported it.\<close>

theorem aggregated_sources_distinct:
  assumes "aggregate_search tx completed failed base input = Inr out"
  shows "\<exists>ss. dget out ''sources'' = Some (PList ss) \<and> distinct (map (\<lambda>s. path_step s ''url'') ss)"
proof -
  obtain ss sn where col: "collect_sources completed ([], []) = Inr (ss, sn)"
    and out: "dget out ''sources'' = Some (PList ss)"
    using assms by (auto simp: aggregate_search_def bind_res_Inr with_errors_def Let_def split: if_splits)
  then show ?thesis using collect_sources_distinct [OF col] by (simp add: source_url_def [abs_def])
qed

definition found_kb :: "string \<Rightarrow> executed_task" where
  "found_kb i = \<lparr>et_id = i, et_capability = i, et_input = [], et_output = PDict [(''results'',
     PList [PDict [(''url'', PStr ''u1'')], PDict [(''url'', PStr ''u2'')]])], et_error = [], et_ms = 1,
     et_status = ''completed''\<rparr>"

theorem aggregated_sources_distinct_witness:
  "\<exists>ss. dget (case aggregate_search sample_texts [found_kb ''a'', found_kb ''b''] [] [] [] of Inr d \<Rightarrow> d | Inl e \<Rightarrow> [])
       ''sources'' = Some (PList ss) \<and> distinct (map (\<lambda>s. path_step s ''url'') ss)"
proof -
  have "\<exists>out. aggregate_search sample_texts [found_kb ''a'', found_kb ''b''] [] [] [] = Inr out"
    by (simp add: aggregate_search_def found_kb_def dget_or_def Let_def split: prod.split)
  then obtain out where out: "aggregate_search sample_texts [found_kb ''a'', found_kb ''b''] [] [] [] = Inr out" ..
  from aggregated_sources_distinct [OF out] show ?thesis by (simp add: out)
qed

end
