(* ===== verification/Collab.thy ===== *)
theory Collab
  imports Layering PyVal
begin

text \<open>
  Collaborating agents, \<^verbatim>\<open>app/agent/collaboration.py\<close>: the local context store, the waves of
  subtasks, one wave with its event queue, and the run of a collaborative task under the tenant's
  quota. A run of an agent runtime is a parameter: its events and, if it raises, that it did.
\<close>

section \<open>The context store\<close>

text \<open>\<^verbatim>\<open>_redis_client\<close> is never assigned, so every operation takes the local branch.\<close>

record context_store =
  cx_tenant :: string
  cx_store :: "(string, pydict) dict"

definition cx_new :: "string \<Rightarrow> context_store" where
  "cx_new tenant = \<lparr>cx_tenant = tenant, cx_store = []\<rparr>"

definition cx_set :: "string \<Rightarrow> pydict \<Rightarrow> pyfloat \<Rightarrow> pyfloat \<Rightarrow> context_store \<Rightarrow> context_store" where
  "cx_set cid data ttl now s =
     s\<lparr>cx_store := dset cid (dset ''_tenant_id'' (PStr (cx_tenant s))
        (dset ''_ttl'' (PFloat (now + ttl)) data)) (cx_store s)\<rparr>"

definition cx_get :: "string \<Rightarrow> context_store \<Rightarrow> pydict option" where
  "cx_get cid s = dget (cx_store s) cid"

definition cx_delete :: "string \<Rightarrow> context_store \<Rightarrow> context_store" where
  "cx_delete cid s = s\<lparr>cx_store := ddel cid (cx_store s)\<rparr>"

definition cx_list_keys :: "context_store \<Rightarrow> string list" where
  "cx_list_keys s = keys (cx_store s)"

section \<open>Waves\<close>

text \<open>
  A dependency is a string \<open>subtask_N\<close>, where \<open>N\<close> is anything \<open>int\<close> accepts, or a number; other
  entries are skipped.
\<close>

definition dep_index :: "pyval \<Rightarrow> int option" where
  "dep_index d =
     (case d of
        PStr s \<Rightarrow> (if starts_with ''subtask_'' s then py_int (drop 8 s) else None)
      | PInt i \<Rightarrow> Some i
      | PBool b \<Rightarrow> Some (if b then 1 else 0)
      | _ \<Rightarrow> None)"

definition dep_set :: "pydict \<Rightarrow> int set res" where
  "dep_set st = bind_res (py_iter (dget_or st ''dependencies'' (PList [])))
     (\<lambda>ds. Inr (set (List.map_filter dep_index ds)))"

definition waves_of :: "nat \<Rightarrow> (int \<Rightarrow> int set) \<Rightarrow> int list list" where
  "waves_of n deps =
     (let idx = map int [0..<n]
      in case rounds (\<lambda>i. i) deps idx {} of
           (ls, stuck, d) \<Rightarrow> if stuck then ls @ [filter (\<lambda>i. i \<notin> d) idx] else ls)"

definition topological_waves :: "pydict list \<Rightarrow> int list list res" where
  "topological_waves sts =
     bind_res (map_res dep_set sts) (\<lambda>ds. Inr (waves_of (length sts) (\<lambda>i. ds ! nat i)))"

section \<open>Events and the runs of agents\<close>

datatype agent_role = RESEARCHER | CODER | REVIEWER | PLANNER | ORCHESTRATOR

fun role_value :: "agent_role \<Rightarrow> string" where
  "role_value RESEARCHER = ''researcher''"
| "role_value CODER = ''coder''"
| "role_value REVIEWER = ''reviewer''"
| "role_value PLANNER = ''planner''"
| "role_value ORCHESTRATOR = ''orchestrator''"

definition role_of :: "string \<Rightarrow> agent_role" where
  "role_of s = (case find (\<lambda>r. role_value r = s) [RESEARCHER, CODER, REVIEWER, PLANNER, ORCHESTRATOR] of
     Some r \<Rightarrow> r | None \<Rightarrow> RESEARCHER)"

record agent_event =
  ae_type :: string
  ae_content :: string

record agent_spec =
  as_role :: agent_role
  as_prompt :: string
  as_max_turns :: int
  as_model :: string
  as_mode :: string
  as_compaction :: "pydict option"

record agent_task =
  at_id :: string
  at_tenant :: string
  at_user :: string
  at_session :: string
  at_content :: string
  at_prompt :: string
  at_config :: pydict
  at_max_turns :: int

definition make_agent_task :: "agent_spec \<Rightarrow> string \<Rightarrow> string \<Rightarrow> string \<Rightarrow> agent_task" where
  "make_agent_task spec tid content tenant =
     \<lparr>at_id = tid, at_tenant = tenant, at_user = ''collab:'' @ tenant, at_session = ''collab:'' @ tid,
      at_content = content, at_prompt = as_prompt spec,
      at_config = [(''mode'', PStr (as_mode spec)), (''model'', PStr (as_model spec))] @
        (case as_compaction spec of None \<Rightarrow> [] | Some c \<Rightarrow> [(''compaction'', PDict c)]),
      at_max_turns = as_max_turns spec\<rparr>"

text \<open>
  The environment: a runtime's run (its events, and whether it raised after them), the role specs
  and the prompts, which are outside ASCII.
\<close>

record 'w collab_env =
  ce_run :: "agent_task \<Rightarrow> 'w \<Rightarrow> (agent_event list \<times> bool) \<times> 'w"
  ce_spec :: "agent_role \<Rightarrow> agent_spec"
  ce_plan_query :: "string \<Rightarrow> string"
  ce_sub_query :: "nat \<Rightarrow> nat \<Rightarrow> string \<Rightarrow> (string, string) dict \<Rightarrow> string \<Rightarrow> string"
  ce_merge_query :: "string \<Rightarrow> (string, (string, string) dict) dict \<Rightarrow> string"
  ce_loads :: "string \<Rightarrow> pydict list option"
  ce_quota_text :: string
  ce_done_text :: string
  ce_float :: "pyfloat \<Rightarrow> string"

record collab_task =
  ct_id :: string
  ct_query :: string
  ct_tenant :: string
  ct_subtasks :: "pydict list"
  ct_context :: "(string, (string, string) dict) dict"
  ct_status :: string

section \<open>The planner's output\<close>

text \<open>\<^verbatim>\<open>re.search(r'\[.*\]', output, re.DOTALL)\<close>: from the first opening to the last closing bracket.\<close>

definition bracket_span :: "string \<Rightarrow> string option" where
  "bracket_span s =
     (let t = dropWhile (\<lambda>c. c \<noteq> CHR ''['') s;
          u = rev (dropWhile (\<lambda>c. c \<noteq> CHR '']'') (rev t))
      in if u = [] then None else Some u)"

definition parse_planner_output :: "'w collab_env \<Rightarrow> string \<Rightarrow> pydict list" where
  "parse_planner_output env output =
     (case (case bracket_span output of None \<Rightarrow> None | Some s \<Rightarrow> ce_loads env s) of
        Some sts \<Rightarrow> sts
      | None \<Rightarrow> [[(''role'', PStr ''researcher''), (''description'', PStr output),
                  (''dependencies'', PList [])]])"

section \<open>One subtask\<close>

definition role_str :: "pydict \<Rightarrow> pyval" where
  "role_str st = dget_or st ''role'' (PStr ''researcher'')"

definition note_text ::
  "string \<Rightarrow> nat \<Rightarrow> (string, (string, string) dict) dict \<Rightarrow> agent_event \<Rightarrow> (string, (string, string) dict) dict" where
  "note_text r i ctx e =
     (if ae_type e = ''text'' \<and> ae_content e \<noteq> []
      then dset r (dset (''subtask_'' @ str_nat i) (ae_content e) (dget_or ctx r [])) ctx else ctx)"

text \<open>
  What the subtask puts into the event queue: its events and, unless it raised (the runtime did, or
  the subtask has no description), the end mark \<open>None\<close>. Roles are strings.
\<close>

definition run_single_subtask ::
  "'w collab_env \<Rightarrow> string \<Rightarrow> nat \<Rightarrow> collab_task \<Rightarrow> 'w \<Rightarrow> agent_event option list \<times> collab_task \<times> 'w" where
  "run_single_subtask env trace i task w =
     (let st = ct_subtasks task ! i;
          r = (case role_str st of PStr s \<Rightarrow> s | v \<Rightarrow> py_str (ce_float env) v);
          spec = ce_spec env (role_of r)
      in case dget st ''description'' of
           None \<Rightarrow> ([], task, w)
         | Some d \<Rightarrow>
             (let query = ce_sub_query env (i + 1) (length (ct_subtasks task)) (py_str (ce_float env) d)
                    (dget_or (ct_context task) r []) (ct_query task);
                  agt = make_agent_task spec (''subtask_'' @ str_nat i @ ''_'' @ trace) query (ct_tenant task)
              in case ce_run env agt w of
                   ((events, raised), w') \<Rightarrow>
                     (map Some events @ (if raised then [] else [None]),
                      task\<lparr>ct_context := foldl (note_text r i) (ct_context task) events\<rparr>, w')))"

section \<open>A wave\<close>

text \<open>
  The subtasks of a wave run concurrently and write to one queue; the model runs them in the order
  of the wave. The consumer takes items until it has counted one end mark per subtask; \<open>None\<close> is a
  queue that stays empty while it waits: it waits forever.
\<close>

fun run_wave ::
  "'w collab_env \<Rightarrow> string \<Rightarrow> int list \<Rightarrow> collab_task \<Rightarrow> 'w \<Rightarrow> agent_event option list \<times> collab_task \<times> 'w" where
  "run_wave env trace [] task w = ([], task, w)"
| "run_wave env trace (i # is) task w =
     (case run_single_subtask env trace (nat i) task w of
        (q1, task1, w1) \<Rightarrow>
          (case run_wave env trace is task1 w1 of (q2, task2, w2) \<Rightarrow> (q1 @ q2, task2, w2)))"

fun drain :: "nat \<Rightarrow> 'e option list \<Rightarrow> 'e list option" where
  "drain 0 q = Some []"
| "drain (Suc n) [] = None"
| "drain (Suc n) (None # q) = drain n q"
| "drain (Suc n) (Some e # q) = map_option (Cons e) (drain (Suc n) q)"

text \<open>The events yielded so far, and whether the scheduler got past the wave.\<close>

fun yielded :: "nat \<Rightarrow> 'e option list \<Rightarrow> 'e list" where
  "yielded 0 q = []"
| "yielded (Suc n) [] = []"
| "yielded (Suc n) (None # q) = yielded n q"
| "yielded (Suc n) (Some e # q) = e # yielded (Suc n) q"

fun run_waves ::
  "'w collab_env \<Rightarrow> string \<Rightarrow> int list list \<Rightarrow> collab_task \<Rightarrow> 'w \<Rightarrow>
   (agent_event list \<times> bool) \<times> collab_task \<times> 'w" where
  "run_waves env trace [] task w = (([], True), task, w)"
| "run_waves env trace (wave # waves) task w =
     (case run_wave env trace wave task w of
        (q, task1, w1) \<Rightarrow>
          (case drain (length wave) q of
             None \<Rightarrow> ((yielded (length wave) q, False), task1, w1)
           | Some es \<Rightarrow>
               (case run_waves env trace waves task1 w1 of
                  ((es', ok), task2, w2) \<Rightarrow> ((es @ es', ok), task2, w2))))"

section \<open>A collaborative task\<close>

record hub =
  hub_max :: nat
  hub_running :: "(string, nat) dict"

definition new_hub :: hub where
  "new_hub = \<lparr>hub_max = 3, hub_running = []\<rparr>"

definition running :: "hub \<Rightarrow> string \<Rightarrow> nat" where
  "running h tenant = dget_or (hub_running h) tenant 0"

text \<open>The quota check with the increment, up to the first await; and the final block.\<close>

definition hub_enter :: "string \<Rightarrow> hub \<Rightarrow> hub option" where
  "hub_enter tenant h =
     (if running h tenant \<ge> hub_max h then None
      else Some (h\<lparr>hub_running := dset tenant (running h tenant + 1) (hub_running h)\<rparr>))"

definition hub_leave :: "string \<Rightarrow> hub \<Rightarrow> hub" where
  "hub_leave tenant h =
     h\<lparr>hub_running := dset tenant (dget_or (hub_running h) tenant 1 - 1) (hub_running h)\<rparr>"

datatype collab_outcome = CollabRejected | CollabDone | CollabRaised | CollabStuck

definition plan_step :: "'w collab_env \<Rightarrow> collab_task \<Rightarrow> agent_event \<Rightarrow> collab_task" where
  "plan_step env task e =
     (if ae_type e = ''text'' then task\<lparr>ct_subtasks := parse_planner_output env (ae_content e)\<rparr> else task)"

definition collab_body ::
  "'w collab_env \<Rightarrow> string \<Rightarrow> collab_task \<Rightarrow> 'w \<Rightarrow> (agent_event list \<times> collab_outcome) \<times> collab_task \<times> 'w" where
  "collab_body env trace task w =
     (let planner = ce_spec env PLANNER;
          planned = (if ct_subtasks task \<noteq> [] then (([], False), w)
            else ce_run env (make_agent_task planner (''planning_'' @ trace)
                   (ce_plan_query env (ct_query task)) (ct_tenant task)) w)
      in case planned of
           ((es1, raised), w1) \<Rightarrow>
             (let task1 = foldl (plan_step env) task es1
              in if raised then ((es1, CollabRaised), task1, w1)
                 else let task2 = task1\<lparr>ct_status := ''running''\<rparr>
                 in case topological_waves (ct_subtasks task2) of
                      Inl e \<Rightarrow> ((es1, CollabRaised), task2, w1)
                    | Inr waves \<Rightarrow>
                        (case run_waves env trace waves task2 w1 of
                           ((es2, False), task3, w2) \<Rightarrow> ((es1 @ es2, CollabStuck), task3, w2)
                         | ((es2, True), task3, w2) \<Rightarrow>
                             (case ce_run env (make_agent_task (ce_spec env ORCHESTRATOR)
                                     (''aggregation_'' @ trace)
                                     (ce_merge_query env (ct_query task3) (ct_context task3))
                                     (ct_tenant task3)) w2 of
                                ((es3, True), w3) \<Rightarrow> ((es1 @ es2 @ es3, CollabRaised), task3, w3)
                              | ((es3, False), w3) \<Rightarrow>
                                  ((es1 @ es2 @ es3 @ [\<lparr>ae_type = ''done'', ae_content = ce_done_text env\<rparr>],
                                    CollabDone), task3\<lparr>ct_status := ''completed''\<rparr>, w3)))))"

text \<open>The slot of the tenant is given back when the body ends, not while it is stuck.\<close>

definition run_collaborative_task ::
  "'w collab_env \<Rightarrow> string \<Rightarrow> collab_task \<Rightarrow> hub \<Rightarrow> 'w \<Rightarrow>
   (agent_event list \<times> collab_outcome) \<times> collab_task \<times> hub \<times> 'w" where
  "run_collaborative_task env trace task h w =
     (case hub_enter (ct_tenant task) h of
        None \<Rightarrow> (([\<lparr>ae_type = ''error'', ae_content = ce_quota_text env\<rparr>], CollabRejected), task, h, w)
      | Some h1 \<Rightarrow>
          (case collab_body env trace task w of
             ((es, out), task', w') \<Rightarrow>
               ((es, out), task', if out = CollabStuck then h1 else hub_leave (ct_tenant task) h1, w')))"

section \<open>The queue of a wave\<close>

lemma drain_iff: "drain n q \<noteq> None \<longleftrightarrow> n \<le> count_list q None"
  by (induction n q rule: drain.induct) auto

text \<open>Whether a subtask gets as far as its end mark.\<close>

lemma single_marks:
  "count_list (fst (run_single_subtask env trace i task w)) None \<le> 1"
  by (auto simp: run_single_subtask_def Let_def count_list_0_iff split: option.splits prod.splits)

lemma wave_marks:
  "count_list (fst (run_wave env trace is task w)) None \<le> length is"
proof (induction "is" arbitrary: task w)
  case Nil
  then show ?case by simp
next
  case (Cons i "is")
  obtain q1 task1 w1 where s: "run_single_subtask env trace (nat i) task w = (q1, task1, w1)"
    by (rule prod_cases3)
  obtain q2 task2 w2 where r: "run_wave env trace is task1 w1 = (q2, task2, w2)"
    by (rule prod_cases3)
  have "count_list q1 None \<le> 1" using single_marks [of env trace "nat i" task w] by (simp add: s)
  moreover have "count_list q2 None \<le> length is" using Cons.IH [of task1 w1] by (simp add: r)
  ultimately show ?case by (simp add: s r)
qed

section \<open>The quota\<close>

text \<open>Collaborative tasks of several tenants that start and end; \<open>active\<close> lists the tenants of those
  that run.\<close>

datatype hub_event = HubStart string | HubEnd string

fun hub_step :: "hub \<times> string list \<Rightarrow> hub_event \<Rightarrow> hub \<times> string list" where
  "hub_step (h, active) (HubStart t) =
     (case hub_enter t h of None \<Rightarrow> (h, active) | Some h' \<Rightarrow> (h', t # active))"
| "hub_step (h, active) (HubEnd t) =
     (if t \<in> set active then (hub_leave t h, remove1 t active) else (h, active))"

definition hub_ok :: "hub \<times> string list \<Rightarrow> bool" where
  "hub_ok s \<longleftrightarrow> hub_max (fst s) = 3 \<and>
     (\<forall>t. running (fst s) t = count_list (snd s) t \<and> count_list (snd s) t \<le> 3)"

lemma count_list_remove1:
  "t \<in> set xs \<Longrightarrow> count_list (remove1 t xs) u = (if u = t then count_list xs u - 1 else count_list xs u)"
  by (induction xs) auto

lemma hub_ok_step: "hub_ok s \<Longrightarrow> hub_ok (hub_step s e)"
proof (cases e)
  case (HubStart t)
  assume "hub_ok s"
  with HubStart show ?thesis
    by (cases s) (auto simp: hub_ok_def hub_enter_def running_def split: option.splits if_splits)
next
  case (HubEnd t)
  assume ok: "hub_ok s"
  obtain h active where s: "s = (h, active)" by fastforce
  show ?thesis
  proof (cases "t \<in> set active")
    case False
    with ok HubEnd s show ?thesis by simp
  next
    case True
    then have "0 < count_list active t" by (metis count_list_0_iff neq0_conv)
    with ok s have pos: "0 < running h t" by (simp add: hub_ok_def)
    then have "dget_or (hub_running h) t 1 = running h t"
      by (auto simp: running_def dget_or_def split: option.splits)
    then have "running (hub_leave t h) u = (if u = t then running h t - 1 else running h u)" for u
      by (simp add: running_def hub_leave_def)
    moreover have "hub_max (hub_leave t h) = hub_max h" by (simp add: hub_leave_def)
    moreover have "count_list active u - 1 \<le> 3" if "count_list active u \<le> 3" for u using that by simp
    ultimately show ?thesis
      using ok HubEnd s True by (simp add: hub_ok_def count_list_remove1)
  qed
qed

section \<open>Properties\<close>

text \<open>C35: whatever tasks start and end, in any order, a tenant never has more than three running, and
  the counter of the hub is the number of its running tasks.\<close>

theorem tenant_quota_holds:
  "running (fst (run_events hub_step (new_hub, []) es)) t =
     count_list (snd (run_events hub_step (new_hub, []) es)) t \<and>
   count_list (snd (run_events hub_step (new_hub, []) es)) t \<le> 3"
proof -
  have "hub_ok (run_events hub_step (new_hub, []) es)"
    by (rule run_events_inv [where P = hub_ok], rule hub_ok_step)
      (simp_all add: hub_ok_def new_hub_def running_def dget_or_def)
  then show ?thesis by (simp add: hub_ok_def)
qed

text \<open>The waves contain every subtask exactly once, also when the dependencies have a cycle or
  point nowhere; without those, every subtask comes in a later wave than all it depends on.\<close>

theorem waves_cover_and_order:
  "mset (concat (waves_of n deps)) = mset (map int [0..<n]) \<and>
   (wf {(d, i). 0 \<le> i \<and> i < int n \<and> d \<in> deps i} \<longrightarrow>
      (\<forall>i. 0 \<le> i \<longrightarrow> i < int n \<longrightarrow> deps i \<subseteq> {0..<int n}) \<longrightarrow>
      layered (\<lambda>i. i) deps {} (waves_of n deps))"
proof -
  let ?idx = "map int [0..<n]"
  obtain ls stuck d where r: "rounds (\<lambda>i. i) deps ?idx {} = (ls, stuck, d)"
    by (rule prod_cases3)
  have dist: "distinct (map (\<lambda>i. i) ?idx)" by (simp add: distinct_map)
  note res = rounds_result [OF dist empty_subsetI r]
  have idx: "set ?idx = {0..<int n}" by (auto simp: image_iff) (metis atLeast0LessThan lessThan_iff nat_0_le nat_less_iff)
  have waves: "waves_of n deps = (if stuck then ls @ [filter (\<lambda>i. i \<notin> d) ?idx] else ls)"
    by (simp add: waves_of_def Let_def r)
  have "distinct (concat (waves_of n deps)) \<and> set (concat (waves_of n deps)) = set ?idx"
  proof (cases stuck)
    case True
    with res dist show ?thesis unfolding waves by auto
  next
    case False
    with res show ?thesis unfolding waves by auto
  qed
  then have "mset (concat (waves_of n deps)) = mset ?idx"
    using dist set_eq_iff_mset_eq_distinct by (metis list.map_ident)
  moreover have "layered (\<lambda>i. i) deps {} (waves_of n deps)"
    if "wf {(d, i). 0 \<le> i \<and> i < int n \<and> d \<in> deps i}" "\<forall>i. 0 \<le> i \<longrightarrow> i < int n \<longrightarrow> deps i \<subseteq> {0..<int n}"
  proof -
    have "dep_edges (\<lambda>i. i) deps ?idx = {(d, i). 0 \<le> i \<and> i < int n \<and> d \<in> deps i}"
      unfolding dep_edges_def idx by auto
    then have "fst (snd (rounds (\<lambda>i. i) deps ?idx {})) = False"
      using that idx by (intro rounds_complete dist) auto
    with r have "\<not> stuck" by simp
    then show ?thesis using rounds_layered [of "\<lambda>i. i" deps "{}" ?idx] r waves by simp
  qed
  ultimately show ?thesis by blast
qed

theorem waves_cover_and_order_witness:
  "layered (\<lambda>i. i) (\<lambda>i. if i = 1 then {0} else {}) {} (waves_of 2 (\<lambda>i. if i = 1 then {0 :: int} else {}))"
proof -
  have "wf {(d, i). 0 \<le> i \<and> i < int 2 \<and> d \<in> (if i = 1 then {0 :: int} else {})}"
    by (rule wf_subset [of "inv_image less_than nat"]) (auto split: if_splits)
  then show ?thesis
    using waves_cover_and_order [of 2 "\<lambda>i. if i = 1 then {0} else {}"] by auto
qed

lemma wave_marks_missing:
  "i \<in> set is \<Longrightarrow> (\<And>task w. None \<notin> set (fst (run_single_subtask env trace (nat i) task w))) \<Longrightarrow>
   count_list (fst (run_wave env trace is task w)) None < length is"
proof (induction "is" arbitrary: task w)
  case Nil
  then show ?case by simp
next
  case (Cons j "is")
  obtain q1 task1 w1 where s: "run_single_subtask env trace (nat j) task w = (q1, task1, w1)"
    by (rule prod_cases3)
  obtain q2 task2 w2 where r: "run_wave env trace is task1 w1 = (q2, task2, w2)"
    by (rule prod_cases3)
  have one: "count_list q1 None \<le> 1" using single_marks [of env trace "nat j" task w] by (simp add: s)
  have le: "count_list q2 None \<le> length is" using wave_marks [of env trace "is" task1 w1] by (simp add: r)
  show ?case
  proof (cases "j = i")
    case True
    with Cons.prems(2) [of task w] s have "count_list q1 None = 0" by (simp add: count_list_0_iff)
    with le show ?thesis by (simp add: s r)
  next
    case False
    with Cons.prems(1) have "i \<in> set is" by simp
    from Cons.IH [OF this Cons.prems(2), of task1 w1] one show ?thesis by (simp add: s r)
  qed
qed

text \<open>When a subtask of the first wave raises, its end mark never reaches the queue: the task is
  stuck waiting for it and its slot of the tenant's quota is never given back.\<close>

theorem failing_subtask_leaks_quota:
  assumes "running h (ct_tenant task) < hub_max h" and "ct_subtasks task \<noteq> []"
    and "topological_waves (ct_subtasks task) = Inr (wave # waves)" and "i \<in> set wave"
    and "\<And>task w. None \<notin> set (fst (run_single_subtask env trace (nat i) task w))"
    and "run_collaborative_task env trace task h w = ((es, out), task', h', w')"
  shows "out = CollabStuck \<and> running h' (ct_tenant task) = running h (ct_tenant task) + 1"
proof -
  let ?h = "h\<lparr>hub_running := dset (ct_tenant task) (running h (ct_tenant task) + 1) (hub_running h)\<rparr>"
  have enter: "hub_enter (ct_tenant task) h = Some ?h" using assms(1) by (simp add: hub_enter_def)
  obtain q task1 w1 where wave: "run_wave env trace wave (task\<lparr>ct_status := ''running''\<rparr>) w = (q, task1, w1)"
    by (rule prod_cases3)
  have "count_list q None < length wave"
    using wave_marks_missing [of i wave env trace "task\<lparr>ct_status := ''running''\<rparr>" w] assms(4,5) wave by simp
  then have "drain (length wave) q = None" using drain_iff [of "length wave" q] by auto
  then have "collab_body env trace task w = ((yielded (length wave) q, CollabStuck), task1, w1)"
    using assms(2,3) wave by (simp add: collab_body_def Let_def)
  then show ?thesis
    using assms(6) by (auto simp: run_collaborative_task_def enter running_def)
qed

definition sample_collab_env :: "unit collab_env" where
  "sample_collab_env = \<lparr>ce_run = (\<lambda>a w. (([], True), w)),
     ce_spec = (\<lambda>r. \<lparr>as_role = r, as_prompt = [], as_max_turns = 1, as_model = [], as_mode = [], as_compaction = None\<rparr>),
     ce_plan_query = (\<lambda>q. q), ce_sub_query = (\<lambda>i n d c q. d), ce_merge_query = (\<lambda>q c. q),
     ce_loads = (\<lambda>s. None), ce_quota_text = [], ce_done_text = [], ce_float = (\<lambda>x. [])\<rparr>"

definition sample_collab_task :: collab_task where
  "sample_collab_task = \<lparr>ct_id = ''c'', ct_query = ''q'', ct_tenant = ''acme'',
     ct_subtasks = [[(''description'', PStr ''d'')]], ct_context = [], ct_status = ''pending''\<rparr>"

theorem failing_subtask_leaks_quota_witness:
  "running (fst (snd (snd (run_collaborative_task sample_collab_env ''t'' sample_collab_task new_hub ()))))
     ''acme'' = 1"
proof -
  have single: "rounds (\<lambda>i :: int. i) deps [0] {} = ([[0]], False, {0})" if "deps 0 = {}" for deps
  proof -
    have ready: "ready_items (\<lambda>i :: int. i) deps [0] {} = [0]" using that by (simp add: ready_items_def)
    have "rounds (\<lambda>i :: int. i) deps [0] {0} = ([], False, {0})" by (rule rounds_end) simp
    then show ?thesis using rounds_step [of "{}" "[0]" "\<lambda>i :: int. i" deps "[]" False] ready by simp
  qed
  have waves: "topological_waves (ct_subtasks sample_collab_task) = Inr ([0] # [])"
    by (simp add: topological_waves_def sample_collab_task_def dep_set_def dget_or_def waves_of_def
        Let_def single map_filter_simps)
  obtain es out task' h' w' where run:
    "run_collaborative_task sample_collab_env ''t'' sample_collab_task new_hub () = ((es, out), task', h', w')"
    by (metis prod.collapse)
  have no_mark: "None \<notin> set (fst (run_single_subtask sample_collab_env ''t'' (nat 0) task w))" for task w
    by (simp add: run_single_subtask_def sample_collab_env_def Let_def split: option.split)
  have "running new_hub (ct_tenant sample_collab_task) < hub_max new_hub" "ct_subtasks sample_collab_task \<noteq> []"
    "(0 :: int) \<in> set [0]" by (simp_all add: new_hub_def running_def dget_or_def sample_collab_task_def)
  from failing_subtask_leaks_quota [OF this(1,2) waves this(3) no_mark run]
  show ?thesis unfolding run by (simp add: sample_collab_task_def new_hub_def running_def dget_or_def)
qed

text \<open>A subtask sees nothing of what subtasks of other roles left in the shared context, even of
  those it depends on: contexts that agree on its own role give the same run.\<close>

theorem subtask_blind_to_other_roles:
  assumes "role_str (ct_subtasks task ! i) = PStr r" and "dget_or ctx r [] = dget_or ctx' r []"
  shows "fst (run_single_subtask env trace i (task\<lparr>ct_context := ctx\<rparr>) w) =
      fst (run_single_subtask env trace i (task\<lparr>ct_context := ctx'\<rparr>) w) \<and>
    snd (snd (run_single_subtask env trace i (task\<lparr>ct_context := ctx\<rparr>) w)) =
      snd (snd (run_single_subtask env trace i (task\<lparr>ct_context := ctx'\<rparr>) w))"
  using assms by (simp add: run_single_subtask_def Let_def split: option.splits prod.splits)

theorem subtask_blind_to_other_roles_witness:
  "fst (run_single_subtask sample_collab_env ''t'' 0
      (sample_collab_task\<lparr>ct_context := [(''coder'', [(''subtask_1'', ''code'')])]\<rparr>) ()) =
   fst (run_single_subtask sample_collab_env ''t'' 0 (sample_collab_task\<lparr>ct_context := []\<rparr>) ())"
  using subtask_blind_to_other_roles [of sample_collab_task 0 "''researcher''"
      "[(''coder'', [(''subtask_1'', ''code'')])]" "[]" sample_collab_env "''t''" "()"]
  by (simp add: sample_collab_task_def role_str_def dget_or_def)

text \<open>Of the text a subtask streams only its last chunk survives in the shared context, and only
  the last chunk of the planner decides the subtasks.\<close>

theorem only_last_chunk_survives:
  assumes "ae_type e = ''text''" and "ae_content e \<noteq> []"
  shows "dget (dget_or (foldl (note_text r i) ctx (es @ [e])) r []) (''subtask_'' @ str_nat i) =
      Some (ae_content e) \<and>
    ct_subtasks (foldl (plan_step env) task (es @ [e])) = parse_planner_output env (ae_content e)"
  using assms by (simp add: note_text_def plan_step_def)

theorem only_last_chunk_survives_witness:
  "dget (dget_or (foldl (note_text ''coder'' 0) [] ([\<lparr>ae_type = ''text'', ae_content = ''first''\<rparr>] @
     [\<lparr>ae_type = ''text'', ae_content = ''last''\<rparr>])) ''coder'' []) (''subtask_'' @ str_nat 0) = Some ''last''"
  using only_last_chunk_survives [of "\<lparr>ae_type = ''text'', ae_content = ''last''\<rparr>" "''coder''" 0 "[]"
      "[\<lparr>ae_type = ''text'', ae_content = ''first''\<rparr>]" sample_collab_env sample_collab_task] by simp

end
