(* ===== verification/Compaction.thy ===== *)
theory Compaction
  imports Messages
begin

text \<open>
  The history of a conversation on its way into a model's context, \<^verbatim>\<open>app/agent/runtime.py\<close>: token
  estimate, truncation of tool results, the snip, prune and graded compaction, and the repair of
  the pairing between assistant tool calls and tool messages. Messages are dictionaries; the lists
  under \<^verbatim>\<open>tool_calls\<close> hold dictionaries. \<open>dumps\<close> is \<^verbatim>\<open>json.dumps\<close>.
\<close>

section \<open>Configuration and estimate\<close>

record compaction_config =
  cc_strategy :: string
  cc_max_messages :: int
  cc_max_tokens :: int
  cc_threshold :: pyfloat
  cc_snip :: pyfloat
  cc_max_chars :: int
  cc_head :: int
  cc_tail :: int

definition default_config :: compaction_config where
  "default_config = \<lparr>cc_strategy = ''auto'', cc_max_messages = 16, cc_max_tokens = 8192,
     cc_threshold = 85 / 100, cc_snip = 70 / 100, cc_max_chars = 16000, cc_head = 2000, cc_tail = 1000\<rparr>"

definition value_tokens :: "(pyval \<Rightarrow> string) \<Rightarrow> pyval \<Rightarrow> int" where
  "value_tokens dumps v =
     (case v of
        PStr s \<Rightarrow> int (length s) div 4
      | PList xs \<Rightarrow> int (length (dumps v)) div 4
      | _ \<Rightarrow> 0)"

definition estimate_tokens :: "(pyval \<Rightarrow> string) \<Rightarrow> pydict list \<Rightarrow> int" where
  "estimate_tokens dumps ms =
     sum_list (map (\<lambda>m. 4 + sum_list (map (\<lambda>(k, v). value_tokens dumps v) m)) ms) + int (length ms) * 2"

section \<open>Truncation\<close>

definition truncate_text :: "string \<Rightarrow> int \<Rightarrow> int \<Rightarrow> int \<Rightarrow> string" where
  "truncate_text text max_chars head_chars tail_chars =
     (if int (length text) \<le> max_chars then text
      else py_take head_chars text @ ''...(truncated '' @
           str_int (int (length text) - head_chars - tail_chars) @ '' chars)...'' @
           py_last tail_chars text)"

definition cfg_truncate :: "compaction_config \<Rightarrow> string \<Rightarrow> string" where
  "cfg_truncate cfg text = truncate_text text (cc_max_chars cfg) (cc_head cfg) (cc_tail cfg)"

text \<open>\<open>sanitize\<close> is the output guard's replacement of host paths and secrets.\<close>

definition truncate_tool_result ::
  "(pyval \<Rightarrow> string) \<Rightarrow> (string \<Rightarrow> string) \<Rightarrow> compaction_config option \<Rightarrow> pyval \<Rightarrow> string" where
  "truncate_tool_result dumps sanitize cfg result =
     cfg_truncate (case cfg of None \<Rightarrow> default_config | Some c \<Rightarrow> c) (sanitize (dumps result))"

definition is_tool :: "pydict \<Rightarrow> bool" where
  "is_tool m \<longleftrightarrow> mget m ''role'' = PStr ''tool''"

definition is_caller :: "pydict \<Rightarrow> bool" where
  "is_caller m \<longleftrightarrow> mget m ''role'' = PStr ''assistant'' \<and> truthy (mget m ''tool_calls'')"

text \<open>The content of a message is a string in the neutral format.\<close>

definition snip_one :: "compaction_config \<Rightarrow> pydict \<Rightarrow> pydict" where
  "snip_one cfg m =
     (if is_tool m \<and> truthy (mget m ''tool_call_id'') then
        (let content = str_of (dget_or m ''content'' es);
             content' = (if int (length content) > cc_max_chars cfg div 2
               then cfg_truncate cfg content else content)
         in dset ''content'' (PStr content') m)
      else m)"

definition snip_tool_results :: "compaction_config \<Rightarrow> pydict list \<Rightarrow> pydict list" where
  "snip_tool_results cfg ms = map (snip_one cfg) ms"

section \<open>Prune\<close>

definition prune_one :: "compaction_config \<Rightarrow> pydict \<Rightarrow> pydict" where
  "prune_one cfg m =
     (if is_tool m \<and> truthy (mget m ''tool_call_id'')
      then [(''role'', PStr ''tool''), (''tool_call_id'', mget m ''tool_call_id''),
            (''content'', PStr (cfg_truncate cfg (str_of (py_or (mget m ''content'') es))))]
      else m)"

text \<open>The nearest assistant with tool calls before position \<open>idx\<close>.\<close>

fun caller_before :: "pydict list \<Rightarrow> nat \<Rightarrow> nat option" where
  "caller_before ms 0 = None"
| "caller_before ms (Suc j) = (if is_caller (ms ! j) then Some j else caller_before ms j)"

text \<open>One pass of the loop: the smallest start that the tool messages from \<open>start\<close> on ask for.\<close>

definition needed_start :: "pydict list \<Rightarrow> nat \<Rightarrow> nat" where
  "needed_start ms start =
     foldl (\<lambda>need idx.
         if is_tool (ms ! idx) \<and> \<not> (idx > start \<and> is_caller (ms ! (idx - 1)))
         then (case caller_before ms idx of None \<Rightarrow> need | Some j \<Rightarrow> min need j)
         else need)
       start [start..<length ms]"

lemma needed_start_fold:
  "foldl (\<lambda>need idx. if P idx then (case f idx of None \<Rightarrow> need | Some j \<Rightarrow> min need j) else need) s xs \<le> (s :: nat)"
  by (induction xs rule: rev_induct) (auto split: option.splits intro: min.coboundedI1)

lemma needed_start_le: "needed_start ms start \<le> start"
  unfolding needed_start_def by (rule needed_start_fold)

function widen_start :: "pydict list \<Rightarrow> nat \<Rightarrow> nat" where
  "widen_start ms start =
     (let need = needed_start ms start in if need = start then start else widen_start ms need)"
  by pat_completeness auto
termination
  by (relation "measure snd") (auto simp: le_neq_implies_less needed_start_le)

declare widen_start.simps [simp del]

definition first_start :: "pydict list \<Rightarrow> nat \<Rightarrow> nat" where
  "first_start ms budget =
     (let s = length ms - budget
      in if s < length ms \<and> is_tool (ms ! s) \<and> 0 < s then s - 1 else s)"

definition is_system :: "pydict \<Rightarrow> bool" where
  "is_system m \<longleftrightarrow> mget m ''role'' = PStr ''system''"

definition prune_messages :: "compaction_config \<Rightarrow> pydict list \<Rightarrow> pydict list" where
  "prune_messages cfg ms =
     (let system = filter is_system ms;
          processed = map (prune_one cfg) (filter (\<lambda>m. \<not> is_system m) ms);
          budget = cc_max_messages cfg - int (length system)
      in if budget \<le> 0 then system
         else system @ drop (widen_start processed (first_start processed (nat budget))) processed)"

section \<open>Graded compaction\<close>

definition compact_messages ::
  "(pyval \<Rightarrow> string) \<Rightarrow> compaction_config \<Rightarrow> pydict list \<Rightarrow> pydict list" where
  "compact_messages dumps cfg ms =
     (if cc_strategy cfg = ''none'' then ms
      else if cc_strategy cfg = ''snipe'' then snip_tool_results cfg ms
      else if cc_strategy cfg = ''prune'' then prune_messages cfg ms
      else if int (length ms) > cc_max_messages cfg then prune_messages cfg ms
      else
        let ratio = (if cc_max_tokens cfg = 0 then 0
              else of_int (estimate_tokens dumps ms) / of_int (cc_max_tokens cfg) :: pyfloat)
        in if ratio \<ge> cc_threshold cfg then prune_messages cfg ms
           else if ratio \<ge> cc_snip cfg then snip_tool_results cfg ms
           else ms)"

section \<open>Pairing of calls and results\<close>

definition dict_of :: "pyval \<Rightarrow> pydict" where
  "dict_of v = (case v of PDict d \<Rightarrow> d | _ \<Rightarrow> [])"

definition calls_of :: "pydict \<Rightarrow> pyval list" where
  "calls_of m = (case mget m ''tool_calls'' of PList xs \<Rightarrow> xs | _ \<Rightarrow> [])"

definition call_id :: "pyval \<Rightarrow> pyval" where
  "call_id tc = mget (dict_of tc) ''id''"

definition answer_id :: "pydict \<Rightarrow> pyval" where
  "answer_id t = mget t ''tool_call_id''"

record seq_state =
  sq_result :: "pydict list"
  sq_pending :: "pydict option"
  sq_ids :: "pyval set"
  sq_answered :: "pyval set"
  sq_tools :: "pydict list"

definition seq_flush :: "seq_state \<Rightarrow> seq_state" where
  "seq_flush s =
     (case sq_pending s of
        None \<Rightarrow> s
      | Some m \<Rightarrow>
          (let m' = (if sq_ids s - sq_answered s \<noteq> {}
                 then dset ''tool_calls'' (PList (filter (\<lambda>tc. call_id tc \<in> sq_answered s) (calls_of m))) m
                 else m)
           in s\<lparr>sq_result := sq_result s @ m' # sq_tools s, sq_pending := None, sq_tools := []\<rparr>))"

definition seq_step :: "seq_state \<Rightarrow> pydict \<Rightarrow> seq_state" where
  "seq_step s m =
     (if is_caller m then
        (seq_flush s)\<lparr>sq_pending := Some m, sq_ids := call_id ` set (calls_of m), sq_answered := {},
                      sq_tools := []\<rparr>
      else if is_tool m \<and> sq_pending s \<noteq> None \<and> answer_id m \<in> sq_ids s then
        s\<lparr>sq_answered := insert (answer_id m) (sq_answered s), sq_tools := sq_tools s @ [m]\<rparr>
      else if is_tool m then s
      else (seq_flush s)\<lparr>sq_result := sq_result (seq_flush s) @ [m]\<rparr>)"

definition ensure_valid_tool_sequence :: "pydict list \<Rightarrow> pydict list" where
  "ensure_valid_tool_sequence ms =
     sq_result (seq_flush (foldl seq_step
       \<lparr>sq_result = [], sq_pending = None, sq_ids = {}, sq_answered = {}, sq_tools = []\<rparr> ms))"

section \<open>Valid sequences\<close>

text \<open>
  What the chat interfaces accept: a tool message only in the block right after an assistant with
  tool calls, and every call of that assistant answered in its block.
\<close>

inductive valid_seq :: "pydict list \<Rightarrow> bool" where
  valid_Nil: "valid_seq []"
| valid_plain: "\<not> is_tool m \<Longrightarrow> \<not> is_caller m \<Longrightarrow> valid_seq ms \<Longrightarrow> valid_seq (m # ms)"
| valid_block: "is_caller a \<Longrightarrow> list_all is_tool ts \<Longrightarrow>
    answer_id ` set ts = call_id ` set (calls_of a) \<Longrightarrow>
    valid_seq ms \<Longrightarrow> valid_seq (a # ts @ ms)"

lemma valid_seq_append: "valid_seq xs \<Longrightarrow> valid_seq ys \<Longrightarrow> valid_seq (xs @ ys)"
proof (induction rule: valid_seq.induct)
  case (valid_block a ts ms)
  then show ?case using valid_seq.valid_block [of a ts "ms @ ys"] by simp
qed (auto intro: valid_seq.intros)

lemma tool_not_caller: "is_tool m \<Longrightarrow> \<not> is_caller m"
  by (simp add: is_tool_def is_caller_def)

lemma flush_pending [simp]: "sq_pending (seq_flush s) = None"
  by (simp add: seq_flush_def Let_def split: option.split)

lemma flush_None: "sq_pending s = None \<Longrightarrow> seq_flush s = s"
  by (simp add: seq_flush_def)

text \<open>The caller under construction, its answers so far, and a valid result.\<close>

definition seq_ok :: "seq_state \<Rightarrow> bool" where
  "seq_ok s \<longleftrightarrow> valid_seq (sq_result s) \<and>
     (case sq_pending s of
        None \<Rightarrow> True
      | Some m \<Rightarrow> is_caller m \<and> sq_ids s = call_id ` set (calls_of m) \<and> sq_answered s \<subseteq> sq_ids s \<and>
          list_all is_tool (sq_tools s) \<and>
          sq_answered s = answer_id ` set (sq_tools s))"

lemma flush_valid:
  assumes "seq_ok s"
  shows "valid_seq (sq_result (seq_flush s))"
proof (cases "sq_pending s")
  case None
  with assms show ?thesis by (simp add: seq_ok_def flush_None)
next
  case (Some m)
  let ?ids = "\<lambda>t. answer_id t" and ?ts = "sq_tools s"
  have ok: "valid_seq (sq_result s)" "is_caller m" "sq_ids s = call_id ` set (calls_of m)"
    "sq_answered s \<subseteq> sq_ids s" "list_all is_tool ?ts" "sq_answered s = ?ids ` set ?ts"
    using assms unfolding seq_ok_def Some option.case by blast+
  have block: "valid_seq (m' # ?ts)" if "is_caller m'" "call_id ` set (calls_of m') = sq_answered s" for m'
    using valid_block [OF that(1) ok(5) _ valid_Nil] that(2) ok(6) by simp
  show ?thesis
  proof (cases "sq_ids s - sq_answered s = {}")
    case True
    then have "call_id ` set (calls_of m) = sq_answered s" using ok(3,4) by auto
    with block [OF ok(2)] ok(1) True Some show ?thesis
      by (simp add: seq_flush_def valid_seq_append)
  next
    case False
    let ?cs = "filter (\<lambda>tc. call_id tc \<in> sq_answered s) (calls_of m)"
    let ?m = "dset ''tool_calls'' (PList ?cs) m"
    have role: "mget ?m ''role'' = PStr ''assistant''" using ok(2) by (simp add: is_caller_def)
    have "valid_seq (?m # ?ts)"
    proof (cases "?cs = []")
      case True
      then have "sq_answered s = {}" using ok(3,4) by (auto simp: filter_empty_conv)
      then have "?ts = []" using ok(6) by simp
      moreover have "\<not> is_tool ?m" "\<not> is_caller ?m" using role True by (simp_all add: is_tool_def is_caller_def)
      ultimately show ?thesis by (simp add: valid_plain valid_Nil)
    next
      case nonempty: False
      have "calls_of ?m = ?cs" by (simp add: calls_of_def)
      moreover have "is_caller ?m" using role nonempty by (simp add: is_caller_def)
      moreover have "call_id ` set ?cs = sq_answered s" using ok(3,4) by auto
      ultimately show ?thesis using block [of ?m] by simp
    qed
    with ok(1) False Some show ?thesis by (simp add: seq_flush_def valid_seq_append)
  qed
qed

lemma step_ok:
  assumes "seq_ok s"
  shows "seq_ok (seq_step s m)"
proof -
  have valid: "valid_seq (sq_result (seq_flush s))" by (rule flush_valid [OF assms])
  consider (caller) "is_caller m"
    | (answer) "is_tool m" "sq_pending s \<noteq> None" "answer_id m \<in> sq_ids s"
    | (orphan) "is_tool m" "\<not> (sq_pending s \<noteq> None \<and> answer_id m \<in> sq_ids s)"
    | (plain) "\<not> is_caller m" "\<not> is_tool m"
    using tool_not_caller by blast
  then show ?thesis
  proof cases
    case caller
    then show ?thesis using valid by (simp add: seq_step_def seq_ok_def)
  next
    case answer
    then obtain a where a: "sq_pending s = Some a" by blast
    moreover have "is_caller a" "sq_answered s \<subseteq> sq_ids s" "list_all is_tool (sq_tools s)"
      "sq_ids s = call_id ` set (calls_of a)" "sq_answered s = answer_id ` set (sq_tools s)"
      "valid_seq (sq_result s)" using assms unfolding seq_ok_def a option.case by blast+
    moreover have "seq_step s m = s\<lparr>sq_answered := insert (answer_id m) (sq_answered s), sq_tools := sq_tools s @ [m]\<rparr>"
      using answer by (simp add: seq_step_def tool_not_caller)
    ultimately show ?thesis using answer unfolding seq_ok_def by simp
  next
    case orphan
    then show ?thesis using assms by (auto simp: seq_step_def tool_not_caller)
  next
    case plain
    have "valid_seq (sq_result (seq_flush s) @ [m])"
      using plain by (intro valid_seq_append [OF valid]) (simp add: valid_plain valid_Nil)
    then show ?thesis using plain by (simp add: seq_step_def seq_ok_def)
  qed
qed

lemma fold_step_ok: "seq_ok s \<Longrightarrow> seq_ok (foldl seq_step s ms)"
  by (induction ms arbitrary: s) (auto intro: step_ok)

lemma fold_answers:
  "sq_pending s \<noteq> None \<Longrightarrow> list_all is_tool ts \<Longrightarrow>
   answer_id ` set ts \<subseteq> sq_ids s \<Longrightarrow>
   foldl seq_step s ts = s\<lparr>sq_answered := sq_answered s \<union> answer_id ` set ts,
     sq_tools := sq_tools s @ ts\<rparr>"
proof (induction ts arbitrary: s)
  case (Cons t ts)
  then have "seq_step s t = s\<lparr>sq_answered := insert (answer_id t) (sq_answered s),
      sq_tools := sq_tools s @ [t]\<rparr>"
    by (simp add: seq_step_def tool_not_caller)
  with Cons show ?case by simp
qed simp

lemma fold_valid:
  "valid_seq ms \<Longrightarrow> sq_result (seq_flush (foldl seq_step s ms)) = sq_result (seq_flush s) @ ms"
proof (induction arbitrary: s rule: valid_seq.induct)
  case valid_Nil
  then show ?case by simp
next
  case (valid_plain m ms)
  let ?s = "(seq_flush s)\<lparr>sq_result := sq_result (seq_flush s) @ [m]\<rparr>"
  have "seq_step s m = ?s" using valid_plain.hyps by (simp add: seq_step_def)
  moreover have "seq_flush ?s = ?s" by (rule flush_None) simp
  ultimately show ?case using valid_plain.IH [of ?s] by simp
next
  case (valid_block a ts ms)
  let ?s = "(seq_flush s)\<lparr>sq_pending := Some a, sq_ids := call_id ` set (calls_of a), sq_answered := {},
      sq_tools := []\<rparr>"
  have one: "seq_step s a = ?s" using valid_block.hyps(1) by (simp add: seq_step_def)
  have "foldl seq_step ?s ts = ?s\<lparr>sq_answered := {} \<union> answer_id ` set ts, sq_tools := [] @ ts\<rparr>"
    using fold_answers [of ?s ts] valid_block.hyps(2,3) by simp
  then have "sq_result (seq_flush (foldl seq_step ?s ts)) = sq_result (seq_flush s) @ a # ts"
    using valid_block.hyps(3) by (simp add: seq_flush_def)
  with valid_block.IH [of "foldl seq_step ?s ts"] one show ?case by simp
qed

section \<open>The start of the kept messages\<close>

lemma fold_min_le:
  "x \<in> set xs \<Longrightarrow> P x \<Longrightarrow> f x = Some j \<Longrightarrow>
   foldl (\<lambda>need idx. if P idx then (case f idx of None \<Rightarrow> need | Some j \<Rightarrow> min need j) else need) s xs \<le> (j :: nat)"
proof (induction xs rule: rev_induct)
  case (snoc y xs)
  show ?case
  proof (cases "x = y")
    case False
    with snoc have "foldl (\<lambda>need idx. if P idx then (case f idx of None \<Rightarrow> need | Some j \<Rightarrow> min need j) else need) s xs \<le> j"
      by simp
    then show ?thesis by (auto split: option.splits intro: min.coboundedI1)
  qed (use snoc in simp)
qed simp

lemma widen_start_fixed: "needed_start ms (widen_start ms start) = widen_start ms start"
proof (induction ms start rule: widen_start.induct)
  case (1 ms start)
  then show ?case by (cases "needed_start ms start = start") (simp_all add: widen_start.simps [of ms start])
qed

lemma widen_start_callers:
  assumes "widen_start ms s0 \<le> i" and "i < length ms" and "is_tool (ms ! i)" and "caller_before ms i = Some j"
  shows "widen_start ms s0 \<le> j"
proof (cases "widen_start ms s0 < i \<and> is_caller (ms ! (i - 1))")
  case True
  then obtain k where k: "i = Suc k" by (cases i) auto
  with True assms(4) have "j = k" by simp
  with True k show ?thesis by simp
next
  case False
  let ?st = "widen_start ms s0"
  have "needed_start ms ?st \<le> j"
    unfolding needed_start_def
    by (rule fold_min_le [where x = i and f = "caller_before ms"]) (use assms False in auto)
  then show ?thesis by (simp add: widen_start_fixed)
qed

section \<open>Lengths of printed numbers\<close>

lemma length_str_nat: "n < 10 ^ Suc k \<Longrightarrow> length (str_nat n) \<le> Suc k"
proof (induction k arbitrary: n)
  case 0
  then show ?case by (subst str_nat.simps) simp
next
  case (Suc k)
  show ?case
  proof (cases "n < 10")
    case True
    then show ?thesis by (subst str_nat.simps) simp
  next
    case False
    have "n div 10 < 10 ^ Suc k" using Suc.prems by (simp add: div_less_iff_less_mult mult.commute)
    from Suc.IH [OF this] False show ?thesis by (subst str_nat.simps) simp
  qed
qed

section \<open>Properties\<close>

text \<open>C10: whatever history goes in, the repaired sequence is one the chat interfaces accept: tool
  messages only right after the assistant whose calls they answer, and every call answered.\<close>

theorem repaired_sequence_valid: "valid_seq (ensure_valid_tool_sequence ms)"
  unfolding ensure_valid_tool_sequence_def
  by (rule flush_valid, rule fold_step_ok) (simp add: seq_ok_def valid_Nil)

text \<open>The repair changes nothing in a history that is already valid.\<close>

theorem repair_keeps_valid_history:
  assumes "valid_seq ms"
  shows "ensure_valid_tool_sequence ms = ms"
  unfolding ensure_valid_tool_sequence_def fold_valid [OF assms] by (simp add: flush_None)

definition sample_history :: "pydict list" where
  "sample_history = [neutral ''user'' ''hi'' [] [], neutral ''assistant'' [] [] [(''c1'', ''run'', ''{}'')],
     neutral ''tool'' ''ok'' ''c1'' [], neutral ''assistant'' ''done'' [] []]"

theorem repair_keeps_valid_history_witness:
  "ensure_valid_tool_sequence sample_history = sample_history"
proof (rule repair_keeps_valid_history)
  have "valid_seq [neutral ''assistant'' ''done'' [] []]"
    by (rule valid_plain) (simp_all add: is_tool_def is_caller_def neutral_get valid_Nil)
  then have block: "valid_seq (neutral ''assistant'' [] [] [(''c1'', ''run'', ''{}'')] #
      [neutral ''tool'' ''ok'' ''c1'' []] @ [neutral ''assistant'' ''done'' [] []])"
    by (intro valid_block) (simp_all add: is_tool_def is_caller_def neutral_get neutral_calls_def
        calls_of_def call_id_def answer_id_def dict_of_def call_dict_def dget_or_def neutral_def)
  have "valid_seq (neutral ''user'' ''hi'' [] [] # neutral ''assistant'' [] [] [(''c1'', ''run'', ''{}'')] #
      [neutral ''tool'' ''ok'' ''c1'' []] @ [neutral ''assistant'' ''done'' [] []])"
    by (rule valid_plain [OF _ _ block]) (simp_all add: is_tool_def is_caller_def neutral_get)
  then show "valid_seq sample_history" by (simp add: sample_history_def)
qed

text \<open>Pruning keeps the system messages and a suffix of the rest, and for every tool message it
  keeps the nearest assistant with tool calls before it, if there is one, is kept as well.\<close>

theorem prune_keeps_callers:
  assumes "int (length (filter is_system ms)) < cc_max_messages cfg"
  shows "\<exists>k. prune_messages cfg ms =
      filter is_system ms @ drop k (map (prune_one cfg) (filter (\<lambda>m. \<not> is_system m) ms)) \<and>
    (\<forall>i j. k \<le> i \<longrightarrow> i < length (filter (\<lambda>m. \<not> is_system m) ms) \<longrightarrow>
       is_tool (map (prune_one cfg) (filter (\<lambda>m. \<not> is_system m) ms) ! i) \<longrightarrow>
       caller_before (map (prune_one cfg) (filter (\<lambda>m. \<not> is_system m) ms)) i = Some j \<longrightarrow> k \<le> j)"
proof -
  let ?p = "map (prune_one cfg) (filter (\<lambda>m. \<not> is_system m) ms)"
  let ?k = "widen_start ?p (first_start ?p (nat (cc_max_messages cfg - int (length (filter is_system ms)))))"
  have "prune_messages cfg ms = filter is_system ms @ drop ?k ?p"
    using assms by (simp add: prune_messages_def Let_def)
  moreover have "?k \<le> j" if "?k \<le> i" "i < length (filter (\<lambda>m. \<not> is_system m) ms)" "is_tool (?p ! i)"
    "caller_before ?p i = Some j" for i j
    using widen_start_callers [OF that(1) _ that(3,4)] that(2) by simp
  ultimately show ?thesis by blast
qed

definition small_config :: compaction_config where
  "small_config = default_config\<lparr>cc_max_messages := 2\<rparr>"

definition tool_history :: "pydict list" where
  "tool_history = [neutral ''assistant'' [] [] [(''c1'', ''a'', ''{}''), (''c2'', ''b'', ''{}'')],
     neutral ''tool'' ''1'' ''c1'' [], neutral ''tool'' ''2'' ''c2'' []]"

theorem prune_keeps_callers_witness:
  "\<exists>k. prune_messages small_config tool_history =
      drop k (map (prune_one small_config) tool_history)"
proof -
  have sys: "filter is_system tool_history = []" "filter (\<lambda>m. \<not> is_system m) tool_history = tool_history"
    by (simp_all add: tool_history_def is_system_def neutral_get)
  have "int (length (filter is_system tool_history)) < cc_max_messages small_config"
    by (simp add: sys small_config_def)
  from prune_keeps_callers [OF this] show ?thesis unfolding sys by auto
qed

text \<open>The limit on the number of messages is not a hard one: keeping a caller for its tool
  messages can leave more messages than the configuration allows.\<close>

theorem prune_exceeds_limit:
  "int (length (compact_messages (\<lambda>v. []) small_config tool_history)) > cc_max_messages small_config"
  by code_simp

text \<open>A truncated tool result is short: with the default configuration at most 3027 characters
  plus the digits of the number of characters left out.\<close>

theorem truncated_result_bounded:
  assumes "16000 < length text" and "length text < 10 ^ Suc k + 3000"
  shows "length (cfg_truncate default_config text) \<le> 3027 + Suc k \<and>
    take 2000 (cfg_truncate default_config text) = take 2000 text"
proof -
  let ?n = "length text - 3000"
  have "length (str_nat ?n) \<le> Suc k" using assms by (intro length_str_nat) linarith
  moreover have num: "int (length text) - 2000 - 1000 = int ?n" using assms(1) by simp
  have "str_int (int (length text) - 2000 - 1000) = str_nat ?n"
    unfolding num by (simp add: str_int_def)
  moreover have "cfg_truncate default_config text = take 2000 text @ ''...(truncated '' @
      str_int (int (length text) - 2000 - 1000) @ '' chars)...'' @ drop (length text - 1000) text"
    using assms(1) by (simp add: cfg_truncate_def truncate_text_def default_config_def py_take_def py_last_def)
  ultimately show ?thesis using assms(1) by simp
qed

theorem truncated_result_bounded_witness:
  "length (cfg_truncate default_config (replicate 20000 (CHR ''x''))) \<le> 3032"
proof -
  have l: "16000 < length (replicate 20000 (CHR ''x''))"
    "length (replicate 20000 (CHR ''x'')) < 10 ^ Suc 4 + 3000" by simp_all
  show ?thesis using truncated_result_bounded [OF l] by simp
qed

text \<open>The snip stage only ever shortens tool results longer than the full limit: its own check at
  half the limit has no effect.\<close>

theorem snip_half_limit_has_no_effect:
  assumes "0 \<le> cc_max_chars cfg" and "is_tool m" and "truthy (mget m ''tool_call_id'')"
  shows "snip_one cfg m = dset ''content'' (PStr (cfg_truncate cfg (str_of (dget_or m ''content'' es)))) m"
proof -
  have "cfg_truncate cfg t = t" if "int (length t) \<le> cc_max_chars cfg div 2" for t
  proof -
    have "int (length t) \<le> cc_max_chars cfg" using that assms(1) by linarith
    then show ?thesis by (simp add: cfg_truncate_def truncate_text_def)
  qed
  then show ?thesis using assms(2,3) by (auto simp: snip_one_def Let_def)
qed

theorem snip_half_limit_has_no_effect_witness:
  "snip_one default_config (neutral ''tool'' (replicate 12000 (CHR ''x'')) ''c1'' []) =
    dset ''content'' (PStr (cfg_truncate default_config (replicate 12000 (CHR ''x''))))
      (neutral ''tool'' (replicate 12000 (CHR ''x'')) ''c1'' [])"
proof -
  let ?m = "neutral ''tool'' (replicate 12000 (CHR ''x'')) ''c1'' []"
  have "0 \<le> cc_max_chars default_config" "is_tool ?m" "truthy (mget ?m ''tool_call_id'')"
    by (simp_all add: default_config_def is_tool_def neutral_get)
  from snip_half_limit_has_no_effect [OF this] show ?thesis by (simp add: neutral_get)
qed

definition anthropic_use :: pydict where
  "anthropic_use = [(''role'', PStr ''assistant''), (''content'', PList [PDict [(''type'', PStr ''tool_use''),
     (''id'', PStr ''c1''), (''name'', PStr ''run''), (''input'', PDict [])]])]"

definition anthropic_user :: pydict where
  "anthropic_user = [(''role'', PStr ''user''), (''content'', PList [PDict [(''type'', PStr ''tool_result''),
     (''tool_use_id'', PStr ''c1''), (''content'', PStr ''42'')],
     PDict [(''type'', PStr ''text''), (''text'', PStr ''and now?'')]])]"

lemma anthropic_call:
  "from_anthropic_one dumps fl anthropic_use =
    Inr [neutral ''assistant'' [] [] [(''c1'', ''run'', dumps (PDict []))]]"
  by code_simp

lemma anthropic_answer:
  "from_anthropic_one dumps fl anthropic_user =
    Inr [neutral ''user'' ''and now?'' [] [], neutral ''tool'' ''42'' ''c1'' []]"
  by code_simp

lemma anthropic_all:
  "from_anthropic dumps fl [anthropic_use, anthropic_user] =
    Inr [neutral ''assistant'' [] [] [(''c1'', ''run'', dumps (PDict []))],
      neutral ''user'' ''and now?'' [] [], neutral ''tool'' ''42'' ''c1'' []]"
  by (simp add: from_anthropic_def anthropic_call anthropic_answer)

lemma anthropic_repaired:
  "map (\<lambda>m. (mget m ''role'', calls_of m)) (ensure_valid_tool_sequence
      [neutral ''assistant'' [] [] [(''c1'', ''run'', x)],
       neutral ''user'' ''and now?'' [] [], neutral ''tool'' ''42'' ''c1'' []]) =
    [(PStr ''assistant'', []), (PStr ''user'', [])]"
  by code_simp

text \<open>An Anthropic user message that holds a tool result and text loses the result: the text is
  put before the tool message, and the repair then drops the call and its result.\<close>

theorem anthropic_result_with_text_lost:
  "(case from_anthropic dumps fl [anthropic_use, anthropic_user] of Inl e \<Rightarrow> False | Inr ms \<Rightarrow>
     map (\<lambda>m. mget m ''role'') ms = [PStr ''assistant'', PStr ''user'', PStr ''tool''] \<and>
     map (\<lambda>m. (mget m ''role'', calls_of m)) (ensure_valid_tool_sequence ms) =
       [(PStr ''assistant'', []), (PStr ''user'', [])])"
proof -
  have "map (\<lambda>m. mget m ''role'') [neutral ''assistant'' [] [] [(''c1'', ''run'', dumps (PDict []))],
      neutral ''user'' ''and now?'' [] [], neutral ''tool'' ''42'' ''c1'' []] =
      [PStr ''assistant'', PStr ''user'', PStr ''tool'']" by (simp add: neutral_get)
  then show ?thesis unfolding anthropic_all sum.case anthropic_repaired by blast
qed

end
