(* ===== verification/Approvals.thy ===== *)
theory Approvals
  imports Prelude
begin

text \<open>
  The approval of dangerous tool calls in \<^verbatim>\<open>app/agent/runtime.py\<close>: a run registers a future under the
  identifier of its call and hands out the approval event (\<^verbatim>\<open>_guarded_execute_tool\<close>), then looks the
  future up again and waits for it (\<^verbatim>\<open>_await_approval\<close>), while \<^verbatim>\<open>submit_approval\<close> resolves it from
  outside. One step per atomic section; runs of one runtime share the table. Futures are named by
  the run that made them.
\<close>

datatype future = Open | Resolved bool | Broken

datatype approval_pc =
    Ready
  | Asked
  | Waiting nat
  | Executed
  | Refused
  | Missing
  | TimedOut
  | CancelledRun

record approvals =
  ap_pending :: "string \<Rightarrow> nat option"
  ap_futures :: "nat \<Rightarrow> future"
  ap_pcs :: "nat \<Rightarrow> approval_pc"

definition new_approvals :: approvals where
  "new_approvals = \<lparr>ap_pending = (\<lambda>k. None), ap_futures = (\<lambda>f. Open), ap_pcs = (\<lambda>r. Ready)\<rparr>"

datatype approval_action = Ask nat | StartWait nat | Submit string bool | Wake nat | Expire nat

definition ap_goto :: "nat \<Rightarrow> approval_pc \<Rightarrow> approvals \<Rightarrow> approvals" where
  "ap_goto r p s = s\<lparr>ap_pcs := (ap_pcs s)(r := p)\<rparr>"

text \<open>The table loses the entry of the identifier, whosever it is.\<close>

definition ap_pop :: "string \<Rightarrow> approvals \<Rightarrow> approvals" where
  "ap_pop k s = s\<lparr>ap_pending := (ap_pending s)(k := None)\<rparr>"

definition ap_ask :: "string \<Rightarrow> nat \<Rightarrow> approvals \<Rightarrow> approvals" where
  "ap_ask k r s = ap_goto r Asked
     (s\<lparr>ap_pending := (ap_pending s)(k \<mapsto> r), ap_futures := (ap_futures s)(r := Open)\<rparr>)"

definition ap_start_wait :: "string \<Rightarrow> nat \<Rightarrow> approvals \<Rightarrow> approvals" where
  "ap_start_wait k r s =
     (case ap_pending s k of None \<Rightarrow> ap_goto r Missing s | Some f \<Rightarrow> ap_goto r (Waiting f) s)"

text \<open>\<open>submit_approval\<close> returns whether it resolved a future.\<close>

definition ap_submit :: "string \<Rightarrow> bool \<Rightarrow> approvals \<Rightarrow> bool \<times> approvals" where
  "ap_submit k b s =
     (case ap_pending s k of
        None \<Rightarrow> (False, s)
      | Some f \<Rightarrow>
          (if ap_futures s f = Open then (True, s\<lparr>ap_futures := (ap_futures s)(f := Resolved b)\<rparr>) else (False, s)))"

definition ap_wake :: "string \<Rightarrow> nat \<Rightarrow> nat \<Rightarrow> approvals \<Rightarrow> approvals option" where
  "ap_wake k r f s =
     (case ap_futures s f of
        Open \<Rightarrow> None
      | Resolved b \<Rightarrow> Some (ap_goto r (if b then Executed else Refused) (ap_pop k s))
      | Broken \<Rightarrow> Some (ap_goto r CancelledRun (ap_pop k s)))"

text \<open>A wait that times out cancels its future.\<close>

definition ap_expire :: "string \<Rightarrow> nat \<Rightarrow> nat \<Rightarrow> approvals \<Rightarrow> approvals option" where
  "ap_expire k r f s =
     (if ap_futures s f = Open
      then Some (ap_goto r TimedOut (ap_pop k (s\<lparr>ap_futures := (ap_futures s)(f := Broken)\<rparr>)))
      else None)"

fun ap_step :: "(nat \<Rightarrow> string) \<Rightarrow> approvals \<Rightarrow> approval_action \<Rightarrow> approvals option" where
  "ap_step key s (Ask r) = (if ap_pcs s r = Ready then Some (ap_ask (key r) r s) else None)"
| "ap_step key s (StartWait r) = (if ap_pcs s r = Asked then Some (ap_start_wait (key r) r s) else None)"
| "ap_step key s (Submit k b) = Some (snd (ap_submit k b s))"
| "ap_step key s (Wake r) = (case ap_pcs s r of Waiting f \<Rightarrow> ap_wake (key r) r f s | _ \<Rightarrow> None)"
| "ap_step key s (Expire r) = (case ap_pcs s r of Waiting f \<Rightarrow> ap_expire (key r) r f s | _ \<Rightarrow> None)"

lemmas ap_defs = ap_ask_def ap_start_wait_def ap_submit_def ap_wake_def ap_expire_def ap_goto_def ap_pop_def

text \<open>The states reached by a sequence of steps.\<close>

inductive ap_reach :: "(nat \<Rightarrow> string) \<Rightarrow> approval_action list \<Rightarrow> approvals \<Rightarrow> bool" for key where
  Start: "ap_reach key [] new_approvals"
| Step: "ap_reach key as s \<Longrightarrow> ap_step key s a = Some s' \<Longrightarrow> ap_reach key (as @ [a]) s'"

fun ap_run :: "(nat \<Rightarrow> string) \<Rightarrow> approval_action list \<Rightarrow> approvals \<Rightarrow> approvals option" where
  "ap_run key [] s = Some s"
| "ap_run key (a # as) s = (case ap_step key s a of None \<Rightarrow> None | Some s' \<Rightarrow> ap_run key as s')"

lemma ap_run_reach:
  "ap_reach key bs s \<Longrightarrow> ap_run key as s = Some s' \<Longrightarrow> ap_reach key (bs @ as) s'"
proof (induction as arbitrary: bs s)
  case (Cons a as)
  then obtain t where t: "ap_step key s a = Some t" "ap_run key as t = Some s'" by (auto split: option.splits)
  show ?case using Cons.IH [OF ap_reach.Step [OF Cons.prems(1) t(1)] t(2)] by simp
qed simp

section \<open>The invariant\<close>

text \<open>
  Futures are found under the identifier of the run that made them; a resolved future was resolved
  by a submission for that identifier; a run executes only after such a submission.
\<close>

definition ap_inv :: "(nat \<Rightarrow> string) \<Rightarrow> approval_action list \<Rightarrow> approvals \<Rightarrow> bool" where
  "ap_inv key as s \<longleftrightarrow>
     (\<forall>k f. ap_pending s k = Some f \<longrightarrow> key f = k) \<and>
     (\<forall>r f. ap_pcs s r = Waiting f \<longrightarrow> key f = key r) \<and>
     (\<forall>f b. ap_futures s f = Resolved b \<longrightarrow> Submit (key f) b \<in> set as) \<and>
     (\<forall>r. ap_pcs s r = Executed \<longrightarrow> Submit (key r) True \<in> set as) \<and>
     (\<forall>r. ap_pcs s r = Refused \<longrightarrow> Submit (key r) False \<in> set as)"

lemma ap_inv_step:
  assumes "ap_inv key as s" and "ap_step key s a = Some s'"
  shows "ap_inv key (as @ [a]) s'"
proof (cases a)
  case (Ask r)
  with assms show ?thesis by (auto simp: ap_inv_def ap_defs split: if_splits)
next
  case (StartWait r)
  with assms show ?thesis by (auto simp: ap_inv_def ap_defs split: if_splits option.splits)
next
  case (Submit k b)
  with assms show ?thesis by (auto simp: ap_inv_def ap_defs split: if_splits option.splits)
next
  case (Wake r)
  then obtain f where f: "ap_pcs s r = Waiting f" "ap_wake (key r) r f s = Some s'"
    using assms(2) by (auto split: approval_pc.splits)
  then have "Submit (key r) b \<in> set as" if "ap_futures s f = Resolved b" for b
    using assms(1) that unfolding ap_inv_def by metis
  with f assms(1) Wake show ?thesis
    by (auto simp: ap_inv_def ap_defs split: future.splits if_splits)
next
  case (Expire r)
  then obtain f where "ap_pcs s r = Waiting f" "ap_expire (key r) r f s = Some s'"
    using assms(2) by (auto split: approval_pc.splits)
  with assms(1) Expire show ?thesis
    by (auto simp: ap_inv_def ap_defs split: if_splits)
qed

lemma ap_reach_inv: "ap_reach key as s \<Longrightarrow> ap_inv key as s"
proof (induction rule: ap_reach.induct)
  case Start
  then show ?case by (simp add: ap_inv_def new_approvals_def)
next
  case (Step as s a s')
  then show ?case using ap_inv_step by blast
qed

section \<open>Properties\<close>

text \<open>C12: In every interleaving of runs, submissions and timeouts a run executes its dangerous tool
  call only after somebody has approved the identifier of that call, and is refused only after
  somebody has rejected it.\<close>

theorem execution_needs_approval:
  assumes "ap_reach key as s"
  shows "(ap_pcs s r = Executed \<longrightarrow> Submit (key r) True \<in> set as) \<and>
    (ap_pcs s r = Refused \<longrightarrow> Submit (key r) False \<in> set as)"
  using ap_reach_inv [OF assms] by (simp add: ap_inv_def)

theorem execution_needs_approval_witness:
  "\<exists>s. ap_reach (\<lambda>r. ''call_1'') [Ask 0, StartWait 0, Submit ''call_1'' True, Wake 0] s \<and> ap_pcs s 0 = Executed \<and>
     Submit ''call_1'' True \<in> set [Ask 0, StartWait 0, Submit ''call_1'' True, Wake 0]"
proof -
  have "\<exists>s. ap_run (\<lambda>r. ''call_1'') [Ask 0, StartWait 0, Submit ''call_1'' True, Wake 0] new_approvals = Some s \<and>
      ap_pcs s 0 = Executed"
    by (simp add: new_approvals_def ap_defs)
  then obtain s where s: "ap_run (\<lambda>r. ''call_1'') [Ask 0, StartWait 0, Submit ''call_1'' True, Wake 0] new_approvals = Some s"
    "ap_pcs s 0 = Executed" by blast
  have reach: "ap_reach (\<lambda>r. ''call_1'') [Ask 0, StartWait 0, Submit ''call_1'' True, Wake 0] s"
    using ap_run_reach [OF ap_reach.Start s(1)] by simp
  with execution_needs_approval [OF reach, of 0] s(2) show ?thesis by blast
qed

text \<open>Two runs whose calls have the same identifier (for a call without one it is the name of the
  tool) wait for the same future: one approval, given for the second, lets both execute.\<close>

theorem one_approval_executes_two:
  assumes "r \<noteq> r'" and "key r = key r'"
  shows "\<exists>s. ap_reach key [Ask r, Ask r', StartWait r, StartWait r', Submit (key r') True, Wake r, Wake r'] s \<and>
    ap_pcs s r = Executed \<and> ap_pcs s r' = Executed"
proof -
  have "\<exists>s. ap_run key [Ask r, Ask r', StartWait r, StartWait r', Submit (key r') True, Wake r, Wake r'] new_approvals = Some s \<and>
      ap_pcs s r = Executed \<and> ap_pcs s r' = Executed"
    using assms by (simp add: new_approvals_def ap_defs)
  then show ?thesis using ap_run_reach [OF ap_reach.Start] by fastforce
qed

theorem one_approval_executes_two_witness:
  "\<exists>s. ap_reach (\<lambda>r. ''shell_exec'') [Ask 0, Ask 1, StartWait 0, StartWait 1, Submit ''shell_exec'' True, Wake 0, Wake 1] s \<and>
     ap_pcs s 0 = Executed \<and> ap_pcs s 1 = Executed"
  using one_approval_executes_two [of 0 1 "\<lambda>r. ''shell_exec''"] by simp

end
