(* ===== verification/Regex.thy ===== *)
theory Regex
  imports Prelude
begin

text \<open>
  The part of Python's \<^verbatim>\<open>re\<close> module that the engine uses: patterns as a datatype, the backtracking
  matcher with its preference order (greedy repetition, left alternative first), \<open>search\<close> and
  \<open>sub\<close>; and the declarative meaning of a pattern, with the proof that the matcher finds exactly
  its matches. A position is the character before it and the text that is left.
\<close>

type_synonym rpos = "char option \<times> string"

text \<open>Classes are lists of ranges of character codes, possibly complemented.\<close>

datatype rx =
    REps
  | RCls bool "(int \<times> int) list"
  | RSeq rx rx
  | RAlt rx rx
  | RStar rx
  | RBegin
  | REnd
  | RBound

definition in_ranges :: "(int \<times> int) list \<Rightarrow> int \<Rightarrow> bool" where
  "in_ranges rs n = list_ex (\<lambda>(a, b). a \<le> n \<and> n \<le> b) rs"

text \<open>The flag is \<open>re.IGNORECASE\<close>: a letter is tried in both cases.\<close>

definition cls_accepts :: "bool \<Rightarrow> bool \<Rightarrow> (int \<times> int) list \<Rightarrow> char \<Rightarrow> bool" where
  "cls_accepts ci neg rs c =
     (let n = (of_char c :: int)
      in neg \<noteq> (in_ranges rs n \<or>
        ci \<and> (65 \<le> n \<and> n \<le> 90 \<and> in_ranges rs (n + 32) \<or> 97 \<le> n \<and> n \<le> 122 \<and> in_ranges rs (n - 32))))"

text \<open>The end of the text, or of its last line; a word character; the edge of a word.\<close>

definition at_end :: "string \<Rightarrow> bool" where
  "at_end s \<longleftrightarrow> s = [] \<or> s = [CHR 0x0A]"

definition word_char :: "char \<Rightarrow> bool" where
  "word_char c =
     in_ranges [(48, 57), (65, 90), (95, 95), (97, 122), (170, 170), (178, 179), (181, 181), (185, 186), (188, 190),
       (192, 214), (216, 246), (248, 255)] (of_char c)"

definition word_edge :: "char option \<Rightarrow> string \<Rightarrow> bool" where
  "word_edge pv s \<longleftrightarrow>
     (case pv of None \<Rightarrow> False | Some c \<Rightarrow> word_char c) \<noteq> (case s of [] \<Rightarrow> False | c # cs \<Rightarrow> word_char c)"

section \<open>The matcher\<close>

text \<open>
  A greedy repetition: at most \<open>n\<close> iterations, each of which consumes something. The length of the
  text bounds their number.
\<close>

fun star_iter :: "(rpos \<Rightarrow> rpos list) \<Rightarrow> nat \<Rightarrow> rpos \<Rightarrow> rpos list" where
  "star_iter f 0 p = [p]"
| "star_iter f (Suc n) p =
     concat (map (star_iter f n) (filter (\<lambda>q. length (snd q) < length (snd p)) (f p))) @ [p]"

text \<open>The positions after a match, in the order in which backtracking tries them.\<close>

fun rx_match :: "bool \<Rightarrow> rx \<Rightarrow> rpos \<Rightarrow> rpos list" where
  "rx_match ci REps p = [p]"
| "rx_match ci (RCls neg rs) p =
     (case snd p of [] \<Rightarrow> [] | c # cs \<Rightarrow> if cls_accepts ci neg rs c then [(Some c, cs)] else [])"
| "rx_match ci (RSeq r s) p = concat (map (rx_match ci s) (rx_match ci r p))"
| "rx_match ci (RAlt r s) p = rx_match ci r p @ rx_match ci s p"
| "rx_match ci (RStar r) p = star_iter (rx_match ci r) (length (snd p)) p"
| "rx_match ci RBegin p = (if fst p = None then [p] else [])"
| "rx_match ci REnd p = (if at_end (snd p) then [p] else [])"
| "rx_match ci RBound p = (if word_edge (fst p) (snd p) then [p] else [])"

definition rx_at :: "bool \<Rightarrow> rx \<Rightarrow> rpos \<Rightarrow> rpos option" where
  "rx_at ci r p = (case rx_match ci r p of [] \<Rightarrow> None | q # qs \<Rightarrow> Some q)"

fun search_from :: "bool \<Rightarrow> rx \<Rightarrow> char option \<Rightarrow> string \<Rightarrow> bool" where
  "search_from ci r pv [] = (rx_at ci r (pv, []) \<noteq> None)"
| "search_from ci r pv (c # cs) = (rx_at ci r (pv, c # cs) \<noteq> None \<or> search_from ci r (Some c) cs)"

text \<open>\<open>pattern.search(s)\<close> as a truth value.\<close>

definition rx_search :: "bool \<Rightarrow> rx \<Rightarrow> string \<Rightarrow> bool" where
  "rx_search ci r s = search_from ci r None s"

text \<open>\<open>pattern.sub(t, s)\<close> for a pattern that does not match the empty string.\<close>

function sub_from :: "bool \<Rightarrow> rx \<Rightarrow> string \<Rightarrow> char option \<Rightarrow> string \<Rightarrow> string" where
  "sub_from ci r t pv [] = []"
| "sub_from ci r t pv (c # cs) =
     (case rx_at ci r (pv, c # cs) of
        None \<Rightarrow> c # sub_from ci r t (Some c) cs
      | Some q \<Rightarrow> (if length (snd q) < length (c # cs) then t @ sub_from ci r t (fst q) (snd q)
                  else c # sub_from ci r t (Some c) cs))"
  by pat_completeness auto
termination by (relation "measure (\<lambda>(ci, r, t, pv, s). length s)") auto

definition rx_sub :: "bool \<Rightarrow> rx \<Rightarrow> string \<Rightarrow> string \<Rightarrow> string" where
  "rx_sub ci r t s = sub_from ci r t None s"

section \<open>Patterns\<close>

definition rchar :: "char \<Rightarrow> rx" where
  "rchar c = RCls False [(of_char c, of_char c)]"

fun rlit :: "string \<Rightarrow> rx" where
  "rlit [] = REps"
| "rlit (c # cs) = RSeq (rchar c) (rlit cs)"

definition rplus :: "rx \<Rightarrow> rx" where
  "rplus r = RSeq r (RStar r)"

definition ropt :: "rx \<Rightarrow> rx" where
  "ropt r = RAlt r REps"

fun rrep :: "nat \<Rightarrow> rx \<Rightarrow> rx" where
  "rrep 0 r = REps"
| "rrep (Suc n) r = RSeq r (rrep n r)"

definition ratleast :: "nat \<Rightarrow> rx \<Rightarrow> rx" where
  "ratleast n r = RSeq (rrep n r) (RStar r)"

fun ralts :: "rx list \<Rightarrow> rx" where
  "ralts [] = RCls False []"
| "ralts [r] = r"
| "ralts (r # s # rs) = RAlt r (ralts (s # rs))"

fun rseqs :: "rx list \<Rightarrow> rx" where
  "rseqs [] = REps"
| "rseqs [r] = r"
| "rseqs (r # s # rs) = RSeq r (rseqs (s # rs))"

text \<open>White space of \<^verbatim>\<open>\s\<close>.\<close>

definition rspace :: rx where
  "rspace = RCls False [(9, 13), (28, 32), (133, 133), (160, 160)]"

section \<open>What a pattern means\<close>

text \<open>\<open>rx_rel ci r p q\<close>: the pattern matches the text between the positions \<open>p\<close> and \<open>q\<close>.\<close>

inductive rx_rel :: "bool \<Rightarrow> rx \<Rightarrow> rpos \<Rightarrow> rpos \<Rightarrow> bool" for ci where
  Eps: "rx_rel ci REps p p"
| Cls: "cls_accepts ci neg rs c \<Longrightarrow> rx_rel ci (RCls neg rs) (pv, c # cs) (Some c, cs)"
| Seq: "rx_rel ci r p q \<Longrightarrow> rx_rel ci s q u \<Longrightarrow> rx_rel ci (RSeq r s) p u"
| AltL: "rx_rel ci r p q \<Longrightarrow> rx_rel ci (RAlt r s) p q"
| AltR: "rx_rel ci s p q \<Longrightarrow> rx_rel ci (RAlt r s) p q"
| StarZ: "rx_rel ci (RStar r) p p"
| StarS: "rx_rel ci r p q \<Longrightarrow> rx_rel ci (RStar r) q u \<Longrightarrow> rx_rel ci (RStar r) p u"
| Begin: "rx_rel ci RBegin (None, s) (None, s)"
| End: "at_end s \<Longrightarrow> rx_rel ci REnd (pv, s) (pv, s)"
| Bound: "word_edge pv s \<Longrightarrow> rx_rel ci RBound (pv, s) (pv, s)"

inductive_cases EpsE: "rx_rel ci REps p q"
inductive_cases ClsE: "rx_rel ci (RCls neg rs) p q"
inductive_cases SeqE: "rx_rel ci (RSeq r s) p q"
inductive_cases AltE: "rx_rel ci (RAlt r s) p q"
inductive_cases BeginE: "rx_rel ci RBegin p q"
inductive_cases EndE: "rx_rel ci REnd p q"
inductive_cases BoundE: "rx_rel ci RBound p q"

text \<open>A match moves forward over a word of the text.\<close>

lemma rx_rel_word: "rx_rel ci r p q \<Longrightarrow> \<exists>w. snd p = w @ snd q \<and> fst q = (if w = [] then fst p else Some (last w))"
proof (induction rule: rx_rel.induct)
  case (Cls neg rs c pv cs)
  then show ?case by (intro exI [of _ "[c]"]) simp
next
  case (Seq r p q s u)
  then obtain v w where "snd p = v @ snd q" "fst q = (if v = [] then fst p else Some (last v))"
    "snd q = w @ snd u" "fst u = (if w = [] then fst q else Some (last w))" by blast
  then show ?case by (intro exI [of _ "v @ w"]) auto
next
  case (StarS r p q u)
  then obtain v w where "snd p = v @ snd q" "fst q = (if v = [] then fst p else Some (last v))"
    "snd q = w @ snd u" "fst u = (if w = [] then fst q else Some (last w))" by blast
  then show ?case by (intro exI [of _ "v @ w"]) auto
qed auto

lemma rx_rel_length: "rx_rel ci r p q \<Longrightarrow> length (snd q) \<le> length (snd p)"
  by (drule rx_rel_word) auto

lemma rx_rel_stay: "rx_rel ci r p q \<Longrightarrow> length (snd p) \<le> length (snd q) \<Longrightarrow> q = p"
  by (drule rx_rel_word) (auto simp: prod_eq_iff)

section \<open>The matcher finds exactly the matches\<close>

lemma star_iter_sound:
  "(\<And>p q. q \<in> set (f p) \<Longrightarrow> rx_rel ci r p q) \<Longrightarrow> q \<in> set (star_iter f n p) \<Longrightarrow> rx_rel ci (RStar r) p q"
proof (induction n arbitrary: p)
  case 0
  then show ?case by (auto intro: rx_rel.StarZ)
next
  case (Suc n)
  from Suc.prems(2) consider "q = p" | u where "u \<in> set (f p)" "q \<in> set (star_iter f n u)"
    by (simp del: split_paired_Ex) blast
  then show ?case
  proof cases
    case 1
    then show ?thesis using rx_rel.StarZ by simp
  next
    case 2
    show ?thesis using rx_rel.StarS [OF Suc.prems(1) [OF 2(1)] Suc.IH [OF Suc.prems(1) 2(2)]] .
  qed
qed

lemma rx_match_sound: "q \<in> set (rx_match ci r p) \<Longrightarrow> rx_rel ci r p q"
proof (induction r arbitrary: p q)
  case (RCls neg rs)
  then show ?case by (cases p) (auto intro: rx_rel.intros split: list.splits if_splits)
next
  case (RSeq r s)
  from RSeq.prems obtain u where "u \<in> set (rx_match ci r p)" "q \<in> set (rx_match ci s u)"
    by (simp del: split_paired_Ex) blast
  then show ?case using RSeq.IH rx_rel.Seq by blast
next
  case (RAlt r s)
  from RAlt.prems consider "q \<in> set (rx_match ci r p)" | "q \<in> set (rx_match ci s p)" by auto
  then show ?case using RAlt.IH rx_rel.AltL rx_rel.AltR by cases blast+
next
  case (RStar r)
  then show ?case using star_iter_sound [of "rx_match ci r" ci r] by simp
next
  case RBegin
  then show ?case by (cases p) (auto intro: rx_rel.intros split: if_splits)
next
  case REnd
  then show ?case by (cases p) (auto intro: rx_rel.intros split: if_splits)
next
  case RBound
  then show ?case by (cases p) (auto intro: rx_rel.intros split: if_splits)
qed (auto intro: rx_rel.intros)

lemma star_iter_complete:
  assumes "\<And>p q. rx_rel ci r p q \<Longrightarrow> q \<in> set (f p)"
  shows "rx_rel ci s p q \<Longrightarrow> s = RStar r \<Longrightarrow> length (snd p) \<le> n \<Longrightarrow> q \<in> set (star_iter f n p)"
proof (induction arbitrary: n rule: rx_rel.induct)
  case (StarZ r p)
  then show ?case by (cases n) auto
next
  case (StarS r' p q u)
  show ?case
  proof (cases "length (snd q) < length (snd p)")
    case True
    then obtain m where n: "n = Suc m" using StarS.prems(2) by (cases n) auto
    then have "u \<in> set (star_iter f m q)" using StarS.IH(2) StarS.prems True by auto
    moreover have "q \<in> set (f p)" using assms StarS.hyps(1) StarS.prems(1) by auto
    ultimately have "\<exists>v \<in> set (f p). length (snd v) < length (snd p) \<and> u \<in> set (star_iter f m v)"
      using True by blast
    then show ?thesis by (simp add: n del: split_paired_Ex) blast
  next
    case False
    then have "q = p" using rx_rel_stay [OF StarS.hyps(1)] by simp
    then show ?thesis using StarS.IH(2) StarS.prems by simp
  qed
qed auto

lemma rx_match_complete: "rx_rel ci r p q \<Longrightarrow> q \<in> set (rx_match ci r p)"
proof (induction r arbitrary: p q)
  case (RStar r)
  show ?case using star_iter_complete [OF RStar.IH RStar.prems] by simp
next
  case (RSeq r s)
  from RSeq.prems obtain u where "rx_rel ci r p u" "rx_rel ci s u q" by (rule SeqE)
  then have "u \<in> set (rx_match ci r p)" "q \<in> set (rx_match ci s u)" using RSeq.IH by blast+
  then show ?case by (simp del: split_paired_Ex) blast
next
  case (RAlt r s)
  from RAlt.prems show ?case by (rule AltE) (simp_all add: RAlt.IH)
qed (auto elim: EpsE ClsE SeqE AltE BeginE EndE BoundE)

lemma rx_match_iff: "q \<in> set (rx_match ci r p) \<longleftrightarrow> rx_rel ci r p q"
  using rx_match_sound rx_match_complete by blast

lemma rx_at_iff: "rx_at ci r p \<noteq> None \<longleftrightarrow> (\<exists>q. rx_rel ci r p q)"
  using rx_match_iff [of _ ci r p] by (cases "rx_match ci r p") (auto simp: rx_at_def)

section \<open>Search and substitution\<close>

definition before :: "char option \<Rightarrow> string \<Rightarrow> char option" where
  "before pv a = (if a = [] then pv else Some (last a))"

lemma search_from_iff:
  "search_from ci r pv s \<longleftrightarrow> (\<exists>a b q. s = a @ b \<and> rx_rel ci r (before pv a, b) q)"
proof (induction s arbitrary: pv)
  case Nil
  then show ?case by (simp only: search_from.simps rx_at_iff) (auto simp: before_def)
next
  case (Cons c s)
  show ?case (is "_ \<longleftrightarrow> ?R")
  proof
    assume "search_from ci r pv (c # s)"
    then consider (here) q where "rx_rel ci r (pv, c # s) q"
      | (later) a b q where "s = a @ b" "rx_rel ci r (before (Some c) a, b) q"
      by (simp only: search_from.simps rx_at_iff Cons.IH) blast
    then show ?R
    proof cases
      case here
      then have "c # s = [] @ c # s \<and> rx_rel ci r (before pv [], c # s) q" by (simp add: before_def)
      then show ?thesis by blast
    next
      case later
      moreover have "before pv (c # a) = before (Some c) a" by (simp add: before_def)
      ultimately have "c # s = (c # a) @ b \<and> rx_rel ci r (before pv (c # a), b) q" by simp
      then show ?thesis by blast
    qed
  next
    assume ?R
    then obtain a b q where ab: "c # s = a @ b" "rx_rel ci r (before pv a, b) q" by blast
    show "search_from ci r pv (c # s)"
    proof (cases a)
      case Nil
      with ab have "rx_rel ci r (pv, c # s) q" by (simp add: before_def)
      then have "\<exists>q. rx_rel ci r (pv, c # s) q" by blast
      then show ?thesis by (simp only: search_from.simps rx_at_iff) blast
    next
      case (Cons d a')
      with ab have "s = a' @ b \<and> rx_rel ci r (before (Some c) a', b) q" by (auto simp: before_def)
      then have "search_from ci r (Some c) s" using Cons.IH by blast
      then show ?thesis by simp
    qed
  qed
qed

text \<open>A search succeeds exactly when the pattern matches at some place of the text.\<close>

lemma rx_search_iff:
  "rx_search ci r s \<longleftrightarrow> (\<exists>a b q. s = a @ b \<and> rx_rel ci r (before None a, b) q)"
  unfolding rx_search_def by (rule search_from_iff)

lemma sub_from_id: "\<not> search_from ci r pv s \<Longrightarrow> sub_from ci r t pv s = s"
proof (induction s arbitrary: pv)
  case (Cons c s)
  then have "rx_at ci r (pv, c # s) = None" "\<not> search_from ci r (Some c) s"
    by (simp_all del: split_paired_Ex split_paired_All)
  with Cons.IH show ?case by simp
qed simp

lemma rx_sub_id: "\<not> rx_search ci r s \<Longrightarrow> rx_sub ci r t s = s"
  unfolding rx_search_def rx_sub_def by (rule sub_from_id)

section \<open>Matches of common patterns\<close>

text \<open>Two texts that differ in the case of ASCII letters only.\<close>

abbreviation same_letters :: "string \<Rightarrow> string \<Rightarrow> bool" where
  "same_letters v w \<equiv> lower v = lower w"

lemma lower_char_code:
  "(of_char (lower_char c) :: int) =
     (if 65 \<le> (of_char c :: int) \<and> (of_char c :: int) \<le> 90 then of_char c + 32 else of_char c)"
proof -
  have c: "int (of_char d) = of_char d" for d :: char by (rule of_nat_of_char)
  have "of_char (char_of n :: char) = n" if "n < 256" for n :: nat using that by simp
  moreover have "(of_char c :: nat) + 32 < 256" if "(of_char c :: nat) \<le> 90" using that by simp
  ultimately have "(of_char (lower_char c) :: nat) =
      (if 65 \<le> (of_char c :: nat) \<and> (of_char c :: nat) \<le> 90 then of_char c + 32 else of_char c)"
    by (simp add: lower_char_def)
  then have "int (of_char (lower_char c)) =
      (if 65 \<le> int (of_char c) \<and> int (of_char c) \<le> 90 then int (of_char c) + 32 else int (of_char c))"
    by simp
  then show ?thesis unfolding c .
qed

lemma rel_rchar:
  assumes "lower_char d = lower_char c"
  shows "rx_rel True (rchar c) (pv, d # s) (Some d, s)"
proof -
  have "(of_char (lower_char d) :: int) = of_char (lower_char c)" using assms by simp
  then have "cls_accepts True False [(of_char c, of_char c)] d"
    unfolding lower_char_code cls_accepts_def in_ranges_def Let_def by (auto split: if_splits)
  then show ?thesis unfolding rchar_def by (rule rx_rel.Cls)
qed

lemma rel_rlit:
  "same_letters v w \<Longrightarrow> rx_rel True (rlit w) (pv, v @ s) (before pv v, s)"
proof (induction w arbitrary: v pv)
  case Nil
  then show ?case by (simp add: lower_def before_def rx_rel.Eps)
next
  case (Cons c w)
  then obtain d v' where v: "v = d # v'" "lower_char d = lower_char c" "same_letters v' w"
    by (cases v) (auto simp: lower_def)
  have "rx_rel True (rlit w) (Some d, v' @ s) (before (Some d) v', s)" by (rule Cons.IH [OF v(3)])
  moreover have "before (Some d) v' = before pv v" by (simp add: v(1) before_def)
  ultimately show ?case using rx_rel.Seq [OF rel_rchar [OF v(2)]] by (simp add: v(1))
qed

definition all_space :: "string \<Rightarrow> bool" where
  "all_space w \<longleftrightarrow> list_all (\<lambda>c. cls_accepts True False [(9, 13), (28, 32), (133, 133), (160, 160)] c) w"

lemma rel_space_star: "all_space w \<Longrightarrow> rx_rel True (RStar rspace) (pv, w @ s) (before pv w, s)"
proof (induction w arbitrary: pv)
  case Nil
  then show ?case by (simp add: before_def rx_rel.StarZ)
next
  case (Cons c w)
  then have "rx_rel True rspace (pv, c # w @ s) (Some c, w @ s)"
    unfolding rspace_def by (intro rx_rel.Cls) (simp add: all_space_def)
  moreover have "rx_rel True (RStar rspace) (Some c, w @ s) (before (Some c) w, s)"
    using Cons by (simp add: all_space_def)
  moreover have "before (Some c) w = before pv (c # w)" by (simp add: before_def)
  ultimately show ?case using rx_rel.StarS by simp
qed

lemma rel_space_plus: "all_space w \<Longrightarrow> w \<noteq> [] \<Longrightarrow> rx_rel True (rplus rspace) (pv, w @ s) (before pv w, s)"
proof -
  assume w: "all_space w" "w \<noteq> []"
  then obtain c v where cv: "w = c # v" by (cases w) auto
  with w have "rx_rel True rspace (pv, c # v @ s) (Some c, v @ s)"
    unfolding rspace_def by (intro rx_rel.Cls) (simp add: all_space_def)
  moreover have "rx_rel True (RStar rspace) (Some c, v @ s) (before (Some c) v, s)"
    using w cv by (intro rel_space_star) (simp add: all_space_def)
  moreover have "before (Some c) v = before pv w" by (simp add: cv before_def)
  ultimately show ?thesis unfolding rplus_def using rx_rel.Seq by (simp add: cv)
qed

lemma rel_opt_skip: "rx_rel ci (ropt r) p p"
  unfolding ropt_def by (intro rx_rel.AltR rx_rel.Eps)

end
