(* ===== verification/ToolRegistry.thy ===== *)
theory ToolRegistry
  imports PyVal
begin

text \<open>
  The local tool registry of \<^verbatim>\<open>app/tools/registry.py\<close>: registration with the users a tool belongs to,
  visibility, export and execution. Running a handler is an argument: its result or the text of
  its exception, and the world after it. Owner sets are lists without repetition.
\<close>

record 'h tool_def =
  td_name :: string
  td_description :: string
  td_parameters :: pyval
  td_handler :: 'h
  td_owners :: "string list"

type_synonym 'h tools = "(string, 'h tool_def) dict"

definition tg_register ::
  "string \<Rightarrow> string \<Rightarrow> pyval \<Rightarrow> 'h \<Rightarrow> string \<Rightarrow> 'h tools \<Rightarrow> 'h tools" where
  "tg_register name descr params handler owner ts =
     (case dget ts name of
        Some t \<Rightarrow> dset name (t\<lparr>td_owners := (if owner = [] then td_owners t else List.insert owner (td_owners t)),
            td_description := descr, td_parameters := params, td_handler := handler\<rparr>) ts
      | None \<Rightarrow> dset name \<lparr>td_name = name, td_description = descr, td_parameters = params,
            td_handler = handler, td_owners = (if owner = [] then [] else [owner])\<rparr> ts)"

definition tg_set_owners :: "string \<Rightarrow> string list \<Rightarrow> 'h tools \<Rightarrow> 'h tools" where
  "tg_set_owners name owners ts =
     (case dget ts name of None \<Rightarrow> ts | Some t \<Rightarrow> dset name (t\<lparr>td_owners := remdups owners\<rparr>) ts)"

definition tg_unregister :: "string \<Rightarrow> 'h tools \<Rightarrow> 'h tools" where
  "tg_unregister name ts = ddel name ts"

definition tg_unregister_prefix :: "string \<Rightarrow> 'h tools \<Rightarrow> nat \<times> 'h tools" where
  "tg_unregister_prefix p ts =
     (let removed = filter (starts_with p) (keys ts) in (length removed, foldl (\<lambda>ts n. ddel n ts) ts removed))"

definition tool_visible :: "'h tool_def \<Rightarrow> string \<Rightarrow> bool" where
  "tool_visible t user = (td_owners t = [] \<or> user \<in> set (td_owners t))"

text \<open>An explicit user wins over the one of the tool context.\<close>

definition resolve_user :: "string \<Rightarrow> string \<Rightarrow> string" where
  "resolve_user ctx user = (if user \<noteq> [] then user else ctx)"

definition openai_tool :: "'h tool_def \<Rightarrow> pyval" where
  "openai_tool t = PDict [(''type'', PStr ''function''), (''function'', PDict [(''name'', PStr (td_name t)),
     (''description'', PStr (td_description t)), (''parameters'', td_parameters t)])]"

definition tg_openai_tools :: "string \<Rightarrow> string \<Rightarrow> 'h tools \<Rightarrow> pyval list" where
  "tg_openai_tools ctx user ts =
     map (\<lambda>(n, t). openai_tool t) (filter (\<lambda>(n, t). tool_visible t (resolve_user ctx user)) ts)"

definition error_dict :: "string \<Rightarrow> pydict" where
  "error_dict e = [(''error'', PStr e)]"

definition tg_execute ::
  "('h \<Rightarrow> pyval \<Rightarrow> 'w \<Rightarrow> (string + pyval) \<times> 'w) \<Rightarrow> string \<Rightarrow> string \<Rightarrow> pyval \<Rightarrow> string \<Rightarrow> 'h tools \<Rightarrow> 'w \<Rightarrow>
   pydict \<times> 'w" where
  "tg_execute run ctx name params user ts w =
     (case dget ts name of
        None \<Rightarrow> (error_dict (''Tool '' @ quoted name @ '' not found''), w)
      | Some t \<Rightarrow>
          (if \<not> tool_visible t (resolve_user ctx user)
           then (error_dict (''Tool '' @ quoted name @ '' is not available for this user''), w)
           else case run (td_handler t) params w of
                  (Inl e, w') \<Rightarrow> (error_dict e, w')
                | (Inr (PDict d), w') \<Rightarrow> (d, w')
                | (Inr v, w') \<Rightarrow> ([(''output'', v)], w')))"

section \<open>Histories of a registry\<close>

datatype 'h registry_op =
    Register string string pyval 'h string
  | SetOwners string "string list"
  | Unregister string
  | UnregisterPrefix string

fun tg_step :: "'h tools \<Rightarrow> 'h registry_op \<Rightarrow> 'h tools" where
  "tg_step ts (Register n d p h u) = tg_register n d p h u ts"
| "tg_step ts (SetOwners n us) = tg_set_owners n us ts"
| "tg_step ts (Unregister n) = tg_unregister n ts"
| "tg_step ts (UnregisterPrefix p) = snd (tg_unregister_prefix p ts)"

lemmas tg_defs = tg_register_def tg_set_owners_def tg_unregister_def tg_unregister_prefix_def

text \<open>Names are unique, a tool carries the name it is registered under, owners are distinct.\<close>

definition tools_ok :: "'h tools \<Rightarrow> bool" where
  "tools_ok ts \<longleftrightarrow> wf_dict ts \<and> (\<forall>n t. dget ts n = Some t \<longrightarrow> td_name t = n \<and> distinct (td_owners t))"

lemma foldl_ddel: "wf_dict ts \<Longrightarrow> wf_dict (foldl (\<lambda>ts n. ddel n ts) ts ns) \<and>
   dget (foldl (\<lambda>ts n. ddel n ts) ts ns) k = (if k \<in> set ns then None else dget ts k)"
  by (induction ns arbitrary: ts) auto

lemma tools_ok_step: "tools_ok ts \<Longrightarrow> tools_ok (tg_step ts e)"
proof (cases e)
  case (UnregisterPrefix p)
  assume "tools_ok ts"
  then show ?thesis
    using foldl_ddel [of ts "filter (starts_with p) (keys ts)"]
    by (auto simp: UnregisterPrefix tools_ok_def tg_defs Let_def split: if_splits)
qed (auto simp: tools_ok_def tg_defs split: option.splits if_splits)

lemma tools_ok_run: "tools_ok ts \<Longrightarrow> tools_ok (run_events tg_step ts es)"
  using tools_ok_step by (rule run_events_inv)

text \<open>The function name of an exported entry.\<close>

definition exported_name :: "pyval \<Rightarrow> pyval" where
  "exported_name v =
     (case v of PDict d \<Rightarrow> (case dget_or d ''function'' PNone of PDict f \<Rightarrow> dget_or f ''name'' PNone | _ \<Rightarrow> PNone)
      | _ \<Rightarrow> PNone)"

lemma exported_openai [simp]: "exported_name (openai_tool t) = PStr (td_name t)"
  by (simp add: exported_name_def openai_tool_def dget_or_def)

section \<open>Properties\<close>

text \<open>After any history of a registry, a tool that belongs to some users and not to the current
  one is not run (the world is unchanged and an error is returned), and no export for that user
  names it.\<close>

theorem owned_tool_isolated:
  assumes "ts = run_events tg_step [] es" and "dget ts name = Some t" and "td_owners t \<noteq> []"
    and "resolve_user ctx user \<notin> set (td_owners t)"
  shows "snd (tg_execute run ctx name params user ts w) = w \<and>
    dget (fst (tg_execute run ctx name params user ts w)) ''error'' \<noteq> None \<and>
    (\<forall>v \<in> set (tg_openai_tools ctx user ts). exported_name v \<noteq> PStr name)"
proof -
  have ok: "tools_ok ts" unfolding assms(1) by (rule tools_ok_run) (simp add: tools_ok_def)
  have hidden: "\<not> tool_visible t (resolve_user ctx user)" using assms(3,4) by (simp add: tool_visible_def)
  have "td_name t' \<noteq> name" if "(n, t') \<in> set ts" "tool_visible t' (resolve_user ctx user)" for n t'
  proof
    assume eq: "td_name t' = name"
    have "dget ts n = Some t'" using ok that(1) by (simp add: tools_ok_def wf_dget_iff)
    with ok eq have "n = name" by (auto simp: tools_ok_def)
    with \<open>dget ts n = Some t'\<close> assms(2) hidden that(2) show False by simp
  qed
  with hidden assms(2) show ?thesis
    by (auto simp: tg_execute_def tg_openai_tools_def error_dict_def)
qed

theorem owned_tool_isolated_witness:
  "snd (tg_execute (\<lambda>h v w. (Inr PNone, True)) ''bob'' ''crm'' PNone [] [(''crm'', \<lparr>td_name = ''crm'', td_description = [],
     td_parameters = PNone, td_handler = (), td_owners = [''ann'']\<rparr>)] False) = False"
  using owned_tool_isolated [of "[(''crm'', \<lparr>td_name = ''crm'', td_description = [], td_parameters = PNone,
      td_handler = (), td_owners = [''ann'']\<rparr>)]" "[Register ''crm'' [] PNone () ''ann'']" "''crm''"
      "\<lparr>td_name = ''crm'', td_description = [], td_parameters = PNone, td_handler = (), td_owners = [''ann'']\<rparr>"
      "''bob''" "[]" "\<lambda>h v w. (Inr PNone, True)" PNone False]
  by (simp add: tg_register_def resolve_user_def)

text \<open>A user who registers a tool under the name of a global one takes it over: the handler is
  replaced for everybody and the tool is hidden from every other user.\<close>

theorem global_tool_taken_over:
  assumes "dget ts name = Some t" and "td_owners t = []" and "user \<noteq> []" and "other \<noteq> user"
  shows "\<exists>t'. dget (tg_register name d p h user ts) name = Some t' \<and> td_handler t' = h \<and>
    tool_visible t other \<and> \<not> tool_visible t' other"
  using assms by (simp add: tg_register_def tool_visible_def)

theorem global_tool_taken_over_witness:
  "\<exists>t'. dget (tg_register ''grep'' [] PNone ''evil'' ''ann'' (tg_register ''grep'' [] PNone ''grep'' [] [])) ''grep'' = Some t' \<and>
     td_handler t' = ''evil'' \<and> \<not> tool_visible t' ''bob''"
  using global_tool_taken_over [of "tg_register ''grep'' [] PNone ''grep'' [] []" "''grep''"
      "\<lparr>td_name = ''grep'', td_description = [], td_parameters = PNone, td_handler = ''grep'', td_owners = []\<rparr>"
      "''ann''" "''bob''" "[]" PNone "''evil''"]
  by (auto simp: tg_register_def)

end
