(* ===== verification/Modes.thy ===== *)
theory Modes
  imports Compaction
begin

text \<open>
  The run modes of an agent, \<^verbatim>\<open>app/agent/modes.py\<close>: the table of base modes, the overrides read from
  a JSON file, the choice of a mode, the tools it shows (\<^verbatim>\<open>_get_core_tools\<close>) and the compaction
  strategy it asks for (\<^verbatim>\<open>_resolve_compaction\<close>, both in \<^verbatim>\<open>app/agent/runtime.py\<close>). What the file holds
  is an argument; sets of tool names are lists, and only membership is asked.
\<close>

datatype agent_mode = NORMAL | MINIMAL | PTC | CREATIVE

fun mode_value :: "agent_mode \<Rightarrow> string" where
  "mode_value NORMAL = ''normal''"
| "mode_value MINIMAL = ''minimal''"
| "mode_value PTC = ''ptc''"
| "mode_value CREATIVE = ''creative''"

definition all_modes :: "agent_mode list" where
  "all_modes = [NORMAL, MINIMAL, PTC, CREATIVE]"

text \<open>\<open>AgentMode(v)\<close>; \<open>None\<close> is the \<open>ValueError\<close>.\<close>

definition mode_of :: "pyval \<Rightarrow> agent_mode option" where
  "mode_of v = find (\<lambda>m. PStr (mode_value m) = v) all_modes"

record mode_config =
  mc_mode :: agent_mode
  mc_persona :: pyval
  mc_include_context :: pyval
  mc_include_tools :: "pyval list"
  mc_extra_tools :: "pyval list"
  mc_enable_compaction :: pyval
  mc_compaction :: pyval

definition core_tool_names :: "string list" where
  "core_tool_names = [''recall'', ''remember'', ''skill_list'', ''skill_run'', ''web_fetch'', ''shell_exec'',
     ''execute_python'', ''git_status'', ''read_file'', ''write_file'', ''grep_files'', ''subagent'']"

definition minimal_tool_names :: "string list" where
  "minimal_tool_names = [''read_file'', ''edit_file'', ''shell_exec'']"

definition creative_persona :: string where
  "creative_persona =
     ''You are a coding agent on the MiniCC platform. '' @
     ''You can read and modify the agent mode definitions this platform runs on: '' @
     ''each mode is a declared configuration (persona, tool set, context policy). '' @
     ''Use mode_list to inspect the current modes and mode_edit to adjust them '' @
     ''(e.g. add a tool to minimal, tune a persona). Prefer reading before editing, '' @
     ''and keep changes reversible.''"

definition plain_mode :: "agent_mode \<Rightarrow> mode_config" where
  "plain_mode m = \<lparr>mc_mode = m, mc_persona = PNone, mc_include_context = PBool True,
     mc_include_tools = map PStr core_tool_names, mc_extra_tools = [], mc_enable_compaction = PBool True,
     mc_compaction = PNone\<rparr>"

fun base_mode :: "agent_mode \<Rightarrow> mode_config" where
  "base_mode NORMAL = plain_mode NORMAL"
| "base_mode MINIMAL = (plain_mode MINIMAL)\<lparr>mc_persona := PStr ''You are a helpful software engineer assistant.'',
     mc_include_context := PBool False, mc_include_tools := map PStr minimal_tool_names,
     mc_enable_compaction := PBool False\<rparr>"
| "base_mode PTC = (plain_mode PTC)\<lparr>mc_extra_tools := [PStr ''run_code'']\<rparr>"
| "base_mode CREATIVE = (plain_mode CREATIVE)\<lparr>mc_persona := PStr creative_persona,
     mc_extra_tools := [PStr ''mode_list'', PStr ''mode_edit'']\<rparr>"

text \<open>\<open>frozenset(v)\<close> needs an iterable of hashable elements.\<close>

fun hashable :: "pyval \<Rightarrow> bool" where
  "hashable (PList xs) = False"
| "hashable (PDict d) = False"
| "hashable v = True"

definition frozenset :: "pyval \<Rightarrow> pyval list res" where
  "frozenset v = bind_res (py_iter v) (\<lambda>xs. if list_all hashable xs then Inr xs else Inl TypeError)"

definition apply_overrides :: "mode_config \<Rightarrow> pyval \<Rightarrow> mode_config res" where
  "apply_overrides cfg overrides =
     (case overrides of
        PDict os \<Rightarrow>
          (case dget os (mode_value (mc_mode cfg)) of
             Some (PDict (p # d)) \<Rightarrow>
               (let o' = p # d in
                bind_res (frozenset (dget_or o' ''include_tools'' (PList (mc_include_tools cfg)))) (\<lambda>inc.
                bind_res (frozenset (dget_or o' ''extra_tools'' (PList (mc_extra_tools cfg)))) (\<lambda>ext.
                  Inr \<lparr>mc_mode = mc_mode cfg, mc_persona = dget_or o' ''persona'' (mc_persona cfg),
                       mc_include_context = dget_or o' ''include_context'' (mc_include_context cfg),
                       mc_include_tools = inc, mc_extra_tools = ext,
                       mc_enable_compaction = dget_or o' ''enable_compaction'' (mc_enable_compaction cfg),
                       mc_compaction = dget_or o' ''compaction'' (mc_compaction cfg)\<rparr>)))
           | _ \<Rightarrow> Inr cfg)
      | _ \<Rightarrow> Inl AttributeError)"

text \<open>The overrides are the parsed file; a missing or malformed file counts as empty.\<close>

definition get_mode_config :: "pyval res \<Rightarrow> pyval \<Rightarrow> mode_config" where
  "get_mode_config file mode =
     (let base = base_mode (case mode_of (py_or mode (PStr ''normal'')) of None \<Rightarrow> NORMAL | Some m \<Rightarrow> m)
      in case bind_res file (apply_overrides base) of Inl e \<Rightarrow> base | Inr cfg \<Rightarrow> cfg)"

section \<open>What a mode grants\<close>

definition tool_name_of :: "pyval \<Rightarrow> pyval" where
  "tool_name_of t = (case t of PDict d \<Rightarrow>
     (case dget_or d ''function'' (PDict []) of PDict f \<Rightarrow> dget_or f ''name'' PNone | _ \<Rightarrow> PNone) | _ \<Rightarrow> PNone)"

definition get_core_tools :: "mode_config \<Rightarrow> pyval list \<Rightarrow> pyval list option" where
  "get_core_tools cfg all_tools =
     (let core = filter (\<lambda>t. tool_name_of t \<in> set (mc_include_tools cfg) \<union> set (mc_extra_tools cfg)) all_tools;
          core' = (if core = [] \<and> mc_mode cfg = MINIMAL
                   then filter (\<lambda>t. tool_name_of t \<in> PStr ` set core_tool_names) all_tools else core)
      in if core' = [] then None else Some core')"

text \<open>\<open>CompactionConfig(**d)\<close>: an unknown key raises; the values have the types of their fields.\<close>

definition int_of :: "pyval \<Rightarrow> int" where
  "int_of v = (case v of PInt i \<Rightarrow> i | PFloat x \<Rightarrow> py_trunc x | _ \<Rightarrow> 0)"

definition num_of :: "pyval \<Rightarrow> pyfloat" where
  "num_of v = (case v of PInt i \<Rightarrow> of_int i | PFloat x \<Rightarrow> x | _ \<Rightarrow> 0)"

definition set_field :: "string \<Rightarrow> pyval \<Rightarrow> compaction_config \<Rightarrow> compaction_config option" where
  "set_field k v c =
     (if k = ''strategy'' then Some (c\<lparr>cc_strategy := str_of v\<rparr>)
      else if k = ''max_messages'' then Some (c\<lparr>cc_max_messages := int_of v\<rparr>)
      else if k = ''max_context_tokens'' then Some (c\<lparr>cc_max_tokens := int_of v\<rparr>)
      else if k = ''threshold_ratio'' then Some (c\<lparr>cc_threshold := num_of v\<rparr>)
      else if k = ''snipe_ratio'' then Some (c\<lparr>cc_snip := num_of v\<rparr>)
      else if k = ''tool_result_max_chars'' then Some (c\<lparr>cc_max_chars := int_of v\<rparr>)
      else if k = ''tool_result_head'' then Some (c\<lparr>cc_head := int_of v\<rparr>)
      else if k = ''tool_result_tail'' then Some (c\<lparr>cc_tail := int_of v\<rparr>)
      else None)"

fun config_of :: "pydict \<Rightarrow> compaction_config \<Rightarrow> compaction_config res" where
  "config_of [] c = Inr c"
| "config_of ((k, v) # d) c = (case set_field k v c of None \<Rightarrow> Inl TypeError | Some c' \<Rightarrow> config_of d c')"

definition resolve_compaction :: "mode_config \<Rightarrow> pydict \<Rightarrow> compaction_config option res" where
  "resolve_compaction cfg llm =
     (case mget llm ''compaction'' of
        PDict (p # d) \<Rightarrow> bind_res (config_of (p # d) default_config) (\<lambda>c. Inr (Some c))
      | _ \<Rightarrow>
          (case mc_compaction cfg of
             PDict [] \<Rightarrow> Inr None
           | PDict d \<Rightarrow> bind_res (config_of d default_config) (\<lambda>c. Inr (Some c))
           | v \<Rightarrow> if truthy v then Inl TypeError else Inr None))"

section \<open>Facts\<close>

lemma apply_overrides_mode: "apply_overrides cfg v = Inr cfg' \<Longrightarrow> mc_mode cfg' = mc_mode cfg"
  by (auto simp: apply_overrides_def Let_def bind_res_Inr split: pyval.splits option.splits list.splits if_splits)

lemma base_mode_mode [simp]: "mc_mode (base_mode m) = m"
  by (cases m) (simp_all add: plain_mode_def)

text \<open>Whatever the override file holds, asking for a mode by its name gives that mode, and any
  other request gives the normal one; without overrides it is the base table.\<close>

theorem mode_selection:
  "mc_mode (get_mode_config file (PStr (mode_value m))) = m \<and>
   (mode_of (py_or v (PStr ''normal'')) = None \<longrightarrow> mc_mode (get_mode_config file v) = NORMAL) \<and>
   get_mode_config (Inr (PDict [])) (PStr (mode_value m)) = base_mode m"
proof -
  have of_value: "mode_of (py_or (PStr (mode_value m)) (PStr ''normal'')) = Some m"
    by (cases m) (simp_all add: mode_of_def all_modes_def py_or_def)
  have keeps: "mc_mode (case bind_res file (apply_overrides (base_mode m)) of Inl e \<Rightarrow> base_mode m | Inr cfg \<Rightarrow> cfg) = m" for m
    by (auto simp: bind_res_def dest: apply_overrides_mode split: sum.splits)
  show ?thesis using of_value keeps by (simp add: get_mode_config_def Let_def apply_overrides_def del: base_mode.simps)
qed

theorem mode_selection_witness:
  "mc_mode (get_mode_config (Inl TypeError) (PStr (mode_value PTC))) = PTC \<and>
   mc_mode (get_mode_config (Inl TypeError) (PStr ''turbo'')) = NORMAL"
  using mode_selection [of "Inl TypeError" PTC "PStr ''turbo''"]
  by (simp add: mode_of_def all_modes_def py_or_def)

end
