(* ===== verification/AgentLoop.thy ===== *)
theory AgentLoop
  imports Guards ToolRegistry Modes Cache
begin

text \<open>
  The inference loop of \<^verbatim>\<open>AgentRuntime.run\<close> (\<^verbatim>\<open>app/agent/runtime.py\<close>): preparation of the messages,
  the turns (model call, streamed text and thinking, tool calls behind the guard, tool results),
  the fallback answer, the saving of the session, and the exception and finally paths. The model
  stream, the tools, the decision of the user, the session store, the memory service, the skill
  catalogue and JSON are arguments; \<open>'w\<close> is the world behind them. The trace records are not
  modelled, and neither is the closing of the event stream by its reader.
\<close>

section \<open>Tasks, events, environment\<close>

record agent_task =
  ak_id :: string
  ak_tenant :: string
  ak_user :: string
  ak_session :: string
  ak_content :: string
  ak_system :: string
  ak_history :: "pydict list"
  ak_tools :: "pydict list"
  ak_llm :: pydict
  ak_max_turns :: int

datatype agent_exn = PyExn py_error | ExtExn string

datatype agent_event =
    EvText string
  | EvToolCall pyval pyval pyval
  | EvToolResult pyval pyval string
  | EvApproval pyval pyval string
  | EvSpan int int pyval
  | EvError agent_exn
  | EvProviderError string
  | EvBlocked
  | EvDone int int

text \<open>What the memory service recalls: the profile block and the summaries.\<close>

record recall_item =
  ri_score :: pyfloat
  ri_topics :: "string list"
  ri_content :: string

record recalled =
  rc_profile :: string
  rc_items :: "recall_item list"

text \<open>
  A stream is its chunks, the exception that ends it and the world after its first \<open>n\<close> chunks. The
  decision on an approval is \<open>None\<close> when it times out, and a failed memory call leaves no session and
  nothing recalled. The headings are the two Chinese headings of the memory block and the
  placeholder of a user without a profile.
\<close>

record ('h, 'w) agent_env =
  ae_stream :: "string \<Rightarrow> chat_message list \<Rightarrow> pyval \<Rightarrow> pyval \<Rightarrow> pyval \<Rightarrow> pyval \<Rightarrow> 'w \<Rightarrow>
    chat_response list \<times> string option \<times> (nat \<Rightarrow> 'w)"
  ae_tools :: "'h tools"
  ae_handler :: "'h \<Rightarrow> pyval \<Rightarrow> 'w \<Rightarrow> (string + pyval) \<times> 'w"
  ae_external :: "(string \<Rightarrow> pyval \<Rightarrow> 'w \<Rightarrow> (string + pyval) \<times> 'w) option"
  ae_decide :: "pyval \<Rightarrow> 'w \<Rightarrow> bool option \<times> 'w"
  ae_store :: bool
  ae_get_or_init :: "string \<Rightarrow> pydict list \<Rightarrow> 'w \<Rightarrow> (string + pydict list) \<times> 'w"
  ae_append :: "string \<Rightarrow> pydict list \<Rightarrow> 'w \<Rightarrow> string option \<times> 'w"
  ae_memory :: bool
  ae_session_start :: "agent_task \<Rightarrow> string \<Rightarrow> 'w \<Rightarrow> bool \<times> 'w"
  ae_recall :: "agent_task \<Rightarrow> 'w \<Rightarrow> recalled option \<times> 'w"
  ae_turn_complete :: "string \<Rightarrow> int \<Rightarrow> int \<Rightarrow> int \<Rightarrow> pyval \<Rightarrow> 'w \<Rightarrow> 'w"
  ae_session_end :: "string \<Rightarrow> 'w \<Rightarrow> 'w"
  ae_headings :: "string \<times> string \<times> string"
  ae_score :: "pyfloat \<Rightarrow> string"
  ae_dumps :: "pyval \<Rightarrow> string"
  ae_loads :: "string \<Rightarrow> string + pyval"
  ae_float :: "pyfloat \<Rightarrow> string"
  ae_mode_file :: "pyval res"
  ae_default_model :: pyval
  ae_default_max_tokens :: pyval
  ae_default_temperature :: pyval

section \<open>Building messages\<close>

definition history_message :: "pydict \<Rightarrow> pydict res" where
  "history_message m = make_message (dget_or m ''role'' (PStr ''user'')) (dget_or m ''content'' es)
     (dget_or m ''tool_call_id'' es) (mget m ''tool_calls'') []"

definition user_message :: "string \<Rightarrow> pydict res" where
  "user_message c = make_message (PStr ''user'') (PStr c) es PNone []"

definition system_messages :: "agent_task \<Rightarrow> pydict list res" where
  "system_messages t =
     (if ak_system t = [] then Inr []
      else bind_res (make_message (PStr ''system'') (PStr (ak_system t)) es PNone []) (\<lambda>m. Inr [m]))"

definition build_history_msgs :: "agent_task \<Rightarrow> pydict list res" where
  "build_history_msgs t = bind_res (system_messages t) (\<lambda>s.
     bind_res (map_res history_message (ak_history t)) (\<lambda>hs. Inr (s @ hs)))"

definition build_messages :: "agent_task \<Rightarrow> pydict list res" where
  "build_messages t = bind_res (build_history_msgs t) (\<lambda>ms.
     if ak_content t = [] then Inr ms
     else bind_res (user_message (ak_content t)) (\<lambda>m. Inr (ms @ [m])))"

definition normalize_one :: "pydict \<Rightarrow> pydict res" where
  "normalize_one m = make_message (dget_or m ''role'' (PStr ''user'')) (py_or (dget_or m ''content'' es) es)
     (py_or (dget_or m ''tool_call_id'' es) es) (mget m ''tool_calls'') []"

text \<open>Messages in, messages out: normalisation, then compaction when the mode asks for it.\<close>

definition compact_step ::
  "('h, 'w) agent_env \<Rightarrow> mode_config \<Rightarrow> pydict \<Rightarrow> pydict list \<Rightarrow> pydict list res" where
  "compact_step env mode llm ms =
     (if truthy (mc_enable_compaction mode)
      then bind_res (resolve_compaction mode llm) (\<lambda>cfg.
        Inr (compact_messages (ae_dumps env) (case cfg of None \<Rightarrow> default_config | Some c \<Rightarrow> c) ms))
      else Inr ms)"

definition normalize_and_compact ::
  "('h, 'w) agent_env \<Rightarrow> mode_config \<Rightarrow> pydict \<Rightarrow> pydict list \<Rightarrow> pydict list res" where
  "normalize_and_compact env mode llm ms = bind_res (map_res normalize_one ms) (compact_step env mode llm)"

text \<open>Before a call: tool messages whose latest assistant message made no calls are dropped.\<close>

fun drop_orphans :: "bool \<Rightarrow> pydict list \<Rightarrow> pydict list" where
  "drop_orphans last_tc [] = []"
| "drop_orphans last_tc (m # ms) =
     (if is_tool m \<and> \<not> last_tc then drop_orphans last_tc ms
      else m # drop_orphans (if mget m ''role'' = PStr ''assistant'' then truthy (mget m ''tool_calls'') else last_tc) ms)"

definition convert_tool :: "('h, 'w) agent_env \<Rightarrow> pydict \<Rightarrow> pyval res" where
  "convert_tool env t =
     bind_res (case mget t ''parameters_json'' of
         PStr s \<Rightarrow> (case ae_loads env s of Inl e \<Rightarrow> Inl (ValueError e) | Inr v \<Rightarrow> Inr v)
       | _ \<Rightarrow> Inr (dget_or t ''parameters'' (PDict [])))
       (\<lambda>ps. Inr (PDict [(''type'', PStr ''function''), (''function'', PDict [(''name'', dget_or t ''name'' es),
          (''description'', dget_or t ''description'' es), (''parameters'', ps)])]))"

section \<open>Tool calls\<close>

definition err :: "string \<Rightarrow> pyval" where
  "err e = PDict (error_dict e)"

text \<open>Arguments that cannot be parsed count as empty for the guard and are passed on as \<open>raw\<close>.\<close>

definition guard_args :: "('h, 'w) agent_env \<Rightarrow> pyval \<Rightarrow> pyval" where
  "guard_args env a = (case a of PStr s \<Rightarrow> (case ae_loads env s of Inl e \<Rightarrow> PDict [] | Inr v \<Rightarrow> v) | _ \<Rightarrow> a)"

definition exec_args :: "('h, 'w) agent_env \<Rightarrow> pyval \<Rightarrow> pyval" where
  "exec_args env a = (case a of PStr s \<Rightarrow> (case ae_loads env s of Inl e \<Rightarrow> PDict [(''raw'', a)] | Inr v \<Rightarrow> v) | _ \<Rightarrow> a)"

definition execute_tool ::
  "('h, 'w) agent_env \<Rightarrow> agent_task \<Rightarrow> string \<Rightarrow> pyval \<Rightarrow> 'w \<Rightarrow> pyval \<times> 'w" where
  "execute_tool env t name a w =
     (let params = exec_args env a
      in if dget (ae_tools env) name \<noteq> None
         then (case tg_execute (ae_handler env) (ak_user t) name (py_or params (PDict [])) [] (ae_tools env) w of
                 (d, w') \<Rightarrow> (PDict d, w'))
         else case ae_external env of
                Some f \<Rightarrow> (case f name params w of (Inl e, w') \<Rightarrow> (err e, w') | (Inr v, w') \<Rightarrow> (v, w'))
              | None \<Rightarrow> (err (''Tool '' @ quoted name @ '' not implemented''), w))"

text \<open>
  \<open>_guarded_execute_tool\<close> and, for a call that needs it, the approval event and \<open>_await_approval\<close>:
  the events, the result or the exception, the world.
\<close>

definition call_key :: "pyval \<Rightarrow> string \<Rightarrow> pyval" where
  "call_key i name = py_or i (PStr name)"

definition run_tool ::
  "('h, 'w) agent_env \<Rightarrow> agent_task \<Rightarrow> pyval \<Rightarrow> string \<Rightarrow> pyval \<Rightarrow> 'w \<Rightarrow>
   agent_event list \<times> pyval res \<times> 'w" where
  "run_tool env t i name a w =
     (let targs = guard_args env a
      in case tool_evaluate name (py_or targs (PDict [])) of
           Inl e \<Rightarrow> ([], Inl e, w)
         | Inr v \<Rightarrow>
             (case tv_action v of
                Block \<Rightarrow> ([], Inr (err (''Tool '' @ quoted name @ '' blocked by guard: '' @ tv_reason v)), w)
              | Confirm \<Rightarrow>
                  (case ae_decide env (call_key i name) w of
                     (d, w1) \<Rightarrow>
                       (case (case d of
                            None \<Rightarrow> (err (''Tool '' @ quoted name @ '' approval timed out''), w1)
                          | Some False \<Rightarrow> (err (''Tool '' @ quoted name @ '' denied by user''), w1)
                          | Some True \<Rightarrow> execute_tool env t name a w1) of
                          (r, w2) \<Rightarrow> ([EvApproval (call_key i name) (PStr name) (ae_dumps env targs)], Inr r, w2)))
              | _ \<Rightarrow> (case execute_tool env t name a w of (r, w1) \<Rightarrow> ([], Inr r, w1))))"

text \<open>One call: its events, the result message, or the exception. A result that is no dictionary has no \<open>get\<close>.\<close>

definition call_parts :: "pyval \<Rightarrow> pyval \<times> string \<times> pyval" where
  "call_parts c = (let d = dict_of c in (mget d ''id'', str_of (mget d ''name''), mget d ''arguments''))"

definition tool_step ::
  "('h, 'w) agent_env \<Rightarrow> agent_task \<Rightarrow> pyval \<Rightarrow> pydict list \<Rightarrow> 'w \<Rightarrow>
   agent_event list \<times> pydict list res \<times> 'w" where
  "tool_step env t c ms w =
     (case call_parts c of (i, name, a) \<Rightarrow>
        case run_tool env t i name a w of
          (evs, Inl e, w1) \<Rightarrow> (evs, Inl e, w1)
        | (evs, Inr r, w1) \<Rightarrow>
            (let evs' = evs @ [EvToolResult i (PStr name) (ae_dumps env r)]
             in if \<not> is_dict r then (evs', Inl AttributeError, w1)
                else case make_message (PStr ''tool'') (PStr (truncate_tool_result (ae_dumps env) redact None r)) i PNone [] of
                       Inl e \<Rightarrow> (evs', Inl e, w1)
                     | Inr m \<Rightarrow> (evs', Inr (ms @ [m]), w1)))"

fun tool_loop ::
  "('h, 'w) agent_env \<Rightarrow> agent_task \<Rightarrow> pyval list \<Rightarrow> pydict list \<Rightarrow> 'w \<Rightarrow>
   agent_event list \<times> (pydict list \<times> py_error option) \<times> 'w" where
  "tool_loop env t [] ms w = ([], (ms, None), w)"
| "tool_loop env t (c # cs) ms w =
     (case tool_step env t c ms w of
        (evs, Inl e, w1) \<Rightarrow> (evs, (ms, Some e), w1)
      | (evs, Inr ms1, w1) \<Rightarrow>
          (case tool_loop env t cs ms1 w1 of (evs', r, w2) \<Rightarrow> (evs @ evs', r, w2)))"

section \<open>One model call\<close>

text \<open>
  What the loop keeps across turns: the messages, the totals, the output guard of the runtime, the
  length of the thinking already sent, the last thinking, and whether there was an answer.
\<close>

record loop_state =
  lo_messages :: "pydict list"
  lo_in :: int
  lo_out :: int
  lo_guard :: output_guard
  lo_flushed :: nat
  lo_last_reasoning :: string
  lo_answered :: bool

record call_acc =
  ca_content :: string
  ca_reasoning :: string
  ca_calls :: "pyval list"
  ca_in :: int
  ca_out :: int
  ca_guard :: output_guard
  ca_flushed :: nat

definition chunk_text :: "pyval \<Rightarrow> string" where
  "chunk_text v = (case v of PStr s \<Rightarrow> s | _ \<Rightarrow> [])"

definition tokens_of :: "pyval \<Rightarrow> int" where
  "tokens_of v = (case v of PInt i \<Rightarrow> i | _ \<Rightarrow> 0)"

definition thinking_text :: "string \<Rightarrow> string" where
  "thinking_text s = ''[thinking]'' @ s @ ''[/thinking]''"

text \<open>
  Thinking is sent in pieces of at least eighty characters or at a line break; the full stops of
  other scripts that also end a piece are outside the character set of the model.
\<close>

definition on_thinking :: "chat_response \<Rightarrow> call_acc \<Rightarrow> agent_event list \<times> call_acc" where
  "on_thinking c a =
     (let r = chunk_text (cr_reasoning c); a1 = a\<lparr>ca_reasoning := ca_reasoning a @ r\<rparr>; new_len = length (ca_reasoning a1)
      in if r = [] then ([], a)
         else if ca_content a = [] \<and> (int new_len - int (ca_flushed a) \<ge> 80 \<or> CHR 0x0A \<in> set r)
         then (case og_sanitize (drop (ca_flushed a) (ca_reasoning a1)) (ca_guard a) of
                 (safe, g) \<Rightarrow> ([EvText (thinking_text safe)], a1\<lparr>ca_guard := g, ca_flushed := new_len\<rparr>))
         else ([], a1))"

text \<open>Text: the flag tells that the guard cut the stream; the content kept is the raw one.\<close>

definition on_text :: "chat_response \<Rightarrow> call_acc \<Rightarrow> agent_event list \<times> call_acc \<times> chat_response \<times> bool" where
  "on_text c a =
     (let t = chunk_text (cr_content c)
      in if t = [] then ([], a, c, False)
         else case og_sanitize t (ca_guard a) of
                (safe, g) \<Rightarrow>
                  (let c' = (if safe = [] then c\<lparr>cr_content := es\<rparr> else c);
                       a' = a\<lparr>ca_guard := g, ca_content := ca_content a @ chunk_text (cr_content c')\<rparr>
                   in if og_blocked g then ([EvText safe, EvBlocked], a', c', True)
                      else ([EvText safe], a', c', False)))"

definition on_calls :: "chat_response \<Rightarrow> call_acc \<Rightarrow> agent_event list \<times> call_acc" where
  "on_calls c a =
     (map (\<lambda>k. EvToolCall (cl_id k) (cl_name k) (cl_arguments k)) (cr_tool_calls c),
      a\<lparr>ca_calls := ca_calls a @ map (\<lambda>k. call_dict (cl_id k) (cl_name k) (cl_arguments k)) (cr_tool_calls c),
        ca_in := ca_in a + tokens_of (cr_input_tokens c), ca_out := ca_out a + tokens_of (cr_output_tokens c)\<rparr>)"

definition is_error_chunk :: "chat_response \<Rightarrow> bool" where
  "is_error_chunk c = (cr_finish c = PStr ''error'' \<and> \<not> truthy (cr_content c) \<and> cr_tool_calls c = [])"

definition default_error :: string where
  "default_error = ''LLM provider unavailable or not configured''"

text \<open>A chunk: its events, the accumulator, and whether the stream is left.\<close>

definition on_chunk :: "chat_response \<Rightarrow> call_acc \<Rightarrow> agent_event list \<times> call_acc \<times> bool" where
  "on_chunk c a =
     (case on_thinking c a of
        (e1, a1) \<Rightarrow>
          (case on_text c a1 of
             (e2, a2, c2, quit) \<Rightarrow>
               (if quit then (e1 @ e2, a2, True)
                else case on_calls c2 a2 of
                       (e3, a3) \<Rightarrow>
                         (if is_error_chunk c2
                          then (e1 @ e2 @ e3 @ [EvProviderError (if cr_message c2 = [] then default_error else cr_message c2)], a3, True)
                          else (e1 @ e2 @ e3, a3, False)))))"

text \<open>The chunks that are read; the number tells how many, the flag that the stream was left.\<close>

fun read_chunks :: "chat_response list \<Rightarrow> call_acc \<Rightarrow> agent_event list \<times> call_acc \<times> nat \<times> bool" where
  "read_chunks [] a = ([], a, 0, False)"
| "read_chunks (c # cs) a =
     (case on_chunk c a of
        (evs, a1, True) \<Rightarrow> (evs, a1, 1, True)
      | (evs, a1, False) \<Rightarrow> (case read_chunks cs a1 of (evs', a2, n, b) \<Rightarrow> (evs @ evs', a2, Suc n, b)))"

section \<open>Turns\<close>

text \<open>\<open>Continue\<close>: tools were called; \<open>Stop\<close>: the answer is there, or there is none.\<close>

datatype turn_result = Continue | Stop | Failed agent_exn

definition openai_calls_of :: "pyval list \<Rightarrow> pyval list" where
  "openai_calls_of cs = map (\<lambda>c. case call_parts c of (i, n, a) \<Rightarrow>
     PDict [(''id'', i), (''function'', PDict [(''name'', PStr n), (''arguments'', a)])]) cs"

definition after_calls ::
  "('h, 'w) agent_env \<Rightarrow> agent_task \<Rightarrow> call_acc \<Rightarrow> loop_state \<Rightarrow> 'w \<Rightarrow>
   agent_event list \<times> turn_result \<times> loop_state \<times> 'w" where
  "after_calls env t a s w =
     (let s1 = s\<lparr>lo_last_reasoning := ca_reasoning a\<rparr>
      in case make_message (PStr ''assistant'') (PStr (ca_content a)) es (PList (openai_calls_of (ca_calls a))) [] of
           Inl e \<Rightarrow> ([], Failed (PyExn e), s1, w)
         | Inr m \<Rightarrow>
             (case tool_loop env t (ca_calls a) (lo_messages s1 @ [m]) w of
                (evs, (ms, None), w1) \<Rightarrow> (evs, Continue, s1\<lparr>lo_messages := ms\<rparr>, w1)
              | (evs, (ms, Some e), w1) \<Rightarrow> (evs, Failed (PyExn e), s1\<lparr>lo_messages := ms\<rparr>, w1)))"

definition assistant_message :: "string \<Rightarrow> pydict list" where
  "assistant_message c = (case make_message (PStr ''assistant'') (PStr c) es PNone [] of Inl e \<Rightarrow> [] | Inr m \<Rightarrow> [m])"

definition after_answer :: "call_acc \<Rightarrow> loop_state \<Rightarrow> agent_event list \<times> turn_result \<times> loop_state" where
  "after_answer a s =
     (if ca_content a \<noteq> [] then
        ([], Stop, s\<lparr>lo_answered := True, lo_messages := lo_messages s @ assistant_message (ca_content a)\<rparr>)
      else if ca_reasoning a \<noteq> [] then
        ([EvText (ca_reasoning a)], Stop,
         s\<lparr>lo_answered := True, lo_messages := lo_messages s @ assistant_message (ca_reasoning a)\<rparr>)
      else ([], Stop, s))"

text \<open>The request of a turn; a failure leaves the messages as far as they got.\<close>

definition request ::
  "('h, 'w) agent_env \<Rightarrow> agent_task \<Rightarrow> mode_config \<Rightarrow> pydict list \<Rightarrow>
   (py_error \<times> pydict list) + (pydict list \<times> chat_message list)" where
  "request env t mode ms =
     (case map_res normalize_one ms of
        Inl e \<Rightarrow> Inl (e, ms)
      | Inr ns \<Rightarrow>
          (case compact_step env mode (ak_llm t) ns of
             Inl e \<Rightarrow> Inl (e, ns)
           | Inr cs \<Rightarrow>
               (let clean = drop_orphans False cs
                in case to_chat_messages clean of Inl e \<Rightarrow> Inl (e, clean) | Inr cms \<Rightarrow> Inr (clean, cms))))"

definition start_call :: "loop_state \<Rightarrow> call_acc" where
  "start_call s = \<lparr>ca_content = [], ca_reasoning = [], ca_calls = [], ca_in = lo_in s, ca_out = lo_out s,
     ca_guard = lo_guard s, ca_flushed = lo_flushed s\<rparr>"

text \<open>The state after the stream: the cleaned messages, the totals, the guard.\<close>

definition absorb :: "pydict list \<Rightarrow> call_acc \<Rightarrow> loop_state \<Rightarrow> loop_state" where
  "absorb clean a s = s\<lparr>lo_messages := clean, lo_in := ca_in a, lo_out := ca_out a, lo_guard := ca_guard a,
     lo_flushed := ca_flushed a\<rparr>"

definition model_of :: "('h, 'w) agent_env \<Rightarrow> agent_task \<Rightarrow> pyval" where
  "model_of env t = dget_or (ak_llm t) ''model'' (ae_default_model env)"

definition call_model ::
  "('h, 'w) agent_env \<Rightarrow> agent_task \<Rightarrow> pyval \<Rightarrow> chat_message list \<Rightarrow> 'w \<Rightarrow>
   chat_response list \<times> string option \<times> (nat \<Rightarrow> 'w)" where
  "call_model env t tools cms w =
     ae_stream env (ak_tenant t) cms (model_of env t) (dget_or (ak_llm t) ''max_tokens'' (ae_default_max_tokens env))
       (dget_or (ak_llm t) ''temperature'' (ae_default_temperature env)) tools w"

definition conclude ::
  "('h, 'w) agent_env \<Rightarrow> agent_task \<Rightarrow> call_acc \<Rightarrow> loop_state \<Rightarrow> 'w \<Rightarrow>
   agent_event list \<times> turn_result \<times> loop_state \<times> 'w" where
  "conclude env t a s w =
     (if ca_calls a \<noteq> [] then after_calls env t a s w
      else case after_answer a s of (evs, r, s2) \<Rightarrow> (evs, r, s2, w))"

definition turn ::
  "('h, 'w) agent_env \<Rightarrow> agent_task \<Rightarrow> mode_config \<Rightarrow> pyval \<Rightarrow> loop_state \<Rightarrow> 'w \<Rightarrow>
   agent_event list \<times> turn_result \<times> loop_state \<times> 'w" where
  "turn env t mode tools s w =
     (case request env t mode (lo_messages s) of
        Inl (e, ms) \<Rightarrow> ([], Failed (PyExn e), s\<lparr>lo_messages := ms\<rparr>, w)
      | Inr (clean, cms) \<Rightarrow>
          (case call_model env t tools cms w of
             (chunks, exn, world) \<Rightarrow>
               (case read_chunks chunks (start_call s) of
                  (evs, a, n, quit) \<Rightarrow>
                    (case (if quit then None else exn) of
                       Some e \<Rightarrow> (evs, Failed (ExtExn e), absorb clean a s, world n)
                     | None \<Rightarrow>
                         (case conclude env t a (absorb clean a s) (world n) of
                            (evs', r, s2, w2) \<Rightarrow>
                              (evs @ [EvSpan (ca_in a) (ca_out a) (model_of env t)] @ evs', r, s2, w2))))))"

fun turns ::
  "('h, 'w) agent_env \<Rightarrow> agent_task \<Rightarrow> mode_config \<Rightarrow> pyval \<Rightarrow> nat \<Rightarrow> loop_state \<Rightarrow> 'w \<Rightarrow>
   agent_event list \<times> agent_exn option \<times> loop_state \<times> 'w" where
  "turns env t mode tools 0 s w = ([], None, s, w)"
| "turns env t mode tools (Suc n) s w =
     (case turn env t mode tools s w of
        (evs, Failed e, s1, w1) \<Rightarrow> (evs, Some e, s1, w1)
      | (evs, Stop, s1, w1) \<Rightarrow> (evs, None, s1, w1)
      | (evs, Continue, s1, w1) \<Rightarrow>
          (case turns env t mode tools n s1 w1 of (evs', r, s2, w2) \<Rightarrow> (evs @ evs', r, s2, w2)))"

end
