(* ===== verification/AgentRun.thy ===== *)
theory AgentRun
  imports AgentLoop
begin

text \<open>
  One run of an agent, \<^verbatim>\<open>AgentRuntime.run\<close> (\<^verbatim>\<open>app/agent/runtime.py\<close>) around the turns of
  \<^verbatim>\<open>AgentLoop\<close>: the input guard, the mode, the memory block, the messages from the session cache or
  the task, the skill catalogue (\<^verbatim>\<open>app/tools/skill_catalog.py\<close>), the fallback answer, the saving of
  the session, and what the except and finally blocks do.
\<close>

section \<open>The skill catalogue\<close>

definition catalog_marker :: string where
  "catalog_marker = ''<available_skills>''"

definition skill_line :: "(pyfloat \<Rightarrow> string) \<Rightarrow> pydict \<Rightarrow> string" where
  "skill_line fl s = ''- '' @ py_str fl (dget_or s ''name'' es) @ '': '' @ py_str fl (dget_or s ''description'' es)"

text \<open>The handler of \<open>skill_list\<close> takes no arguments; its failure counts as no skills.\<close>

definition build_skill_catalog :: "('h, 'w) agent_env \<Rightarrow> 'w \<Rightarrow> string res \<times> 'w" where
  "build_skill_catalog env w =
     (case dget (ae_tools env) ''skill_list'' of
        None \<Rightarrow> (Inr [], w)
      | Some t \<Rightarrow>
          (case ae_handler env (td_handler t) (PDict []) w of
             (Inl e, w1) \<Rightarrow> (Inr [], w1)
           | (Inr (PDict d), w1) \<Rightarrow>
               (bind_res (py_iter (py_or (mget d ''skills'') (PList []))) (\<lambda>vs.
                bind_res (map_res (\<lambda>v. case v of PDict s \<Rightarrow> Inr s | _ \<Rightarrow> Inl AttributeError) vs) (\<lambda>ss.
                  let on = filter (\<lambda>s. truthy (dget_or s ''enabled'' (PBool True))) ss
                  in Inr (if on = [] then []
                          else py_join newline ([catalog_marker,
                            ''You have these skills installed. Load one only when needed; do not re-load already-inlined content.'']
                            @ map (skill_line (ae_float env)) on @ [''</available_skills>''])))), w1)
           | (Inr v, w1) \<Rightarrow> (Inl AttributeError, w1)))"

definition mentions_catalog :: "pydict \<Rightarrow> bool res" where
  "mentions_catalog m =
     (case py_or (dget_or m ''content'' es) es of
        PStr s \<Rightarrow> Inr (has_sub catalog_marker s)
      | PList xs \<Rightarrow> Inr (PStr catalog_marker \<in> set xs)
      | PDict d \<Rightarrow> Inr (dget d catalog_marker \<noteq> None)
      | _ \<Rightarrow> Inl TypeError)"

fun any_mentions :: "pydict list \<Rightarrow> bool res" where
  "any_mentions [] = Inr False"
| "any_mentions (m # ms) = bind_res (mentions_catalog m) (\<lambda>b. if b then Inr True else any_mentions ms)"

definition inject_skill_catalog :: "('h, 'w) agent_env \<Rightarrow> pydict list \<Rightarrow> 'w \<Rightarrow> pydict list res \<times> 'w" where
  "inject_skill_catalog env ms w =
     (case any_mentions ms of
        Inl e \<Rightarrow> (Inl e, w)
      | Inr True \<Rightarrow> (Inr ms, w)
      | Inr False \<Rightarrow>
          (case build_skill_catalog env w of
             (Inl e, w1) \<Rightarrow> (Inl e, w1)
           | (Inr c, w1) \<Rightarrow>
               (Inr (if c = [] then ms else [(''role'', PStr ''user''), (''content'', PStr c)] # ms), w1)))"

section \<open>The memory block\<close>

definition has_content :: "string \<Rightarrow> recalled \<Rightarrow> bool" where
  "has_content placeholder r \<longleftrightarrow>
     py_strip (rc_profile r) \<noteq> [] \<and> \<not> has_sub placeholder (rc_profile r) \<or> rc_items r \<noteq> []"

definition recall_line :: "(pyfloat \<Rightarrow> string) \<Rightarrow> recall_item \<Rightarrow> string" where
  "recall_line score i = ''- (score '' @ score (ri_score i) @ '')'' @
     (if ri_topics i \<noteq> [] then '' ['' @ py_join '', '' (take 3 (ri_topics i)) @ '']'' else []) @ '' '' @ take 300 (ri_content i)"

definition memory_block :: "('h, 'w) agent_env \<Rightarrow> recalled \<Rightarrow> string" where
  "memory_block env r =
     (case ae_headings env of (profile_head, history_head, placeholder) \<Rightarrow>
        py_join (newline @ newline)
          ((if rc_profile r \<noteq> [] then [profile_head @ newline @ rc_profile r] else []) @
           (if rc_items r \<noteq> []
            then [history_head, py_join newline (map (recall_line (ae_score env)) (take 5 (rc_items r)))] else [])))"

definition with_memory :: "('h, 'w) agent_env \<Rightarrow> recalled option \<Rightarrow> agent_task \<Rightarrow> agent_task" where
  "with_memory env mem t =
     (case mem of
        None \<Rightarrow> t
      | Some r \<Rightarrow>
          (if has_content (snd (snd (ae_headings env))) r
           then t\<lparr>ak_system := (if ak_system t \<noteq> [] then ak_system t @ newline @ newline @ memory_block env r
                                else memory_block env r)\<rparr>
           else t))"

section \<open>Before the first turn\<close>

definition mode_for :: "('h, 'w) agent_env \<Rightarrow> agent_task \<Rightarrow> mode_config" where
  "mode_for env t = get_mode_config (ae_mode_file env) (mget (ak_llm t) ''mode'')"

definition with_persona :: "mode_config \<Rightarrow> agent_task \<Rightarrow> agent_task" where
  "with_persona mode t = (if truthy (mc_persona mode) then t\<lparr>ak_system := str_of (mc_persona mode)\<rparr> else t)"

text \<open>The memory session: the task with its system prompt, whether a session was started, the world.\<close>

definition begin_memory ::
  "('h, 'w) agent_env \<Rightarrow> mode_config \<Rightarrow> agent_task \<Rightarrow> 'w \<Rightarrow> agent_task \<times> bool \<times> 'w" where
  "begin_memory env mode t w =
     (case (if ae_memory env \<and> ak_session t \<noteq> [] \<and> ak_user t \<noteq> []
            then ae_session_start env t (mode_value (mc_mode mode)) w else (False, w)) of
        (started, w1) \<Rightarrow>
          (if ae_memory env \<and> ak_user t \<noteq> [] \<and> ak_content t \<noteq> []
           then (case ae_recall env t w1 of (mem, w2) \<Rightarrow> (with_memory env mem t, started, w2))
           else (t, started, w1)))"

definition uses_store :: "('h, 'w) agent_env \<Rightarrow> agent_task \<Rightarrow> bool" where
  "uses_store env t \<longleftrightarrow> ae_store env \<and> ak_session t \<noteq> []"

definition agent_res :: "'a res \<Rightarrow> agent_exn + 'a" where
  "agent_res r = (case r of Inl e \<Rightarrow> Inl (PyExn e) | Inr x \<Rightarrow> Inr x)"

definition load_messages ::
  "('h, 'w) agent_env \<Rightarrow> agent_task \<Rightarrow> 'w \<Rightarrow> (agent_exn + pydict list) \<times> 'w" where
  "load_messages env t w =
     (if uses_store env t
      then (case build_history_msgs t of
              Inl e \<Rightarrow> (Inl (PyExn e), w)
            | Inr hs \<Rightarrow>
                (case ae_get_or_init env (ak_session t) hs w of
                   (Inl e, w1) \<Rightarrow> (Inl (ExtExn e), w1)
                 | (Inr ms, w1) \<Rightarrow>
                     (agent_res (bind_res (auto_normalize (ae_dumps env) (ae_float env) ms) (\<lambda>ms1.
                        let ms2 = ensure_valid_tool_sequence ms1
                        in if ak_content t = [] then Inr ms2
                           else bind_res (user_message (ak_content t)) (\<lambda>m. Inr (ms2 @ [m])))), w1)))
      else (agent_res (build_messages t), w))"

definition tools_for :: "('h, 'w) agent_env \<Rightarrow> agent_task \<Rightarrow> mode_config \<Rightarrow> pyval res" where
  "tools_for env t mode =
     (if ak_tools t \<noteq> [] then bind_res (map_res (convert_tool env) (ak_tools t)) (\<lambda>ts. Inr (PList ts))
      else Inr (case get_core_tools mode (tg_openai_tools (ak_user t) [] (ae_tools env)) of
                  None \<Rightarrow> PNone | Some ts \<Rightarrow> PList ts))"

definition prepare ::
  "('h, 'w) agent_env \<Rightarrow> mode_config \<Rightarrow> agent_task \<Rightarrow> 'w \<Rightarrow> (agent_exn + pydict list \<times> pyval) \<times> 'w" where
  "prepare env mode t w =
     (case load_messages env t w of
        (Inl e, w1) \<Rightarrow> (Inl e, w1)
      | (Inr ms, w1) \<Rightarrow>
          (case (if truthy (mc_include_context mode) then inject_skill_catalog env ms w1 else (Inr ms, w1)) of
             (Inl e, w2) \<Rightarrow> (Inl (PyExn e), w2)
           | (Inr ms1, w2) \<Rightarrow>
               (agent_res (bind_res (tools_for env t mode) (\<lambda>tools.
                  bind_res (normalize_and_compact env mode (ak_llm t) ms1) (\<lambda>ms2. Inr (ms2, tools)))), w2)))"

section \<open>After the last turn\<close>

definition last_is_assistant :: "pydict list \<Rightarrow> bool" where
  "last_is_assistant ms \<longleftrightarrow> ms \<noteq> [] \<and> mget (last ms) ''role'' = PStr ''assistant''"

definition fallback :: "loop_state \<Rightarrow> agent_event list \<times> loop_state" where
  "fallback s =
     (if \<not> lo_answered s \<and> lo_last_reasoning s \<noteq> []
      then ([EvText (lo_last_reasoning s)],
            if last_is_assistant (lo_messages s) then s
            else s\<lparr>lo_messages := lo_messages s @ assistant_message (lo_last_reasoning s)\<rparr>)
      else ([], s))"

text \<open>
  The end of the try block: the events, the exception that leaves it, whether the cache was saved,
  the world. Without a turn the last log line reads an unbound variable, after the final event.
\<close>

definition finish ::
  "('h, 'w) agent_env \<Rightarrow> agent_task \<Rightarrow> bool \<Rightarrow> loop_state \<Rightarrow> 'w \<Rightarrow>
   agent_event list \<times> agent_exn option \<times> bool \<times> 'w" where
  "finish env t started s w =
     (case (if uses_store env t then (case ae_append env (ak_session t) (lo_messages s) w of (e, w1) \<Rightarrow> (e, e = None, w1))
            else (None, False, w)) of
        (Some e, saved, w1) \<Rightarrow> ([], Some (ExtExn e), saved, w1)
      | (None, saved, w1) \<Rightarrow>
          ([EvDone (lo_in s) (lo_out s)],
           if ak_max_turns t \<le> 0 then Some (PyExn UnboundLocalError) else None, saved,
           if ae_memory env \<and> started \<and> ak_session t \<noteq> []
           then ae_turn_complete env (ak_session t) (lo_in s) (lo_out s) (estimate_tokens (ae_dumps env) (lo_messages s))
                  (dget_or (ak_llm t) ''max_context_tokens'' (PInt 8192)) w1
           else w1))"

text \<open>The finally block once the loop has been entered.\<close>

definition clean_up ::
  "('h, 'w) agent_env \<Rightarrow> agent_task \<Rightarrow> bool \<Rightarrow> bool \<Rightarrow> pydict list \<Rightarrow> 'w \<Rightarrow> 'w" where
  "clean_up env t started saved ms w =
     (let w1 = (if ae_memory env \<and> started \<and> ak_session t \<noteq> [] \<and> \<not> saved
                then ae_session_end env (ak_session t) w else w)
      in if \<not> saved \<and> uses_store env t \<and> ms \<noteq> [] then snd (ae_append env (ak_session t) ms w1) else w1)"

definition error_event :: "agent_exn option \<Rightarrow> agent_event list" where
  "error_event x = (case x of None \<Rightarrow> [] | Some e \<Rightarrow> [EvError e])"

text \<open>The whole run: its events, the exception that leaves the generator, the output guard, the world.\<close>

definition start_state :: "output_guard \<Rightarrow> pydict list \<Rightarrow> loop_state" where
  "start_state g ms = \<lparr>lo_messages = ms, lo_in = 0, lo_out = 0, lo_guard = g, lo_flushed = 0,
     lo_last_reasoning = [], lo_answered = False\<rparr>"

definition run_loop ::
  "('h, 'w) agent_env \<Rightarrow> agent_task \<Rightarrow> mode_config \<Rightarrow> bool \<Rightarrow> pyval \<Rightarrow> loop_state \<Rightarrow> 'w \<Rightarrow>
   agent_event list \<times> agent_exn option \<times> output_guard \<times> 'w" where
  "run_loop env t mode started tools s w =
     (case turns env t mode tools (nat (ak_max_turns t)) s w of
        (evs, Some e, s1, w1) \<Rightarrow>
          (evs @ [EvError e], None, lo_guard s1, clean_up env t started False (lo_messages s1) w1)
      | (evs, None, s1, w1) \<Rightarrow>
          (case fallback s1 of
             (evs1, s2) \<Rightarrow>
               (case finish env t started s2 w1 of
                  (evs2, x, saved, w2) \<Rightarrow>
                    (evs @ evs1 @ evs2 @ error_event x, None, lo_guard s2,
                     clean_up env t started saved (lo_messages s2) w2))))"

text \<open>
  An exception before the loop ends in a finally block that reads \<open>_cache_saved\<close>, which is bound only
  then: the read under the inner try is caught, the other one leaves the generator.
\<close>

definition agent_run ::
  "('h, 'w) agent_env \<Rightarrow> agent_task \<Rightarrow> output_guard \<Rightarrow> 'w \<Rightarrow>
   agent_event list \<times> agent_exn option \<times> output_guard \<times> 'w" where
  "agent_run env task g w =
     (if input_check (ak_content task) \<noteq> None then ([EvBlocked], None, g, w)
      else let mode = mode_for env task
           in case begin_memory env mode (with_persona mode task) w of
                (t, started, w1) \<Rightarrow>
                  (case prepare env mode t w1 of
                     (Inl e, w2) \<Rightarrow> ([EvError e], Some (PyExn UnboundLocalError), g, w2)
                   | (Inr (ms, tools), w2) \<Rightarrow> run_loop env t mode started tools (start_state g ms) w2))"

end
