(* ===== verification/AgentProps.thy ===== *)
theory AgentProps
  imports AgentRun
begin

text \<open>
  What holds of a run of an agent: the requests it sends, the number of model calls and the totals,
  the gate before the tools, the errors around the loop, what the user sees against what is kept.
\<close>

section \<open>Requests\<close>

text \<open>Every tool message has an assistant message with calls as the latest assistant message before it.\<close>

fun calls_open :: "bool \<Rightarrow> pydict list \<Rightarrow> bool" where
  "calls_open b [] = True"
| "calls_open b (m # ms) =
     ((is_tool m \<longrightarrow> b) \<and>
      calls_open (if mget m ''role'' = PStr ''assistant'' then truthy (mget m ''tool_calls'') else b) ms)"

lemma drop_orphans_open: "calls_open b (drop_orphans b ms)"
  by (induction b ms rule: drop_orphans.induct) auto

lemma drop_orphans_others: "filter (Not \<circ> is_tool) (drop_orphans b ms) = filter (Not \<circ> is_tool) ms"
  by (induction b ms rule: drop_orphans.induct) auto

lemma drop_orphans_id: "calls_open b ms \<Longrightarrow> drop_orphans b ms = ms"
  by (induction b ms rule: drop_orphans.induct) auto

text \<open>What a turn sends to the model has a tool message only after an assistant message that made calls
  (with no other assistant message between), one gateway message for each message, and all other messages of
  the compacted history in order; a history that already has this form is sent as it is.\<close>

theorem requests_have_no_orphans:
  assumes "request env t mode ms = Inr (clean, cms)"
  shows "calls_open False clean \<and> length cms = length clean \<and>
    (\<exists>cs. normalize_and_compact env mode (ak_llm t) ms = Inr cs \<and>
       filter (Not \<circ> is_tool) clean = filter (Not \<circ> is_tool) cs \<and> (calls_open False cs \<longrightarrow> clean = cs))"
  using assms
  by (auto simp: request_def normalize_and_compact_def Let_def drop_orphans_open drop_orphans_others drop_orphans_id
      to_chat_messages_def dest: length_map_res split: sum.splits)

section \<open>Model calls and totals\<close>

fun is_span :: "agent_event \<Rightarrow> bool" where
  "is_span (EvSpan i n m) = True" | "is_span e = False"

fun is_done :: "agent_event \<Rightarrow> bool" where
  "is_done (EvDone i n) = True" | "is_done e = False"

definition spans :: "agent_event list \<Rightarrow> nat" where
  "spans evs = length (filter is_span evs)"

definition inner :: "agent_event list \<Rightarrow> bool" where
  "inner evs \<longleftrightarrow> (\<forall>e \<in> set evs. \<not> is_span e \<and> \<not> is_done e)"

text \<open>The totals of the last model call of a list of events.\<close>

fun last_totals :: "int \<times> int \<Rightarrow> agent_event list \<Rightarrow> int \<times> int" where
  "last_totals p [] = p"
| "last_totals p (e # evs) = last_totals (case e of EvSpan i n m \<Rightarrow> (i, n) | _ \<Rightarrow> p) evs"

lemma inner_simps [simp]:
  "inner []" "inner (e # evs) \<longleftrightarrow> \<not> is_span e \<and> \<not> is_done e \<and> inner evs"
  "inner (evs @ evs') \<longleftrightarrow> inner evs \<and> inner evs'"
  by (auto simp: inner_def)

lemma spans_simps [simp]:
  "spans [] = 0" "spans (e # evs) = (if is_span e then 1 else 0) + spans evs"
  "spans (evs @ evs') = spans evs + spans evs'"
  by (simp_all add: spans_def)

lemma last_totals_append [simp]: "last_totals p (evs @ evs') = last_totals (last_totals p evs) evs'"
  by (induction evs arbitrary: p) auto

lemma inner_spans [simp]: "inner evs \<Longrightarrow> spans evs = 0"
  by (induction evs) auto

lemma inner_totals [simp]: "inner evs \<Longrightarrow> last_totals p evs = p"
proof (induction evs)
  case (Cons e evs)
  then show ?case by (cases e) auto
qed simp












lemma begin_memory_turns: "begin_memory env mode t w = (t', b, w') \<Longrightarrow> ak_max_turns t' = ak_max_turns t"
  by (auto simp: begin_memory_def with_memory_def split: prod.splits if_splits option.splits)



lemma error_event_inner [simp]: "inner (error_event x)"
  by (cases x) (simp_all add: error_event_def)


lemma inner_done: "inner evs \<Longrightarrow> EvDone i n \<notin> set evs"
  by (force simp: inner_def)



section \<open>Tool calls\<close>


section \<open>An example\<close>

text \<open>The world counts the calls of the handlers; only the text of an empty object parses.\<close>

definition agent_example :: "(unit, nat) agent_env" where
  "agent_example = \<lparr>ae_stream = (\<lambda>tenant ms model max_tokens temp tools w. ([], None, \<lambda>n. w)), ae_tools = [],
     ae_handler = (\<lambda>h ps w. (Inr (PDict []), Suc w)), ae_external = Some (\<lambda>name ps w. (Inr (PDict [(''ran'', ps)]), Suc w)),
     ae_decide = (\<lambda>k w. (None, w)), ae_store = False, ae_get_or_init = (\<lambda>sid ms w. (Inr ms, w)),
     ae_append = (\<lambda>sid ms w. (None, w)), ae_memory = False, ae_session_start = (\<lambda>t mode w. (False, w)),
     ae_recall = (\<lambda>t w. (None, w)), ae_turn_complete = (\<lambda>sid i n m x w. w), ae_session_end = (\<lambda>sid w. w),
     ae_headings = (''Profile'', ''History'', ''none''), ae_score = (\<lambda>x. ''0''), ae_dumps = (\<lambda>v. ''{}''),
     ae_loads = (\<lambda>s. if s = ''{}'' then Inr (PDict []) else Inl ''bad''), ae_float = (\<lambda>x. ''0''),
     ae_mode_file = Inr (PDict []), ae_default_model = PStr ''m'', ae_default_max_tokens = PInt 1,
     ae_default_temperature = PInt 0\<rparr>"

definition example_task :: agent_task where
  "example_task = \<lparr>ak_id = ''1'', ak_tenant = ''t'', ak_user = ''u'', ak_session = [], ak_content = ''hi'', ak_system = [],
     ak_history = [], ak_tools = [], ak_llm = [], ak_max_turns = 2\<rparr>"

definition example_history :: "pydict list" where
  "example_history =
     [[(''role'', PStr ''tool''), (''content'', PStr ''x'')], [(''role'', PStr ''user''), (''content'', PStr ''hi'')]]"


theorem requests_have_no_orphans_witness:
  "calls_open False (fst (projr (request agent_example example_task (base_mode MINIMAL) example_history)))"
proof -
  have r: "request agent_example example_task (base_mode MINIMAL) example_history =
      Inr (tl example_history, snd (projr (request agent_example example_task (base_mode MINIMAL) example_history)))"
    by code_simp
  have "calls_open False (tl example_history)" using requests_have_no_orphans [OF r] by blast
  then show ?thesis by (subst r) simp
qed


text \<open>Arguments that are no JSON are never looked at by the guard: whatever the text, a tool that is
  not dangerous runs at once, and gets the text as \<open>raw\<close>.\<close>

theorem unparsable_arguments_run:
  assumes "ae_loads env s = Inl e" and "name \<notin> set dangerous_tools" and "s \<noteq> []"
    and "dget (ae_tools env) name = None" and "ae_external env = Some f"
  shows "snd (snd (run_tool env t i name (PStr s) w)) = snd (f name (PDict [(''raw'', PStr s)]) w) \<and>
    fst (run_tool env t i name (PStr s) w) = []"
  using assms
  by (auto simp: run_tool_def guard_args_def execute_tool_def exec_args_def py_or_def evaluate_dict_def verdict_def
      escape_keys_def Let_def split: prod.splits sum.splits)

theorem unparsable_arguments_run_witness:
  "snd (snd (run_tool agent_example example_task (PStr ''c1'') ''read_file'' (PStr ''{../../etc/passwd'') 0)) = 1"
  using unparsable_arguments_run [of agent_example "''{../../etc/passwd''" "''bad''" "''read_file''"
      "\<lambda>name ps w. (Inr (PDict [(''ran'', ps)]), Suc w)" example_task "PStr ''c1''" 0]
  by (simp add: agent_example_def dangerous_tools_def)

section \<open>Errors around the loop\<close>

lemma map_res_fails: "x \<in> set xs \<Longrightarrow> f x = Inl e \<Longrightarrow> \<exists>e'. map_res f xs = Inl e'"
  by (induction xs) (auto simp: bind_res_def split: sum.splits)

lemma history_fails:
  assumes "m \<in> set (ak_history t)" and "dget_or m ''role'' (PStr ''user'') \<notin> set roles"
  shows "\<exists>e. build_history_msgs t = Inl e"
proof -
  have "history_message m = Inl (ValueError ''unknown role'')"
    using assms(2) by (simp add: history_message_def make_message_def)
  from map_res_fails [of m _ history_message, OF assms(1) this]
  show ?thesis by (auto simp: build_history_msgs_def bind_res_def split: sum.splits)
qed

lemma begin_memory_history: "begin_memory env mode t w = (t', b, w') \<Longrightarrow> ak_history t' = ak_history t"
  by (auto simp: begin_memory_def with_memory_def split: prod.splits if_splits option.splits)

text \<open>A history with a message of an unknown role ends a run with one error event and with an
  \<open>UnboundLocalError\<close> that leaves the generator from the finally block; nothing is saved.\<close>

theorem setup_error_escapes:
  assumes "input_check (ak_content task) = None" and "m \<in> set (ak_history task)"
    and "dget_or m ''role'' (PStr ''user'') \<notin> set roles"
  shows "\<exists>e t b w'. begin_memory env (mode_for env task) (with_persona (mode_for env task) task) w = (t, b, w') \<and>
    agent_run env task g w = ([EvError e], Some (PyExn UnboundLocalError), g, w')"
proof -
  obtain t b w1 where m: "begin_memory env (mode_for env task) (with_persona (mode_for env task) task) w = (t, b, w1)"
    by (cases "begin_memory env (mode_for env task) (with_persona (mode_for env task) task) w")
  have "ak_history t = ak_history task"
    using begin_memory_history [OF m] by (simp add: with_persona_def)
  with assms obtain e where h: "build_history_msgs t = Inl e" by (metis history_fails)
  then have "load_messages env t w1 = (Inl (PyExn e), w1)"
    by (simp add: load_messages_def build_messages_def agent_res_def)
  then have "prepare env (mode_for env task) t w1 = (Inl (PyExn e), w1)"
    by (simp add: prepare_def)
  then show ?thesis using assms(1) m by (simp add: agent_run_def Let_def)
qed

theorem setup_error_escapes_witness:
  "fst (snd (agent_run agent_example (example_task\<lparr>ak_history := [[(''role'', PStr ''function'')]]\<rparr>) (new_output_guard 3) 0)) =
     Some (PyExn UnboundLocalError)"
proof -
  have "input_check (ak_content (example_task\<lparr>ak_history := [[(''role'', PStr ''function'')]]\<rparr>)) = None"
    by (simp add: example_task_def) code_simp
  moreover have "dget_or [(''role'', PStr ''function'')] ''role'' (PStr ''user'') \<notin> set roles" by code_simp
  ultimately show ?thesis
    using setup_error_escapes [of "example_task\<lparr>ak_history := [[(''role'', PStr ''function'')]]\<rparr>"
        "[(''role'', PStr ''function'')]" agent_example 0 "new_output_guard 3"] by auto
qed

text \<open>With \<open>max_turns\<close> at most zero a run that reports its end reports an error right after it: the
  last log line reads a loop variable that was never bound.\<close>

theorem no_turns_error_after_done:
  assumes "ak_max_turns task \<le> 0" and "EvDone i n \<in> set (fst (agent_run env task g w))"
  shows "fst (agent_run env task g w) = [EvDone 0 0, EvError (PyExn UnboundLocalError)]"
proof -
  obtain t started w1 where m: "begin_memory env (mode_for env task) (with_persona (mode_for env task) task) w = (t, started, w1)"
    by (cases "begin_memory env (mode_for env task) (with_persona (mode_for env task) task) w")
  have turns: "ak_max_turns t \<le> 0"
    using begin_memory_turns [OF m] assms(1) by (simp add: with_persona_def)
  obtain r w2 where p: "prepare env (mode_for env task) t w1 = (r, w2)"
    by (cases "prepare env (mode_for env task) t w1")
  obtain ms tools where r: "r = Inr (ms, tools)" and ok: "input_check (ak_content task) = None"
    using assms(2) m p by (cases r) (auto simp: agent_run_def Let_def split: if_splits)
  obtain evs x saved w3 where d: "finish env t started (start_state g ms) w2 = (evs, x, saved, w3)"
    by (cases "finish env t started (start_state g ms) w2")
  have "fst (agent_run env task g w) = evs @ error_event x"
    using ok m p r turns d by (simp add: agent_run_def run_loop_def fallback_def start_state_def)
  moreover have "evs = [] \<or> evs = [EvDone 0 0] \<and> x = Some (PyExn UnboundLocalError)"
    using d turns by (auto simp: finish_def start_state_def split: prod.splits option.splits)
  ultimately show ?thesis using assms(2) inner_done [OF error_event_inner] by (auto simp: error_event_def)
qed

theorem no_turns_error_after_done_witness:
  "fst (agent_run agent_example (example_task\<lparr>ak_max_turns := 0\<rparr>) (new_output_guard 3) 0) =
     [EvDone 0 0, EvError (PyExn UnboundLocalError)]"
proof -
  have "EvDone 0 0 \<in> set (fst (agent_run agent_example (example_task\<lparr>ak_max_turns := 0\<rparr>) (new_output_guard 3) 0))"
    by code_simp
  then show ?thesis
    using no_turns_error_after_done [of "example_task\<lparr>ak_max_turns := 0\<rparr>" 0 0 agent_example "new_output_guard 3" 0]
    by (simp add: example_task_def)
qed

section \<open>What the user sees and what is kept\<close>

definition quiet_thinking :: "chat_response \<Rightarrow> bool" where
  "quiet_thinking c \<longleftrightarrow> CHR 0x0A \<notin> set (chunk_text (cr_reasoning c))"

definition no_thinking :: "chat_response \<Rightarrow> chat_response" where
  "no_thinking c = c\<lparr>cr_reasoning := PNone\<rparr>"

definition reasoning_length :: "chat_response list \<Rightarrow> nat" where
  "reasoning_length cs = sum_list (map (\<lambda>c. length (chunk_text (cr_reasoning c))) cs)"

lemma on_thinking_quiet:
  assumes "quiet_thinking c" and "length (ca_reasoning a) + length (chunk_text (cr_reasoning c)) < ca_flushed a + 80"
  shows "on_thinking c a = ([], a\<lparr>ca_reasoning := ca_reasoning a @ chunk_text (cr_reasoning c)\<rparr>)"
  using assms by (auto simp: on_thinking_def quiet_thinking_def Let_def)

lemma on_text_reasoning:
  "on_text c (a\<lparr>ca_reasoning := r\<rparr>) =
     (case on_text c a of (evs, a', c', q) \<Rightarrow> (evs, a'\<lparr>ca_reasoning := r\<rparr>, c', q))"
  by (simp add: on_text_def Let_def split: prod.splits)

lemma on_text_erase:
  "on_text (no_thinking c) a = (case on_text c a of (evs, a', c', q) \<Rightarrow> (evs, a', no_thinking c', q))"
  by (simp add: on_text_def no_thinking_def Let_def split: prod.splits)

lemma on_calls_reasoning:
  "on_calls c (a\<lparr>ca_reasoning := r\<rparr>) = (case on_calls c a of (evs, a') \<Rightarrow> (evs, a'\<lparr>ca_reasoning := r\<rparr>))"
  by (simp add: on_calls_def)

lemma on_calls_erase: "on_calls (no_thinking c) a = on_calls c a"
  by (simp add: on_calls_def no_thinking_def)

lemma is_error_erase [simp]:
  "is_error_chunk (no_thinking c) = is_error_chunk c" "cr_message (no_thinking c) = cr_message c"
  by (simp_all add: is_error_chunk_def no_thinking_def)

lemma on_text_keeps_reasoning:
  "on_text c a = (evs, a', c', q) \<Longrightarrow> ca_reasoning a' = ca_reasoning a \<and> ca_flushed a' = ca_flushed a"
  by (auto simp: on_text_def Let_def split: prod.splits if_splits)

lemma on_calls_keeps_reasoning:
  "on_calls c a = (evs, a') \<Longrightarrow> ca_reasoning a' = ca_reasoning a \<and> ca_flushed a' = ca_flushed a"
  by (auto simp: on_calls_def)

lemma on_chunk_quiet:
  assumes "quiet_thinking c" and "length (ca_reasoning a) + length (chunk_text (cr_reasoning c)) < ca_flushed a + 80"
  shows "on_chunk c a = (case on_chunk (no_thinking c) (a\<lparr>ca_reasoning := r\<rparr>) of
    (evs, a', q) \<Rightarrow> (evs, a'\<lparr>ca_reasoning := ca_reasoning a @ chunk_text (cr_reasoning c)\<rparr>, q))"
proof -
  have silent: "on_thinking (no_thinking c) b = ([], b)" for b
    by (simp add: on_thinking_def no_thinking_def chunk_text_def)
  obtain e2 a2 c2 q2 where t: "on_text c a = (e2, a2, c2, q2)" by (cases "on_text c a")
  obtain e3 a3 where k: "on_calls c2 a2 = (e3, a3)" by (cases "on_calls c2 a2")
  show ?thesis
    by (simp add: on_chunk_def on_thinking_quiet [OF assms] silent on_text_reasoning on_text_erase t
        on_calls_reasoning on_calls_erase k)
qed

lemma on_chunk_flushed:
  assumes "on_chunk c a = (evs, a', q)" and "quiet_thinking c"
    and "length (ca_reasoning a) + length (chunk_text (cr_reasoning c)) < ca_flushed a + 80"
  shows "ca_flushed a' = ca_flushed a \<and> ca_reasoning a' = ca_reasoning a @ chunk_text (cr_reasoning c)"
  using assms(1) unfolding on_chunk_def on_thinking_quiet [OF assms(2,3)]
  by (auto split: prod.splits if_splits dest!: on_text_keeps_reasoning on_calls_keeps_reasoning)

text \<open>The thinking of a later turn is not shown unless it grows eighty characters beyond what earlier
  turns have shown: the stream gives the same events as one without any thinking.\<close>

theorem late_thinking_dropped:
  assumes "list_all quiet_thinking cs" and "length (ca_reasoning a) + reasoning_length cs < ca_flushed a + 80"
  shows "fst (read_chunks cs a) = fst (read_chunks (map no_thinking cs) (a\<lparr>ca_reasoning := r\<rparr>))"
  using assms
proof (induction cs arbitrary: a r)
  case (Cons c cs)
  have q: "quiet_thinking c" "length (ca_reasoning a) + length (chunk_text (cr_reasoning c)) < ca_flushed a + 80"
    using Cons.prems by (simp_all add: reasoning_length_def)
  obtain evs b x where e: "on_chunk (no_thinking c) (a\<lparr>ca_reasoning := r\<rparr>) = (evs, b, x)"
    by (cases "on_chunk (no_thinking c) (a\<lparr>ca_reasoning := r\<rparr>)")
  let ?a = "b\<lparr>ca_reasoning := ca_reasoning a @ chunk_text (cr_reasoning c)\<rparr>"
  have o: "on_chunk c a = (evs, ?a, x)" using on_chunk_quiet [OF q, of r] by (simp add: e)
  have "ca_flushed ?a = ca_flushed a" using on_chunk_flushed [OF o q] by simp
  then have "length (ca_reasoning ?a) + reasoning_length cs < ca_flushed ?a + 80"
    using Cons.prems by (simp add: reasoning_length_def)
  then have "fst (read_chunks cs ?a) = fst (read_chunks (map no_thinking cs) (?a\<lparr>ca_reasoning := ca_reasoning b\<rparr>))"
    by (intro Cons.IH) (use Cons.prems in simp_all)
  then show ?case by (auto simp: o e split: prod.splits bool.splits)
qed simp

definition chunk :: "pyval \<Rightarrow> pyval \<Rightarrow> chat_response" where
  "chunk content reasoning = \<lparr>cr_content = content, cr_reasoning = reasoning, cr_tool_calls = [], cr_finish = PStr ''stop'',
     cr_message = [], cr_input_tokens = PInt 1, cr_output_tokens = PInt 2, cr_provider = ''p'', cr_model = ''m'',
     cr_latency_ms = 0\<rparr>"

theorem late_thinking_dropped_witness:
  "fst (read_chunks [chunk (PStr ''ok'') (PStr ''second thoughts'')]
     (start_call ((start_state (new_output_guard 3) [])\<lparr>lo_flushed := 100\<rparr>))) =
   fst (read_chunks [no_thinking (chunk (PStr ''ok'') (PStr ''second thoughts''))]
     (start_call ((start_state (new_output_guard 3) [])\<lparr>lo_flushed := 100\<rparr>)))"
proof -
  let ?a = "start_call ((start_state (new_output_guard 3) [])\<lparr>lo_flushed := 100\<rparr>)"
  have q: "list_all quiet_thinking [chunk (PStr ''ok'') (PStr ''second thoughts'')]"
    by (simp add: quiet_thinking_def chunk_def chunk_text_def)
  have l: "length (ca_reasoning ?a) + reasoning_length [chunk (PStr ''ok'') (PStr ''second thoughts'')] < ca_flushed ?a + 80"
    by (simp add: start_call_def reasoning_length_def chunk_def chunk_text_def)
  show ?thesis using late_thinking_dropped [OF q l, of "[]"] by (simp add: start_call_def)
qed

text \<open>A stream of one chunk that ends a turn.\<close>

lemma one_chunk_turn:
  assumes "request env t mode (lo_messages s) = Inr (clean, cms)"
    and "call_model env t tools cms w = ([chunk content reasoning], None, world)"
    and "on_chunk (chunk content reasoning) (start_call s) = (evs, a, q)" and "ca_calls a = []"
  shows "turn env t mode tools s w =
    (case after_answer a (absorb clean a s) of
       (evs', r, s2) \<Rightarrow> (evs @ EvSpan (ca_in a) (ca_out a) (model_of env t) # evs', r, s2, world 1))"
  using assms by (cases q) (simp_all add: turn_def conclude_def split: prod.splits)

text \<open>An answer that is all thinking is sent to the user as it is, past the output guard.\<close>

theorem reasoning_answer_unguarded:
  assumes "request env t mode (lo_messages s) = Inr (clean, cms)"
    and "call_model env t tools cms w = ([chunk (PStr []) (PStr r)], None, world)" and "r \<noteq> []"
    and "CHR 0x0A \<notin> set r" and "length r < lo_flushed s + 80"
  shows "fst (turn env t mode tools s w) = [EvSpan (lo_in s + 1) (lo_out s + 2) (model_of env t), EvText r]"
proof -
  have "on_chunk (chunk (PStr []) (PStr r)) (start_call s) =
      ([], (start_call s)\<lparr>ca_reasoning := r, ca_in := lo_in s + 1, ca_out := lo_out s + 2\<rparr>, False)"
    using assms(3-5) by (simp add: on_chunk_def on_thinking_def on_text_def on_calls_def is_error_chunk_def chunk_def
        chunk_text_def start_call_def tokens_of_def)
  from one_chunk_turn [OF assms(1,2) this] show ?thesis
    using assms(3) by (simp add: start_call_def after_answer_def)
qed

text \<open>The example environment with a model that answers one chunk.\<close>

definition answering :: "chat_response \<Rightarrow> (unit, nat) agent_env" where
  "answering c = agent_example\<lparr>ae_stream := (\<lambda>tenant ms model max_tokens temp tools w. ([c], None, \<lambda>n. w))\<rparr>"

definition hi :: "pydict list" where
  "hi = [[(''role'', PStr ''user''), (''content'', PStr ''hi'')]]"

lemma request_hi:
  "request (answering c) example_task (base_mode MINIMAL) hi =
     Inr (hi, snd (projr (request agent_example example_task (base_mode MINIMAL) hi)))"
proof -
  have step: "compact_step (answering c) = compact_step agent_example"
    by (intro ext) (simp add: compact_step_def answering_def)
  have "request (answering c) example_task (base_mode MINIMAL) hi = request agent_example example_task (base_mode MINIMAL) hi"
    by (simp only: request_def step)
  also have "\<dots> = Inr (hi, snd (projr (request agent_example example_task (base_mode MINIMAL) hi)))" by code_simp
  finally show ?thesis .
qed

theorem reasoning_answer_unguarded_witness:
  "last (fst (turn (answering (chunk (PStr []) (PStr ''my key is sk-abcdefghijklmnop''))) example_task (base_mode MINIMAL) PNone
     (start_state (new_output_guard 3) hi) 0)) = EvText ''my key is sk-abcdefghijklmnop'' \<and>
   redact ''my key is sk-abcdefghijklmnop'' \<noteq> ''my key is sk-abcdefghijklmnop''"
proof -
  have "redact ''my key is sk-abcdefghijklmnop'' \<noteq> ''my key is sk-abcdefghijklmnop''" by code_simp
  moreover have "lo_messages (start_state (new_output_guard 3) hi) = hi" by (simp add: start_state_def)
  ultimately show ?thesis
    using reasoning_answer_unguarded [of "answering (chunk (PStr []) (PStr ''my key is sk-abcdefghijklmnop''))" example_task
        "base_mode MINIMAL" "start_state (new_output_guard 3) hi" hi _ PNone 0 "''my key is sk-abcdefghijklmnop''" "\<lambda>n. 0"]
      request_hi
    by (simp add: call_model_def answering_def start_state_def)
qed

text \<open>The user sees an answer redacted, but the text kept for the session, and sent to the model in the
  next turn, is the raw one.\<close>

theorem answer_kept_raw:
  assumes "request env t mode (lo_messages s) = Inr (clean, cms)"
    and "call_model env t tools cms w = ([chunk (PStr x) PNone], None, world)" and "x \<noteq> []" and "redact x \<noteq> []"
  shows "hd (fst (turn env t mode tools s w)) = EvText (redact x) \<and>
    lo_messages (fst (snd (snd (turn env t mode tools s w)))) = clean @ assistant_message x"
proof -
  obtain evs a q where c: "on_chunk (chunk (PStr x) PNone) (start_call s) = (evs, a, q)"
    by (cases "on_chunk (chunk (PStr x) PNone) (start_call s)")
  have a: "ca_calls a = []" "ca_content a = x" "evs \<noteq> []" "hd evs = EvText (redact x)"
    using c assms(3,4) by (auto simp: on_chunk_def on_thinking_def on_text_def on_calls_def is_error_chunk_def chunk_def
        chunk_text_def start_call_def og_sanitize_def Let_def split: if_splits)
  from one_chunk_turn [OF assms(1,2) c a(1)] show ?thesis
    using a assms(3) by (simp add: after_answer_def absorb_def)
qed

theorem answer_kept_raw_witness:
  "lo_messages (fst (snd (snd (turn (answering (chunk (PStr ''my key is sk-abcdefghijklmnop'') PNone)) example_task
     (base_mode MINIMAL) PNone (start_state (new_output_guard 3) hi) 0)))) =
   hi @ assistant_message ''my key is sk-abcdefghijklmnop''"
proof -
  have "redact ''my key is sk-abcdefghijklmnop'' \<noteq> []" by code_simp
  then show ?thesis
    using answer_kept_raw [of "answering (chunk (PStr ''my key is sk-abcdefghijklmnop'') PNone)" example_task
        "base_mode MINIMAL" "start_state (new_output_guard 3) hi" hi _ PNone 0 "''my key is sk-abcdefghijklmnop''" "\<lambda>n. 0"]
      request_hi
    by (simp add: call_model_def answering_def start_state_def)
qed

text \<open>Where the session is cached, the system prompt of the task has no effect: the persona of another
  mode, and what the memory recalled for this message, never reach the model.\<close>

theorem cached_session_ignores_system:
  assumes "uses_store env t" and "\<And>h. ae_get_or_init env (ak_session t) h w = (Inr ms, w1)"
  shows "load_messages env (t\<lparr>ak_system := p\<rparr>) w = load_messages env t w"
proof -
  have sys: "\<exists>ms. system_messages t = Inr ms" for t
    by (simp add: system_messages_def make_message_def roles_def)
  obtain m1 m2 where "system_messages (t\<lparr>ak_system := p\<rparr>) = Inr m1" "system_messages t = Inr m2" using sys by blast
  with assms show ?thesis
    by (cases "map_res history_message (ak_history t)")
      (simp_all add: load_messages_def build_history_msgs_def uses_store_def Let_def cong: if_cong)
qed

theorem cached_session_ignores_system_witness:
  "load_messages (agent_example\<lparr>ae_store := True, ae_get_or_init := (\<lambda>sid h w. (Inr hi, w))\<rparr>)
     (example_task\<lparr>ak_session := ''s'', ak_system := ''new persona''\<rparr>) 0 =
   load_messages (agent_example\<lparr>ae_store := True, ae_get_or_init := (\<lambda>sid h w. (Inr hi, w))\<rparr>) (example_task\<lparr>ak_session := ''s''\<rparr>) 0"
  using cached_session_ignores_system [of "agent_example\<lparr>ae_store := True, ae_get_or_init := (\<lambda>sid h w. (Inr hi, w))\<rparr>"
      "example_task\<lparr>ak_session := ''s''\<rparr>" 0 hi 0 "''new persona''"]
  by (simp add: uses_store_def)

end
