(* ===== verification/SessionStore.thy ===== *)
theory SessionStore
  imports Lru PyVal
begin

text \<open>
  The session cache, \<^verbatim>\<open>app/session_store.py\<close>: the messages of a session in Redis, and in a bounded
  dictionary when Redis is not given, has failed once, or the request asks for no retention. A Redis
  command gives a value or an exception and a new world \<open>'w\<close>; JSON is two arguments. The flag \<open>private\<close>
  is \<^verbatim>\<open>is_no_retention()\<close> of the request.
\<close>

section \<open>State\<close>

record session_store =
  ss_enabled :: bool
  ss_max :: nat
  ss_local :: "(string, pydict list) dict"

record 'w redis_client =
  rd_get :: "string \<Rightarrow> 'w \<Rightarrow> (string + string option) \<times> 'w"
  rd_expire :: "string \<Rightarrow> int \<Rightarrow> 'w \<Rightarrow> string option \<times> 'w"
  rd_setex :: "string \<Rightarrow> int \<Rightarrow> string \<Rightarrow> 'w \<Rightarrow> string option \<times> 'w"
  rd_delete :: "string list \<Rightarrow> 'w \<Rightarrow> string option \<times> 'w"
  rd_scan :: "int \<Rightarrow> 'w \<Rightarrow> (string + int \<times> string list) \<times> 'w"
  rd_dumps :: "pydict list \<Rightarrow> string"
  rd_loads :: "string \<Rightarrow> string + pydict list"

definition new_store :: "bool \<Rightarrow> nat \<Rightarrow> session_store" where
  "new_store has_redis max_sessions = \<lparr>ss_enabled = has_redis, ss_max = max_sessions, ss_local = []\<rparr>"

definition session_key :: "string \<Rightarrow> string" where
  "session_key sid = ''session_cache:'' @ sid"

definition session_ttl :: int where
  "session_ttl = 7200"

section \<open>The local backend\<close>

definition evict :: "nat \<Rightarrow> (string, 'v) dict \<Rightarrow> (string, 'v) dict" where
  "evict n d = drop (length d - n) d"

definition local_put :: "nat \<Rightarrow> string \<Rightarrow> 'v \<Rightarrow> (string, 'v) dict \<Rightarrow> (string, 'v) dict" where
  "local_put n sid ms d = evict n (move_to_end sid (dset sid ms d))"

definition local_set :: "string \<Rightarrow> pydict list \<Rightarrow> session_store \<Rightarrow> session_store" where
  "local_set sid ms s = s\<lparr>ss_local := local_put (ss_max s) sid ms (ss_local s)\<rparr>"

definition local_get_or_init :: "string \<Rightarrow> pydict list \<Rightarrow> session_store \<Rightarrow> pydict list \<times> session_store" where
  "local_get_or_init sid history s =
     (case dget (ss_local s) sid of
        Some ms \<Rightarrow> (ms, s\<lparr>ss_local := move_to_end sid (ss_local s)\<rparr>)
      | None \<Rightarrow> (history, s\<lparr>ss_local := evict (ss_max s) (dset sid history (ss_local s))\<rparr>))"

section \<open>The Redis backend\<close>

definition redis_set :: "'w redis_client \<Rightarrow> string \<Rightarrow> pydict list \<Rightarrow> 'w \<Rightarrow> string option \<times> 'w" where
  "redis_set rd sid ms w = rd_setex rd (session_key sid) session_ttl (rd_dumps rd ms) w"

definition redis_get_or_init ::
  "'w redis_client \<Rightarrow> string \<Rightarrow> pydict list \<Rightarrow> 'w \<Rightarrow> (string + pydict list) \<times> 'w" where
  "redis_get_or_init rd sid history w =
     (case rd_get rd (session_key sid) w of
        (Inl e, w1) \<Rightarrow> (Inl e, w1)
      | (Inr data, w1) \<Rightarrow>
          (case data of
             Some (c # cs) \<Rightarrow>
               (case rd_expire rd (session_key sid) session_ttl w1 of
                  (Some e, w2) \<Rightarrow> (Inl e, w2)
                | (None, w2) \<Rightarrow> (rd_loads rd (c # cs), w2))
           | _ \<Rightarrow>
               (case redis_set rd sid history w1 of
                  (Some e, w2) \<Rightarrow> (Inl e, w2)
                | (None, w2) \<Rightarrow> (Inr history, w2))))"

definition redis_get :: "'w redis_client \<Rightarrow> string \<Rightarrow> 'w \<Rightarrow> (string + pydict list option) \<times> 'w" where
  "redis_get rd sid w =
     (case rd_get rd (session_key sid) w of
        (Inl e, w1) \<Rightarrow> (Inl e, w1)
      | (Inr (Some (c # cs)), w1) \<Rightarrow>
          (case rd_loads rd (c # cs) of Inl e \<Rightarrow> (Inl e, w1) | Inr ms \<Rightarrow> (Inr (Some ms), w1))
      | (Inr data, w1) \<Rightarrow> (Inr None, w1))"

section \<open>Operations\<close>

definition disable :: "session_store \<Rightarrow> session_store" where
  "disable s = s\<lparr>ss_enabled := False\<rparr>"

definition store_get_or_init ::
  "'w redis_client \<Rightarrow> bool \<Rightarrow> string \<Rightarrow> pydict list \<Rightarrow> session_store \<times> 'w \<Rightarrow> pydict list \<times> session_store \<times> 'w" where
  "store_get_or_init rd private sid history sw =
     (case sw of (s, w) \<Rightarrow>
        if sid = [] then (history, s, w)
        else if private \<or> \<not> ss_enabled s then (case local_get_or_init sid history s of (ms, s1) \<Rightarrow> (ms, s1, w))
        else case redis_get_or_init rd sid history w of
               (Inr ms, w1) \<Rightarrow> (ms, s, w1)
             | (Inl e, w1) \<Rightarrow> (case local_get_or_init sid history (disable s) of (ms, s1) \<Rightarrow> (ms, s1, w1)))"

definition store_append ::
  "'w redis_client \<Rightarrow> bool \<Rightarrow> string \<Rightarrow> pydict list \<Rightarrow> session_store \<times> 'w \<Rightarrow> session_store \<times> 'w" where
  "store_append rd private sid ms sw =
     (case sw of (s, w) \<Rightarrow>
        if sid = [] then (s, w)
        else if private \<or> \<not> ss_enabled s then (local_set sid ms s, w)
        else case redis_set rd sid ms w of
               (None, w1) \<Rightarrow> (s, w1)
             | (Some e, w1) \<Rightarrow> (local_set sid ms (disable s), w1))"

definition store_get ::
  "'w redis_client \<Rightarrow> string \<Rightarrow> session_store \<times> 'w \<Rightarrow> pydict list option \<times> session_store \<times> 'w" where
  "store_get rd sid sw =
     (case sw of (s, w) \<Rightarrow>
        if ss_enabled s
        then (case redis_get rd sid w of
                (Inr r, w1) \<Rightarrow> (r, s, w1)
              | (Inl e, w1) \<Rightarrow> (dget (ss_local s) sid, disable s, w1))
        else (dget (ss_local s) sid, s, w))"

definition store_remove :: "'w redis_client \<Rightarrow> string \<Rightarrow> session_store \<times> 'w \<Rightarrow> session_store \<times> 'w" where
  "store_remove rd sid sw =
     (case sw of (s, w) \<Rightarrow>
        (s\<lparr>ss_local := ddel sid (ss_local s)\<rparr>, if ss_enabled s then snd (rd_delete rd [session_key sid] w) else w))"

text \<open>
  The scan of \<open>clear\<close> follows the cursor until it is zero again; nothing bounds the number of its steps.
  An exception of a command ends it quietly.
\<close>

partial_function (option) clear_scan :: "'w redis_client \<Rightarrow> int \<Rightarrow> 'w \<Rightarrow> 'w option" where
  "clear_scan rd cursor w =
     (case rd_scan rd cursor w of
        (Inl e, w1) \<Rightarrow> Some w1
      | (Inr p, w1) \<Rightarrow>
          (case (if snd p \<noteq> [] then rd_delete rd (snd p) w1 else (None, w1)) of
             (Some e, w2) \<Rightarrow> Some w2
           | (None, w2) \<Rightarrow> if fst p = 0 then Some w2 else clear_scan rd (fst p) w2))"

definition store_clear :: "'w redis_client \<Rightarrow> session_store \<times> 'w \<Rightarrow> (session_store \<times> 'w) option" where
  "store_clear rd sw =
     (case sw of (s, w) \<Rightarrow>
        if ss_enabled s then map_option (Pair (s\<lparr>ss_local := []\<rparr>)) (clear_scan rd 0 w)
        else Some (s\<lparr>ss_local := []\<rparr>, w))"

definition store_size :: "session_store \<Rightarrow> nat" where
  "store_size s = length (ss_local s)"

section \<open>The local backend keeps the sessions used last\<close>

lemma keys_evict_move:
  "keys (evict n (move_to_end sid (dset sid ms d))) =
     (let ks = filter (\<lambda>x. x \<noteq> sid) (keys d) @ [sid] in drop (length ks - n) ks)"
proof -
  have "sid \<in> set (keys (dset sid ms d))" by (simp del: set_map)
  then have "keys (move_to_end sid (dset sid ms d)) = filter (\<lambda>x. x \<noteq> sid) (keys (dset sid ms d)) @ [sid]"
    by (rule keys_move_to_end)
  also have "filter (\<lambda>x. x \<noteq> sid) (keys (dset sid ms d)) = filter (\<lambda>x. x \<noteq> sid) (keys d)"
    by (simp add: keys_dset)
  finally have ks: "keys (move_to_end sid (dset sid ms d)) = filter (\<lambda>x. x \<noteq> sid) (keys d) @ [sid]" .
  then have "length (move_to_end sid (dset sid ms d)) = length (filter (\<lambda>x. x \<noteq> sid) (keys d) @ [sid])"
    by (metis length_map)
  then show ?thesis using ks by (simp add: evict_def Let_def flip: drop_map)
qed

interpretation sessions: recency n "local_put n" move_to_end for n
  by unfold_locales (simp_all only: local_put_def keys_evict_move keys_move_to_end)

text \<open>The sessions touched by a run of local operations.\<close>

datatype local_op = Init string "pydict list" | Save string "pydict list"

fun local_step :: "session_store \<Rightarrow> local_op \<Rightarrow> session_store" where
  "local_step s (Init sid h) = snd (local_get_or_init sid h s)"
| "local_step s (Save sid ms) = local_set sid ms s"

fun op_session :: "local_op \<Rightarrow> string" where
  "op_session (Init sid h) = sid" | "op_session (Save sid ms) = sid"

lemma move_to_end_new: "dget d k = None \<Longrightarrow> move_to_end k (dset k v d) = dset k v d"
proof -
  assume new: "dget d k = None"
  then have "ddel k (dset k v d) @ [(k, v)] = dset k v d"
    by (induction d) (auto split: if_splits)
  then show ?thesis by (simp add: move_to_end_def)
qed

lemma local_step_lru:
  assumes "keys (ss_local s) = lru (ss_max s) ks"
  shows "keys (ss_local (local_step s e)) = lru (ss_max s) (ks @ [op_session e]) \<and> ss_max (local_step s e) = ss_max s"
proof (cases e)
  case (Save sid ms)
  then show ?thesis using sessions.put_lru [OF assms] by (simp add: local_set_def)
next
  case (Init sid h)
  show ?thesis
  proof (cases "dget (ss_local s) sid")
    case None
    then have "ss_local (local_step s e) = local_put (ss_max s) sid h (ss_local s)"
      by (simp add: Init local_get_or_init_def local_put_def move_to_end_new)
    then show ?thesis using sessions.put_lru [OF assms] None by (simp add: Init local_get_or_init_def)
  next
    case (Some ms)
    then show ?thesis
      using sessions.touch_lru [OF assms dget_Some_keys [OF Some]] by (simp add: Init local_get_or_init_def)
  qed
qed

text \<open>Without Redis the session cache holds exactly the \<open>max_sessions\<close> sessions used last, in the
  order of their last use, whatever the run of reads and saves.\<close>

theorem sessions_are_lru:
  "keys (ss_local (foldl local_step (new_store b n) es)) = lru n (map op_session es)"
proof -
  have "keys (ss_local s) = lru (ss_max s) ks \<Longrightarrow>
      keys (ss_local (foldl local_step s es)) = lru (ss_max s) (ks @ map op_session es)" for s ks
    by (induction es arbitrary: s ks) (use local_step_lru in fastforce)+
  from this [of "new_store b n" "[]"] show ?thesis by (simp add: new_store_def lru_def)
qed

section \<open>What was saved is read\<close>

lemma dget_local_put:
  assumes "0 < n"
  shows "dget (local_put n sid ms d) sid = Some ms"
proof -
  have "move_to_end sid (dset sid ms d) = ddel sid (dset sid ms d) @ [(sid, ms)]"
    by (simp add: move_to_end_def)
  moreover have "dget (drop (length e + 1 - n) (e @ [(sid, ms)])) sid = Some ms" if "dget e sid = None" for e
  proof -
    have "drop (length e + 1 - n) (e @ [(sid, ms)]) = drop (length e + 1 - n) e @ [(sid, ms)]"
      using assms by simp
    moreover have "dget (drop (length e + 1 - n) e) sid = None"
      using that by (metis dget_None_keys drop_map in_set_dropD)
    ultimately show ?thesis by (simp add: map_add_def)
  qed
  ultimately show ?thesis by (simp add: local_put_def evict_def)
qed

lemma local_set_get:
  "0 < ss_max s \<Longrightarrow> fst (local_get_or_init sid h (local_set sid ms s)) = ms"
  by (simp add: local_get_or_init_def local_set_def dget_local_put)

text \<open>Redis keeps a value it has accepted: what the store relies on.\<close>

definition keeps :: "'w redis_client \<Rightarrow> string \<Rightarrow> pydict list \<Rightarrow> 'w \<Rightarrow> bool" where
  "keeps rd sid ms w \<longleftrightarrow> rd_dumps rd ms \<noteq> [] \<and> rd_loads rd (rd_dumps rd ms) = Inr ms \<and>
     (case redis_set rd sid ms w of
        (Some e, w1) \<Rightarrow> True
      | (None, w1) \<Rightarrow>
          (case rd_get rd (session_key sid) w1 of
             (Inr (Some v), w2) \<Rightarrow> v = rd_dumps rd ms \<and> fst (rd_expire rd (session_key sid) session_ttl w2) = None
           | _ \<Rightarrow> False))"

lemma append_get:
  assumes "sid \<noteq> []" and "0 < ss_max s" and "keeps rd sid ms w"
  shows "fst (store_get_or_init rd private sid h (store_append rd private sid ms (s, w))) = ms"
proof (cases "private \<or> \<not> ss_enabled s")
  case True
  have "ss_enabled (local_set sid ms s) = ss_enabled s" by (simp add: local_set_def)
  then show ?thesis using True assms local_set_get [of s sid h ms]
    by (auto simp: store_append_def store_get_or_init_def split: prod.splits)
next
  case False
  obtain x w1 where set: "redis_set rd sid ms w = (x, w1)" by (cases "redis_set rd sid ms w")
  show ?thesis
  proof (cases x)
    case (Some e)
    have "ss_max (disable s) = ss_max s" "\<not> ss_enabled (local_set sid ms (disable s))"
      by (simp_all add: local_set_def disable_def)
    then show ?thesis using False assms set Some local_set_get [of "disable s" sid h ms]
      by (auto simp: store_append_def store_get_or_init_def split: prod.splits)
  next
    case None
    then obtain w2 c cs where "rd_get rd (session_key sid) w1 = (Inr (Some (c # cs)), w2)"
      "fst (rd_expire rd (session_key sid) session_ttl w2) = None" "rd_loads rd (c # cs) = Inr ms"
      using assms(3) set by (cases "rd_dumps rd ms") (auto simp: keeps_def split: prod.splits sum.splits option.splits)
    then have "fst (redis_get_or_init rd sid h w1) = Inr ms"
      by (cases "rd_expire rd (session_key sid) session_ttl w2") (simp add: redis_get_or_init_def)
    then show ?thesis using False assms(1) set None
      by (cases "redis_get_or_init rd sid h w1") (simp add: store_append_def store_get_or_init_def)
  qed
qed

text \<open>What a run saves, the next run of the same session reads, whatever history comes with it: in
  Redis, in the local cache, and also when Redis refuses the save.\<close>

theorem saved_session_is_read:
  assumes "sid \<noteq> []" and "0 < ss_max s" and "keeps rd sid ms w"
  shows "fst (store_get_or_init rd private sid h (store_append rd private sid ms (s, w))) = ms"
  using assms by (rule append_get)

text \<open>A Redis that holds its strings, with one list of messages that JSON prints as \<open>x\<close>.\<close>

definition example_redis :: "(string \<times> string) list redis_client" where
  "example_redis = \<lparr>rd_get = (\<lambda>k w. (Inr (dget w k), w)), rd_expire = (\<lambda>k t w. (None, w)),
     rd_setex = (\<lambda>k t v w. (None, dset k v w)), rd_delete = (\<lambda>ks w. (None, filter (\<lambda>(k, v). k \<notin> set ks) w)),
     rd_scan = (\<lambda>c w. (Inr (0, keys w), w)), rd_dumps = (\<lambda>ms. ''x''),
     rd_loads = (\<lambda>s. Inr [[(''role'', PStr ''user'')]])\<rparr>"

theorem saved_session_is_read_witness:
  "fst (store_get_or_init example_redis False ''s'' []
     (store_append example_redis False ''s'' [[(''role'', PStr ''user'')]] (new_store True 2, []))) = [[(''role'', PStr ''user'')]]"
proof (rule saved_session_is_read)
  show "keeps example_redis ''s'' [[(''role'', PStr ''user'')]] []"
    by (simp add: keeps_def example_redis_def redis_set_def)
qed (simp_all add: new_store_def)

section \<open>A failure of Redis\<close>

datatype store_op = OpInit bool string "pydict list" | OpAppend bool string "pydict list" | OpGet string | OpRemove string

fun store_step :: "'w redis_client \<Rightarrow> session_store \<times> 'w \<Rightarrow> store_op \<Rightarrow> session_store \<times> 'w" where
  "store_step rd sw (OpInit p sid h) = snd (store_get_or_init rd p sid h sw)"
| "store_step rd sw (OpAppend p sid ms) = store_append rd p sid ms sw"
| "store_step rd sw (OpGet sid) = snd (store_get rd sid sw)"
| "store_step rd sw (OpRemove sid) = store_remove rd sid sw"

lemma disabled_step:
  assumes "\<not> ss_enabled s"
  shows "\<exists>s'. store_step rd (s, w) e = (s', w) \<and> \<not> ss_enabled s'"
proof (cases e)
  case (OpInit p sid h)
  then show ?thesis using assms
    by (auto simp: store_get_or_init_def local_get_or_init_def split: option.splits prod.splits)
qed (use assms in \<open>auto simp: store_append_def store_get_def store_remove_def local_set_def\<close>)

text \<open>One failed command switches Redis off for good: after a read that Redis refused, no operation
  of the store touches Redis again, and a session saved there is read as new.\<close>

theorem redis_failure_is_final:
  assumes "ss_enabled s" and "sid \<noteq> []" and "rd_get rd (session_key sid) w = (Inl e, w1)" and "dget (ss_local s) sid = None"
  shows "fst (store_get_or_init rd False sid h (s, w)) = h \<and>
    (\<exists>s'. foldl (store_step rd) (snd (store_get_or_init rd False sid h (s, w))) es = (s', w1) \<and> \<not> ss_enabled s')"
proof -
  have run: "\<not> ss_enabled s \<Longrightarrow> \<exists>s'. foldl (store_step rd) (s, w) es = (s', w) \<and> \<not> ss_enabled s'" for s :: session_store and w
  proof (induction es arbitrary: s)
    case (Cons x es)
    then show ?case using disabled_step [OF Cons.prems, of rd w x] by auto
  qed simp
  obtain s1 where "store_get_or_init rd False sid h (s, w) = (h, s1, w1)" "\<not> ss_enabled s1"
    using assms by (auto simp: store_get_or_init_def redis_get_or_init_def local_get_or_init_def disable_def)
  then show ?thesis using run by simp
qed

text \<open>A Redis that refuses its reads although it holds the session.\<close>

theorem redis_failure_is_final_witness:
  "fst (store_get_or_init (example_redis\<lparr>rd_get := \<lambda>k w. (Inl ''timeout'', w)\<rparr>) False ''s'' []
     (new_store True 2, [(session_key ''s'', ''x'')])) = []"
  using redis_failure_is_final [of "new_store True 2" "''s''" "example_redis\<lparr>rd_get := \<lambda>k w. (Inl ''timeout'', w)\<rparr>"
      "[(session_key ''s'', ''x'')]" "''timeout''" "[(session_key ''s'', ''x'')]" "[]" "[]"]
  by (simp add: new_store_def)

end
