(* ===== verification/AgentSession.thy ===== *)
theory AgentSession
  imports AgentProps SessionStore
begin

text \<open>
  The history of a conversation across the turns of a run and across the runs of a session: every
  call the model makes is answered in the history, so that what is sent and what is saved stays a
  sequence that the chat interfaces accept, and the next run resumes from what was saved.
\<close>

section \<open>Messages as they are built\<close>

text \<open>A message that the normalisation leaves as it is.\<close>

definition canonical :: "pydict \<Rightarrow> bool" where
  "canonical m \<longleftrightarrow> normalize_one m = Inr m"


definition tool_message :: "pyval \<Rightarrow> string \<Rightarrow> pydict" where
  "tool_message i c = [(''role'', PStr ''tool''), (''content'', PStr c)] @ (if truthy i then [(''tool_call_id'', i)] else [])"



lemma py_or_es [simp]: "py_or (PStr c) es = PStr c"
  by (simp add: py_or_def)

lemma tool_canonical [simp]: "canonical (tool_message i c)"
proof (cases "truthy i")
  case True
  then have "py_or i es = i" by (simp add: py_or_def)
  with True show ?thesis
    by (simp add: canonical_def normalize_one_def tool_message_def dget_or_def make_message_def roles_def
        merge_extra_def Let_def)
next
  case False
  then show ?thesis
    by (simp add: canonical_def normalize_one_def tool_message_def dget_or_def make_message_def roles_def
        merge_extra_def Let_def)
qed




section \<open>Calls and their answers\<close>











section \<open>A run over a valid history\<close>

definition has_id :: "pyval \<Rightarrow> bool" where
  "has_id k \<longleftrightarrow> truthy (fst (call_parts k))"



lemma has_id_call [simp]: "has_id (call_dict i n a) \<longleftrightarrow> truthy i"
  by (simp add: has_id_def call_parts_def call_dict_def dict_of_def dget_or_def Let_def)











lemma tools_open: "list_all is_tool ts \<Longrightarrow> calls_open True ts"
  by (induction ts) (simp_all add: is_tool_def)









section \<open>The next run of a session\<close>














end
