(* ===== verification/Chunking.thy ===== *)
theory Chunking
  imports Prelude "HOL-Library.Sublist"
begin

text \<open>
  The two splitters of documents into overlapping chunks: the fallback splitter of the builder
  (\<^verbatim>\<open>RAGBuilder._chunk_text_simple\<close>, \<^verbatim>\<open>app/rag/builder.py\<close>) and the one of the retriever
  (\<^verbatim>\<open>RAGRetriever._split_text\<close>, \<^verbatim>\<open>app/rag/retriever.py\<close>).
\<close>

section \<open>The splitters\<close>

text \<open>\<open>xs[i:j]\<close> with Python's reading of negative bounds.\<close>

definition clip :: "int \<Rightarrow> int \<Rightarrow> int" where
  "clip n i = max 0 (min n (if i < 0 then i + n else i))"

definition py_slice :: "int \<Rightarrow> int \<Rightarrow> 'a list \<Rightarrow> 'a list" where
  "py_slice i j xs = (let n = int (length xs) in take (nat (clip n j - clip n i)) (drop (nat (clip n i)) xs))"

definition blank :: "string \<Rightarrow> bool" where
  "blank s \<longleftrightarrow> py_strip s = []"

text \<open>The loop of the fallback splitter ends only when the start passes the end of the text.\<close>

partial_function (option) chunk_loop ::
  "int \<Rightarrow> int \<Rightarrow> string \<Rightarrow> int \<Rightarrow> int \<Rightarrow> (int \<times> string) list \<Rightarrow> (int \<times> string) list option" where
  "chunk_loop sz overlap text start index acc =
     (if start < int (length text)
      then (let c = py_slice start (start + sz) text
            in if \<not> blank c
               then chunk_loop sz overlap text (start + sz - overlap) (index + 1) (acc @ [(index, c)])
               else chunk_loop sz overlap text (start + sz - overlap) index acc)
      else Some acc)"

definition chunk_text_simple :: "int \<Rightarrow> int \<Rightarrow> string \<Rightarrow> (int \<times> string) list option" where
  "chunk_text_simple sz overlap text = chunk_loop sz overlap text 0 0 []"

text \<open>The other loop advances by at least one and stops at the first chunk that reaches the end.\<close>

function split_loop :: "int \<Rightarrow> int \<Rightarrow> string \<Rightarrow> int \<Rightarrow> string list" where
  "split_loop sz step text start =
     (if step \<le> 0 \<or> start \<ge> int (length text) then []
      else (let stop = min (start + sz) (int (length text));
                c = py_slice start stop text;
                rest = (if stop \<ge> int (length text) then [] else split_loop sz step text (start + step))
            in if \<not> blank c then c # rest else rest))"
  by auto
termination by (relation "measure (\<lambda>(sz, step, text, start). nat (int (length text) - start))") auto

declare split_loop.simps [simp del]

definition split_text :: "string \<Rightarrow> int \<Rightarrow> int \<Rightarrow> string list" where
  "split_text text sz overlap =
     (if sz \<le> 0 then (if \<not> blank text then [text] else [])
      else split_loop sz (max (sz - overlap) 1) text 0)"

section \<open>Windows\<close>

text \<open>The windows of a text from a position on, every \<open>step\<close> characters: the reference.\<close>

definition window :: "nat \<Rightarrow> string \<Rightarrow> nat \<Rightarrow> string" where
  "window sz text p = take sz (drop p text)"

function windows :: "nat \<Rightarrow> nat \<Rightarrow> string \<Rightarrow> nat \<Rightarrow> string list" where
  "windows sz step text p =
     (if step = 0 \<or> p \<ge> length text then [] else window sz text p # windows sz step text (p + step))"
  by auto
termination by (relation "measure (\<lambda>(sz, step, text, p). length text - p)") auto

declare windows.simps [simp del]

lemma slice_window:
  assumes "0 \<le> sz"
  shows "py_slice (int p) (int p + sz) text = window (nat sz) text p"
proof (cases "p \<le> length text")
  case True
  have "take (nat (min (int (length text)) (int p + sz) - int p)) (drop p text) = take (nat sz) (drop p text)"
    by (cases "int p + sz \<le> int (length text)") (simp_all add: min_def nat_diff_distrib')
  then show ?thesis using assms True by (simp add: py_slice_def clip_def window_def Let_def)
next
  case False
  then show ?thesis using assms by (simp add: py_slice_def clip_def window_def Let_def)
qed

lemma slice_stop: "py_slice i (min j (int (length text))) text = py_slice i j text" if "0 \<le> j"
  using that by (simp add: py_slice_def clip_def Let_def min.commute)

lemma chunk_loop_windows:
  assumes "0 \<le> overlap" and "overlap < sz"
  shows "\<exists>cs. chunk_loop sz overlap text (int p) index acc = Some (acc @ cs) \<and>
    map snd cs = filter (Not \<circ> blank) (windows (nat sz) (nat (sz - overlap)) text p) \<and>
    map fst cs = map (\<lambda>k. index + int k) [0..<length cs]"
proof (induction "length text - p" arbitrary: p index acc rule: less_induct)
  case less
  let ?c = "window (nat sz) text p" and ?q = "p + nat (sz - overlap)"
  show ?case
  proof (cases "p < length text")
    case False
    then show ?thesis by (subst chunk_loop.simps) (simp add: windows.simps)
  next
    case True
    have nxt: "int p + sz - overlap = int ?q" using assms by simp
    have w: "windows (nat sz) (nat (sz - overlap)) text p = ?c # windows (nat sz) (nat (sz - overlap)) text ?q"
      using True assms by (subst windows.simps) simp
    have smaller: "length text - ?q < length text - p" using True assms by simp
    show ?thesis
    proof (cases "blank ?c")
      case True
      then have "chunk_loop sz overlap text (int p) index acc = chunk_loop sz overlap text (int ?q) index acc"
        using \<open>p < length text\<close> assms slice_window [of sz p "text"] nxt
        by (subst chunk_loop.simps) (simp add: Let_def add_diff_eq)
      then show ?thesis using less [OF smaller, of index acc] True by (simp add: w)
    next
      case False
      then have step: "chunk_loop sz overlap text (int p) index acc =
          chunk_loop sz overlap text (int ?q) (index + 1) (acc @ [(index, ?c)])"
        using \<open>p < length text\<close> assms slice_window [of sz p "text"] nxt
        by (subst chunk_loop.simps) (simp add: Let_def add_diff_eq)
      obtain cs where cs: "chunk_loop sz overlap text (int ?q) (index + 1) (acc @ [(index, ?c)]) = Some ((acc @ [(index, ?c)]) @ cs)"
        "map snd cs = filter (Not \<circ> blank) (windows (nat sz) (nat (sz - overlap)) text ?q)"
        "map fst cs = map (\<lambda>k. index + 1 + int k) [0..<length cs]"
        using less [OF smaller, of "index + 1" "acc @ [(index, ?c)]"] by blast
      have "map fst ((index, ?c) # cs) = map (\<lambda>k. index + int k) [0..<length ((index, ?c) # cs)]"
        using cs(3) by (simp add: upt_conv_Cons map_Suc_upt [symmetric] add.assoc comp_def del: upt_Suc)
      then show ?thesis using cs(1,2) False step by (intro exI [of _ "(index, ?c) # cs"]) (simp add: w)
    qed
  qed
qed

text \<open>Past the last overlap the windows are ends of the text.\<close>

lemma windows_ends:
  assumes "e \<in> set (windows sz step text q)" and "length text \<le> q + n" and "n \<le> sz"
  shows "length e \<le> n \<and> suffix e text"
  using assms
proof (induction "length text - q" arbitrary: q rule: less_induct)
  case less
  then have q: "0 < step" "q < length text" by (auto simp: windows.simps split: if_splits)
  then have e: "e = window sz text q \<or> e \<in> set (windows sz step text (q + step))"
    using less.prems(1) by (subst (asm) windows.simps) simp
  have w: "window sz text q = drop q text" using less.prems(2,3) by (simp add: window_def)
  show ?case
    using e
  proof
    assume "e = window sz text q"
    then show ?thesis using w less.prems(2) by (simp add: suffix_drop)
  next
    assume "e \<in> set (windows sz step text (q + step))"
    then show ?thesis using less.hyps [of "q + step"] less.prems(2,3) q by simp
  qed
qed

lemma split_loop_windows:
  assumes "0 \<le> overlap" and "overlap < sz"
  shows "\<exists>es. filter (Not \<circ> blank) (windows (nat sz) (nat (sz - overlap)) text p) = split_loop sz (sz - overlap) text (int p) @ es \<and>
    (\<forall>e \<in> set es. int (length e) \<le> overlap \<and> suffix e text)"
proof (induction "length text - p" arbitrary: p rule: less_induct)
  case less
  let ?c = "window (nat sz) text p" and ?q = "p + nat (sz - overlap)"
  show ?case
  proof (cases "p < length text")
    case False
    then show ?thesis by (simp add: split_loop.simps windows.simps)
  next
    case True
    have w: "windows (nat sz) (nat (sz - overlap)) text p = ?c # windows (nat sz) (nat (sz - overlap)) text ?q"
      using True assms by (subst windows.simps) simp
    have c: "py_slice (int p) (min (int p + sz) (int (length text))) text = ?c"
      using assms slice_stop [of "int p + sz" "int p" "text"] slice_window [of sz p "text"] by simp
    show ?thesis
    proof (cases "int (length text) \<le> int p + sz")
      case True
      have l: "split_loop sz (sz - overlap) text (int p) = (if blank ?c then [] else [?c])"
        using \<open>p < length text\<close> assms c True by (subst split_loop.simps) (simp add: Let_def)
      have "int (length e) \<le> overlap \<and> suffix e text" if "e \<in> set (windows (nat sz) (nat (sz - overlap)) text ?q)" for e
      proof -
        have "int (length text) \<le> int (?q + nat overlap)" using True assms by simp
        then have "length text \<le> ?q + nat overlap" by (simp only: of_nat_le_iff)
        then have "length e \<le> nat overlap \<and> suffix e text" using windows_ends [OF that] assms by simp
        then show ?thesis using assms by (simp add: le_nat_iff)
      qed
      then show ?thesis by (intro exI [of _ "filter (Not \<circ> blank) (windows (nat sz) (nat (sz - overlap)) text ?q)"]) (simp add: w l)
    next
      case False
      have l: "split_loop sz (sz - overlap) text (int p) =
          (if blank ?c then [] else [?c]) @ split_loop sz (sz - overlap) text (int ?q)"
        using \<open>p < length text\<close> assms c False by (subst split_loop.simps) (simp add: Let_def add_diff_eq)
      have "length text - ?q < length text - p" using True assms by simp
      from less [OF this] show ?thesis by (auto simp: w l)
    qed
  qed
qed

section \<open>Properties\<close>

text \<open>With an overlap smaller than the chunk size the fallback splitter ends, and its chunks are the windows
  of the text every \<open>size - overlap\<close> characters, the blank ones left out, numbered from zero.\<close>

theorem chunks_are_windows:
  assumes "0 \<le> overlap" and "overlap < sz"
  shows "\<exists>cs. chunk_text_simple sz overlap text = Some cs \<and>
    map snd cs = filter (Not \<circ> blank) (windows (nat sz) (nat (sz - overlap)) text 0) \<and> map fst cs = map int [0..<length cs]"
  using chunk_loop_windows [OF assms, of "text" 0 0 "[]"] by (simp add: chunk_text_simple_def)

theorem chunks_are_windows_witness:
  "chunk_text_simple 4 2 ''abcdefg'' = Some [(0, ''abcd''), (1, ''cdef''), (2, ''efg''), (3, ''g'')]"
proof -
  obtain cs where "chunk_text_simple 4 2 ''abcdefg'' = Some cs"
    "map snd cs = filter (Not \<circ> blank) (windows (nat 4) (nat (4 - 2)) ''abcdefg'' 0)" "map fst cs = map int [0..<length cs]"
    using chunks_are_windows [of 2 4 "''abcdefg''"] by auto
  moreover have "filter (Not \<circ> blank) (windows (nat 4) (nat (4 - 2)) ''abcdefg'' 0) = [''abcd'', ''cdef'', ''efg'', ''g'']" by code_simp
  ultimately have "map snd cs = [''abcd'', ''cdef'', ''efg'', ''g'']" "map fst cs = map int [0..<length cs]" by simp_all
  moreover from this have "length cs = 4" using arg_cong [of "map snd cs" _ length] by fastforce
  ultimately have "zip (map fst cs) (map snd cs) = [(0, ''abcd''), (1, ''cdef''), (2, ''efg''), (3, ''g'')]"
    by (simp add: upt_rec)
  then show ?thesis using \<open>chunk_text_simple 4 2 ''abcdefg'' = Some cs\<close> by (simp add: zip_map_fst_snd)
qed

text \<open>With an overlap of at least the chunk size the fallback splitter never returns on a text that is not empty.\<close>

theorem chunking_hangs:
  assumes "sz \<le> overlap" and "text \<noteq> []"
  shows "chunk_text_simple sz overlap text = None"
proof (cases "chunk_text_simple sz overlap text")
  case (Some cs)
  have "sz \<le> overlap \<longrightarrow> int (length text) \<le> 0"
  proof (rule chunk_loop.raw_induct [where P = "\<lambda>sz overlap text start index acc cs. sz \<le> overlap \<longrightarrow> int (length text) \<le> start"])
    show "chunk_loop sz overlap text 0 0 [] = Some cs" using Some by (simp add: chunk_text_simple_def)
  qed (fastforce simp: Let_def split: if_splits)
  then show ?thesis using assms by simp
qed

theorem chunking_hangs_witness: "chunk_text_simple 100 100 ''abc'' = None"
  by (rule chunking_hangs) simp_all

text \<open>The two splitters agree up to chunks that repeat the end of the text: the fallback splitter gives
  what the retriever's gives, and after it chunks inside the last overlap.\<close>

theorem splitters_agree:
  assumes "0 \<le> overlap" and "overlap < sz"
  shows "\<exists>cs es. chunk_text_simple sz overlap text = Some cs \<and> map snd cs = split_text text sz overlap @ es \<and>
    (\<forall>e \<in> set es. int (length e) \<le> overlap \<and> suffix e text)"
proof -
  obtain cs where cs: "chunk_text_simple sz overlap text = Some cs"
    "map snd cs = filter (Not \<circ> blank) (windows (nat sz) (nat (sz - overlap)) text 0)"
    using chunk_loop_windows [OF assms, of "text" 0 0 "[]"] by (auto simp: chunk_text_simple_def)
  have "split_text text sz overlap = split_loop sz (sz - overlap) text 0"
    using assms by (simp add: split_text_def)
  then show ?thesis using cs split_loop_windows [OF assms, of "text" 0] by auto
qed

theorem splitters_agree_witness:
  "\<exists>cs es. chunk_text_simple 4 2 ''abcdefg'' = Some cs \<and> map snd cs = split_text ''abcdefg'' 4 2 @ es \<and>
    (\<forall>e \<in> set es. int (length e) \<le> 2 \<and> suffix e ''abcdefg'')"
  by (rule splitters_agree) simp_all

end
