(* ===== verification/RagBuild.thy ===== *)
theory RagBuild
  imports Chunking Router
begin

text \<open>
  Building and querying the index of a document, \<^verbatim>\<open>RAGBuilder\<close> (\<^verbatim>\<open>app/rag/builder.py\<close>): parse, split,
  embed, store, with the progress events of \<^verbatim>\<open>build_document\<close>. Parsers, the LangChain splitter, the
  embedders and the vector stores are arguments; \<open>'w\<close> is the world behind them. The parser is the
  configured one, and the direct Milvus client is not modelled.
\<close>

section \<open>Environment\<close>

datatype vector_db = Milvus | Pgvector

definition vector_db_of :: "string \<Rightarrow> vector_db option" where
  "vector_db_of s = (if s = ''milvus'' then Some Milvus else if s = ''pgvector'' then Some Pgvector else None)"

record parsed =
  pa_text :: string
  pa_chars :: int
  pa_pages :: int

text \<open>What goes to a store for one chunk.\<close>

record vector_entry =
  ve_id :: string
  ve_vector :: "pyfloat list"
  ve_content :: string
  ve_kb :: string
  ve_doc :: string
  ve_tenant :: string
  ve_index :: int

type_synonym text_chunk = "int \<times> string"

record 'w rag_env =
  rg_parse :: "string \<Rightarrow> string \<Rightarrow> string \<Rightarrow> 'w \<Rightarrow> (string + parsed) \<times> 'w"
  rg_split :: "string \<Rightarrow> string list option"
  rg_local :: "string \<Rightarrow> 'w \<Rightarrow> pyfloat list option \<times> 'w"
  rg_api :: "string \<Rightarrow> 'w \<Rightarrow> pyfloat list option \<times> 'w"
  rg_fresh :: "nat \<Rightarrow> string"
  rg_ensure :: "string \<Rightarrow> nat \<Rightarrow> 'w \<Rightarrow> string option \<times> 'w"
  rg_insert :: "string \<Rightarrow> vector_entry list \<Rightarrow> 'w \<Rightarrow> string option \<times> 'w"
  rg_replace :: "string \<Rightarrow> vector_entry list \<Rightarrow> 'w \<Rightarrow> string option \<times> 'w"
  rg_search :: "string \<Rightarrow> pyfloat list \<Rightarrow> int \<Rightarrow> pyfloat \<Rightarrow> 'w \<Rightarrow> (string + pydict list) \<times> 'w"
  rg_default_db :: vector_db
  rg_dim :: nat
  rg_chunk_size :: int
  rg_chunk_overlap :: int

section \<open>Splitting and embedding\<close>

text \<open>\<open>None\<close>: the fallback splitter does not return.\<close>

definition chunk_document :: "'w rag_env \<Rightarrow> string \<Rightarrow> text_chunk list option" where
  "chunk_document env t =
     (case rg_split env t of
        Some cs \<Rightarrow> Some (map (\<lambda>(i, c). (int i, c)) (enumerate 0 cs))
      | None \<Rightarrow> chunk_text_simple (rg_chunk_size env) (rg_chunk_overlap env) t)"

definition embed_text :: "'w rag_env \<Rightarrow> string \<Rightarrow> 'w \<Rightarrow> pyfloat list option \<times> 'w" where
  "embed_text env t w =
     (case rg_local env t w of
        (Some v, w1) \<Rightarrow> (Some v, w1)
      | (None, w1) \<Rightarrow> rg_api env t w1)"

fun compute_embeddings :: "'w rag_env \<Rightarrow> text_chunk list \<Rightarrow> 'w \<Rightarrow> pyfloat list option list \<times> 'w" where
  "compute_embeddings env [] w = ([], w)"
| "compute_embeddings env ((i, t) # cs) w =
     (case embed_text env t w of
        (v, w1) \<Rightarrow> (case compute_embeddings env cs w1 of (vs, w2) \<Rightarrow> (v # vs, w2)))"

section \<open>Storing\<close>

definition collection_name :: "string \<Rightarrow> string" where
  "collection_name kb = ''kb_'' @ map (\<lambda>c. if c = CHR ''-'' then CHR ''_'' else c) kb"

definition vector_entry_of :: "'w rag_env \<Rightarrow> string \<Rightarrow> string \<Rightarrow> string \<Rightarrow> nat \<Rightarrow> text_chunk \<Rightarrow> pyfloat list \<Rightarrow> vector_entry" where
  "vector_entry_of env kb doc tenant k c v = \<lparr>ve_id = rg_fresh env k, ve_vector = v, ve_content = take 65000 (snd c),
     ve_kb = kb, ve_doc = doc, ve_tenant = tenant, ve_index = fst c\<rparr>"

text \<open>Only a missing embedding is skipped; the vector of any length goes to the store.\<close>

definition interface_entries ::
  "'w rag_env \<Rightarrow> string \<Rightarrow> string \<Rightarrow> string \<Rightarrow> text_chunk list \<Rightarrow> pyfloat list option list \<Rightarrow> vector_entry list" where
  "interface_entries env kb doc tenant cs vs =
     concat (map (\<lambda>(k, c, v). case v of None \<Rightarrow> [] | Some x \<Rightarrow> [vector_entry_of env kb doc tenant k c x])
       (enumerate 0 (zip cs vs)))"

definition store_with_interface ::
  "'w rag_env \<Rightarrow> string \<Rightarrow> string \<Rightarrow> string \<Rightarrow> text_chunk list \<Rightarrow> pyfloat list option list \<Rightarrow> 'w \<Rightarrow> string option \<times> 'w" where
  "store_with_interface env kb doc tenant cs vs w =
     (let dim = (case vs of Some (x # xs) # r \<Rightarrow> length (x # xs) | _ \<Rightarrow> rg_dim env)
      in case rg_ensure env (collection_name kb) dim w of
           (Some e, w1) \<Rightarrow> (Some e, w1)
         | (None, w1) \<Rightarrow>
             (case interface_entries env kb doc tenant cs vs of
                [] \<Rightarrow> (Some ''no valid vectors'', w1)
              | es' \<Rightarrow> rg_insert env (collection_name kb) es' w1))"

text \<open>The PostgreSQL store also skips the vectors of another dimension, and replaces the rows of the document.\<close>

definition pgvector_entries ::
  "'w rag_env \<Rightarrow> string \<Rightarrow> string \<Rightarrow> string \<Rightarrow> text_chunk list \<Rightarrow> pyfloat list option list \<Rightarrow> vector_entry list" where
  "pgvector_entries env kb doc tenant cs vs =
     filter (\<lambda>r. length (ve_vector r) = rg_dim env) (interface_entries env kb doc tenant cs vs)"

definition store_pgvector ::
  "'w rag_env \<Rightarrow> string \<Rightarrow> string \<Rightarrow> string \<Rightarrow> text_chunk list \<Rightarrow> pyfloat list option list \<Rightarrow> 'w \<Rightarrow> string option \<times> 'w" where
  "store_pgvector env kb doc tenant cs vs w =
     (case pgvector_entries env kb doc tenant cs vs of
        [] \<Rightarrow> (Some (if list_ex (\<lambda>v. case v of None \<Rightarrow> False | Some x \<Rightarrow> length x \<noteq> rg_dim env) vs
                    then ''all vectors have the wrong dimension'' else ''no valid vectors''), w)
      | es' \<Rightarrow> rg_replace env doc es' w)"

definition store_vectors ::
  "'w rag_env \<Rightarrow> vector_db \<Rightarrow> string \<Rightarrow> string \<Rightarrow> string \<Rightarrow> text_chunk list \<Rightarrow> pyfloat list option list \<Rightarrow> 'w \<Rightarrow> string option \<times> 'w" where
  "store_vectors env db kb doc tenant cs vs w =
     (case db of
        Milvus \<Rightarrow> store_with_interface env kb doc tenant cs vs w
      | Pgvector \<Rightarrow> store_pgvector env kb doc tenant cs vs w)"

section \<open>Building a document\<close>

datatype build_event = Progress string pyfloat | BuildError string | Complete int int int

definition choose_db :: "'w rag_env \<Rightarrow> string option \<Rightarrow> vector_db" where
  "choose_db env name =
     (case name of
        Some (c # cs) \<Rightarrow> (case vector_db_of (c # cs) of Some db \<Rightarrow> db | None \<Rightarrow> rg_default_db env)
      | _ \<Rightarrow> rg_default_db env)"

text \<open>
  A parse error with an empty message counts as no error, and the missing text then raises a
  \<open>KeyError\<close>. \<open>None\<close>: the generator hangs in the splitter.
\<close>

definition build_document ::
  "'w rag_env \<Rightarrow> string \<Rightarrow> string \<Rightarrow> string \<Rightarrow> string \<Rightarrow> string \<Rightarrow> string \<Rightarrow> string option \<Rightarrow> 'w \<Rightarrow>
   (build_event list \<times> 'w) option" where
  "build_document env kb doc content file_type filename tenant db_name w =
     (let p1 = Progress ''parsing'' (1 / 10); p2 = Progress ''chunking'' (3 / 10); p3 = Progress ''embedding'' (1 / 2);
          p4 = Progress ''embedding'' (8 / 10); p5 = Progress ''storing'' (9 / 10)
      in case rg_parse env content file_type filename w of
           (Inl e, w1) \<Rightarrow> Some ([p1, BuildError (if e = [] then repr_str ''text'' else e)], w1)
         | (Inr p, w1) \<Rightarrow>
             (if py_strip (pa_text p) = [] then Some ([p1, BuildError ''empty document''], w1)
              else case chunk_document env (pa_text p) of
                     None \<Rightarrow> None
                   | Some [] \<Rightarrow> Some ([p1, p2, BuildError ''no chunks''], w1)
                   | Some cs \<Rightarrow>
                       (case compute_embeddings env cs w1 of
                          (vs, w2) \<Rightarrow>
                            (case store_vectors env (choose_db env db_name) kb doc tenant cs vs w2 of
                               (Some e, w3) \<Rightarrow> Some ([p1, p2, p3, p4, p5, BuildError e], w3)
                             | (None, w3) \<Rightarrow>
                                 Some ([p1, p2, p3, p4, p5, Progress ''storing'' 1,
                                   Complete (int (length cs)) (pa_chars p) (pa_pages p)], w3)))))"

section \<open>Querying\<close>

text \<open>A search row as the callers see it; a row without an id raises.\<close>

definition result_row :: "pydict \<Rightarrow> pydict res" where
  "result_row r =
     (case dget r ''id'' of
        None \<Rightarrow> Inl (KeyError ''id'')
      | Some i \<Rightarrow> Inr [(''id'', i), (''content'', dget_or r ''content'' es), (''doc_id'', dget_or r ''doc_id'' es),
          (''chunk_index'', dget_or r ''chunk_index'' (PInt 0)), (''score'', dget_or r ''score'' (PInt 0))])"

definition query_with_interface ::
  "'w rag_env \<Rightarrow> string \<Rightarrow> string \<Rightarrow> int \<Rightarrow> pyfloat \<Rightarrow> 'w \<Rightarrow> (string + pydict list res) \<times> 'w" where
  "query_with_interface env kb q top_k threshold w =
     (case embed_text env q w of
        (v, w1) \<Rightarrow>
          (if v = None \<or> v = Some [] then (Inr (Inr []), w1)
           else case rg_search env (collection_name kb) (the v) top_k threshold w1 of
                  (Inl e, w2) \<Rightarrow> (Inl e, w2)
                | (Inr rows, w2) \<Rightarrow> (Inr (map_res result_row rows), w2)))"

section \<open>Facts\<close>

text \<open>The embedder of the builder on the gateway: a failing call gives an empty vector there, not an exception.\<close>

definition gateway_embedder :: "'w router_env \<Rightarrow> string \<Rightarrow> string \<Rightarrow> router \<times> 'w \<Rightarrow> pyfloat list option \<times> router \<times> 'w" where
  "gateway_embedder renv model t rw =
     (case rw of (rt, w) \<Rightarrow> case embed renv t model [] rt w of ((v, n), rt1, w1) \<Rightarrow> (Some v, rt1, w1))"

lemma embed_fails:
  assumes "\<And>p t m w. isl (fst (rv_embed renv p t m w))"
  shows "fst (gateway_embedder renv model t rw) = Some []"
proof -
  obtain rt w where rw: "rw = (rt, w)" by (cases rw)
  obtain o1 rt1 w1 where s: "select_provider renv model [] rt w = (o1, rt1, w1)" by (cases "select_provider renv model [] rt w")
  show ?thesis
  proof (cases o1)
    case (Some p)
    obtain e w2 where "rv_embed renv p t model w1 = (Inl e, w2)"
      using assms [of p t model w1] by (cases "rv_embed renv p t model w1"; cases "fst (rv_embed renv p t model w1)") auto
    then show ?thesis using s Some by (simp add: rw gateway_embedder_def embed_def)
  qed (use s in \<open>simp add: rw gateway_embedder_def embed_def\<close>)
qed

lemma all_fail:
  assumes "\<And>t w. rg_local env t w = (None, w)" and "\<And>t w. fst (rg_api env t w) = Some []"
  shows "fst (compute_embeddings env cs w) = map (\<lambda>c. Some []) cs"
proof (induction cs arbitrary: w)
  case (Cons c cs)
  obtain v w1 where v: "rg_api env (snd c) w = (v, w1)" by (cases "rg_api env (snd c) w")
  then have "v = Some []" using assms(2) [of "snd c" w] by simp
  then show ?case using v Cons.IH [of w1] assms(1) by (cases c; cases "compute_embeddings env cs w1") (simp add: embed_text_def)
qed simp

lemma empty_vectors:
  "map ve_vector (interface_entries env kb doc tenant cs (map (\<lambda>c. Some []) cs)) = map (\<lambda>c. []) cs"
proof -
  have "map ve_vector (concat (map (\<lambda>(k, c, v). case v of None \<Rightarrow> [] | Some x \<Rightarrow> [vector_entry_of env kb doc tenant k c x])
      (enumerate n (zip cs (map (\<lambda>c. Some []) cs))))) = map (\<lambda>c. []) cs" for n
    by (induction cs arbitrary: n) (simp_all add: vector_entry_of_def)
  then show ?thesis by (simp add: interface_entries_def)
qed

section \<open>Properties\<close>

text \<open>When every embedding call of the gateway fails, no chunk counts as failed: the store interface is
  given an entry with an empty vector for each chunk, where the PostgreSQL store refuses them all.\<close>

theorem failed_embeddings_are_stored:
  assumes "\<And>p t m w. isl (fst (rv_embed renv p t m w))" and "\<And>t w. rg_local env t w = (None, w)"
    and "rg_api env = gateway_embedder renv model" and "0 < rg_dim env" and "vs = fst (compute_embeddings env cs w)"
  shows "map ve_vector (interface_entries env kb doc tenant cs vs) = map (\<lambda>c. []) cs \<and>
    (\<exists>e. store_pgvector env kb doc tenant cs vs w' = (Some e, w'))"
proof -
  have vs: "vs = map (\<lambda>c. Some []) cs"
    unfolding assms(5) by (rule all_fail [OF assms(2)]) (simp add: assms(3) embed_fails [OF assms(1)])
  have "ve_vector r = []" if "r \<in> set (interface_entries env kb doc tenant cs vs)" for r
    using arg_cong [OF empty_vectors [of env kb doc tenant cs], of set] that by (auto simp: vs)
  then have "pgvector_entries env kb doc tenant cs vs = []"
    using assms(4) by (auto simp: pgvector_entries_def filter_empty_conv)
  then show ?thesis by (simp add: vs empty_vectors store_pgvector_def)
qed

definition example_rag :: "(router \<times> pyfloat) rag_env" where
  "example_rag = \<lparr>rg_parse = (\<lambda>c ft n w. (Inr \<lparr>pa_text = c, pa_chars = int (length c), pa_pages = 1\<rparr>, w)),
     rg_split = (\<lambda>t. None), rg_local = (\<lambda>t w. (None, w)), rg_api = gateway_embedder flaky ''m'', rg_fresh = str_nat,
     rg_ensure = (\<lambda>c d w. (None, w)), rg_insert = (\<lambda>c rs w. (None, w)), rg_replace = (\<lambda>d rs w. (None, w)),
     rg_search = (\<lambda>c v k t w. (Inr [], w)), rg_default_db = Milvus, rg_dim = 4, rg_chunk_size = 5, rg_chunk_overlap = 1\<rparr>"

theorem failed_embeddings_are_stored_witness:
  "map ve_vector (interface_entries example_rag ''kb'' ''d'' ''t'' [(0, ''some''), (1, ''text'')]
     (fst (compute_embeddings example_rag [(0, ''some''), (1, ''text'')] (new_router [''openai''] None False, 7)))) = [[], []]"
proof -
  have "isl (fst (rv_embed flaky p t m w))" for p t m w by (simp add: example_env_def)
  from failed_embeddings_are_stored [OF this, of example_rag "''m''" _ "[(0, ''some''), (1, ''text'')]"
      "(new_router [''openai''] None False, 7)" "''kb''" "''d''" "''t''"]
  show ?thesis by (simp add: example_rag_def)
qed

text \<open>A build that ends sends its progress in order and closes with exactly one result, a completion that
  counts the stored chunks or an error.\<close>

fun is_progress :: "build_event \<Rightarrow> bool" where
  "is_progress (Progress s x) = True" | "is_progress e = False"

fun progress_of :: "build_event \<Rightarrow> pyfloat" where
  "progress_of (Progress s x) = x" | "progress_of e = 0"

theorem build_has_one_result:
  assumes "build_document env kb doc content ft name tenant db w = Some (evs, w')"
  shows "evs \<noteq> [] \<and> list_all is_progress (butlast evs) \<and> \<not> is_progress (last evs) \<and>
    sorted (map progress_of (butlast evs)) \<and>
    (\<forall>n c p. last evs = Complete n c p \<longrightarrow>
      (\<exists>pa w1 cs. rg_parse env content ft name w = (Inr pa, w1) \<and> chunk_document env (pa_text pa) = Some cs \<and>
        n = int (length cs) \<and> n > 0))"
  using assms
  by (auto simp: build_document_def Let_def split: prod.splits sum.splits option.splits list.splits if_splits)

theorem build_has_one_result_witness:
  "\<not> is_progress (last (fst (the (build_document example_rag ''kb'' ''d'' '' '' ''txt'' ''n'' ''t'' None
     (new_router [''openai''] None False, 7)))))"
proof -
  have b: "build_document example_rag ''kb'' ''d'' '' '' ''txt'' ''n'' ''t'' None (new_router [''openai''] None False, 7) =
      Some ([Progress ''parsing'' (1 / 10), BuildError ''empty document''], (new_router [''openai''] None False, 7))"
    by (simp add: build_document_def example_rag_def py_strip_def py_lstrip_def is_space_def)
  from build_has_one_result [OF b] show ?thesis by (simp add: b)
qed

end
