(* ===== verification/JobQueue.thy ===== *)
theory JobQueue
  imports PyVal
begin

text \<open>
  The task queue on Redis streams: what the producer publishes (\<^verbatim>\<open>app/queue/producer.py\<close>), what the
  worker does with a message (\<^verbatim>\<open>app/queue/worker.py\<close>) and the dead-letter queue
  (\<^verbatim>\<open>app/queue/dlq.py\<close>). Redis, JSON, the memory service and the builder are arguments over a world
  \<open>'w\<close>; a command either succeeds or raises. The signal handlers, the semaphore around a batch and the
  metrics are not modelled.
\<close>

section \<open>Messages\<close>

text \<open>The fields of a stream entry, decoded.\<close>

type_synonym fields = "(string, string) dict"

definition task_stream :: string where
  "task_stream = ''engine:tasks''"

definition dlq_stream :: string where
  "dlq_stream = ''engine:tasks:dlq''"

definition max_retries :: int where
  "max_retries = 3"

record 'w queue_env =
  qe_xadd :: "string \<Rightarrow> fields \<Rightarrow> int option \<Rightarrow> 'w \<Rightarrow> string option \<times> 'w"
  qe_xack :: "string \<Rightarrow> string \<Rightarrow> 'w \<Rightarrow> string option \<times> 'w"
  qe_xrange :: "string \<Rightarrow> string \<Rightarrow> 'w \<Rightarrow> (string + (string \<times> fields) list) \<times> 'w"
  qe_xrevrange :: "string \<Rightarrow> int \<Rightarrow> 'w \<Rightarrow> (string + (string \<times> fields) list) \<times> 'w"
  qe_xdel :: "string \<Rightarrow> string \<Rightarrow> 'w \<Rightarrow> string option \<times> 'w"
  qe_dumps :: "pyval \<Rightarrow> string"
  qe_loads :: "string \<Rightarrow> string + pyval"
  qe_rag_index :: "pyval \<Rightarrow> 'w \<Rightarrow> string option \<times> 'w"
  qe_memory_save :: "pyval \<Rightarrow> string \<Rightarrow> 'w \<Rightarrow> string option \<times> 'w"
  qe_memory_consolidate :: "pyval \<Rightarrow> string \<Rightarrow> 'w \<Rightarrow> string option \<times> 'w"
  qe_memory_rollup :: "pyval \<Rightarrow> string \<Rightarrow> 'w \<Rightarrow> string option \<times> 'w"
  qe_embed_batch :: "pyval \<Rightarrow> 'w \<Rightarrow> string option \<times> 'w"

section \<open>Producer\<close>

definition task_message :: "string \<Rightarrow> string \<Rightarrow> string \<Rightarrow> string \<Rightarrow> string \<Rightarrow> string \<Rightarrow> int \<Rightarrow> fields" where
  "task_message task_id task_type tenant payload created trace priority =
     [(''task_id'', task_id), (''task_type'', task_type), (''tenant_id'', tenant), (''payload'', payload),
      (''created_at'', created), (''retry_count'', ''0''), (''trace_id'', trace), (''priority'', str_int priority)]"

definition enqueue ::
  "'w queue_env \<Rightarrow> string \<Rightarrow> string \<Rightarrow> string \<Rightarrow> pyval \<Rightarrow> string \<Rightarrow> string \<Rightarrow> int \<Rightarrow> 'w \<Rightarrow> (string + string) \<times> 'w" where
  "enqueue env task_id task_type tenant payload created trace priority w =
     (case qe_xadd env task_stream (task_message task_id task_type tenant (qe_dumps env payload) created trace priority)
          (Some 100000) w of
        (Some e, w1) \<Rightarrow> (Inl e, w1)
      | (None, w1) \<Rightarrow> (Inr task_id, w1))"

section \<open>Worker\<close>

text \<open>A type that no handler has is logged and counts as done.\<close>

definition dispatch :: "'w queue_env \<Rightarrow> string \<Rightarrow> pyval \<Rightarrow> string \<Rightarrow> 'w \<Rightarrow> string option \<times> 'w" where
  "dispatch env task_type payload tenant w =
     (if task_type = ''rag_index'' then qe_rag_index env payload w
      else if task_type = ''memory_save'' then qe_memory_save env payload tenant w
      else if task_type = ''memory_consolidate'' then qe_memory_consolidate env payload tenant w
      else if task_type = ''memory_rollup'' then qe_memory_rollup env payload tenant w
      else if task_type = ''embed_batch'' then qe_embed_batch env payload w
      else (None, w))"

definition retry_message :: "fields \<Rightarrow> int \<Rightarrow> fields" where
  "retry_message f n =
     [(''task_type'', dget_or f ''task_type'' []), (''task_id'', dget_or f ''task_id'' []),
      (''payload'', dget_or f ''payload'' ''{}''), (''retry_count'', str_int n)] @
     (if dget_or f ''tenant_id'' [] \<noteq> [] then [(''tenant_id'', dget_or f ''tenant_id'' [])] else [])"

definition dead_message :: "fields \<Rightarrow> int \<Rightarrow> string \<Rightarrow> fields" where
  "dead_message f n e =
     [(''task_id'', dget_or f ''task_id'' []), (''task_type'', dget_or f ''task_type'' []),
      (''payload'', dget_or f ''payload'' ''{}''), (''error'', e), (''retry_count'', str_int n)]"

text \<open>The handler's run: JSON first, then the dispatch.\<close>

definition attempt :: "'w queue_env \<Rightarrow> fields \<Rightarrow> 'w \<Rightarrow> string option \<times> 'w" where
  "attempt env f w =
     (case qe_loads env (dget_or f ''payload'' ''{}'') of
        Inl e \<Rightarrow> (Some e, w)
      | Inr payload \<Rightarrow> dispatch env (dget_or f ''task_type'' []) payload (dget_or f ''tenant_id'' []) w)"

text \<open>What became of a message; \<open>Raised\<close>: the exception leaves the handler task, the message stays pending.\<close>

datatype task_outcome = Done | Requeued fields | Dead fields | Raised

definition publish_and_ack ::
  "'w queue_env \<Rightarrow> string \<Rightarrow> string \<Rightarrow> fields \<Rightarrow> int option \<Rightarrow> task_outcome \<Rightarrow> 'w \<Rightarrow> task_outcome \<times> 'w" where
  "publish_and_ack env sid stream f maxlen out w =
     (case qe_xadd env stream f maxlen w of
        (Some e, w1) \<Rightarrow> (Raised, w1)
      | (None, w1) \<Rightarrow> (case qe_xack env task_stream sid w1 of (Some e, w2) \<Rightarrow> (Raised, w2) | (None, w2) \<Rightarrow> (out, w2)))"

definition handle_failure :: "'w queue_env \<Rightarrow> string \<Rightarrow> fields \<Rightarrow> int \<Rightarrow> string \<Rightarrow> 'w \<Rightarrow> task_outcome \<times> 'w" where
  "handle_failure env sid f n e w =
     (if n \<ge> max_retries
      then publish_and_ack env sid dlq_stream (dead_message f n e) None (Dead (dead_message f n e)) w
      else publish_and_ack env sid task_stream (retry_message f (n + 1)) (Some 10000) (Requeued (retry_message f (n + 1))) w)"

text \<open>The retry count is read before the try block. A failing acknowledgement after a success is a failure too.\<close>

definition process_message :: "'w queue_env \<Rightarrow> string \<Rightarrow> fields \<Rightarrow> 'w \<Rightarrow> task_outcome \<times> 'w" where
  "process_message env sid f w =
     (case py_int (dget_or f ''retry_count'' ''0'') of
        None \<Rightarrow> (Raised, w)
      | Some n \<Rightarrow>
          (case attempt env f w of
             (Some e, w1) \<Rightarrow> handle_failure env sid f n e w1
           | (None, w1) \<Rightarrow>
               (case qe_xack env task_stream sid w1 of
                  (None, w2) \<Rightarrow> (Done, w2)
                | (Some e, w2) \<Rightarrow> handle_failure env sid f n e w2)))"

section \<open>Dead letters\<close>

definition dlq_list :: "'w queue_env \<Rightarrow> int \<Rightarrow> 'w \<Rightarrow> (string + fields list) \<times> 'w" where
  "dlq_list env n w =
     (case qe_xrevrange env dlq_stream n w of
        (Inl e, w1) \<Rightarrow> (Inl e, w1)
      | (Inr es, w1) \<Rightarrow> (Inr (map (\<lambda>(i, f). dset ''stream_id'' i f) es), w1))"

definition requeue_message :: "fields \<Rightarrow> fields" where
  "requeue_message f = dset ''retry_count'' ''0'' (filter (\<lambda>(k, v). k \<noteq> ''error'' \<and> k \<noteq> ''stream_id'') f)"

definition dlq_retry :: "'w queue_env \<Rightarrow> string \<Rightarrow> 'w \<Rightarrow> (string + bool) \<times> 'w" where
  "dlq_retry env i w =
     (case qe_xrange env dlq_stream i w of
        (Inl e, w1) \<Rightarrow> (Inl e, w1)
      | (Inr [], w1) \<Rightarrow> (Inr False, w1)
      | (Inr ((j, f) # r), w1) \<Rightarrow>
          (case qe_xadd env task_stream (requeue_message f) None w1 of
             (Some e, w2) \<Rightarrow> (Inl e, w2)
           | (None, w2) \<Rightarrow> (case qe_xdel env dlq_stream i w2 of (Some e, w3) \<Rightarrow> (Inl e, w3) | (None, w3) \<Rightarrow> (Inr True, w3))))"

fun retry_each :: "'w queue_env \<Rightarrow> fields list \<Rightarrow> int \<Rightarrow> 'w \<Rightarrow> (string + int) \<times> 'w" where
  "retry_each env [] n w = (Inr n, w)"
| "retry_each env (m # ms) n w =
     (case dlq_retry env (dget_or m ''stream_id'' []) w of
        (Inl e, w1) \<Rightarrow> (Inl e, w1)
      | (Inr b, w1) \<Rightarrow> retry_each env ms (if b then n + 1 else n) w1)"

definition dlq_retry_all :: "'w queue_env \<Rightarrow> 'w \<Rightarrow> (string + int) \<times> 'w" where
  "dlq_retry_all env w =
     (case dlq_list env 1000 w of (Inl e, w1) \<Rightarrow> (Inl e, w1) | (Inr ms, w1) \<Rightarrow> retry_each env ms 0 w1)"

fun delete_each :: "'w queue_env \<Rightarrow> fields list \<Rightarrow> int \<Rightarrow> 'w \<Rightarrow> (string + int) \<times> 'w" where
  "delete_each env [] n w = (Inr n, w)"
| "delete_each env (m # ms) n w =
     (case qe_xdel env dlq_stream (dget_or m ''stream_id'' []) w of
        (Some e, w1) \<Rightarrow> (Inl e, w1)
      | (None, w1) \<Rightarrow> delete_each env ms (n + 1) w1)"

definition dlq_clear :: "'w queue_env \<Rightarrow> 'w \<Rightarrow> (string + int) \<times> 'w" where
  "dlq_clear env w =
     (case dlq_list env 10000 w of (Inl e, w1) \<Rightarrow> (Inl e, w1) | (Inr ms, w1) \<Rightarrow> delete_each env ms 0 w1)"

section \<open>The life of a task\<close>


text \<open>Redis takes every command, and the handler fails in every world.\<close>

definition redis_up :: "'w queue_env \<Rightarrow> bool" where
  "redis_up env \<longleftrightarrow> (\<forall>s f m w. fst (qe_xadd env s f m w) = None) \<and> (\<forall>s i w. fst (qe_xack env s i w) = None)"



lemma retry_count [simp]: "dget_or (retry_message f n) ''retry_count'' ''0'' = str_int n"
  by (simp add: retry_message_def dget_or_def)






definition failing_queue :: "nat queue_env" where
  "failing_queue = \<lparr>qe_xadd = (\<lambda>s f m w. (None, Suc w)), qe_xack = (\<lambda>s i w. (None, w)), qe_xrange = (\<lambda>s i w. (Inr [], w)),
     qe_xrevrange = (\<lambda>s n w. (Inr [], w)), qe_xdel = (\<lambda>s i w. (None, w)), qe_dumps = (\<lambda>v. ''{}''),
     qe_loads = (\<lambda>s. Inr (PDict [])), qe_rag_index = (\<lambda>p w. (Some ''down'', w)),
     qe_memory_save = (\<lambda>p t w. (if t = [] then Some ''no tenant'' else None, w)), qe_memory_consolidate = (\<lambda>p t w. (None, w)),
     qe_memory_rollup = (\<lambda>p t w. (None, w)), qe_embed_batch = (\<lambda>p w. (None, w))\<rparr>"

definition rag_task :: fields where
  "rag_task = task_message ''1'' ''rag_index'' ''acme'' ''{}'' ''now'' ''trace'' 0"


text \<open>A message is acknowledged only after its successor is in a stream: when Redis refuses to publish
  the retry or the dead letter, nothing is acknowledged and the exception leaves the worker's task.\<close>

theorem no_ack_without_publish:
  assumes "attempt env f w = (Some e, w1)" and "py_int (dget_or f ''retry_count'' ''0'') = Some n"
    and "\<And>s g m. \<exists>x. fst (qe_xadd env s g m w1) = Some x"
  shows "fst (process_message env sid f w) = Raised \<and>
    (\<exists>s g m. snd (process_message env sid f w) = snd (qe_xadd env s g m w1))"
proof -
  have p: "publish_and_ack env sid s g m out w1 = (Raised, snd (qe_xadd env s g m w1))" for s g m out
    using assms(3) [of s g m] by (cases "qe_xadd env s g m w1") (auto simp: publish_and_ack_def)
  have "process_message env sid f w = handle_failure env sid f n e w1"
    using assms(1,2) by (simp add: process_message_def)
  then show ?thesis by (auto simp: handle_failure_def p)
qed

theorem no_ack_without_publish_witness:
  "fst (process_message (failing_queue\<lparr>qe_xadd := \<lambda>s f m w. (Some ''oom'', w)\<rparr>) ''a'' rag_task 0) = Raised"
proof -
  let ?env = "failing_queue\<lparr>qe_xadd := \<lambda>s f m w. (Some ''oom'', w)\<rparr>"
  have a: "attempt ?env rag_task 0 = (Some ''down'', 0)"
    by (simp add: attempt_def dispatch_def failing_queue_def rag_task_def task_message_def dget_or_def)
  have n: "py_int (dget_or rag_task ''retry_count'' ''0'') = Some 0" by code_simp
  show ?thesis using no_ack_without_publish [OF a n, of "''a''"] by simp
qed

text \<open>A dead letter that is put back runs without its tenant: the entry never kept the field, so the
  handlers of the memory tasks are called for the empty tenant.\<close>

theorem dead_task_loses_tenant:
  "attempt env (requeue_message (dead_message f n e)) w = attempt env (dset ''tenant_id'' [] f) w"
  by (simp add: attempt_def requeue_message_def dead_message_def dget_or_def split: sum.splits)

text \<open>A task of a type that no handler has is acknowledged as done.\<close>

theorem unknown_task_is_done:
  assumes "redis_up env" and "py_int (dget_or f ''retry_count'' ''0'') = Some n"
    and "qe_loads env (dget_or f ''payload'' ''{}'') = Inr payload"
    and "dget_or f ''task_type'' [] \<notin> {''rag_index'', ''memory_save'', ''memory_consolidate'', ''memory_rollup'', ''embed_batch''}"
  shows "fst (process_message env sid f w) = Done"
proof -
  have "attempt env f w = (None, w)" using assms(3,4) by (simp add: attempt_def dispatch_def)
  moreover have "fst (qe_xack env task_stream sid w) = None" using assms(1) by (simp add: redis_up_def)
  ultimately show ?thesis using assms(2)
    by (cases "qe_xack env task_stream sid w") (simp add: process_message_def)
qed

theorem unknown_task_is_done_witness:
  "fst (process_message failing_queue ''a'' [(''task_type'', ''rag-index''), (''task_id'', ''1'')] 0) = Done"
proof -
  have "redis_up failing_queue" by (simp add: redis_up_def failing_queue_def)
  moreover have "py_int (dget_or [(''task_type'', ''rag-index''), (''task_id'', ''1'')] ''retry_count'' ''0'') = Some 0" by code_simp
  ultimately show ?thesis
    using unknown_task_is_done [of failing_queue "[(''task_type'', ''rag-index''), (''task_id'', ''1'')]" 0 "PDict []" "''a''" 0]
    by (simp add: failing_queue_def dget_or_def)
qed

end
