(* ===== verification/RagIndex.thy ===== *)
theory RagIndex
  imports RagBuild JobQueue
begin

text \<open>
  The task that indexes the documents of a knowledge base, \<^verbatim>\<open>QueueWorker._handle_rag_index\<close>
  (\<^verbatim>\<open>app/queue/worker.py\<close>): every document is built and marked, and when all are done the base is
  activated and paid for in one transaction. The rows its statements read and write are the tables
  here; the statements themselves succeed, and the builder is an argument over a world \<open>'w\<close>.
\<close>

section \<open>Tables\<close>

record kb_row =
  kb_status :: string
  kb_consumed :: pyfloat

record doc_row =
  dr_content :: "string option"
  dr_type :: string
  dr_name :: string
  dr_status :: string
  dr_error :: "string option"
  dr_chunks :: int

record rag_tables =
  tb_kbs :: "(pyval, kb_row) dict"
  tb_docs :: "(pyval, doc_row) dict"
  tb_credits :: "(pyval, pyfloat) dict"

text \<open>\<open>UPDATE ... WHERE id = k\<close>: a missing row is left missing.\<close>

definition upd :: "'k \<Rightarrow> ('v \<Rightarrow> 'v) \<Rightarrow> ('k, 'v) dict \<Rightarrow> ('k, 'v) dict" where
  "upd k f d = (case dget d k of None \<Rightarrow> d | Some v \<Rightarrow> dset k (f v) d)"

definition set_doc :: "pyval \<Rightarrow> (doc_row \<Rightarrow> doc_row) \<Rightarrow> rag_tables \<Rightarrow> rag_tables" where
  "set_doc i f tb = tb\<lparr>tb_docs := upd i f (tb_docs tb)\<rparr>"

section \<open>The handler\<close>

text \<open>
  The builder: knowledge base, document, content, file type, file name and user to its events, the
  exception that ends it, and the world.
\<close>

type_synonym 'w builder =
  "pyval \<Rightarrow> pyval \<Rightarrow> string \<Rightarrow> pyval \<Rightarrow> pyval \<Rightarrow> pyval \<Rightarrow> 'w \<Rightarrow> build_event list \<times> string option \<times> 'w"

text \<open>The last completion counts the chunks, the last error is the message.\<close>

fun read_events :: "build_event list \<Rightarrow> int \<Rightarrow> string option \<Rightarrow> int \<times> string option" where
  "read_events [] n e = (n, e)"
| "read_events (Complete k c p # evs) n e = read_events evs k e"
| "read_events (BuildError m # evs) n e = read_events evs n (Some m)"
| "read_events (Progress s x # evs) n e = read_events evs n e"

definition mark_failed :: "pyval \<Rightarrow> string \<Rightarrow> rag_tables \<Rightarrow> rag_tables" where
  "mark_failed i e tb = set_doc i (\<lambda>r. r\<lparr>dr_status := ''error'', dr_error := Some e\<rparr>) tb"

definition build_one ::
  "'w builder \<Rightarrow> pyval \<Rightarrow> pyval \<Rightarrow> pydict \<Rightarrow> rag_tables \<Rightarrow> 'w \<Rightarrow> bool \<times> rag_tables \<times> 'w" where
  "build_one build kb user doc tb w =
     (let i = mget doc ''doc_id''
      in case dget (tb_docs tb) i of
           None \<Rightarrow> (False, mark_failed i ''no content'' tb, w)
         | Some r \<Rightarrow>
             (case dr_content r of
                None \<Rightarrow> (False, mark_failed i ''no content'' tb, w)
              | Some c \<Rightarrow>
                  (let tb1 = set_doc i (\<lambda>r. r\<lparr>dr_status := ''processing''\<rparr>) tb
                   in case build kb i c (py_or (mget doc ''file_type'') (py_or (PStr (dr_type r)) (PStr ''txt'')))
                          (py_or (mget doc ''filename'') (py_or (PStr (dr_name r)) i)) (py_or user es) w of
                        (evs, exn, w1) \<Rightarrow>
                          (case read_events evs 0 None of
                             (n, e) \<Rightarrow>
                               (case (case exn of Some x \<Rightarrow> Some x | None \<Rightarrow> e) of
                                  Some (m # ms) \<Rightarrow> (False, mark_failed i (m # ms) tb1, w1)
                                | _ \<Rightarrow> (True, set_doc i (\<lambda>r. r\<lparr>dr_status := ''completed'', dr_chunks := n\<rparr>) tb1, w1))))))"

fun build_all ::
  "'w builder \<Rightarrow> pyval \<Rightarrow> pyval \<Rightarrow> pyval list \<Rightarrow> bool \<Rightarrow> rag_tables \<Rightarrow> 'w \<Rightarrow> (string + bool) \<times> rag_tables \<times> 'w" where
  "build_all build kb user [] ok tb w = (Inr ok, tb, w)"
| "build_all build kb user (PDict doc # ds) ok tb w =
     (case build_one build kb user doc tb w of
        (b, tb1, w1) \<Rightarrow> build_all build kb user ds (ok \<and> b) tb1 w1)"
| "build_all build kb user (d # ds) ok tb w = (Inl ''attribute error'', tb, w)"

definition cost_of :: "pyval \<Rightarrow> pyfloat" where
  "cost_of v = (case v of PInt i \<Rightarrow> of_int i | PFloat x \<Rightarrow> x | _ \<Rightarrow> 0)"

text \<open>The closing transaction: an update of no row rolls back and raises.\<close>

definition settle_bill :: "pyval \<Rightarrow> pyval \<Rightarrow> pyfloat \<Rightarrow> bool \<Rightarrow> rag_tables \<Rightarrow> string option \<times> rag_tables" where
  "settle_bill kb user cost ok tb =
     (if \<not> ok then (None, tb\<lparr>tb_kbs := upd kb (\<lambda>r. r\<lparr>kb_status := ''error''\<rparr>) (tb_kbs tb)\<rparr>)
      else case dget (tb_credits tb) user of
             None \<Rightarrow> (Some ''insufficient credits'', tb)
           | Some c \<Rightarrow>
               (if c < cost then (Some ''insufficient credits'', tb)
                else (None, tb\<lparr>tb_credits := dset user (c - cost) (tb_credits tb),
                   tb_kbs := upd kb (\<lambda>r. r\<lparr>kb_status := ''active'', kb_consumed := kb_consumed r + cost\<rparr>) (tb_kbs tb)\<rparr>)))"

definition handle_rag_index ::
  "'w builder \<Rightarrow> pyval \<Rightarrow> rag_tables \<times> 'w \<Rightarrow> string option \<times> rag_tables \<times> 'w" where
  "handle_rag_index build payload tw =
     (case tw of (tb, w) \<Rightarrow>
       (case payload of
          PDict d \<Rightarrow>
            (let kb = mget d ''kb_id''; user = mget d ''user_id''; docs = py_or (mget d ''documents'') (PList [])
             in if \<not> truthy kb \<or> \<not> truthy docs then (Some ''payload incomplete'', tb, w)
                else case dget (tb_kbs tb) kb of
                       None \<Rightarrow> (Some ''knowledge base does not exist'', tb, w)
                     | Some r \<Rightarrow>
                         (if kb_status r = ''active'' then (None, tb, w)
                          else case py_iter docs of
                                 Inl e \<Rightarrow> (Some ''type error'', tb, w)
                               | Inr ds \<Rightarrow>
                                   (case build_all build kb user ds True tb w of
                                      (Inl e, tb1, w1) \<Rightarrow> (Some e, tb1, w1)
                                    | (Inr ok, tb1, w1) \<Rightarrow>
                                        (case settle_bill kb user (cost_of (dget_or d ''estimated_cost'' (PInt 0))) ok tb1 of
                                           (x, tb2) \<Rightarrow> (x, tb2, w1)))))
        | _ \<Rightarrow> (Some ''attribute error'', tb, w)))"

section \<open>Facts\<close>

lemma build_one_frame:
  "build_one build kb user doc tb w = (b, tb', w') \<Longrightarrow> tb_kbs tb' = tb_kbs tb \<and> tb_credits tb' = tb_credits tb"
  by (auto simp: build_one_def set_doc_def mark_failed_def Let_def split: option.splits prod.splits list.splits)

lemma build_all_frame:
  "build_all build kb user ds ok tb w = (r, tb', w') \<Longrightarrow> tb_kbs tb' = tb_kbs tb \<and> tb_credits tb' = tb_credits tb"
proof (induction build kb user ds ok tb w rule: build_all.induct)
  case (2 build kb user doc ds ok tb w)
  obtain b tb1 w1 where o: "build_one build kb user doc tb w = (b, tb1, w1)" by (cases "build_one build kb user doc tb w")
  show ?case using 2 o build_one_frame [OF o] by auto
qed auto

text \<open>
  What a run of the handler may do to the money: nothing, or it takes the cost once from a user who
  has it, books it on the base, and activates the base.
\<close>

definition charged :: "pyval \<Rightarrow> pyval \<Rightarrow> pyfloat \<Rightarrow> rag_tables \<Rightarrow> rag_tables \<Rightarrow> bool" where
  "charged kb user cost tb tb' \<longleftrightarrow>
     (\<exists>c r. dget (tb_credits tb) user = Some c \<and> cost \<le> c \<and> dget (tb_kbs tb) kb = Some r \<and> kb_status r \<noteq> ''active'' \<and>
        tb_credits tb' = dset user (c - cost) (tb_credits tb) \<and>
        tb_kbs tb' = dset kb (r\<lparr>kb_status := ''active'', kb_consumed := kb_consumed r + cost\<rparr>) (tb_kbs tb))"

definition consumed :: "rag_tables \<Rightarrow> pyval \<Rightarrow> pyfloat" where
  "consumed tb kb = (case dget (tb_kbs tb) kb of None \<Rightarrow> 0 | Some r \<Rightarrow> kb_consumed r)"

definition active :: "rag_tables \<Rightarrow> pyval \<Rightarrow> bool" where
  "active tb kb \<longleftrightarrow> (\<exists>r. dget (tb_kbs tb) kb = Some r \<and> kb_status r = ''active'')"

lemma handle_money:
  assumes "handle_rag_index build (PDict d) (tb, w) = (x, tb', w')"
  shows "(tb_credits tb' = tb_credits tb \<and> (\<forall>kb. consumed tb' kb = consumed tb kb \<and> (active tb' kb \<longrightarrow> active tb kb))) \<or>
    (x = None \<and> charged (mget d ''kb_id'') (mget d ''user_id'') (cost_of (dget_or d ''estimated_cost'' (PInt 0))) tb tb')"
proof -
  let ?kb = "mget d ''kb_id''" and ?user = "mget d ''user_id''" and ?cost = "cost_of (dget_or d ''estimated_cost'' (PInt 0))"
  let ?docs = "py_or (mget d ''documents'') (PList [])"
  show ?thesis
  proof (cases "truthy ?kb \<and> truthy ?docs \<and> (\<exists>r ds. dget (tb_kbs tb) ?kb = Some r \<and> kb_status r \<noteq> ''active'' \<and> py_iter ?docs = Inr ds)")
    case False
    then have "tb' = tb" using assms
      by (auto simp: handle_rag_index_def Let_def split: option.splits sum.splits if_splits)
    then show ?thesis by simp
  next
    case True
    then obtain r ds where r: "truthy ?kb" "truthy ?docs" "dget (tb_kbs tb) ?kb = Some r" "kb_status r \<noteq> ''active''"
      "py_iter ?docs = Inr ds" by blast
    obtain y tb1 w1 where b: "build_all build ?kb ?user ds True tb w = (y, tb1, w1)"
      by (cases "build_all build ?kb ?user ds True tb w")
    note frame = build_all_frame [OF b]
    show ?thesis
    proof (cases y)
      case (Inl e)
      then show ?thesis using assms r b frame
        by (simp add: handle_rag_index_def Let_def consumed_def active_def)
    next
      case (Inr ok)
      then have s: "settle_bill ?kb ?user ?cost ok tb1 = (x, tb')" using assms r b
        by (simp add: handle_rag_index_def Let_def split: prod.splits)
      show ?thesis
      proof (cases "ok \<and> (\<exists>c. dget (tb_credits tb) ?user = Some c \<and> ?cost \<le> c)")
        case True
        then obtain c where c: "dget (tb_credits tb) ?user = Some c" "?cost \<le> c" by blast
        then have "x = None \<and> charged ?kb ?user ?cost tb tb'" using s True r frame
          by (auto simp: settle_bill_def charged_def upd_def)
        then show ?thesis by blast
      next
        case False
        have "tb_credits tb' = tb_credits tb \<and> (tb_kbs tb' = tb_kbs tb \<or> tb_kbs tb' = dset ?kb (r\<lparr>kb_status := ''error''\<rparr>) (tb_kbs tb))"
          using s False r frame by (auto simp: settle_bill_def upd_def split: option.splits if_splits)
        then have "tb_credits tb' = tb_credits tb \<and> (\<forall>kb. consumed tb' kb = consumed tb kb \<and> (active tb' kb \<longrightarrow> active tb kb))"
          using r by (auto simp: consumed_def active_def split: if_splits)
        then show ?thesis by blast
      qed
    qed
  qed
qed

section \<open>Properties\<close>

text \<open>C25: One run of the task either leaves all credits and all bookings as they were and activates nothing, or
  ends without error, takes the cost from the credits of a user who has them, books the same amount on the
  base and activates it.\<close>

theorem index_task_money:
  "let r = handle_rag_index build (PDict d) (tb, w); tb' = fst (snd r)
   in (tb_credits tb' = tb_credits tb \<and> (\<forall>kb. consumed tb' kb = consumed tb kb \<and> (active tb' kb \<longrightarrow> active tb kb))) \<or>
      (fst r = None \<and> charged (mget d ''kb_id'') (mget d ''user_id'') (cost_of (dget_or d ''estimated_cost'' (PInt 0))) tb tb')"
  using handle_money [of build d tb w "fst (handle_rag_index build (PDict d) (tb, w))"
      "fst (snd (handle_rag_index build (PDict d) (tb, w)))" "snd (snd (handle_rag_index build (PDict d) (tb, w)))"]
  by (simp add: Let_def)




text \<open>A build whose error has an empty message, as that of a timeout, counts as a success: the document is
  marked completed with no chunks, the base active, and the user pays.\<close>

theorem silent_failure_is_charged:
  assumes "dget (tb_kbs tb) kb = Some r" and "kb_status r \<noteq> ''active''" and "truthy kb"
    and "dget (tb_docs tb) i = Some row" and "dr_content row = Some c"
    and "dget (tb_credits tb) user = Some n" and "of_int cost \<le> n"
    and "\<And>ty nm u w. build kb i c ty nm u w = ([Progress ''parsing'' (1 / 10), BuildError []], None, w)"
  shows "let r = handle_rag_index build (PDict [(''kb_id'', kb), (''user_id'', user), (''documents'', PList [PDict [(''doc_id'', i)]]),
        (''estimated_cost'', PInt cost)]) (tb, w); tb' = fst (snd r)
    in fst r = None \<and> charged kb user (of_int cost) tb tb' \<and> active tb' kb \<and>
      (\<exists>row'. dget (tb_docs tb') i = Some row' \<and> dr_status row' = ''completed'' \<and> dr_chunks row' = 0)"
  using assms
  by (simp add: handle_rag_index_def dget_or_def py_or_def build_one_def settle_bill_def cost_of_def set_doc_def upd_def
      charged_def active_def Let_def)

definition example_tables :: rag_tables where
  "example_tables = \<lparr>tb_kbs = [(PStr ''kb'', \<lparr>kb_status = ''pending'', kb_consumed = 0\<rparr>)],
     tb_docs = [(PStr ''d'', \<lparr>dr_content = Some ''text'', dr_type = ''txt'', dr_name = ''n'', dr_status = ''new'',
       dr_error = None, dr_chunks = 0\<rparr>)], tb_credits = [(PStr ''u'', 10)]\<rparr>"


theorem index_task_money_witness:
  "charged (PStr ''kb'') (PStr ''u'') 4 example_tables
     (fst (snd (handle_rag_index (\<lambda>kb i c ty nm u w. ([Progress ''parsing'' (1 / 10), BuildError []], None, w))
       (PDict [(''kb_id'', PStr ''kb''), (''user_id'', PStr ''u''), (''documents'', PList [PDict [(''doc_id'', PStr ''d'')]]),
          (''estimated_cost'', PInt 4)]) (example_tables, ()))))"
proof -
  let ?d = "[(''kb_id'', PStr ''kb''), (''user_id'', PStr ''u''), (''documents'', PList [PDict [(''doc_id'', PStr ''d'')]]),
    (''estimated_cost'', PInt 4)]"
  let ?b = "\<lambda>kb i c ty nm u (w :: unit). ([Progress ''parsing'' (1 / 10), BuildError []], None :: string option, w)"
  have "tb_credits (fst (snd (handle_rag_index ?b (PDict ?d) (example_tables, ())))) \<noteq> tb_credits example_tables"
    by (simp add: example_tables_def handle_rag_index_def dget_or_def py_or_def build_one_def settle_bill_def cost_of_def
        set_doc_def upd_def Let_def)
  then show ?thesis using index_task_money [of ?b ?d example_tables "()"]
    by (simp add: Let_def cost_of_def dget_or_def)
qed


theorem silent_failure_is_charged_witness:
  "fst (handle_rag_index (\<lambda>kb i c ty nm u w. ([Progress ''parsing'' (1 / 10), BuildError []], None, w))
     (PDict [(''kb_id'', PStr ''kb''), (''user_id'', PStr ''u''), (''documents'', PList [PDict [(''doc_id'', PStr ''d'')]]),
        (''estimated_cost'', PInt 4)]) (example_tables, ())) = None"
proof -
  let ?b = "\<lambda>kb i c ty nm u (w :: unit). ([Progress ''parsing'' (1 / 10), BuildError []], None :: string option, w)"
  have "dget (tb_kbs example_tables) (PStr ''kb'') = Some \<lparr>kb_status = ''pending'', kb_consumed = 0\<rparr>"
    "dget (tb_docs example_tables) (PStr ''d'') = Some \<lparr>dr_content = Some ''text'', dr_type = ''txt'', dr_name = ''n'',
       dr_status = ''new'', dr_error = None, dr_chunks = 0\<rparr>"
    "dget (tb_credits example_tables) (PStr ''u'') = Some 10"
    by (simp_all add: example_tables_def)
  from silent_failure_is_charged [OF this(1) _ _ this(2) _ this(3), where build = ?b and c = "''text''" and cost = 4 and w = "()"]
  show ?thesis by (simp add: Let_def)
qed

end
