(* ===== verification/Effects.thy ===== *)
theory Effects
  imports PyVal
begin

text \<open>
  Commands on outside state that may raise: a command maps a state to an exception or a value and the
  new state. The exceptions are those of the language and those that come from outside, as text.
\<close>

datatype exn = Py py_error | Ext string

type_synonym ('s, 'a) io = "'s \<Rightarrow> (exn + 'a) \<times> 's"

definition io_return :: "'a \<Rightarrow> ('s, 'a) io" where
  "io_return x s = (Inr x, s)"

definition io_raise :: "exn \<Rightarrow> ('s, 'a) io" where
  "io_raise e s = (Inl e, s)"

definition io_bind :: "('s, 'a) io \<Rightarrow> ('a \<Rightarrow> ('s, 'b) io) \<Rightarrow> ('s, 'b) io" where
  "io_bind m f s = (case m s of (Inl e, s1) \<Rightarrow> (Inl e, s1) | (Inr x, s1) \<Rightarrow> f x s1)"

text \<open>\<open>try: m except Exception as e: h e\<close>.\<close>

definition io_try :: "('s, 'a) io \<Rightarrow> (exn \<Rightarrow> ('s, 'a) io) \<Rightarrow> ('s, 'a) io" where
  "io_try m h s = (case m s of (Inl e, s1) \<Rightarrow> h e s1 | (Inr x, s1) \<Rightarrow> (Inr x, s1))"

definition io_res :: "'a res \<Rightarrow> ('s, 'a) io" where
  "io_res r = (case r of Inl e \<Rightarrow> io_raise (Py e) | Inr x \<Rightarrow> io_return x)"

definition io_get :: "('s \<Rightarrow> 'a) \<Rightarrow> ('s, 'a) io" where
  "io_get f s = (Inr (f s), s)"

definition io_modify :: "('s \<Rightarrow> 's) \<Rightarrow> ('s, unit) io" where
  "io_modify f s = (Inr (), f s)"

text \<open>A command on a part of the state.\<close>

definition io_on :: "('s \<Rightarrow> 'w) \<Rightarrow> ('w \<Rightarrow> 's \<Rightarrow> 's) \<Rightarrow> ('w, 'a) io \<Rightarrow> ('s, 'a) io" where
  "io_on sel put m s = (case m (sel s) of (r, w) \<Rightarrow> (r, put w s))"

text \<open>A loop over a list, one command after the other.\<close>

fun io_map :: "('a \<Rightarrow> ('s, 'b) io) \<Rightarrow> 'a list \<Rightarrow> ('s, 'b list) io" where
  "io_map f [] = io_return []"
| "io_map f (x # xs) = io_bind (f x) (\<lambda>y. io_bind (io_map f xs) (\<lambda>ys. io_return (y # ys)))"

named_theorems io

lemma io_return_run [io, simp]: "io_return x s = (Inr x, s)"
  by (simp add: io_return_def)

lemma io_raise_run [io, simp]: "io_raise e s = (Inl e, s)"
  by (simp add: io_raise_def)

lemma io_get_run [io, simp]: "io_get f s = (Inr (f s), s)"
  by (simp add: io_get_def)

lemma io_modify_run [io, simp]: "io_modify f s = (Inr (), f s)"
  by (simp add: io_modify_def)

lemma io_res_run [io, simp]: "io_res (Inl e) s = (Inl (Py e), s)" "io_res (Inr x) s = (Inr x, s)"
  by (simp_all add: io_res_def)

lemma io_bind_run [io]: "io_bind m f s = (case fst (m s) of Inl e \<Rightarrow> (Inl e, snd (m s)) | Inr x \<Rightarrow> f x (snd (m s)))"
  by (simp add: io_bind_def split: prod.split sum.split)

lemma io_bind_get [io, simp]: "io_bind (io_get g) f s = f (g s) s"
  by (simp add: io_bind_def)

lemma io_bind_return [io, simp]: "io_bind (io_return x) f s = f x s"
  by (simp add: io_bind_def)

lemma io_bind_Inr: "m s = (Inr x, s1) \<Longrightarrow> io_bind m f s = f x s1"
  by (simp add: io_bind_def)

lemma io_bind_Inl: "m s = (Inl e, s1) \<Longrightarrow> io_bind m f s = (Inl e, s1)"
  by (simp add: io_bind_def)

lemma io_try_run [io]: "io_try m h s = (case fst (m s) of Inl e \<Rightarrow> h e (snd (m s)) | Inr x \<Rightarrow> (Inr x, snd (m s)))"
  by (simp add: io_try_def split: prod.split sum.split)

lemma io_on_run [io]: "io_on sel put m s = (fst (m (sel s)), put (snd (m (sel s))) s)"
  by (simp add: io_on_def split: prod.split)

text \<open>What a command may change.\<close>

definition keeps :: "('s \<Rightarrow> 'b) \<Rightarrow> ('s, 'a) io \<Rightarrow> bool" where
  "keeps f m \<longleftrightarrow> (\<forall>s. f (snd (m s)) = f s)"

lemma keeps_return [simp, intro]: "keeps f (io_return x)"
  by (simp add: keeps_def)

lemma keeps_raise [simp, intro]: "keeps f (io_raise e)"
  by (simp add: keeps_def)

lemma keeps_get [simp, intro]: "keeps f (io_get g)"
  by (simp add: keeps_def)

lemma keeps_res [simp, intro]: "keeps f (io_res r)"
  by (cases r) (simp_all add: keeps_def)

lemma keeps_bind [intro]: "keeps f m \<Longrightarrow> (\<And>x. keeps f (g x)) \<Longrightarrow> keeps f (io_bind m g)"
  by (simp add: keeps_def io_bind_run split: sum.split)

lemma keeps_try [intro]: "keeps f m \<Longrightarrow> (\<And>e. keeps f (h e)) \<Longrightarrow> keeps f (io_try m h)"
  by (simp add: keeps_def io_try_run split: sum.split)

lemma keeps_map [intro]: "(\<And>x. keeps f (g x)) \<Longrightarrow> keeps f (io_map g xs)"
  by (induction xs) auto

text \<open>What a command preserves.\<close>

definition preserves :: "('s \<Rightarrow> bool) \<Rightarrow> ('s, 'a) io \<Rightarrow> bool" where
  "preserves P m \<longleftrightarrow> (\<forall>s. P s \<longrightarrow> P (snd (m s)))"

lemma keeps_preserves: "keeps f m \<Longrightarrow> preserves (\<lambda>s. P (f s)) m"
  by (simp add: keeps_def preserves_def)

lemma preserves_bind [intro]: "preserves P m \<Longrightarrow> (\<And>x. preserves P (g x)) \<Longrightarrow> preserves P (io_bind m g)"
  by (simp add: preserves_def io_bind_run split: sum.split)

end
