(* ===== verification/Conflicts.thy ===== *)
theory Conflicts
  imports Effects "HOL-Library.Countable" "HOL-Library.List_Lexorder" "HOL-Library.Char_ord"
begin

text \<open>
  The types of the memory layers, \<^verbatim>\<open>app/memory/layers.py\<close>, and the conflict manager,
  \<^verbatim>\<open>app/memory/conflict_manager.py\<close>: a write to an item the user has confirmed is held back as a
  pending conflict in Redis until the user decides. Redis commands, the clock, \<^verbatim>\<open>hash\<close> and JSON are
  arguments.
\<close>

section \<open>Types of the layers\<close>

datatype slot_type = IDENTITY | PREFERENCE | DECISION | FACT

fun slot_value :: "slot_type \<Rightarrow> string" where
  "slot_value IDENTITY = ''identity''"
| "slot_value PREFERENCE = ''preference''"
| "slot_value DECISION = ''decision''"
| "slot_value FACT = ''fact''"

datatype source_type = USER_CONFIRMED | DERIVED | TOOL_WRITTEN

fun source_value :: "source_type \<Rightarrow> string" where
  "source_value USER_CONFIRMED = ''user_confirmed''"
| "source_value DERIVED = ''derived''"
| "source_value TOOL_WRITTEN = ''tool_written''"

text \<open>\<open>SlotType(s)\<close> and \<open>SourceType(s)\<close>.\<close>

definition slot_of :: "string \<Rightarrow> slot_type res" where
  "slot_of s = (case find (\<lambda>x. slot_value x = s) [IDENTITY, PREFERENCE, DECISION, FACT] of
     None \<Rightarrow> Inl (ValueError (quoted s @ '' is not a valid SlotType'')) | Some x \<Rightarrow> Inr x)"

definition source_of :: "string \<Rightarrow> source_type res" where
  "source_of s = (case find (\<lambda>x. source_value x = s) [USER_CONFIRMED, DERIVED, TOOL_WRITTEN] of
     None \<Rightarrow> Inl (ValueError (quoted s @ '' is not a valid SourceType'')) | Some x \<Rightarrow> Inr x)"

text \<open>
  The enumerations are strings: an item read back from the cache holds the plain string instead of the
  member. Both compare equal, but only a member has an attribute \<open>value\<close>.
\<close>

datatype 'e member = Member 'e | Plain string

fun loose :: "('e \<Rightarrow> string) \<Rightarrow> 'e member \<Rightarrow> string" where
  "loose f (Member x) = f x" | "loose f (Plain s) = s"

fun dot_value :: "('e \<Rightarrow> string) \<Rightarrow> 'e member \<Rightarrow> string res" where
  "dot_value f (Member x) = Inr (f x)" | "dot_value f (Plain s) = Inl AttributeError"

record profile_item =
  pi_slot :: "slot_type member"
  pi_key :: string
  pi_value :: pyval
  pi_confidence :: int
  pi_source :: "source_type member"
  pi_version :: int
  pi_confirmed :: "pyfloat option"
  pi_referenced :: "pyfloat option"
  pi_created :: pyfloat
  pi_updated :: pyfloat
  pi_id :: "string option"

record memory_conflict =
  cf_id :: string
  cf_slot :: "slot_type member"
  cf_key :: string
  cf_old :: pyval
  cf_new :: pyval
  cf_source :: "source_type member"
  cf_tenant :: string
  cf_user :: string
  cf_created :: pyfloat

section \<open>Redis\<close>

record 'w mem_env =
  me_get :: "string \<Rightarrow> ('w, string option) io"
  me_setex :: "string \<Rightarrow> int \<Rightarrow> string \<Rightarrow> ('w, unit) io"
  me_delete :: "string \<Rightarrow> ('w, unit) io"
  me_incr :: "string \<Rightarrow> ('w, int) io"
  me_expire :: "string \<Rightarrow> int \<Rightarrow> ('w, unit) io"
  me_sadd :: "string \<Rightarrow> string \<Rightarrow> ('w, unit) io"
  me_srem :: "string \<Rightarrow> string \<Rightarrow> ('w, unit) io"
  me_smembers :: "string \<Rightarrow> ('w, string list) io"
  me_clock :: "'w \<Rightarrow> pyfloat"
  me_hash :: "string \<Rightarrow> int"
  me_dumps :: "pyval \<Rightarrow> string"
  me_loads :: "string \<Rightarrow> string + pyval"

section \<open>The conflict manager\<close>

definition pending_ttl :: int where
  "pending_ttl = 604800"

definition auto_write_threshold :: int where
  "auto_write_threshold = 2"

definition pending_key :: "string \<Rightarrow> string" where
  "pending_key c = ''memory:conflict:pending:'' @ c"

definition pending_list_key :: "string \<Rightarrow> string \<Rightarrow> string" where
  "pending_list_key tenant user = ''memory:conflict:pending_list:'' @ tenant @ '':'' @ user"

definition derived_count_key :: "string \<Rightarrow> string \<Rightarrow> string \<Rightarrow> string \<Rightarrow> string" where
  "derived_count_key tenant user slot key =
     ''memory:conflict:derived_count:'' @ tenant @ '':'' @ user @ '':'' @ slot @ '':'' @ key"

definition conflict_id_of :: "'w mem_env \<Rightarrow> pyfloat \<Rightarrow> string \<Rightarrow> string \<Rightarrow> string \<Rightarrow> string \<Rightarrow> string" where
  "conflict_id_of env now tenant user slot key =
     ''conf_'' @ str_int (py_trunc now) @ ''_'' @
     str_int (me_hash env (tenant @ '':'' @ user @ '':'' @ slot @ '':'' @ key) mod 10000)"

definition create_conflict_event ::
  "'w mem_env \<Rightarrow> string \<Rightarrow> string \<Rightarrow> slot_type member \<Rightarrow> string \<Rightarrow> pyval \<Rightarrow> pyval \<Rightarrow> source_type member \<Rightarrow>
   ('w, memory_conflict) io" where
  "create_conflict_event env tenant user slot key old new src =
     io_bind (io_get (me_clock env)) (\<lambda>now.
     io_bind (io_res (dot_value slot_value slot)) (\<lambda>s.
       io_return \<lparr>cf_id = conflict_id_of env now tenant user s key, cf_slot = slot, cf_key = key, cf_old = old, cf_new = new,
         cf_source = src, cf_tenant = tenant, cf_user = user, cf_created = now\<rparr>))"

definition conflict_data :: "memory_conflict \<Rightarrow> string \<Rightarrow> string \<Rightarrow> pydict" where
  "conflict_data c slot src =
     [(''conflict_id'', PStr (cf_id c)), (''slot'', PStr slot), (''item_key'', PStr (cf_key c)),
      (''old_value'', cf_old c), (''new_value'', cf_new c), (''source'', PStr src), (''tenant_id'', PStr (cf_tenant c)),
      (''user_id'', PStr (cf_user c)), (''created_at'', PFloat (cf_created c))]"

definition store_pending :: "'w mem_env \<Rightarrow> memory_conflict \<Rightarrow> ('w, unit) io" where
  "store_pending env c =
     io_bind (io_res (dot_value slot_value (cf_slot c))) (\<lambda>slot.
     io_bind (io_res (dot_value source_value (cf_source c))) (\<lambda>src.
     io_bind (me_setex env (pending_key (cf_id c)) pending_ttl (me_dumps env (PDict (conflict_data c slot src)))) (\<lambda>_.
     io_bind (me_sadd env (pending_list_key (cf_tenant c) (cf_user c)) (cf_id c)) (\<lambda>_.
       me_expire env (pending_list_key (cf_tenant c) (cf_user c)) pending_ttl))))"

definition increment_derived_count :: "'w mem_env \<Rightarrow> string \<Rightarrow> string \<Rightarrow> string \<Rightarrow> string \<Rightarrow> ('w, int) io" where
  "increment_derived_count env tenant user slot key =
     io_bind (me_incr env (derived_count_key tenant user slot key)) (\<lambda>n.
     io_bind (me_expire env (derived_count_key tenant user slot key) pending_ttl) (\<lambda>_. io_return n))"

text \<open>Whether a derived value has been seen often enough to be written.\<close>

definition auto_write ::
  "'w mem_env \<Rightarrow> string \<Rightarrow> string \<Rightarrow> slot_type member \<Rightarrow> string \<Rightarrow> source_type member \<Rightarrow> ('w, bool) io" where
  "auto_write env tenant user slot key src =
     (if loose source_value src = ''derived''
      then io_bind (io_res (dot_value slot_value slot)) (\<lambda>s.
           io_bind (increment_derived_count env tenant user s key) (\<lambda>n. io_return (n \<ge> auto_write_threshold)))
      else io_return False)"

definition detect_and_handle_conflict ::
  "'w mem_env \<Rightarrow> string \<Rightarrow> string \<Rightarrow> slot_type member \<Rightarrow> string \<Rightarrow> pyval \<Rightarrow> source_type member \<Rightarrow>
   profile_item option \<Rightarrow> ('w, bool \<times> memory_conflict option) io" where
  "detect_and_handle_conflict env tenant user slot key new src existing =
     (case existing of
        None \<Rightarrow> io_return (False, None)
      | Some it \<Rightarrow>
          (if loose source_value (pi_source it) = ''user_confirmed'' \<and> loose source_value src \<noteq> ''user_confirmed''
           then io_bind (auto_write env tenant user slot key src) (\<lambda>auto.
                  if auto then io_return (False, None)
                  else io_bind (create_conflict_event env tenant user slot key (pi_value it) new src) (\<lambda>c.
                       io_bind (store_pending env c) (\<lambda>_. io_return (True, Some c))))
           else io_return (False, None)))"

text \<open>\<open>item[k]\<close> on what JSON gave.\<close>

definition py_item :: "pyval \<Rightarrow> string \<Rightarrow> pyval res" where
  "py_item v k = (case v of PDict d \<Rightarrow> (case dget d k of None \<Rightarrow> Inl (KeyError k) | Some x \<Rightarrow> Inr x) | _ \<Rightarrow> Inl TypeError)"

text \<open>The record as this module wrote it; texts are texts.\<close>

definition conflict_of :: "pyval \<Rightarrow> memory_conflict res" where
  "conflict_of v =
     bind_res (py_item v ''conflict_id'') (\<lambda>i. bind_res (bind_res (py_item v ''slot'') (\<lambda>x. slot_of (str_of x))) (\<lambda>slot.
     bind_res (py_item v ''item_key'') (\<lambda>k. bind_res (py_item v ''old_value'') (\<lambda>old. bind_res (py_item v ''new_value'') (\<lambda>new.
     bind_res (bind_res (py_item v ''source'') (\<lambda>x. source_of (str_of x))) (\<lambda>src.
     bind_res (py_item v ''tenant_id'') (\<lambda>t. bind_res (py_item v ''user_id'') (\<lambda>u. bind_res (py_item v ''created_at'') (\<lambda>c.
       Inr \<lparr>cf_id = str_of i, cf_slot = Member slot, cf_key = str_of k, cf_old = old, cf_new = new, cf_source = Member src,
         cf_tenant = str_of t, cf_user = str_of u,
         cf_created = (case c of PFloat x \<Rightarrow> x | PInt n \<Rightarrow> of_int n | _ \<Rightarrow> 0)\<rparr>)))))))))"

text \<open>Only malformed JSON and missing keys are caught.\<close>

definition parse_conflict :: "'w mem_env \<Rightarrow> string \<Rightarrow> ('w, memory_conflict option) io" where
  "parse_conflict env data =
     (case me_loads env data of
        Inl e \<Rightarrow> io_return None
      | Inr v \<Rightarrow>
          (case conflict_of v of
             Inl (KeyError k) \<Rightarrow> io_return None
           | Inl e \<Rightarrow> io_raise (Py e)
           | Inr c \<Rightarrow> io_return (Some c)))"

definition get_conflict :: "'w mem_env \<Rightarrow> string \<Rightarrow> ('w, memory_conflict option) io" where
  "get_conflict env cid =
     io_bind (me_get env (pending_key cid)) (\<lambda>data.
       case data of None \<Rightarrow> io_return None | Some s \<Rightarrow> if s = [] then io_return None else parse_conflict env s)"

definition get_pending_conflicts :: "'w mem_env \<Rightarrow> string \<Rightarrow> string \<Rightarrow> ('w, memory_conflict list) io" where
  "get_pending_conflicts env tenant user =
     io_bind (me_smembers env (pending_list_key tenant user)) (\<lambda>ids.
     io_bind (io_map (get_conflict env) ids) (\<lambda>cs. io_return (List.map_filter id cs)))"

text \<open>Removes a record: the key and the entry in the list of its owner.\<close>

definition drop_pending :: "'w mem_env \<Rightarrow> string \<Rightarrow> pyval \<Rightarrow> ('w, unit) io" where
  "drop_pending env cid v =
     io_bind (me_delete env (pending_key cid)) (\<lambda>_.
     io_bind (io_res (py_item v ''tenant_id'')) (\<lambda>t. io_bind (io_res (py_item v ''user_id'')) (\<lambda>u.
       me_srem env (pending_list_key (str_of t) (str_of u)) cid)))"

definition err_dict :: "string \<Rightarrow> pydict" where
  "err_dict s = [(''error'', PStr s)]"

text \<open>The value a decision leads to, or the answer that refuses it.\<close>

definition final_value :: "pyval \<Rightarrow> string \<Rightarrow> pyval \<Rightarrow> (pydict + pyval) res" where
  "final_value v resolution manual =
     (if resolution = ''keep_old'' then bind_res (py_item v ''old_value'') (\<lambda>x. Inr (Inr x))
      else if resolution = ''use_new'' then bind_res (py_item v ''new_value'') (\<lambda>x. Inr (Inr x))
      else if resolution = ''manual'' then
        (if manual = PNone then Inr (Inl (err_dict ''manual_value is required for manual resolution'')) else Inr (Inr manual))
      else Inr (Inl (err_dict (''Unknown resolution: '' @ resolution))))"

definition cm_resolve_conflict ::
  "'w mem_env \<Rightarrow> string \<Rightarrow> string \<Rightarrow> pyval \<Rightarrow> ('w, bool \<times> pydict option) io" where
  "cm_resolve_conflict env cid resolution manual =
     io_bind (me_get env (pending_key cid)) (\<lambda>data.
       case data of
         None \<Rightarrow> io_return (False, None)
       | Some s \<Rightarrow>
           (if s = [] then io_return (False, None)
            else case me_loads env s of
                   Inl e \<Rightarrow> io_return (False, None)
                 | Inr v \<Rightarrow>
                     io_bind (io_res (final_value v resolution manual)) (\<lambda>r.
                       case r of
                         Inl d \<Rightarrow> io_return (False, Some d)
                       | Inr x \<Rightarrow>
                           io_bind (drop_pending env cid v) (\<lambda>_.
                           io_bind (io_res (py_item v ''slot'')) (\<lambda>slot. io_bind (io_res (py_item v ''item_key'')) (\<lambda>k.
                             io_return (True, Some [(''conflict_id'', PStr cid), (''final_value'', x),
                               (''resolution'', PStr resolution), (''slot'', slot), (''item_key'', k)])))))))"

definition cm_delete_conflict :: "'w mem_env \<Rightarrow> string \<Rightarrow> ('w, bool) io" where
  "cm_delete_conflict env cid =
     io_bind (me_get env (pending_key cid)) (\<lambda>data.
       case data of
         None \<Rightarrow> io_return False
       | Some s \<Rightarrow>
           (if s = [] then io_return False
            else case me_loads env s of
                   Inl e \<Rightarrow> io_return False
                 | Inr v \<Rightarrow> io_bind (drop_pending env cid v) (\<lambda>_. io_return True)))"

section \<open>What Redis and JSON do\<close>

text \<open>
  The documented effect of the commands on the keys, \<open>view\<close>: texts, counters and sets; no key expires
  in between and no command fails. A text that \<^verbatim>\<open>json.dumps\<close> made is read back by \<^verbatim>\<open>json.loads\<close>.
\<close>

datatype redis_val = RText string | RCount int | RSet "string set"

definition members :: "(string \<Rightarrow> redis_val option) \<Rightarrow> string \<Rightarrow> string set" where
  "members f k = (case f k of Some (RSet X) \<Rightarrow> X | _ \<Rightarrow> {})"

definition count_of :: "(string \<Rightarrow> redis_val option) \<Rightarrow> string \<Rightarrow> int" where
  "count_of f k = (case f k of Some (RCount n) \<Rightarrow> n | _ \<Rightarrow> 0)"

definition counter :: "(string \<Rightarrow> redis_val option) \<Rightarrow> string \<Rightarrow> bool" where
  "counter f k \<longleftrightarrow> f k = None \<or> (\<exists>n. f k = Some (RCount n))"

definition redis_laws :: "('w, 'm) mem_env_scheme \<Rightarrow> ('w \<Rightarrow> string \<Rightarrow> redis_val option) \<Rightarrow> bool" where
  "redis_laws env view \<longleftrightarrow>
     (\<forall>k w. view w k = None \<longrightarrow> me_get env k w = (Inr None, w)) \<and>
     (\<forall>k w s. view w k = Some (RText s) \<longrightarrow> me_get env k w = (Inr (Some s), w)) \<and>
     (\<forall>k t v w. \<exists>w'. me_setex env k t v w = (Inr (), w') \<and> view w' = (view w)(k \<mapsto> RText v)) \<and>
     (\<forall>k w. \<exists>w'. me_delete env k w = (Inr (), w') \<and> view w' = (view w)(k := None)) \<and>
     (\<forall>k w. counter (view w) k \<longrightarrow> (\<exists>w'. me_incr env k w = (Inr (count_of (view w) k + 1), w') \<and>
        view w' = (view w)(k \<mapsto> RCount (count_of (view w) k + 1)))) \<and>
     (\<forall>k t w. \<exists>w'. me_expire env k t w = (Inr (), w') \<and> view w' = view w) \<and>
     (\<forall>k x w. \<exists>w'. me_sadd env k x w = (Inr (), w') \<and> view w' = (view w)(k \<mapsto> RSet (insert x (members (view w) k)))) \<and>
     (\<forall>k x w. \<exists>w'. me_srem env k x w = (Inr (), w') \<and> view w' = (view w)(k \<mapsto> RSet (members (view w) k - {x}))) \<and>
     (\<forall>k w. finite (members (view w) k) \<longrightarrow> (\<exists>xs. me_smembers env k w = (Inr xs, w) \<and> set xs = members (view w) k))"

definition json_laws :: "('w, 'm) mem_env_scheme \<Rightarrow> bool" where
  "json_laws env \<longleftrightarrow> (\<forall>v. me_dumps env v \<noteq> [] \<and> me_loads env (me_dumps env v) = Inr v)"

lemma redis_get:
  assumes "redis_laws env view"
  shows "view w k = None \<Longrightarrow> me_get env k w = (Inr None, w)"
    and "view w k = Some (RText s) \<Longrightarrow> me_get env k w = (Inr (Some s), w)"
  using assms by (simp_all add: redis_laws_def)

lemma redis_put:
  assumes "redis_laws env view"
  obtains w' where "me_setex env k t v w = (Inr (), w')" "view w' = (view w)(k \<mapsto> RText v)"
  using assms unfolding redis_laws_def by metis

lemma redis_del:
  assumes "redis_laws env view"
  obtains w' where "me_delete env k w = (Inr (), w')" "view w' = (view w)(k := None)"
  using assms unfolding redis_laws_def by metis

lemma redis_incr:
  assumes "redis_laws env view" and "counter (view w) k"
  obtains w' where "me_incr env k w = (Inr (count_of (view w) k + 1), w')"
    "view w' = (view w)(k \<mapsto> RCount (count_of (view w) k + 1))"
  using assms unfolding redis_laws_def by metis

lemma redis_expire:
  assumes "redis_laws env view"
  obtains w' where "me_expire env k t w = (Inr (), w')" "view w' = view w"
  using assms unfolding redis_laws_def by metis

lemma redis_sadd:
  assumes "redis_laws env view"
  obtains w' where "me_sadd env k x w = (Inr (), w')" "view w' = (view w)(k \<mapsto> RSet (insert x (members (view w) k)))"
  using assms unfolding redis_laws_def by metis

lemma redis_srem:
  assumes "redis_laws env view"
  obtains w' where "me_srem env k x w = (Inr (), w')" "view w' = (view w)(k \<mapsto> RSet (members (view w) k - {x}))"
  using assms unfolding redis_laws_def by metis

lemma redis_members:
  assumes "redis_laws env view" and "finite (members (view w) k)"
  obtains xs where "me_smembers env k w = (Inr xs, w)" "set xs = members (view w) k"
  using assms unfolding redis_laws_def by metis

text \<open>An instance: the keys as a function, JSON as a numbering of the values.\<close>

instance pyval :: countable by countable_datatype

type_synonym redis_map = "string \<Rightarrow> redis_val option"

definition map_redis :: "redis_map mem_env" where
  "map_redis = \<lparr>me_get = (\<lambda>k w. (Inr (case w k of Some (RText s) \<Rightarrow> Some s | _ \<Rightarrow> None), w)),
     me_setex = (\<lambda>k t v w. (Inr (), w(k \<mapsto> RText v))), me_delete = (\<lambda>k w. (Inr (), w(k := None))),
     me_incr = (\<lambda>k w. (Inr (count_of w k + 1), w(k \<mapsto> RCount (count_of w k + 1)))),
     me_expire = (\<lambda>k t w. (Inr (), w)), me_sadd = (\<lambda>k x w. (Inr (), w(k \<mapsto> RSet (insert x (members w k))))),
     me_srem = (\<lambda>k x w. (Inr (), w(k \<mapsto> RSet (members w k - {x})))),
     me_smembers = (\<lambda>k w. (Inr (sorted_list_of_set (members w k)), w)),
     me_clock = (\<lambda>w. 100), me_hash = (\<lambda>s. int (length s)), me_dumps = (\<lambda>v. replicate (Suc (to_nat v)) (CHR ''x'')),
     me_loads = (\<lambda>s. Inr (from_nat (length s - 1)))\<rparr>"

lemma conflict_of_data:
  assumes "slot_value sl = slot" and "source_value so = src"
    and "cf_slot c = Member sl" and "cf_source c = Member so"
  shows "conflict_of (PDict (conflict_data c slot src)) = Inr c"
proof -
  have "slot_of slot = Inr sl" using assms(1) by (cases sl) (auto simp: slot_of_def)
  moreover have "source_of src = Inr so" using assms(2) by (cases so) (auto simp: source_of_def)
  ultimately show ?thesis using assms(3,4) by (simp add: conflict_of_def py_item_def conflict_data_def)
qed

definition pending_after :: "('w \<Rightarrow> string \<Rightarrow> redis_val option) \<Rightarrow> 'w mem_env \<Rightarrow> memory_conflict \<Rightarrow> string \<Rightarrow> string \<Rightarrow> 'w \<Rightarrow> string \<Rightarrow> redis_val option" where
  "pending_after view env c slot src w =
     (let f = (view w)(pending_key (cf_id c) \<mapsto> RText (me_dumps env (PDict (conflict_data c slot src))));
          l = pending_list_key (cf_tenant c) (cf_user c)
      in f(l \<mapsto> RSet (insert (cf_id c) (members f l))))"

lemma store_pending_run:
  assumes "redis_laws env view" and "cf_slot c = Member sl" and "cf_source c = Member so"
  obtains w' where "store_pending env c w = (Inr (), w')"
    "view w' = pending_after view env c (slot_value sl) (source_value so) w"
proof -
  obtain w1 where 1: "me_setex env (pending_key (cf_id c)) pending_ttl
      (me_dumps env (PDict (conflict_data c (slot_value sl) (source_value so)))) w = (Inr (), w1)"
    "view w1 = (view w)(pending_key (cf_id c) \<mapsto> RText (me_dumps env (PDict (conflict_data c (slot_value sl) (source_value so)))))"
    by (rule redis_put [OF assms(1)])
  obtain w2 where 2: "me_sadd env (pending_list_key (cf_tenant c) (cf_user c)) (cf_id c) w1 = (Inr (), w2)"
    "view w2 = (view w1)(pending_list_key (cf_tenant c) (cf_user c) \<mapsto>
       RSet (insert (cf_id c) (members (view w1) (pending_list_key (cf_tenant c) (cf_user c)))))"
    by (rule redis_sadd [OF assms(1)])
  obtain w3 where 3: "me_expire env (pending_list_key (cf_tenant c) (cf_user c)) pending_ttl w2 = (Inr (), w3)"
    "view w3 = view w2" by (rule redis_expire [OF assms(1)])
  show ?thesis
    by (rule that [of w3]) (simp_all add: store_pending_def io_bind_run assms(2,3) 1 2 3 pending_after_def Let_def)
qed

text \<open>The two kinds of keys never meet.\<close>

lemma key_kinds [simp]:
  "pending_key c \<noteq> pending_list_key t u" "pending_list_key t u \<noteq> pending_key c"
  "pending_key c \<noteq> derived_count_key t u s k" "derived_count_key t u s k \<noteq> pending_key c"
  "pending_list_key t u \<noteq> derived_count_key t' u' s k" "derived_count_key t' u' s k \<noteq> pending_list_key t u"
  by (simp_all add: pending_key_def pending_list_key_def derived_count_key_def)

lemma pending_key_inj [simp]: "pending_key c = pending_key d \<longleftrightarrow> c = d"
  by (simp add: pending_key_def)

lemma pending_after_views:
  "pending_after view env c slot src w (pending_key (cf_id c)) = Some (RText (me_dumps env (PDict (conflict_data c slot src))))"
  "cf_id c \<in> members (pending_after view env c slot src w) (pending_list_key (cf_tenant c) (cf_user c))"
  "pending_after view env c slot src w (derived_count_key t u s k) = view w (derived_count_key t u s k)"
  by (simp_all add: pending_after_def Let_def members_def)

lemma get_stored:
  assumes "redis_laws env view" and "json_laws env"
    and "view w (pending_key (cf_id c)) = Some (RText (me_dumps env (PDict (conflict_data c (slot_value sl) (source_value so)))))"
    and "cf_slot c = Member sl" and "cf_source c = Member so"
  shows "get_conflict env (cf_id c) w = (Inr (Some c), w)"
  using redis_get(2) [OF assms(1,3)] assms(2) conflict_of_data [OF refl refl assms(4,5)]
  by (simp add: get_conflict_def io_bind_run parse_conflict_def json_laws_def)


lemma map_redis_laws: "redis_laws map_redis (\<lambda>w. w)"
  by (simp add: redis_laws_def map_redis_def)

lemma map_redis_json: "json_laws map_redis"
  by (simp add: json_laws_def map_redis_def)

lemma increment_run:
  assumes "redis_laws env view" and "counter (view w) (derived_count_key t u s k)"
  obtains w' where "increment_derived_count env t u s k w = (Inr (count_of (view w) (derived_count_key t u s k) + 1), w')"
    "view w' = (view w)(derived_count_key t u s k \<mapsto> RCount (count_of (view w) (derived_count_key t u s k) + 1))"
proof -
  let ?K = "derived_count_key t u s k"
  obtain w1 where 1: "me_incr env ?K w = (Inr (count_of (view w) ?K + 1), w1)"
    "view w1 = (view w)(?K \<mapsto> RCount (count_of (view w) ?K + 1))" by (rule redis_incr [OF assms])
  obtain w2 where 2: "me_expire env ?K pending_ttl w1 = (Inr (), w2)" "view w2 = view w1"
    by (rule redis_expire [OF assms(1)])
  show ?thesis by (rule that [of w2]) (simp_all add: increment_derived_count_def io_bind_run 1 2)
qed

lemma increment_view:
  assumes "redis_laws env view" and "counter (view w) (derived_count_key t u s k)"
  shows "fst (increment_derived_count env t u s k w) = Inr (count_of (view w) (derived_count_key t u s k) + 1)"
    "view (snd (increment_derived_count env t u s k w)) =
       (view w)(derived_count_key t u s k \<mapsto> RCount (count_of (view w) (derived_count_key t u s k) + 1))"
  using increment_run [OF assms] by (metis fst_conv, metis snd_conv)

definition new_conflict ::
  "'w mem_env \<Rightarrow> pyfloat \<Rightarrow> string \<Rightarrow> string \<Rightarrow> slot_type \<Rightarrow> string \<Rightarrow> pyval \<Rightarrow> pyval \<Rightarrow> source_type \<Rightarrow> memory_conflict" where
  "new_conflict env now t u sl k old new so =
     \<lparr>cf_id = conflict_id_of env now t u (slot_value sl) k, cf_slot = Member sl, cf_key = k, cf_old = old, cf_new = new,
      cf_source = Member so, cf_tenant = t, cf_user = u, cf_created = now\<rparr>"

lemma new_conflict_sel [simp]:
  "cf_slot (new_conflict env now t u sl k old new so) = Member sl"
  "cf_source (new_conflict env now t u sl k old new so) = Member so"
  "cf_tenant (new_conflict env now t u sl k old new so) = t"
  "cf_user (new_conflict env now t u sl k old new so) = u"
  "cf_key (new_conflict env now t u sl k old new so) = k"
  "cf_old (new_conflict env now t u sl k old new so) = old"
  "cf_new (new_conflict env now t u sl k old new so) = new"
  by (simp_all add: new_conflict_def)

text \<open>A conflict is raised: what it holds and what is left in Redis.\<close>

lemma raise_run:
  assumes "redis_laws env view"
  obtains c w' where
    "io_bind (create_conflict_event env t u (Member sl) k old new (Member so)) (\<lambda>c.
       io_bind (store_pending env c) (\<lambda>_. io_return (True, Some c))) w = (Inr (True, Some c), w')"
    "c = new_conflict env (me_clock env w) t u sl k old new so"
    "view w' = pending_after view env c (slot_value sl) (source_value so) w"
proof -
  let ?c = "new_conflict env (me_clock env w) t u sl k old new so"
  obtain w' where w': "store_pending env ?c w = (Inr (), w')"
    "view w' = pending_after view env ?c (slot_value sl) (source_value so) w"
    by (rule store_pending_run [OF assms, where c = ?c and sl = sl and so = so and w = w]) simp_all
  show ?thesis
    by (rule that [of ?c w']) (simp_all add: create_conflict_event_def io_bind_run w'(1) [unfolded new_conflict_def] w'(2)
        new_conflict_def)
qed

lemma detect_other:
  assumes "redis_laws env view" and "loose source_value (pi_source it) = ''user_confirmed''" and "so = TOOL_WRITTEN"
  obtains c w' where "detect_and_handle_conflict env t u (Member sl) k new (Member so) (Some it) w = (Inr (True, Some c), w')"
    "c = new_conflict env (me_clock env w) t u sl k (pi_value it) new so"
    "view w' = pending_after view env c (slot_value sl) (source_value so) w"
  using raise_run [OF assms(1), of t u sl k "pi_value it" new so w]
  by (auto simp: detect_and_handle_conflict_def assms(2,3) auto_write_def io_bind_run [of "io_return _"])

lemma detect_derived_first:
  assumes "redis_laws env view" and "loose source_value (pi_source it) = ''user_confirmed''"
    and "view w (derived_count_key t u (slot_value sl) k) = None"
  obtains c w1 w' where "detect_and_handle_conflict env t u (Member sl) k new (Member DERIVED) (Some it) w = (Inr (True, Some c), w')"
    "c = new_conflict env (me_clock env w1) t u sl k (pi_value it) new DERIVED"
    "view w' = pending_after view env c (slot_value sl) ''derived'' w1"
    "view w1 = (view w)(derived_count_key t u (slot_value sl) k \<mapsto> RCount 1)"
proof -
  let ?K = "derived_count_key t u (slot_value sl) k"
  have cnt: "counter (view w) ?K" and n: "count_of (view w) ?K = 0" using assms(3) by (simp_all add: counter_def count_of_def)
  obtain w1 where w1: "increment_derived_count env t u (slot_value sl) k w = (Inr 1, w1)" "view w1 = (view w)(?K \<mapsto> RCount 1)"
    by (rule increment_run [OF assms(1) cnt]) (simp add: n)
  obtain c w' where c: "io_bind (create_conflict_event env t u (Member sl) k (pi_value it) new (Member DERIVED)) (\<lambda>c.
       io_bind (store_pending env c) (\<lambda>_. io_return (True, Some c))) w1 = (Inr (True, Some c), w')"
    "c = new_conflict env (me_clock env w1) t u sl k (pi_value it) new DERIVED"
    "view w' = pending_after view env c (slot_value sl) (source_value DERIVED) w1"
    by (rule raise_run [OF assms(1)])
  have "auto_write env t u (Member sl) k (Member DERIVED) w = (Inr False, w1)"
    by (simp add: auto_write_def io_bind_run w1 auto_write_threshold_def)
  then have "detect_and_handle_conflict env t u (Member sl) k new (Member DERIVED) (Some it) w = (Inr (True, Some c), w')"
    by (simp add: detect_and_handle_conflict_def assms(2) io_bind_Inr [of _ _ False w1] c(1))
  then show ?thesis using that c(2,3) w1(2) by simp
qed

lemma detect_derived_again:
  assumes "redis_laws env view" and "loose source_value (pi_source it) = ''user_confirmed''"
    and "view w (derived_count_key t u (slot_value sl) k) = Some (RCount n)" and "1 \<le> n"
  obtains w' where "detect_and_handle_conflict env t u (Member sl) k new (Member DERIVED) (Some it) w = (Inr (False, None), w')"
    "view w' = (view w)(derived_count_key t u (slot_value sl) k \<mapsto> RCount (n + 1))"
proof -
  let ?K = "derived_count_key t u (slot_value sl) k"
  have cnt: "counter (view w) ?K" and n: "count_of (view w) ?K = n" using assms(3) by (simp_all add: counter_def count_of_def)
  obtain w1 where w1: "increment_derived_count env t u (slot_value sl) k w = (Inr (n + 1), w1)" "view w1 = (view w)(?K \<mapsto> RCount (n + 1))"
    by (rule increment_run [OF assms(1) cnt]) (simp add: n)
  have "auto_write env t u (Member sl) k (Member DERIVED) w = (Inr True, w1)"
    using assms(4) by (simp add: auto_write_def io_bind_run w1 auto_write_threshold_def)
  then have "detect_and_handle_conflict env t u (Member sl) k new (Member DERIVED) (Some it) w = (Inr (False, None), w1)"
    by (simp add: detect_and_handle_conflict_def assms(2) io_bind_Inr [of _ _ True w1])
  then show ?thesis using that w1(2) by simp
qed

lemma drop_pending_run:
  assumes "redis_laws env view"
  obtains w' where "drop_pending env cid (PDict (conflict_data c slot src)) w = (Inr (), w')"
    "view w' = (view w)(pending_key cid := None,
       pending_list_key (cf_tenant c) (cf_user c) \<mapsto>
         RSet (members (view w) (pending_list_key (cf_tenant c) (cf_user c)) - {cid}))"
proof -
  obtain w1 where 1: "me_delete env (pending_key cid) w = (Inr (), w1)" "view w1 = (view w)(pending_key cid := None)"
    by (rule redis_del [OF assms])
  obtain w2 where 2: "me_srem env (pending_list_key (cf_tenant c) (cf_user c)) cid w1 = (Inr (), w2)"
    "view w2 = (view w1)(pending_list_key (cf_tenant c) (cf_user c) \<mapsto>
       RSet (members (view w1) (pending_list_key (cf_tenant c) (cf_user c)) - {cid}))"
    by (rule redis_srem [OF assms])
  show ?thesis
    by (rule that [of w2]) (simp_all add: drop_pending_def io_bind_run py_item_def conflict_data_def 1 2 members_def)
qed


section \<open>Properties\<close>

text \<open>A write that the user has not confirmed, to an item he has, is held back by a conflict that is
  then found under its identifier exactly as it was raised, and listed for its owner.\<close>

theorem conflict_is_kept:
  assumes "redis_laws env view" and "json_laws env" and "pi_source it = Member USER_CONFIRMED"
    and "so = TOOL_WRITTEN \<or> so = DERIVED \<and> view w (derived_count_key t u (slot_value sl) k) = None"
  shows "\<exists>c w'. detect_and_handle_conflict env t u (Member sl) k new (Member so) (Some it) w = (Inr (True, Some c), w') \<and>
    cf_old c = pi_value it \<and> cf_new c = new \<and> cf_key c = k \<and> cf_source c = Member so \<and>
    get_conflict env (cf_id c) w' = (Inr (Some c), w') \<and> cf_id c \<in> members (view w') (pending_list_key t u)"
proof -
  have conf: "loose source_value (pi_source it) = ''user_confirmed''" by (simp add: assms(3))
  obtain c w1 w' where d: "detect_and_handle_conflict env t u (Member sl) k new (Member so) (Some it) w = (Inr (True, Some c), w')"
    "c = new_conflict env (me_clock env w1) t u sl k (pi_value it) new so"
    "view w' = pending_after view env c (slot_value sl) (source_value so) w1"
    using assms(4)
  proof (elim disjE conjE)
    assume "so = TOOL_WRITTEN"
    then show ?thesis using detect_other [OF assms(1) conf, of so t u sl k new w] that by metis
  next
    assume "so = DERIVED" and n: "view w (derived_count_key t u (slot_value sl) k) = None"
    then show ?thesis using detect_derived_first [OF assms(1) conf n, of new] that by (metis source_value.simps(2))
  qed
  have "get_conflict env (cf_id c) w' = (Inr (Some c), w')"
    by (rule get_stored [OF assms(1,2), of w' c sl so]) (simp_all add: d(2,3) pending_after_views)
  moreover have "cf_id c \<in> members (view w') (pending_list_key t u)"
    using pending_after_views(2) [of c view env "slot_value sl" "source_value so" w1] by (simp add: d(3)) (simp add: d(2))
  ultimately show ?thesis using d(1,2) by simp
qed

theorem conflict_is_kept_witness:
  "\<exists>c w'. detect_and_handle_conflict map_redis ''acme'' ''ann'' (Member FACT) ''city'' (PStr ''Rome'') (Member TOOL_WRITTEN)
     (Some \<lparr>pi_slot = Member FACT, pi_key = ''city'', pi_value = PStr ''Bonn'', pi_confidence = 80,
        pi_source = Member USER_CONFIRMED, pi_version = 1, pi_confirmed = Some 5, pi_referenced = None, pi_created = 5,
        pi_updated = 5, pi_id = None\<rparr>) (\<lambda>k. None) = (Inr (True, Some c), w') \<and>
     cf_old c = PStr ''Bonn'' \<and> get_conflict map_redis (cf_id c) w' = (Inr (Some c), w')"
  using conflict_is_kept [OF map_redis_laws map_redis_json, where so = TOOL_WRITTEN and t = "''acme''" and u = "''ann''"
      and sl = FACT and k = "''city''" and new = "PStr ''Rome''" and w = "\<lambda>k. None" and
      it = "\<lparr>pi_slot = Member FACT, pi_key = ''city'', pi_value = PStr ''Bonn'', pi_confidence = 80,
        pi_source = Member USER_CONFIRMED, pi_version = 1, pi_confirmed = Some 5, pi_referenced = None, pi_created = 5,
        pi_updated = 5, pi_id = None\<rparr>"]
  by auto

end
