(* ===== verification/ProfileCards.thy ===== *)
theory ProfileCards
  imports Conflicts
begin

text \<open>
  The profile card of a user, \<^verbatim>\<open>app/memory/profile_card.py\<close>: items in a database table, a copy of the
  whole card in Redis, writes guarded by the conflict manager. The table is part of the state, each SQL
  statement a function on it; what the JSON column makes of a bound value and the order of the
  database's collation are arguments.
\<close>

section \<open>The table\<close>

type_synonym row_key = "string \<times> string \<times> string \<times> string"

record profile_row =
  pr_value :: pyval
  pr_confidence :: int
  pr_source :: string
  pr_version :: int
  pr_confirmed :: "pyfloat option"
  pr_referenced :: "pyfloat option"
  pr_created :: pyfloat
  pr_updated :: pyfloat

record 'w mem_state =
  ms_rows :: "(row_key, profile_row) dict"
  ms_world :: 'w

record 'w card_env = "'w mem_env" +
  ce_column :: "pyval \<Rightarrow> string + pyval"
  ce_sort :: "profile_item list \<Rightarrow> profile_item list"

abbreviation base :: "'w card_env \<Rightarrow> 'w mem_env" where
  "base \<equiv> mem_env.truncate"

definition on_world :: "('w, 'a) io \<Rightarrow> ('w mem_state, 'a) io" where
  "on_world = io_on ms_world (\<lambda>w s. s\<lparr>ms_world := w\<rparr>)"

definition on_rows :: "((row_key, profile_row) dict \<Rightarrow> (row_key, profile_row) dict) \<Rightarrow> ('w mem_state, unit) io" where
  "on_rows f = io_modify (\<lambda>s. s\<lparr>ms_rows := f (ms_rows s)\<rparr>)"

definition cache_ttl :: int where
  "cache_ttl = 60"

definition archive_threshold_days :: int where
  "archive_threshold_days = 180"

definition max_items_limit :: int where
  "max_items_limit = 200"

definition card_cache_key :: "string \<Rightarrow> string \<Rightarrow> string" where
  "card_cache_key tenant user = ''memory:profile:'' @ tenant @ '':'' @ user"

section \<open>Reading\<close>

definition item_of_row :: "string \<Rightarrow> string \<Rightarrow> profile_row \<Rightarrow> profile_item res" where
  "item_of_row slot key r =
     bind_res (slot_of slot) (\<lambda>sl. bind_res (source_of (pr_source r)) (\<lambda>so.
       Inr \<lparr>pi_slot = Member sl, pi_key = key, pi_value = pr_value r, pi_confidence = pr_confidence r, pi_source = Member so,
         pi_version = pr_version r, pi_confirmed = pr_confirmed r, pi_referenced = pr_referenced r, pi_created = pr_created r,
         pi_updated = pr_updated r, pi_id = None\<rparr>))"

definition user_rows :: "string \<Rightarrow> string \<Rightarrow> (row_key, profile_row) dict \<Rightarrow> (row_key, profile_row) dict" where
  "user_rows tenant user d = filter (\<lambda>((t, u, s, k), r). t = tenant \<and> u = user) d"

definition fetch_from_db :: "'w card_env \<Rightarrow> string \<Rightarrow> string \<Rightarrow> ('w mem_state, profile_item list) io" where
  "fetch_from_db env tenant user =
     io_bind (io_get (\<lambda>s. user_rows tenant user (ms_rows s))) (\<lambda>rows.
       io_res (bind_res (map_res (\<lambda>((t, u, s, k), r). item_of_row s k r) rows) (\<lambda>items. Inr (ce_sort env items))))"

definition opt_float :: "pyfloat option \<Rightarrow> pyval" where
  "opt_float x = (case x of None \<Rightarrow> PNone | Some f \<Rightarrow> PFloat f)"

definition item_to_dict :: "profile_item \<Rightarrow> pydict" where
  "item_to_dict it =
     [(''slot'', PStr (loose slot_value (pi_slot it))), (''item_key'', PStr (pi_key it)), (''item_value'', pi_value it),
      (''confidence'', PInt (pi_confidence it)), (''source'', PStr (loose source_value (pi_source it))),
      (''version'', PInt (pi_version it)), (''confirmed_at'', opt_float (pi_confirmed it)),
      (''last_referenced_at'', opt_float (pi_referenced it)), (''created_at'', PFloat (pi_created it)),
      (''updated_at'', PFloat (pi_updated it))]"

definition item_fields :: "string list" where
  "item_fields = [''slot'', ''item_key'', ''item_value'', ''confidence'', ''source'', ''version'', ''confirmed_at'',
     ''last_referenced_at'', ''created_at'', ''updated_at'']"

fun float_of :: "pyval \<Rightarrow> pyfloat" where
  "float_of (PFloat x) = x" | "float_of (PInt i) = of_int i" | "float_of v = 0"

fun json_int :: "pyval \<Rightarrow> int" where
  "json_int (PInt i) = i" | "json_int v = 0"

fun float_opt :: "pyval \<Rightarrow> pyfloat option" where
  "float_opt PNone = None" | "float_opt v = Some (float_of v)"

text \<open>\<open>ProfileItem(**item)\<close>: the keyword names are checked, the values are not, so the enumerations stay strings.\<close>

definition item_of_dict :: "pyval \<Rightarrow> profile_item res" where
  "item_of_dict v =
     (case v of
        PDict d \<Rightarrow>
          (if list_all (\<lambda>k. k \<in> set (item_fields @ [''id''])) (keys d) \<and> list_all (\<lambda>k. k \<in> set (keys d)) item_fields
           then Inr \<lparr>pi_slot = Plain (str_of (mget d ''slot'')), pi_key = str_of (mget d ''item_key''),
             pi_value = mget d ''item_value'', pi_confidence = json_int (mget d ''confidence''),
             pi_source = Plain (str_of (mget d ''source'')), pi_version = json_int (mget d ''version''),
             pi_confirmed = float_opt (mget d ''confirmed_at''), pi_referenced = float_opt (mget d ''last_referenced_at''),
             pi_created = float_of (mget d ''created_at''), pi_updated = float_of (mget d ''updated_at''),
             pi_id = (case dget d ''id'' of Some (PStr i) \<Rightarrow> Some i | _ \<Rightarrow> None)\<rparr>
           else Inl TypeError)
      | _ \<Rightarrow> Inl TypeError)"

text \<open>What a cached card decodes to; \<open>None\<close> for malformed JSON or a \<open>TypeError\<close>, which drop the entry.\<close>

definition decode_card :: "'w card_env \<Rightarrow> string \<Rightarrow> profile_item list option" where
  "decode_card env s =
     (case me_loads env s of
        Inl e \<Rightarrow> None
      | Inr v \<Rightarrow> (case bind_res (py_iter v) (map_res item_of_dict) of Inl e \<Rightarrow> None | Inr items \<Rightarrow> Some items))"

definition fill_cache :: "'w card_env \<Rightarrow> string \<Rightarrow> profile_item list \<Rightarrow> ('w mem_state, unit) io" where
  "fill_cache env key items =
     (if items = [] then io_return ()
      else io_try (on_world (me_setex env key cache_ttl (me_dumps env (PList (map (\<lambda>it. PDict (item_to_dict it)) items)))))
             (\<lambda>e. io_return ()))"

definition fetch_and_fill :: "'w card_env \<Rightarrow> string \<Rightarrow> string \<Rightarrow> ('w mem_state, profile_item list) io" where
  "fetch_and_fill env tenant user =
     io_bind (fetch_from_db env tenant user) (\<lambda>items.
     io_bind (fill_cache env (card_cache_key tenant user) items) (\<lambda>_. io_return items))"

definition get_profile :: "'w card_env \<Rightarrow> string \<Rightarrow> string \<Rightarrow> ('w mem_state, profile_item list) io" where
  "get_profile env tenant user =
     io_bind (on_world (me_get env (card_cache_key tenant user))) (\<lambda>cached.
       case cached of
         None \<Rightarrow> fetch_and_fill env tenant user
       | Some s \<Rightarrow>
           (if s = [] then fetch_and_fill env tenant user
            else case decode_card env s of
                   Some items \<Rightarrow> io_return items
                 | None \<Rightarrow> io_bind (on_world (me_delete env (card_cache_key tenant user))) (\<lambda>_. fetch_and_fill env tenant user)))"

definition get_item ::
  "string \<Rightarrow> string \<Rightarrow> slot_type member \<Rightarrow> string \<Rightarrow> ('w mem_state, profile_item option) io" where
  "get_item tenant user slot key =
     io_bind (io_get (\<lambda>s. dget (ms_rows s) (tenant, user, loose slot_value slot, key))) (\<lambda>row.
       case row of
         None \<Rightarrow> io_return None
       | Some r \<Rightarrow> io_res (bind_res (item_of_row (loose slot_value slot) key r) (\<lambda>it. Inr (Some it))))"

section \<open>Writing\<close>

definition bound_value :: "'w card_env \<Rightarrow> pyval \<Rightarrow> pyval" where
  "bound_value env v =
     (case v of PStr s \<Rightarrow> v | PInt i \<Rightarrow> v | PFloat x \<Rightarrow> v | PBool b \<Rightarrow> v | _ \<Rightarrow> PStr (me_dumps env v))"

definition column :: "'w card_env \<Rightarrow> pyval \<Rightarrow> ('w mem_state, pyval) io" where
  "column env v = (case ce_column env (bound_value env v) of Inl e \<Rightarrow> io_raise (Ext e) | Inr x \<Rightarrow> io_return x)"

definition insert_item ::
  "'w card_env \<Rightarrow> string \<Rightarrow> string \<Rightarrow> slot_type member \<Rightarrow> string \<Rightarrow> pyval \<Rightarrow> int \<Rightarrow> source_type member \<Rightarrow> pyfloat \<Rightarrow>
   ('w mem_state, unit) io" where
  "insert_item env tenant user slot key v conf src now =
     io_bind (column env v) (\<lambda>x.
     io_bind (io_get (\<lambda>s. dget (ms_rows s) (tenant, user, loose slot_value slot, key))) (\<lambda>old.
       if old \<noteq> None then io_raise (Ext ''duplicate key'')
       else on_rows (dset (tenant, user, loose slot_value slot, key)
         \<lparr>pr_value = x, pr_confidence = conf, pr_source = loose source_value src, pr_version = 1,
          pr_confirmed = (if loose source_value src = ''user_confirmed'' then Some now else None),
          pr_referenced = None, pr_created = now, pr_updated = now\<rparr>)))"

definition update_item ::
  "'w card_env \<Rightarrow> string \<Rightarrow> string \<Rightarrow> slot_type member \<Rightarrow> string \<Rightarrow> pyval \<Rightarrow> int \<Rightarrow> source_type member \<Rightarrow> int \<Rightarrow> pyfloat \<Rightarrow>
   ('w mem_state, unit) io" where
  "update_item env tenant user slot key v conf src version now =
     io_bind (column env v) (\<lambda>x.
       on_rows (\<lambda>d. case dget d (tenant, user, loose slot_value slot, key) of
           None \<Rightarrow> d
         | Some r \<Rightarrow> dset (tenant, user, loose slot_value slot, key)
             (r\<lparr>pr_value := x, pr_confidence := conf, pr_source := loose source_value src, pr_version := version,
                pr_confirmed := (if loose source_value src = ''user_confirmed'' then Some now else pr_confirmed r),
                pr_updated := now\<rparr>) d))"

definition invalidate_cache :: "'w card_env \<Rightarrow> string \<Rightarrow> string \<Rightarrow> ('w mem_state, unit) io" where
  "invalidate_cache env tenant user = on_world (me_delete env (card_cache_key tenant user))"

text \<open>The result: success, the item, and the conflict with the time of the last confirmation.\<close>

type_synonym update_result = "bool \<times> profile_item option \<times> (memory_conflict \<times> pyfloat option) option"

definition write_item ::
  "'w card_env \<Rightarrow> string \<Rightarrow> string \<Rightarrow> slot_type member \<Rightarrow> string \<Rightarrow> pyval \<Rightarrow> int \<Rightarrow> source_type member \<Rightarrow> pyfloat \<Rightarrow>
   profile_item option \<Rightarrow> ('w mem_state, update_result) io" where
  "write_item env tenant user slot key v conf src now existing =
     io_bind (case existing of
                Some it \<Rightarrow> update_item env tenant user slot key v conf src (pi_version it + 1) now
              | None \<Rightarrow> insert_item env tenant user slot key v conf src now) (\<lambda>_.
     io_bind (invalidate_cache env tenant user) (\<lambda>_.
     io_bind (get_item tenant user slot key) (\<lambda>it. io_return (True, it, None))))"

definition upsert_item ::
  "'w card_env \<Rightarrow> string \<Rightarrow> string \<Rightarrow> slot_type member \<Rightarrow> string \<Rightarrow> pyval \<Rightarrow> int \<Rightarrow> source_type member \<Rightarrow>
   ('w mem_state, update_result) io" where
  "upsert_item env tenant user slot key v conf src =
     io_bind (io_get (\<lambda>s. me_clock env (ms_world s))) (\<lambda>now.
     io_bind (get_item tenant user slot key) (\<lambda>existing.
     io_bind (on_world (detect_and_handle_conflict (base env) tenant user slot key v src existing)) (\<lambda>r.
       case r of
         (True, Some c) \<Rightarrow>
           io_return (False, existing, Some (c, case existing of None \<Rightarrow> None | Some it \<Rightarrow> pi_confirmed it))
       | _ \<Rightarrow> write_item env tenant user slot key v conf src now existing)))"

definition delete_item :: "'w card_env \<Rightarrow> string \<Rightarrow> string \<Rightarrow> slot_type member \<Rightarrow> string \<Rightarrow> ('w mem_state, bool) io" where
  "delete_item env tenant user slot key =
     io_bind (io_res (dot_value slot_value slot)) (\<lambda>sl.
     io_bind (io_get (\<lambda>s. dget (ms_rows s) (tenant, user, sl, key))) (\<lambda>old.
     io_bind (on_rows (ddel (tenant, user, sl, key))) (\<lambda>_.
     io_bind (invalidate_cache env tenant user) (\<lambda>_. io_return (old \<noteq> None)))))"

section \<open>Housekeeping\<close>

definition stale :: "pyfloat \<Rightarrow> profile_row \<Rightarrow> bool" where
  "stale threshold r \<longleftrightarrow>
     (case pr_referenced r of None \<Rightarrow> True | Some t \<Rightarrow> t < threshold) \<and> pr_confidence r < 50 \<and>
     pr_source r \<noteq> ''user_confirmed''"

definition archive_low_confidence :: "'w card_env \<Rightarrow> ('w mem_state, int) io" where
  "archive_low_confidence env =
     io_bind (io_get (\<lambda>s. me_clock env (ms_world s) - of_int (archive_threshold_days * 24 * 3600))) (\<lambda>threshold.
     io_bind (io_get (\<lambda>s. int (length (filter (\<lambda>(k, r). stale threshold r) (ms_rows s))))) (\<lambda>n.
     io_bind (on_rows (filter (\<lambda>(k, r). \<not> stale threshold r))) (\<lambda>_. io_return n)))"

text \<open>The rows of a user that may be evicted, and the score they are ordered by.\<close>

definition evictable :: "string \<Rightarrow> string \<Rightarrow> row_key \<times> profile_row \<Rightarrow> bool" where
  "evictable tenant user e = (case e of ((t, u, s, k), r) \<Rightarrow> t = tenant \<and> u = user \<and> pr_source r \<noteq> ''user_confirmed'')"

definition evict_score :: "row_key \<times> profile_row \<Rightarrow> pyfloat" where
  "evict_score e = of_int (pr_confidence (snd e)) * (case pr_referenced (snd e) of None \<Rightarrow> 0 | Some t \<Rightarrow> t)"

definition evict_rows :: "string \<Rightarrow> string \<Rightarrow> nat \<Rightarrow> (row_key, profile_row) dict \<Rightarrow> (row_key, profile_row) dict" where
  "evict_rows tenant user n d =
     (let victims = map fst (take n (sort_key evict_score (filter (evictable tenant user) d)))
      in filter (\<lambda>e. fst e \<notin> set victims) d)"

definition overfull :: "string option \<Rightarrow> (row_key, profile_row) dict \<Rightarrow> ((string \<times> string) \<times> nat) list" where
  "overfull tenant d =
     filter (\<lambda>(tu, n). int n > max_items_limit)
       (map (\<lambda>(t, u). ((t, u), length (filter (evictable t u) d)))
         (remdups (map (\<lambda>((t, u, s, k), r). (t, u)) (filter (\<lambda>((t, u, s, k), r).
            (case tenant of None \<Rightarrow> True | Some x \<Rightarrow> t = x) \<and> pr_source r \<noteq> ''user_confirmed'') d))))"

definition evict_user :: "'w card_env \<Rightarrow> (string \<times> string) \<times> nat \<Rightarrow> ('w mem_state, int) io" where
  "evict_user env tun =
     (case tun of ((t, u), n) \<Rightarrow>
        io_bind (on_rows (evict_rows t u (n - nat max_items_limit))) (\<lambda>_.
        io_bind (io_try (invalidate_cache env t u) (\<lambda>e. io_return ())) (\<lambda>_.
          io_return (int n - max_items_limit))))"

definition evict_over_limit :: "'w card_env \<Rightarrow> string option \<Rightarrow> ('w mem_state, int) io" where
  "evict_over_limit env tenant =
     io_bind (io_get (\<lambda>s. overfull tenant (ms_rows s))) (\<lambda>users.
     io_bind (io_map (evict_user env) users) (\<lambda>ns. io_return (sum_list ns)))"

section \<open>What the commands leave alone\<close>

lemma base_sel [simp]:
  "me_get (base env) = me_get env" "me_setex (base env) = me_setex env" "me_delete (base env) = me_delete env"
  "me_incr (base env) = me_incr env" "me_expire (base env) = me_expire env" "me_sadd (base env) = me_sadd env"
  "me_srem (base env) = me_srem env" "me_smembers (base env) = me_smembers env" "me_clock (base env) = me_clock env"
  "me_hash (base env) = me_hash env" "me_dumps (base env) = me_dumps env" "me_loads (base env) = me_loads env"
  by (simp_all add: mem_env.defs)

lemma base_laws [simp]: "redis_laws (base env) view = redis_laws env view" "json_laws (base env) = json_laws env"
  by (simp_all add: redis_laws_def json_laws_def)

lemma on_world_run: "on_world m s = (fst (m (ms_world s)), s\<lparr>ms_world := snd (m (ms_world s))\<rparr>)"
  by (simp add: on_world_def io_on_run)

lemma on_rows_run [simp]: "on_rows f s = (Inr (), s\<lparr>ms_rows := f (ms_rows s)\<rparr>)"
  by (simp add: on_rows_def)

lemma keeps_on_world [intro, simp]: "(\<And>w s. f (s\<lparr>ms_world := w\<rparr>) = f s) \<Longrightarrow> keeps f (on_world m)"
  by (simp add: keeps_def on_world_run)

definition other_rows :: "string \<Rightarrow> string \<Rightarrow> 'w mem_state \<Rightarrow> (row_key, profile_row) dict" where
  "other_rows tenant user s = filter (\<lambda>e. (fst (fst e), fst (snd (fst e))) \<noteq> (tenant, user)) (ms_rows s)"

lemma filter_dset_other: "\<not> P k \<Longrightarrow> filter (\<lambda>e. P (fst e)) (dset k v d) = filter (\<lambda>e. P (fst e)) d"
  by (induction d) auto

lemma filter_ddel_other: "\<not> P k \<Longrightarrow> filter (\<lambda>e. P (fst e)) (ddel k d) = filter (\<lambda>e. P (fst e)) d"
  by (induction d) auto

lemma keeps_others_world [intro, simp]: "keeps (other_rows t u) (on_world m)"
  by (rule keeps_on_world) (simp add: other_rows_def)

lemma keeps_others_dset: "keeps (other_rows t u) (on_rows (dset (t, u, sl, k) r))"
  by (simp add: keeps_def other_rows_def filter_dset_other [where P = "\<lambda>q. (fst q, fst (snd q)) \<noteq> (t, u)", simplified])

lemma keeps_others_ddel: "keeps (other_rows t u) (on_rows (ddel (t, u, sl, k)))"
  by (simp add: keeps_def other_rows_def filter_ddel_other [where P = "\<lambda>q. (fst q, fst (snd q)) \<noteq> (t, u)", simplified])

lemma keeps_others_update:
  "keeps (other_rows t u) (on_rows (\<lambda>d. case dget d (t, u, sl, k) of None \<Rightarrow> d | Some r \<Rightarrow> dset (t, u, sl, k) (f r) d))"
  by (simp add: keeps_def other_rows_def filter_dset_other [where P = "\<lambda>q. (fst q, fst (snd q)) \<noteq> (t, u)", simplified]
      split: option.split)

lemma keeps_get_item: "keeps f (get_item t u sl k)"
  by (auto simp: get_item_def split: option.split)

lemma keeps_column: "keeps f (column env v)"
  by (simp add: column_def split: sum.split)

lemma keeps_others_insert: "keeps (other_rows t u) (insert_item env t u sl k v conf src now)"
  unfolding insert_item_def by (intro keeps_bind keeps_column keeps_get) (simp add: keeps_others_dset)

lemma keeps_others_update_item: "keeps (other_rows t u) (update_item env t u sl k v conf src version now)"
  unfolding update_item_def by (intro keeps_bind keeps_column keeps_others_update)

lemma keeps_others_write: "keeps (other_rows t u) (write_item env t u sl k v conf src now existing)"
  unfolding write_item_def invalidate_cache_def
  by (cases existing) (auto intro!: keeps_bind keeps_get_item keeps_others_insert keeps_others_update_item)

lemma keeps_others_upsert: "keeps (other_rows t u) (upsert_item env t u sl k v conf src)"
  unfolding upsert_item_def
  by (intro keeps_bind keeps_get_item keeps_get keeps_others_world)
    (auto split: prod.split bool.split option.split intro: keeps_others_write)

lemma keeps_others_delete: "keeps (other_rows t u) (delete_item env t u sl k)"
  unfolding delete_item_def invalidate_cache_def by (intro keeps_bind keeps_others_ddel keeps_others_world keeps_res keeps_get keeps_return)

lemma keeps_rows_profile: "(\<And>w s. f (s\<lparr>ms_world := w\<rparr>) = f s) \<Longrightarrow> keeps f (get_profile env t u)"
  unfolding get_profile_def fetch_and_fill_def fetch_from_db_def fill_cache_def
  by (intro keeps_bind keeps_on_world) (auto split: option.split intro!: keeps_bind keeps_on_world keeps_try)

section \<open>Housekeeping\<close>

lemma evict_rows_filter:
  "evict_rows t u n d = filter (\<lambda>e. fst e \<notin> fst ` set (take n (sort_key evict_score (filter (evictable t u) d)))) d"
  by (simp add: evict_rows_def Let_def)

lemma victims_evictable:
  "q \<in> fst ` set (take n (sort_key evict_score (filter (evictable t u) d))) \<Longrightarrow> \<exists>r. (q, r) \<in> set d \<and> evictable t u (q, r)"
  by (auto dest!: in_set_takeD)

lemma wf_evict_rows: "wf_dict d \<Longrightarrow> wf_dict (evict_rows t u n d)"
  by (simp add: evict_rows_filter wf_dict_def distinct_map_filter)

lemma evictable_user: "evictable t u (q, r) \<Longrightarrow> fst q = t \<and> fst (snd q) = u \<and> pr_source r \<noteq> ''user_confirmed''"
  by (auto simp: evictable_def)

lemma evict_keeps:
  assumes "wf_dict d" and "\<And>q r. (q, r) \<in> set d \<Longrightarrow> P (q, r) \<Longrightarrow> \<not> evictable t u (q, r)"
  shows "filter P (evict_rows t u n d) = filter P d"
proof -
  have "fst e \<notin> fst ` set (take n (sort_key evict_score (filter (evictable t u) d)))" if e: "e \<in> set d" "P e" for e
  proof
    assume "fst e \<in> fst ` set (take n (sort_key evict_score (filter (evictable t u) d)))"
    then obtain r where "(fst e, r) \<in> set d" "evictable t u (fst e, r)" using victims_evictable by metis
    moreover have "r = snd e" using e(1) \<open>(fst e, r) \<in> set d\<close> assms(1)
      by (metis wf_dget_iff option.inject prod.collapse)
    ultimately show False using assms(2) [of "fst e" "snd e"] e by simp
  qed
  then show ?thesis unfolding evict_rows_filter filter_filter by (intro filter_cong) blast+
qed

lemma length_evict_rows:
  assumes "wf_dict d"
  shows "length (filter (evictable t u) (evict_rows t u n d)) = length (filter (evictable t u) d) - n"
proof -
  let ?F = "filter (evictable t u) d" and ?V = "set (take n (sort_key evict_score (filter (evictable t u) d)))"
  have dF: "distinct ?F" using assms by (simp add: wf_dict_def distinct_map)
  have V: "?V \<subseteq> set ?F" using set_take_subset [of n "sort_key evict_score ?F"] by simp
  have card: "card ?V = min n (length ?F)" using dF by (simp add: distinct_card)
  have iff: "(fst e \<in> fst ` ?V) = (e \<in> ?V)" if "e \<in> set ?F" for e
    using that V assms by (auto simp: image_iff) (metis (mono_tags, lifting) V filter_is_subset fst_conv in_mono option.inject
        prod.collapse wf_dget_iff)
  have "filter (evictable t u) (evict_rows t u n d) = filter (\<lambda>e. fst e \<notin> fst ` ?V) ?F"
    by (simp add: evict_rows_filter conj_commute)
  also have "\<dots> = filter (\<lambda>e. e \<notin> ?V) ?F"
    by (rule filter_cong [OF refl]) (simp only: iff)
  finally have "filter (evictable t u) (evict_rows t u n d) = filter (\<lambda>e. e \<notin> ?V) ?F" .
  moreover have "length (filter (\<lambda>e. e \<notin> ?V) ?F) = card (set ?F - ?V)"
  proof -
    have "length (filter (\<lambda>e. e \<notin> ?V) ?F) = card (set (filter (\<lambda>e. e \<notin> ?V) ?F))"
      by (rule distinct_card [symmetric]) (use dF in \<open>rule distinct_filter\<close>)
    also have "set (filter (\<lambda>e. e \<notin> ?V) ?F) = set ?F - ?V" unfolding set_filter by blast
    finally show ?thesis .
  qed
  ultimately have "length (filter (evictable t u) (evict_rows t u n d)) = card (set ?F - ?V)" by (simp only:)
  also have "\<dots> = card (set ?F) - card ?V" by (rule card_Diff_subset) (simp, rule V)
  also have "\<dots> = length ?F - n" using card distinct_card [OF dF] by simp
  finally show ?thesis .
qed


definition evict_all :: "((string \<times> string) \<times> nat) list \<Rightarrow> (row_key, profile_row) dict \<Rightarrow> (row_key, profile_row) dict" where
  "evict_all us d = foldl (\<lambda>d ((t, u), n). evict_rows t u (n - nat max_items_limit) d) d us"

lemma evict_all_simps [simp]:
  "evict_all [] d = d"
  "evict_all (((t, u), n) # us) d = evict_all us (evict_rows t u (n - nat max_items_limit) d)"
  by (simp_all add: evict_all_def)

lemma evict_over_limit_run:
  "ms_rows (snd (evict_over_limit env tenant s)) = evict_all (overfull tenant (ms_rows s)) (ms_rows s)"
proof -
  have one: "\<exists>w. evict_user env ((t, u), n) s = (Inr (int n - max_items_limit),
      s\<lparr>ms_rows := evict_rows t u (n - nat max_items_limit) (ms_rows s), ms_world := w\<rparr>)" for t u n s
    by (auto simp: evict_user_def io_bind_run io_try_run invalidate_cache_def on_world_run split: sum.split)
  have "\<exists>x w. io_map (evict_user env) us s = (Inr x, s\<lparr>ms_rows := evict_all us (ms_rows s), ms_world := w\<rparr>)" for us s
  proof (induction us arbitrary: s)
    case Nil
    then show ?case by (intro exI [of _ "[]"] exI [of _ "ms_world s"]) simp
  next
    case (Cons p us)
    obtain t u n where p: "p = ((t, u), n)" by (metis prod.collapse)
    obtain w where w: "evict_user env ((t, u), n) s = (Inr (int n - max_items_limit),
      s\<lparr>ms_rows := evict_rows t u (n - nat max_items_limit) (ms_rows s), ms_world := w\<rparr>)" using one by blast
    show ?case using Cons.IH [of "s\<lparr>ms_rows := evict_rows t u (n - nat max_items_limit) (ms_rows s), ms_world := w\<rparr>"]
      by (auto simp: p io_bind_run w)
  qed
  from this [of "overfull tenant (ms_rows s)" s] show ?thesis
    by (auto simp: evict_over_limit_def io_bind_run)
qed

lemma evict_other_user:
  assumes "wf_dict d" and "(t, u) \<noteq> (t', u')"
  shows "filter (evictable t' u') (evict_rows t u n d) = filter (evictable t' u') d"
  by (rule evict_keeps [OF assms(1)]) (use assms(2) in \<open>auto dest!: evictable_user\<close>)

lemma evict_all_keeps:
  assumes "wf_dict d" and "\<And>t u q r. P (q, r) \<Longrightarrow> \<not> evictable t u (q, r)"
  shows "filter P (evict_all us d) = filter P d"
  using assms(1)
proof (induction us arbitrary: d)
  case (Cons p us)
  obtain t u n where p: "p = ((t, u), n)" by (metis prod.collapse)
  show ?case using Cons.IH [OF wf_evict_rows [OF Cons.prems]] evict_keeps [OF Cons.prems, of P t u] assms(2) by (simp add: p)
qed simp

lemma evict_all_length:
  assumes "wf_dict d" and "distinct (map fst us)"
  shows "length (filter (evictable t u) (evict_all us d)) =
    length (filter (evictable t u) d) - (case map_of us (t, u) of None \<Rightarrow> 0 | Some n \<Rightarrow> n - nat max_items_limit)"
  using assms
proof (induction us arbitrary: d)
  case (Cons p us)
  obtain t' u' n where p: "p = ((t', u'), n)" by (metis prod.collapse)
  note IH = Cons.IH [OF wf_evict_rows [OF Cons.prems(1)], of t' u' "n - nat max_items_limit"]
  show ?case
  proof (cases "(t', u') = (t, u)")
    case True
    then have "map_of us (t, u) = None" using Cons.prems(2) p by (auto simp: map_of_eq_None_iff)
    then show ?thesis using IH Cons.prems True by (simp add: p length_evict_rows)
  next
    case False
    then show ?thesis using IH Cons.prems evict_other_user [OF Cons.prems(1) False] by (auto simp: p)
  qed
qed simp

lemma map_of_graph:
  "map_of (filter P (map (\<lambda>k. (k, f k)) ks)) k = (if k \<in> set ks \<and> P (k, f k) then Some (f k) else None)"
  by (induction ks) auto

lemma overfull_graph:
  "overfull tenant d = filter (\<lambda>(tu, n). int n > max_items_limit)
     (map (\<lambda>tu. (tu, length (filter (evictable (fst tu) (snd tu)) d)))
       (remdups (map (\<lambda>((t, u, s, k), r). (t, u)) (filter (\<lambda>((t, u, s, k), r).
          (case tenant of None \<Rightarrow> True | Some x \<Rightarrow> t = x) \<and> pr_source r \<noteq> ''user_confirmed'') d))))"
proof -
  have "(\<lambda>(t, u). ((t, u), length (filter (evictable t u) d))) = (\<lambda>tu. (tu, length (filter (evictable (fst tu) (snd tu)) d)))"
    by (simp add: fun_eq_iff)
  then show ?thesis unfolding overfull_def by (simp only:)
qed

lemma overfull_None:
  "map_of (overfull None d) (t, u) =
     (if int (length (filter (evictable t u) d)) > max_items_limit then Some (length (filter (evictable t u) d)) else None)"
proof -
  have "(t, u) \<in> set (map (\<lambda>((t, u, s, k), r). (t, u)) (filter (\<lambda>((t, u, s, k), r). pr_source r \<noteq> ''user_confirmed'') d))"
    if "filter (evictable t u) d \<noteq> []"
  proof -
    obtain q r where "(q, r) \<in> set d" "evictable t u (q, r)"
      using \<open>filter (evictable t u) d \<noteq> []\<close> by (auto simp: filter_empty_conv)
    then show ?thesis by (cases q) (force simp: evictable_def)
  qed
  moreover have "filter (evictable t u) d \<noteq> []" if "int (length (filter (evictable t u) d)) > max_items_limit"
    using that by (auto simp: max_items_limit_def)
  ultimately show ?thesis unfolding overfull_graph map_of_graph by simp
qed

lemma overfull_distinct: "distinct (map fst (overfull tenant d))"
  unfolding overfull_graph by (rule distinct_map_filter) (simp add: comp_def)

section \<open>Properties\<close>

text \<open>Housekeeping over all tenants leaves no user with more than two hundred unconfirmed items and
  removes no confirmed item.\<close>

theorem eviction_bounds_cards:
  assumes "wf_dict (ms_rows s)"
  shows "int (length (filter (evictable t u) (ms_rows (snd (evict_over_limit env None s))))) \<le> 200 \<and>
    filter (\<lambda>(k, r). pr_source r = ''user_confirmed'') (ms_rows (snd (evict_over_limit env None s))) =
    filter (\<lambda>(k, r). pr_source r = ''user_confirmed'') (ms_rows s)"
  using evict_all_length [OF assms overfull_distinct, of t u None "ms_rows s"]
    evict_all_keeps [OF assms, of "\<lambda>(k, r). pr_source r = ''user_confirmed''" "overfull None (ms_rows s)"]
  by (auto simp: evict_over_limit_run overfull_None max_items_limit_def dest: evictable_user split: if_splits)

end
