(* ===== verification/Tenancy.thy ===== *)
theory Tenancy
  imports Main
begin

text \<open>
  The contract of a store that many users share: an operation of one user leaves the rows of every
  other as they are. The profile cards and the summaries of conversations interpret it.
\<close>

locale tenant_store =
  fixes rows :: "'s \<Rightarrow> 'r list" and owner :: "'r \<Rightarrow> 'o" and step :: "'s \<Rightarrow> 'op \<Rightarrow> 's" and actor :: "'op \<Rightarrow> 'o"
  assumes isolated: "actor op \<noteq> p \<Longrightarrow> filter (\<lambda>r. owner r = p) (rows (step s op)) = filter (\<lambda>r. owner r = p) (rows s)"
begin

lemma untouched:
  "p \<notin> actor ` set ops \<Longrightarrow> filter (\<lambda>r. owner r = p) (rows (foldl step s ops)) = filter (\<lambda>r. owner r = p) (rows s)"
proof (induction ops arbitrary: s)
  case (Cons op ops)
  then have "actor op \<noteq> p" "p \<notin> actor ` set ops" by auto
  then show ?case using Cons.IH isolated by simp
qed simp

text \<open>Nobody appears who did not act and was not there.\<close>

lemma owners:
  assumes "r \<in> set (rows (foldl step s ops))"
  shows "owner r \<in> actor ` set ops \<or> r \<in> set (rows s)"
proof (rule disjCI)
  assume n: "r \<notin> set (rows s)"
  show "owner r \<in> actor ` set ops"
  proof (rule ccontr)
    assume "owner r \<notin> actor ` set ops"
    from arg_cong [OF untouched [OF this, of s], of set] assms n show False by auto
  qed
qed

end

end
