(* ===== verification/CardHistory.thy ===== *)
theory CardHistory
  imports ProfileCards Tenancy
begin

text \<open>
  Histories of profile cards: what a sequence of operations by many users leaves in the table and in
  Redis. The invariant \<open>coherent\<close> says that every cached card is the text of the rows of its user.
\<close>

section \<open>Histories of a card\<close>

text \<open>The operations of the card, by any users; an exception ends the operation, not the history.\<close>

datatype card_op =
    Upsert string string slot_type string pyval int source_type
  | Delete string string slot_type string
  | Read string string

fun op_tenant :: "card_op \<Rightarrow> string" where
  "op_tenant (Upsert t u sl k v c so) = t" | "op_tenant (Delete t u sl k) = t" | "op_tenant (Read t u) = t"

fun op_user :: "card_op \<Rightarrow> string" where
  "op_user (Upsert t u sl k v c so) = u" | "op_user (Delete t u sl k) = u" | "op_user (Read t u) = u"

fun card_step :: "'w card_env \<Rightarrow> 'w mem_state \<Rightarrow> card_op \<Rightarrow> 'w mem_state" where
  "card_step env s (Upsert t u sl k v c so) = snd (upsert_item env t u (Member sl) k v c (Member so) s)"
| "card_step env s (Delete t u sl k) = snd (delete_item env t u (Member sl) k s)"
| "card_step env s (Read t u) = snd (get_profile env t u s)"

text \<open>The items of a user as the table holds them.\<close>

definition card_items :: "'w card_env \<Rightarrow> string \<Rightarrow> string \<Rightarrow> (row_key, profile_row) dict \<Rightarrow> profile_item list" where
  "card_items env t u d = (case map_res (\<lambda>((t, u, s, k), r). item_of_row s k r) (user_rows t u d) of
     Inl e \<Rightarrow> [] | Inr items \<Rightarrow> ce_sort env items)"

definition rows_ok :: "(row_key, profile_row) dict \<Rightarrow> bool" where
  "rows_ok d \<longleftrightarrow> wf_dict d \<and> (\<forall>((t, u, s, k), r) \<in> set d. s \<in> range slot_value \<and> pr_source r \<in> range source_value)"

lemma slot_of_value [simp]: "slot_of (slot_value sl) = Inr sl"
  by (cases sl) (simp_all add: slot_of_def)

lemma source_of_value [simp]: "source_of (source_value so) = Inr so"
  by (cases so) (simp_all add: source_of_def)

lemma rows_ok_fetch:
  assumes "rows_ok d"
  shows "\<exists>items. map_res (\<lambda>((t, u, s, k), r). item_of_row s k r) (user_rows t u d) = Inr items"
proof -
  have "\<exists>items. map_res (\<lambda>((t, u, s, k), r). item_of_row s k r) xs = Inr items" if "set xs \<subseteq> set d" for xs
    using that
  proof (induction xs)
    case (Cons e xs)
    obtain t u s k r where e: "e = ((t, u, s, k), r)" by (metis prod.collapse)
    have "s \<in> range slot_value" "pr_source r \<in> range source_value"
      using assms Cons.prems e by (auto simp: rows_ok_def)
    then show ?case using Cons by (auto simp: e item_of_row_def)
  qed simp
  moreover have "set (user_rows t u d) \<subseteq> set d" by (auto simp: user_rows_def)
  ultimately show ?thesis by blast
qed

lemma filter_absorb: "(\<And>e. P e \<Longrightarrow> Q e) \<Longrightarrow> filter P (filter Q d) = filter P d"
  by (induction d) auto

lemma user_rows_others:
  assumes "filter (\<lambda>e. (fst (fst e), fst (snd (fst e))) \<noteq> (t, u)) d' = filter (\<lambda>e. (fst (fst e), fst (snd (fst e))) \<noteq> (t, u)) d"
    and "(t', u') \<noteq> (t, u)"
  shows "user_rows t' u' d' = user_rows t' u' d"
proof -
  have "user_rows t' u' (filter (\<lambda>e. (fst (fst e), fst (snd (fst e))) \<noteq> (t, u)) x) = user_rows t' u' x" for x
    unfolding user_rows_def by (rule filter_absorb) (use assms(2) in \<open>simp split: prod.splits\<close>)
  from this [of d] this [of d'] show ?thesis using assms(1) by simp
qed

lemma rows_ok_dset:
  assumes "rows_ok d" and "pr_source r = source_value so"
  shows "rows_ok (dset (t, u, slot_value sl, k) r d)"
proof -
  have "((t', u', s, k'), r') = ((t, u, slot_value sl, k), r) \<or> ((t', u', s, k'), r') \<in> set d"
    if "((t', u', s, k'), r') \<in> set (dset (t, u, slot_value sl, k) r d)" for t' u' s k' r'
    using that by (induction d) (auto split: if_splits)
  then show ?thesis using assms by (fastforce simp: rows_ok_def)
qed

lemma rows_ok_filter: "rows_ok d \<Longrightarrow> rows_ok (filter P d)"
  by (auto simp: rows_ok_def wf_dict_def distinct_map_filter)

lemma ddel_filter: "ddel k d = filter (\<lambda>e. fst e \<noteq> k) d"
  by (induction d) auto

section \<open>The cached form\<close>

definition cached_form :: "profile_item \<Rightarrow> profile_item" where
  "cached_form it = it\<lparr>pi_slot := Plain (loose slot_value (pi_slot it)), pi_source := Plain (loose source_value (pi_source it)),
     pi_id := None\<rparr>"

lemma float_opt_of [simp]: "float_opt (opt_float x) = x"
  by (cases x) (simp_all add: opt_float_def)

lemma item_dict_round: "item_of_dict (PDict (item_to_dict it)) = Inr (cached_form it)"
  by (simp add: item_of_dict_def item_to_dict_def item_fields_def cached_form_def dget_or_def)

lemma cached_form_dict [simp]: "item_to_dict (cached_form it) = item_to_dict it"
  by (simp add: item_to_dict_def cached_form_def)

definition card_text :: "'w card_env \<Rightarrow> profile_item list \<Rightarrow> string" where
  "card_text env items = me_dumps env (PList (map (\<lambda>it. PDict (item_to_dict it)) items))"

lemma decode_card_text: "json_laws env \<Longrightarrow> decode_card env (card_text env items) = Some (map cached_form items)"
proof -
  have "map_res item_of_dict (map (\<lambda>it. PDict (item_to_dict it)) items) = Inr (map cached_form items)"
    by (induction items) (simp_all add: item_dict_round)
  then show "json_laws env \<Longrightarrow> decode_card env (card_text env items) = Some (map cached_form items)"
    by (simp add: decode_card_def card_text_def json_laws_def)
qed


section \<open>The cache never shows\<close>

lemma card_key_inj:
  assumes "CHR '':'' \<notin> set t" and "CHR '':'' \<notin> set t'"
  shows "card_cache_key t u = card_cache_key t' u' \<longleftrightarrow> t = t' \<and> u = u'"
proof
  assume "card_cache_key t u = card_cache_key t' u'"
  then have e: "t @ CHR '':'' # u = t' @ CHR '':'' # u'" by (simp add: card_cache_key_def)
  have tw: "takeWhile (\<lambda>c. c \<noteq> CHR '':'') (x @ CHR '':'' # y) = x" if "CHR '':'' \<notin> set x" for x y
    using that by (induction x) auto
  have "t = t'" using arg_cong [OF e, of "takeWhile (\<lambda>c. c \<noteq> CHR '':'')"] by (simp only: tw assms not_False_eq_True)
  then show "t = t' \<and> u = u'" using e by simp
qed simp

lemma card_key_kinds [simp]:
  "card_cache_key t u \<noteq> pending_key c" "card_cache_key t u \<noteq> pending_list_key t' u'"
  "card_cache_key t u \<noteq> derived_count_key t' u' s k" "derived_count_key t' u' s k \<noteq> card_cache_key t u"
  by (simp_all add: card_cache_key_def pending_key_def pending_list_key_def derived_count_key_def)

definition counts_ok :: "(string \<Rightarrow> redis_val option) \<Rightarrow> bool" where
  "counts_ok f \<longleftrightarrow> (\<forall>t u s k. f (derived_count_key t u s k) = None \<or> (\<exists>n. 1 \<le> n \<and> f (derived_count_key t u s k) = Some (RCount n)))"

definition same_cards :: "(string \<Rightarrow> redis_val option) \<Rightarrow> (string \<Rightarrow> redis_val option) \<Rightarrow> bool" where
  "same_cards f g \<longleftrightarrow> (\<forall>t u. f (card_cache_key t u) = g (card_cache_key t u))"

lemma counts_ok_upd [simp]:
  "counts_ok f \<Longrightarrow> 1 \<le> n \<Longrightarrow> counts_ok (f(derived_count_key t u s k \<mapsto> RCount n))"
  by (auto simp: counts_ok_def)

lemma pending_after_counts: "counts_ok (view w) \<Longrightarrow> counts_ok (pending_after view env c slot src w)"
  by (simp add: counts_ok_def pending_after_views)

lemma pending_after_cards: "same_cards (pending_after view env c slot src w) (view w)"
  by (simp add: same_cards_def pending_after_def Let_def)

lemma detect_frame:
  assumes "redis_laws env view" and "counts_ok (view w)"
  obtains b c w' where "detect_and_handle_conflict env t u (Member sl) k new (Member so) ex w = (Inr (b, c), w')"
    "b \<longleftrightarrow> c \<noteq> None" "counts_ok (view w')" "same_cards (view w') (view w)"
proof -
  have refl: "same_cards f f" for f by (simp add: same_cards_def)
  show ?thesis
  proof (cases "\<exists>it. ex = Some it \<and> loose source_value (pi_source it) = ''user_confirmed'' \<and> so \<noteq> USER_CONFIRMED")
    case False
    then have "detect_and_handle_conflict env t u (Member sl) k new (Member so) ex w = (Inr (False, None), w)"
      by (cases so; cases ex) (auto simp: detect_and_handle_conflict_def)
    then show ?thesis using that assms(2) refl by blast
  next
    case True
    then obtain it where it: "ex = Some it" "loose source_value (pi_source it) = ''user_confirmed''" and so: "so \<noteq> USER_CONFIRMED"
      by blast
    let ?K = "derived_count_key t u (slot_value sl) k"
    consider (tool) "so = TOOL_WRITTEN" | (first) "so = DERIVED" "view w ?K = None"
      | (again) n where "so = DERIVED" "view w ?K = Some (RCount n)" "1 \<le> n"
      using so assms(2) [unfolded counts_ok_def, rule_format, of t u "slot_value sl" k] by (cases so) auto
    then show ?thesis
    proof cases
      case tool
      obtain c w' where d: "detect_and_handle_conflict env t u (Member sl) k new (Member so) (Some it) w = (Inr (True, Some c), w')"
        "view w' = pending_after view env c (slot_value sl) (source_value so) w"
        using detect_other [OF assms(1) it(2) tool] by metis
      then show ?thesis using that [of True "Some c" w'] it(1) assms(2) by (simp add: pending_after_counts pending_after_cards)
    next
      case first
      obtain c w1 w' where d: "detect_and_handle_conflict env t u (Member sl) k new (Member DERIVED) (Some it) w = (Inr (True, Some c), w')"
        "view w' = pending_after view env c (slot_value sl) ''derived'' w1" "view w1 = (view w)(?K \<mapsto> RCount 1)"
        using detect_derived_first [OF assms(1) it(2) first(2)] by metis
      have "counts_ok (view w1)" by (simp add: d(3) assms(2))
      moreover have "same_cards (view w') (view w)"
        using pending_after_cards [of view env c "slot_value sl" "''derived''" w1] by (simp add: d(2,3) same_cards_def)
      ultimately show ?thesis using that [of True "Some c" w'] d(1,2) it(1) first(1) by (simp add: pending_after_counts)
    next
      case again
      obtain w' where d: "detect_and_handle_conflict env t u (Member sl) k new (Member DERIVED) (Some it) w = (Inr (False, None), w')"
        "view w' = (view w)(?K \<mapsto> RCount (n + 1))"
        using detect_derived_again [OF assms(1) it(2) again(2,3)] by metis
      then show ?thesis using that [of False None w'] it(1) again(1,3) assms(2) by (simp add: same_cards_def)
    qed
  qed
qed

definition coherent :: "'w card_env \<Rightarrow> ('w \<Rightarrow> string \<Rightarrow> redis_val option) \<Rightarrow> 'w mem_state \<Rightarrow> bool" where
  "coherent env view s \<longleftrightarrow> rows_ok (ms_rows s) \<and> counts_ok (view (ms_world s)) \<and>
     (\<forall>t u. CHR '':'' \<notin> set t \<longrightarrow> view (ms_world s) (card_cache_key t u) = None \<or>
        view (ms_world s) (card_cache_key t u) = Some (RText (card_text env (card_items env t u (ms_rows s)))))"

text \<open>The rows of a user change and his cache entry is dropped.\<close>

lemma coherent_write:
  assumes "coherent env view s" and "rows_ok (ms_rows s')" and "other_rows t u s' = other_rows t u s"
    and "counts_ok (view (ms_world s'))" and "view (ms_world s') (card_cache_key t u) = None"
    and "\<And>t' u'. card_cache_key t' u' \<noteq> card_cache_key t u \<Longrightarrow>
      view (ms_world s') (card_cache_key t' u') = view (ms_world s) (card_cache_key t' u')"
  shows "coherent env view s'"
proof -
  have "view (ms_world s') (card_cache_key t' u') = None \<or>
      view (ms_world s') (card_cache_key t' u') = Some (RText (card_text env (card_items env t' u' (ms_rows s'))))"
    if t: "CHR '':'' \<notin> set t'" for t' u'
  proof (cases "card_cache_key t' u' = card_cache_key t u")
    case False
    then have "(t', u') \<noteq> (t, u)" by auto
    from user_rows_others [OF assms(3) [unfolded other_rows_def] this]
    have "card_items env t' u' (ms_rows s') = card_items env t' u' (ms_rows s)" by (simp add: card_items_def)
    then show ?thesis using assms(1) t assms(6) [OF False] by (simp add: coherent_def)
  qed (use assms(5) in simp)
  then show ?thesis using assms(2,4) by (simp add: coherent_def)
qed

lemma coherent_same:
  "coherent env view s \<Longrightarrow> ms_rows s' = ms_rows s \<Longrightarrow> counts_ok (view (ms_world s')) \<Longrightarrow>
   same_cards (view (ms_world s')) (view (ms_world s)) \<Longrightarrow> coherent env view s'"
  by (simp add: coherent_def same_cards_def)


lemma get_item_state [simp]: "snd (get_item t u sl k s) = s"
  by (simp add: get_item_def io_bind_run io_res_def split: option.split sum.split)

definition row_item :: "slot_type \<Rightarrow> string \<Rightarrow> source_type \<Rightarrow> profile_row \<Rightarrow> profile_item" where
  "row_item sl k so r = \<lparr>pi_slot = Member sl, pi_key = k, pi_value = pr_value r, pi_confidence = pr_confidence r,
     pi_source = Member so, pi_version = pr_version r, pi_confirmed = pr_confirmed r, pi_referenced = pr_referenced r,
     pi_created = pr_created r, pi_updated = pr_updated r, pi_id = None\<rparr>"

lemma get_item_run:
  "dget (ms_rows s) (t, u, slot_value sl, k) = None \<Longrightarrow> get_item t u (Member sl) k s = (Inr None, s)"
  "dget (ms_rows s) (t, u, slot_value sl, k) = Some r \<Longrightarrow> pr_source r = source_value so \<Longrightarrow>
     get_item t u (Member sl) k s = (Inr (Some (row_item sl k so r)), s)"
  by (simp_all add: get_item_def io_bind_run item_of_row_def row_item_def)

lemma rows_ok_source:
  assumes "rows_ok d" and "dget d (t, u, sl, k) = Some r"
  obtains so where "pr_source r = source_value so"
  using assms by (fastforce simp: rows_ok_def wf_dget_iff)

lemma get_item_cases:
  assumes "rows_ok (ms_rows s)"
  obtains (None) "dget (ms_rows s) (t, u, slot_value sl, k) = None" "get_item t u (Member sl) k s = (Inr None, s)"
  | (Some) r so where "dget (ms_rows s) (t, u, slot_value sl, k) = Some r" "pr_source r = source_value so"
      "get_item t u (Member sl) k s = (Inr (Some (row_item sl k so r)), s)"
proof (cases "dget (ms_rows s) (t, u, slot_value sl, k)")
  case None
  then show ?thesis by (intro that(1) get_item_run(1))
next
  case (Some r)
  from rows_ok_source [OF assms Some] obtain so where "pr_source r = source_value so" .
  with Some show ?thesis by (intro that(2) get_item_run(2))
qed

text \<open>The row a write leaves.\<close>

definition written_row :: "pyval \<Rightarrow> int \<Rightarrow> source_type \<Rightarrow> pyfloat \<Rightarrow> profile_row option \<Rightarrow> profile_row" where
  "written_row x conf so now old =
     (case old of
        None \<Rightarrow> \<lparr>pr_value = x, pr_confidence = conf, pr_source = source_value so, pr_version = 1,
          pr_confirmed = (if so = USER_CONFIRMED then Some now else None), pr_referenced = None, pr_created = now, pr_updated = now\<rparr>
      | Some r \<Rightarrow> r\<lparr>pr_value := x, pr_confidence := conf, pr_source := source_value so, pr_version := pr_version r + 1,
          pr_confirmed := (if so = USER_CONFIRMED then Some now else pr_confirmed r), pr_updated := now\<rparr>)"

lemma is_confirmed [simp]: "source_value so = ''user_confirmed'' \<longleftrightarrow> so = USER_CONFIRMED"
  by (cases so) simp_all

lemma written_source [simp]: "pr_source (written_row x conf so now old) = source_value so"
  by (simp add: written_row_def split: option.split)

lemma write_item_run:
  assumes "redis_laws env view" and "ce_column env (bound_value env v) = Inr x"
    and "dget (ms_rows s) (t, u, slot_value sl, k) = old" and "existing = map_option (row_item sl k so') old"
  obtains w' where
    "write_item env t u (Member sl) k v conf (Member so) now existing s =
       (Inr (True, Some (row_item sl k so (written_row x conf so now old)), None),
        s\<lparr>ms_rows := dset (t, u, slot_value sl, k) (written_row x conf so now old) (ms_rows s), ms_world := w'\<rparr>)"
    "view w' = (view (ms_world s))(card_cache_key t u := None)"
proof -
  let ?row = "written_row x conf so now old"
  let ?s1 = "s\<lparr>ms_rows := dset (t, u, slot_value sl, k) ?row (ms_rows s)\<rparr>"
  obtain w' where w': "me_delete env (card_cache_key t u) (ms_world s) = (Inr (), w')"
    "view w' = (view (ms_world s))(card_cache_key t u := None)" by (rule redis_del [OF assms(1)])
  have put: "(case existing of
        None \<Rightarrow> insert_item env t u (Member sl) k v conf (Member so) now
      | Some it \<Rightarrow> update_item env t u (Member sl) k v conf (Member so) (pi_version it + 1) now) s = (Inr (), ?s1)"
  proof (cases old)
    case None
    then show ?thesis using assms(3,4)
      by (simp add: insert_item_def io_bind_run column_def assms(2) written_row_def)
  next
    case (Some r)
    then show ?thesis using assms(3,4)
      by (simp add: update_item_def io_bind_run column_def assms(2) written_row_def row_item_def)
  qed
  have get: "get_item t u (Member sl) k (?s1\<lparr>ms_world := w'\<rparr>) = (Inr (Some (row_item sl k so ?row)), ?s1\<lparr>ms_world := w'\<rparr>)"
    by (rule get_item_run(2)) simp_all
  have inv: "invalidate_cache env t u ?s1 = (Inr (), ?s1\<lparr>ms_world := w'\<rparr>)"
    by (simp add: invalidate_cache_def on_world_run w'(1))
  show ?thesis
    by (rule that [of w']) (simp_all add: write_item_def io_bind_run put inv get w'(2))
qed

lemma write_item_refused:
  "ce_column env (bound_value env v) = Inl e \<Longrightarrow>
   write_item env t u (Member sl) k v conf (Member so) now existing s = (Inl (Ext e), s)"
  by (cases existing) (simp_all add: write_item_def insert_item_def update_item_def io_bind_run column_def)

lemma detect_none: "detect_and_handle_conflict env t u sl k v so None w = (Inr (False, None), w)"
  by (simp add: detect_and_handle_conflict_def)

text \<open>The three ways an upsert ends.\<close>

lemma upsert_run:
  assumes "redis_laws env view" and "rows_ok (ms_rows s)"
    and "dget (ms_rows s) (t, u, slot_value sl, k) = old"
    and "\<And>r. old = Some r \<Longrightarrow> pr_source r = source_value so'"
    and "detect_and_handle_conflict (base env) t u (Member sl) k v (Member so) (map_option (row_item sl k so') old) (ms_world s) =
      (Inr (b, c), w1)" and "b \<longleftrightarrow> c \<noteq> None"
  shows "upsert_item env t u (Member sl) k v conf (Member so) s =
    (case c of
       Some x \<Rightarrow> (Inr (False, map_option (row_item sl k so') old, Some (x, Option.bind old pr_confirmed)), s\<lparr>ms_world := w1\<rparr>)
     | None \<Rightarrow> write_item env t u (Member sl) k v conf (Member so) (me_clock env (ms_world s))
         (map_option (row_item sl k so') old) (s\<lparr>ms_world := w1\<rparr>))"
proof -
  have get: "get_item t u (Member sl) k s = (Inr (map_option (row_item sl k so') old), s)"
    using assms(3,4) by (cases old) (simp_all add: get_item_run)
  have det: "on_world (detect_and_handle_conflict (base env) t u (Member sl) k v (Member so) (map_option (row_item sl k so') old)) s =
      (Inr (b, c), s\<lparr>ms_world := w1\<rparr>)" by (simp add: on_world_run assms(5))
  have known: "(case old of None \<Rightarrow> None | Some x \<Rightarrow> (pi_confirmed \<circ> row_item sl k so') x) = Option.bind old pr_confirmed"
    by (cases old) (simp_all add: row_item_def)
  show ?thesis using assms(6)
    by (cases c) (simp_all add: upsert_item_def io_bind_run get det known)
qed


lemma other_rows_dset:
  "ms_rows s' = dset (t, u, sl, k) r (ms_rows s) \<Longrightarrow> other_rows t u s' = other_rows t u s"
  by (simp add: other_rows_def filter_dset_other [where P = "\<lambda>q. (fst q, fst (snd q)) \<noteq> (t, u)", simplified])

lemma other_rows_ddel:
  "ms_rows s' = ddel (t, u, sl, k) (ms_rows s) \<Longrightarrow> other_rows t u s' = other_rows t u s"
  by (simp add: other_rows_def filter_ddel_other [where P = "\<lambda>q. (fst q, fst (snd q)) \<noteq> (t, u)", simplified])

lemma counts_ok_card [simp]: "counts_ok f \<Longrightarrow> counts_ok (f(card_cache_key t u := x))"
  by (simp add: counts_ok_def)

lemma upsert_coherent:
  assumes "redis_laws env view" and "coherent env view s"
  shows "coherent env view (snd (upsert_item env t u (Member sl) k v conf (Member so) s))"
proof -
  have ok: "rows_ok (ms_rows s)" "counts_ok (view (ms_world s))" using assms(2) by (simp_all add: coherent_def)
  let ?old = "dget (ms_rows s) (t, u, slot_value sl, k)"
  obtain so' where so': "\<And>r. ?old = Some r \<Longrightarrow> pr_source r = source_value so'"
    using rows_ok_source [OF ok(1), of t u "slot_value sl" k] by (metis option.exhaust option.inject option.distinct(1))
  obtain b c w1 where d: "detect_and_handle_conflict (base env) t u (Member sl) k v (Member so)
      (map_option (row_item sl k so') ?old) (ms_world s) = (Inr (b, c), w1)"
    "b \<longleftrightarrow> c \<noteq> None" "counts_ok (view w1)" "same_cards (view w1) (view (ms_world s))"
    by (rule detect_frame [of "base env" view "ms_world s"]) (use assms(1) ok(2) in simp_all)
  note run = upsert_run [OF assms(1) ok(1) refl so' d(1,2)]
  have mid: "coherent env view (s\<lparr>ms_world := w1\<rparr>)"
    by (rule coherent_same [OF assms(2)]) (simp_all add: d(3,4))
  show ?thesis
  proof (cases c)
    case (Some x)
    then show ?thesis using run mid by simp
  next
    case None
    show ?thesis
    proof (cases "ce_column env (bound_value env v)")
      case (Inl e)
      then show ?thesis using run mid None by (simp add: write_item_refused)
    next
      case (Inr x)
      let ?row = "written_row x conf so (me_clock env (ms_world s)) ?old"
      have at: "dget (ms_rows (s\<lparr>ms_world := w1\<rparr>)) (t, u, slot_value sl, k) = ?old" by simp
      obtain w' where w': "write_item env t u (Member sl) k v conf (Member so) (me_clock env (ms_world s))
          (map_option (row_item sl k so') ?old) (s\<lparr>ms_world := w1\<rparr>) =
        (Inr (True, Some (row_item sl k so ?row), None),
         (s\<lparr>ms_world := w1\<rparr>)\<lparr>ms_rows := dset (t, u, slot_value sl, k) ?row (ms_rows (s\<lparr>ms_world := w1\<rparr>)), ms_world := w'\<rparr>)"
        "view w' = (view (ms_world (s\<lparr>ms_world := w1\<rparr>)))(card_cache_key t u := None)"
        by (rule write_item_run [OF assms(1) Inr at refl])
      have "coherent env view (s\<lparr>ms_rows := dset (t, u, slot_value sl, k) ?row (ms_rows s), ms_world := w'\<rparr>)"
        by (rule coherent_write [OF mid, of _ t u])
          (simp_all add: rows_ok_dset [OF ok(1) written_source] other_rows_dset [of _ t u "slot_value sl" k ?row "s\<lparr>ms_world := w1\<rparr>"] w'(2) d(3))
      then show ?thesis using run None w'(1) by simp
    qed
  qed
qed

lemma delete_item_run:
  assumes "redis_laws env view"
  obtains w' where "delete_item env t u (Member sl) k s =
      (Inr (dget (ms_rows s) (t, u, slot_value sl, k) \<noteq> None),
       s\<lparr>ms_rows := ddel (t, u, slot_value sl, k) (ms_rows s), ms_world := w'\<rparr>)"
    "view w' = (view (ms_world s))(card_cache_key t u := None)"
proof -
  obtain w' where w': "me_delete env (card_cache_key t u) (ms_world s) = (Inr (), w')"
    "view w' = (view (ms_world s))(card_cache_key t u := None)" by (rule redis_del [OF assms(1)])
  show ?thesis
    by (rule that [of w']) (simp_all add: delete_item_def io_bind_run invalidate_cache_def on_world_run w')
qed

lemma delete_coherent:
  assumes "redis_laws env view" and "coherent env view s"
  shows "coherent env view (snd (delete_item env t u (Member sl) k s))"
proof -
  obtain w' where d: "delete_item env t u (Member sl) k s =
      (Inr (dget (ms_rows s) (t, u, slot_value sl, k) \<noteq> None),
       s\<lparr>ms_rows := ddel (t, u, slot_value sl, k) (ms_rows s), ms_world := w'\<rparr>)"
    "view w' = (view (ms_world s))(card_cache_key t u := None)"
    by (rule delete_item_run [OF assms(1)])
  have ok: "rows_ok (ms_rows s)" "counts_ok (view (ms_world s))" using assms(2) by (simp_all add: coherent_def)
  have "coherent env view (s\<lparr>ms_rows := ddel (t, u, slot_value sl, k) (ms_rows s), ms_world := w'\<rparr>)"
    by (rule coherent_write [OF assms(2), of _ t u])
      (simp_all add: ddel_filter rows_ok_filter [OF ok(1)] d(2) ok(2) other_rows_ddel [of _ t u "slot_value sl" k, unfolded ddel_filter])
  then show ?thesis by (simp add: d(1))
qed

text \<open>What a read gives.\<close>

lemma fetch_run:
  assumes "rows_ok (ms_rows s)"
  shows "fetch_from_db env t u s = (Inr (card_items env t u (ms_rows s)), s)"
proof -
  obtain items where "map_res (\<lambda>((t, u, s, k), r). item_of_row s k r) (user_rows t u (ms_rows s)) = Inr items"
    using rows_ok_fetch [OF assms] by blast
  then show ?thesis by (simp add: fetch_from_db_def card_items_def)
qed

lemma read_run:
  assumes "redis_laws env view" and "json_laws env" and "coherent env view s" and "CHR '':'' \<notin> set t"
  obtains items w' where "get_profile env t u s = (Inr items, s\<lparr>ms_world := w'\<rparr>)"
    "map item_to_dict items = map item_to_dict (card_items env t u (ms_rows s))"
    "coherent env view (s\<lparr>ms_world := w'\<rparr>)"
proof (cases "view (ms_world s) (card_cache_key t u)")
  case None
  have ok: "rows_ok (ms_rows s)" "counts_ok (view (ms_world s))" using assms(3) by (simp_all add: coherent_def)
  let ?items = "card_items env t u (ms_rows s)"
  have get: "on_world (me_get env (card_cache_key t u)) s = (Inr None, s)"
    by (simp add: on_world_run redis_get(1) [OF assms(1) None])
  show ?thesis
  proof (cases "?items = []")
    case True
    then have "get_profile env t u s = (Inr [], s\<lparr>ms_world := ms_world s\<rparr>)"
      by (simp add: get_profile_def io_bind_run get fetch_and_fill_def fetch_run [OF ok(1)] fill_cache_def)
    then show ?thesis using that [of "[]" "ms_world s"] True assms(3) by simp
  next
    case False
    obtain w' where w': "me_setex env (card_cache_key t u) cache_ttl (card_text env ?items) (ms_world s) = (Inr (), w')"
      "view w' = (view (ms_world s))(card_cache_key t u \<mapsto> RText (card_text env ?items))"
      by (rule redis_put [OF assms(1)])
    have fill: "fill_cache env (card_cache_key t u) ?items s = (Inr (), s\<lparr>ms_world := w'\<rparr>)"
      using w'(1) by (simp add: fill_cache_def False io_try_run on_world_run card_text_def)
    have "get_profile env t u s = (Inr ?items, s\<lparr>ms_world := w'\<rparr>)"
      by (simp add: get_profile_def io_bind_run get fetch_and_fill_def fetch_run [OF ok(1)] fill)
    moreover have "coherent env view (s\<lparr>ms_world := w'\<rparr>)"
      using assms(3,4) by (auto simp: coherent_def w'(2) card_key_inj)
    ultimately show ?thesis using that by blast
  qed
next
  case (Some x)
  then have x: "view (ms_world s) (card_cache_key t u) = Some (RText (card_text env (card_items env t u (ms_rows s))))"
    using assms(3,4) unfolding coherent_def by (metis option.distinct(1))
  have get: "on_world (me_get env (card_cache_key t u)) s = (Inr (Some (card_text env (card_items env t u (ms_rows s)))), s)"
    by (simp add: on_world_run redis_get(2) [OF assms(1) x])
  have ne: "card_text env (card_items env t u (ms_rows s)) \<noteq> []" using assms(2) by (simp add: card_text_def json_laws_def)
  have "get_profile env t u s = (Inr (map cached_form (card_items env t u (ms_rows s))), s\<lparr>ms_world := ms_world s\<rparr>)"
    by (simp add: get_profile_def io_bind_run get ne decode_card_text [OF assms(2)])
  then show ?thesis using that [of _ "ms_world s"] assms(3) by (simp add: comp_def)
qed


definition empty_state :: "'w \<Rightarrow> 'w mem_state" where
  "empty_state w = \<lparr>ms_rows = [], ms_world = w\<rparr>"

lemma coherent_empty: "view w = (\<lambda>k. None) \<Longrightarrow> coherent env view (empty_state w)"
  by (simp add: coherent_def empty_state_def rows_ok_def counts_ok_def)

lemma coherent_run:
  assumes "redis_laws env view" and "json_laws env" and "coherent env view s"
    and "\<forall>op \<in> set ops. CHR '':'' \<notin> set (op_tenant op)"
  shows "coherent env view (foldl (card_step env) s ops)"
  using assms(3,4)
proof (induction ops arbitrary: s)
  case (Cons op ops)
  have "coherent env view (card_step env s op)"
  proof (cases op)
    case (Upsert t u sl k v c so)
    then show ?thesis using upsert_coherent [OF assms(1) Cons.prems(1)] by simp
  next
    case (Delete t u sl k)
    then show ?thesis using delete_coherent [OF assms(1) Cons.prems(1)] by simp
  next
    case (Read t u)
    then have "CHR '':'' \<notin> set t" using Cons.prems(2) by simp
    from read_run [OF assms(1,2) Cons.prems(1) this, of u] show ?thesis using Read by (metis card_step.simps(3) snd_conv)
  qed
  then show ?case using Cons.IH Cons.prems(2) by simp
qed simp

text \<open>The instance of the Redis commands, with a column that takes every value but the listed texts.\<close>

definition map_cards :: "string list \<Rightarrow> redis_map card_env" where
  "map_cards bad = mem_env.extend map_redis
     \<lparr>ce_column = (\<lambda>v. if v \<in> PStr ` set bad then Inl ''invalid input syntax for type json'' else Inr v), ce_sort = (\<lambda>xs. xs)\<rparr>"

lemma map_cards_sel [simp]:
  "ce_column (map_cards bad) v = (if v \<in> PStr ` set bad then Inl ''invalid input syntax for type json'' else Inr v)"
  "ce_sort (map_cards bad) xs = xs" "me_clock (map_cards bad) w = 100"
  "me_dumps (map_cards bad) = me_dumps map_redis" "me_loads (map_cards bad) = me_loads map_redis"
  by (simp_all add: map_cards_def mem_env.defs map_redis_def)

lemma map_cards_laws: "redis_laws (map_cards bad) (\<lambda>w. w)" "json_laws (map_cards bad)"
proof -
  have "mem_env.truncate (map_cards bad) = map_redis" by (simp add: map_cards_def mem_env.defs)
  then show "redis_laws (map_cards bad) (\<lambda>w. w)" "json_laws (map_cards bad)"
    using map_redis_laws map_redis_json base_laws [of "map_cards bad"] by metis+
qed

section \<open>Properties of the card\<close>



text \<open>Operations of one user leave the items of all other users as they are, whatever Redis and the
  database answer.\<close>

theorem cards_are_isolated:
  assumes "(op_tenant op, op_user op) \<noteq> (t, u)"
  shows "user_rows t u (ms_rows (card_step env s op)) = user_rows t u (ms_rows s)"
proof -
  have "other_rows (op_tenant op) (op_user op) (card_step env s op) = other_rows (op_tenant op) (op_user op) s"
  proof (cases op)
    case (Read t' u')
    have "keeps (other_rows t' u') (get_profile env t' u')" by (rule keeps_rows_profile) (simp add: other_rows_def)
    then show ?thesis by (simp add: Read keeps_def)
  qed (simp_all add: keeps_others_upsert [unfolded keeps_def, rule_format] keeps_others_delete [unfolded keeps_def, rule_format])
  then show ?thesis unfolding other_rows_def by (rule user_rows_others) (rule assms [symmetric])
qed

text \<open>A write that does not have to wait for the user takes effect: the row holds the new value, its version
  is one or one more than before, the time of confirmation is set by a confirmed write and otherwise kept,
  the result is the item, and no other row changes.\<close>

theorem free_write_takes_effect:
  assumes "redis_laws env view" and "rows_ok (ms_rows s)" and "ce_column env (bound_value env v) = Inr x"
    and "dget (ms_rows s) (t, u, slot_value sl, k) = old"
    and "so = USER_CONFIRMED \<or> (\<forall>r. old = Some r \<longrightarrow> pr_source r \<noteq> ''user_confirmed'')"
  shows "let row = written_row x conf so (me_clock env (ms_world s)) old; r = upsert_item env t u (Member sl) k v conf (Member so) s
    in fst r = Inr (True, Some (row_item sl k so row), None) \<and>
      ms_rows (snd r) = dset (t, u, slot_value sl, k) row (ms_rows s)"
proof -
  obtain so' where so': "\<And>r. old = Some r \<Longrightarrow> pr_source r = source_value so'"
    using rows_ok_source [OF assms(2), of t u "slot_value sl" k] assms(4) by (metis option.exhaust option.inject option.distinct(1))
  have "detect_and_handle_conflict (base env) t u (Member sl) k v (Member so) (map_option (row_item sl k so') old) (ms_world s) =
      (Inr (False, None), ms_world s)"
    using assms(5) so' by (cases old) (auto simp: detect_and_handle_conflict_def row_item_def)
  note run = upsert_run [OF assms(1,2,4) so' this, simplified]
  obtain w' where "write_item env t u (Member sl) k v conf (Member so) (me_clock env (ms_world s)) (map_option (row_item sl k so') old) s =
      (Inr (True, Some (row_item sl k so (written_row x conf so (me_clock env (ms_world s)) old)), None),
       s\<lparr>ms_rows := dset (t, u, slot_value sl, k) (written_row x conf so (me_clock env (ms_world s)) old) (ms_rows s), ms_world := w'\<rparr>)"
    by (rule write_item_run [OF assms(1,3,4) refl])
  then show ?thesis by (simp add: run Let_def)
qed


theorem cards_are_isolated_witness:
  "user_rows ''acme'' ''bob'' (ms_rows (card_step (map_cards []) (empty_state (\<lambda>k. None)) (Delete ''acme'' ''ann'' FACT ''city''))) = []"
proof -
  have "user_rows ''acme'' ''bob'' (ms_rows (card_step (map_cards []) (empty_state (\<lambda>k. None)) (Delete ''acme'' ''ann'' FACT ''city''))) =
      user_rows ''acme'' ''bob'' (ms_rows (empty_state (\<lambda>k :: string. None :: redis_val option)))"
    by (rule cards_are_isolated) simp
  then show ?thesis by (simp add: empty_state_def user_rows_def)
qed

theorem free_write_takes_effect_witness:
  "fst (upsert_item (map_cards []) ''acme'' ''ann'' (Member FACT) ''city'' (PStr ''Bonn'') 80 (Member DERIVED) (empty_state (\<lambda>k. None))) =
     Inr (True, Some (row_item FACT ''city'' DERIVED (written_row (PStr ''Bonn'') 80 DERIVED 100 None)), None)"
proof -
  have c: "ce_column (map_cards []) (bound_value (map_cards []) (PStr ''Bonn'')) = Inr (PStr ''Bonn'')"
    by (simp add: bound_value_def)
  have r: "rows_ok (ms_rows (empty_state (\<lambda>k. None :: redis_val option)))" by (simp add: empty_state_def rows_ok_def)
  have g: "dget (ms_rows (empty_state (\<lambda>k. None :: redis_val option))) (''acme'', ''ann'', slot_value FACT, ''city'') = None"
    by (simp add: empty_state_def)
  show ?thesis using free_write_takes_effect [OF map_cards_laws(1) r c g, of DERIVED 80] by (simp add: Let_def)
qed

text \<open>C20: A write that has to wait changes no item: a value that a tool writes, or that was derived for the first
  time, to an item the user has confirmed, gives the item as it is and a conflict with both values.\<close>

theorem confirmed_item_is_held:
  assumes "redis_laws env view" and "rows_ok (ms_rows s)"
    and "dget (ms_rows s) (t, u, slot_value sl, k) = Some r" and "pr_source r = ''user_confirmed''"
    and "so = TOOL_WRITTEN \<or> so = DERIVED \<and> view (ms_world s) (derived_count_key t u (slot_value sl) k) = None"
  shows "\<exists>c s'. upsert_item env t u (Member sl) k v conf (Member so) s =
      (Inr (False, Some (row_item sl k USER_CONFIRMED r), Some (c, pr_confirmed r)), s') \<and>
    cf_old c = pr_value r \<and> cf_new c = v \<and> ms_rows s' = ms_rows s"
proof -
  let ?it = "row_item sl k USER_CONFIRMED r"
  have conf: "loose source_value (pi_source ?it) = ''user_confirmed''" by (simp add: row_item_def)
  have src: "pr_source r' = source_value USER_CONFIRMED" if "Some r = Some r'" for r' using that assms(4) by simp
  obtain c w' where d: "detect_and_handle_conflict (base env) t u (Member sl) k v (Member so) (Some ?it) (ms_world s) = (Inr (True, Some c), w')"
    "cf_old c = pi_value ?it" "cf_new c = v"
    using assms(5)
  proof (elim disjE conjE)
    assume so: "so = TOOL_WRITTEN"
    show ?thesis by (rule detect_other [of "base env" view ?it so t u sl k v "ms_world s"]) (use assms(1) conf so that in simp_all)
  next
    assume so: "so = DERIVED" and n: "view (ms_world s) (derived_count_key t u (slot_value sl) k) = None"
    show ?thesis by (rule detect_derived_first [of "base env" view ?it "ms_world s" t u sl k v]) (use assms(1) conf so n that in simp_all)
  qed
  have "upsert_item env t u (Member sl) k v conf (Member so) s =
      (Inr (False, Some ?it, Some (c, pr_confirmed r)), s\<lparr>ms_world := w'\<rparr>)"
    using upsert_run [OF assms(1,2,3) src, of v so True "Some c" w'] d(1) by simp
  then show ?thesis using d(2,3) by (simp add: row_item_def)
qed


definition confirmed_state :: "redis_map mem_state" where
  "confirmed_state = \<lparr>ms_rows = [((''acme'', ''ann'', ''fact'', ''city''), written_row (PStr ''Bonn'') 80 USER_CONFIRMED 5 None)],
     ms_world = (\<lambda>k. None)\<rparr>"

lemma confirmed_state_ok: "rows_ok (ms_rows confirmed_state)"
proof -
  have "''fact'' \<in> range slot_value" "''user_confirmed'' \<in> range source_value"
    by (auto simp: image_iff intro: exI [of _ FACT] exI [of _ USER_CONFIRMED])
  then show ?thesis by (simp add: rows_ok_def confirmed_state_def wf_dict_def)
qed

theorem confirmed_item_is_held_witness:
  "ms_rows (snd (upsert_item (map_cards []) ''acme'' ''ann'' (Member FACT) ''city'' (PStr ''Rome'') 60 (Member TOOL_WRITTEN) confirmed_state)) =
     ms_rows confirmed_state"
proof -
  have g: "dget (ms_rows confirmed_state) (''acme'', ''ann'', slot_value FACT, ''city'') =
      Some (written_row (PStr ''Bonn'') 80 USER_CONFIRMED 5 None)" by (simp add: confirmed_state_def)
  have "pr_source (written_row (PStr ''Bonn'') 80 USER_CONFIRMED 5 None) = ''user_confirmed''" by simp
  from confirmed_item_is_held [OF map_cards_laws(1) [of "[]"] confirmed_state_ok g this, of TOOL_WRITTEN "PStr ''Rome''" 60]
  show ?thesis by auto
qed

text \<open>No operation ever sets the time of the last reference.\<close>

definition unreferenced :: "'w mem_state \<Rightarrow> bool" where
  "unreferenced s \<longleftrightarrow> (\<forall>e \<in> set (ms_rows s). pr_referenced (snd e) = None)"

lemma unreferenced_world [simp]: "unreferenced (s\<lparr>ms_world := w\<rparr>) = unreferenced s"
  by (simp add: unreferenced_def)

lemma unreferenced_keeps: "keeps ms_rows m \<Longrightarrow> preserves unreferenced m"
  using keeps_preserves [of ms_rows m "\<lambda>d. \<forall>e \<in> set d. pr_referenced (snd e) = None"]
  by (simp add: unreferenced_def [abs_def])

lemma unreferenced_on_world: "preserves unreferenced (on_world m)"
  by (simp add: preserves_def on_world_run)

lemma unreferenced_upsert: "preserves unreferenced (upsert_item env t u sl k v conf so)"
proof -
  have upd: "preserves unreferenced (update_item env t u sl k v conf so n now)" for n now
    unfolding update_item_def
    by (intro preserves_bind unreferenced_keeps [OF keeps_column])
      (use set_dset in \<open>fastforce simp: preserves_def unreferenced_def dest: map_of_SomeD split: option.split\<close>)
  have ins: "preserves unreferenced (insert_item env t u sl k v conf so now)" for now
    unfolding insert_item_def
    by (intro preserves_bind unreferenced_keeps [OF keeps_column] unreferenced_keeps [OF keeps_get])
      (use set_dset in \<open>fastforce simp: preserves_def unreferenced_def\<close>)
  show ?thesis
    unfolding upsert_item_def write_item_def invalidate_cache_def
    by (intro preserves_bind unreferenced_keeps [OF keeps_get_item] unreferenced_keeps [OF keeps_get] unreferenced_on_world)
      (auto split: prod.split bool.split option.split intro!: preserves_bind upd ins unreferenced_on_world
        unreferenced_keeps [OF keeps_get_item] unreferenced_keeps [OF keeps_return])
qed

lemma unreferenced_step: "unreferenced s \<Longrightarrow> unreferenced (card_step env s op)"
proof (cases op)
  case (Upsert t u sl k v c so)
  then show "unreferenced s \<Longrightarrow> ?thesis" using unreferenced_upsert [unfolded preserves_def, rule_format] by auto
next
  case (Delete t u sl k)
  have "preserves unreferenced (delete_item env t u (Member sl) k)"
    unfolding delete_item_def invalidate_cache_def
    by (intro preserves_bind unreferenced_keeps [OF keeps_res] unreferenced_keeps [OF keeps_get] unreferenced_on_world
        unreferenced_keeps [OF keeps_return]) (simp add: preserves_def unreferenced_def ddel_filter)
  then show "unreferenced s \<Longrightarrow> ?thesis" using Delete by (auto simp: preserves_def)
next
  case (Read t u)
  have "keeps ms_rows (get_profile env t u)" by (rule keeps_rows_profile) simp
  then show "unreferenced s \<Longrightarrow> ?thesis" using Read by (auto simp: keeps_def unreferenced_def)
qed

text \<open>Nothing records when an item was last used, so the archive removes every unconfirmed item of low
  confidence, however young, instead of those that were not used for half a year.\<close>

theorem archive_ignores_age:
  "let s = foldl (card_step env) (empty_state w) ops
   in ms_rows (snd (archive_low_confidence env s)) =
     filter (\<lambda>(k, r). \<not> (pr_confidence r < 50 \<and> pr_source r \<noteq> ''user_confirmed'')) (ms_rows s)"
proof -
  have "unreferenced s \<Longrightarrow> unreferenced (foldl (card_step env) s ops)" for s
    by (induction ops arbitrary: s) (simp_all add: unreferenced_step)
  from this [of "empty_state w"] have "unreferenced (foldl (card_step env) (empty_state w) ops)"
    by (simp add: unreferenced_def empty_state_def)
  then have "stale th r \<longleftrightarrow> pr_confidence r < 50 \<and> pr_source r \<noteq> ''user_confirmed''"
    if "(k, r) \<in> set (ms_rows (foldl (card_step env) (empty_state w) ops))" for th k r
    using that by (auto simp: unreferenced_def stale_def)
  then show ?thesis by (auto simp: archive_low_confidence_def io_bind_run Let_def intro!: filter_cong)
qed

theorem eviction_bounds_cards_witness:
  "int (length (filter (evictable ''acme'' ''ann'') (ms_rows (snd (evict_over_limit (map_cards []) None confirmed_state))))) \<le> 200 \<and>
     filter (\<lambda>(k, r). pr_source r = ''user_confirmed'') (ms_rows (snd (evict_over_limit (map_cards []) None confirmed_state))) =
     ms_rows confirmed_state"
proof -
  have wf: "wf_dict (ms_rows confirmed_state)" using confirmed_state_ok by (simp add: rows_ok_def)
  show ?thesis using eviction_bounds_cards [OF wf, of "''acme''" "''ann''" "map_cards []"] by (simp add: confirmed_state_def)
qed

section \<open>The form of the table\<close>

definition row_typed :: "row_key \<times> profile_row \<Rightarrow> bool" where
  "row_typed e \<longleftrightarrow> (case e of ((t, u, s, k), r) \<Rightarrow> s \<in> range slot_value \<and> pr_source r \<in> range source_value \<and> 1 \<le> pr_version r \<and>
     (pr_source r = ''user_confirmed'' \<longrightarrow> pr_confirmed r \<noteq> None))"

definition table_typed :: "(row_key, profile_row) dict \<Rightarrow> bool" where
  "table_typed d \<longleftrightarrow> wf_dict d \<and> list_all row_typed d"

lemma upsert_rows:
  assumes "redis_laws env view" and "coherent env view s"
  shows "ms_rows (snd (upsert_item env t u (Member sl) k v conf (Member so) s)) = ms_rows s \<or>
    (\<exists>x now. ms_rows (snd (upsert_item env t u (Member sl) k v conf (Member so) s)) =
      dset (t, u, slot_value sl, k) (written_row x conf so now (dget (ms_rows s) (t, u, slot_value sl, k))) (ms_rows s))"
proof -
  have ok: "rows_ok (ms_rows s)" "counts_ok (view (ms_world s))" using assms(2) by (simp_all add: coherent_def)
  let ?old = "dget (ms_rows s) (t, u, slot_value sl, k)"
  obtain so' where so': "\<And>r. ?old = Some r \<Longrightarrow> pr_source r = source_value so'"
    using rows_ok_source [OF ok(1), of t u "slot_value sl" k] by (metis option.exhaust option.inject option.distinct(1))
  obtain b c w1 where d: "detect_and_handle_conflict (base env) t u (Member sl) k v (Member so)
      (map_option (row_item sl k so') ?old) (ms_world s) = (Inr (b, c), w1)" "b \<longleftrightarrow> c \<noteq> None"
    by (rule detect_frame [of "base env" view "ms_world s"]) (use assms(1) ok(2) in simp_all)
  note run = upsert_run [OF assms(1) ok(1) refl so' d]
  show ?thesis
  proof (cases "c \<noteq> None \<or> (\<exists>e. ce_column env (bound_value env v) = Inl e)")
    case True
    then show ?thesis using run by (cases c) (auto simp: write_item_refused)
  next
    case False
    then obtain x where x: "ce_column env (bound_value env v) = Inr x" and c: "c = None"
      by (cases "ce_column env (bound_value env v)") auto
    have at: "dget (ms_rows (s\<lparr>ms_world := w1\<rparr>)) (t, u, slot_value sl, k) = ?old" by simp
    obtain w' where "write_item env t u (Member sl) k v conf (Member so) (me_clock env (ms_world s))
        (map_option (row_item sl k so') ?old) (s\<lparr>ms_world := w1\<rparr>) =
      (Inr (True, Some (row_item sl k so (written_row x conf so (me_clock env (ms_world s)) ?old)), None),
       (s\<lparr>ms_world := w1\<rparr>)\<lparr>ms_rows := dset (t, u, slot_value sl, k) (written_row x conf so (me_clock env (ms_world s)) ?old)
          (ms_rows (s\<lparr>ms_world := w1\<rparr>)), ms_world := w'\<rparr>)"
      by (rule write_item_run [OF assms(1) x at refl])
    then show ?thesis using run c by auto
  qed
qed

lemma written_typed:
  assumes "table_typed d"
  shows "row_typed ((t, u, slot_value sl, k), written_row x conf so now (dget d (t, u, slot_value sl, k)))"
proof (cases "dget d (t, u, slot_value sl, k)")
  case (Some r)
  then have "row_typed ((t, u, slot_value sl, k), r)" using assms by (auto simp: table_typed_def wf_dget_iff list_all_iff)
  then show ?thesis by (simp add: row_typed_def written_row_def Some)
qed (simp add: row_typed_def written_row_def)

lemma table_typed_dset: "table_typed d \<Longrightarrow> row_typed (key, r) \<Longrightarrow> table_typed (dset key r d)"
  using set_dset [of key r d] by (auto simp: table_typed_def list_all_iff)

lemma table_typed_step:
  assumes "redis_laws env view" and "coherent env view s" and "table_typed (ms_rows s)"
  shows "table_typed (ms_rows (card_step env s op))"
proof (cases op)
  case (Upsert t u sl k v c so)
  from upsert_rows [OF assms(1,2)] show ?thesis
    using Upsert assms(3) table_typed_dset [OF assms(3) written_typed [OF assms(3)]] by (metis card_step.simps(1))
next
  case (Delete t u sl k)
  obtain w' where "delete_item env t u (Member sl) k s =
      (Inr (dget (ms_rows s) (t, u, slot_value sl, k) \<noteq> None), s\<lparr>ms_rows := ddel (t, u, slot_value sl, k) (ms_rows s), ms_world := w'\<rparr>)"
    by (rule delete_item_run [OF assms(1)])
  then show ?thesis using Delete assms(3) by (auto simp: table_typed_def ddel_filter wf_dict_def distinct_map_filter list_all_iff)
next
  case (Read t u)
  have "keeps ms_rows (get_profile env t u)" by (rule keeps_rows_profile) simp
  then show ?thesis using Read assms(3) by (simp add: keeps_def)
qed

text \<open>C39: Whatever users write, delete and read, the table keeps its form: one row for an item, slots and sources of the
  enumerations, versions that count from one, and a time of confirmation for every confirmed item.\<close>

theorem table_stays_typed:
  assumes "redis_laws env view" and "json_laws env" and "view w = (\<lambda>k. None)"
    and "\<forall>op \<in> set ops. CHR '':'' \<notin> set (op_tenant op)"
  shows "table_typed (ms_rows (foldl (card_step env) (empty_state w) ops))"
proof -
  have "table_typed (ms_rows (foldl (card_step env) s ops))" if "coherent env view s" "table_typed (ms_rows s)" for s
    using assms(4) that
  proof (induction ops arbitrary: s)
    case (Cons op ops)
    have "coherent env view (card_step env s op)"
      using coherent_run [OF assms(1,2) Cons.prems(2), of "[op]"] Cons.prems(1) by simp
    then show ?case using Cons table_typed_step [OF assms(1) Cons.prems(2,3)] by simp
  qed simp
  moreover have "coherent env view (empty_state w)" by (rule coherent_empty) (rule assms(3))
  ultimately show ?thesis by (simp add: table_typed_def empty_state_def wf_dict_def)
qed

theorem table_stays_typed_witness:
  "table_typed (ms_rows (foldl (card_step (map_cards [])) (empty_state (\<lambda>k. None))
     [Upsert ''acme'' ''ann'' FACT ''city'' (PStr ''Bonn'') 80 USER_CONFIRMED, Upsert ''acme'' ''ann'' FACT ''city'' (PStr ''Rome'') 60 DERIVED]))"
  by (rule table_stays_typed [OF map_cards_laws, where w = "\<lambda>k. None"]) simp_all

section \<open>Isolation over a history\<close>

definition row_owner :: "row_key \<times> profile_row \<Rightarrow> string \<times> string" where
  "row_owner e = (fst (fst e), fst (snd (fst e)))"

definition card_actor :: "card_op \<Rightarrow> string \<times> string" where
  "card_actor op = (op_tenant op, op_user op)"

lemma user_rows_owner: "user_rows t u d = filter (\<lambda>e. row_owner e = (t, u)) d"
  unfolding user_rows_def by (rule filter_cong [OF refl]) (auto simp: row_owner_def split: prod.splits)

interpretation cards: tenant_store ms_rows row_owner "card_step env" card_actor for env
proof (unfold_locales, goal_cases)
  case (1 op p s)
  obtain t u where p: "p = (t, u)" by (cases p)
  have "user_rows t u (ms_rows (card_step env s op)) = user_rows t u (ms_rows s)"
    by (rule cards_are_isolated) (use 1 p in \<open>simp add: card_actor_def\<close>)
  then show ?case by (simp only: user_rows_owner p)
qed

text \<open>However others write, delete and read, and whatever Redis and the database answer them, the items of a user
  who does nothing stay as they are, and only users who acted have items.\<close>

theorem cards_stay_isolated:
  assumes "(t, u) \<notin> card_actor ` set ops"
  shows "user_rows t u (ms_rows (foldl (card_step env) s ops)) = user_rows t u (ms_rows s) \<and>
    (\<forall>e \<in> set (ms_rows (foldl (card_step env) (empty_state w) ops)). row_owner e \<in> card_actor ` set ops)"
  using cards.untouched [OF assms, of env s] cards.owners [of _ env "empty_state w" ops]
  by (simp add: user_rows_owner empty_state_def)

theorem cards_stay_isolated_witness:
  "user_rows ''acme'' ''ann'' (ms_rows (foldl (card_step (map_cards [])) confirmed_state
     [Delete ''acme'' ''bob'' FACT ''city'', Upsert ''umbra'' ''ann'' FACT ''city'' (PStr ''Rome'') 90 USER_CONFIRMED])) =
   user_rows ''acme'' ''ann'' (ms_rows confirmed_state)"
proof -
  have "(''acme'', ''ann'') \<notin> card_actor ` set [Delete ''acme'' ''bob'' FACT ''city'', Upsert ''umbra'' ''ann'' FACT ''city'' (PStr ''Rome'') 90 USER_CONFIRMED]"
    by (simp add: card_actor_def)
  from cards_stay_isolated [OF this, of "map_cards []" confirmed_state] show ?thesis by blast
qed

end
