(* ===== verification/Summaries.thy ===== *)
theory Summaries
  imports Conflicts
begin

text \<open>
  The summaries of conversations, \<^verbatim>\<open>app/memory/summary_store.py\<close> and \<^verbatim>\<open>app/memory/consolidator.py\<close>: a
  table with a unique content hash per user, a vector index, query results and embeddings cached in
  Redis, ranking by recency, use and similarity under a budget of characters, and the consolidation
  of messages into a summary. The vector index, the embedding function, SHA-256, \<^verbatim>\<open>log1p\<close>, the
  summariser and the extraction of entities and topics by regular expressions are arguments; the
  table is part of the state.
\<close>

section \<open>State\<close>

record summary_row =
  su_id :: string
  su_tenant :: string
  su_user :: string
  su_session :: string
  su_content :: string
  su_topics :: string
  su_entities :: string
  su_from :: int
  su_to :: int
  su_hash :: string
  su_access :: int
  su_last :: "pyfloat option"
  su_status :: string
  su_created :: pyfloat

record 'w sum_state =
  st_rows :: "summary_row list"
  st_world :: 'w

text \<open>\<open>RecalledItem\<close>.\<close>

record recalled_item =
  re_id :: string
  re_content :: string
  re_topics :: pyval
  re_entities :: pyval
  re_range :: pyval
  re_session :: pyval
  re_access :: int
  re_last :: pyfloat
  re_created :: pyfloat
  re_score :: pyfloat

text \<open>A hit of the vector index: identifier, content, metadata and creation time as texts, the similarity.\<close>

type_synonym hit = "string \<times> string \<times> string \<times> string \<times> pyfloat"

record 'w sum_env = "'w mem_env" +
  se_embed :: "(string \<Rightarrow> ('w, pyval) io) option"
  se_index :: bool
  se_search :: "string \<Rightarrow> string \<Rightarrow> pyval \<Rightarrow> int \<Rightarrow> ('w, hit list) io"
  se_insert :: "summary_row \<Rightarrow> pyval \<Rightarrow> ('w, unit) io"
  se_scan :: "string \<Rightarrow> ('w, string list) io"
  se_sha :: "string \<Rightarrow> string"
  se_log1p :: "int \<Rightarrow> pyfloat"
  se_float :: "string \<Rightarrow> string + pyfloat"

definition in_world :: "('w, 'a) io \<Rightarrow> ('w sum_state, 'a) io" where
  "in_world = io_on st_world (\<lambda>w s. s\<lparr>st_world := w\<rparr>)"

definition in_rows :: "(summary_row list \<Rightarrow> summary_row list) \<Rightarrow> ('w sum_state, unit) io" where
  "in_rows f = io_modify (\<lambda>s. s\<lparr>st_rows := f (st_rows s)\<rparr>)"

definition query_cache_ttl :: int where
  "query_cache_ttl = 300"

definition embedding_cache_ttl :: int where
  "embedding_cache_ttl = 1800"

definition token_budget_l3 :: int where
  "token_budget_l3 = 6000"

definition query_cache_key :: "'w sum_env \<Rightarrow> string \<Rightarrow> string \<Rightarrow> string \<Rightarrow> string" where
  "query_cache_key env tenant user q = ''memory:l3:query:'' @ take 16 (se_sha env (tenant @ '':'' @ user @ '':'' @ q))"

definition embedding_cache_key :: "'w sum_env \<Rightarrow> string \<Rightarrow> string" where
  "embedding_cache_key env q = ''memory:l3:embed:'' @ take 16 (se_sha env q)"

section \<open>Embeddings\<close>

definition make_embedding :: "'w sum_env \<Rightarrow> (string \<Rightarrow> ('w, pyval) io) \<Rightarrow> string \<Rightarrow> ('w sum_state, pyval) io" where
  "make_embedding env fn q =
     io_try (io_bind (in_world (fn q)) (\<lambda>e.
               if truthy e
               then io_bind (in_world (me_setex env (embedding_cache_key env q) embedding_cache_ttl (me_dumps env e))) (\<lambda>_. io_return e)
               else io_return e))
       (\<lambda>x. io_return PNone)"

definition get_embedding :: "'w sum_env \<Rightarrow> string \<Rightarrow> ('w sum_state, pyval) io" where
  "get_embedding env q =
     (case se_embed env of
        None \<Rightarrow> io_return PNone
      | Some fn \<Rightarrow>
          io_bind (in_world (me_get env (embedding_cache_key env q))) (\<lambda>cached.
            case cached of
              None \<Rightarrow> make_embedding env fn q
            | Some s \<Rightarrow>
                (if s = [] then make_embedding env fn q
                 else case me_loads env s of Inl e \<Rightarrow> make_embedding env fn q | Inr v \<Rightarrow> io_return v)))"

section \<open>The query cache\<close>

definition recalled_dict :: "recalled_item \<Rightarrow> pydict" where
  "recalled_dict it =
     [(''id'', PStr (re_id it)), (''content'', PStr (re_content it)), (''topics'', re_topics it), (''entities'', re_entities it),
      (''turn_range'', re_range it), (''session_id'', re_session it), (''access_count'', PInt (re_access it)),
      (''last_accessed_at'', PFloat (re_last it)), (''created_at'', PFloat (re_created it)), (''score'', PFloat (re_score it))]"

definition recalled_fields :: "string list" where
  "recalled_fields = [''id'', ''content'', ''topics'', ''entities'', ''turn_range'', ''session_id'', ''access_count'',
     ''last_accessed_at'', ''created_at'', ''score'']"

definition json_num :: "pyval \<Rightarrow> pyfloat" where
  "json_num v = (case v of PFloat x \<Rightarrow> x | PInt i \<Rightarrow> of_int i | _ \<Rightarrow> 0)"

definition recalled_of :: "pyval \<Rightarrow> recalled_item res" where
  "recalled_of v =
     (case v of
        PDict d \<Rightarrow>
          (if list_all (\<lambda>k. k \<in> set recalled_fields) (keys d) \<and> list_all (\<lambda>k. k \<in> set (keys d)) recalled_fields
           then Inr \<lparr>re_id = str_of (mget d ''id''), re_content = str_of (mget d ''content''), re_topics = mget d ''topics'',
             re_entities = mget d ''entities'', re_range = mget d ''turn_range'', re_session = mget d ''session_id'',
             re_access = (case mget d ''access_count'' of PInt i \<Rightarrow> i | _ \<Rightarrow> 0), re_last = json_num (mget d ''last_accessed_at''),
             re_created = json_num (mget d ''created_at''), re_score = json_num (mget d ''score'')\<rparr>
           else Inl TypeError)
      | _ \<Rightarrow> Inl TypeError)"

definition get_query_cache :: "'w sum_env \<Rightarrow> string \<Rightarrow> string \<Rightarrow> string \<Rightarrow> ('w sum_state, recalled_item list option) io" where
  "get_query_cache env tenant user q =
     io_bind (in_world (me_get env (query_cache_key env tenant user q))) (\<lambda>cached.
       case cached of
         None \<Rightarrow> io_return None
       | Some s \<Rightarrow>
           (if s = [] then io_return None
            else case me_loads env s of
                   Inl e \<Rightarrow> io_return None
                 | Inr v \<Rightarrow> (case bind_res (py_iter v) (map_res recalled_of) of
                              Inl e \<Rightarrow> io_return None | Inr items \<Rightarrow> io_return (Some items))))"

definition set_query_cache :: "'w sum_env \<Rightarrow> string \<Rightarrow> string \<Rightarrow> string \<Rightarrow> recalled_item list \<Rightarrow> ('w sum_state, unit) io" where
  "set_query_cache env tenant user q items =
     io_try (in_world (me_setex env (query_cache_key env tenant user q) query_cache_ttl
              (me_dumps env (PList (map (\<lambda>it. PDict (recalled_dict it)) items)))))
       (\<lambda>x. io_return ())"

text \<open>Every user's queries are dropped, not only those of the user.\<close>

definition invalidate_query_cache :: "'w sum_env \<Rightarrow> ('w sum_state, unit) io" where
  "invalidate_query_cache env =
     io_try (io_bind (in_world (se_scan env ''memory:l3:query:*'')) (\<lambda>ks.
             io_bind (io_map (\<lambda>k. in_world (me_delete env k)) ks) (\<lambda>_. io_return ())))
       (\<lambda>x. io_return ())"

section \<open>Searching\<close>

definition own_active :: "string \<Rightarrow> string \<Rightarrow> summary_row \<Rightarrow> bool" where
  "own_active tenant user r \<longleftrightarrow> su_tenant r = tenant \<and> su_user r = user \<and> su_status r = ''active''"

definition recent_rows :: "string \<Rightarrow> string \<Rightarrow> int \<Rightarrow> summary_row list \<Rightarrow> summary_row list" where
  "recent_rows tenant user limit rows =
     take (nat limit) (sort_key (\<lambda>r. - su_created r) (filter (own_active tenant user) rows))"

definition recalled_row :: "'w sum_env \<Rightarrow> summary_row \<Rightarrow> string + recalled_item" where
  "recalled_row env r =
     (case me_loads env (su_topics r) of
        Inl e \<Rightarrow> Inl e
      | Inr ts \<Rightarrow>
          (case me_loads env (su_entities r) of
             Inl e \<Rightarrow> Inl e
           | Inr es \<Rightarrow> Inr \<lparr>re_id = su_id r, re_content = su_content r, re_topics = py_or ts (PList []),
               re_entities = py_or es (PDict []), re_range = PList [PInt (su_from r), PInt (su_to r)],
               re_session = PStr (su_session r), re_access = su_access r,
               re_last = (case su_last r of None \<Rightarrow> 0 | Some x \<Rightarrow> x), re_created = su_created r, re_score = 0\<rparr>))"

text \<open>A list comprehension inside a try block that answers with the empty list.\<close>

fun all_or_none :: "('a \<Rightarrow> string + 'b) \<Rightarrow> 'a list \<Rightarrow> 'b list option" where
  "all_or_none f [] = Some []"
| "all_or_none f (x # xs) =
     (case f x of Inl e \<Rightarrow> None | Inr y \<Rightarrow> (case all_or_none f xs of None \<Rightarrow> None | Some ys \<Rightarrow> Some (y # ys)))"

definition pg_recent_summaries :: "'w sum_env \<Rightarrow> string \<Rightarrow> string \<Rightarrow> int \<Rightarrow> ('w sum_state, recalled_item list) io" where
  "pg_recent_summaries env tenant user limit =
     io_get (\<lambda>s. case all_or_none (recalled_row env) (recent_rows tenant user limit (st_rows s)) of
       None \<Rightarrow> [] | Some items \<Rightarrow> items)"

definition recalled_hit :: "'w sum_env \<Rightarrow> hit \<Rightarrow> string + recalled_item" where
  "recalled_hit env h =
     (case h of (i, content, meta, created, score) \<Rightarrow>
        (case me_loads env meta of
           Inr (PDict d) \<Rightarrow>
             (case se_float env created of
                Inl e \<Rightarrow> Inl e
              | Inr c \<Rightarrow> Inr \<lparr>re_id = i, re_content = content, re_topics = dget_or d ''topics'' (PList []),
                  re_entities = dget_or d ''entities'' (PDict []), re_range = dget_or d ''turn_range'' (PList [PInt 0, PInt 0]),
                  re_session = dget_or d ''session_id'' (PStr []),
                  re_access = (case dget_or d ''access_count'' (PInt 0) of PInt n \<Rightarrow> n | _ \<Rightarrow> 0),
                  re_last = json_num (dget_or d ''last_accessed_at'' (PInt 0)), re_created = c, re_score = score\<rparr>)
         | Inr v \<Rightarrow> Inl ''no dictionary''
         | Inl e \<Rightarrow> Inl e))"

definition milvus_search :: "'w sum_env \<Rightarrow> string \<Rightarrow> string \<Rightarrow> pyval \<Rightarrow> int \<Rightarrow> ('w sum_state, recalled_item list) io" where
  "milvus_search env tenant user emb k =
     (if \<not> se_index env then pg_recent_summaries env tenant user k
      else io_try (io_bind (in_world (se_search env tenant user emb (k * 2))) (\<lambda>hits.
                     case all_or_none (recalled_hit env) hits of
                       None \<Rightarrow> io_raise (Ext ''malformed hit'') | Some items \<Rightarrow> io_return items))
             (\<lambda>x. pg_recent_summaries env tenant user k))"

section \<open>Ranking\<close>

definition final_score :: "'w sum_env \<Rightarrow> pyfloat \<Rightarrow> recalled_item \<Rightarrow> pyfloat" where
  "final_score env now it =
     (let age_hours = (now - re_created it) / 3600;
          recency = max 0 (1 - min (age_hours / 720) 1);
          access = min (se_log1p env (re_access it) / 5) 1;
          similarity = (if 0 \<le> re_score it \<and> re_score it \<le> 1 then re_score it else 1 / 2)
      in 2 / 5 * recency + 3 / 10 * access + 3 / 10 * similarity)"

definition compute_final_scores :: "'w sum_env \<Rightarrow> pyfloat \<Rightarrow> recalled_item list \<Rightarrow> recalled_item list" where
  "compute_final_scores env now items = map (\<lambda>it. it\<lparr>re_score := final_score env now it\<rparr>) items"

fun within_budget :: "int \<Rightarrow> recalled_item list \<Rightarrow> recalled_item list" where
  "within_budget used [] = []"
| "within_budget used (it # items) =
     (if used + int (length (re_content it)) * 2 > token_budget_l3 then []
      else it # within_budget (used + int (length (re_content it)) * 2) items)"

definition apply_token_budget :: "recalled_item list \<Rightarrow> recalled_item list" where
  "apply_token_budget items = within_budget 0 items"

definition rank :: "'w sum_env \<Rightarrow> pyfloat \<Rightarrow> recalled_item list \<Rightarrow> recalled_item list" where
  "rank env now items = apply_token_budget (sort_key (\<lambda>it. - re_score it) (compute_final_scores env now items))"

definition batch_touch :: "'w sum_env \<Rightarrow> recalled_item list \<Rightarrow> ('w sum_state, unit) io" where
  "batch_touch env items =
     (if items = [] then io_return ()
      else io_modify (\<lambda>s. s\<lparr>st_rows := map (\<lambda>r. if su_id r \<in> set (map re_id items)
             then r\<lparr>su_access := su_access r + 1, su_last := Some (me_clock env (st_world s))\<rparr> else r) (st_rows s)\<rparr>))"

definition recall_fresh :: "'w sum_env \<Rightarrow> string \<Rightarrow> string \<Rightarrow> string \<Rightarrow> int \<Rightarrow> ('w sum_state, recalled_item list) io" where
  "recall_fresh env tenant user q k =
     io_bind (if q \<noteq> [] then get_embedding env q else io_return PNone) (\<lambda>emb.
     io_bind (if truthy emb then milvus_search env tenant user emb k else pg_recent_summaries env tenant user k) (\<lambda>found.
     io_bind (io_get (\<lambda>s. rank env (me_clock env (st_world s)) found)) (\<lambda>items.
     io_bind (if q \<noteq> [] \<and> items \<noteq> [] then set_query_cache env tenant user q items else io_return ()) (\<lambda>_.
     io_bind (batch_touch env items) (\<lambda>_. io_return items)))))"

definition recall_summaries :: "'w sum_env \<Rightarrow> string \<Rightarrow> string \<Rightarrow> string \<Rightarrow> int \<Rightarrow> ('w sum_state, recalled_item list) io" where
  "recall_summaries env tenant user q k =
     io_bind (if q \<noteq> [] then get_query_cache env tenant user q else io_return None) (\<lambda>cached.
       case cached of Some items \<Rightarrow> io_return items | None \<Rightarrow> recall_fresh env tenant user q k)"

section \<open>Writing\<close>

text \<open>\<open>compute_hash\<close> of the consolidator and the hash in \<open>save_summary\<close> are the same text.\<close>

definition compute_hash :: "'w sum_env \<Rightarrow> string \<Rightarrow> string \<Rightarrow> string \<Rightarrow> string" where
  "compute_hash env tenant user content = ''sha256:'' @ take 40 (se_sha env (tenant @ '':'' @ user @ '':'' @ content))"

definition has_hash :: "string \<Rightarrow> string \<Rightarrow> string \<Rightarrow> summary_row \<Rightarrow> bool" where
  "has_hash tenant user h r \<longleftrightarrow> su_tenant r = tenant \<and> su_user r = user \<and> su_hash r = h"

definition row_has_id :: "string \<Rightarrow> string \<Rightarrow> string \<Rightarrow> summary_row \<Rightarrow> bool" where
  "row_has_id tenant user i r \<longleftrightarrow> su_tenant r = tenant \<and> su_user r = user \<and> su_id r = i"

text \<open>An insertion into the index is tried when the index is there; a failure is logged.\<close>

definition milvus_insert :: "'w sum_env \<Rightarrow> summary_row \<Rightarrow> pyval \<Rightarrow> ('w sum_state, unit) io" where
  "milvus_insert env r emb =
     (if se_index env then io_try (in_world (se_insert env r emb)) (\<lambda>x. io_return ()) else io_return ())"

definition new_row ::
  "'w sum_env \<Rightarrow> string \<Rightarrow> string \<Rightarrow> string \<Rightarrow> string \<Rightarrow> string \<Rightarrow> pyval \<Rightarrow> pyval \<Rightarrow> int \<Rightarrow> int \<Rightarrow> pyfloat \<Rightarrow> summary_row" where
  "new_row env i tenant user session content topics ents a b now =
     \<lparr>su_id = i, su_tenant = tenant, su_user = user, su_session = session, su_content = content,
      su_topics = me_dumps env (py_or topics (PList [])), su_entities = me_dumps env (py_or ents (PDict [])), su_from = a, su_to = b,
      su_hash = compute_hash env tenant user content, su_access = 0, su_last = None, su_status = ''active'', su_created = now\<rparr>"

text \<open>\<open>INSERT ... ON CONFLICT (tenant_id, user_id, content_hash) DO NOTHING RETURNING id\<close>: whether a row was
  inserted. A second row with the identifier is refused, which the code catches.\<close>

definition insert_row :: "summary_row \<Rightarrow> ('w sum_state, bool) io" where
  "insert_row r =
     io_bind (io_get st_rows) (\<lambda>rows.
       if list_ex (has_hash (su_tenant r) (su_user r) (su_hash r)) rows then io_return False
       else if su_id r \<in> set (map su_id rows) then io_raise (Ext ''duplicate key'')
       else io_bind (in_rows (\<lambda>rows. rows @ [r])) (\<lambda>_. io_return True))"

definition get_by_hash :: "string \<Rightarrow> string \<Rightarrow> string \<Rightarrow> ('w sum_state, summary_row option) io" where
  "get_by_hash tenant user h = io_get (\<lambda>s. find (has_hash tenant user h) (st_rows s))"

definition save_summary ::
  "'w sum_env \<Rightarrow> string \<Rightarrow> string \<Rightarrow> string \<Rightarrow> string \<Rightarrow> string \<Rightarrow> pyval \<Rightarrow> pyval \<Rightarrow> int \<Rightarrow> int \<Rightarrow>
   ('w sum_state, string option) io" where
  "save_summary env i tenant user session content topics ents a b =
     io_bind (io_get (\<lambda>s. new_row env i tenant user session content topics ents a b (me_clock env (st_world s)))) (\<lambda>r.
     io_bind (io_try (io_bind (insert_row r) (\<lambda>fresh. io_return (Some fresh))) (\<lambda>x. io_return None)) (\<lambda>res.
       case res of
         None \<Rightarrow> io_return None
       | Some False \<Rightarrow>
           io_bind (get_by_hash tenant user (su_hash r)) (\<lambda>old. io_return (map_option su_id old))
       | Some True \<Rightarrow>
           io_bind (get_embedding env content) (\<lambda>emb.
           io_bind (if truthy emb then milvus_insert env r emb else io_return ()) (\<lambda>_.
           io_bind (invalidate_query_cache env) (\<lambda>_. io_return (Some i))))))"

text \<open>\<open>SummaryEntry\<close>: a row as the consolidator sees it. \<open>_row_to_entry\<close> fills no embedding.\<close>

record summary_entry =
  en_row :: summary_row
  en_embedding :: pyval

definition row_to_entry :: "'w sum_env \<Rightarrow> summary_row \<Rightarrow> string + summary_entry" where
  "row_to_entry env r =
     (case me_loads env (su_topics r) of
        Inl e \<Rightarrow> Inl e
      | Inr ts \<Rightarrow> (case me_loads env (su_entities r) of Inl e \<Rightarrow> Inl e | Inr es \<Rightarrow> Inr \<lparr>en_row = r, en_embedding = PNone\<rparr>))"

text \<open>The three readers answer an unreadable row with nothing.\<close>

definition entry_opt :: "'w sum_env \<Rightarrow> summary_row option \<Rightarrow> summary_entry option" where
  "entry_opt env r = (case r of None \<Rightarrow> None | Some x \<Rightarrow> (case row_to_entry env x of Inl e \<Rightarrow> None | Inr y \<Rightarrow> Some y))"

definition entry_by_hash :: "'w sum_env \<Rightarrow> string \<Rightarrow> string \<Rightarrow> string \<Rightarrow> ('w sum_state, summary_entry option) io" where
  "entry_by_hash env tenant user h = io_get (\<lambda>s. entry_opt env (find (has_hash tenant user h) (st_rows s)))"

definition entry_by_id :: "'w sum_env \<Rightarrow> string \<Rightarrow> string \<Rightarrow> string \<Rightarrow> ('w sum_state, summary_entry option) io" where
  "entry_by_id env tenant user i = io_get (\<lambda>s. entry_opt env (find (row_has_id tenant user i) (st_rows s)))"

definition list_active :: "'w sum_env \<Rightarrow> string \<Rightarrow> string \<Rightarrow> int \<Rightarrow> ('w sum_state, summary_entry list) io" where
  "list_active env tenant user limit =
     io_get (\<lambda>s. case all_or_none (row_to_entry env) (recent_rows tenant user limit (st_rows s)) of None \<Rightarrow> [] | Some es \<Rightarrow> es)"

definition delete_summary :: "'w sum_env \<Rightarrow> string \<Rightarrow> string \<Rightarrow> string \<Rightarrow> ('w sum_state, bool) io" where
  "delete_summary env tenant user i =
     io_bind (io_get (\<lambda>s. list_ex (row_has_id tenant user i) (st_rows s))) (\<lambda>found.
     io_bind (in_rows (filter (\<lambda>r. \<not> row_has_id tenant user i r))) (\<lambda>_.
     io_bind (if found then invalidate_query_cache env else io_return ()) (\<lambda>_. io_return found)))"

text \<open>\<open>insert\<close>: through \<open>save_summary\<close>, then the row is read back, and the given embedding is put into the index
  once more.\<close>

definition insert_entry ::
  "'w sum_env \<Rightarrow> string \<Rightarrow> string \<Rightarrow> string \<Rightarrow> string \<Rightarrow> string \<Rightarrow> pyval \<Rightarrow> pyval \<Rightarrow> int \<Rightarrow> int \<Rightarrow> pyval \<Rightarrow>
   ('w sum_state, summary_entry) io" where
  "insert_entry env i tenant user session content topics ents a b emb =
     io_bind (save_summary env i tenant user session content topics ents a b) (\<lambda>res.
       case res of
         None \<Rightarrow> io_raise (Py RuntimeError)
       | Some j \<Rightarrow>
           io_bind (entry_by_id env tenant user j) (\<lambda>created.
             case created of
               None \<Rightarrow> io_raise (Py RuntimeError)
             | Some en \<Rightarrow>
                 (if truthy emb
                  then io_bind (milvus_insert env (en_row en) emb) (\<lambda>_. io_return (en\<lparr>en_embedding := emb\<rparr>))
                  else io_return en)))"

section \<open>Consolidation\<close>

record 'w cons_env = "'w sum_env" +
  co_embedder :: "(string \<Rightarrow> ('w, pyval) io) option"
  co_summariser :: "(pydict list \<Rightarrow> ('w, string) io) option"
  co_entities :: "string \<Rightarrow> pyval"
  co_topics :: "string \<Rightarrow> string list"
  co_cosine :: "pyval \<Rightarrow> pyval \<Rightarrow> pyfloat"

abbreviation sum_base :: "'w cons_env \<Rightarrow> 'w sum_env" where
  "sum_base \<equiv> sum_env.truncate"

text \<open>\<open>replace\<close> of line ends by blanks.\<close>

definition one_line :: "string \<Rightarrow> string" where
  "one_line s = map (\<lambda>c. if of_char c = (10 :: nat) then CHR '' '' else c) s"

definition summary_line :: "(pyfloat \<Rightarrow> string) \<Rightarrow> pydict \<Rightarrow> string option" where
  "summary_line fl m =
     (case dget_or m ''content'' (PStr []) of
        PStr c \<Rightarrow> (if py_strip c \<noteq> []
          then Some (''['' @ py_str fl (dget_or m ''role'' (PStr ''user'')) @ '']: '' @ one_line (take 200 c)) else None)
      | _ \<Rightarrow> None)"

definition extract_summary :: "(pyfloat \<Rightarrow> string) \<Rightarrow> pydict list \<Rightarrow> string" where
  "extract_summary fl ms =
     (let parts = List.map_filter (summary_line fl) ms in if parts \<noteq> [] then py_join [char_of (10 :: nat)] parts else ''(no content)'')"

record consolidate_result =
  cr_summary :: "summary_entry option"
  cr_deduplicated :: bool
  cr_near :: "string option"
  cr_error :: "exn option"

definition find_near_duplicate :: "'w cons_env \<Rightarrow> string \<Rightarrow> string \<Rightarrow> pyval \<Rightarrow> ('w sum_state, string option) io" where
  "find_near_duplicate env tenant user emb =
     io_bind (list_active (sum_base env) tenant user 50) (\<lambda>es.
       io_return (map_option (\<lambda>e. su_id (en_row e))
         (find (\<lambda>e. truthy (en_embedding e) \<and> co_cosine env emb (en_embedding e) > 95 / 100) es)))"

definition summarise :: "'w cons_env \<Rightarrow> (pyfloat \<Rightarrow> string) \<Rightarrow> pydict list \<Rightarrow> ('w sum_state, string) io" where
  "summarise env fl ms =
     (case co_summariser env of
        None \<Rightarrow> io_return (extract_summary fl ms)
      | Some f \<Rightarrow> io_try (in_world (f ms)) (\<lambda>x. io_return (extract_summary fl ms)))"

definition embed_content :: "'w cons_env \<Rightarrow> string \<Rightarrow> ('w sum_state, pyval) io" where
  "embed_content env content =
     (case co_embedder env of
        None \<Rightarrow> io_return PNone
      | Some f \<Rightarrow>
          io_try (in_world (f (if co_topics env content \<noteq> [] then py_join '', '' (co_topics env content) @ '': '' @ content else content)))
            (\<lambda>x. io_return PNone))"

text \<open>The summary that is written when there is no exact duplicate.\<close>

definition consolidate_new ::
  "'w cons_env \<Rightarrow> string \<Rightarrow> string \<Rightarrow> string \<Rightarrow> string \<Rightarrow> string \<Rightarrow> int \<Rightarrow> int \<Rightarrow> ('w sum_state, consolidate_result) io" where
  "consolidate_new env i tenant user session content a b =
     io_bind (embed_content env content) (\<lambda>emb.
     io_bind (if truthy emb then find_near_duplicate env tenant user emb else io_return None) (\<lambda>near.
       io_try (io_bind (insert_entry (sum_base env) i tenant user session content (PList (map PStr (co_topics env content)))
                 (co_entities env content) a b emb) (\<lambda>created.
               io_return \<lparr>cr_summary = Some created, cr_deduplicated = False, cr_near = near, cr_error = None\<rparr>))
         (\<lambda>x. io_return \<lparr>cr_summary = None, cr_deduplicated = False, cr_near = near, cr_error = Some x\<rparr>)))"

definition consolidate ::
  "'w cons_env \<Rightarrow> (pyfloat \<Rightarrow> string) \<Rightarrow> string \<Rightarrow> string \<Rightarrow> string \<Rightarrow> string \<Rightarrow> pydict list \<Rightarrow> int \<Rightarrow> int \<Rightarrow>
   ('w sum_state, consolidate_result) io" where
  "consolidate env fl i tenant user session ms a b =
     (if ms = []
      then io_return \<lparr>cr_summary = None, cr_deduplicated = False, cr_near = None, cr_error = Some (Ext ''no messages to consolidate'')\<rparr>
      else io_bind (summarise env fl ms) (\<lambda>raw.
           let content = py_strip raw
           in if content = []
              then io_return \<lparr>cr_summary = None, cr_deduplicated = False, cr_near = None, cr_error = Some (Ext ''summary is empty'')\<rparr>
              else io_bind (entry_by_hash (sum_base env) tenant user (compute_hash (sum_base env) tenant user content)) (\<lambda>old.
                     case old of
                       Some en \<Rightarrow> io_return \<lparr>cr_summary = Some en, cr_deduplicated = True, cr_near = None, cr_error = None\<rparr>
                     | None \<Rightarrow> consolidate_new env i tenant user session content a b)))"

end
