(* ===== verification/SummaryHistory.thy ===== *)
theory SummaryHistory
  imports Summaries Tenancy
begin

text \<open>
  What the summaries promise: a ranked recall within its budget, a table that never holds a text twice
  for one user, consolidation that can be repeated, and a search for near duplicates that finds none.
\<close>

section \<open>Environments\<close>

lemma sum_base_sel [simp]:
  "me_get (sum_base env) = me_get env" "me_setex (sum_base env) = me_setex env" "me_delete (sum_base env) = me_delete env"
  "me_clock (sum_base env) = me_clock env" "me_dumps (sum_base env) = me_dumps env" "me_loads (sum_base env) = me_loads env"
  "se_embed (sum_base env) = se_embed env" "se_index (sum_base env) = se_index env" "se_search (sum_base env) = se_search env"
  "se_insert (sum_base env) = se_insert env" "se_scan (sum_base env) = se_scan env" "se_sha (sum_base env) = se_sha env"
  by (simp_all add: sum_env.defs)

lemma in_world_run: "in_world m s = (fst (m (st_world s)), s\<lparr>st_world := snd (m (st_world s))\<rparr>)"
  by (simp add: in_world_def io_on_run)

lemma in_rows_run [simp]: "in_rows f s = (Inr (), s\<lparr>st_rows := f (st_rows s)\<rparr>)"
  by (simp add: in_rows_def)

lemma keeps_in_world [intro, simp]: "(\<And>w s. f (s\<lparr>st_world := w\<rparr>) = f s) \<Longrightarrow> keeps f (in_world m)"
  by (simp add: keeps_def in_world_run)

lemma keeps_rows_embedding [intro, simp]: "keeps st_rows (get_embedding env q)"
  by (auto simp: get_embedding_def make_embedding_def split: option.split sum.split intro!: keeps_bind keeps_try)

lemma keeps_rows_invalidate [intro, simp]: "keeps st_rows (invalidate_query_cache env)"
  by (auto simp: invalidate_query_cache_def intro!: keeps_bind keeps_try keeps_map)

lemma keeps_rows_index [intro, simp]: "keeps st_rows (milvus_insert env r emb)"
  by (auto simp: milvus_insert_def intro!: keeps_try)

section \<open>The table\<close>

text \<open>What touching a row leaves as it is.\<close>

definition imprint :: "summary_row \<Rightarrow> string \<times> string \<times> string \<times> string \<times> string \<times> string \<times> string" where
  "imprint r = (su_id r, su_tenant r, su_user r, su_content r, su_hash r, su_topics r, su_entities r)"

definition readable :: "('w, 'm) mem_env_scheme \<Rightarrow> string \<Rightarrow> bool" where
  "readable env s \<longleftrightarrow> (\<exists>v. me_loads env s = Inr v)"

definition sums_ok :: "'w sum_env \<Rightarrow> summary_row list \<Rightarrow> bool" where
  "sums_ok env rows \<longleftrightarrow> distinct (map su_id rows) \<and> distinct (map (\<lambda>r. (su_tenant r, su_user r, su_hash r)) rows) \<and>
     (\<forall>r \<in> set rows. su_hash r = compute_hash env (su_tenant r) (su_user r) (su_content r) \<and>
        readable env (su_topics r) \<and> readable env (su_entities r))"

lemma map_imprint:
  "map su_id rows = map fst (map imprint rows)"
  "map (\<lambda>r. (su_tenant r, su_user r, su_hash r)) rows = map (\<lambda>(i, t, u, c, h, x). (t, u, h)) (map imprint rows)"
  by (simp_all add: imprint_def)

lemma sums_ok_alt:
  "sums_ok env rows \<longleftrightarrow> distinct (map fst (map imprint rows)) \<and>
     distinct (map (\<lambda>(i, t, u, c, h, x). (t, u, h)) (map imprint rows)) \<and>
     (\<forall>(i, t, u, c, h, ts, es) \<in> set (map imprint rows). h = compute_hash env t u c \<and> readable env ts \<and> readable env es)"
  unfolding sums_ok_def map_imprint by (simp add: imprint_def)

lemma sums_ok_imprint: "map imprint rows = map imprint rows' \<Longrightarrow> sums_ok env rows = sums_ok env rows'"
  by (simp only: sums_ok_alt)

lemma sums_ok_filter: "sums_ok env rows \<Longrightarrow> sums_ok env (filter P rows)"
  by (simp add: sums_ok_def distinct_map_filter)

lemma sums_ok_append:
  assumes "sums_ok env rows" and "\<not> list_ex (has_hash (su_tenant r) (su_user r) (su_hash r)) rows" and "su_id r \<notin> set (map su_id rows)"
    and "su_hash r = compute_hash env (su_tenant r) (su_user r) (su_content r)"
    and "readable env (su_topics r)" and "readable env (su_entities r)"
  shows "sums_ok env (rows @ [r])"
  using assms by (auto simp: sums_ok_def has_hash_def list_ex_iff)

lemma insert_row_run:
  "insert_row r s =
     (if list_ex (has_hash (su_tenant r) (su_user r) (su_hash r)) (st_rows s) then (Inr False, s)
      else if su_id r \<in> set (map su_id (st_rows s)) then (Inl (Ext ''duplicate key''), s)
      else (Inr True, s\<lparr>st_rows := st_rows s @ [r]\<rparr>))"
  by (simp add: insert_row_def io_bind_run)

text \<open>The rest of a save after the row was written.\<close>

definition save_tail :: "'w sum_env \<Rightarrow> string \<Rightarrow> summary_row \<Rightarrow> ('w sum_state, string option) io" where
  "save_tail env i r =
     io_bind (get_embedding env (su_content r)) (\<lambda>emb.
     io_bind (if truthy emb then milvus_insert env r emb else io_return ()) (\<lambda>_.
     io_bind (invalidate_query_cache env) (\<lambda>_. io_return (Some i))))"

lemma keeps_save_tail [intro, simp]: "keeps st_rows (save_tail env i r)"
  by (auto simp: save_tail_def intro!: keeps_bind)

lemma new_row_sel [simp]:
  "su_id (new_row env i t u x c ts es a b now) = i" "su_tenant (new_row env i t u x c ts es a b now) = t"
  "su_user (new_row env i t u x c ts es a b now) = u" "su_content (new_row env i t u x c ts es a b now) = c"
  "su_hash (new_row env i t u x c ts es a b now) = compute_hash env t u c"
  "su_topics (new_row env i t u x c ts es a b now) = me_dumps env (py_or ts (PList []))"
  "su_entities (new_row env i t u x c ts es a b now) = me_dumps env (py_or es (PDict []))"
  by (simp_all add: new_row_def)

lemma save_summary_run:
  "save_summary env i t u x c ts es a b s =
    (if list_ex (has_hash t u (compute_hash env t u c)) (st_rows s)
     then (Inr (map_option su_id (find (has_hash t u (compute_hash env t u c)) (st_rows s))), s)
     else if i \<in> set (map su_id (st_rows s)) then (Inr None, s)
     else let r = new_row env i t u x c ts es a b (me_clock env (st_world s))
          in save_tail env i r (s\<lparr>st_rows := st_rows s @ [r]\<rparr>))"
  by (simp add: save_summary_def io_bind_run io_try_run insert_row_run save_tail_def get_by_hash_def Let_def split: sum.split)

lemma keepsD: "keeps f m \<Longrightarrow> f (snd (m s)) = f s"
  by (simp add: keeps_def)

lemma save_summary_rows:
  "st_rows (snd (save_summary env i t u x c ts es a b s)) =
     (if list_ex (has_hash t u (compute_hash env t u c)) (st_rows s) \<or> i \<in> set (map su_id (st_rows s)) then st_rows s
      else st_rows s @ [new_row env i t u x c ts es a b (me_clock env (st_world s))])"
  by (simp add: save_summary_run Let_def keepsD [OF keeps_save_tail])

lemma json_readable: "json_laws env \<Longrightarrow> readable env (me_dumps env v)"
  by (auto simp: readable_def json_laws_def)

lemma save_summary_ok:
  assumes "json_laws env"
  shows "preserves (\<lambda>s. sums_ok env (st_rows s)) (save_summary env i t u x c ts es a b)"
  unfolding preserves_def save_summary_rows
  by (auto intro!: sums_ok_append json_readable [OF assms])

lemma delete_summary_rows:
  "st_rows (snd (delete_summary env t u i s)) = filter (\<lambda>r. \<not> row_has_id t u i r) (st_rows s)"
  by (simp add: delete_summary_def io_bind_run keepsD [OF keeps_rows_invalidate] split: sum.split)

section \<open>Recall\<close>

lemma keeps_rows_recent [intro, simp]: "keeps f (pg_recent_summaries env t u k)"
  by (simp add: pg_recent_summaries_def)

lemma keeps_rows_search [intro, simp]: "keeps st_rows (milvus_search env t u emb k)"
  by (auto simp: milvus_search_def split: option.split intro!: keeps_bind keeps_try)

lemma keeps_rows_set_cache [intro, simp]: "keeps st_rows (set_query_cache env t u q items)"
  by (auto simp: set_query_cache_def intro!: keeps_try)

lemma keeps_rows_get_cache [intro, simp]: "keeps st_rows (get_query_cache env t u q)"
  by (auto simp: get_query_cache_def split: option.split sum.split intro!: keeps_bind)

lemma keeps_touch: "keeps (\<lambda>s. map imprint (st_rows s)) (batch_touch env items)"
  by (simp add: batch_touch_def keeps_def imprint_def comp_def)

lemma keeps_of_rows: "keeps st_rows m \<Longrightarrow> keeps (\<lambda>s. f (st_rows s)) m"
  by (simp add: keeps_def)

lemma keeps_recall: "keeps (\<lambda>s. map imprint (st_rows s)) (recall_summaries env t u q k)"
proof -
  have fresh: "keeps (\<lambda>s. map imprint (st_rows s)) (recall_fresh env t u q k)"
    unfolding recall_fresh_def
    by (intro keeps_bind keeps_touch keeps_get keeps_return; (rule keeps_of_rows [where f = "map imprint"])?) simp_all
  show ?thesis
    unfolding recall_summaries_def
    by (intro keeps_bind) (auto split: option.split intro: fresh keeps_of_rows [OF keeps_rows_get_cache])
qed

text \<open>The budget.\<close>

abbreviation text_chars :: "recalled_item list \<Rightarrow> int" where
  "text_chars items \<equiv> (\<Sum>it\<leftarrow>items. int (length (re_content it)))"

lemma within_budget_bound: "used \<le> token_budget_l3 \<Longrightarrow> used + 2 * text_chars (within_budget used items) \<le> token_budget_l3"
  by (induction used items rule: within_budget.induct) (auto simp: algebra_simps)

lemma within_budget_prefix:
  "\<exists>rest. items = within_budget used items @ rest \<and>
     (rest = [] \<or> used + 2 * text_chars (within_budget used items @ [hd rest]) > token_budget_l3)"
proof (induction used items rule: within_budget.induct)
  case (2 used it items)
  show ?case
  proof (cases "used + int (length (re_content it)) * 2 > token_budget_l3")
    case False
    then obtain rest where "items = within_budget (used + int (length (re_content it)) * 2) items @ rest"
      "rest = [] \<or> used + int (length (re_content it)) * 2 +
         2 * text_chars (within_budget (used + int (length (re_content it)) * 2) items @ [hd rest]) > token_budget_l3"
      using 2 by blast
    then show ?thesis using False by (intro exI [of _ rest]) (auto simp: algebra_simps)
  qed (auto intro!: exI [of _ "it # items"])
qed simp

lemma rank_sorted: "sorted_wrt (\<lambda>x y. re_score x \<ge> re_score y) (rank env now items)"
proof -
  let ?ys = "sort_key (\<lambda>it. - re_score it) (compute_final_scores env now items)"
  obtain rest where r: "?ys = within_budget 0 ?ys @ rest" using within_budget_prefix [of ?ys 0] by auto
  have "sorted_wrt (\<lambda>x y. - re_score x \<le> - re_score y) ?ys" using sorted_sort_key [of "\<lambda>it. - re_score it"] by (simp add: sorted_map)
  then have "sorted_wrt (\<lambda>x y. - re_score x \<le> - re_score y) (within_budget 0 ?ys @ rest)" using r by simp
  then show ?thesis by (simp add: sorted_wrt_append rank_def apply_token_budget_def)
qed

section \<open>Consolidation\<close>

lemma row_to_entry_run:
  "readable env (su_topics r) \<Longrightarrow> readable env (su_entities r) \<Longrightarrow> row_to_entry env r = Inr \<lparr>en_row = r, en_embedding = PNone\<rparr>"
  by (auto simp: row_to_entry_def readable_def)

lemma row_to_entry_plain: "row_to_entry env r = Inr en \<Longrightarrow> en_embedding en = PNone"
  by (auto simp: row_to_entry_def split: sum.splits)

lemma all_or_none_all: "all_or_none f xs = Some ys \<Longrightarrow> y \<in> set ys \<Longrightarrow> \<exists>x \<in> set xs. f x = Inr y"
  by (induction xs arbitrary: ys) (auto split: sum.splits option.splits)

text \<open>No entry carries an embedding, so no pair is ever compared.\<close>

lemma find_near_duplicate_none: "find_near_duplicate env t u emb s = (Inr None, s)"
proof -
  have none: "find (\<lambda>e. truthy (en_embedding e) \<and> P e) es = None" if "\<forall>e \<in> set es. en_embedding e = PNone" for P es
    using that by (auto simp: find_None_iff)
  have "\<forall>e \<in> set (case all_or_none (row_to_entry (sum_base env)) rows of None \<Rightarrow> [] | Some es \<Rightarrow> es). en_embedding e = PNone" for rows
    by (auto split: option.split dest!: all_or_none_all [OF sym] row_to_entry_plain)
  from none [OF this] show ?thesis by (simp add: find_near_duplicate_def list_active_def)
qed

lemma consolidate_new_run:
  "consolidate_new env i t u x c a b =
     io_bind (embed_content env c) (\<lambda>emb.
       io_try (io_bind (insert_entry (sum_base env) i t u x c (PList (map PStr (co_topics env c))) (co_entities env c) a b emb) (\<lambda>created.
               io_return \<lparr>cr_summary = Some created, cr_deduplicated = False, cr_near = None, cr_error = None\<rparr>))
         (\<lambda>e. io_return \<lparr>cr_summary = None, cr_deduplicated = False, cr_near = None, cr_error = Some e\<rparr>))"
  unfolding consolidate_new_def
  by (rule arg_cong [where f = "io_bind (embed_content env c)"])
    (simp add: fun_eq_iff io_bind_run [of "find_near_duplicate _ _ _ _"] find_near_duplicate_none)

lemma keeps_rows_summarise [intro, simp]: "keeps st_rows (summarise env fl ms)"
  by (auto simp: summarise_def split: option.split intro!: keeps_try)

lemma keeps_rows_embed [intro, simp]: "keeps st_rows (embed_content env c)"
  by (auto simp: embed_content_def split: option.split intro!: keeps_try)

lemma keeps_rows_by_id [intro, simp]: "keeps f (entry_by_id env t u i)"
  by (simp add: entry_by_id_def)

lemma keeps_rows_by_hash [intro, simp]: "keeps f (entry_by_hash env t u h)"
  by (simp add: entry_by_hash_def)

lemma preserves_keeps_rows: "keeps st_rows m \<Longrightarrow> preserves (\<lambda>s. sums_ok env (st_rows s)) m"
  by (rule keeps_preserves)

lemma preserves_try [intro]: "preserves P m \<Longrightarrow> (\<And>e. preserves P (h e)) \<Longrightarrow> preserves P (io_try m h)"
  by (simp add: preserves_def io_try_run split: sum.split)

lemma insert_entry_ok:
  assumes "json_laws env"
  shows "preserves (\<lambda>s. sums_ok env (st_rows s)) (insert_entry env i t u x c ts es a b emb)"
proof -
  have "preserves (\<lambda>s. sums_ok env (st_rows s)) (case res of None \<Rightarrow> io_raise (Py RuntimeError)
     | Some j \<Rightarrow> io_bind (entry_by_id env t u j) (\<lambda>created. case created of None \<Rightarrow> io_raise (Py RuntimeError)
         | Some en \<Rightarrow> if truthy emb then io_bind (milvus_insert env (en_row en) emb) (\<lambda>_. io_return (en\<lparr>en_embedding := emb\<rparr>)) else io_return en))"
    for res
    by (rule preserves_keeps_rows) (auto split: option.split intro!: keeps_bind)
  then show ?thesis unfolding insert_entry_def by (intro preserves_bind save_summary_ok [OF assms])
qed

lemma sum_base_laws [simp]: "json_laws (sum_base env) = json_laws env" "readable (sum_base env) s = readable env s"
  by (simp_all add: json_laws_def readable_def)

lemma consolidate_ok:
  assumes "json_laws env"
  shows "preserves (\<lambda>s. sums_ok (sum_base env) (st_rows s)) (consolidate env fl i t u x ms a b)"
proof -
  note k = preserves_keeps_rows [where env = "sum_base env"]
  have ins: "preserves (\<lambda>s. sums_ok (sum_base env) (st_rows s)) (consolidate_new env i t u x c a b)" for c
    unfolding consolidate_new_run
    by (intro preserves_bind preserves_try insert_entry_ok k keeps_rows_embed keeps_return) (simp add: assms)
  have found: "preserves (\<lambda>s. sums_ok (sum_base env) (st_rows s)) (case old of
      Some en \<Rightarrow> io_return \<lparr>cr_summary = Some en, cr_deduplicated = True, cr_near = None, cr_error = None\<rparr>
    | None \<Rightarrow> consolidate_new env i t u x c a b)" for old c
    by (cases old) (simp_all add: ins k)
  show ?thesis
  proof (cases "ms = []")
    case False
    show ?thesis
      unfolding consolidate_def Let_def if_not_P [OF False]
    proof (rule preserves_bind [OF k [OF keeps_rows_summarise]])
      show "preserves (\<lambda>s. sums_ok (sum_base env) (st_rows s))
        (if py_strip raw = [] then io_return \<lparr>cr_summary = None, cr_deduplicated = False, cr_near = None, cr_error = Some (Ext ''summary is empty'')\<rparr>
         else io_bind (entry_by_hash (sum_base env) t u (compute_hash (sum_base env) t u (py_strip raw))) (\<lambda>old. case old of
             None \<Rightarrow> consolidate_new env i t u x (py_strip raw) a b
           | Some en \<Rightarrow> io_return \<lparr>cr_summary = Some en, cr_deduplicated = True, cr_near = None, cr_error = None\<rparr>))" for raw
        by (cases "py_strip raw = []") (simp_all add: k preserves_bind [OF k [OF keeps_rows_by_hash] found])
    qed
  qed (simp add: consolidate_def k)
qed

section \<open>Histories\<close>

datatype sum_op =
    Save string string string string string pyval pyval int int
  | Consolidate string string string string "pydict list" int int
  | Remove string string string
  | Recall string string string int

fun sum_step :: "'w cons_env \<Rightarrow> (pyfloat \<Rightarrow> string) \<Rightarrow> 'w sum_state \<Rightarrow> sum_op \<Rightarrow> 'w sum_state" where
  "sum_step env fl s (Save i t u x c ts es a b) = snd (save_summary (sum_base env) i t u x c ts es a b s)"
| "sum_step env fl s (Consolidate i t u x ms a b) = snd (consolidate env fl i t u x ms a b s)"
| "sum_step env fl s (Remove t u i) = snd (delete_summary (sum_base env) t u i s)"
| "sum_step env fl s (Recall t u q k) = snd (recall_summaries (sum_base env) t u q k s)"

lemma sum_step_ok:
  assumes "json_laws env" and "sums_ok (sum_base env) (st_rows s)"
  shows "sums_ok (sum_base env) (st_rows (sum_step env fl s op))"
proof (cases op)
  case (Save i t u x c ts es a b)
  then show ?thesis using save_summary_ok [of "sum_base env"] assms by (simp add: preserves_def)
next
  case (Consolidate i t u x ms a b)
  then show ?thesis using consolidate_ok [OF assms(1)] assms(2) by (simp add: preserves_def)
next
  case (Remove t u i)
  then show ?thesis using assms(2) by (simp add: delete_summary_rows sums_ok_filter)
next
  case (Recall t u q k)
  have "sums_ok (sum_base env) (st_rows (snd (recall_summaries (sum_base env) t u q k s))) = sums_ok (sum_base env) (st_rows s)"
    by (rule sums_ok_imprint) (rule keepsD [OF keeps_recall])
  then show ?thesis using Recall assms(2) by simp
qed

definition no_sums :: "'w \<Rightarrow> 'w sum_state" where
  "no_sums w = \<lparr>st_rows = [], st_world = w\<rparr>"

lemma sum_steps_ok:
  assumes "json_laws env"
  shows "sums_ok (sum_base env) (st_rows s) \<Longrightarrow> sums_ok (sum_base env) (st_rows (foldl (sum_step env fl) s ops))"
  by (induction ops arbitrary: s) (simp_all add: sum_step_ok [OF assms])

lemma contents_distinct:
  assumes "sums_ok env rows"
  shows "distinct (map (\<lambda>r. (su_tenant r, su_user r, su_content r)) rows)"
proof -
  have "map (\<lambda>r. (su_tenant r, su_user r, su_hash r)) rows =
      map (\<lambda>(t, u, c). (t, u, compute_hash env t u c)) (map (\<lambda>r. (su_tenant r, su_user r, su_content r)) rows)"
    using assms by (simp add: sums_ok_def)
  moreover have "distinct (map (\<lambda>r. (su_tenant r, su_user r, su_hash r)) rows)" using assms by (simp add: sums_ok_def)
  ultimately have "distinct (map (\<lambda>(t, u, c). (t, u, compute_hash env t u c)) (map (\<lambda>r. (su_tenant r, su_user r, su_content r)) rows))"
    by (simp only:)
  then show ?thesis by (rule distinct_map [THEN iffD1, THEN conjunct1])
qed

section \<open>Consolidating twice\<close>

definition reads_answer :: "('w, 'm) mem_env_scheme \<Rightarrow> bool" where
  "reads_answer env \<longleftrightarrow> (\<forall>k w. \<exists>x w'. me_get env k w = (Inr x, w'))"

lemma io_try_total: "(\<And>e s1. \<exists>y s2. h e s1 = (Inr y, s2)) \<Longrightarrow> \<exists>y s2. io_try m h s = (Inr y, s2)"
  by (cases "m s"; cases "fst (m s)") (simp_all add: io_try_def)

lemma make_embedding_total: "\<exists>v s'. make_embedding env fn q s = (Inr v, s')"
  unfolding make_embedding_def by (rule io_try_total) simp

lemma get_embedding_total:
  assumes "reads_answer env"
  shows "\<exists>v s'. get_embedding env q s = (Inr v, s')"
proof (cases "se_embed env")
  case (Some fn)
  obtain x w' where "me_get env (embedding_cache_key env q) (st_world s) = (Inr x, w')"
    using assms unfolding reads_answer_def by blast
  then show ?thesis using Some make_embedding_total [of env fn q]
    by (auto simp: get_embedding_def io_bind_run in_world_run split: option.split sum.split)
qed (simp add: get_embedding_def)

lemma milvus_insert_total: "\<exists>s'. milvus_insert env r emb s = (Inr (), s')"
  using io_try_total [of "\<lambda>x. io_return ()" "in_world (se_insert env r emb)" s] by (simp add: milvus_insert_def)

lemma invalidate_query_total: "\<exists>s'. invalidate_query_cache env s = (Inr (), s')"
  unfolding invalidate_query_cache_def using io_try_total [of "\<lambda>x. io_return ()"] by simp

lemma save_tail_total:
  assumes "reads_answer env"
  obtains s' where "save_tail env i r s = (Inr (Some i), s')" "st_rows s' = st_rows s"
proof -
  obtain v s1 where 1: "get_embedding env (su_content r) s = (Inr v, s1)" using get_embedding_total [OF assms] by blast
  obtain s2 where 2: "(if truthy v then milvus_insert env r v else io_return ()) s1 = (Inr (), s2)"
    using milvus_insert_total [of env r v s1] by (cases "truthy v") auto
  obtain s3 where 3: "invalidate_query_cache env s2 = (Inr (), s3)" using invalidate_query_total by blast
  have "save_tail env i r s = (Inr (Some i), s3)" by (simp add: save_tail_def io_bind_run 1 2 3)
  then show ?thesis using that keepsD [OF keeps_save_tail, of env i r s] by simp
qed

lemma extract_summary_starts: "\<exists>c cs. extract_summary fl ms = c # cs \<and> \<not> is_space c"
proof -
  have start: "\<exists>cs. p = CHR ''['' # cs" if "summary_line fl m = Some p" for m p
    using that by (auto simp: summary_line_def Let_def split: pyval.splits if_splits)
  show ?thesis
  proof (cases "List.map_filter (summary_line fl) ms")
    case (Cons p ps)
    then have "p \<in> set (List.map_filter (summary_line fl) ms)" by simp
    then obtain m where "summary_line fl m = Some p" by (auto simp: map_filter_def)
    from start [OF this] obtain cs where "p = CHR ''['' # cs" ..
    then show ?thesis using Cons by (cases ps) (auto simp: extract_summary_def Let_def is_space_def)
  qed (simp add: extract_summary_def Let_def is_space_def)
qed

lemma strip_nonempty: "\<not> is_space c \<Longrightarrow> py_strip (c # cs) \<noteq> []"
  by (simp add: py_strip_def py_lstrip_def)

lemma find_append_new: "find P xs = None \<Longrightarrow> P x \<Longrightarrow> find P (xs @ [x]) = Some x"
  by (induction xs) (auto split: if_splits)

lemma insert_entry_new:
  assumes "json_laws env" and "reads_answer env" and "i \<notin> set (map su_id (st_rows s))"
    and "\<not> list_ex (has_hash t u (compute_hash env t u c)) (st_rows s)"
    and r: "r = new_row env i t u x c ts es a b (me_clock env (st_world s))"
  obtains s' e where "insert_entry env i t u x c ts es a b emb s = (Inr \<lparr>en_row = r, en_embedding = e\<rparr>, s')"
    "st_rows s' = st_rows s @ [r]"
proof -
  let ?s1 = "s\<lparr>st_rows := st_rows s @ [r]\<rparr>"
  obtain s2 where s2: "save_tail env i r ?s1 = (Inr (Some i), s2)" "st_rows s2 = st_rows s @ [r]"
    using save_tail_total [OF assms(2), of i r ?s1] by auto
  have save: "save_summary env i t u x c ts es a b s = (Inr (Some i), s2)"
    using assms(3,4) s2(1) by (simp add: save_summary_run Let_def r)
  have "find (row_has_id t u i) (st_rows s) = None" using assms(3) by (auto simp: find_None_iff row_has_id_def)
  from find_append_new [OF this, of r] have "find (row_has_id t u i) (st_rows s2) = Some r"
    by (simp add: s2(2) row_has_id_def r)
  moreover have "row_to_entry env r = Inr \<lparr>en_row = r, en_embedding = PNone\<rparr>"
    by (rule row_to_entry_run) (simp_all add: r json_readable [OF assms(1)])
  ultimately have byid: "entry_by_id env t u i s2 = (Inr (Some \<lparr>en_row = r, en_embedding = PNone\<rparr>), s2)"
    by (simp add: entry_by_id_def entry_opt_def)
  obtain s3 where s3: "milvus_insert env r emb s2 = (Inr (), s3)" using milvus_insert_total by blast
  have "st_rows s3 = st_rows s2" using keepsD [OF keeps_rows_index, of env r emb s2] s3 by simp
  then show ?thesis
    using that [of emb s3] that [of PNone s2] s2(2) save byid s3
    by (cases "truthy emb") (simp_all add: insert_entry_def io_bind_run)
qed

lemma embed_content_total: "\<exists>v s'. embed_content env c s = (Inr v, s') \<and> st_rows s' = st_rows s"
proof -
  have "\<exists>v s'. embed_content env c s = (Inr v, s')"
    by (auto simp: embed_content_def intro: io_try_total split: option.split)
  then show ?thesis using keepsD [OF keeps_rows_embed, of env c s] by auto
qed

text \<open>The text that is consolidated, without a summariser.\<close>

definition consolidated_text :: "(pyfloat \<Rightarrow> string) \<Rightarrow> pydict list \<Rightarrow> string" where
  "consolidated_text fl ms = py_strip (extract_summary fl ms)"

lemma consolidated_text_nonempty: "consolidated_text fl ms \<noteq> []"
  using extract_summary_starts [of fl ms] strip_nonempty by (auto simp: consolidated_text_def)

lemma consolidate_run:
  assumes "ms \<noteq> []" and "co_summariser env = None"
    and c: "c = consolidated_text fl ms"
  shows "consolidate env fl i t u x ms a b s =
    (case entry_opt (sum_base env) (find (has_hash t u (compute_hash (sum_base env) t u c)) (st_rows s)) of
       Some en \<Rightarrow> (Inr \<lparr>cr_summary = Some en, cr_deduplicated = True, cr_near = None, cr_error = None\<rparr>, s)
     | None \<Rightarrow> consolidate_new env i t u x c a b s)"
  using consolidated_text_nonempty [of fl ms]
  by (simp add: consolidate_def assms(1,2) c summarise_def entry_by_hash_def consolidated_text_def Let_def split: option.split)

lemma entry_of_ok:
  assumes "sums_ok env rows" and "find P rows = Some r"
  shows "entry_opt env (find P rows) = Some \<lparr>en_row = r, en_embedding = PNone\<rparr>"
proof -
  from assms(2) have "r \<in> set rows" by (auto simp: find_Some_iff)
  then have "row_to_entry env r = Inr \<lparr>en_row = r, en_embedding = PNone\<rparr>"
    using assms(1) by (intro row_to_entry_run) (auto simp: sums_ok_def)
  then show ?thesis by (simp add: assms(2) entry_opt_def)
qed

lemma consolidate_twice:
  assumes "json_laws env" and "reads_answer env" and "sums_ok (sum_base env) (st_rows s)"
    and "ms \<noteq> []" and "co_summariser env = None" and "i \<notin> set (map su_id (st_rows s))"
    and h: "h = compute_hash (sum_base env) t u (consolidated_text fl ms)"
  shows "\<exists>r en s'. consolidate env fl i t u x ms a b s = (Inr r, s') \<and> cr_summary r = Some en \<and> cr_error r = None \<and>
    has_hash t u h (en_row en) \<and> en_row en \<in> set (st_rows s') \<and>
    st_rows s' = (if list_ex (has_hash t u h) (st_rows s) then st_rows s else st_rows s @ [en_row en]) \<and>
    consolidate env fl j t u y ms a' b' s' =
      (Inr \<lparr>cr_summary = Some \<lparr>en_row = en_row en, en_embedding = PNone\<rparr>, cr_deduplicated = True, cr_near = None, cr_error = None\<rparr>, s')"
proof -
  let ?env = "sum_base env" and ?c = "consolidated_text fl ms"
  note h [simp]
  let ?h = "compute_hash ?env t u ?c"
  note run = consolidate_run [OF assms(4,5) refl]
  show ?thesis
  proof (cases "find (has_hash t u ?h) (st_rows s)")
    case (Some row)
    have "row \<in> set (st_rows s) \<and> has_hash t u ?h row" using Some by (auto simp: find_Some_iff)
    then show ?thesis using entry_of_ok [OF assms(3) Some] by (auto simp: run list_ex_iff)
  next
    case None
    obtain v s1 where v: "embed_content env ?c s = (Inr v, s1)" "st_rows s1 = st_rows s"
      using embed_content_total by blast
    have nohash: "\<not> list_ex (has_hash t u ?h) (st_rows s1)" using None v(2) by (simp add: find_None_iff list_ex_iff)
    let ?ts = "PList (map PStr (co_topics env ?c))" and ?es = "co_entities env ?c"
    define row where "row = new_row ?env i t u x ?c ?ts ?es a b (me_clock ?env (st_world s1))"
    have laws: "json_laws ?env" "reads_answer ?env" "i \<notin> set (map su_id (st_rows s1))"
      using assms(1,2,6) v(2) by (simp_all add: reads_answer_def)
    obtain s' e where ins: "insert_entry ?env i t u x ?c ?ts ?es a b v s1 = (Inr \<lparr>en_row = row, en_embedding = e\<rparr>, s')"
      "st_rows s' = st_rows s1 @ [row]" by (rule insert_entry_new [OF laws nohash row_def])
    have row: "has_hash t u ?h row" by (simp add: has_hash_def row_def)
    have "sums_ok ?env (st_rows s1 @ [row])"
      by (rule sums_ok_append) (use laws nohash assms(3) v(2) in \<open>simp_all add: row_def json_readable\<close>)
    note ok = this [folded ins(2)]
    have "find (has_hash t u ?h) (st_rows s') = Some row"
      using find_append_new [OF None row] by (simp add: ins(2) v(2))
    from entry_of_ok [OF ok this] show ?thesis
      using None nohash row by (simp add: run entry_opt_def consolidate_new_run io_bind_run io_try_run v(1) ins(1)) (simp add: ins(2) v(2))
  qed
qed


text \<open>An instance: no index, no embedder, no summariser; a digest that is the text itself.\<close>

definition map_sums :: "redis_map cons_env" where
  "map_sums = sum_env.extend (mem_env.extend map_redis
     \<lparr>se_embed = None, se_index = False, se_search = (\<lambda>t u v k. io_return []), se_insert = (\<lambda>r v. io_return ()),
      se_scan = (\<lambda>p. io_return []), se_sha = (\<lambda>s. s), se_log1p = (\<lambda>n. of_int n), se_float = (\<lambda>s. Inr 0)\<rparr>)
     \<lparr>co_embedder = None, co_summariser = None, co_entities = (\<lambda>s. PDict []), co_topics = (\<lambda>s. []), co_cosine = (\<lambda>v w. 0)\<rparr>"

lemma map_sums_laws: "json_laws map_sums" "reads_answer map_sums" "redis_laws map_sums (\<lambda>w. w)" "co_summariser map_sums = None"
proof -
  have "mem_env.truncate map_sums = map_redis" by (simp add: map_sums_def mem_env.defs sum_env.defs)
  then have sel: "me_get map_sums = me_get map_redis" "me_dumps map_sums = me_dumps map_redis" "me_loads map_sums = me_loads map_redis"
    "me_setex map_sums = me_setex map_redis" "me_delete map_sums = me_delete map_redis" "me_incr map_sums = me_incr map_redis"
    "me_expire map_sums = me_expire map_redis" "me_sadd map_sums = me_sadd map_redis" "me_srem map_sums = me_srem map_redis"
    "me_smembers map_sums = me_smembers map_redis"
    by (simp_all add: map_sums_def mem_env.defs sum_env.defs)
  show "json_laws map_sums" using map_redis_json by (simp add: json_laws_def sel)
  show "reads_answer map_sums" by (simp add: reads_answer_def sel map_redis_def)
  show "redis_laws map_sums (\<lambda>w. w)" using map_redis_laws by (simp add: redis_laws_def sel)
  show "co_summariser map_sums = None" by (simp add: map_sums_def sum_env.defs mem_env.defs)
qed

definition sample_turn :: "pydict list" where
  "sample_turn = [[(''role'', PStr ''user''), (''content'', PStr ''I live in Bonn'')]]"


section \<open>Properties of recall and of the table\<close>

text \<open>C22: However summaries are saved, consolidated, removed and recalled, no user ever has the same text twice,
  and no two summaries have the same identifier.\<close>

theorem summaries_stay_unique:
  assumes "json_laws env"
  shows "let rows = st_rows (foldl (sum_step env fl) (no_sums w) ops)
    in distinct (map su_id rows) \<and> distinct (map (\<lambda>r. (su_tenant r, su_user r, su_content r)) rows)"
proof -
  have "sums_ok (sum_base env) (st_rows (no_sums w))" by (simp add: sums_ok_def no_sums_def)
  from sum_steps_ok [OF assms this] have ok: "sums_ok (sum_base env) (st_rows (foldl (sum_step env fl) (no_sums w) ops))" .
  from contents_distinct [OF ok] ok show ?thesis by (simp add: Let_def sums_ok_def)
qed

theorem summaries_stay_unique_witness:
  "let rows = st_rows (foldl (sum_step map_sums (\<lambda>x. [])) (no_sums (\<lambda>k. None))
       [Consolidate ''sms_1'' ''acme'' ''ann'' ''s1'' sample_turn 0 1, Save ''sms_2'' ''acme'' ''ann'' ''s2'' ''[user]: I live in Bonn'' PNone PNone 0 1])
   in distinct (map su_id rows) \<and> distinct (map (\<lambda>r. (su_tenant r, su_user r, su_content r)) rows)"
  by (rule summaries_stay_unique [OF map_sums_laws(1)])

text \<open>The entries that are compared carry no embedding, so consolidation never reports a near duplicate,
  whatever the embedder, the index and the table hold.\<close>

theorem near_duplicates_go_unseen:
  "fst (consolidate env fl i t u x ms a b s) = Inr r \<Longrightarrow> cr_near r = None"
proof -
  have new: "fst (consolidate_new env i t u x c a b s) = Inr r \<Longrightarrow> cr_near r = None" for c s
    by (auto simp: consolidate_new_run io_bind_run io_try_run split: sum.splits)
  show "fst (consolidate env fl i t u x ms a b s) = Inr r \<Longrightarrow> cr_near r = None"
    using new by (auto simp: consolidate_def Let_def io_bind_run entry_by_hash_def split: sum.splits option.splits if_splits)
qed

theorem near_duplicates_go_unseen_witness:
  "\<exists>r. fst (consolidate map_sums (\<lambda>x. []) ''sms_1'' ''acme'' ''ann'' ''s1'' sample_turn 0 1 (no_sums (\<lambda>k. None))) = Inr r \<and> cr_near r = None"
proof -
  have "sums_ok (sum_base map_sums) (st_rows (no_sums (\<lambda>k :: string. None :: redis_val option)))" by (simp add: sums_ok_def no_sums_def)
  from consolidate_twice [OF map_sums_laws(1,2) this, where ms = sample_turn and i = "''sms_1''" and t = "''acme''" and u = "''ann''" and
      fl = "\<lambda>x. []" and x = "''s1''" and a = 0 and b = 1 and j = "''sms_2''" and y = "''s2''" and a' = 4 and b' = 9, OF _ _ _ refl]
  obtain r where "fst (consolidate map_sums (\<lambda>x. []) ''sms_1'' ''acme'' ''ann'' ''s1'' sample_turn 0 1 (no_sums (\<lambda>k. None))) = Inr r"
    by (auto simp: sample_turn_def no_sums_def map_sums_laws)
  with near_duplicates_go_unseen [OF this] show ?thesis by blast
qed

text \<open>What a recall without the query cache gives.\<close>

lemma recall_fresh_result:
  assumes "fst (recall_fresh env t u q k s) = Inr items"
  obtains now found where "items = rank env now found"
  using assms by (auto simp: recall_fresh_def io_bind_run [of "io_get _"] io_bind_def split: prod.splits sum.splits)

text \<open>A recall that does not come from the cache is ordered by score, the best first, and its texts keep within
  half of 6000 characters.\<close>

theorem recall_is_ranked:
  assumes "fst (recall_fresh env t u q k s) = Inr items"
  shows "sorted_wrt (\<lambda>x y. re_score x \<ge> re_score y) items \<and> (\<Sum>it\<leftarrow>items. int (length (re_content it))) \<le> 3000"
proof -
  obtain now found where items: "items = rank env now found" by (rule recall_fresh_result [OF assms])
  have "2 * text_chars items \<le> 6000"
    using within_budget_bound [of 0] by (simp add: items rank_def apply_token_budget_def token_budget_l3_def)
  then show ?thesis using rank_sorted [of env now found] by (simp add: items)
qed

text \<open>One best summary of more than 3000 characters hides all others.\<close>

lemma long_summary_hides_rest:
  assumes "sort_key (\<lambda>it. - re_score it) (compute_final_scores env now found) = it # rest" and "length (re_content it) > 3000"
  shows "rank env now found = []"
  using assms(2) by (simp add: rank_def apply_token_budget_def assms(1) token_budget_l3_def)


text \<open>The recall of a user without embeddings.\<close>

lemma within_budget_subset: "set (within_budget used items) \<subseteq> set items"
  by (induction used items rule: within_budget.induct) auto

lemma rank_subset: "set (rank env now found) \<subseteq> (\<lambda>it. it\<lparr>re_score := final_score env now it\<rparr>) ` set found"
  using within_budget_subset [of 0 "sort_key (\<lambda>it. - re_score it) (compute_final_scores env now found)"]
  by (simp add: rank_def apply_token_budget_def compute_final_scores_def)

lemma all_or_none_length: "all_or_none f xs = Some ys \<Longrightarrow> length ys = length xs"
  by (induction xs arbitrary: ys) (auto split: sum.splits option.splits)

lemma within_budget_length: "length (within_budget used items) \<le> length items"
  by (induction used items rule: within_budget.induct) auto

lemma rank_length: "length (rank env now found) \<le> length found"
  unfolding rank_def apply_token_budget_def
  by (rule order_trans [OF within_budget_length]) (simp add: compute_final_scores_def)

lemma recalled_row_sel: "recalled_row env r = Inr it \<Longrightarrow> re_id it = su_id r \<and> re_content it = su_content r"
  by (auto simp: recalled_row_def split: sum.splits)

lemma recent_items:
  assumes "fst (pg_recent_summaries env t u k s) = Inr items"
  shows "int (length items) \<le> max k 0 \<and>
    (\<forall>it \<in> set items. \<exists>r \<in> set (st_rows s). own_active t u r \<and> su_id r = re_id it \<and> su_content r = re_content it)"
proof (cases "all_or_none (recalled_row env) (recent_rows t u k (st_rows s))")
  case (Some ys)
  have items: "items = ys" using assms Some by (simp add: pg_recent_summaries_def)
  have sub: "set (recent_rows t u k (st_rows s)) \<subseteq> {r \<in> set (st_rows s). own_active t u r}"
    using set_take_subset [of "nat k" "sort_key (\<lambda>r. - su_created r) (filter (own_active t u) (st_rows s))"]
    by (auto simp: recent_rows_def)
  have "length ys \<le> nat k" using all_or_none_length [OF Some] by (simp add: recent_rows_def)
  moreover have "\<exists>r \<in> set (st_rows s). own_active t u r \<and> su_id r = re_id it \<and> su_content r = re_content it" if "it \<in> set ys" for it
    using all_or_none_all [OF Some that] sub recalled_row_sel by fastforce
  ultimately show ?thesis by (simp add: items)
qed (use assms in \<open>auto simp: pg_recent_summaries_def\<close>)

text \<open>Without an embedder a recall gives at most the wanted number of summaries, all of them active summaries
  of the user himself.\<close>

theorem recall_stays_with_the_user:
  assumes "se_embed env = None" and "fst (recall_fresh env t u q k s) = Inr items"
  shows "int (length items) \<le> max k 0 \<and>
    (\<forall>it \<in> set items. \<exists>r \<in> set (st_rows s). own_active t u r \<and> su_id r = re_id it \<and> su_content r = re_content it)"
proof -
  have none: "(if q \<noteq> [] then get_embedding env q else io_return PNone) = io_return PNone"
    by (simp add: get_embedding_def assms(1) fun_eq_iff)
  obtain found where found: "pg_recent_summaries env t u k s = (Inr found, s)" by (simp add: pg_recent_summaries_def)
  have items: "items = rank env (me_clock env (st_world s)) found"
    using assms(2) by (auto simp: recall_fresh_def none io_bind_run [of "pg_recent_summaries _ _ _ _"] found io_bind_def
      split: prod.splits sum.splits)
  have "length items \<le> length found"
    unfolding items by (rule rank_length)
  then show ?thesis using recent_items [of env t u k s found] rank_subset [of env _ found] by (fastforce simp: found items)
qed


section \<open>The query cache\<close>

lemma recalled_round: "recalled_of (PDict (recalled_dict it)) = Inr it"
  by (simp add: recalled_of_def recalled_dict_def recalled_fields_def json_num_def dget_or_def)

lemma recalled_rounds: "map_res recalled_of (map (\<lambda>it. PDict (recalled_dict it)) items) = Inr items"
  by (induction items) (simp_all add: recalled_round)

definition items_text :: "'w sum_env \<Rightarrow> recalled_item list \<Rightarrow> string" where
  "items_text env items = me_dumps env (PList (map (\<lambda>it. PDict (recalled_dict it)) items))"

lemma get_query_cache_hit:
  assumes "redis_laws env view" and "json_laws env"
    and "view (st_world s) (query_cache_key env t u q) = Some (RText (items_text env items))"
  shows "get_query_cache env t u q s = (Inr (Some items), s)"
  using redis_get(2) [OF assms(1,3)] assms(2)
  by (simp add: get_query_cache_def io_bind_run in_world_run items_text_def json_laws_def recalled_rounds)

lemma set_query_cache_run:
  assumes "redis_laws env view"
  obtains s' where "set_query_cache env t u q items s = (Inr (), s')"
    "view (st_world s') = (view (st_world s))(query_cache_key env t u q \<mapsto> RText (items_text env items))"
proof -
  obtain w' where w': "me_setex env (query_cache_key env t u q) query_cache_ttl (items_text env items) (st_world s) = (Inr (), w')"
    "view w' = (view (st_world s))(query_cache_key env t u q \<mapsto> RText (items_text env items))" by (rule redis_put [OF assms])
  show ?thesis
    by (rule that [of "s\<lparr>st_world := w'\<rparr>"]) (simp_all add: set_query_cache_def io_try_run in_world_run w' [unfolded items_text_def] items_text_def)
qed

lemma keeps_world_touch: "keeps st_world (batch_touch env items)"
  by (simp add: batch_touch_def keeps_def)

lemma batch_touch_total: "fst (batch_touch env items s) = Inr ()"
  by (simp add: batch_touch_def)

text \<open>A recall that found something is repeated from the cache: the next recall of the text gives the same
  summaries in the same order and changes nothing, whatever number of summaries it asks for.\<close>

theorem recall_is_repeatable:
  assumes "redis_laws env view" and "json_laws env" and "q \<noteq> []" and "items \<noteq> []"
    and "recall_fresh env t u q k s = (Inr items, s')"
  shows "recall_summaries env t u q k' s' = (Inr items, s')"
proof -
  obtain s1 where s1: "s' = snd (batch_touch env items (snd (set_query_cache env t u q items s1)))"
    using assms(3-5) by (auto simp: recall_fresh_def io_bind_run batch_touch_total split: sum.splits if_splits)
  obtain s2 where s2: "set_query_cache env t u q items s1 = (Inr (), s2)"
    "view (st_world s2) = (view (st_world s1))(query_cache_key env t u q \<mapsto> RText (items_text env items))"
    by (rule set_query_cache_run [OF assms(1)])
  have "st_world s' = st_world s2" using keepsD [OF keeps_world_touch, of env items s2] by (simp add: s1 s2(1))
  then have "view (st_world s') (query_cache_key env t u q) = Some (RText (items_text env items))" by (simp add: s2(2))
  from get_query_cache_hit [OF assms(1,2) this] show ?thesis
    using assms(3) by (simp add: recall_summaries_def io_bind_run)
qed


section \<open>Instances\<close>

definition sample_summary :: summary_row where
  "sample_summary = \<lparr>su_id = ''sms_0'', su_tenant = ''acme'', su_user = ''ann'', su_session = ''s0'', su_content = ''moved to Bonn'',
     su_topics = [], su_entities = [], su_from = 0, su_to = 1, su_hash = [], su_access = 0, su_last = None, su_status = ''active'',
     su_created = 90\<rparr>"

definition with_summary :: "redis_map sum_state" where
  "with_summary = \<lparr>st_rows = [sample_summary], st_world = (\<lambda>k. None)\<rparr>"

abbreviation map_env :: "redis_map sum_env" where
  "map_env \<equiv> sum_base map_sums"

lemma map_sums_sel:
  "se_embed map_sums = None" "me_loads map_sums = me_loads map_redis" "se_log1p map_sums = of_int" "me_clock map_sums = (\<lambda>w. 100)"
  by (simp_all add: map_sums_def mem_env.defs sum_env.defs map_redis_def)

lemma sum_base_redis: "redis_laws (sum_base env) view = redis_laws env view"
  by (simp add: redis_laws_def sum_env.defs)

lemma map_env_laws: "redis_laws map_env (\<lambda>w. w)" "json_laws map_env" "se_embed map_env = None"
  using map_sums_laws(1,3) by (simp_all only: sum_base_redis sum_base_laws sum_base_sel map_sums_sel)

lemma sample_recall:
  obtains it s' where "recall_fresh map_env ''acme'' ''ann'' ''home'' 5 with_summary = (Inr [it], s')" "re_id it = ''sms_0''"
proof -
  obtain r where r: "recalled_row map_env sample_summary = Inr r" "re_content r = ''moved to Bonn''" "re_id r = ''sms_0''"
    by (simp add: recalled_row_def map_sums_sel map_redis_def sample_summary_def)
  have rows: "recent_rows ''acme'' ''ann'' 5 [sample_summary] = [sample_summary]"
    by (simp add: recent_rows_def own_active_def sample_summary_def)
  let ?it = "r\<lparr>re_score := final_score map_env (me_clock map_sums (st_world with_summary)) r\<rparr>"
  have rank: "rank map_env (me_clock map_sums (st_world with_summary)) [r] = [?it]"
    by (simp add: rank_def compute_final_scores_def apply_token_budget_def r(2) token_budget_l3_def)
  obtain s1 where s1: "set_query_cache map_env ''acme'' ''ann'' ''home'' [?it] with_summary = (Inr (), s1)"
    by (rule set_query_cache_run [OF map_env_laws(1)])
  have "fst (batch_touch map_env [?it] s1) = Inr ()" by (rule batch_touch_total)
  then obtain s2 where s2: "batch_touch map_env [?it] s1 = (Inr (), s2)" by (cases "batch_touch map_env [?it] s1") auto
  have "pg_recent_summaries map_env ''acme'' ''ann'' 5 with_summary = (Inr [r], with_summary)"
    by (simp add: pg_recent_summaries_def with_summary_def rows r(1))
  then have "recall_fresh map_env ''acme'' ''ann'' ''home'' 5 with_summary = (Inr [?it], s2)"
    by (simp add: recall_fresh_def get_embedding_def map_sums_sel(1) io_bind_run rank s1 s2)
  then show ?thesis by (rule that) (simp add: r(3))
qed

theorem recall_is_repeatable_witness:
  "\<exists>items s'. recall_fresh map_env ''acme'' ''ann'' ''home'' 5 with_summary = (Inr items, s') \<and>
     recall_summaries map_env ''acme'' ''ann'' ''home'' 9 s' = (Inr items, s')"
proof -
  obtain it s' where it: "recall_fresh map_env ''acme'' ''ann'' ''home'' 5 with_summary = (Inr [it], s')"
    using sample_recall by metis
  have "recall_summaries map_env ''acme'' ''ann'' ''home'' 9 s' = (Inr [it], s')"
    by (rule recall_is_repeatable [OF map_env_laws(1,2) _ _ it]) simp_all
  with it show ?thesis by blast
qed

theorem recall_is_ranked_witness:
  "\<exists>items. fst (recall_fresh map_env ''acme'' ''ann'' ''home'' 5 with_summary) = Inr items \<and> (\<Sum>it\<leftarrow>items. int (length (re_content it))) \<le> 3000"
proof -
  obtain it s' where "recall_fresh map_env ''acme'' ''ann'' ''home'' 5 with_summary = (Inr [it], s')" using sample_recall by metis
  then have "fst (recall_fresh map_env ''acme'' ''ann'' ''home'' 5 with_summary) = Inr [it]" by simp
  with recall_is_ranked [OF this] show ?thesis by blast
qed

theorem recall_stays_with_the_user_witness:
  "\<exists>items. fst (recall_fresh map_env ''acme'' ''ann'' ''home'' 5 with_summary) = Inr items \<and> items \<noteq> [] \<and>
     (\<forall>it \<in> set items. re_content it = ''moved to Bonn'')"
proof -
  obtain it s' where "recall_fresh map_env ''acme'' ''ann'' ''home'' 5 with_summary = (Inr [it], s')" using sample_recall by metis
  then have it: "fst (recall_fresh map_env ''acme'' ''ann'' ''home'' 5 with_summary) = Inr [it]" by simp
  from recall_stays_with_the_user [OF map_env_laws(3) it] have "re_content it = ''moved to Bonn''"
    by (simp add: with_summary_def sample_summary_def)
  with it show ?thesis by simp
qed

section \<open>Isolation\<close>

fun sum_actor :: "sum_op \<Rightarrow> string \<times> string" where
  "sum_actor (Save i t u x c ts es a b) = (t, u)"
| "sum_actor (Consolidate i t u x ms a b) = (t, u)"
| "sum_actor (Remove t u i) = (t, u)"
| "sum_actor (Recall t u q k) = (t, u)"

type_synonym imprint = "string \<times> string \<times> string \<times> string \<times> string \<times> string \<times> string"

definition imprint_owner :: "imprint \<Rightarrow> string \<times> string" where
  "imprint_owner i = (fst (snd i), fst (snd (snd i)))"

definition imprints :: "'w sum_state \<Rightarrow> imprint list" where
  "imprints s = map imprint (st_rows s)"

text \<open>What the rows of other users look like.\<close>

definition foreign :: "string \<times> string \<Rightarrow> 'w sum_state \<Rightarrow> imprint list" where
  "foreign p s = filter (\<lambda>i. imprint_owner i \<noteq> p) (imprints s)"

lemma owner_imprint [simp]: "imprint_owner (imprint r) = (su_tenant r, su_user r)"
  by (simp add: imprint_owner_def imprint_def)

lemma keeps_foreign_rows: "keeps st_rows m \<Longrightarrow> keeps (foreign p) m"
  by (simp add: keeps_def foreign_def imprints_def)

lemma keeps_foreign_save: "keeps (foreign (t, u)) (save_summary env i t u x c ts es a b)"
  by (simp add: keeps_def foreign_def imprints_def save_summary_rows)

lemma keeps_foreign_insert: "keeps (foreign (t, u)) (insert_entry env i t u x c ts es a b emb)"
proof -
  have "keeps st_rows (case res of None \<Rightarrow> io_raise (Py RuntimeError)
     | Some j \<Rightarrow> io_bind (entry_by_id env t u j) (\<lambda>created. case created of None \<Rightarrow> io_raise (Py RuntimeError)
         | Some en \<Rightarrow> if truthy emb then io_bind (milvus_insert env (en_row en) emb) (\<lambda>_. io_return (en\<lparr>en_embedding := emb\<rparr>)) else io_return en))"
    for res by (auto split: option.split intro!: keeps_bind)
  then show ?thesis unfolding insert_entry_def by (intro keeps_bind keeps_foreign_save keeps_foreign_rows)
qed

lemma keeps_foreign_consolidate: "keeps (foreign (t, u)) (consolidate env fl i t u x ms a b)"
proof -
  have ins: "keeps (foreign (t, u)) (consolidate_new env i t u x c a b)" for c
    unfolding consolidate_new_run
    by (intro keeps_bind keeps_try keeps_foreign_insert keeps_foreign_rows [OF keeps_rows_embed] keeps_return)
  have found: "keeps (foreign (t, u)) (case old of
      Some en \<Rightarrow> io_return \<lparr>cr_summary = Some en, cr_deduplicated = True, cr_near = None, cr_error = None\<rparr>
    | None \<Rightarrow> consolidate_new env i t u x c a b)" for old c
    by (cases old) (simp_all add: ins)
  show ?thesis
  proof (cases "ms = []")
    case False
    show ?thesis
      unfolding consolidate_def Let_def if_not_P [OF False]
    proof (rule keeps_bind [OF keeps_foreign_rows [OF keeps_rows_summarise]])
      show "keeps (foreign (t, u))
        (if py_strip raw = [] then io_return \<lparr>cr_summary = None, cr_deduplicated = False, cr_near = None, cr_error = Some (Ext ''summary is empty'')\<rparr>
         else io_bind (entry_by_hash (sum_base env) t u (compute_hash (sum_base env) t u (py_strip raw))) (\<lambda>old. case old of
             None \<Rightarrow> consolidate_new env i t u x (py_strip raw) a b
           | Some en \<Rightarrow> io_return \<lparr>cr_summary = Some en, cr_deduplicated = True, cr_near = None, cr_error = None\<rparr>))" for raw
        by (cases "py_strip raw = []") (simp_all add: keeps_bind [OF keeps_rows_by_hash found])
    qed
  qed (simp add: consolidate_def)
qed

lemma foreign_step: "foreign (sum_actor op) (sum_step env fl s op) = foreign (sum_actor op) s"
proof (cases op)
  case (Save i t u x c ts es a b)
  then show ?thesis by (simp add: keepsD [OF keeps_foreign_save])
next
  case (Consolidate i t u x ms a b)
  then show ?thesis by (simp add: keepsD [OF keeps_foreign_consolidate])
next
  case (Remove t u i)
  have "filter (\<lambda>j. imprint_owner j \<noteq> (t, u)) (map imprint (filter (\<lambda>r. \<not> row_has_id t u i r) rows)) =
      filter (\<lambda>j. imprint_owner j \<noteq> (t, u)) (map imprint rows)" for rows
    by (induction rows) (auto simp: row_has_id_def)
  then show ?thesis using Remove by (simp add: foreign_def imprints_def delete_summary_rows)
next
  case (Recall t u q k)
  have "map imprint (st_rows (snd (recall_summaries (sum_base env) t u q k s))) = map imprint (st_rows s)"
    using keepsD [OF keeps_recall] .
  then show ?thesis using Recall by (simp add: foreign_def imprints_def)
qed

interpretation summaries: tenant_store imprints imprint_owner "sum_step env fl" sum_actor for env fl
proof (unfold_locales, goal_cases)
  case (1 op p s)
  have "filter (\<lambda>i. imprint_owner i = p) (imprints x) = filter (\<lambda>i. imprint_owner i = p) (foreign (sum_actor op) x)" for x
    using 1 by (auto simp: foreign_def intro!: filter_cong)
  then show ?case by (metis foreign_step)
qed

text \<open>What others save, consolidate, remove and recall leaves the summaries of a user as they are, up to their use, and
  only users who acted have summaries.\<close>

theorem summaries_stay_isolated:
  assumes "p \<notin> sum_actor ` set ops"
  shows "filter (\<lambda>i. imprint_owner i = p) (imprints (foldl (sum_step env fl) s ops)) = filter (\<lambda>i. imprint_owner i = p) (imprints s) \<and>
    (\<forall>i \<in> set (imprints (foldl (sum_step env fl) (no_sums w) ops)). imprint_owner i \<in> sum_actor ` set ops)"
  using summaries.untouched [OF assms, of env fl s] summaries.owners [of _ env fl "no_sums w" ops]
  by (simp add: imprints_def no_sums_def)

theorem summaries_stay_isolated_witness:
  "filter (\<lambda>i. imprint_owner i = (''acme'', ''ann'')) (imprints (foldl (sum_step map_sums (\<lambda>x. [])) with_summary
     [Remove ''acme'' ''bob'' ''sms_0'', Consolidate ''sms_1'' ''acme'' ''bob'' ''s1'' sample_turn 0 1])) =
   filter (\<lambda>i. imprint_owner i = (''acme'', ''ann'')) (imprints with_summary)"
proof -
  have "(''acme'', ''ann'') \<notin> sum_actor ` set [Remove ''acme'' ''bob'' ''sms_0'', Consolidate ''sms_1'' ''acme'' ''bob'' ''s1'' sample_turn 0 1]"
    by simp
  from summaries_stay_isolated [OF this, of map_sums "\<lambda>x. []" with_summary] show ?thesis by blast
qed

end
