(* ===== verification/MemoryService.thy ===== *)
theory MemoryService
  imports CardHistory SummaryHistory
begin

text \<open>
  The front of the memory layers, \<^verbatim>\<open>app/memory/service.py\<close>, with the bookkeeping of sessions,
  \<^verbatim>\<open>app/memory/session_meta.py\<close>: what the agent calls when a session starts, a turn ends and a session
  ends, the recall of card and summaries as a text, and the operations of the interface on conflicts and
  entries. The queue, the texts that are not ASCII, \<^verbatim>\<open>str\<close> of a value and the length of a text in UTF-8 are
  arguments. The conflict manager is the one of the card.
\<close>

section \<open>Bookkeeping of sessions\<close>

record session_meta =
  sm_session :: string
  sm_tenant :: string
  sm_user :: string
  sm_channel :: string
  sm_mode :: string
  sm_started :: pyfloat
  sm_active :: pyfloat
  sm_turns :: int
  sm_in :: int
  sm_out :: int
  sm_degraded :: bool
  sm_flags :: pydict

type_synonym metas = "(string, session_meta) dict"

definition mark_turn_complete :: "pyfloat \<Rightarrow> int \<Rightarrow> int \<Rightarrow> session_meta \<Rightarrow> session_meta" where
  "mark_turn_complete now a b m =
     m\<lparr>sm_turns := sm_turns m + 1, sm_in := sm_in m + a, sm_out := sm_out m + b, sm_active := now\<rparr>"

definition mark_degraded :: "string \<Rightarrow> session_meta \<Rightarrow> session_meta" where
  "mark_degraded reason m =
     m\<lparr>sm_degraded := True, sm_flags := (if reason \<noteq> [] then dset ''degraded_reason'' (PStr reason) (sm_flags m) else sm_flags m)\<rparr>"

definition idle_ttl :: int where
  "idle_ttl = 15 * 60"

definition expired_meta :: "pyfloat \<Rightarrow> session_meta \<Rightarrow> bool" where
  "expired_meta now m \<longleftrightarrow> now - sm_active m > of_int idle_ttl"

definition create_meta :: "pyfloat \<Rightarrow> string \<Rightarrow> string \<Rightarrow> string \<Rightarrow> string \<Rightarrow> string \<Rightarrow> metas \<Rightarrow> session_meta \<times> metas" where
  "create_meta now sid tenant user channel mode d =
     (let m = \<lparr>sm_session = sid, sm_tenant = tenant, sm_user = user, sm_channel = channel, sm_mode = mode, sm_started = now,
               sm_active = now, sm_turns = 0, sm_in = 0, sm_out = 0, sm_degraded = False, sm_flags = []\<rparr>
      in (m, dset sid m d))"

definition get_meta :: "pyfloat \<Rightarrow> string \<Rightarrow> metas \<Rightarrow> session_meta option \<times> metas" where
  "get_meta now sid d =
     (case dget d sid of
        None \<Rightarrow> (None, d)
      | Some m \<Rightarrow> if expired_meta now m then (None, ddel sid d) else (Some m, d))"

text \<open>\<open>update\<close> without keywords, as the service calls it.\<close>

definition update_meta :: "pyfloat \<Rightarrow> string \<Rightarrow> metas \<Rightarrow> session_meta option \<times> metas" where
  "update_meta now sid d =
     (case dget d sid of
        None \<Rightarrow> (None, d)
      | Some m \<Rightarrow> (Some (m\<lparr>sm_active := now\<rparr>), dset sid (m\<lparr>sm_active := now\<rparr>) d))"

definition delete_meta :: "string \<Rightarrow> metas \<Rightarrow> bool \<times> metas" where
  "delete_meta sid d = (if dget d sid \<noteq> None then (True, ddel sid d) else (False, d))"

definition cleanup_expired :: "pyfloat \<Rightarrow> metas \<Rightarrow> int \<times> metas" where
  "cleanup_expired now d =
     (int (length (filter (\<lambda>(sid, m). expired_meta now m) d)), filter (\<lambda>(sid, m). \<not> expired_meta now m) d)"

definition get_all_metas :: "pyfloat \<Rightarrow> metas \<Rightarrow> session_meta list \<times> metas" where
  "get_all_metas now d = (let d' = snd (cleanup_expired now d) in (map snd d', d'))"

definition count_metas :: "pyfloat \<Rightarrow> metas \<Rightarrow> int \<times> metas" where
  "count_metas now d = (let d' = snd (cleanup_expired now d) in (int (length d'), d'))"

section \<open>The service\<close>

record 'w service_state =
  sv_metas :: metas
  sv_rows :: "(row_key, profile_row) dict"
  sv_sums :: "summary_row list"
  sv_world :: 'w

record service_texts =
  tx_no_profile :: string
  tx_confirmed_mark :: string
  tx_other_mark :: string
  tx_confidence :: string
  tx_confirmed :: string
  tx_cut :: string

record 'w service_env =
  sv_cards :: "'w card_env"
  sv_store :: "'w sum_env option"
  sv_producer :: "(string \<Rightarrow> string \<Rightarrow> pydict \<Rightarrow> int \<Rightarrow> ('w, unit) io) option"
  sv_show :: "pyval \<Rightarrow> string"
  sv_bytes :: "string \<Rightarrow> int"
  sv_texts :: service_texts

type_synonym ('w, 'a) serve = "('w service_state, 'a) io"

definition cards_of :: "'w service_state \<Rightarrow> 'w mem_state" where
  "cards_of s = \<lparr>ms_rows = sv_rows s, ms_world = sv_world s\<rparr>"

definition on_cards :: "('w mem_state, 'a) io \<Rightarrow> ('w, 'a) serve" where
  "on_cards = io_on cards_of (\<lambda>c s. s\<lparr>sv_rows := ms_rows c, sv_world := ms_world c\<rparr>)"

definition on_sums :: "('w sum_state, 'a) io \<Rightarrow> ('w, 'a) serve" where
  "on_sums = io_on (\<lambda>s. \<lparr>st_rows = sv_sums s, st_world = sv_world s\<rparr>) (\<lambda>c s. s\<lparr>sv_sums := st_rows c, sv_world := st_world c\<rparr>)"

definition on_outside :: "('w, 'a) io \<Rightarrow> ('w, 'a) serve" where
  "on_outside = io_on sv_world (\<lambda>w s. s\<lparr>sv_world := w\<rparr>)"

definition on_metas :: "'w service_env \<Rightarrow> (pyfloat \<Rightarrow> metas \<Rightarrow> 'a \<times> metas) \<Rightarrow> ('w, 'a) serve" where
  "on_metas env f =
     io_bind (io_get (\<lambda>s. f (me_clock (sv_cards env) (sv_world s)) (sv_metas s))) (\<lambda>r.
     io_bind (io_modify (\<lambda>s. s\<lparr>sv_metas := snd r\<rparr>)) (\<lambda>_. io_return (fst r)))"

section \<open>Hooks of a session\<close>

text \<open>The metadata, whether the card has items, and no summaries.\<close>

definition on_session_start ::
  "'w service_env \<Rightarrow> string \<Rightarrow> string \<Rightarrow> string \<Rightarrow> string \<Rightarrow> string \<Rightarrow> ('w, session_meta \<times> bool \<times> int) serve" where
  "on_session_start env sid tenant user channel mode =
     io_bind (on_metas env (\<lambda>now. create_meta now sid tenant user channel mode)) (\<lambda>m.
     io_bind (on_cards (get_profile (sv_cards env) tenant user)) (\<lambda>items.
       io_return (m, int (length items) > 0, 0)))"

definition enqueue_task :: "'w service_env \<Rightarrow> string \<Rightarrow> string \<Rightarrow> pydict \<Rightarrow> int \<Rightarrow> ('w, unit) serve" where
  "enqueue_task env kind tenant payload priority =
     (case sv_producer env of
        None \<Rightarrow> io_return ()
      | Some f \<Rightarrow> io_try (on_outside (f kind tenant payload priority)) (\<lambda>e. io_return ()))"

definition enqueue_consolidate :: "'w service_env \<Rightarrow> string \<Rightarrow> string \<Rightarrow> string \<Rightarrow> int \<Rightarrow> ('w, unit) serve" where
  "enqueue_consolidate env tenant user sid turns =
     enqueue_task env ''memory_consolidate'' tenant [(''session_id'', PStr sid), (''user_id'', PStr user), (''turn_count'', PInt turns),
       (''trigger'', PStr ''turn_complete'')] 0"

definition enqueue_rollup :: "'w service_env \<Rightarrow> string \<Rightarrow> string \<Rightarrow> string \<Rightarrow> ('w, unit) serve" where
  "enqueue_rollup env tenant user sid =
     enqueue_task env ''memory_rollup'' tenant [(''session_id'', PStr sid), (''user_id'', PStr user), (''trigger'', PStr ''session_end'')] 1"

definition over_budget :: "int \<Rightarrow> int \<Rightarrow> bool" where
  "over_budget used mx \<longleftrightarrow> used > 0 \<and> mx > 0 \<and> of_int used / of_int mx \<ge> (8 / 10 :: pyfloat)"

text \<open>What a turn does to the metadata: the object in the store is changed in place.\<close>

definition account_turn :: "string \<Rightarrow> int \<Rightarrow> int \<Rightarrow> int \<Rightarrow> int \<Rightarrow> pyfloat \<Rightarrow> metas \<Rightarrow> session_meta option \<times> metas" where
  "account_turn sid a b used mx now d =
     (case get_meta now sid d of
        (None, d1) \<Rightarrow> (None, d1)
      | (Some m, d1) \<Rightarrow>
          (let d2 = snd (update_meta now sid (dset sid (mark_turn_complete now a b m) d1))
           in if over_budget used mx
              then (case dget d2 sid of
                      None \<Rightarrow> (None, d2)
                    | Some m2 \<Rightarrow> update_meta now sid (dset sid (mark_degraded ''compaction_triggered'' m2) d2))
              else (dget d2 sid, d2)))"

definition on_turn_complete :: "'w service_env \<Rightarrow> string \<Rightarrow> int \<Rightarrow> int \<Rightarrow> int \<Rightarrow> int \<Rightarrow> ('w, unit) serve" where
  "on_turn_complete env sid a b used mx =
     io_bind (on_metas env (account_turn sid a b used mx)) (\<lambda>m.
       case m of None \<Rightarrow> io_return () | Some x \<Rightarrow> enqueue_consolidate env (sm_tenant x) (sm_user x) sid (sm_turns x))"

definition on_session_end :: "'w service_env \<Rightarrow> string \<Rightarrow> ('w, unit) serve" where
  "on_session_end env sid =
     io_bind (on_metas env (\<lambda>now. get_meta now sid)) (\<lambda>m.
     io_bind (case m of None \<Rightarrow> io_return () | Some x \<Rightarrow> enqueue_rollup env (sm_tenant x) (sm_user x) sid) (\<lambda>_.
     io_bind (on_metas env (\<lambda>now. delete_meta sid)) (\<lambda>_. io_return ())))"

section \<open>Recall\<close>

text \<open>A line of the profile: \<open>item.slot.value\<close> exists for a member only.\<close>

definition profile_line :: "'w service_env \<Rightarrow> profile_item \<Rightarrow> string res" where
  "profile_line env it =
     bind_res (dot_value slot_value (pi_slot it)) (\<lambda>slot.
       Inr (''- '' @ (if loose source_value (pi_source it) = ''user_confirmed'' then tx_confirmed_mark (sv_texts env) else tx_other_mark (sv_texts env)) @
         '' ['' @ slot @ ''] '' @ pi_key it @ '': '' @ sv_show env (pi_value it) @ '' ('' @ tx_confidence (sv_texts env) @ '':'' @
         str_int (pi_confidence it) @ ''%)'' @ (case pi_confirmed it of None \<Rightarrow> [] | Some x \<Rightarrow> if x \<noteq> 0 then tx_confirmed (sv_texts env) else [])))"

definition serialize_profile :: "'w service_env \<Rightarrow> profile_item list \<Rightarrow> string res" where
  "serialize_profile env items =
     (if items = [] then Inr (tx_no_profile (sv_texts env))
      else bind_res (map_res (profile_line env) items) (\<lambda>parts.
        let t = py_join [char_of (10 :: nat)] parts
        in Inr (if sv_bytes env t > 1500 then take 1400 t @ char_of (10 :: nat) # tx_cut (sv_texts env) else t)))"

definition is_turn_range_overlap :: "int \<times> int \<Rightarrow> int \<times> int \<Rightarrow> bool" where
  "is_turn_range_overlap p q \<longleftrightarrow> fst p \<le> snd q \<and> fst q \<le> snd p"

text \<open>The turns of an item are a pair of integers; anything else raises.\<close>

definition overlaps :: "pyval \<Rightarrow> int \<times> int \<Rightarrow> bool res" where
  "overlaps v q = (case v of PList [PInt a, PInt b] \<Rightarrow> Inr (is_turn_range_overlap (a, b) q) | _ \<Rightarrow> Inl TypeError)"

fun outside_window :: "int \<times> int \<Rightarrow> recalled_item list \<Rightarrow> recalled_item list res" where
  "outside_window q [] = Inr []"
| "outside_window q (it # items) =
     bind_res (overlaps (re_range it) q) (\<lambda>b. bind_res (outside_window q items) (\<lambda>rest. Inr (if b then rest else it # rest)))"

definition recall_sums ::
  "'w service_env \<Rightarrow> string \<Rightarrow> string \<Rightarrow> string \<Rightarrow> int \<Rightarrow> (int \<times> int) option \<Rightarrow> ('w, recalled_item list) serve" where
  "recall_sums env tenant user q k window =
     (case sv_store env of
        None \<Rightarrow> io_return []
      | Some st \<Rightarrow>
          (if q = [] then io_return []
           else io_try (io_bind (on_sums (recall_summaries st tenant user q k)) (\<lambda>raw.
                  io_bind (io_res (case window of None \<Rightarrow> Inr raw | Some r \<Rightarrow> outside_window r raw)) (\<lambda>kept.
                    io_return (py_take k kept)))) (\<lambda>e. io_return [])))"

definition recall_memory ::
  "'w service_env \<Rightarrow> string \<Rightarrow> string \<Rightarrow> string \<Rightarrow> int \<Rightarrow> (int \<times> int) option \<Rightarrow> ('w, string \<times> recalled_item list) serve" where
  "recall_memory env tenant user q k window =
     io_bind (io_try (on_cards (get_profile (sv_cards env) tenant user)) (\<lambda>e. io_return [])) (\<lambda>items.
     io_bind (io_res (serialize_profile env items)) (\<lambda>block.
     io_bind (recall_sums env tenant user q k window) (\<lambda>summaries. io_return (block, summaries))))"

section \<open>Operations of the interface\<close>

definition save_memory_summary ::
  "'w service_env \<Rightarrow> string \<Rightarrow> string \<Rightarrow> string \<Rightarrow> string \<Rightarrow> string \<Rightarrow> pyval \<Rightarrow> pyval \<Rightarrow> ('w, string option) serve" where
  "save_memory_summary env i tenant user sid content topics ents =
     (case sv_store env of
        None \<Rightarrow> io_return None
      | Some st \<Rightarrow>
          io_try (on_sums (save_summary st i tenant user sid content (py_or topics (PList [])) (py_or ents (PDict [])) 0 0))
            (\<lambda>e. io_return None))"

definition update_profile ::
  "'w service_env \<Rightarrow> string \<Rightarrow> string \<Rightarrow> slot_type member \<Rightarrow> string \<Rightarrow> pyval \<Rightarrow> int \<Rightarrow> source_type member \<Rightarrow> ('w, update_result) serve" where
  "update_profile env tenant user slot key v conf src = on_cards (upsert_item (sv_cards env) tenant user slot key v conf src)"

definition forget :: "'w service_env \<Rightarrow> string \<Rightarrow> string \<Rightarrow> slot_type member \<Rightarrow> string \<Rightarrow> ('w, bool) serve" where
  "forget env tenant user slot key = on_cards (delete_item (sv_cards env) tenant user slot key)"

definition conflict_dict :: "memory_conflict \<Rightarrow> pydict res" where
  "conflict_dict c =
     bind_res (dot_value slot_value (cf_slot c)) (\<lambda>slot. bind_res (dot_value source_value (cf_source c)) (\<lambda>src.
       Inr [(''conflict_id'', PStr (cf_id c)), (''slot'', PStr slot), (''item_key'', PStr (cf_key c)), (''old_value'', cf_old c),
         (''new_value'', cf_new c), (''source'', PStr src), (''created_at'', PFloat (cf_created c))]))"

abbreviation conflicts :: "'w service_env \<Rightarrow> 'w mem_env" where
  "conflicts env \<equiv> base (sv_cards env)"

definition list_conflicts :: "'w service_env \<Rightarrow> string \<Rightarrow> string \<Rightarrow> ('w, pydict list) serve" where
  "list_conflicts env tenant user =
     io_bind (on_outside (get_pending_conflicts (conflicts env) tenant user)) (\<lambda>cs. io_res (map_res conflict_dict cs))"

text \<open>A decision on a conflict. The tenant and the user of the caller are not compared with those of the conflict.\<close>

definition apply_resolution ::
  "'w service_env \<Rightarrow> string \<Rightarrow> string \<Rightarrow> memory_conflict \<Rightarrow> string \<Rightarrow> pydict \<Rightarrow> ('w, pydict) serve" where
  "apply_resolution env tenant user c resolution d =
     (if resolution \<in> {''use_new'', ''manual''} \<and> d \<noteq> []
      then io_bind (io_res (py_item (PDict d) ''final_value'')) (\<lambda>v.
           io_bind (update_profile env tenant user (cf_slot c) (cf_key c) v 80 (Member USER_CONFIRMED)) (\<lambda>r.
             io_return (dset ''profile_update''
               (PDict [(''success'', PBool (fst r)), (''item'', case fst (snd r) of None \<Rightarrow> PNone | Some it \<Rightarrow> pi_value it)]) d)))
      else io_return d)"

definition resolve_conflict ::
  "'w service_env \<Rightarrow> string \<Rightarrow> string \<Rightarrow> string \<Rightarrow> string \<Rightarrow> pyval \<Rightarrow> ('w, pydict) serve" where
  "resolve_conflict env tenant user cid resolution manual =
     io_bind (on_outside (get_conflict (conflicts env) cid)) (\<lambda>conflict.
       case conflict of
         None \<Rightarrow> io_raise (Py (ValueError (''Conflict '' @ cid @ '' not found'')))
       | Some c \<Rightarrow>
           io_bind (on_outside (cm_resolve_conflict (conflicts env) cid resolution manual)) (\<lambda>r.
             case r of
               (False, None) \<Rightarrow> io_raise (Py AttributeError)
             | (False, Some d) \<Rightarrow> io_raise (Py (ValueError (str_of (dget_or d ''error'' (PStr ''Failed to resolve conflict'')))))
             | (True, None) \<Rightarrow> io_return []
             | (True, Some d) \<Rightarrow> apply_resolution env tenant user c resolution d))"

definition delete_conflict :: "'w service_env \<Rightarrow> string \<Rightarrow> string \<Rightarrow> string \<Rightarrow> ('w, bool) serve" where
  "delete_conflict env tenant user cid = on_outside (cm_delete_conflict (conflicts env) cid)"

text \<open>\<open>ProfileItem.to_dict\<close> and \<open>ConflictRef.to_dict\<close>.\<close>

definition entry_id :: "profile_item \<Rightarrow> string" where
  "entry_id it =
     (case pi_id it of Some i \<Rightarrow> if i \<noteq> [] then i else loose slot_value (pi_slot it) @ '':'' @ pi_key it
      | None \<Rightarrow> loose slot_value (pi_slot it) @ '':'' @ pi_key it)"

definition entry_dict :: "profile_item \<Rightarrow> pydict" where
  "entry_dict it = (''id'', PStr (entry_id it)) # item_to_dict it"

definition list_entries :: "'w service_env \<Rightarrow> string \<Rightarrow> string \<Rightarrow> slot_type option \<Rightarrow> ('w, pydict) serve" where
  "list_entries env tenant user slot =
     io_bind (on_cards (get_profile (sv_cards env) tenant user)) (\<lambda>items.
       let kept = (case slot of None \<Rightarrow> items | Some sl \<Rightarrow> filter (\<lambda>it. loose slot_value (pi_slot it) = slot_value sl) items)
       in io_return [(''items'', PList (map (\<lambda>it. PDict (entry_dict it)) kept)), (''total'', PInt (int (length kept)))])"

definition conflict_ref_dict :: "memory_conflict \<Rightarrow> pyfloat option \<Rightarrow> pydict res" where
  "conflict_ref_dict c confirmed =
     bind_res (dot_value slot_value (cf_slot c)) (\<lambda>slot.
       Inr [(''conflict_id'', PStr (cf_id c)), (''slot'', PStr slot), (''item_key'', PStr (cf_key c)), (''old_value'', cf_old c),
         (''new_value'', cf_new c), (''old_source'', PStr (source_value USER_CONFIRMED)), (''old_confirmed_at'', opt_float confirmed),
         (''status'', PStr ''pending'')])"

definition upsert :: "'w service_env \<Rightarrow> string \<Rightarrow> string \<Rightarrow> string \<Rightarrow> string \<Rightarrow> string \<Rightarrow> int \<Rightarrow> string \<Rightarrow> ('w, pydict) serve" where
  "upsert env tenant user slot key v conf src =
     io_bind (io_res (slot_of slot)) (\<lambda>sl. io_bind (io_res (source_of src)) (\<lambda>so.
     io_bind (update_profile env tenant user (Member sl) key (PStr v) conf (Member so)) (\<lambda>r.
     io_bind (case snd (snd r) of
                None \<Rightarrow> io_return []
              | Some (c, t) \<Rightarrow> io_bind (io_res (conflict_ref_dict c t)) (\<lambda>d. io_return [(''conflict'', PDict d)])) (\<lambda>conflict.
       io_return ((''success'', PBool True) # conflict @
         (case fst (snd r) of None \<Rightarrow> [] | Some it \<Rightarrow> [(''item'', PDict (entry_dict it))]))))))"

definition update_entry ::
  "'w service_env \<Rightarrow> string \<Rightarrow> string \<Rightarrow> string \<Rightarrow> string option \<Rightarrow> string option \<Rightarrow> int option \<Rightarrow> string option \<Rightarrow>
   ('w, profile_item option) serve" where
  "update_entry env tenant user eid key v conf src =
     io_bind (on_cards (get_profile (sv_cards env) tenant user)) (\<lambda>items.
       case find (\<lambda>it. entry_id it = eid) items of
         None \<Rightarrow> io_return None
       | Some it \<Rightarrow>
           io_bind (case src of None \<Rightarrow> io_return (pi_source it)
                    | Some s \<Rightarrow> if s = [] then io_return (pi_source it) else io_bind (io_res (source_of s)) (\<lambda>so. io_return (Member so))) (\<lambda>new_src.
           io_bind (on_cards (upsert_item (sv_cards env) tenant user (pi_slot it) (case key of None \<Rightarrow> pi_key it | Some k \<Rightarrow> k)
                      (case v of None \<Rightarrow> pi_value it | Some x \<Rightarrow> PStr x) (case conf of None \<Rightarrow> pi_confidence it | Some c \<Rightarrow> c) new_src)) (\<lambda>r.
             io_return (fst (snd r)))))"

definition member_slot :: "slot_type member \<Rightarrow> slot_type member res" where
  "member_slot sl = (case sl of Member x \<Rightarrow> Inr (Member x) | Plain s \<Rightarrow> bind_res (slot_of s) (\<lambda>x. Inr (Member x)))"

definition delete_listed :: "'w service_env \<Rightarrow> string \<Rightarrow> string \<Rightarrow> profile_item \<Rightarrow> ('w, bool) serve" where
  "delete_listed env tenant user it =
     io_bind (io_res (member_slot (pi_slot it))) (\<lambda>sl. on_cards (delete_item (sv_cards env) tenant user sl (pi_key it)))"

definition delete_entry :: "'w service_env \<Rightarrow> string \<Rightarrow> string \<Rightarrow> string \<Rightarrow> ('w, bool) serve" where
  "delete_entry env tenant user eid =
     io_bind (on_cards (get_profile (sv_cards env) tenant user)) (\<lambda>items.
       case find (\<lambda>it. entry_id it = eid) items of None \<Rightarrow> io_return False | Some it \<Rightarrow> delete_listed env tenant user it)"

definition clear_all :: "'w service_env \<Rightarrow> string \<Rightarrow> string \<Rightarrow> ('w, int) serve" where
  "clear_all env tenant user =
     io_bind (on_cards (get_profile (sv_cards env) tenant user)) (\<lambda>items.
     io_bind (io_map (delete_listed env tenant user) items) (\<lambda>bs. io_return (int (length (filter id bs)))))"

text \<open>The summaries found, their number, and that nothing was cut.\<close>

definition search :: "'w service_env \<Rightarrow> string \<Rightarrow> string \<Rightarrow> string \<Rightarrow> int \<Rightarrow> ('w, recalled_item list \<times> int \<times> bool) serve" where
  "search env tenant user q k =
     io_bind (recall_memory env tenant user q k None) (\<lambda>r. io_return (snd r, int (length (snd r)), False))"

text \<open>An entry has no \<open>to_dict\<close>, so any summary raises.\<close>

definition list_summaries :: "'w service_env \<Rightarrow> string \<Rightarrow> string \<Rightarrow> int \<Rightarrow> ('w, pydict) serve" where
  "list_summaries env tenant user limit =
     (case sv_store env of
        None \<Rightarrow> io_return [(''summaries'', PList []), (''total'', PInt 0)]
      | Some st \<Rightarrow>
          io_bind (on_sums (list_active st tenant user limit)) (\<lambda>es.
            if es = [] then io_return [(''summaries'', PList []), (''total'', PInt 0)] else io_raise (Py AttributeError)))"

end
