(* ===== verification/MemoryProps.thy ===== *)
theory MemoryProps
  imports MemoryService AgentProps "HOL-Library.Multiset"
begin

text \<open>
  What the memory service promises to the agent and to the user: accounting of turns, conflicts and
  decisions, clearing; and what becomes of a profile that is cached.
\<close>

section \<open>Runs on the parts of the state\<close>

lemma on_cards_run:
  "on_cards m s = (fst (m (cards_of s)), s\<lparr>sv_rows := ms_rows (snd (m (cards_of s))), sv_world := ms_world (snd (m (cards_of s)))\<rparr>)"
  by (simp add: on_cards_def io_on_run)

lemma on_outside_run: "on_outside m s = (fst (m (sv_world s)), s\<lparr>sv_world := snd (m (sv_world s))\<rparr>)"
  by (simp add: on_outside_def io_on_run)

lemma on_metas_run:
  "on_metas env f s = (Inr (fst (f (me_clock (sv_cards env) (sv_world s)) (sv_metas s))),
     s\<lparr>sv_metas := snd (f (me_clock (sv_cards env) (sv_world s)) (sv_metas s))\<rparr>)"
  by (simp add: on_metas_def io_bind_run)

lemma cards_of_sel [simp]: "ms_rows (cards_of s) = sv_rows s" "ms_world (cards_of s) = sv_world s"
  by (simp_all add: cards_of_def)

lemma keeps_on_cards:
  "(\<And>s d w. f (s\<lparr>sv_rows := d, sv_world := w\<rparr>) = f s) \<Longrightarrow> keeps f (on_cards m)"
  by (simp add: keeps_def on_cards_run)

lemma keeps_on_outside: "(\<And>s w. f (s\<lparr>sv_world := w\<rparr>) = f s) \<Longrightarrow> keeps f (on_outside m)"
  by (simp add: keeps_def on_outside_run)

lemma keeps_enqueue: "(\<And>s w. f (s\<lparr>sv_world := w\<rparr>) = f s) \<Longrightarrow> keeps f (enqueue_task env kind tenant payload priority)"
  by (auto simp: enqueue_task_def intro!: keeps_try keeps_on_outside split: option.split)

section \<open>Accounting\<close>

lemma account_turn_live:
  assumes "dget d sid = Some m" and "\<not> expired_meta now m"
  shows "\<exists>m'. account_turn sid a b used mx now d = (Some m', dset sid m' d) \<and>
    sm_turns m' = sm_turns m + 1 \<and> sm_in m' = sm_in m + a \<and> sm_out m' = sm_out m + b \<and> sm_active m' = now \<and>
    sm_degraded m' = (sm_degraded m \<or> over_budget used mx) \<and>
    (sm_session m', sm_tenant m', sm_user m', sm_started m') = (sm_session m, sm_tenant m, sm_user m, sm_started m)"
proof -
  have twice: "dset k v (dset k v' d) = dset k v d" for k :: string and v v' :: session_meta
    by (induction d) auto
  show ?thesis
    using assms by (simp add: account_turn_def get_meta_def update_meta_def mark_turn_complete_def mark_degraded_def Let_def twice)
qed

text \<open>A turn of a live session is booked: the number of its turns and its tokens grow by the turn, it is marked
  as degraded from four fifths of the budget on, and no other session and no memory changes, whatever the
  queue answers.\<close>

theorem turn_is_booked:
  assumes "dget (sv_metas s) sid = Some m" and "\<not> expired_meta (me_clock (sv_cards env) (sv_world s)) m"
  shows "\<exists>m' s'. on_turn_complete env sid a b used mx s = (Inr (), s') \<and> sv_metas s' = dset sid m' (sv_metas s) \<and>
    sm_turns m' = sm_turns m + 1 \<and> sm_in m' = sm_in m + a \<and> sm_out m' = sm_out m + b \<and>
    sm_degraded m' = (sm_degraded m \<or> over_budget used mx) \<and> (sm_tenant m', sm_user m') = (sm_tenant m, sm_user m) \<and>
    sv_rows s' = sv_rows s \<and> sv_sums s' = sv_sums s"
proof -
  obtain m' where m': "account_turn sid a b used mx (me_clock (sv_cards env) (sv_world s)) (sv_metas s) = (Some m', dset sid m' (sv_metas s))"
    "sm_turns m' = sm_turns m + 1" "sm_in m' = sm_in m + a" "sm_out m' = sm_out m + b"
    "sm_degraded m' = (sm_degraded m \<or> over_budget used mx)" "sm_tenant m' = sm_tenant m" "sm_user m' = sm_user m"
    using account_turn_live [OF assms] by blast
  let ?s1 = "s\<lparr>sv_metas := dset sid m' (sv_metas s)\<rparr>"
  obtain s2 where s2: "enqueue_consolidate env (sm_tenant m') (sm_user m') sid (sm_turns m') ?s1 = (Inr (), s2)"
    by (cases "sv_producer env")
      (auto simp: enqueue_consolidate_def enqueue_task_def io_try_run intro: that split: sum.splits)
  have "keeps (\<lambda>s. (sv_metas s, sv_rows s, sv_sums s)) (enqueue_consolidate env (sm_tenant m') (sm_user m') sid (sm_turns m'))"
    unfolding enqueue_consolidate_def by (rule keeps_enqueue) simp
  from keepsD [OF this, of ?s1] have "sv_metas s2 = sv_metas ?s1 \<and> sv_rows s2 = sv_rows s \<and> sv_sums s2 = sv_sums s"
    by (simp add: s2)
  moreover have "on_turn_complete env sid a b used mx s = (Inr (), s2)"
    by (simp add: on_turn_complete_def io_bind_run on_metas_run m'(1) s2)
  ultimately show ?thesis using m'(2-7) by (intro exI [of _ m'] exI [of _ s2]) simp
qed

section \<open>The cached profile\<close>

lemma cached_read:
  assumes "redis_laws env view" and "json_laws env"
    and "view (ms_world s) (card_cache_key t u) = Some (RText (card_text env items))"
  shows "get_profile env t u s = (Inr (map cached_form items), s)"
proof -
  have "card_text env items \<noteq> []" using assms(2) by (simp add: card_text_def json_laws_def)
  then show ?thesis
    by (simp add: get_profile_def io_bind_run on_world_run redis_get(2) [OF assms(1,3)] decode_card_text [OF assms(2)])
qed

lemma read_fills:
  assumes "redis_laws env view" and "json_laws env" and "coherent env view s" and "CHR '':'' \<notin> set t"
    and "card_items env t u (ms_rows s) \<noteq> []"
  obtains items w' where "get_profile env t u s = (Inr items, s\<lparr>ms_world := w'\<rparr>)" "items \<noteq> []"
    "view w' (card_cache_key t u) = Some (RText (card_text env (card_items env t u (ms_rows s))))"
proof (cases "view (ms_world s) (card_cache_key t u)")
  case None
  let ?items = "card_items env t u (ms_rows s)"
  have ok: "rows_ok (ms_rows s)" using assms(3) by (simp add: coherent_def)
  obtain w' where w': "me_setex env (card_cache_key t u) cache_ttl (card_text env ?items) (ms_world s) = (Inr (), w')"
    "view w' = (view (ms_world s))(card_cache_key t u \<mapsto> RText (card_text env ?items))"
    by (rule redis_put [OF assms(1)])
  have fill: "fill_cache env (card_cache_key t u) ?items s = (Inr (), s\<lparr>ms_world := w'\<rparr>)"
    using w'(1) by (simp add: fill_cache_def assms(5) io_try_run on_world_run card_text_def)
  have "get_profile env t u s = (Inr ?items, s\<lparr>ms_world := w'\<rparr>)"
    by (simp add: get_profile_def io_bind_run on_world_run redis_get(1) [OF assms(1) None] fetch_and_fill_def fetch_run [OF ok] fill)
  then show ?thesis using that assms(5) w'(2) by simp
next
  case (Some x)
  then have x: "view (ms_world s) (card_cache_key t u) = Some (RText (card_text env (card_items env t u (ms_rows s))))"
    using assms(3,4) unfolding coherent_def by (metis option.distinct(1))
  from cached_read [OF assms(1,2) this] show ?thesis
    using that [of "map cached_form (card_items env t u (ms_rows s))" "ms_world s"] assms(5) x by simp
qed

lemma cached_line: "profile_line env (cached_form it) = Inl AttributeError"
  by (simp add: profile_line_def cached_form_def)

lemma cached_profile: "items \<noteq> [] \<Longrightarrow> serialize_profile env (map cached_form items) = Inl AttributeError"
  by (cases items) (simp_all add: serialize_profile_def cached_line)

lemma start_then_recall:
  assumes "redis_laws (sv_cards env) view" and "json_laws (sv_cards env)" and "coherent (sv_cards env) view (cards_of s)"
    and "CHR '':'' \<notin> set t" and "card_items (sv_cards env) t u (sv_rows s) \<noteq> []"
  obtains r s1 where "on_session_start env sid t u ch mode s = (Inr r, s1)"
    "\<And>q k win. recall_memory env t u q k win s1 = (Inl (Py AttributeError), s1)"
proof -
  let ?m = "create_meta (me_clock (sv_cards env) (sv_world s)) sid t u ch mode (sv_metas s)"
  let ?s0 = "s\<lparr>sv_metas := snd ?m\<rparr>"
  have c0: "cards_of ?s0 = cards_of s" by (simp add: cards_of_def)
  obtain items w' where g: "get_profile (sv_cards env) t u (cards_of s) = (Inr items, (cards_of s)\<lparr>ms_world := w'\<rparr>)"
    "view w' (card_cache_key t u) = Some (RText (card_text (sv_cards env) (card_items (sv_cards env) t u (sv_rows s))))"
    using read_fills [OF assms(1-4), of u] assms(5) by (metis cards_of_sel(1))
  let ?s1 = "?s0\<lparr>sv_rows := sv_rows s, sv_world := w'\<rparr>"
  have start: "on_session_start env sid t u ch mode s = (Inr (fst ?m, int (length items) > 0, 0), ?s1)"
    by (simp add: on_session_start_def io_bind_run on_metas_run on_cards_run c0 g(1))
  have "get_profile (sv_cards env) t u (cards_of ?s1) =
      (Inr (map cached_form (card_items (sv_cards env) t u (sv_rows s))), cards_of ?s1)"
    by (rule cached_read [OF assms(1,2)]) (simp add: g(2))
  then have "recall_memory env t u q k win ?s1 = (Inl (Py AttributeError), ?s1)" for q k win
    by (simp add: recall_memory_def io_bind_run io_try_run on_cards_run cached_profile [OF assms(5)])
  with start show ?thesis by (rule that)
qed

text \<open>Once a session has started, the card of a user with items is cached, and every recall for him raises:
  an item read from the cache has no slot member.\<close>

theorem cached_profile_breaks_recall:
  assumes "redis_laws (sv_cards env) view" and "json_laws (sv_cards env)" and "coherent (sv_cards env) view (cards_of s)"
    and "CHR '':'' \<notin> set t" and "card_items (sv_cards env) t u (sv_rows s) \<noteq> []"
  shows "fst (recall_memory env t u q k win (snd (on_session_start env sid t u ch mode s))) = Inl (Py AttributeError)"
proof -
  obtain r s1 where "on_session_start env sid t u ch mode s = (Inr r, s1)"
    "\<And>q k win. recall_memory env t u q k win s1 = (Inl (Py AttributeError), s1)"
    using start_then_recall [OF assms] by metis
  then show ?thesis by simp
qed


section \<open>The agent with the service\<close>





section \<open>Decisions on conflicts\<close>

definition stored_conflict :: "('w \<Rightarrow> string \<Rightarrow> redis_val option) \<Rightarrow> 'w mem_env \<Rightarrow> memory_conflict \<Rightarrow> slot_type \<Rightarrow> source_type \<Rightarrow> 'w \<Rightarrow> bool" where
  "stored_conflict view env c sl so w \<longleftrightarrow> cf_slot c = Member sl \<and> cf_source c = Member so \<and>
     view w (pending_key (cf_id c)) = Some (RText (me_dumps env (PDict (conflict_data c (slot_value sl) (source_value so)))))"

lemma stored_get:
  assumes "redis_laws env view" and "json_laws env" and "stored_conflict view env c sl so w"
  shows "get_conflict env (cf_id c) w = (Inr (Some c), w)"
  by (rule get_stored [OF assms(1,2), of w c sl so]) (use assms(3) in \<open>simp_all add: stored_conflict_def\<close>)

text \<open>What the dialogue leaves: the record and its entry in the list are gone.\<close>

lemma cm_resolve_run:
  assumes "redis_laws env view" and "json_laws env" and "stored_conflict view env c sl so w"
    and "final_value (PDict (conflict_data c (slot_value sl) (source_value so))) resolution manual = Inr (Inr x)"
  obtains w' where "cm_resolve_conflict env (cf_id c) resolution manual w =
      (Inr (True, Some [(''conflict_id'', PStr (cf_id c)), (''final_value'', x), (''resolution'', PStr resolution),
         (''slot'', PStr (slot_value sl)), (''item_key'', PStr (cf_key c))]), w')"
    "view w' = (view w)(pending_key (cf_id c) := None, pending_list_key (cf_tenant c) (cf_user c) \<mapsto>
       RSet (members (view w) (pending_list_key (cf_tenant c) (cf_user c)) - {cf_id c}))"
proof -
  let ?v = "PDict (conflict_data c (slot_value sl) (source_value so))"
  have get: "me_get env (pending_key (cf_id c)) w = (Inr (Some (me_dumps env ?v)), w)"
    using assms(3) by (intro redis_get(2) [OF assms(1)]) (simp add: stored_conflict_def)
  have json: "me_dumps env ?v \<noteq> []" "me_loads env (me_dumps env ?v) = Inr ?v" using assms(2) by (simp_all add: json_laws_def)
  obtain w' where w': "drop_pending env (cf_id c) ?v w = (Inr (), w')"
    "view w' = (view w)(pending_key (cf_id c) := None, pending_list_key (cf_tenant c) (cf_user c) \<mapsto>
       RSet (members (view w) (pending_list_key (cf_tenant c) (cf_user c)) - {cf_id c}))"
    by (rule drop_pending_run [OF assms(1)])
  have items: "py_item ?v ''slot'' = Inr (PStr (slot_value sl))" "py_item ?v ''item_key'' = Inr (PStr (cf_key c))"
    by (simp_all add: py_item_def conflict_data_def)
  show ?thesis
    by (rule that [OF _ w'(2)])
      (simp add: cm_resolve_conflict_def io_bind_run get json assms(4) w'(1) items)
qed

lemma final_values:
  "final_value (PDict (conflict_data c sl so)) ''keep_old'' manual = Inr (Inr (cf_old c))"
  "final_value (PDict (conflict_data c sl so)) ''use_new'' manual = Inr (Inr (cf_new c))"
  by (simp_all add: final_value_def py_item_def conflict_data_def)

lemma resolve_kept:
  assumes "redis_laws (sv_cards env) view" and "json_laws (sv_cards env)" and "stored_conflict view (conflicts env) c sl so (sv_world s)"
  obtains d w' where "resolve_conflict env t u (cf_id c) ''keep_old'' manual s = (Inr d, s\<lparr>sv_world := w'\<rparr>)"
    "view w' = (view (sv_world s))(pending_key (cf_id c) := None, pending_list_key (cf_tenant c) (cf_user c) \<mapsto>
       RSet (members (view (sv_world s)) (pending_list_key (cf_tenant c) (cf_user c)) - {cf_id c}))"
proof -
  have laws: "redis_laws (conflicts env) view" "json_laws (conflicts env)" using assms(1,2) by simp_all
  obtain w' where w': "cm_resolve_conflict (conflicts env) (cf_id c) ''keep_old'' manual (sv_world s) =
      (Inr (True, Some [(''conflict_id'', PStr (cf_id c)), (''final_value'', cf_old c), (''resolution'', PStr ''keep_old''),
         (''slot'', PStr (slot_value sl)), (''item_key'', PStr (cf_key c))]), w')"
    "view w' = (view (sv_world s))(pending_key (cf_id c) := None, pending_list_key (cf_tenant c) (cf_user c) \<mapsto>
       RSet (members (view (sv_world s)) (pending_list_key (cf_tenant c) (cf_user c)) - {cf_id c}))"
    by (rule cm_resolve_run [OF laws assms(3) final_values(1)])
  show ?thesis
    by (rule that [OF _ w'(2)])
      (simp add: resolve_conflict_def io_bind_run on_outside_run stored_get [OF laws assms(3)] w'(1) apply_resolution_def)
qed

text \<open>A write through the service that goes through.\<close>

lemma update_profile_run:
  assumes "redis_laws (sv_cards env) view" and "rows_ok (sv_rows s)"
    and "dget (sv_rows s) (t, u, slot_value sl, k) = old" and "\<And>r. old = Some r \<Longrightarrow> pr_source r = source_value so'"
    and "detect_and_handle_conflict (conflicts env) t u (Member sl) k v (Member so) (map_option (row_item sl k so') old) (sv_world s) =
      (Inr (False, None), w1)"
    and "ce_column (sv_cards env) (bound_value (sv_cards env) v) = Inr x"
  obtains w' where "update_profile env t u (Member sl) k v conf (Member so) s =
      (Inr (True, Some (row_item sl k so (written_row x conf so (me_clock (sv_cards env) (sv_world s)) old)), None),
       s\<lparr>sv_rows := dset (t, u, slot_value sl, k) (written_row x conf so (me_clock (sv_cards env) (sv_world s)) old) (sv_rows s), sv_world := w'\<rparr>)"
    "view w' = (view w1)(card_cache_key t u := None)"
proof -
  let ?c = "cards_of s" and ?now = "me_clock (sv_cards env) (sv_world s)"
  have up: "upsert_item (sv_cards env) t u (Member sl) k v conf (Member so) ?c =
      write_item (sv_cards env) t u (Member sl) k v conf (Member so) ?now (map_option (row_item sl k so') old) (?c\<lparr>ms_world := w1\<rparr>)"
    using upsert_run [OF assms(1), of ?c t u sl k old so' v so False None w1 conf] assms(2-5) by simp
  obtain w' where w': "write_item (sv_cards env) t u (Member sl) k v conf (Member so) ?now (map_option (row_item sl k so') old) (?c\<lparr>ms_world := w1\<rparr>) =
      (Inr (True, Some (row_item sl k so (written_row x conf so ?now old)), None),
       (?c\<lparr>ms_world := w1\<rparr>)\<lparr>ms_rows := dset (t, u, slot_value sl, k) (written_row x conf so ?now old) (ms_rows (?c\<lparr>ms_world := w1\<rparr>)), ms_world := w'\<rparr>)"
    "view w' = (view (ms_world (?c\<lparr>ms_world := w1\<rparr>)))(card_cache_key t u := None)"
    by (rule write_item_run [OF assms(1,6), where s = "?c\<lparr>ms_world := w1\<rparr>" and old = old and so' = so' and existing = "map_option (row_item sl k so') old"])
      (use assms(3) in simp_all)
  show ?thesis by (rule that [of w']) (simp_all add: update_profile_def on_cards_run up w')
qed

lemma detect_confirmed:
  "detect_and_handle_conflict env t u sl k v (Member USER_CONFIRMED) ex w = (Inr (False, None), w)"
  by (simp add: detect_and_handle_conflict_def split: option.split)

lemma no_conflict:
  "redis_laws env view \<Longrightarrow> view w (pending_key cid) = None \<Longrightarrow> get_conflict env cid w = (Inr None, w)"
  by (simp add: get_conflict_def io_bind_run redis_get(1))

lemma user_rows_dset:
  "(t', u') \<noteq> (t, u) \<Longrightarrow> user_rows t' u' (dset (t, u, sl, k) r d) = user_rows t' u' d"
  by (rule user_rows_others [of t u])
    (simp_all add: filter_dset_other [where P = "\<lambda>q. (fst q, fst (snd q)) \<noteq> (t, u)", simplified])

lemma written_value [simp]: "pr_value (written_row x conf so now old) = x"
  by (simp add: written_row_def split: option.split)

lemma rows_source:
  assumes "rows_ok d"
  shows "\<exists>so'. \<forall>r. dget d (t, u, slot_value sl, k) = Some r \<longrightarrow> pr_source r = source_value so'"
  using rows_ok_source [OF assms, of t u "slot_value sl" k] by (metis option.inject not_None_eq)

text \<open>A conflict can be decided by anyone who has its identifier: the value it holds is written as a confirmed item
  into the card of the caller, the conflict is gone, and the card of the user it was raised for is as it was.\<close>

theorem foreign_conflict_is_taken:
  assumes "redis_laws (sv_cards env) view" and "json_laws (sv_cards env)" and "rows_ok (sv_rows s)"
    and "stored_conflict view (conflicts env) c sl so (sv_world s)" and "(t, u) \<noteq> (cf_tenant c, cf_user c)"
    and "ce_column (sv_cards env) (bound_value (sv_cards env) (cf_new c)) = Inr x"
  shows "\<exists>d s' r. resolve_conflict env t u (cf_id c) ''use_new'' manual s = (Inr d, s') \<and>
    dget (sv_rows s') (t, u, slot_value sl, cf_key c) = Some r \<and> pr_value r = x \<and> pr_source r = ''user_confirmed'' \<and>
    user_rows (cf_tenant c) (cf_user c) (sv_rows s') = user_rows (cf_tenant c) (cf_user c) (sv_rows s) \<and>
    get_conflict (conflicts env) (cf_id c) (sv_world s') = (Inr None, sv_world s')"
proof -
  have laws: "redis_laws (conflicts env) view" "json_laws (conflicts env)" using assms(1,2) by simp_all
  obtain w1 where w1: "cm_resolve_conflict (conflicts env) (cf_id c) ''use_new'' manual (sv_world s) =
      (Inr (True, Some [(''conflict_id'', PStr (cf_id c)), (''final_value'', cf_new c), (''resolution'', PStr ''use_new''),
         (''slot'', PStr (slot_value sl)), (''item_key'', PStr (cf_key c))]), w1)"
    "view w1 = (view (sv_world s))(pending_key (cf_id c) := None, pending_list_key (cf_tenant c) (cf_user c) \<mapsto>
       RSet (members (view (sv_world s)) (pending_list_key (cf_tenant c) (cf_user c)) - {cf_id c}))"
    by (rule cm_resolve_run [OF laws assms(4) final_values(2)])
  let ?s1 = "s\<lparr>sv_world := w1\<rparr>" and ?old = "dget (sv_rows s) (t, u, slot_value sl, cf_key c)"
  obtain so' where so': "\<forall>r. ?old = Some r \<longrightarrow> pr_source r = source_value so'" using rows_source [OF assms(3)] by blast
  let ?row = "written_row x 80 USER_CONFIRMED (me_clock (sv_cards env) w1) ?old"
  obtain w2 where w2: "update_profile env t u (Member sl) (cf_key c) (cf_new c) 80 (Member USER_CONFIRMED) ?s1 =
      (Inr (True, Some (row_item sl (cf_key c) USER_CONFIRMED ?row), None),
       ?s1\<lparr>sv_rows := dset (t, u, slot_value sl, cf_key c) ?row (sv_rows ?s1), sv_world := w2\<rparr>)"
    "view w2 = (view w1)(card_cache_key t u := None)"
    by (rule update_profile_run [OF assms(1), of ?s1 t u sl "cf_key c" ?old so' "cf_new c" USER_CONFIRMED w1 x 80])
      (use assms(3,6) so' detect_confirmed in simp_all)
  let ?s2 = "s\<lparr>sv_rows := dset (t, u, slot_value sl, cf_key c) ?row (sv_rows s), sv_world := w2\<rparr>"
  have slot: "cf_slot c = Member sl" using assms(4) by (simp add: stored_conflict_def)
  have "\<exists>d. resolve_conflict env t u (cf_id c) ''use_new'' manual s = (Inr d, ?s2)"
    using w2(1) by (simp add: resolve_conflict_def io_bind_run on_outside_run stored_get [OF laws assms(4)] w1(1)
      apply_resolution_def py_item_def slot)
  moreover have "view w2 (pending_key (cf_id c)) = None" by (simp add: w2(2) w1(2) card_key_kinds [symmetric])
  ultimately show ?thesis
    using no_conflict [OF laws(1)] assms(5) by (auto simp: user_rows_dset dest: sym)
qed

text \<open>A decision to keep the confirmed value does not last: the count of derived values is not reset, so the next
  derived value, whatever it is, replaces the confirmed one, and the item still bears the time of the confirmation.\<close>

theorem kept_value_is_overwritten:
  assumes "redis_laws (sv_cards env) view" and "json_laws (sv_cards env)" and "rows_ok (sv_rows s)"
    and "dget (sv_rows s) (t, u, slot_value sl, k) = Some r" and "pr_source r = ''user_confirmed''"
    and "view (sv_world s) (derived_count_key t u (slot_value sl) k) = None"
    and "ce_column (sv_cards env) (bound_value (sv_cards env) v2) = Inr x"
  shows "\<exists>c it t1 s1 d s2 r3 s3. update_profile env t u (Member sl) k v1 c1 (Member DERIVED) s = (Inr (False, Some it, Some (c, t1)), s1) \<and>
    sv_rows s1 = sv_rows s \<and> resolve_conflict env t u (cf_id c) ''keep_old'' PNone s1 = (Inr d, s2) \<and> sv_rows s2 = sv_rows s \<and>
    update_profile env t u (Member sl) k v2 c2 (Member DERIVED) s2 = (Inr r3, s3) \<and> fst r3 = True \<and>
    dget (sv_rows s3) (t, u, slot_value sl, k) = Some (r\<lparr>pr_value := x, pr_confidence := c2, pr_source := ''derived'',
      pr_version := pr_version r + 1, pr_updated := me_clock (sv_cards env) (sv_world s2)\<rparr>)"
proof -
  have laws: "redis_laws (conflicts env) view" "json_laws (conflicts env)" using assms(1,2) by simp_all
  let ?it = "row_item sl k USER_CONFIRMED r" and ?K = "derived_count_key t u (slot_value sl) k"
  have conf: "loose source_value (pi_source ?it) = ''user_confirmed''" by (simp add: row_item_def)
  obtain c w1 w' where d1: "detect_and_handle_conflict (conflicts env) t u (Member sl) k v1 (Member DERIVED) (Some ?it) (sv_world s) = (Inr (True, Some c), w')"
    "c = new_conflict (conflicts env) (me_clock (conflicts env) w1) t u sl k (pi_value ?it) v1 DERIVED"
    "view w' = pending_after view (conflicts env) c (slot_value sl) ''derived'' w1" "view w1 = (view (sv_world s))(?K \<mapsto> RCount 1)"
    by (rule detect_derived_first [OF laws(1) conf assms(6)])
  let ?s1 = "s\<lparr>sv_world := w'\<rparr>"
  have "upsert_item (sv_cards env) t u (Member sl) k v1 c1 (Member DERIVED) (cards_of s) =
      (Inr (False, Some ?it, Some (c, pr_confirmed r)), (cards_of s)\<lparr>ms_world := w'\<rparr>)"
    using upsert_run [OF assms(1), of "cards_of s" t u sl k "Some r" USER_CONFIRMED v1 DERIVED True "Some c" w' c1] assms(3-5) d1(1) by simp
  then have up1: "update_profile env t u (Member sl) k v1 c1 (Member DERIVED) s = (Inr (False, Some ?it, Some (c, pr_confirmed r)), ?s1)"
    by (simp add: update_profile_def on_cards_run)
  have stored: "stored_conflict view (conflicts env) c sl DERIVED (sv_world ?s1)"
    by (simp add: stored_conflict_def d1(2,3) pending_after_views)
  obtain d w2 where d2: "resolve_conflict env t u (cf_id c) ''keep_old'' PNone ?s1 = (Inr d, ?s1\<lparr>sv_world := w2\<rparr>)"
    "view w2 = (view w')(pending_key (cf_id c) := None, pending_list_key (cf_tenant c) (cf_user c) \<mapsto>
       RSet (members (view w') (pending_list_key (cf_tenant c) (cf_user c)) - {cf_id c}))"
    using resolve_kept [OF assms(1,2) stored, of t u PNone] by auto
  let ?s2 = "s\<lparr>sv_world := w2\<rparr>"
  have n: "view (sv_world ?s2) ?K = Some (RCount 1)" by (simp add: d2(2) d1(3,4) pending_after_views)
  obtain w3 where d3: "detect_and_handle_conflict (conflicts env) t u (Member sl) k v2 (Member DERIVED) (Some ?it) (sv_world ?s2) = (Inr (False, None), w3)"
    by (rule detect_derived_again [OF laws(1) conf n]) simp_all
  have src: "\<And>r'. Some r = Some r' \<Longrightarrow> pr_source r' = source_value USER_CONFIRMED" using assms(5) by simp
  obtain w4 where "update_profile env t u (Member sl) k v2 c2 (Member DERIVED) ?s2 =
      (Inr (True, Some (row_item sl k DERIVED (written_row x c2 DERIVED (me_clock (sv_cards env) (sv_world ?s2)) (Some r))), None),
       ?s2\<lparr>sv_rows := dset (t, u, slot_value sl, k) (written_row x c2 DERIVED (me_clock (sv_cards env) (sv_world ?s2)) (Some r)) (sv_rows ?s2), sv_world := w4\<rparr>)"
    by (rule update_profile_run [OF assms(1), of ?s2 t u sl k "Some r" USER_CONFIRMED v2 DERIVED w3 x c2])
      (use assms(3,4,7) src d3 in simp_all)
  then show ?thesis using up1 d2(1) by (auto simp: written_row_def)
qed

section \<open>Clearing\<close>

definition item_key :: "string \<Rightarrow> string \<Rightarrow> profile_item \<Rightarrow> row_key" where
  "item_key t u it = (t, u, loose slot_value (pi_slot it), pi_key it)"

lemma slot_of_Inr: "slot_of s = Inr sl \<Longrightarrow> slot_value sl = s"
  unfolding slot_of_def by (auto simp: find_Some_iff simp del: find.simps split: option.splits)

lemma item_of_row_key: "item_of_row s k r = Inr it \<Longrightarrow> loose slot_value (pi_slot it) = s \<and> pi_key it = k"
  by (auto simp: item_of_row_def bind_res_def slot_of_Inr split: sum.splits)

lemma items_keys:
  "map_res (\<lambda>((t, u, s, k), r). item_of_row s k r) rows = Inr items \<Longrightarrow>
   map (\<lambda>it. (loose slot_value (pi_slot it), pi_key it)) items = map (\<lambda>((t, u, s, k), r). (s, k)) rows"
proof (induction rows arbitrary: items)
  case (Cons e rows)
  obtain t u s k r where e: "e = ((t, u, s, k), r)" by (metis prod.collapse)
  from Cons.prems obtain it rest where "item_of_row s k r = Inr it"
    "map_res (\<lambda>((t, u, s, k), r). item_of_row s k r) rows = Inr rest" "items = it # rest"
    by (auto simp: e bind_res_def split: sum.splits)
  then show ?case using Cons.IH item_of_row_key by (simp add: e)
qed simp

lemma user_rows_keys: "map fst (user_rows t u d) = map (\<lambda>(s, k). (t, u, s, k)) (map (\<lambda>((t, u, s, k), r). (s, k)) (user_rows t u d))"
  by (induction d) (auto simp: user_rows_def)

text \<open>The database sorts the rows; it neither adds nor drops any.\<close>

definition sorts :: "'w card_env \<Rightarrow> bool" where
  "sorts env \<longleftrightarrow> (\<forall>xs. mset (ce_sort env xs) = mset xs)"

lemma card_items_keys:
  assumes "sorts env" and "rows_ok d"
  shows "mset (map (item_key t u) (card_items env t u d)) = mset (map fst (user_rows t u d))"
proof -
  obtain items where i: "map_res (\<lambda>((t, u, s, k), r). item_of_row s k r) (user_rows t u d) = Inr items"
    using rows_ok_fetch [OF assms(2)] by blast
  have "map (item_key t u) items = map (\<lambda>(s, k). (t, u, s, k)) (map (\<lambda>it. (loose slot_value (pi_slot it), pi_key it)) items)"
    by (simp add: item_key_def)
  then have "map (item_key t u) items = map fst (user_rows t u d)"
    unfolding items_keys [OF i] user_rows_keys [of t u d] .
  then have "mset (map (item_key t u) (ce_sort env items)) = mset (map fst (user_rows t u d))"
    using assms(1) by (metis mset_map sorts_def)
  then show ?thesis by (simp add: card_items_def i)
qed

lemma slot_value_inj [simp]: "slot_value x = slot_value y \<longleftrightarrow> x = y"
  by (cases x; cases y) simp_all

lemma member_slot_run: "loose slot_value sl = slot_value x \<Longrightarrow> member_slot sl = Inr (Member x)"
  by (cases sl) (auto simp: member_slot_def)

lemma wf_filter: "wf_dict d \<Longrightarrow> wf_dict (filter P d)"
  by (simp add: wf_dict_def distinct_map_filter)

lemma dget_filter_other: "dget (filter (\<lambda>e. fst e \<noteq> k) d) k' = (if k' = k then None else dget d k')"
  by (induction d) auto

lemma delete_listed_run:
  assumes "redis_laws (sv_cards env) view" and "loose slot_value (pi_slot it) = slot_value sl"
  obtains w' where "delete_listed env t u it s =
    (Inr (dget (sv_rows s) (item_key t u it) \<noteq> None),
     s\<lparr>sv_rows := filter (\<lambda>e. fst e \<noteq> item_key t u it) (sv_rows s), sv_world := w'\<rparr>)"
proof -
  obtain w' where "delete_item (sv_cards env) t u (Member sl) (pi_key it) (cards_of s) =
      (Inr (dget (ms_rows (cards_of s)) (t, u, slot_value sl, pi_key it) \<noteq> None),
       (cards_of s)\<lparr>ms_rows := ddel (t, u, slot_value sl, pi_key it) (ms_rows (cards_of s)), ms_world := w'\<rparr>)"
    by (rule delete_item_run [OF assms(1)])
  then show ?thesis
    by (intro that [of w']) (simp add: delete_listed_def io_bind_run member_slot_run [OF assms(2)] on_cards_run ddel_filter item_key_def assms(2))
qed

lemma delete_loop:
  assumes "redis_laws (sv_cards env) view"
  shows "\<forall>it \<in> set items. \<exists>sl. loose slot_value (pi_slot it) = slot_value sl \<Longrightarrow> distinct (map (item_key t u) items) \<Longrightarrow>
    \<forall>it \<in> set items. dget (sv_rows s) (item_key t u it) \<noteq> None \<Longrightarrow>
    \<exists>w'. io_map (delete_listed env t u) items s =
      (Inr (replicate (length items) True),
       s\<lparr>sv_rows := filter (\<lambda>e. fst e \<notin> item_key t u ` set items) (sv_rows s), sv_world := w'\<rparr>)"
proof (induction items arbitrary: s)
  case Nil
  have "s\<lparr>sv_rows := sv_rows s, sv_world := sv_world s\<rparr> = s" by simp
  then show ?case by (intro exI [of _ "sv_world s"]) simp
next
  case (Cons it items)
  from Cons.prems(1) obtain sl where sl: "loose slot_value (pi_slot it) = slot_value sl" by auto
  obtain w1 where 1: "delete_listed env t u it s =
    (Inr (dget (sv_rows s) (item_key t u it) \<noteq> None),
     s\<lparr>sv_rows := filter (\<lambda>e. fst e \<noteq> item_key t u it) (sv_rows s), sv_world := w1\<rparr>)"
    by (rule delete_listed_run [OF assms sl])
  let ?s1 = "s\<lparr>sv_rows := filter (\<lambda>e. fst e \<noteq> item_key t u it) (sv_rows s), sv_world := w1\<rparr>"
  have "\<forall>i \<in> set items. dget (sv_rows ?s1) (item_key t u i) \<noteq> None"
    using Cons.prems(2,3) by (auto simp: dget_filter_other) (metis image_eqI)
  from Cons.IH [OF _ _ this] obtain w2 where "io_map (delete_listed env t u) items ?s1 =
      (Inr (replicate (length items) True),
       ?s1\<lparr>sv_rows := filter (\<lambda>e. fst e \<notin> item_key t u ` set items) (sv_rows ?s1), sv_world := w2\<rparr>)"
    using Cons.prems(1,2) by auto
  moreover have "filter (\<lambda>e. fst e \<notin> item_key t u ` set items) (filter (\<lambda>e. fst e \<noteq> item_key t u it) (sv_rows s)) =
      filter (\<lambda>e. fst e \<notin> item_key t u ` set (it # items)) (sv_rows s)"
    by (simp add: conj_commute)
  ultimately show ?case using Cons.prems(3) by (intro exI [of _ w2]) (simp add: io_bind_run 1)
qed

text \<open>Clearing the memory of a user, whether his card is cached or not, removes all his items and nothing else, and
  answers with their number.\<close>

theorem clear_all_clears:
  assumes "redis_laws (sv_cards env) view" and "json_laws (sv_cards env)" and "coherent (sv_cards env) view (cards_of s)"
    and "CHR '':'' \<notin> set t" and "sorts (sv_cards env)"
  shows "\<exists>s'. clear_all env t u s = (Inr (int (length (user_rows t u (sv_rows s)))), s') \<and>
    sv_rows s' = filter (\<lambda>e. e \<notin> set (user_rows t u (sv_rows s))) (sv_rows s) \<and> sv_sums s' = sv_sums s"
proof -
  let ?env = "sv_cards env" and ?d = "sv_rows s"
  have ok: "rows_ok ?d" using assms(3) by (simp add: coherent_def)
  obtain items w' where read: "get_profile ?env t u (cards_of s) = (Inr items, (cards_of s)\<lparr>ms_world := w'\<rparr>)"
    "map item_to_dict items = map item_to_dict (card_items ?env t u ?d)"
    using read_run [OF assms(1-4)] by (metis cards_of_sel(1))
  let ?f = "\<lambda>d. (t, u, str_of (mget d ''slot''), str_of (mget d ''item_key''))"
  have f: "map (item_key t u) xs = map ?f (map item_to_dict xs)" for xs
    unfolding map_map by (rule map_cong [OF refl]) (simp add: item_key_def item_to_dict_def dget_or_def)
  have "map (item_key t u) items = map (item_key t u) (card_items ?env t u ?d)" unfolding f read(2) by (rule refl)
  then have keys: "mset (map (item_key t u) items) = mset (map fst (user_rows t u ?d))"
    using card_items_keys [OF assms(5) ok] by simp
  have wf: "wf_dict ?d" using ok by (simp add: rows_ok_def)
  have dist: "distinct (map fst (user_rows t u ?d))" using wf by (simp add: user_rows_def wf_dict_def distinct_map_filter)
  have kset: "item_key t u ` set items = fst ` set (user_rows t u ?d)"
    using mset_eq_setD [OF keys] by simp
  have len: "length items = length (user_rows t u ?d)" using arg_cong [OF keys, of size] by simp
  have slots: "\<forall>it \<in> set items. \<exists>sl. loose slot_value (pi_slot it) = slot_value sl"
  proof
    fix it assume "it \<in> set items"
    then have "item_key t u it \<in> fst ` set (user_rows t u ?d)" using kset by blast
    then show "\<exists>sl. loose slot_value (pi_slot it) = slot_value sl"
      using ok by (fastforce simp: item_key_def user_rows_def rows_ok_def)
  qed
  have present: "\<forall>it \<in> set items. dget (sv_rows (s\<lparr>sv_world := w'\<rparr>)) (item_key t u it) \<noteq> None"
  proof
    fix it assume "it \<in> set items"
    then have "item_key t u it \<in> fst ` set (user_rows t u ?d)" using kset by blast
    then obtain r where "(item_key t u it, r) \<in> set ?d" by (auto simp: user_rows_def)
    then have "dget ?d (item_key t u it) = Some r" using wf by (simp add: wf_dget_iff)
    then show "dget (sv_rows (s\<lparr>sv_world := w'\<rparr>)) (item_key t u it) \<noteq> None" by simp
  qed
  have "distinct (map (item_key t u) items)" using dist mset_eq_imp_distinct_iff [OF keys] by simp
  from delete_loop [OF assms(1) slots this present] obtain w2 where loop: "io_map (delete_listed env t u) items (s\<lparr>sv_world := w'\<rparr>) =
      (Inr (replicate (length items) True),
       s\<lparr>sv_rows := filter (\<lambda>e. fst e \<notin> item_key t u ` set items) ?d, sv_world := w2\<rparr>)" by auto
  have "e \<in> set (user_rows t u ?d) \<longleftrightarrow> fst e \<in> fst ` set (user_rows t u ?d)" if "e \<in> set ?d" for e
    using that by (force simp: user_rows_def)
  then have "filter (\<lambda>e. fst e \<notin> item_key t u ` set items) ?d = filter (\<lambda>e. e \<notin> set (user_rows t u ?d)) ?d"
    unfolding kset by (intro filter_cong) simp_all
  moreover have "on_cards (get_profile ?env t u) s = (Inr items, s\<lparr>sv_world := w'\<rparr>)" by (simp add: on_cards_run read(1))
  ultimately show ?thesis by (simp add: clear_all_def io_bind_run loop len)
qed


section \<open>Instances\<close>

definition map_service :: "redis_map service_env" where
  "map_service = \<lparr>sv_cards = map_cards [], sv_store = None, sv_producer = None, sv_show = (\<lambda>v. []), sv_bytes = (\<lambda>t. int (length t)),
     sv_texts = \<lparr>tx_no_profile = ''none'', tx_confirmed_mark = ''+'', tx_other_mark = ''o'', tx_confidence = ''confidence'',
       tx_confirmed = ''confirmed'', tx_cut = ''cut''\<rparr>\<rparr>"

definition ann_meta :: session_meta where
  "ann_meta = \<lparr>sm_session = ''s1'', sm_tenant = ''acme'', sm_user = ''ann'', sm_channel = ''web'', sm_mode = ''agent'',
     sm_started = 90, sm_active = 90, sm_turns = 2, sm_in = 10, sm_out = 5, sm_degraded = False, sm_flags = []\<rparr>"

definition ann_state :: "redis_map \<Rightarrow> redis_map service_state" where
  "ann_state w = \<lparr>sv_metas = [(''s1'', ann_meta)], sv_rows = ms_rows confirmed_state, sv_sums = [], sv_world = w\<rparr>"

lemma map_service_sel [simp]: "sv_cards map_service = map_cards []" "sv_producer map_service = None"
  by (simp_all add: map_service_def)

lemma ann_coherent: "coherent (sv_cards map_service) (\<lambda>w. w) (cards_of (ann_state (\<lambda>k. None)))"
  using confirmed_state_ok by (simp add: coherent_def ann_state_def counts_ok_def)

lemma ann_items: "card_items (sv_cards map_service) ''acme'' ''ann'' (sv_rows (ann_state w)) \<noteq> []"
proof -
  have "slot_of ''fact'' = Inr FACT" "source_of ''user_confirmed'' = Inr USER_CONFIRMED"
    using slot_of_value [of FACT] source_of_value [of USER_CONFIRMED] by simp_all
  then show ?thesis
    by (simp add: card_items_def user_rows_def ann_state_def confirmed_state_def item_of_row_def written_row_def)
qed

lemma map_service_laws: "redis_laws (sv_cards map_service) (\<lambda>w. w)" "json_laws (sv_cards map_service)" "sorts (sv_cards map_service)"
  by (simp_all add: map_cards_laws sorts_def)

theorem turn_is_booked_witness:
  "\<exists>m'. sv_metas (snd (on_turn_complete map_service ''s1'' 7 3 900 1000 (ann_state (\<lambda>k. None)))) = [(''s1'', m')] \<and>
     sm_turns m' = 3 \<and> sm_in m' = 17 \<and> sm_out m' = 8 \<and> sm_degraded m'"
proof -
  have 1: "dget (sv_metas (ann_state (\<lambda>k. None))) ''s1'' = Some ann_meta" by (simp add: ann_state_def)
  have 2: "\<not> expired_meta (me_clock (sv_cards map_service) (sv_world (ann_state (\<lambda>k. None)))) ann_meta"
    by (simp add: expired_meta_def ann_meta_def idle_ttl_def)
  have o: "over_budget 900 1000" by (simp add: over_budget_def)
  from turn_is_booked [OF 1 2, of 7 3 900 1000] show ?thesis by (auto simp: ann_state_def ann_meta_def o)
qed

theorem cached_profile_breaks_recall_witness:
  "fst (recall_memory map_service ''acme'' ''ann'' ''where do I live?'' 5 None
     (snd (on_session_start map_service ''s1'' ''acme'' ''ann'' ''web'' ''agent'' (ann_state (\<lambda>k. None))))) = Inl (Py AttributeError)"
  by (rule cached_profile_breaks_recall [OF map_service_laws(1,2) ann_coherent _ ann_items]) simp

theorem clear_all_clears_witness:
  "\<exists>s'. clear_all map_service ''acme'' ''ann'' (ann_state (\<lambda>k. None)) = (Inr 1, s') \<and> sv_rows s' = []"
proof -
  have "user_rows ''acme'' ''ann'' (sv_rows (ann_state (\<lambda>k. None))) = sv_rows (ann_state (\<lambda>k. None))"
    by (simp add: ann_state_def confirmed_state_def user_rows_def)
  moreover have "length (sv_rows (ann_state (\<lambda>k. None))) = 1" by (simp add: ann_state_def confirmed_state_def)
  ultimately show ?thesis
    using clear_all_clears [OF map_service_laws(1,2) ann_coherent _ map_service_laws(3), of "''acme''" "''ann''"] by auto
qed




lemma bound_text [simp]: "bound_value env (PStr x) = PStr x"
  by (simp add: bound_value_def)

theorem kept_value_is_overwritten_witness:
  "\<exists>c it t1 s1 d s2 r3 s3 r. update_profile map_service ''acme'' ''ann'' (Member FACT) ''city'' (PStr ''Rome'') 60 (Member DERIVED) (ann_state (\<lambda>k. None)) =
       (Inr (False, Some it, Some (c, t1)), s1) \<and>
     resolve_conflict map_service ''acme'' ''ann'' (cf_id c) ''keep_old'' PNone s1 = (Inr d, s2) \<and>
     update_profile map_service ''acme'' ''ann'' (Member FACT) ''city'' (PStr ''Oslo'') 40 (Member DERIVED) s2 = (Inr r3, s3) \<and>
     dget (sv_rows s3) (''acme'', ''ann'', ''fact'', ''city'') = Some r \<and> pr_value r = PStr ''Oslo'' \<and> pr_confirmed r = Some 5"
proof -
  let ?r = "written_row (PStr ''Bonn'') 80 USER_CONFIRMED 5 None"
  have 1: "dget (sv_rows (ann_state (\<lambda>k. None))) (''acme'', ''ann'', slot_value FACT, ''city'') = Some ?r"
    by (simp add: ann_state_def confirmed_state_def)
  have 2: "pr_source ?r = ''user_confirmed''" by simp
  have 3: "sv_world (ann_state (\<lambda>k. None)) (derived_count_key ''acme'' ''ann'' (slot_value FACT) ''city'') = None" by (simp add: ann_state_def)
  have 4: "ce_column (sv_cards map_service) (bound_value (sv_cards map_service) (PStr ''Oslo'')) = Inr (PStr ''Oslo'')" by simp
  have ok: "rows_ok (sv_rows (ann_state (\<lambda>k. None)))" using confirmed_state_ok by (simp add: ann_state_def)
  from kept_value_is_overwritten [OF map_service_laws(1,2) ok 1 2 3 4, where ?v1.0 = "PStr ''Rome''" and ?c1.0 = 60 and ?c2.0 = 40]
  obtain c it t1 s1 d s2 r3 s3 where
    "update_profile map_service ''acme'' ''ann'' (Member FACT) ''city'' (PStr ''Rome'') 60 (Member DERIVED) (ann_state (\<lambda>k. None)) =
       (Inr (False, Some it, Some (c, t1)), s1)"
    "resolve_conflict map_service ''acme'' ''ann'' (cf_id c) ''keep_old'' PNone s1 = (Inr d, s2)"
    "update_profile map_service ''acme'' ''ann'' (Member FACT) ''city'' (PStr ''Oslo'') 40 (Member DERIVED) s2 = (Inr r3, s3)"
    "dget (sv_rows s3) (''acme'', ''ann'', slot_value FACT, ''city'') = Some (?r\<lparr>pr_value := PStr ''Oslo'', pr_confidence := 40,
       pr_source := ''derived'', pr_version := pr_version ?r + 1, pr_updated := me_clock (sv_cards map_service) (sv_world s2)\<rparr>)"
    by blast
  then show ?thesis by (cases r3) (auto simp: written_row_def)
qed

definition bob_conflict :: memory_conflict where
  "bob_conflict = \<lparr>cf_id = ''conf_1'', cf_slot = Member FACT, cf_key = ''diet'', cf_old = PStr ''vegan'', cf_new = PStr ''none'',
     cf_source = Member TOOL_WRITTEN, cf_tenant = ''acme'', cf_user = ''bob'', cf_created = 50\<rparr>"

definition conflict_state :: "redis_map service_state" where
  "conflict_state = ann_state [pending_key ''conf_1'' \<mapsto>
     RText (me_dumps (map_cards []) (PDict (conflict_data bob_conflict ''fact'' ''tool_written'')))]"

theorem foreign_conflict_is_taken_witness:
  "\<exists>d s' r. resolve_conflict map_service ''acme'' ''ann'' ''conf_1'' ''use_new'' PNone conflict_state = (Inr d, s') \<and>
     dget (sv_rows s') (''acme'', ''ann'', ''fact'', ''diet'') = Some r \<and> pr_value r = PStr ''none'' \<and> pr_source r = ''user_confirmed''"
proof -
  have ok: "rows_ok (sv_rows conflict_state)" using confirmed_state_ok by (simp add: conflict_state_def ann_state_def)
  have st: "stored_conflict (\<lambda>w. w) (conflicts map_service) bob_conflict FACT TOOL_WRITTEN (sv_world conflict_state)"
    by (simp add: stored_conflict_def bob_conflict_def conflict_state_def ann_state_def)
  have other: "(''acme'', ''ann'') \<noteq> (cf_tenant bob_conflict, cf_user bob_conflict)" by (simp add: bob_conflict_def)
  have col: "ce_column (sv_cards map_service) (bound_value (sv_cards map_service) (cf_new bob_conflict)) = Inr (PStr ''none'')"
    by (simp add: bob_conflict_def)
  from foreign_conflict_is_taken [OF map_service_laws(1,2) ok st other col, of PNone] show ?thesis
    by (auto simp: bob_conflict_def)
qed

end
