(* ===== verification/IpAddr.thy ===== *)
theory IpAddr
  imports PyVal "HOL-Library.Word"
begin

text \<open>
  The parts of Python's \<^verbatim>\<open>ipaddress\<close> and \<^verbatim>\<open>urllib.parse\<close> that the network guard relies on: the text of
  an address as a 32 or 128 bit word, membership in a network, and the split of an address of the web
  into scheme, host and port. Texts are Latin-1.
\<close>

unbundle bit_operations_syntax

section \<open>Splitting texts\<close>

text \<open>\<open>s.partition(c)\<close>: what is before and after the first \<open>c\<close>, and whether there is one.\<close>

definition py_partition :: "char \<Rightarrow> string \<Rightarrow> string \<times> bool \<times> string" where
  "py_partition c s =
     (let a = takeWhile (\<lambda>x. x \<noteq> c) s; b = dropWhile (\<lambda>x. x \<noteq> c) s
      in (a, b \<noteq> [], tl b))"

text \<open>The last part of \<open>s.rpartition(c)\<close>.\<close>

definition after_last :: "char \<Rightarrow> string \<Rightarrow> string" where
  "after_last c s = rev (takeWhile (\<lambda>x. x \<noteq> c) (rev s))"

lemma py_partition_none: "c \<notin> set s \<Longrightarrow> py_partition c s = (s, False, [])"
  by (induction s) (auto simp: py_partition_def Let_def)

lemma py_partition_append: "c \<notin> set a \<Longrightarrow> py_partition c (a @ c # b) = (a, True, b)"
  by (induction a) (auto simp: py_partition_def Let_def)

lemma after_last_none: "c \<notin> set s \<Longrightarrow> after_last c s = s"
proof -
  assume "c \<notin> set s"
  then have "takeWhile (\<lambda>x. x \<noteq> c) (rev s) = rev s" by (intro takeWhile_eq_all_conv [THEN iffD2]) auto
  then show ?thesis unfolding after_last_def by (simp only: rev_rev_ident)
qed

section \<open>Addresses\<close>

datatype ip = V4 "32 word" | V6 "128 word" "string option"

definition parse_octet :: "string \<Rightarrow> nat option" where
  "parse_octet s =
     (if s = [] \<or> \<not> list_all is_digit s \<or> 3 < length s \<or> (s \<noteq> ''0'' \<and> hd s = CHR ''0'') \<or> 255 < digits_val s
      then None else Some (digits_val s))"

definition octets :: "nat \<Rightarrow> nat \<Rightarrow> nat \<Rightarrow> nat \<Rightarrow> 32 word" where
  "octets a b c d = of_nat (((a * 256 + b) * 256 + c) * 256 + d)"

text \<open>\<open>IPv4Address(s)\<close>; \<open>None\<close> is \<open>AddressValueError\<close>.\<close>

definition parse_v4 :: "string \<Rightarrow> 32 word option" where
  "parse_v4 s =
     (if CHR ''/'' \<in> set s then None
      else case map parse_octet (split_char CHR ''.'' s) of
             [Some a, Some b, Some c, Some d] \<Rightarrow> Some (octets a b c d)
           | _ \<Rightarrow> None)"

definition hex_val :: "char \<Rightarrow> nat option" where
  "hex_val c =
     (let n = (of_char c :: nat)
      in if 48 \<le> n \<and> n \<le> 57 then Some (n - 48)
         else if 97 \<le> n \<and> n \<le> 102 then Some (n - 87)
         else if 65 \<le> n \<and> n \<le> 70 then Some (n - 55) else None)"

fun hex_number :: "nat \<Rightarrow> string \<Rightarrow> nat option" where
  "hex_number acc [] = Some acc"
| "hex_number acc (c # cs) = (case hex_val c of None \<Rightarrow> None | Some d \<Rightarrow> hex_number (16 * acc + d) cs)"

definition parse_hextet :: "string \<Rightarrow> nat option" where
  "parse_hextet s = (if s = [] \<or> 4 < length s then None else hex_number 0 s)"

fun hextets :: "nat \<Rightarrow> string list \<Rightarrow> nat option" where
  "hextets acc [] = Some acc"
| "hextets acc (p # ps) = (case parse_hextet p of None \<Rightarrow> None | Some h \<Rightarrow> hextets (acc * 65536 + h) ps)"

text \<open>\<open>'%x' % n\<close>.\<close>

fun hex_str :: "nat \<Rightarrow> string" where
  "hex_str n = (if n < 16 then [hex_digit n] else hex_str (n div 16) @ [hex_digit (n mod 16)])"

declare hex_str.simps [simp del]

text \<open>The last part may be an IPv4 address: it stands for two parts.\<close>

definition embed_v4 :: "string list \<Rightarrow> string list option" where
  "embed_v4 parts =
     (if CHR ''.'' \<in> set (last parts)
      then map_option (\<lambda>w. butlast parts @ [hex_str (unat w div 65536), hex_str (unat w mod 65536)])
             (parse_v4 (last parts))
      else Some parts)"

text \<open>The places, apart from the ends, where nothing stands between two colons.\<close>

definition skips :: "string list \<Rightarrow> nat list" where
  "skips parts = filter (\<lambda>i. parts ! i = []) [1..<length parts - 1]"

text \<open>The number of an IPv6 address from its parts.\<close>

definition v6_number :: "string list \<Rightarrow> nat option" where
  "v6_number parts =
     (case skips parts of
        [] \<Rightarrow>
          (if length parts \<noteq> 8 \<or> hd parts = [] \<or> last parts = [] then None else hextets 0 parts)
      | [i] \<Rightarrow>
          (let hi = (if hd parts = [] then i - 1 else i);
               lo = (if last parts = [] then length parts - i - 1 - 1 else length parts - i - 1)
           in if hd parts = [] \<and> 0 < hi \<or> last parts = [] \<and> 0 < lo \<or> 8 < hi + lo + 1 then None
              else case hextets 0 (take hi parts) of
                     None \<Rightarrow> None
                   | Some n \<Rightarrow> hextets (n * 65536 ^ (8 - (hi + lo))) (drop (length parts - lo) parts))
      | _ \<Rightarrow> None)"

text \<open>\<open>IPv6Address(s)\<close>.\<close>

definition parse_v6 :: "string \<Rightarrow> (128 word \<times> string option) option" where
  "parse_v6 s =
     (if CHR ''/'' \<in> set s then None
      else case py_partition CHR ''%'' s of (addr, sep, scope) \<Rightarrow>
        if sep \<and> (scope = [] \<or> CHR ''%'' \<in> set scope) \<or> addr = [] then None
        else let parts = split_char CHR '':'' addr
             in if length parts < 3 then None
                else case embed_v4 parts of
                       None \<Rightarrow> None
                     | Some ps \<Rightarrow>
                         if 9 < length ps then None
                         else map_option (\<lambda>n. (of_nat n, if sep then Some scope else None)) (v6_number ps))"

text \<open>\<open>ipaddress.ip_address(s)\<close>.\<close>

definition no_address :: "string \<Rightarrow> string" where
  "no_address s = repr_str s @ '' does not appear to be an IPv4 or IPv6 address''"

definition ip_address :: "string \<Rightarrow> ip res" where
  "ip_address s =
     (case parse_v4 s of
        Some w \<Rightarrow> Inr (V4 w)
      | None \<Rightarrow>
          (case parse_v6 s of
             Some (w, scope) \<Rightarrow> Inr (V6 w scope)
           | None \<Rightarrow> Inl (ValueError (no_address s))))"

text \<open>\<open>ip in ip_network(base/len)\<close>: the bits under the mask agree.\<close>

definition in_net :: "'a::len word \<Rightarrow> 'a word \<times> nat \<Rightarrow> bool" where
  "in_net a n = (case n of (base, k) \<Rightarrow> a AND NOT (mask (LENGTH('a) - k)) = base)"

section \<open>The text of an address\<close>

definition octet_of :: "32 word \<Rightarrow> nat \<Rightarrow> nat" where
  "octet_of a i = unat a div 256 ^ i mod 256"

definition v4_str :: "32 word \<Rightarrow> string" where
  "v4_str a = py_join ''.'' (map (\<lambda>i. str_nat (octet_of a i)) [3, 2, 1, 0])"

text \<open>The longest run of zeros, first one on a tie: start and length.\<close>

fun zero_run :: "nat \<Rightarrow> nat \<times> nat \<Rightarrow> nat \<Rightarrow> string list \<Rightarrow> nat \<times> nat" where
  "zero_run i best run [] = best"
| "zero_run i best run (h # hs) =
     (if h = ''0''
      then zero_run (Suc i) (if snd best < Suc run then (i - run, Suc run) else best) (Suc run) hs
      else zero_run (Suc i) best 0 hs)"

definition compress_hextets :: "string list \<Rightarrow> string list" where
  "compress_hextets hs =
     (case zero_run 0 (0, 0) 0 hs of (start, n) \<Rightarrow>
        if 1 < n
        then (if start = 0 then [[]] else []) @ take start hs @ [[]]
               @ drop (start + n) (hs @ (if start + n = length hs then [[]] else []))
        else hs)"

definition v6_str :: "128 word \<Rightarrow> string" where
  "v6_str a =
     py_join '':'' (compress_hextets (map (\<lambda>i. hex_str (unat a div 65536 ^ i mod 65536)) (rev [0..<8])))"

fun ip_str :: "ip \<Rightarrow> string" where
  "ip_str (V4 a) = v4_str a"
| "ip_str (V6 a scope) = v6_str a @ (case scope of None \<Rightarrow> [] | Some s \<Rightarrow> ''%'' @ s)"

section \<open>Addresses of the web\<close>

text \<open>\<open>urlparse(url)\<close>: the scheme and the part with host and port; the rest is not used.\<close>

record url_parts =
  u_scheme :: string
  u_netloc :: string

definition scheme_char :: "char \<Rightarrow> bool" where
  "scheme_char c \<longleftrightarrow>
     (let n = (of_char c :: nat)
      in 97 \<le> n \<and> n \<le> 122 \<or> 65 \<le> n \<and> n \<le> 90 \<or> is_digit c \<or> c \<in> set ''+-.'')"

definition ascii_letter :: "char \<Rightarrow> bool" where
  "ascii_letter c \<longleftrightarrow> (let n = (of_char c :: nat) in 97 \<le> n \<and> n \<le> 122 \<or> 65 \<le> n \<and> n \<le> 90)"

text \<open>Leading control characters and blanks go, tabs and line ends go everywhere.\<close>

definition line_char :: "char \<Rightarrow> bool" where
  "line_char c \<longleftrightarrow> (of_char c :: nat) \<in> {9, 10, 13}"

definition clean_url :: "string \<Rightarrow> string" where
  "clean_url s = filter (\<lambda>c. \<not> line_char c) (dropWhile (\<lambda>c. (of_char c :: nat) \<le> 32) s)"

definition split_scheme :: "string \<Rightarrow> string \<times> string" where
  "split_scheme url =
     (case py_partition CHR '':'' url of (a, found, b) \<Rightarrow>
        if found \<and> a \<noteq> [] \<and> ascii_letter (hd url) \<and> list_all scheme_char a then (lower a, b) else ([], url))"

text \<open>\<open>v\<close>, hexadecimal digits, a dot and something more.\<close>

definition future_host :: "string \<Rightarrow> bool" where
  "future_host h =
     (case py_partition CHR ''.'' (tl h) of (a, dot, b) \<Rightarrow>
        dot \<and> a \<noteq> [] \<and> list_all (\<lambda>c. hex_val c \<noteq> None) a \<and> b \<noteq> [] \<and> list_all (\<lambda>c. c \<noteq> CHR 0x0A) b)"

definition check_bracketed :: "string \<Rightarrow> unit res" where
  "check_bracketed h =
     (if starts_with ''v'' h
      then (if future_host h then Inr () else Inl (ValueError ''IPvFuture address is invalid''))
      else bind_res (ip_address h) (\<lambda>a. case a of
             V4 w \<Rightarrow> Inl (ValueError ''An IPv4 address cannot be in brackets'') | V6 w scope \<Rightarrow> Inr ()))"

definition urlparse :: "string \<Rightarrow> url_parts res" where
  "urlparse url =
     (case split_scheme (clean_url url) of (scheme, rest) \<Rightarrow>
        let netloc = (if take 2 rest = ''//'' then takeWhile (\<lambda>c. c \<notin> set ''/?#'') (drop 2 rest) else []);
            parts = \<lparr>u_scheme = scheme, u_netloc = netloc\<rparr>
        in if (CHR ''['' \<in> set netloc) \<noteq> (CHR '']'' \<in> set netloc) then Inl (ValueError ''Invalid IPv6 URL'')
           else if CHR ''['' \<in> set netloc
           then bind_res (check_bracketed (fst (py_partition CHR '']'' (snd (snd (py_partition CHR ''['' netloc))))))
                  (\<lambda>u. Inr parts)
           else Inr parts)"

text \<open>Host and port of the part after the last \<open>@\<close>.\<close>

definition host_info :: "url_parts \<Rightarrow> string \<times> string option" where
  "host_info p =
     (let info = after_last CHR ''@'' (u_netloc p)
      in case py_partition CHR ''['' info of (a, bracket, b) \<Rightarrow>
           let (host, port) =
                 (if bracket
                  then (case py_partition CHR '']'' b of (h, f, r) \<Rightarrow> (h, snd (snd (py_partition CHR '':'' r))))
                  else (case py_partition CHR '':'' info of (h, f, r) \<Rightarrow> (h, r)))
           in (host, if port = [] then None else Some port))"

definition url_hostname :: "url_parts \<Rightarrow> string option" where
  "url_hostname p =
     (let h = fst (host_info p)
      in if h = [] then None
         else case py_partition CHR ''%'' h of (a, f, zone) \<Rightarrow> Some (lower a @ (if f then ''%'' @ zone else [])))"

definition url_port :: "url_parts \<Rightarrow> nat option res" where
  "url_port p =
     (case snd (host_info p) of
        None \<Rightarrow> Inr None
      | Some s \<Rightarrow>
          if \<not> list_all is_digit s then Inl (ValueError (''Port could not be cast to integer value as '' @ repr_str s))
          else if 65535 < digits_val s then Inl (ValueError ''Port out of range 0-65535'')
          else Inr (Some (digits_val s)))"

section \<open>Round trips\<close>

lemma digit_char_zero: "d < 10 \<Longrightarrow> digit_char d = CHR ''0'' \<longleftrightarrow> d = 0"
proof
  assume d: "d < 10" "digit_char d = CHR ''0''"
  then have "(48 + d :: nat) = of_char (CHR ''0'')" using of_char_digit_char [of d] by simp
  then show "d = 0" by simp
next
  show "d = 0 \<Longrightarrow> digit_char d = CHR ''0''" by (simp only:) code_simp
qed

lemma str_nat_octet:
  assumes "n < 256"
  shows "str_nat n =
    (if n < 10 then [digit_char n]
     else if n < 100 then [digit_char (n div 10), digit_char (n mod 10)]
     else [digit_char (n div 100), digit_char (n div 10 mod 10), digit_char (n mod 10)])"
proof -
  have "n div 10 div 10 < 10" "n div 10 div 10 = n div 100" using assms by simp_all
  then show ?thesis
    by (subst str_nat.simps, subst str_nat.simps, subst str_nat.simps) (auto simp: mod_div_trivial)
qed

lemma parse_octet_str: "n < 256 \<Longrightarrow> parse_octet (str_nat n) = Some n"
proof -
  assume n: "n < 256"
  have d: "str_nat n \<noteq> []" "list_all is_digit (str_nat n)" "digits_val (str_nat n) = n"
    using str_nat_digits [of n] by (auto simp: list_all_iff)
  have l: "length (str_nat n) \<le> 3" using str_nat_octet [OF n] by simp
  have "str_nat n = ''0'' \<or> hd (str_nat n) \<noteq> CHR ''0''"
  proof (cases "n = 0")
    case True
    then show ?thesis by (subst str_nat.simps) (simp add: digit_char_zero)
  next
    case False
    have "\<not> 10 \<le> n \<or> 0 < n div 10" "\<not> 100 \<le> n \<or> 0 < n div 100" by auto
    then have "hd (str_nat n) \<noteq> CHR ''0''"
      using False n by (subst str_nat_octet [OF n]) (auto simp: digit_char_zero)
    then show ?thesis ..
  qed
  with d l n show ?thesis by (auto simp: parse_octet_def)
qed

lemma str_nat_no: "\<not> is_digit c \<Longrightarrow> c \<notin> set (str_nat n)"
  using str_nat_digits [of n] by auto

lemma octets_octet_of: "octets (octet_of a 3) (octet_of a 2) (octet_of a 1) (octet_of a 0) = a"
proof -
  have less: "unat a < 4294967296" using unsigned_less [of a] by simp
  have e: "(256 :: nat) ^ 3 = 16777216" "(256 :: nat) ^ 2 = 65536" by simp_all
  have step: "n div 256 * 256 + n mod 256 = n" for n :: nat by simp
  have d: "unat a div 256 div 256 = unat a div 65536" "unat a div 65536 div 256 = unat a div 16777216"
    by (simp_all add: div_mult2_eq [symmetric])
  have "unat a div 16777216 < 256" using less by (simp add: less_mult_imp_div_less)
  then have top: "unat a div 16777216 mod 256 = unat a div 16777216" by simp
  have "((unat a div 16777216 mod 256 * 256 + unat a div 65536 mod 256) * 256 + unat a div 256 mod 256) * 256 + unat a mod 256 = unat a"
    using step [of "unat a"] step [of "unat a div 256"] step [of "unat a div 65536"] unfolding d top by simp
  then have "(of_nat (((unat a div 16777216 mod 256 * 256 + unat a div 65536 mod 256) * 256 + unat a div 256 mod 256) * 256
      + unat a mod 256) :: 32 word) = a" by (simp only: of_nat_unat ucast_id)
  then show ?thesis by (simp only: octets_def octet_of_def power_0 power_one_right div_by_1 e)
qed

lemma octet_of_less: "octet_of a i < 256"
  by (simp add: octet_of_def)

lemma v4_str_chars: "\<not> is_digit c \<Longrightarrow> c \<noteq> CHR ''.'' \<Longrightarrow> c \<notin> set (v4_str a)"
  by (simp add: v4_str_def str_nat_no)

lemma v4_str_dot: "CHR ''.'' \<in> set (v4_str a)"
  by (simp add: v4_str_def)

lemma v4_str_not_Nil: "v4_str a \<noteq> []"
  by (simp add: v4_str_def)

text \<open>An IPv4 address is read back from its text.\<close>

lemma parse_v4_str: "parse_v4 (v4_str a) = Some a"
proof -
  have "split_char CHR ''.'' (v4_str a) = map (\<lambda>i. str_nat (octet_of a i)) [3, 2, 1, 0]"
    unfolding v4_str_def by (rule split_char_join) (auto simp: str_nat_no is_digit_def)
  moreover have "CHR ''/'' \<notin> set (v4_str a)" by (rule v4_str_chars) (simp_all add: is_digit_def)
  ultimately show ?thesis
    using octets_octet_of [of a] by (simp add: parse_v4_def parse_octet_str octet_of_less)
qed

lemma hex_val_digit: "d < 16 \<Longrightarrow> hex_val (hex_digit d) = Some d"
  by (simp add: hex_val_def hex_digit_def of_char_digit_char)

lemma hex_number_snoc:
  "hex_number acc (s @ [c]) = (case hex_number acc s of None \<Rightarrow> None | Some n \<Rightarrow> map_option (\<lambda>d. 16 * n + d) (hex_val c))"
  by (induction s arbitrary: acc) (simp_all split: option.split)

lemma hex_number_str: "hex_number 0 (hex_str n) = Some n"
proof (induction n rule: hex_str.induct)
  case (1 n)
  show ?case
  proof (cases "n < 16")
    case True
    then show ?thesis by (subst hex_str.simps) (simp add: hex_val_digit)
  next
    case False
    with 1 show ?thesis by (subst hex_str.simps) (simp add: hex_number_snoc hex_val_digit)
  qed
qed

lemma hex_str_not_Nil: "hex_str n \<noteq> []"
  by (subst hex_str.simps) simp

lemma length_hex_str: "n < 16 ^ Suc k \<Longrightarrow> length (hex_str n) \<le> Suc k"
proof (induction k arbitrary: n)
  case 0
  then show ?case by (subst hex_str.simps) simp
next
  case (Suc k)
  have "n div 16 < 16 ^ Suc k" using Suc.prems by (simp add: less_mult_imp_div_less)
  from Suc.IH [OF this] show ?case by (subst hex_str.simps) simp
qed

lemma parse_hextet_str: "n < 65536 \<Longrightarrow> parse_hextet (hex_str n) = Some n"
  using length_hex_str [of n 3] by (simp add: parse_hextet_def hex_str_not_Nil hex_number_str)

text \<open>The address that stands for an IPv4 address in the space of IPv6.\<close>

lemma parse_mapped: "parse_v6 (''::ffff:'' @ v4_str a) = Some (of_nat (65535 * 4294967296 + unat a), None)"
proof -
  have c: "CHR '':'' \<notin> set (v4_str a)" "CHR ''/'' \<notin> set (v4_str a)" "CHR ''%'' \<notin> set (v4_str a)"
    by (rule v4_str_chars; simp add: is_digit_def)+
  have parts: "split_char CHR '':'' (''::ffff:'' @ v4_str a) = [[], [], ''ffff'', v4_str a]"
    using split_char_none [OF c(1)] by simp
  have e: "embed_v4 [[], [], ''ffff'', v4_str a] =
      Some [[], [], ''ffff'', hex_str (unat a div 65536), hex_str (unat a mod 65536)]"
    by (simp add: embed_v4_def v4_str_dot parse_v4_str)
  have b: "unat a < 4294967296" using unsigned_less [of a] by simp
  then have h: "parse_hextet (hex_str (unat a div 65536)) = Some (unat a div 65536)"
    "parse_hextet (hex_str (unat a mod 65536)) = Some (unat a mod 65536)"
    by (simp_all add: parse_hextet_str)
  have f: "parse_hextet ''ffff'' = Some 65535" by (simp add: parse_hextet_def hex_val_def)
  have "v6_number [[], [], ''ffff'', hex_str (unat a div 65536), hex_str (unat a mod 65536)] =
      Some (65535 * 4294967296 + unat a)"
    by (simp add: v6_number_def skips_def upt_rec hex_str_not_Nil h f)
  with parts e c show ?thesis
    by (simp add: parse_v6_def py_partition_none)
qed

end
