(* ===== verification/NetGuard.thy ===== *)
theory NetGuard
  imports IpAddr Effects
begin

text \<open>
  \<^verbatim>\<open>app/tools/ssrf.py\<close>: which addresses of the web the engine's tools may fetch. Blocked networks, the
  check of an address (scheme, port, host, what the resolver says), the second check of a resolved
  address, the fetch that checks every redirection, and the list of commands that a plug-in may start.
  The resolver, the client and the join of a location to an address are arguments; a trace records
  what they were asked.
\<close>

section \<open>Blocked networks\<close>

definition allowed_schemes :: "string list" where
  "allowed_schemes = [''http'', ''https'']"

definition allowed_ports :: "nat list" where
  "allowed_ports = [80, 443, 8080, 8443]"

definition blocked_v4 :: "(32 word \<times> nat) list" where
  "blocked_v4 =
     [(octets 0 0 0 0, 8), (octets 10 0 0 0, 8), (octets 127 0 0 0, 8), (octets 169 254 0 0, 16),
      (octets 172 16 0 0, 12), (octets 192 168 0 0, 16), (octets 224 0 0 0, 4), (octets 240 0 0 0, 4)]"

definition blocked_v6 :: "(128 word \<times> nat) list" where
  "blocked_v6 = [(1, 128), (0, 128), (push_bit 112 0xFC00, 7), (push_bit 112 0xFE80, 10)]"

fun is_blocked :: "ip \<Rightarrow> bool" where
  "is_blocked (V4 a) = list_ex (in_net a) blocked_v4"
| "is_blocked (V6 a scope) = list_ex (in_net a) blocked_v6"

section \<open>Checks\<close>

datatype net_event = Resolved string "string list" | Requested string

record 'w net =
  net_world :: 'w
  net_trace :: "net_event list"

definition on_world :: "('w, 'a) io \<Rightarrow> ('w net, 'a) io" where
  "on_world m = io_on net_world (\<lambda>w s. s\<lparr>net_world := w\<rparr>) m"

definition note_event :: "net_event \<Rightarrow> ('w net, unit) io" where
  "note_event e = io_modify (\<lambda>s. s\<lparr>net_trace := net_trace s @ [e]\<rparr>)"

abbreviation io_fail :: "string \<Rightarrow> ('s, 'a) io" where
  "io_fail m \<equiv> io_raise (Py (ValueError m))"

text \<open>The port, with the default of the scheme.\<close>

definition effective_port :: "string \<Rightarrow> nat option \<Rightarrow> nat" where
  "effective_port scheme p = (case p of Some n \<Rightarrow> n | None \<Rightarrow> if scheme = ''https'' then 443 else 80)"

definition blocked_address :: "string \<Rightarrow> string" where
  "blocked_address host = ''blocked address (internal/private): '' @ host"

text \<open>The host as an address: it may be blocked, or not be an address at all.\<close>

definition literal_check :: "string \<Rightarrow> unit res" where
  "literal_check host =
     bind_res (ip_address host) (\<lambda>a. if is_blocked a then Inl (ValueError (blocked_address host)) else Inr ())"

fun answer_check :: "string \<Rightarrow> string list \<Rightarrow> unit res" where
  "answer_check host [] = Inr ()"
| "answer_check host (a # as) =
     bind_res (ip_address a) (\<lambda>i.
       if is_blocked i then Inl (ValueError (blocked_address host @ '' -> '' @ ip_str i))
       else answer_check host as)"

text \<open>\<open>getaddrinfo\<close>: the texts of the addresses, or \<open>None\<close> for \<open>gaierror\<close>; it may raise something else.\<close>

type_synonym 'w resolver = "string \<Rightarrow> ('w, string list option) io"

definition resolve_check :: "'w resolver \<Rightarrow> string \<Rightarrow> ('w net, unit) io" where
  "resolve_check dns host =
     io_bind (on_world (dns host)) (\<lambda>r. case r of
       None \<Rightarrow> io_fail (''cannot resolve host: '' @ host)
     | Some as \<Rightarrow> io_bind (note_event (Resolved host as)) (\<lambda>u. io_res (answer_check host as)))"

text \<open>An error of the check that starts with \<open>blocked\<close> is raised again, any other means a name.\<close>

definition host_check :: "'w resolver \<Rightarrow> string \<Rightarrow> ('w net, unit) io" where
  "host_check dns host =
     (case literal_check host of
        Inr u \<Rightarrow> io_return ()
      | Inl (ValueError m) \<Rightarrow>
          if starts_with ''blocked'' m then io_fail m else resolve_check dns host
      | Inl e \<Rightarrow> io_raise (Py e))"

text \<open>The part of the check that asks nobody: scheme, host and port.\<close>

definition static_check :: "string \<Rightarrow> string res" where
  "static_check url =
     bind_res (urlparse url) (\<lambda>p.
       if u_scheme p \<notin> set allowed_schemes
       then Inl (ValueError (''blocked scheme: '' @ u_scheme p @ '' (only http/https allowed)''))
       else case url_hostname p of
              None \<Rightarrow> Inl (ValueError (''invalid url: '' @ url))
            | Some host \<Rightarrow>
                bind_res (url_port p) (\<lambda>q.
                  let port = effective_port (u_scheme p) q
                  in if port \<notin> set allowed_ports
                     then Inl (ValueError (''blocked port: '' @ str_nat port @ '' (not in allowlist)''))
                     else Inr host))"

definition assert_safe_url :: "'w resolver \<Rightarrow> string \<Rightarrow> ('w net, unit) io" where
  "assert_safe_url dns url = io_bind (io_res (static_check url)) (host_check dns)"

text \<open>The second check, of the address a connection is about to use.\<close>

definition assert_safe_ip :: "string \<Rightarrow> unit res" where
  "assert_safe_ip s =
     (case ip_address s of
        Inl e \<Rightarrow> Inl (ValueError (''invalid ip for rebinding check: '' @ s))
      | Inr a \<Rightarrow>
          if is_blocked a then Inl (ValueError (''blocked address at connect time (DNS rebinding?): '' @ s))
          else Inr ())"

section \<open>Fetching\<close>

record http_answer =
  ha_status :: int
  ha_location :: "string option"
  ha_url :: string
  ha_type :: string
  ha_text :: string

text \<open>A header that is absent or empty is false.\<close>

definition has_location :: "http_answer \<Rightarrow> bool" where
  "has_location r \<longleftrightarrow> (case ha_location r of None \<Rightarrow> False | Some l \<Rightarrow> l \<noteq> [])"

definition redirects :: "http_answer \<Rightarrow> bool" where
  "redirects r \<longleftrightarrow> ha_status r \<in> {301, 302, 303, 307, 308} \<and> has_location r"

text \<open>\<open>client.get\<close> without following redirections, and \<open>str(httpx.URL(current).join(location))\<close>.\<close>

type_synonym 'w http_client = "string \<Rightarrow> ('w, http_answer) io"
type_synonym joiner = "string \<Rightarrow> string \<Rightarrow> exn + string"

definition io_exn :: "exn + 'a \<Rightarrow> ('s, 'a) io" where
  "io_exn r = (case r of Inl e \<Rightarrow> io_raise e | Inr x \<Rightarrow> io_return x)"

fun fetch_loop :: "'w resolver \<Rightarrow> 'w http_client \<Rightarrow> joiner \<Rightarrow> string \<Rightarrow> nat \<Rightarrow> string \<Rightarrow> ('w net, http_answer) io"
where
  "fetch_loop dns get join url 0 current = io_fail (''too many redirects: '' @ url)"
| "fetch_loop dns get join url (Suc n) current =
     io_bind (assert_safe_url dns current) (\<lambda>u.
     io_bind (note_event (Requested current)) (\<lambda>u.
     io_bind (on_world (get current)) (\<lambda>r.
       if redirects r
       then io_bind (io_exn (join current (the (ha_location r)))) (fetch_loop dns get join url n)
       else io_return r)))"

definition fetch_url_safe ::
  "'w resolver \<Rightarrow> 'w http_client \<Rightarrow> joiner \<Rightarrow> int \<Rightarrow> string \<Rightarrow> ('w net, http_answer) io"
where
  "fetch_url_safe dns get join max_redirects url = fetch_loop dns get join url (nat (max_redirects + 1)) url"

section \<open>Commands of plug-ins\<close>

definition basename :: "string \<Rightarrow> string" where
  "basename s = after_last CHR ''/'' s"

text \<open>The argument is the value of \<^verbatim>\<open>PLUGIN_COMMAND_ALLOWLIST\<close>.\<close>

definition command_allowed :: "string option \<Rightarrow> string \<Rightarrow> bool" where
  "command_allowed env command =
     (let raw = py_strip (case env of None \<Rightarrow> [] | Some s \<Rightarrow> s);
          allowed = filter (\<lambda>w. w \<noteq> []) (map py_strip (split_char CHR '','' raw))
      in raw \<noteq> [] \<and> basename command \<in> set allowed)"

section \<open>The blocked networks\<close>

lemma in_net_iff:
  fixes a :: "'a::len word"
  assumes "k \<le> LENGTH('a)" "c < 2 ^ k"
  shows "in_net a (of_nat (c * 2 ^ (LENGTH('a) - k)), k) \<longleftrightarrow> unat a div 2 ^ (LENGTH('a) - k) = c"
proof -
  let ?m = "LENGTH('a) - k"
  have "c * 2 ^ ?m < 2 ^ k * 2 ^ ?m" using assms(2) by simp
  also have "\<dots> = 2 ^ LENGTH('a)" using assms(1) by (simp flip: power_add)
  finally have c: "unat (of_nat (c * 2 ^ ?m) :: 'a word) = c * 2 ^ ?m" by (simp only: unat_of_nat take_bit_eq_mod mod_less)
  have l: "unat a < 2 ^ LENGTH('a)" by (rule unsigned_less)
  have "a AND NOT (mask ?m) = push_bit ?m (drop_bit ?m a)"
    by (rule bit_word_eqI) (auto simp: bit_simps)
  then have "unat (a AND NOT (mask ?m)) = take_bit LENGTH('a) (push_bit ?m (drop_bit ?m (unat a)))"
    using l by (simp only: unsigned_push_bit_eq unsigned_drop_bit_eq take_bit_eq_mod mod_less)
  also have "\<dots> = unat a div 2 ^ ?m * 2 ^ ?m"
  proof -
    have "unat a div 2 ^ ?m * 2 ^ ?m < 2 ^ LENGTH('a)"
      using l by (rule le_less_trans [rotated]) simp
    then show ?thesis by (simp add: take_bit_eq_mod push_bit_eq_mult drop_bit_eq_div)
  qed
  finally have "unat (a AND NOT (mask ?m)) = unat a div 2 ^ ?m * 2 ^ ?m" .
  then show ?thesis
    unfolding in_net_def prod.case word_unat_eq_iff c by simp
qed

lemma in_net_v4:
  "k \<le> 32 \<Longrightarrow> c < 2 ^ k \<Longrightarrow> in_net a (of_nat (c * 2 ^ (32 - k)) :: 32 word, k) \<longleftrightarrow> unat a div 2 ^ (32 - k) = c"
  using in_net_iff [of k c a] by simp

lemma blocked_v4_nets:
  "list_ex (in_net a) blocked_v4 \<longleftrightarrow>
     unat a div 2 ^ 24 \<in> {0, 10, 127} \<or> unat a div 2 ^ 16 \<in> {169 * 256 + 254, 192 * 256 + 168} \<or>
     unat a div 2 ^ 20 = 172 * 16 + 1 \<or> unat a div 2 ^ 28 \<in> {14, 15}"
proof -
  have e: "octets 0 0 0 0 = of_nat (0 * 2 ^ (32 - 8))" "octets 10 0 0 0 = of_nat (10 * 2 ^ (32 - 8))"
    "octets 127 0 0 0 = of_nat (127 * 2 ^ (32 - 8))" "octets 169 254 0 0 = of_nat ((169 * 256 + 254) * 2 ^ (32 - 16))"
    "octets 172 16 0 0 = of_nat ((172 * 16 + 1) * 2 ^ (32 - 12))"
    "octets 192 168 0 0 = of_nat ((192 * 256 + 168) * 2 ^ (32 - 16))"
    "octets 224 0 0 0 = of_nat (14 * 2 ^ (32 - 4))" "octets 240 0 0 0 = of_nat (15 * 2 ^ (32 - 4))"
    by (simp_all add: octets_def)
  show ?thesis
    unfolding blocked_v4_def list_ex_iff list.set bex_simps e
    by (subst in_net_v4, simp, simp)+ auto
qed

section \<open>What the check accepts\<close>

text \<open>An address that the check may be satisfied with.\<close>

definition open_address :: "string \<Rightarrow> bool" where
  "open_address s \<longleftrightarrow> (case ip_address s of Inl e \<Rightarrow> False | Inr a \<Rightarrow> \<not> is_blocked a)"

lemma answer_check_iff: "answer_check host as = Inr () \<longleftrightarrow> list_all open_address as"
  by (induction as) (auto simp: open_address_def bind_res_def split: sum.splits)

lemma literal_check_iff: "literal_check host = Inr () \<longleftrightarrow> open_address host"
  by (auto simp: literal_check_def open_address_def bind_res_def split: sum.splits)

lemma static_check_iff:
  "static_check url = Inr host \<longleftrightarrow>
     (\<exists>p q. urlparse url = Inr p \<and> u_scheme p \<in> {''http'', ''https''} \<and> url_hostname p = Some host \<and>
        url_port p = Inr q \<and> effective_port (u_scheme p) q \<in> {80, 443, 8080, 8443})"
  by (auto simp: static_check_def bind_res_def allowed_schemes_def allowed_ports_def Let_def
      split: sum.splits option.splits if_splits)

text \<open>Whether the check of an address follows the last event of the trace.\<close>

definition cleared :: "net_event option \<Rightarrow> string \<Rightarrow> bool" where
  "cleared last_event url \<longleftrightarrow>
     (case static_check url of
        Inl e \<Rightarrow> False
      | Inr host \<Rightarrow>
          open_address host \<or>
          (case last_event of Some (Resolved h as) \<Rightarrow> h = host \<and> list_all open_address as | _ \<Rightarrow> False))"

fun vetted :: "net_event option \<Rightarrow> net_event list \<Rightarrow> bool" where
  "vetted prev [] = True"
| "vetted prev (Requested url # es) = (cleared prev url \<and> vetted (Some (Requested url)) es)"
| "vetted prev (e # es) = vetted (Some e) es"

definition last_event :: "net_event option \<Rightarrow> net_event list \<Rightarrow> net_event option" where
  "last_event prev es = (if es = [] then prev else Some (last es))"

lemma vetted_append: "vetted prev (xs @ ys) \<longleftrightarrow> vetted prev xs \<and> vetted (last_event prev xs) ys"
  by (induction prev xs rule: vetted.induct) (auto simp: last_event_def)

lemma vetted_resolved [simp]: "vetted prev [Resolved h as]"
  by simp

lemma on_world_trace: "net_trace (snd (on_world m s)) = net_trace s"
  by (simp add: on_world_def io_on_run)

text \<open>The check leaves the trace vetted, and when it returns the address is cleared.\<close>

lemma resolve_check_trace:
  "(\<exists>es. net_trace (snd (resolve_check dns host s)) = net_trace s @ es \<and> (\<forall>e \<in> set es. \<exists>h as. e = Resolved h as)) \<and>
   (fst (resolve_check dns host s) = Inr () \<longrightarrow>
      (\<exists>as. net_trace (snd (resolve_check dns host s)) = net_trace s @ [Resolved host as] \<and> list_all open_address as))"
proof (cases "fst (on_world (dns host) s)")
  case (Inl e)
  then show ?thesis by (simp add: resolve_check_def io_bind_run on_world_trace)
next
  case (Inr r)
  show ?thesis
  proof (cases r)
    case None
    then show ?thesis using Inr by (simp add: resolve_check_def io_bind_run on_world_trace)
  next
    case (Some as)
    then show ?thesis
      using Inr answer_check_iff [of host as]
      by (cases "answer_check host as") (auto simp: resolve_check_def io_bind_run on_world_trace note_event_def)
  qed
qed

lemma host_check_cases:
  "host_check dns host s = (Inr (), s) \<and> open_address host \<or> (\<exists>e. host_check dns host s = (Inl e, s)) \<or>
   host_check dns host s = resolve_check dns host s"
proof (cases "literal_check host")
  case (Inr u)
  then have "open_address host" using literal_check_iff [of host] by simp
  with Inr show ?thesis by (simp add: host_check_def)
next
  case (Inl e)
  then show ?thesis by (auto simp: host_check_def split: py_error.split)
qed

lemma assert_safe_url_trace:
  "(\<exists>es. net_trace (snd (assert_safe_url dns url s)) = net_trace s @ es \<and> (\<forall>e \<in> set es. \<exists>h as. e = Resolved h as)) \<and>
   (fst (assert_safe_url dns url s) = Inr () \<longrightarrow>
      cleared (last_event None (net_trace (snd (assert_safe_url dns url s)))) url)"
proof (cases "static_check url")
  case (Inl e)
  then show ?thesis by (simp add: assert_safe_url_def io_bind_run)
next
  case (Inr host)
  then have c: "assert_safe_url dns url s = host_check dns host s"
    by (simp add: assert_safe_url_def io_bind_run)
  from host_check_cases [of dns host s] show ?thesis
  proof (elim disjE conjE exE)
    assume "host_check dns host s = (Inr (), s)" "open_address host"
    then show ?thesis using Inr by (simp add: c cleared_def)
  next
    fix e assume "host_check dns host s = (Inl e, s)"
    then show ?thesis by (simp add: c)
  next
    assume "host_check dns host s = resolve_check dns host s"
    then show ?thesis
      using Inr resolve_check_trace [of dns host s] unfolding c
      by (auto simp: cleared_def last_event_def)
  qed
qed

lemma vetted_resolves: "(\<forall>e \<in> set es. \<exists>h as. e = Resolved h as) \<Longrightarrow> vetted prev es"
  by (induction prev es rule: vetted.induct) auto

definition requests :: "net_event list \<Rightarrow> string list" where
  "requests es = concat (map (\<lambda>e. case e of Requested u \<Rightarrow> [u] | Resolved h as \<Rightarrow> []) es)"

lemma requests_append [simp]: "requests (xs @ ys) = requests xs @ requests ys"
  by (simp add: requests_def)

lemma requests_resolves: "(\<forall>e \<in> set es. \<exists>h as. e = Resolved h as) \<Longrightarrow> requests es = []"
  by (induction es) (auto simp: requests_def)

lemma fetch_loop_trace:
  "vetted None (net_trace s) \<Longrightarrow>
   vetted None (net_trace (snd (fetch_loop dns get join url n current s))) \<and>
   length (requests (net_trace (snd (fetch_loop dns get join url n current s)))) \<le> length (requests (net_trace s)) + n"
proof (induction n arbitrary: current s)
  case 0
  then show ?case by simp
next
  case (Suc n)
  obtain r1 s1 where a: "assert_safe_url dns current s = (r1, s1)" by (meson surj_pair)
  obtain es where es: "net_trace s1 = net_trace s @ es" "\<forall>e \<in> set es. \<exists>h as. e = Resolved h as"
    using assert_safe_url_trace [of dns current s] unfolding a by auto
  have v1: "vetted None (net_trace s1)" using Suc.prems es by (simp add: vetted_append vetted_resolves)
  have q1: "requests (net_trace s1) = requests (net_trace s)" using es by (simp add: requests_resolves)
  show ?case
  proof (cases r1)
    case (Inl e)
    then show ?thesis using a v1 q1 by (simp add: io_bind_run)
  next
    case (Inr u)
    then have cl: "cleared (last_event None (net_trace s1)) current"
      using assert_safe_url_trace [of dns current s] unfolding a by simp
    define s2 where "s2 = s1\<lparr>net_trace := net_trace s1 @ [Requested current]\<rparr>"
    obtain r3 s3 where g: "on_world (get current) s2 = (r3, s3)" by (meson surj_pair)
    have t3: "net_trace s3 = net_trace s1 @ [Requested current]"
      using on_world_trace [of "get current" s2] unfolding g by (simp add: s2_def)
    have v3: "vetted None (net_trace s3)" unfolding t3 vetted_append using v1 cl by simp
    have q3: "length (requests (net_trace s3)) = Suc (length (requests (net_trace s)))"
      by (simp add: t3 q1) (simp add: requests_def)
    have run: "fetch_loop dns get join url (Suc n) current s =
        io_bind (on_world (get current)) (\<lambda>r.
          if redirects r then io_bind (io_exn (join current (the (ha_location r)))) (fetch_loop dns get join url n)
          else io_return r) s2"
      using a Inr by (simp add: io_bind_run note_event_def s2_def)
    show ?thesis
    proof (cases r3)
      case (Inl e)
      then show ?thesis using g v3 q3 unfolding run by (simp add: io_bind_run)
    next
      case (Inr r)
      have step: "fetch_loop dns get join url (Suc n) current s =
          (if redirects r then io_bind (io_exn (join current (the (ha_location r)))) (fetch_loop dns get join url n) s3
           else (Inr r, s3))"
        using g Inr unfolding run by (simp add: io_bind_run)
      show ?thesis
        using Suc.IH [OF v3] v3 q3
        by (cases "join current (the (ha_location r))") (auto simp: step io_exn_def io_bind_run simp del: fetch_loop.simps)
    qed
  qed
qed


section \<open>Addresses written as numbers\<close>

text \<open>The part with host and port, when it has none of the characters that delimit it.\<close>

definition plain_netloc :: "string \<Rightarrow> bool" where
  "plain_netloc h \<longleftrightarrow> list_all (\<lambda>c. c \<notin> set ''/?#'' \<and> 32 < (of_char c :: nat)) h"

lemma takeWhile_stop: "list_all P a \<Longrightarrow> \<not> P c \<Longrightarrow> takeWhile P (a @ c # b) = a"
  by (induction a) auto

lemma http_split:
  assumes "plain_netloc h"
  shows "split_scheme (clean_url (''http://'' @ h @ CHR ''/'' # path)) =
    (''http'', ''//'' @ h @ CHR ''/'' # filter (\<lambda>c. \<not> line_char c) path)"
proof -
  have h: "filter (\<lambda>c. \<not> line_char c) h = h"
  proof (intro filter_True ballI)
    fix c assume "c \<in> set h"
    then have "32 < (of_char c :: nat)" using assms by (simp add: plain_netloc_def list_all_iff)
    moreover have "32 < n \<Longrightarrow> n \<notin> {9, 10, 13}" for n :: nat by auto
    ultimately have "(of_char c :: nat) \<notin> {9, 10, 13}" by blast
    then show "\<not> line_char c" unfolding line_char_def .
  qed
  have l: "filter (\<lambda>c. \<not> line_char c) (''http://'' @ h @ CHR ''/'' # path) =
      ''http://'' @ h @ CHR ''/'' # filter (\<lambda>c. \<not> line_char c) path"
    unfolding filter_append h by (simp add: line_char_def)
  have "clean_url (''http://'' @ h @ CHR ''/'' # path) =
      ''http'' @ CHR '':'' # ''//'' @ h @ CHR ''/'' # filter (\<lambda>c. \<not> line_char c) path"
    unfolding clean_url_def using l by simp
  moreover have "split_scheme (''http'' @ CHR '':'' # r) = (''http'', r)" for r
  proof -
    have "lower ''http'' = ''http''" by code_simp
    moreover have "ascii_letter CHR ''h''" "list_all scheme_char ''http''" by code_simp+
    ultimately show ?thesis
      by (simp add: split_scheme_def py_partition_def Let_def)
  qed
  ultimately show ?thesis by (simp only:)
qed

lemma http_netloc:
  assumes "plain_netloc h" "CHR ''['' \<notin> set h" "CHR '']'' \<notin> set h"
  shows "urlparse (''http://'' @ h @ CHR ''/'' # path) = Inr \<lparr>u_scheme = ''http'', u_netloc = h\<rparr>"
proof -
  have "takeWhile (\<lambda>c. c \<notin> set ''/?#'') (h @ CHR ''/'' # r) = h" for r
    using assms(1) by (intro takeWhile_stop) (auto simp: plain_netloc_def list_all_iff)
  then show ?thesis using assms http_split [OF assms(1)] by (simp add: urlparse_def Let_def)
qed

lemma lower_same: "list_all (\<lambda>c. \<not> (65 \<le> (of_char c :: nat) \<and> (of_char c :: nat) \<le> 90)) s \<Longrightarrow> lower s = s"
  by (induction s) (auto simp: lower_def lower_char_def)

lemma v4_str_set: "c \<in> set (v4_str a) \<Longrightarrow> is_digit c \<or> c = CHR ''.''"
  using v4_str_chars by blast

lemma v4_netloc: "plain_netloc (v4_str a)" "lower (v4_str a) = v4_str a"
proof -
  show "plain_netloc (v4_str a)"
    unfolding plain_netloc_def list_all_iff by (auto dest!: v4_str_set simp: is_digit_def Let_def)
  show "lower (v4_str a) = v4_str a"
    by (rule lower_same) (auto dest!: v4_str_set simp: is_digit_def list_all_iff Let_def)
qed

lemma v4_netloc_no: "c \<in> set ''[]@:%/'' \<Longrightarrow> c \<notin> set (v4_str a)"
  by (auto dest!: v4_str_set simp: is_digit_def)

lemma static_check_v4: "static_check (''http://'' @ v4_str a @ CHR ''/'' # path) = Inr (v4_str a)"
proof -
  have n: "CHR ''['' \<notin> set (v4_str a)" "CHR '']'' \<notin> set (v4_str a)" "CHR ''@'' \<notin> set (v4_str a)"
    "CHR '':'' \<notin> set (v4_str a)" "CHR ''%'' \<notin> set (v4_str a)"
    by (rule v4_netloc_no; simp)+
  have "urlparse (''http://'' @ v4_str a @ CHR ''/'' # path) = Inr \<lparr>u_scheme = ''http'', u_netloc = v4_str a\<rparr>"
    by (rule http_netloc [OF v4_netloc(1) n(1,2)])
  moreover have "host_info \<lparr>u_scheme = ''http'', u_netloc = v4_str a\<rparr> = (v4_str a, None)"
    using n by (simp add: host_info_def after_last_none py_partition_none)
  ultimately show ?thesis
    using n v4_netloc(2) by (simp add: static_check_def allowed_schemes_def allowed_ports_def url_hostname_def
        url_port_def effective_port_def py_partition_none v4_str_not_Nil)
qed

lemma mapped_netloc: "plain_netloc (''[::ffff:'' @ v4_str a @ '']'')"
  using v4_netloc(1) [of a] by (simp add: plain_netloc_def)

lemma ip_mapped: "ip_address (''::ffff:'' @ v4_str a) = Inr (V6 (of_nat (65535 * 4294967296 + unat a)) None)"
proof -
  have "split_char CHR ''.'' (''::ffff:'' @ v4_str a) =
      (''::ffff:'' @ str_nat (octet_of a 3)) # map (\<lambda>i. str_nat (octet_of a i)) [2, 1, 0]"
  proof -
    have "split_char CHR ''.'' (py_join ''.'' ((''::ffff:'' @ str_nat (octet_of a 3)) # map (\<lambda>i. str_nat (octet_of a i)) [2, 1, 0]))
        = (''::ffff:'' @ str_nat (octet_of a 3)) # map (\<lambda>i. str_nat (octet_of a i)) [2, 1, 0]"
      by (rule split_char_join) (auto simp: str_nat_no is_digit_def)
    then show ?thesis by (simp add: v4_str_def)
  qed
  then have "parse_v4 (''::ffff:'' @ v4_str a) = None"
    by (simp add: parse_v4_def parse_octet_def is_digit_def)
  then show ?thesis by (simp add: ip_address_def parse_mapped [simplified])
qed

lemma mapped_not_blocked: "\<not> is_blocked (V6 (of_nat (65535 * 4294967296 + unat a)) None)" for a :: "32 word"
proof -
  have b: "unat a < 4294967296" using unsigned_less [of a] by simp
  define n where "n = 65535 * 4294967296 + unat a"
  have u: "unat (of_nat n :: 128 word) = n" using b by (simp only: unat_of_nat take_bit_eq_mod n_def) simp
  have net: "in_net (of_nat n :: 128 word) (of_nat (c * 2 ^ (128 - k)), k) \<longleftrightarrow> n div 2 ^ (128 - k) = c"
    if "k \<le> 128" "c < 2 ^ k" for k c
    using in_net_iff [of k c "of_nat n :: 128 word"] that by (simp add: u)
  have e: "(1 :: 128 word) = of_nat (1 * 2 ^ (128 - 128))" "(0 :: 128 word) = of_nat (0 * 2 ^ (128 - 128))"
    "(push_bit 112 0xFC00 :: 128 word) = of_nat (126 * 2 ^ (128 - 7))"
    "(push_bit 112 0xFE80 :: 128 word) = of_nat (1018 * 2 ^ (128 - 10))" by simp_all
  have "\<not> in_net (of_nat n :: 128 word) (1, 128)" "\<not> in_net (of_nat n :: 128 word) (0, 128)"
    "\<not> in_net (of_nat n :: 128 word) (push_bit 112 0xFC00, 7)" "\<not> in_net (of_nat n :: 128 word) (push_bit 112 0xFE80, 10)"
    unfolding e by ((subst net, simp, simp), use b in \<open>simp add: n_def\<close>)+
  then show ?thesis by (simp only: is_blocked.simps blocked_v6_def list_ex_iff list.set bex_simps n_def) blast
qed

lemma static_check_mapped:
  "static_check (''http://'' @ (''[::ffff:'' @ v4_str a @ '']'') @ CHR ''/'' # path) = Inr (''::ffff:'' @ v4_str a)"
proof -
  let ?h = "''::ffff:'' @ v4_str a"
  have n: "CHR ''['' \<notin> set ?h" "CHR '']'' \<notin> set ?h" "CHR ''@'' \<notin> set (''[::ffff:'' @ v4_str a @ '']'')" "CHR ''%'' \<notin> set ?h"
    using v4_netloc_no [of _ a] by simp_all
  have net: "takeWhile (\<lambda>c. c \<notin> set ''/?#'') ((''[::ffff:'' @ v4_str a @ '']'') @ CHR ''/'' # r) = ''[::ffff:'' @ v4_str a @ '']''" for r
    using mapped_netloc by (intro takeWhile_stop) (auto simp: plain_netloc_def list_all_iff)
  have br: "py_partition CHR ''['' (''[::ffff:'' @ v4_str a @ '']'') = ([], True, ?h @ '']'')"
    using py_partition_append [of "CHR ''[''" "[]" "?h @ '']''"] by simp
  have cl: "py_partition CHR '']'' (?h @ '']'') = (?h, True, [])"
    using py_partition_append [OF n(2), of "[]"] by simp
  have p: "urlparse (''http://'' @ (''[::ffff:'' @ v4_str a @ '']'') @ CHR ''/'' # path) =
      Inr \<lparr>u_scheme = ''http'', u_netloc = ''[::ffff:'' @ v4_str a @ '']''\<rparr>"
    using http_split [OF mapped_netloc, of a path] net br cl
    by (simp add: urlparse_def Let_def check_bracketed_def starts_with_def ip_mapped [simplified])
  have hi: "host_info \<lparr>u_scheme = ''http'', u_netloc = ''[::ffff:'' @ v4_str a @ '']''\<rparr> = (?h, None)"
    using br cl after_last_none [OF n(3)] by (simp add: host_info_def py_partition_def)
  have lo: "lower ?h = ?h" using v4_netloc(2) [of a] by (simp add: lower_def lower_char_def)
  show ?thesis unfolding static_check_def p bind_res_simps url_hostname_def url_port_def hi fst_conv snd_conv Let_def
    using py_partition_none [OF n(4)] lo by (simp add: allowed_schemes_def allowed_ports_def effective_port_def)
qed

section \<open>Properties\<close>

text \<open>C32: An IPv4 address is refused exactly when it lies in one of the reserved ranges: this host, private networks,
  loop back, link local, multicast and above.\<close>

theorem blocked_ranges:
  "is_blocked (V4 a) \<longleftrightarrow>
     (let n = unat a
      in n < 0x1000000 \<or> 0xA000000 \<le> n \<and> n < 0xB000000 \<or> 0x7F000000 \<le> n \<and> n < 0x80000000 \<or>
         0xA9FE0000 \<le> n \<and> n < 0xA9FF0000 \<or> 0xAC100000 \<le> n \<and> n < 0xAC200000 \<or>
         0xC0A80000 \<le> n \<and> n < 0xC0A90000 \<or> 0xE0000000 \<le> n)"
proof -
  define n where "n = unat a"
  have b: "n < 4294967296" using unsigned_less [of a, where 'a = nat] by (simp add: n_def)
  have k: "n div k = c \<longleftrightarrow> c * k \<le> n \<and> n < c * k + k" if "0 < k" for k c
  proof -
    have "n div k = c \<longleftrightarrow> c \<le> n div k \<and> n div k < c + 1" by auto
    also have "\<dots> \<longleftrightarrow> c * k \<le> n \<and> n < (c + 1) * k"
      using that by (simp only: less_eq_div_iff_mult_less_eq div_less_iff_less_mult)
    finally show ?thesis by (simp add: add.commute)
  qed
  have i: "n div 16777216 = 0 \<longleftrightarrow> n < 0x1000000" "n div 16777216 = 10 \<longleftrightarrow> 0xA000000 \<le> n \<and> n < 0xB000000"
    "n div 16777216 = 127 \<longleftrightarrow> 0x7F000000 \<le> n \<and> n < 0x80000000"
    "n div 65536 = 43518 \<longleftrightarrow> 0xA9FE0000 \<le> n \<and> n < 0xA9FF0000"
    "n div 65536 = 49320 \<longleftrightarrow> 0xC0A80000 \<le> n \<and> n < 0xC0A90000"
    "n div 1048576 = 2753 \<longleftrightarrow> 0xAC100000 \<le> n \<and> n < 0xAC200000"
    "n div 268435456 = 14 \<longleftrightarrow> 0xE0000000 \<le> n \<and> n < 0xF0000000" "n div 268435456 = 15 \<longleftrightarrow> 0xF0000000 \<le> n"
    using b by (simp_all add: k)
  have j: "0xE0000000 \<le> n \<and> n < 0xF0000000 \<or> 0xF0000000 \<le> n \<longleftrightarrow> 0xE0000000 \<le> n" by auto
  have "is_blocked (V4 a) \<longleftrightarrow> n div 16777216 \<in> {0, 10, 127} \<or> n div 65536 \<in> {43518, 49320} \<or>
      n div 1048576 = 2753 \<or> n div 268435456 \<in> {14, 15}"
    by (simp add: blocked_v4_nets n_def)
  then show ?thesis
    unfolding n_def [symmetric] Let_def insert_iff empty_iff i by (simp only: j simp_thms disj_assoc) blast
qed

text \<open>An IPv4 address is read back from the text it is printed as.\<close>

theorem address_roundtrip: "ip_address (ip_str (V4 a)) = Inr (V4 a)"
  by (simp add: ip_address_def parse_v4_str)

text \<open>C5: A fetch sends no request that is not cleared right before: scheme and port are among those allowed, and the
  host is an open address itself or the resolver, asked immediately before, gave open addresses only. This holds for every
  redirection, whatever the server answers, and there are at most \<^verbatim>\<open>max_redirects + 1\<close> requests.\<close>

theorem requests_are_vetted:
  assumes "net_trace (snd (fetch_url_safe dns get join max_redirects url \<lparr>net_world = w, net_trace = []\<rparr>)) =
    xs @ Requested u # ys"
  shows "length (requests (xs @ Requested u # ys)) \<le> nat (max_redirects + 1) \<and>
    (\<exists>p q host. urlparse u = Inr p \<and> u_scheme p \<in> {''http'', ''https''} \<and> url_hostname p = Some host \<and>
      url_port p = Inr q \<and> effective_port (u_scheme p) q \<in> {80, 443, 8080, 8443} \<and>
      (open_address host \<or> (\<exists>zs as. xs = zs @ [Resolved host as] \<and> list_all open_address as)))"
proof -
  have v: "vetted None (xs @ Requested u # ys)" "length (requests (xs @ Requested u # ys)) \<le> nat (max_redirects + 1)"
    using fetch_loop_trace [of "\<lparr>net_world = w, net_trace = []\<rparr>" dns get join url "nat (max_redirects + 1)" url]
    unfolding fetch_url_safe_def [symmetric] assms by (simp_all add: requests_def)
  then have c: "cleared (last_event None xs) u" by (simp add: vetted_append)
  then obtain host where host: "static_check u = Inr host" by (auto simp: cleared_def split: sum.splits)
  have "open_address host \<or> (\<exists>zs as. xs = zs @ [Resolved host as] \<and> list_all open_address as)"
    using c host by (cases xs rule: rev_cases) (auto simp: cleared_def last_event_def split: option.splits net_event.splits)
  with host v(2) show ?thesis unfolding static_check_iff by blast
qed

definition public_site :: "32 word" where
  "public_site = octets 93 184 216 34"

definition site_url :: string where
  "site_url = ''http://'' @ v4_str public_site @ CHR ''/'' # []"

definition deaf_dns :: "unit resolver" where
  "deaf_dns host = io_return None"

definition plain_get :: "unit http_client" where
  "plain_get url = io_return \<lparr>ha_status = 200, ha_location = None, ha_url = url, ha_type = [], ha_text = []\<rparr>"

definition no_join :: joiner where
  "no_join a b = Inr b"

lemma public_site_open: "open_address (v4_str public_site)"
proof -
  have "\<not> is_blocked (V4 public_site)" unfolding is_blocked.simps blocked_v4_nets by (simp add: public_site_def octets_def)
  then show ?thesis using parse_v4_str [of public_site] by (simp add: open_address_def ip_address_def)
qed

lemma site_checked: "assert_safe_url dns site_url s = (Inr (), s)"
proof -
  have "literal_check (v4_str public_site) = Inr ()" using public_site_open literal_check_iff by blast
  then show ?thesis using static_check_v4 [of public_site "[]"]
    by (simp add: assert_safe_url_def io_bind_run site_url_def host_check_def)
qed

lemma site_fetched:
  "net_trace (snd (fetch_url_safe deaf_dns plain_get no_join 5 site_url \<lparr>net_world = (), net_trace = []\<rparr>)) =
     [] @ Requested site_url # []"
proof -
  have "nat (5 + 1) = Suc 5" by simp
  then show ?thesis
    by (simp only: fetch_url_safe_def fetch_loop.simps io_bind_run site_checked)
      (simp add: note_event_def on_world_def io_on_run plain_get_def redirects_def)
qed

theorem requests_are_vetted_witness:
  "length (requests ([] @ Requested site_url # [])) \<le> nat (5 + 1) \<and>
    (\<exists>p q host. urlparse site_url = Inr p \<and> u_scheme p \<in> {''http'', ''https''} \<and> url_hostname p = Some host \<and>
      url_port p = Inr q \<and> effective_port (u_scheme p) q \<in> {80, 443, 8080, 8443} \<and>
      (open_address host \<or> (\<exists>zs as. [] = zs @ [Resolved host as] \<and> list_all open_address as)))"
  by (rule requests_are_vetted [OF site_fetched])

text \<open>An address in a reserved range written as four numbers is always refused, whatever follows it, and nobody is
  asked about it.\<close>

theorem private_address_is_refused:
  assumes "is_blocked (V4 a)"
  shows "assert_safe_url dns (''http://'' @ v4_str a @ CHR ''/'' # path) s =
    (Inl (Py (ValueError (''blocked address (internal/private): '' @ v4_str a))), s)"
proof -
  have "literal_check (v4_str a) = Inl (ValueError (blocked_address (v4_str a)))"
    using assms by (simp add: literal_check_def ip_address_def parse_v4_str)
  then show ?thesis using static_check_v4 [of a path]
    by (simp add: assert_safe_url_def io_bind_run host_check_def blocked_address_def starts_with_def)
qed

theorem private_address_is_refused_witness:
  "assert_safe_url deaf_dns (''http://'' @ v4_str (octets 169 254 169 254) @ CHR ''/'' # ''latest/meta-data'') \<lparr>net_world = (), net_trace = []\<rparr> =
    (Inl (Py (ValueError (''blocked address (internal/private): '' @ v4_str (octets 169 254 169 254)))),
     \<lparr>net_world = (), net_trace = []\<rparr>)"
  by (rule private_address_is_refused) (simp add: blocked_v4_nets octets_def)

text \<open>C40: The same addresses pass when they are written in the form of IPv6 that maps IPv4: no network of the second list
  holds them, so the check and the check at connection time let every one of them through.\<close>

theorem mapped_address_passes:
  "assert_safe_url dns (''http://[::ffff:'' @ v4_str a @ '']/'' @ path) s = (Inr (), s) \<and>
   assert_safe_ip (''::ffff:'' @ v4_str a) = Inr ()"
proof -
  have l: "literal_check (''::ffff:'' @ v4_str a) = Inr ()"
    unfolding literal_check_def ip_mapped bind_res_simps using mapped_not_blocked by (simp only: if_False)
  have "''http://[::ffff:'' @ v4_str a @ '']/'' @ path = ''http://'' @ (''[::ffff:'' @ v4_str a @ '']'') @ CHR ''/'' # path"
    by simp
  then have "assert_safe_url dns (''http://[::ffff:'' @ v4_str a @ '']/'' @ path) s = host_check dns (''::ffff:'' @ v4_str a) s"
    by (simp only: assert_safe_url_def static_check_mapped io_res_def sum.case io_bind_return)
  then have "assert_safe_url dns (''http://[::ffff:'' @ v4_str a @ '']/'' @ path) s = (Inr (), s)"
    by (simp only: host_check_def l sum.case io_return_run)
  moreover have "assert_safe_ip (''::ffff:'' @ v4_str a) = Inr ()"
    unfolding assert_safe_ip_def ip_mapped using mapped_not_blocked by (simp only: sum.case if_False)
  ultimately show ?thesis ..
qed

text \<open>The list of allowed commands looks at the last part of a path only: a file of an allowed name in any directory
  may be started. An empty list allows nothing.\<close>

theorem allowlist_ignores_directories:
  "command_allowed env (dir @ CHR ''/'' # command) = command_allowed env command \<and> \<not> command_allowed None command"
proof -
  have "takeWhile (\<lambda>x. x \<noteq> CHR ''/'') (zs @ CHR ''/'' # rev dir) = takeWhile (\<lambda>x. x \<noteq> CHR ''/'') zs" for zs
    by (induction zs) simp_all
  then show ?thesis by (simp add: command_allowed_def basename_def after_last_def py_strip_def py_lstrip_def)
qed

end
