(* ===== verification/Sandbox.thy ===== *)
theory Sandbox
  imports Regex Effects
begin

text \<open>
  \<^verbatim>\<open>app/tools/sandbox.py\<close> and \<^verbatim>\<open>app/tools/context.py\<close>: the directory of a user, paths clamped to it, the
  environment of a command, and the two filters a command has to pass before it is started. Paths are those of POSIX;
  the resolution of links, the creation of directories and the start of a process are arguments.
\<close>

section \<open>Context of a tool call\<close>

type_synonym 'v tool_context = "(string, 'v) dict"

definition set_tool_context :: "(string, 'v) dict \<Rightarrow> 'v tool_context \<Rightarrow> 'v tool_context" where
  "set_tool_context kwargs ctx = foldl (\<lambda>m (k, v). dset k v m) ctx kwargs"

definition get_tool_context :: "'v tool_context \<Rightarrow> string \<Rightarrow> 'v \<Rightarrow> 'v" where
  "get_tool_context ctx k v = dget_or ctx k v"

definition get_session_id :: "(pyfloat \<Rightarrow> string) \<Rightarrow> pyval tool_context \<Rightarrow> string" where
  "get_session_id fl ctx = py_str fl (get_tool_context ctx ''session_id'' (PStr []))"

definition get_user_id :: "(pyfloat \<Rightarrow> string) \<Rightarrow> pyval tool_context \<Rightarrow> string" where
  "get_user_id fl ctx = py_str fl (get_tool_context ctx ''user_id'' (PStr []))"

definition get_tenant_id :: "(pyfloat \<Rightarrow> string) \<Rightarrow> pyval tool_context \<Rightarrow> string" where
  "get_tenant_id fl ctx = py_str fl (get_tool_context ctx ''tenant_id'' (PStr []))"

section \<open>Paths\<close>

text \<open>\<open>Path(s)\<close>: two leading slashes are a root of their own, three are one; empty parts and dots go.\<close>

record ppath =
  p_root :: string
  p_parts :: "string list"

definition path_root :: "string \<Rightarrow> string" where
  "path_root s =
     (if \<not> starts_with ''/'' s then []
      else if starts_with ''//'' s \<and> \<not> starts_with ''///'' s then ''//'' else ''/'')"

definition path_of :: "string \<Rightarrow> ppath" where
  "path_of s =
     \<lparr>p_root = path_root s, p_parts = filter (\<lambda>w. w \<noteq> [] \<and> w \<noteq> ''.'') (split_char CHR ''/'' s)\<rparr>"

definition path_join :: "ppath \<Rightarrow> string \<Rightarrow> ppath" where
  "path_join a s =
     (let b = path_of s
      in if p_root b \<noteq> [] then b else a\<lparr>p_parts := p_parts a @ p_parts b\<rparr>)"

definition path_str :: "ppath \<Rightarrow> string" where
  "path_str p = (if p_root p = [] \<and> p_parts p = [] then ''.'' else p_root p @ py_join ''/'' (p_parts p))"

definition path_parent :: "ppath \<Rightarrow> ppath" where
  "path_parent p = p\<lparr>p_parts := butlast (p_parts p)\<rparr>"

definition path_name :: "ppath \<Rightarrow> string" where
  "path_name p = (if p_parts p = [] then [] else last (p_parts p))"

text \<open>Resolution where no part is a link: a step up takes the last part away.\<close>

definition norm_path :: "ppath \<Rightarrow> ppath" where
  "norm_path p = \<lparr>p_root = ''/'', p_parts = foldl (\<lambda>ps w. if w = ''..'' then butlast ps else ps @ [w]) [] (p_parts p)\<rparr>"

section \<open>Directories\<close>

text \<open>
  The environment of the process, its directory, the system it runs on and its resolution of paths, which
  may raise.
\<close>

record sandbox_config =
  sc_env :: "(string, string) dict"
  sc_cwd :: string
  sc_windows :: bool
  sc_resolve :: "ppath \<Rightarrow> ppath res"

definition sandbox_root :: "sandbox_config \<Rightarrow> ppath res" where
  "sandbox_root cfg =
     (let env = dget_or (sc_env cfg) ''SANDBOX_ROOT'' []
      in if env \<noteq> [] then sc_resolve cfg (path_of env)
         else bind_res (sc_resolve cfg (path_of (sc_cwd cfg))) (\<lambda>p.
                Inr (path_join (path_parent (path_parent p)) ''minicc-sandbox'')))"

definition or_default :: "string \<Rightarrow> string \<Rightarrow> string" where
  "or_default s d = (if s = [] then d else s)"

definition user_dir :: "sandbox_config \<Rightarrow> string \<Rightarrow> string \<Rightarrow> ppath res" where
  "user_dir cfg tenant user =
     bind_res (sandbox_root cfg) (\<lambda>r.
       Inr (path_join (path_join r (or_default tenant ''default'')) (or_default user ''anonymous'')))"

text \<open>\<open>d.mkdir(parents=True, exist_ok=True)\<close>; a failure of the system (\<open>Ext\<close>) is logged.\<close>

type_synonym 'w mkdir = "ppath \<Rightarrow> ('w, unit) io"

definition make_dir :: "'w mkdir \<Rightarrow> ppath \<Rightarrow> ('w, ppath) io" where
  "make_dir mkdir d =
     io_try (io_bind (mkdir d) (\<lambda>u. io_return d)) (\<lambda>e. case e of Ext m \<Rightarrow> io_return d | Py e \<Rightarrow> io_raise (Py e))"

definition get_sandbox_dir :: "sandbox_config \<Rightarrow> 'w mkdir \<Rightarrow> string \<Rightarrow> string \<Rightarrow> ('w, ppath) io" where
  "get_sandbox_dir cfg mkdir tenant user = io_bind (io_res (user_dir cfg tenant user)) (make_dir mkdir)"

definition workspace_dir :: "sandbox_config \<Rightarrow> 'w mkdir \<Rightarrow> string \<Rightarrow> string \<Rightarrow> ('w, ppath) io" where
  "workspace_dir cfg mkdir tenant user =
     io_bind (get_sandbox_dir cfg mkdir tenant user) (\<lambda>d. make_dir mkdir (path_join d ''workspace''))"

text \<open>A path under a directory that it may not leave.\<close>

definition inside :: "ppath \<Rightarrow> ppath \<Rightarrow> bool" where
  "inside base target \<longleftrightarrow> target = base \<or> starts_with (path_str base @ ''/'') (path_str target)"

definition clamp :: "sandbox_config \<Rightarrow> ppath \<Rightarrow> string \<Rightarrow> ppath res" where
  "clamp cfg dir rel =
     bind_res (sc_resolve cfg dir) (\<lambda>base.
     bind_res (sc_resolve cfg (path_join base rel)) (\<lambda>target.
       if inside base target then Inr target
       else Inl (ValueError (''path escapes sandbox: '' @ rel))))"

definition safe_join :: "sandbox_config \<Rightarrow> 'w mkdir \<Rightarrow> string \<Rightarrow> string \<Rightarrow> string \<Rightarrow> ('w, ppath) io" where
  "safe_join cfg mkdir tenant user rel =
     io_bind (workspace_dir cfg mkdir tenant user) (\<lambda>d. io_res (clamp cfg d rel))"

definition kept_vars :: "string list" where
  "kept_vars = [''PATH'', ''SYSTEMROOT'', ''WINDIR'', ''COMSPEC'', ''TEMP'', ''TMP'', ''HOME'', ''USERPROFILE'']"

definition sandboxed_env :: "sandbox_config \<Rightarrow> 'w mkdir \<Rightarrow> string \<Rightarrow> string \<Rightarrow> ('w, (string, string) dict) io" where
  "sandboxed_env cfg mkdir tenant user =
     (let env = filter (\<lambda>(k, v). k \<in> set kept_vars) (sc_env cfg)
      in io_bind (workspace_dir cfg mkdir tenant user) (\<lambda>w1.
         io_bind (workspace_dir cfg mkdir tenant user) (\<lambda>w2.
         io_bind (get_sandbox_dir cfg mkdir tenant user) (\<lambda>d1.
         io_bind (get_sandbox_dir cfg mkdir tenant user) (\<lambda>d2.
           io_return (dset ''TMP'' (path_str d2) (dset ''TEMP'' (path_str d1)
             (dset ''USERPROFILE'' (path_str w2) (dset ''HOME'' (path_str w1) env)))))))))"

section \<open>Filters of commands\<close>

abbreviation bs :: char where
  "bs \<equiv> CHR 0x5C"

definition rclass :: "(int \<times> int) list \<Rightarrow> rx" where
  "rclass rs = RCls False rs"

text \<open>A letter, a slash of either kind, the place where a word of the shell may begin.\<close>

definition letter :: rx where
  "letter = rclass [(65, 90), (97, 122)]"

definition any_slash :: rx where
  "any_slash = rclass [(92, 92), (47, 47)]"

definition drive :: rx where
  "drive = rseqs [letter, rlit '':'', any_slash]"

definition word_start :: rx where
  "word_start = RAlt RBegin (rclass [(9, 13), (28, 32), (133, 133), (160, 160), (34, 34), (39, 39), (59, 59)])"

definition parent_step :: rx where
  "parent_step =
     rseqs [RAlt RBegin (RCls True [(65, 90), (97, 122), (48, 57), (95, 95), (46, 46)]), rlit ''..'', any_slash]"

definition cd_drive :: rx where
  "cd_drive = rseqs [RBound, rlit ''cd'', RBound, RStar (RCls True [(38, 38), (124, 124), (59, 59)]), drive]"

definition absolute :: rx where
  "absolute =
     RSeq word_start
       (ralts [RSeq (rlit ''/'') (RAlt (ratleast 2 (rclass [(65, 90), (97, 122), (48, 57), (95, 95), (46, 46), (45, 45)])) REnd),
               RSeq (rlit ''~'') (ropt (rlit ''/'')),
               rseqs [rlit ''$'', ropt (rlit ''{''), rlit ''HOME'', ropt (rlit ''}''), RBound]])"

definition metadata_fetch :: rx where
  "metadata_fetch =
     rseqs [word_start, RAlt (rlit ''curl'') (rlit ''wget''), rplus rspace, rlit ''http'', ropt (rlit ''s''), rlit ''://'',
            ralts [rlit ''169.254.169.254'', rlit ''127.0.0.1'', rlit ''localhost'']]"

text \<open>The patterns with their texts, which are the reason of a refusal.\<close>

definition escape_patterns :: "(string \<times> rx) list" where
  "escape_patterns =
     [(''[A-Za-z]:['' @ [bs, bs] @ ''/]'', drive),
      ([bs, bs, bs, bs], rlit [bs, bs]),
      (''(^|[^A-Za-z0-9_.])('' @ [bs] @ ''.'' @ [bs] @ ''.)['' @ [bs, bs] @ ''/]'', parent_step),
      ([bs] @ ''bcd'' @ [bs] @ ''b[^&|;]*[A-Za-z]:['' @ [bs, bs] @ ''/]'', cd_drive),
      (''(?:^|['' @ [bs] @ ''s'' @ [bs, dquote, squote] @ '';])(?:/(?:[A-Za-z0-9_.-]{2,}|$)|~/?|'' @ [bs] @ ''$'' @ [bs]
         @ ''{?HOME'' @ [bs] @ ''}?'' @ [bs] @ ''b)'', absolute),
      (''(?:^|['' @ [bs] @ ''s'' @ [bs, dquote, squote] @ '';])(?:curl|wget)'' @ [bs] @ ''s+https?://(?:169'' @ [bs] @ ''.254'' @ [bs]
         @ ''.169'' @ [bs] @ ''.254|127'' @ [bs] @ ''.0'' @ [bs] @ ''.0'' @ [bs] @ ''.1|localhost)'', metadata_fetch)]"

definition has_escape :: "string \<Rightarrow> string option" where
  "has_escape command =
     map_option fst (find (\<lambda>(text, pat). rx_search False pat command) escape_patterns)"

text \<open>
  \<open>shlex.split(s)\<close>: between words, in a word, inside a quotation, after a backslash (inside which quotation).
\<close>

datatype lex_state = Between | InWord | InQuote char | Escaped "char option"

definition is_quote :: "char \<Rightarrow> bool" where
  "is_quote c \<longleftrightarrow> c = squote \<or> c = dquote"

definition is_blank :: "char \<Rightarrow> bool" where
  "is_blank c \<longleftrightarrow> c = CHR '' '' \<or> c = CHR 0x09 \<or> c = CHR 0x0D \<or> c = CHR 0x0A"

text \<open>What stands where a word may begin or go on; \<open>None\<close> when the character belongs to the word.\<close>

definition open_state :: "char \<Rightarrow> lex_state option" where
  "open_state c = (if c = bs then Some (Escaped None) else if is_quote c then Some (InQuote c) else None)"

fun shlex :: "lex_state \<Rightarrow> string \<Rightarrow> bool \<Rightarrow> string \<Rightarrow> string list res" where
  "shlex (InQuote q) tok seen [] = Inl (ValueError ''No closing quotation'')"
| "shlex (Escaped q) tok seen [] = Inl (ValueError ''No escaped character'')"
| "shlex st tok seen [] = Inr (if tok \<noteq> [] \<or> seen then [tok] else [])"
| "shlex Between tok seen (c # cs) =
     (if is_blank c then shlex Between [] False cs
      else case open_state c of Some st \<Rightarrow> shlex st [] False cs | None \<Rightarrow> shlex InWord [c] False cs)"
| "shlex (InQuote q) tok seen (c # cs) =
     (if c = q then shlex InWord tok True cs
      else if c = bs \<and> q = dquote then shlex (Escaped (Some q)) tok True cs
      else shlex (InQuote q) (tok @ [c]) True cs)"
| "shlex (Escaped q) tok seen (c # cs) =
     shlex (case q of None \<Rightarrow> InWord | Some k \<Rightarrow> InQuote k)
       (tok @ (case q of None \<Rightarrow> [] | Some k \<Rightarrow> if c \<noteq> bs \<and> c \<noteq> k then [bs] else []) @ [c]) seen cs"
| "shlex InWord tok seen (c # cs) =
     (if is_blank c
      then (if tok \<noteq> [] \<or> seen then bind_res (shlex Between [] False cs) (\<lambda>ws. Inr (tok # ws)) else shlex Between [] False cs)
      else case open_state c of
             Some st \<Rightarrow> shlex st tok seen cs
           | None \<Rightarrow> shlex InWord (tok @ [c]) seen cs)"

definition shlex_split :: "string \<Rightarrow> string list res" where
  "shlex_split s = shlex Between [] False s"

definition allowed_executables :: "string list" where
  "allowed_executables =
     [''python'', ''python3'', ''echo'', ''ls'', ''dir'', ''cat'', ''type'', ''head'', ''tail'', ''wc'',
      ''find'', ''grep'', ''sort'', ''uniq'', ''cut'', ''tr'', ''tee'']"

definition drop_suffix :: "string \<Rightarrow> string \<Rightarrow> string" where
  "drop_suffix ext s = take (length s - length ext) s"

definition normalize_exe :: "string \<Rightarrow> string" where
  "normalize_exe name =
     (let n = lower (path_name (path_of name))
      in case find (\<lambda>ext. ends_with ext n) [''.exe'', ''.cmd'', ''.bat'', ''.com''] of
           None \<Rightarrow> n | Some ext \<Rightarrow> drop_suffix ext n)"

text \<open>The reason of a refusal, or the words of the command.\<close>

definition parse_command :: "string \<Rightarrow> string + string list" where
  "parse_command command =
     (let s = py_strip command
      in if s = [] then Inl ''empty command''
         else case shlex_split s of
                Inl (ValueError m) \<Rightarrow> Inl (''invalid command syntax: '' @ m)
              | Inl e \<Rightarrow> Inl []
              | Inr [] \<Rightarrow> Inl ''empty command''
              | Inr (w # ws) \<Rightarrow>
                  if normalize_exe w \<notin> set allowed_executables
                  then Inl (''executable not allowed: '' @ normalize_exe w) else Inr (w # ws))"

section \<open>Running a command\<close>

text \<open>What a process leaves: it was killed after the time, or its code and its decoded output.\<close>

datatype outcome = TimedOut | Finished int string string

type_synonym 'w spawner = "string list \<Rightarrow> ppath \<Rightarrow> (string, string) dict \<Rightarrow> int \<Rightarrow> ('w, outcome) io"

definition escape_error :: string where
  "escape_error = ''command blocked: absolute-path / parent-directory access is not allowed in sandbox''"

definition outcome_dict :: "int \<Rightarrow> outcome \<Rightarrow> pydict" where
  "outcome_dict timeout r =
     (case r of
        TimedOut \<Rightarrow> [(''error'', PStr ''timeout''), (''timeout'', PInt timeout)]
      | Finished code out err \<Rightarrow> [(''exit_code'', PInt code), (''stdout'', PStr out), (''stderr'', PStr err)])"

text \<open>On Windows everything but the interpreter goes through the command shell.\<close>

definition wrap_command :: "sandbox_config \<Rightarrow> string list \<Rightarrow> string list" where
  "wrap_command cfg args =
     (if sc_windows cfg \<and> normalize_exe (hd args) \<notin> {''python'', ''python3''}
      then dget_or (sc_env cfg) ''COMSPEC'' ''cmd.exe'' # [''/d'', ''/s'', ''/c''] @ args
      else args)"

definition start_command ::
  "sandbox_config \<Rightarrow> 'w mkdir \<Rightarrow> 'w spawner \<Rightarrow> string \<Rightarrow> string \<Rightarrow> string list \<Rightarrow> int \<Rightarrow> ('w, pydict) io"
where
  "start_command cfg mkdir spawn tenant user args timeout =
     io_bind (workspace_dir cfg mkdir tenant user) (\<lambda>ws.
     io_bind (sandboxed_env cfg mkdir tenant user) (\<lambda>env.
     io_bind (spawn (wrap_command cfg args) ws env timeout) (\<lambda>r.
       io_return (outcome_dict timeout r))))"

definition run_in_sandbox ::
  "sandbox_config \<Rightarrow> 'w mkdir \<Rightarrow> 'w spawner \<Rightarrow> string \<Rightarrow> string \<Rightarrow> string \<Rightarrow> int \<Rightarrow> ('w, pydict) io"
where
  "run_in_sandbox cfg mkdir spawn tenant user command timeout =
     (case has_escape command of
        Some reason \<Rightarrow> io_return [(''error'', PStr escape_error), (''reason'', PStr reason)]
      | None \<Rightarrow>
          (case parse_command command of
             Inl reason \<Rightarrow> io_return [(''error'', PStr (''command blocked: '' @ reason))]
           | Inr args \<Rightarrow> start_command cfg mkdir spawn tenant user args timeout))"

section \<open>Paths that are resolved\<close>

definition part_ok :: "string \<Rightarrow> bool" where
  "part_ok w \<longleftrightarrow> w \<noteq> [] \<and> w \<noteq> ''.'' \<and> CHR ''/'' \<notin> set w"

definition wf_path :: "ppath \<Rightarrow> bool" where
  "wf_path p \<longleftrightarrow> list_all part_ok (p_parts p)"

definition canonical :: "ppath \<Rightarrow> bool" where
  "canonical p \<longleftrightarrow> p_root p = ''/'' \<and> wf_path p \<and> ''..'' \<notin> set (p_parts p)"

lemma split_char_no: "w \<in> set (split_char c s) \<Longrightarrow> c \<notin> set w"
  by (induction s arbitrary: w) (auto split: list.splits if_splits)

lemma wf_path_of [simp]: "wf_path (path_of s)"
  by (auto simp: wf_path_def path_of_def part_ok_def list_all_iff dest: split_char_no)

lemma wf_path_join [simp]: "wf_path p \<Longrightarrow> wf_path (path_join p s)"
  using wf_path_of [of s] by (simp add: path_join_def wf_path_def Let_def)

lemma norm_parts: "list_all part_ok qs \<Longrightarrow> ''..'' \<notin> set qs \<Longrightarrow> list_all part_ok ps \<Longrightarrow>
    list_all part_ok (foldl (\<lambda>ps w. if w = ''..'' then butlast ps else ps @ [w]) qs ps) \<and>
    ''..'' \<notin> set (foldl (\<lambda>ps w. if w = ''..'' then butlast ps else ps @ [w]) qs ps)"
proof (induction ps arbitrary: qs)
  case (Cons w ps)
  have "list_all part_ok (butlast qs)" "''..'' \<notin> set (butlast qs)"
    using Cons.prems by (auto simp: list_all_iff dest: in_set_butlastD)
  with Cons show ?case by simp
qed simp

lemma norm_path_canonical: "wf_path p \<Longrightarrow> canonical (norm_path p)"
  using norm_parts [of "[]" "p_parts p"] by (simp add: canonical_def norm_path_def wf_path_def)

lemma norm_plain: "''..'' \<notin> set ps \<Longrightarrow> foldl (\<lambda>ps w. if w = ''..'' then butlast ps else ps @ [w]) qs ps = qs @ ps"
  by (induction ps arbitrary: qs) auto

lemma norm_canonical: "canonical p \<Longrightarrow> norm_path p = p"
  using norm_plain [of "p_parts p" "[]"] by (simp add: canonical_def norm_path_def)

lemma join_prefix_parts:
  assumes "list_all part_ok xs" "list_all part_ok ys" "starts_with (py_join ''/'' xs @ ''/'') (py_join ''/'' ys)"
  shows "\<exists>zs. ys = xs @ zs"
proof -
  have no: "w \<in> set ws \<Longrightarrow> CHR ''/'' \<notin> set w" if "list_all part_ok ws" for w ws
    using that by (auto simp: list_all_iff part_ok_def)
  from assms(3) obtain r where r: "py_join ''/'' ys = py_join ''/'' xs @ CHR ''/'' # r"
    unfolding starts_with_def by (metis append.assoc append_Cons append_Nil append_take_drop_id)
  then have "ys \<noteq> []" by auto
  then have "ys = split_char CHR ''/'' (py_join ''/'' ys)"
    using split_char_join [of ys "CHR ''/''"] no [OF assms(2)] by metis
  also have "\<dots> = (if xs = [] then [] # split_char CHR ''/'' r else xs @ split_char CHR ''/'' r)"
    unfolding r using split_char_join_append [of xs "CHR ''/''" r] no [OF assms(1)] by auto
  finally show ?thesis using assms(2) by (auto simp: part_ok_def split: if_splits)
qed


text \<open>A name that is one part of a path.\<close>

definition plain_name :: "string \<Rightarrow> bool" where
  "plain_name w \<longleftrightarrow> part_ok w \<and> w \<noteq> ''..''"

lemma join_plain: "plain_name w \<Longrightarrow> path_join p w = p\<lparr>p_parts := p_parts p @ [w]\<rparr>"
proof -
  assume w: "plain_name w"
  then have "\<not> starts_with ''/'' w" by (cases w) (auto simp: plain_name_def part_ok_def starts_with_def)
  then show ?thesis using w
    by (simp add: path_join_def path_of_def path_root_def split_char_none plain_name_def part_ok_def)
qed

lemma canonical_join: "canonical p \<Longrightarrow> plain_name w \<Longrightarrow> canonical (path_join p w)"
  by (auto simp: join_plain canonical_def wf_path_def plain_name_def)

lemma canonical_parent: "canonical p \<Longrightarrow> canonical (path_parent p)"
  by (auto simp: canonical_def path_parent_def wf_path_def list_all_iff dest: in_set_butlastD)

section \<open>What a path is clamped to\<close>

text \<open>What the file system promises about the resolution of a path: the result is absolute, without steps up.\<close>

locale path_resolution =
  fixes resolve :: "ppath \<Rightarrow> ppath res"
  assumes resolved: "wf_path p \<Longrightarrow> resolve p = Inr q \<Longrightarrow> canonical q"
begin

lemma clamp_below:
  assumes "sc_resolve cfg = resolve" "wf_path dir" "clamp cfg dir rel = Inr target"
  shows "\<exists>base rest. resolve dir = Inr base \<and> canonical target \<and> p_parts target = p_parts base @ rest"
proof -
  from assms(1,3) obtain base where base: "resolve dir = Inr base" "resolve (path_join base rel) = Inr target"
    and ins: "inside base target"
    by (auto simp: clamp_def bind_res_Inr split: if_splits)
  have c: "canonical base" using resolved [OF assms(2) base(1)] .
  then have t: "canonical target" using resolved [OF _ base(2)] by (simp add: canonical_def)
  have "\<exists>rest. p_parts target = p_parts base @ rest"
  proof (cases "target = base")
    case False
    then have "starts_with (py_join ''/'' (p_parts base) @ ''/'') (py_join ''/'' (p_parts target))"
      using ins c t by (simp add: inside_def path_str_def canonical_def starts_with_def)
    then show ?thesis using c t by (intro join_prefix_parts) (simp_all add: canonical_def wf_path_def)
  qed auto
  then show ?thesis using base(1) t by blast
qed

lemma root_canonical:
  assumes "sc_resolve cfg = resolve" "sandbox_root cfg = Inr r"
  shows "canonical r"
proof (cases "dget_or (sc_env cfg) ''SANDBOX_ROOT'' [] = []")
  case True
  with assms obtain p where p: "resolve (path_of (sc_cwd cfg)) = Inr p"
    "r = path_join (path_parent (path_parent p)) ''minicc-sandbox''"
    by (auto simp: sandbox_root_def bind_res_Inr)
  have "canonical p" by (rule resolved [OF wf_path_of p(1)])
  then show ?thesis unfolding p(2) by (simp add: canonical_parent canonical_join plain_name_def part_ok_def)
next
  case False
  with assms resolved [OF wf_path_of] show ?thesis by (auto simp: sandbox_root_def)
qed

lemma safe_join_below:
  assumes "sc_resolve cfg = resolve" "fst (safe_join cfg mkdir tenant user rel w) = Inr target"
  shows "\<exists>dir base rest. user_dir cfg tenant user = Inr dir \<and> resolve (path_join dir ''workspace'') = Inr base \<and>
    canonical target \<and> p_parts target = p_parts base @ rest"
proof -
  have mk: "fst (make_dir mkdir d v) = Inr x \<Longrightarrow> x = d" for d v x
    by (auto simp: make_dir_def io_try_run io_bind_run split: sum.splits exn.splits)
  from assms(2) obtain dir where dir: "user_dir cfg tenant user = Inr dir"
    and cl: "clamp cfg (path_join dir ''workspace'') rel = Inr target"
    by (auto simp: safe_join_def workspace_dir_def get_sandbox_dir_def io_bind_run io_res_def
        split: sum.splits dest!: mk)
  then obtain r where r: "sandbox_root cfg = Inr r"
    "dir = path_join (path_join r (or_default tenant ''default'')) (or_default user ''anonymous'')"
    by (auto simp: user_dir_def bind_res_Inr)
  have "wf_path r" using root_canonical [OF assms(1) r(1)] by (simp add: canonical_def)
  then have "wf_path dir" by (simp add: r(2))
  then have "wf_path (path_join dir ''workspace'')" by simp
  from clamp_below [OF assms(1) this cl] dir show ?thesis by blast
qed

end

interpretation lexical: path_resolution "\<lambda>p. Inr (norm_path p)"
  by unfold_locales (auto simp: norm_path_canonical)


lemma lexical_workspace:
  assumes "sc_resolve cfg = (\<lambda>p. Inr (norm_path p))" "sandbox_root cfg = Inr r"
    and "plain_name (or_default tenant ''default'')" "plain_name (or_default user ''anonymous'')"
    and "user_dir cfg tenant user = Inr dir" "Inr (norm_path (path_join dir ''workspace'')) = (Inr base :: ppath res)"
  shows "p_parts base = p_parts r @ [or_default tenant ''default'', or_default user ''anonymous'', ''workspace'']"
proof -
  have r: "canonical r" by (rule lexical.root_canonical [OF assms(1,2)])
  have w: "plain_name ''workspace''" by (simp add: plain_name_def part_ok_def)
  from assms(2,5) have d: "dir = path_join (path_join r (or_default tenant ''default'')) (or_default user ''anonymous'')"
    by (simp add: user_dir_def)
  then have "canonical (path_join dir ''workspace'')" using r assms(3,4) w by (simp add: canonical_join)
  then have "base = path_join dir ''workspace''" using assms(6) by (simp add: norm_canonical)
  then show ?thesis using assms(3,4) w by (simp add: d join_plain)
qed

section \<open>Words of a command\<close>

definition plain_char :: "char \<Rightarrow> bool" where
  "plain_char c \<longleftrightarrow> \<not> is_blank c \<and> c \<noteq> bs \<and> \<not> is_quote c"

definition plain_word :: "string \<Rightarrow> bool" where
  "plain_word w \<longleftrightarrow> w \<noteq> [] \<and> list_all plain_char w"

lemma shlex_plain: "list_all plain_char w \<Longrightarrow> shlex InWord tok seen (w @ rest) = shlex InWord (tok @ w) seen rest"
  by (induction w arbitrary: tok) (auto simp: plain_char_def open_state_def)

lemma shlex_word: "plain_word w \<Longrightarrow> shlex Between tok seen (w @ rest) = shlex InWord w False rest"
proof -
  assume w: "plain_word w"
  then obtain c v where "w = c # v" by (cases w) (auto simp: plain_word_def)
  with w show ?thesis using shlex_plain [of v "[c]" False rest]
    by (auto simp: plain_word_def plain_char_def open_state_def)
qed

text \<open>Words without blanks, quotes and backslashes are read back.\<close>

lemma shlex_split_words: "list_all plain_word ws \<Longrightarrow> shlex_split (py_join '' '' ws) = Inr ws"
  unfolding shlex_split_def
proof (induction "'' ''" ws rule: py_join.induct)
  case (2 x)
  then show ?case using shlex_word [of x "[]" False "[]"] by (simp add: plain_word_def)
next
  case (3 x y ws)
  then show ?case using shlex_word [of x "[]" False "'' '' @ py_join '' '' (y # ws)"]
    by (simp add: plain_word_def is_blank_def)
qed simp

section \<open>Patterns that need a character\<close>

text \<open>A pattern that cannot match without reading \<open>c\<close>.\<close>

fun needs :: "char \<Rightarrow> rx \<Rightarrow> bool" where
  "needs c (RCls neg rs) = (\<not> neg \<and> rs = [(of_char c, of_char c)])"
| "needs c (RSeq r s) = (needs c r \<or> needs c s)"
| "needs c (RAlt r s) = (needs c r \<and> needs c s)"
| "needs c r = False"

lemma needs_rel: "rx_rel False r p q \<Longrightarrow> needs c r \<Longrightarrow> c \<in> set (snd p)"
proof (induction rule: rx_rel.induct)
  case (Cls neg rs d pv cs)
  then have "(of_char d :: int) = of_char c" by (auto simp: cls_accepts_def in_ranges_def)
  then have "d = c" by simp
  then show ?case by simp
next
  case (Seq r p q s u)
  then obtain w where "snd p = w @ snd q" using rx_rel_word by blast
  with Seq show ?case by auto
qed auto

lemma needs_search: "needs c r \<Longrightarrow> c \<notin> set s \<Longrightarrow> \<not> rx_search False r s"
  using needs_rel by (fastforce simp: rx_search_iff)

lemma needs_rlit: "c \<in> set w \<Longrightarrow> needs c (rlit w)"
  by (induction w) (auto simp: rchar_def)

section \<open>Properties\<close>

text \<open>C6: Whatever path a tool is given, what it works on is inside the workspace of its user: the resolved path has the
  resolved workspace as a prefix and no step up. This rests on the file system resolving paths to absolute ones.\<close>

theorem safe_join_stays:
  assumes "\<And>p q. wf_path p \<Longrightarrow> sc_resolve cfg p = Inr q \<Longrightarrow> canonical q"
    and "fst (safe_join cfg mkdir tenant user rel w) = Inr target"
  shows "\<exists>dir base rest. user_dir cfg tenant user = Inr dir \<and>
    sc_resolve cfg (path_join dir ''workspace'') = Inr base \<and> p_parts target = p_parts base @ rest \<and> ''..'' \<notin> set rest"
proof -
  have "path_resolution (sc_resolve cfg)" using assms(1) by unfold_locales
  from path_resolution.safe_join_below [OF this refl assms(2)] show ?thesis
    by (auto simp: canonical_def)
qed

definition link_free :: sandbox_config where
  "link_free = \<lparr>sc_env = [(''SANDBOX_ROOT'', ''/srv/sb''), (''API_KEY'', ''secret''), (''PATH'', ''/bin'')], sc_cwd = ''/app'',
     sc_windows = False, sc_resolve = (\<lambda>p. Inr (norm_path p))\<rparr>"

definition no_mkdir :: "unit mkdir" where
  "no_mkdir d = io_return ()"

lemmas eval_paths = link_free_def no_mkdir_def safe_join_def workspace_dir_def get_sandbox_dir_def user_dir_def
  sandbox_root_def make_dir_def io_try_run io_bind_run clamp_def path_of_def path_root_def path_join_def norm_path_def
  starts_with_def inside_def path_str_def or_default_def dget_or_def

lemma sample_join:
  "fst (safe_join link_free no_mkdir ''acme'' ''ann'' ''src/../notes.txt'' ()) =
     Inr \<lparr>p_root = ''/'', p_parts = [''srv'', ''sb'', ''acme'', ''ann'', ''workspace'', ''notes.txt'']\<rparr>"
  by (simp add: eval_paths)

theorem safe_join_stays_witness:
  "\<exists>dir base rest. user_dir link_free ''acme'' ''ann'' = Inr dir \<and>
    sc_resolve link_free (path_join dir ''workspace'') = Inr base \<and>
    [''srv'', ''sb'', ''acme'', ''ann'', ''workspace'', ''notes.txt''] = p_parts base @ rest \<and> ''..'' \<notin> set rest"
proof -
  have law: "wf_path p \<Longrightarrow> sc_resolve link_free p = Inr q \<Longrightarrow> canonical q" for p q
    by (auto simp: link_free_def norm_path_canonical)
  from safe_join_stays [OF law sample_join] show ?thesis by simp
qed

text \<open>Without links, users with plain names never meet: no path that one of them can reach is a path that another,
  of this tenant or of another one, can reach.\<close>

theorem workspaces_are_disjoint:
  assumes "sc_resolve cfg = (\<lambda>p. Inr (norm_path p))"
    and "plain_name (or_default tenant1 ''default'')" "plain_name (or_default user1 ''anonymous'')"
    and "plain_name (or_default tenant2 ''default'')" "plain_name (or_default user2 ''anonymous'')"
    and "(or_default tenant1 ''default'', or_default user1 ''anonymous'') \<noteq>
         (or_default tenant2 ''default'', or_default user2 ''anonymous'')"
    and "fst (safe_join cfg mkdir tenant1 user1 rel1 w1) = Inr target1"
    and "fst (safe_join cfg mkdir tenant2 user2 rel2 w2) = Inr target2"
  shows "target1 \<noteq> target2"
proof -
  obtain dir1 base1 rest1 where 1: "user_dir cfg tenant1 user1 = Inr dir1"
    "Inr (norm_path (path_join dir1 ''workspace'')) = (Inr base1 :: ppath res)" "p_parts target1 = p_parts base1 @ rest1"
    using lexical.safe_join_below [OF assms(1,7)] by blast
  obtain dir2 base2 rest2 where 2: "user_dir cfg tenant2 user2 = Inr dir2"
    "Inr (norm_path (path_join dir2 ''workspace'')) = (Inr base2 :: ppath res)" "p_parts target2 = p_parts base2 @ rest2"
    using lexical.safe_join_below [OF assms(1,8)] by blast
  obtain r where r: "sandbox_root cfg = Inr r" using 1(1) by (auto simp: user_dir_def bind_res_Inr)
  have "p_parts base1 = p_parts r @ [or_default tenant1 ''default'', or_default user1 ''anonymous'', ''workspace'']"
    by (rule lexical_workspace [OF assms(1) r assms(2,3) 1(1,2)])
  moreover have "p_parts base2 = p_parts r @ [or_default tenant2 ''default'', or_default user2 ''anonymous'', ''workspace'']"
    by (rule lexical_workspace [OF assms(1) r assms(4,5) 2(1,2)])
  ultimately show ?thesis using 1(3) 2(3) assms(6) by auto
qed

lemma sample_join_other:
  "fst (safe_join link_free no_mkdir ''acme'' [] ''notes.txt'' ()) =
     Inr \<lparr>p_root = ''/'', p_parts = [''srv'', ''sb'', ''acme'', ''anonymous'', ''workspace'', ''notes.txt'']\<rparr>"
  by (simp add: eval_paths)

theorem workspaces_are_disjoint_witness:
  "(\<lparr>p_root = ''/'', p_parts = [''srv'', ''sb'', ''acme'', ''ann'', ''workspace'', ''notes.txt'']\<rparr> :: ppath) \<noteq>
   \<lparr>p_root = ''/'', p_parts = [''srv'', ''sb'', ''acme'', ''anonymous'', ''workspace'', ''notes.txt'']\<rparr>"
  by (rule workspaces_are_disjoint [OF _ _ _ _ _ _ sample_join sample_join_other])
    (simp_all add: link_free_def plain_name_def part_ok_def or_default_def)

text \<open>Names of users are not checked: one that starts with a slash replaces the root and the tenant, so that users of
  all tenants with this name share one directory, anywhere on the host.\<close>

theorem user_name_replaces_root:
  assumes "sandbox_root cfg = Inr r"
  shows "user_dir cfg tenant (CHR ''/'' # user) = Inr (path_of (CHR ''/'' # user))"
  using assms by (simp add: user_dir_def path_join_def path_of_def path_root_def starts_with_def or_default_def Let_def)

theorem user_name_replaces_root_witness:
  "user_dir link_free ''acme'' ''/etc'' = Inr (path_of ''/etc'')"
proof -
  have "sandbox_root link_free = Inr \<lparr>p_root = ''/'', p_parts = [''srv'', ''sb'']\<rparr>" by (simp add: eval_paths)
  from user_name_replaces_root [OF this] show ?thesis .
qed

text \<open>C7: A command is started only when no pattern of the first filter matches it and the name of its program, without
  directory and extension, is on the list; then it runs in the workspace of its user. Otherwise nothing happens at all.\<close>

theorem commands_are_filtered:
  "(\<exists>d. run_in_sandbox cfg mkdir spawn tenant user command timeout w = (Inr d, w) \<and> ''error'' \<in> set (keys d)) \<or>
   (\<exists>args. list_all (\<lambda>p. \<not> rx_search False (snd p) command) escape_patterns \<and> shlex_split (py_strip command) = Inr args \<and>
      args \<noteq> [] \<and> normalize_exe (hd args) \<in> set allowed_executables \<and>
      run_in_sandbox cfg mkdir spawn tenant user command timeout w =
        io_bind (workspace_dir cfg mkdir tenant user) (\<lambda>ws.
        io_bind (sandboxed_env cfg mkdir tenant user) (\<lambda>env.
        io_bind (spawn (wrap_command cfg args) ws env timeout) (\<lambda>r. io_return (outcome_dict timeout r)))) w)"
proof (cases "has_escape command")
  case (Some reason)
  then show ?thesis by (simp add: run_in_sandbox_def)
next
  case None
  then have no: "list_all (\<lambda>p. \<not> rx_search False (snd p) command) escape_patterns"
    by (auto simp: has_escape_def find_None_iff list_all_iff)
  show ?thesis
  proof (cases "parse_command command")
    case (Inl reason)
    with None show ?thesis by (simp add: run_in_sandbox_def)
  next
    case (Inr args)
    then have "shlex_split (py_strip command) = Inr args \<and> args \<noteq> [] \<and> normalize_exe (hd args) \<in> set allowed_executables"
      by (auto simp: parse_command_def Let_def split: if_splits sum.splits list.splits py_error.splits)
    with None Inr no show ?thesis by (auto simp: run_in_sandbox_def start_command_def)
  qed
qed

text \<open>The environment of a command has no variable of the host but the eight that are kept, and its home and its
  directories for temporary files are those of the user.\<close>

theorem environment_is_clean:
  assumes "fst (sandboxed_env cfg mkdir tenant user w) = Inr env"
  shows "set (keys env) \<subseteq> set kept_vars \<and>
    (\<exists>dir. user_dir cfg tenant user = Inr dir \<and> dget env ''HOME'' = Some (path_str (path_join dir ''workspace'')) \<and>
      dget env ''TMP'' = Some (path_str dir))"
proof -
  have mk: "fst (make_dir mkdir d v) = Inr x \<Longrightarrow> x = d" for d v x
    by (auto simp: make_dir_def io_try_run io_bind_run split: sum.splits exn.splits)
  have dir: "fst (get_sandbox_dir cfg mkdir tenant user v) = Inr x \<Longrightarrow> user_dir cfg tenant user = Inr x" for v x
    by (auto simp: get_sandbox_dir_def io_bind_run io_res_def split: sum.splits dest!: mk)
  have ws: "fst (workspace_dir cfg mkdir tenant user v) = Inr x \<Longrightarrow>
      \<exists>dir. user_dir cfg tenant user = Inr dir \<and> x = path_join dir ''workspace''" for v x
    by (auto simp: workspace_dir_def io_bind_run split: sum.splits dest!: mk dir)
  define kept where "kept = filter (\<lambda>(k, v). k \<in> set kept_vars) (sc_env cfg)"
  have k: "set (keys kept) \<subseteq> set kept_vars" by (auto simp: kept_def)
  from assms obtain w1 w2 d1 d2 v1 v2 v3 v4 where
    "fst (workspace_dir cfg mkdir tenant user v1) = Inr w1" "fst (get_sandbox_dir cfg mkdir tenant user v4) = Inr d2" and
    env: "env = dset ''TMP'' (path_str d2) (dset ''TEMP'' (path_str d1) (dset ''USERPROFILE'' (path_str w2)
      (dset ''HOME'' (path_str w1) kept)))"
    unfolding kept_def by (auto simp: sandboxed_env_def io_bind_run Let_def split: sum.splits)
  with ws dir have "\<exists>dir. user_dir cfg tenant user = Inr dir \<and>
      dget env ''HOME'' = Some (path_str (path_join dir ''workspace'')) \<and> dget env ''TMP'' = Some (path_str dir)"
    by (fastforce simp: env)
  moreover have "{''TMP'', ''TEMP'', ''USERPROFILE'', ''HOME''} \<subseteq> set kept_vars" by (simp add: kept_vars_def)
  then have "set (keys env) \<subseteq> set kept_vars" using k by (simp add: env del: set_map)
  ultimately show ?thesis by simp
qed

lemma sample_env:
  "fst (sandboxed_env link_free no_mkdir ''acme'' ''ann'' ()) =
     Inr [(''PATH'', ''/bin''), (''HOME'', ''/srv/sb/acme/ann/workspace''), (''USERPROFILE'', ''/srv/sb/acme/ann/workspace''),
          (''TEMP'', ''/srv/sb/acme/ann''), (''TMP'', ''/srv/sb/acme/ann'')]"
  by (simp add: sandboxed_env_def kept_vars_def eval_paths)

theorem environment_is_clean_witness:
  "set (keys [(''PATH'', ''/bin''), (''HOME'', ''/srv/sb/acme/ann/workspace''), (''USERPROFILE'', ''/srv/sb/acme/ann/workspace''),
     (''TEMP'', ''/srv/sb/acme/ann''), (''TMP'', ''/srv/sb/acme/ann'')]) \<subseteq> set kept_vars"
  using environment_is_clean [OF sample_env] by (rule conjunct1)

section \<open>What the first filter lets through\<close>

text \<open>The characters of a path that is not caught: neither separates words nor begins an escape.\<close>

definition name_char :: "char \<Rightarrow> bool" where
  "name_char c \<longleftrightarrow>
     (let n = (of_char c :: int)
      in 97 \<le> n \<and> n \<le> 122 \<or> 65 \<le> n \<and> n \<le> 90 \<or> 48 \<le> n \<and> n \<le> 57 \<or> n = 95 \<or> n = 45 \<or> n = 47)"

lemma search_start_none:
  "(\<And>c. c \<in> set s \<Longrightarrow> \<not> cls_accepts False False rs c) \<Longrightarrow>
   \<not> search_from False (RSeq (RAlt RBegin (RCls False rs)) r) (Some d) s"
proof (induction s arbitrary: d)
  case (Cons c s)
  then have "\<not> search_from False (RSeq (RAlt RBegin (RCls False rs)) r) (Some c) s" by simp
  moreover have "rx_at False (RSeq (RAlt RBegin (RCls False rs)) r) (Some d, c # s) = None"
    using Cons.prems by (simp add: rx_at_def)
  ultimately show ?case by simp
qed (simp add: rx_at_def)

lemma quote_chars: "squote = CHR 0x27" "dquote = CHR 0x22"
  unfolding squote_def dquote_def by code_simp+

lemma name_char_not:
  "name_char c \<Longrightarrow> c \<notin> {CHR '':'', bs, CHR ''.'', CHR ''~'', CHR '' '', CHR 0x09, CHR 0x0D, CHR 0x0A, squote, dquote}"
  unfolding quote_chars by (auto simp: name_char_def)

lemma name_char_plain: "name_char c \<Longrightarrow> plain_char c"
  using name_char_not [of c] unfolding plain_char_def is_blank_def is_quote_def by blast

lemma name_char_space: "name_char c \<Longrightarrow> \<not> is_space c"
proof -
  assume "name_char c"
  moreover have "(of_char c :: int) = int (of_char c)" by (rule of_nat_of_char [symmetric])
  ultimately show ?thesis unfolding name_char_def is_space_def Let_def by linarith
qed

lemma slash_plain: "plain_char CHR ''/''" "plain_char CHR ''c''" "plain_char CHR ''a''" "plain_char CHR ''t''"
  unfolding plain_char_def is_blank_def is_quote_def quote_chars by simp_all

lemma absolute_later:
  assumes "list_all name_char p"
  shows "\<not> search_from False absolute (Some d) p"
proof -
  have "\<not> cls_accepts False False [(9, 13), (28, 32), (133, 133), (160, 160), (34, 34), (39, 39), (59, 59)] c"
    if "c \<in> set p" for c
    using that assms by (auto simp: list_all_iff name_char_def Let_def cls_accepts_def in_ranges_def)
  then show ?thesis unfolding absolute_def word_start_def rclass_def by (rule search_start_none)
qed

lemma absolute_here: "\<not> rx_search False absolute (''cat //'' @ p)" if "list_all name_char p" "p \<noteq> []"
proof -
  have "\<not> search_from False absolute (Some CHR ''/'') p" by (rule absolute_later [OF that(1)])
  then show ?thesis
    by (simp add: rx_search_def rx_at_def absolute_def word_start_def rclass_def rchar_def cls_accepts_def in_ranges_def
        ratleast_def numeral_2_eq_2 at_end_def ropt_def)
qed

lemma doubled_slash_missed:
  assumes "list_all name_char p" "p \<noteq> []"
  shows "has_escape (''cat //'' @ p) = None"
proof -
  have no: "c \<notin> set (''cat //'' @ p)" if "c \<in> {CHR '':'', bs, CHR ''.'', CHR ''~''}" for c
    using that assms(1) name_char_not by (auto simp: list_all_iff)
  have "needs CHR '':'' drive" "needs bs (rlit [bs, bs])" "needs CHR ''.'' parent_step" "needs CHR '':'' cd_drive"
    "needs CHR '':'' metadata_fetch"
    by (simp_all add: drive_def parent_step_def cd_drive_def metadata_fetch_def rchar_def)
  then have "\<not> rx_search False drive (''cat //'' @ p)" "\<not> rx_search False (rlit [bs, bs]) (''cat //'' @ p)"
    "\<not> rx_search False parent_step (''cat //'' @ p)" "\<not> rx_search False cd_drive (''cat //'' @ p)"
    "\<not> rx_search False metadata_fetch (''cat //'' @ p)"
    using needs_search no by blast+
  then show ?thesis
    using absolute_here [OF assms] unfolding has_escape_def escape_patterns_def by simp
qed

text \<open>C18: An absolute path with its slash doubled passes both filters: \<^verbatim>\<open>cat //etc/passwd\<close> is started as it is, on a file of the
  host outside every workspace.\<close>

theorem doubled_slash_escapes:
  assumes "list_all name_char p" "p \<noteq> []"
  shows "run_in_sandbox cfg mkdir spawn tenant user (''cat //'' @ p) timeout =
    start_command cfg mkdir spawn tenant user [''cat'', ''//'' @ p] timeout"
proof -
  have "list_all plain_char p" using assms(1) name_char_plain by (simp add: list_all_iff)
  then have "list_all plain_word [''cat'', ''//'' @ p]" by (simp add: plain_word_def slash_plain)
  from shlex_split_words [OF this] have s: "shlex_split (''cat //'' @ p) = Inr [''cat'', ''//'' @ p]" by simp
  have "\<not> is_space (last p)" using assms by (simp add: name_char_space list_all_iff)
  then have t: "py_strip (''cat //'' @ p) = ''cat //'' @ p"
    using assms(2) by (intro py_strip_id) (simp add: is_space_def)
  have "normalize_exe ''cat'' = ''cat''"
    by (simp add: normalize_exe_def path_name_def path_of_def path_root_def starts_with_def lower_def lower_char_def ends_with_def)
  with s t have "parse_command (''cat //'' @ p) = Inr [''cat'', ''//'' @ p]"
    unfolding parse_command_def by (simp add: allowed_executables_def)
  then show ?thesis unfolding run_in_sandbox_def doubled_slash_missed [OF assms] by simp
qed

theorem doubled_slash_escapes_witness:
  "run_in_sandbox link_free no_mkdir (\<lambda>args ws env t. io_return (Finished 0 (concat args) [])) ''acme'' ''ann''
     (''cat //'' @ ''etc/passwd'') 30 () =
   (Inr [(''exit_code'', PInt 0), (''stdout'', PStr ''cat//etc/passwd''), (''stderr'', PStr [])], ())"
proof -
  have "list_all name_char ''etc/passwd''" by (simp add: name_char_def)
  from doubled_slash_escapes [OF this, of link_free no_mkdir] show ?thesis
    by (simp add: start_command_def sandboxed_env_def wrap_command_def outcome_dict_def eval_paths kept_vars_def)
qed

end
