(* ===== verification/FileTools.thy ===== *)
theory FileTools
  imports Sandbox
begin

text \<open>
  The file tools of \<^verbatim>\<open>app/tools/core.py\<close> and \<^verbatim>\<open>app/tools/edit_file.py\<close> with the guard of
  \<^verbatim>\<open>app/tools/fs_guard.py\<close>: reading a page of a file, writing it, exact and line-range edits, execution of commands
  and of Python code. The file system and the table of observed versions are the state; a file is its bytes
  and its time. UTF-8, the digest and the text of a difference are arguments.
\<close>

section \<open>Files\<close>

text \<open>A file with its time; a directory with its time and size.\<close>

datatype node = File string int | Dir int int

type_synonym signature = "int \<times> int \<times> string"

record fs =
  fs_nodes :: "(ppath, node) dict"
  fs_now :: int
  fs_observed :: "(string, signature) dict"

record text_lib =
  tl_decode :: "string \<Rightarrow> string"
  tl_encode :: "string \<Rightarrow> string"
  tl_md5 :: "string \<Rightarrow> string"
  tl_diff :: "string list \<Rightarrow> string list \<Rightarrow> string \<Rightarrow> string \<Rightarrow> string"

definition node_at :: "fs \<Rightarrow> ppath \<Rightarrow> node option" where
  "node_at s p = dget (fs_nodes s) p"

definition put_node :: "ppath \<Rightarrow> node \<Rightarrow> fs \<Rightarrow> fs" where
  "put_node p n s = s\<lparr>fs_nodes := dset p n (fs_nodes s)\<rparr>"

text \<open>\<open>p.mkdir(parents=True, exist_ok=True)\<close>: every directory on the way that is missing is made.\<close>

definition ancestors :: "ppath \<Rightarrow> ppath list" where
  "ancestors p = map (\<lambda>i. p\<lparr>p_parts := take i (p_parts p)\<rparr>) [0..<Suc (length (p_parts p))]"

definition make_one :: "ppath \<Rightarrow> (fs, unit) io" where
  "make_one p s =
     (case node_at s p of
        None \<Rightarrow> (Inr (), put_node p (Dir (fs_now s) 0) s)
      | Some (Dir t n) \<Rightarrow> (Inr (), s)
      | Some (File b t) \<Rightarrow> (Inl (Ext ''FileExistsError''), s))"

definition fs_mkdir :: "fs mkdir" where
  "fs_mkdir p = io_bind (io_map make_one (ancestors p)) (\<lambda>us. io_return ())"

text \<open>Reading as text translates every end of a line to a line feed; writing does not, on a POSIX system.\<close>

abbreviation cr :: char where
  "cr \<equiv> CHR 0x0D"

abbreviation lf :: char where
  "lf \<equiv> CHR 0x0A"

fun universal :: "string \<Rightarrow> string" where
  "universal [] = []"
| "universal (c # cs) =
     (if c = cr then lf # (case cs of [] \<Rightarrow> [] | d # ds \<Rightarrow> if d = lf then universal ds else universal cs)
      else c # universal cs)"

definition read_text :: "text_lib \<Rightarrow> ppath \<Rightarrow> (fs, string) io" where
  "read_text lib p s =
     (case node_at s p of
        None \<Rightarrow> (Inl (Ext ''FileNotFoundError''), s)
      | Some (Dir t n) \<Rightarrow> (Inl (Ext ''IsADirectoryError''), s)
      | Some (File b t) \<Rightarrow> (Inr (universal (tl_decode lib b)), s))"

definition write_text :: "text_lib \<Rightarrow> ppath \<Rightarrow> string \<Rightarrow> (fs, unit) io" where
  "write_text lib p content s =
     (case node_at s p of
        Some (Dir t n) \<Rightarrow> (Inl (Ext ''IsADirectoryError''), s)
      | _ \<Rightarrow>
          (case node_at s (path_parent p) of
             Some (Dir t n) \<Rightarrow> (Inr (), put_node p (File (tl_encode lib content) (fs_now s)) s)
           | _ \<Rightarrow> (Inl (Ext ''FileNotFoundError''), s)))"

section \<open>The guard\<close>

text \<open>Time, size and the digest of the first 1024 bytes; a directory cannot be opened.\<close>

definition signature_of :: "text_lib \<Rightarrow> node \<Rightarrow> signature" where
  "signature_of lib n =
     (case n of
        File b t \<Rightarrow> (t, int (length b), tl_md5 lib (take 1024 b))
      | Dir t k \<Rightarrow> (t, k, tl_md5 lib []))"

definition observe :: "sandbox_config \<Rightarrow> text_lib \<Rightarrow> ppath \<Rightarrow> (fs, unit) io" where
  "observe cfg lib p =
     io_bind (io_res (sc_resolve cfg p)) (\<lambda>q. io_modify (\<lambda>s.
       case node_at s p of
         None \<Rightarrow> s
       | Some n \<Rightarrow> s\<lparr>fs_observed := dset (path_str q) (signature_of lib n) (fs_observed s)\<rparr>))"

definition gone :: string where
  "gone = ''file was read earlier but no longer exists - re-read before writing''"

definition changed :: string where
  "changed = ''file changed since it was last read - call read_file first to refresh''"

definition check_before_write :: "sandbox_config \<Rightarrow> text_lib \<Rightarrow> ppath \<Rightarrow> (fs, string option) io" where
  "check_before_write cfg lib p =
     io_bind (io_res (sc_resolve cfg p)) (\<lambda>q. io_get (\<lambda>s.
       case dget (fs_observed s) (path_str q) of
         None \<Rightarrow> None
       | Some recorded \<Rightarrow>
           (case node_at s p of
              None \<Rightarrow> Some gone
            | Some n \<Rightarrow> if signature_of lib n \<noteq> recorded then Some changed else None)))"

section \<open>Lines\<close>

text \<open>\<open>s.splitlines(keepends=True)\<close>: a carriage return takes the line feed after it along.\<close>

definition line_break :: "char \<Rightarrow> bool" where
  "line_break c \<longleftrightarrow> (of_char c :: int) \<in> {10, 11, 12, 13, 28, 29, 30, 133}"

fun split_keep :: "string \<Rightarrow> string \<Rightarrow> string list" where
  "split_keep cur [] = (if cur = [] then [] else [cur])"
| "split_keep cur (c # cs) =
     (if c = cr
      then (case cs of
              [] \<Rightarrow> [cur @ [c]]
            | d # ds \<Rightarrow> if d = lf then (cur @ [c, d]) # split_keep [] ds else (cur @ [c]) # split_keep [] cs)
      else if line_break c then (cur @ [c]) # split_keep [] cs
      else split_keep (cur @ [c]) cs)"

definition lines_keep :: "string \<Rightarrow> string list" where
  "lines_keep s = split_keep [] s"

text \<open>The line without its end.\<close>

definition chop :: "string \<Rightarrow> string" where
  "chop w = takeWhile (\<lambda>c. \<not> line_break c) w"

definition lines_of :: "string \<Rightarrow> string list" where
  "lines_of s = map chop (lines_keep s)"

text \<open>\<open>xs[i:j]\<close> with bounds that may be negative.\<close>

definition clip :: "int \<Rightarrow> nat \<Rightarrow> nat" where
  "clip i n = (if i < 0 then nat (int n + i) else min (nat i) n)"

definition py_slice :: "int \<Rightarrow> int \<Rightarrow> 'a list \<Rightarrow> 'a list" where
  "py_slice i j xs = take (clip j (length xs) - clip i (length xs)) (drop (clip i (length xs)) xs)"

section \<open>Tools\<close>

definition err_dict_of :: "string \<Rightarrow> pydict" where
  "err_dict_of m = [(''error'', PStr m)]"

definition fs_exists :: "ppath \<Rightarrow> fs \<Rightarrow> bool" where
  "fs_exists p s = (node_at s p \<noteq> None)"

definition fs_join :: "sandbox_config \<Rightarrow> string \<Rightarrow> string \<Rightarrow> string \<Rightarrow> (fs, ppath) io" where
  "fs_join cfg tenant user path = safe_join cfg fs_mkdir tenant user path"

definition read_file ::
  "sandbox_config \<Rightarrow> text_lib \<Rightarrow> string \<Rightarrow> string \<Rightarrow> string \<Rightarrow> int \<Rightarrow> int \<Rightarrow> (fs, pydict) io"
where
  "read_file cfg lib tenant user path offset limit =
     io_bind (fs_join cfg tenant user path) (\<lambda>target.
     io_bind (io_get (fs_exists target)) (\<lambda>there.
       if \<not> there then io_return (err_dict_of (''file not found: '' @ path))
       else io_bind (read_text lib target) (\<lambda>body.
            let lines = lines_of body; page = py_slice offset (offset + limit) lines
            in io_bind (observe cfg lib target) (\<lambda>u.
               io_return [(''path'', PStr (path_str target)), (''total_lines'', PInt (int (length lines))),
                 (''offset'', PInt offset), (''limit'', PInt limit), (''content'', PStr (py_join [lf] page))]))))"

definition write_file ::
  "sandbox_config \<Rightarrow> text_lib \<Rightarrow> string \<Rightarrow> string \<Rightarrow> string \<Rightarrow> string \<Rightarrow> (fs, pydict) io"
where
  "write_file cfg lib tenant user path content =
     io_bind (fs_join cfg tenant user path) (\<lambda>target.
     io_bind (check_before_write cfg lib target) (\<lambda>conflict.
       case conflict of
         Some m \<Rightarrow> io_return (err_dict_of m)
       | None \<Rightarrow>
           io_bind (fs_mkdir (path_parent target)) (\<lambda>u.
           io_bind (write_text lib target content) (\<lambda>u.
             io_return [(''path'', PStr (path_str target)),
               (''bytes'', PInt (int (length (tl_encode lib content))))]))))"

text \<open>\<open>s.count(p)\<close>: occurrences that do not overlap; the empty text occurs around every character.\<close>

function count_sub :: "string \<Rightarrow> string \<Rightarrow> nat" where
  "count_sub p s =
     (if p = [] then Suc (length s)
      else if s = [] then 0
      else if starts_with p s then Suc (count_sub p (drop (length p) s)) else count_sub p (tl s))"
  by pat_completeness auto
termination by (relation "measure (\<lambda>(p, s). length s)") (auto simp: starts_with_def)

declare count_sub.simps [simp del]

text \<open>\<open>s.replace(p, t, 1)\<close>.\<close>

fun replace_first :: "string \<Rightarrow> string \<Rightarrow> string \<Rightarrow> string" where
  "replace_first p t [] = (if p = [] then t else [])"
| "replace_first p t (c # cs) =
     (if starts_with p (c # cs) then t @ drop (length p) (c # cs) else c # replace_first p t cs)"

text \<open>What the exact and the line-range mode make of the text: an error or the new text.\<close>

definition exact_edit :: "string \<Rightarrow> string \<Rightarrow> string option \<Rightarrow> string + string" where
  "exact_edit original old new =
     (case new of
        None \<Rightarrow> Inl ''new_string is required when old_string is provided''
      | Some t \<Rightarrow>
          let n = count_sub old original
          in if n = 0 then Inl ''old_string not found in file''
             else if 1 < n then Inl (''old_string occurs '' @ str_nat n @ '' times; it must be unique'')
             else Inr (replace_first old t original))"

definition range_edit :: "string \<Rightarrow> int \<Rightarrow> int \<Rightarrow> string option \<Rightarrow> string + string" where
  "range_edit original start_line end_line new =
     (case new of
        None \<Rightarrow> Inl ''new_content is required for line-range editing''
      | Some t \<Rightarrow>
          let lines = lines_keep original; total = int (length lines)
          in if start_line < 1 \<or> end_line < start_line \<or> total < start_line
             then Inl (''invalid range ('' @ str_int start_line @ '', '' @ str_int end_line @ '') for file with ''
                    @ str_int total @ '' lines'')
             else let stop = min end_line total;
                      t' = (if t \<noteq> [] \<and> \<not> ends_with [lf] t then t @ [lf] else t)
                  in Inr (concat (take (nat (start_line - 1)) lines @ [t'] @ drop (nat stop) lines)))"

definition no_mode :: string where
  "no_mode = ''provide (old_string, new_string) or (start_line, end_line, new_content)''"

definition finish_edit :: "text_lib \<Rightarrow> ppath \<Rightarrow> string \<Rightarrow> string \<Rightarrow> string \<Rightarrow> (fs, pydict) io" where
  "finish_edit lib target path original modified =
     io_bind (write_text lib target modified) (\<lambda>u.
       io_return [(''path'', PStr (path_str target)), (''success'', PBool True),
         (''diff'', PStr (tl_diff lib (lines_keep original) (lines_keep modified) (''a/'' @ path) (''b/'' @ path)))])"

text \<open>Only the exact mode asks the guard.\<close>

definition edit_text ::
  "sandbox_config \<Rightarrow> text_lib \<Rightarrow> ppath \<Rightarrow> string \<Rightarrow> string \<Rightarrow> string option \<Rightarrow> string option \<Rightarrow> int option \<Rightarrow> int option
     \<Rightarrow> string option \<Rightarrow> (fs, pydict) io"
where
  "edit_text cfg lib target path original old new start_line end_line new_content =
     (case old of
        Some p \<Rightarrow>
          (case exact_edit original p new of
             Inl m \<Rightarrow> io_return (err_dict_of m)
           | Inr modified \<Rightarrow>
               io_bind (check_before_write cfg lib target) (\<lambda>conflict.
                 case conflict of
                   Some m \<Rightarrow> io_return (err_dict_of m)
                 | None \<Rightarrow> finish_edit lib target path original modified))
      | None \<Rightarrow>
          (case (start_line, end_line) of
             (Some a, Some b) \<Rightarrow>
               (case range_edit original a b new_content of
                  Inl m \<Rightarrow> io_return (err_dict_of m)
                | Inr modified \<Rightarrow> finish_edit lib target path original modified)
           | _ \<Rightarrow> io_return (err_dict_of no_mode)))"

definition edit_file ::
  "sandbox_config \<Rightarrow> text_lib \<Rightarrow> string \<Rightarrow> string \<Rightarrow> string \<Rightarrow> string option \<Rightarrow> string option \<Rightarrow> int option \<Rightarrow> int option
     \<Rightarrow> string option \<Rightarrow> (fs, pydict) io"
where
  "edit_file cfg lib tenant user path old new start_line end_line new_content =
     io_bind (fs_join cfg tenant user path) (\<lambda>target.
     io_bind (io_get (fs_exists target)) (\<lambda>there.
       if \<not> there then io_return (err_dict_of (''file not found: '' @ path))
       else io_bind (read_text lib target) (\<lambda>original.
            edit_text cfg lib target path original old new start_line end_line new_content)))"

section \<open>Commands and code\<close>

text \<open>\<open>json.dumps\<close> of a text.\<close>

definition json_char :: "char \<Rightarrow> string" where
  "json_char c =
     (let n = (of_char c :: nat)
      in if n = 34 \<or> n = 92 then [bs, c]
         else if n = 10 then [bs, CHR ''n'']
         else if n = 13 then [bs, CHR ''r'']
         else if n = 9 then [bs, CHR ''t'']
         else if n = 8 then [bs, CHR ''b'']
         else if n = 12 then [bs, CHR ''f'']
         else if n < 32 \<or> 126 < n then [bs] @ ''u00'' @ [hex_digit (n div 16), hex_digit (n mod 16)]
         else [c])"

definition json_text :: "string \<Rightarrow> string" where
  "json_text s = [dquote] @ concat (map json_char s) @ [dquote]"

definition execute_command ::
  "sandbox_config \<Rightarrow> 'w mkdir \<Rightarrow> 'w spawner \<Rightarrow> string \<Rightarrow> string \<Rightarrow> string \<Rightarrow> int \<Rightarrow> ('w, pydict) io"
where
  "execute_command cfg mkdir spawn tenant user command timeout =
     run_in_sandbox cfg mkdir spawn tenant user command timeout"

definition execute_python ::
  "sandbox_config \<Rightarrow> 'w mkdir \<Rightarrow> 'w spawner \<Rightarrow> string \<Rightarrow> string \<Rightarrow> string \<Rightarrow> int \<Rightarrow> ('w, pydict) io"
where
  "execute_python cfg mkdir spawn tenant user code timeout =
     (if code = [] then io_return (err_dict_of ''code is required'')
      else execute_command cfg mkdir spawn tenant user (''python -c '' @ json_text code) timeout)"

section \<open>Steps of the file system\<close>

text \<open>A step that keeps every node and makes no file; directories may appear.\<close>

definition extends :: "fs \<Rightarrow> fs \<Rightarrow> bool" where
  "extends s s1 \<longleftrightarrow> (\<forall>p n. node_at s p = Some n \<longrightarrow> node_at s1 p = Some n) \<and>
     (\<forall>p b t. node_at s1 p = Some (File b t) \<longrightarrow> node_at s p = Some (File b t)) \<and>
     fs_now s1 = fs_now s \<and> fs_observed s1 = fs_observed s"

lemma extends_refl [simp, intro]: "extends s s"
  by (simp add: extends_def)

lemma extends_trans: "extends s s1 \<Longrightarrow> extends s1 s2 \<Longrightarrow> extends s s2"
  unfolding extends_def by metis

lemma node_put [simp]: "node_at (put_node p n s) q = (if q = p then Some n else node_at s q)"
  by (simp add: node_at_def put_node_def)

lemma put_fields [simp]: "fs_now (put_node p n s) = fs_now s" "fs_observed (put_node p n s) = fs_observed s"
  by (simp_all add: put_node_def)

lemma node_observed [simp]: "node_at (s\<lparr>fs_observed := x\<rparr>) p = node_at s p"
  by (simp add: node_at_def)

lemma make_one_extends: "extends s (snd (make_one p s))"
  by (auto simp: make_one_def extends_def split: option.splits node.splits)

lemma map_extends: "extends s (snd (io_map make_one ps s))"
proof (induction ps arbitrary: s)
  case (Cons p ps)
  have "extends s (snd (make_one p s))" "extends (snd (make_one p s)) (snd (io_map make_one ps (snd (make_one p s))))"
    using make_one_extends Cons by blast+
  then have "extends s (snd (io_map make_one ps (snd (make_one p s))))" by (rule extends_trans)
  then show ?case using make_one_extends [of s p] by (simp add: io_bind_run split: sum.split)
qed simp

lemma mkdir_extends: "extends s (snd (fs_mkdir p s))"
  using map_extends [of s "ancestors p"] by (simp add: fs_mkdir_def io_bind_run split: sum.split)

lemma mkdir_raises: "fst (fs_mkdir p s) = Inl e \<Longrightarrow> \<exists>m. e = Ext m"
proof -
  have "fst (io_map make_one ps s) = Inl e \<Longrightarrow> \<exists>m. e = Ext m" for ps s
    by (induction ps arbitrary: s) (auto simp: io_bind_run make_one_def split: sum.splits option.splits node.splits)
  then show "fst (fs_mkdir p s) = Inl e \<Longrightarrow> \<exists>m. e = Ext m"
    by (auto simp: fs_mkdir_def io_bind_run split: sum.splits)
qed

lemma make_dir_fs: "fst (make_dir fs_mkdir d s) = Inr d \<and> extends s (snd (make_dir fs_mkdir d s))"
  using mkdir_extends [of s d] mkdir_raises [of d s]
  by (auto simp: make_dir_def io_try_run io_bind_run split: sum.splits exn.splits)

text \<open>The path a tool works on, which does not depend on the files.\<close>

definition join_target :: "sandbox_config \<Rightarrow> string \<Rightarrow> string \<Rightarrow> string \<Rightarrow> ppath res" where
  "join_target cfg tenant user path =
     bind_res (user_dir cfg tenant user) (\<lambda>d. clamp cfg (path_join d ''workspace'') path)"

lemma fs_join_run:
  "extends s (snd (fs_join cfg tenant user path s)) \<and>
   fst (fs_join cfg tenant user path s) = (case join_target cfg tenant user path of Inl e \<Rightarrow> Inl (Py e) | Inr t \<Rightarrow> Inr t)"
proof (cases "user_dir cfg tenant user")
  case (Inl e)
  then show ?thesis
    by (simp add: fs_join_def safe_join_def workspace_dir_def get_sandbox_dir_def io_bind_run join_target_def)
next
  case (Inr d)
  define s1 where "s1 = snd (make_dir fs_mkdir d s)"
  define s2 where "s2 = snd (make_dir fs_mkdir (path_join d ''workspace'') s1)"
  have "extends s s2" using make_dir_fs extends_trans unfolding s1_def s2_def by blast
  moreover have "fs_join cfg tenant user path s = io_res (clamp cfg (path_join d ''workspace'') path) s2"
    using Inr make_dir_fs [of d s] make_dir_fs [of "path_join d ''workspace''" s1]
    by (simp add: fs_join_def safe_join_def workspace_dir_def get_sandbox_dir_def io_bind_run s1_def s2_def)
  ultimately show ?thesis
    using Inr by (simp add: join_target_def io_res_def split: sum.split)
qed

lemma fs_join_ok:
  assumes "join_target cfg tenant user path = Inr target"
  obtains s1 where "fs_join cfg tenant user path s = (Inr target, s1)" "extends s s1"
proof
  show "fs_join cfg tenant user path s = (Inr target, snd (fs_join cfg tenant user path s))"
    "extends s (snd (fs_join cfg tenant user path s))"
    using fs_join_run [of s cfg tenant user path] assms by (simp_all add: prod_eq_iff)
qed

text \<open>A step that changes no node but the one at \<open>p\<close>, apart from new directories.\<close>

definition touches :: "ppath \<Rightarrow> fs \<Rightarrow> fs \<Rightarrow> bool" where
  "touches p s s1 \<longleftrightarrow> (\<forall>q n. q \<noteq> p \<longrightarrow> node_at s q = Some n \<longrightarrow> node_at s1 q = Some n)"

lemma extends_touches: "extends s s1 \<Longrightarrow> touches p s s1"
  unfolding extends_def touches_def by blast

lemma touches_trans: "touches p s s1 \<Longrightarrow> touches p s1 s2 \<Longrightarrow> touches p s s2"
  unfolding touches_def by blast

lemma write_touches: "touches p s (snd (write_text lib p content s))"
  by (auto simp: write_text_def touches_def split: option.splits node.splits)

lemma check_run: "snd (check_before_write cfg lib p s) = s"
  by (simp add: check_before_write_def io_bind_run io_res_def split: sum.split)

lemma finish_touches: "touches p s (snd (finish_edit lib p path original modified s))"
  using write_touches [of p s lib modified] by (simp add: finish_edit_def io_bind_run split: sum.split)

lemma edit_text_touches: "touches p s (snd (edit_text cfg lib p path original old new a b c s))"
proof -
  have r: "touches p s s" by (simp add: touches_def)
  show ?thesis
    using r finish_touches [of p s lib path original]
    by (auto simp: edit_text_def io_bind_run check_run split: option.split sum.split)
qed

lemma edit_file_touches:
  assumes "join_target cfg tenant user path = Inr target"
  shows "touches target s (snd (edit_file cfg lib tenant user path old new a b c s))"
proof -
  obtain s1 where s1: "fs_join cfg tenant user path s = (Inr target, s1)" "extends s s1" by (rule fs_join_ok [OF assms])
  have t: "touches target s s1" using s1(2) by (rule extends_touches)
  have r: "snd (read_text lib target s1) = s1" by (simp add: read_text_def split: option.split node.split)
  show ?thesis
  proof (cases "fs_exists target s1 \<and> (\<exists>x. fst (read_text lib target s1) = Inr x)")
    case True
    then obtain x where x: "fst (read_text lib target s1) = Inr x" by blast
    then have "snd (edit_file cfg lib tenant user path old new a b c s) =
        snd (edit_text cfg lib target path x old new a b c s1)"
      using True s1(1) r by (simp add: edit_file_def io_bind_run)
    then show ?thesis using touches_trans [OF t edit_text_touches] by simp
  next
    case False
    then have "snd (edit_file cfg lib tenant user path old new a b c s) = s1"
      using s1(1) r by (auto simp: edit_file_def io_bind_run split: sum.split)
    then show ?thesis using t by simp
  qed
qed

lemma write_file_touches:
  assumes "join_target cfg tenant user path = Inr target"
  shows "touches target s (snd (write_file cfg lib tenant user path content s))"
proof -
  obtain s1 where s1: "fs_join cfg tenant user path s = (Inr target, s1)" "extends s s1" by (rule fs_join_ok [OF assms])
  have t: "touches target s s1" using s1(2) by (rule extends_touches)
  have m: "touches target s1 (snd (fs_mkdir (path_parent target) s1))"
    using mkdir_extends by (rule extends_touches)
  have w: "touches target (snd (fs_mkdir (path_parent target) s1))
      (snd (write_text lib target content (snd (fs_mkdir (path_parent target) s1))))" by (rule write_touches)
  show ?thesis
    using t touches_trans [OF t m] touches_trans [OF touches_trans [OF t m] w] s1(1)
    by (auto simp: write_file_def io_bind_run check_run split: option.split sum.split)
qed

section \<open>Texts\<close>

lemma concat_split_keep: "concat (split_keep cur s) = cur @ s"
  by (induction cur s rule: split_keep.induct) (auto split: list.split)

lemma lines_keep_concat: "concat (lines_keep s) = s"
  by (simp add: lines_keep_def concat_split_keep)

lemma universal_no_cr: "cr \<notin> set (universal s)"
  by (induction s rule: universal.induct) (auto split: list.split)

lemma replace_first_split:
  "p \<noteq> [] \<Longrightarrow> count_sub p s \<noteq> 0 \<Longrightarrow> \<exists>pre post. s = pre @ p @ post \<and> replace_first p t s = pre @ t @ post"
proof (induction s)
  case Nil
  then show ?case by (simp add: count_sub.simps)
next
  case (Cons c s)
  show ?case
  proof (cases "starts_with p (c # s)")
    case True
    then have "c # s = [] @ p @ drop (length p) (c # s)"
      unfolding starts_with_def by (metis append_Nil append_take_drop_id)
    then show ?thesis using True by (metis append_Nil replace_first.simps(2))
  next
    case False
    with Cons.prems have "count_sub p s \<noteq> 0" by (simp add: count_sub.simps [of p "c # s"])
    with Cons.IH Cons.prems obtain pre post where "s = pre @ p @ post" "replace_first p t s = pre @ t @ post" by blast
    then have "c # s = (c # pre) @ p @ post \<and> replace_first p t (c # s) = (c # pre) @ t @ post" using False by simp
    then show ?thesis by blast
  qed
qed

lemma exact_edit_text:
  assumes "exact_edit original old (Some t) = Inr m" "old \<noteq> []"
  shows "\<exists>pre post. original = pre @ old @ post \<and> m = pre @ t @ post"
proof -
  from assms have "count_sub old original \<noteq> 0" "m = replace_first old t original"
    by (auto simp: exact_edit_def Let_def split: if_splits)
  then show ?thesis using replace_first_split [OF assms(2)] by simp
qed

section \<open>Runs of the tools\<close>

lemma read_text_file [simp]: "node_at s p = Some (File b t) \<Longrightarrow> read_text lib p s = (Inr (universal (tl_decode lib b)), s)"
  by (simp add: read_text_def)

lemma check_recorded:
  assumes "sc_resolve cfg p = Inr q" "dget (fs_observed s) (path_str q) = Some sig" "node_at s p = Some n"
  shows "check_before_write cfg lib p s = (Inr (if signature_of lib n \<noteq> sig then Some changed else None), s)"
  using assms by (simp add: check_before_write_def io_bind_run)

lemma extendsD:
  assumes "extends s s1"
  shows "node_at s p = Some n \<Longrightarrow> node_at s1 p = Some n" "fs_now s1 = fs_now s" "fs_observed s1 = fs_observed s"
  using assms unfolding extends_def by blast+

text \<open>A write, and an exact edit that would apply, when the file is not as it was recorded.\<close>

lemma stale_write:
  assumes "join_target cfg tenant user path = Inr target" "sc_resolve cfg target = Inr key"
    and "dget (fs_observed s) (path_str key) = Some sig" "node_at s target = Some n" "signature_of lib n \<noteq> sig"
  shows "fst (write_file cfg lib tenant user path content s) = Inr (err_dict_of changed) \<and>
    node_at (snd (write_file cfg lib tenant user path content s)) target = Some n"
proof -
  obtain s1 where s1: "fs_join cfg tenant user path s = (Inr target, s1)" "extends s s1" by (rule fs_join_ok [OF assms(1)])
  have "node_at s1 target = Some n" "dget (fs_observed s1) (path_str key) = Some sig"
    using assms(3,4) extendsD [OF s1(2)] by simp_all
  then show ?thesis using s1(1) check_recorded [OF assms(2), of s1 sig n lib] assms(5)
    by (simp add: write_file_def io_bind_run)
qed

lemma stale_edit:
  assumes "join_target cfg tenant user path = Inr target" "sc_resolve cfg target = Inr key"
    and "dget (fs_observed s) (path_str key) = Some sig" "node_at s target = Some (File b t)"
    and "signature_of lib (File b t) \<noteq> sig" "exact_edit (universal (tl_decode lib b)) old new = Inr m"
  shows "fst (edit_file cfg lib tenant user path (Some old) new x y z s) = Inr (err_dict_of changed) \<and>
    node_at (snd (edit_file cfg lib tenant user path (Some old) new x y z s)) target = Some (File b t)"
proof -
  obtain s1 where s1: "fs_join cfg tenant user path s = (Inr target, s1)" "extends s s1" by (rule fs_join_ok [OF assms(1)])
  have "node_at s1 target = Some (File b t)" "dget (fs_observed s1) (path_str key) = Some sig"
    using assms(3,4) extendsD [OF s1(2)] by simp_all
  then show ?thesis using s1(1) check_recorded [OF assms(2), of s1 sig "File b t" lib] assms(5,6)
    by (simp add: edit_file_def edit_text_def io_bind_run fs_exists_def)
qed

lemma finish_edit_run:
  assumes "node_at s p = Some (File b t)" "node_at s (path_parent p) = Some (Dir t' k)"
  shows "\<exists>d. finish_edit lib p path original m s = (Inr d, put_node p (File (tl_encode lib m) (fs_now s)) s)"
  using assms by (simp add: finish_edit_def io_bind_run write_text_def)

text \<open>An edit that goes through.\<close>

lemma exact_edit_run:
  assumes "join_target cfg tenant user path = Inr target" "sc_resolve cfg target = Inr key"
    and "node_at s target = Some (File b t)" "node_at s (path_parent target) = Some (Dir t' k)"
    and "dget (fs_observed s) (path_str key) \<in> {None, Some (signature_of lib (File b t))}"
    and "exact_edit (universal (tl_decode lib b)) old new = Inr m"
  shows "\<exists>d s1. edit_file cfg lib tenant user path (Some old) new x y z s =
      (Inr d, put_node target (File (tl_encode lib m) (fs_now s)) s1) \<and> extends s s1"
proof -
  obtain s1 where s1: "fs_join cfg tenant user path s = (Inr target, s1)" "extends s s1" by (rule fs_join_ok [OF assms(1)])
  have n: "node_at s1 target = Some (File b t)" "node_at s1 (path_parent target) = Some (Dir t' k)"
    "dget (fs_observed s1) (path_str key) \<in> {None, Some (signature_of lib (File b t))}" "fs_now s1 = fs_now s"
    using assms(3-5) extendsD [OF s1(2)] by simp_all
  then have c: "check_before_write cfg lib target s1 = (Inr None, s1)"
    using assms(2) by (auto simp: check_before_write_def io_bind_run)
  obtain d where "finish_edit lib target path (universal (tl_decode lib b)) m s1 =
      (Inr d, put_node target (File (tl_encode lib m) (fs_now s1)) s1)" using finish_edit_run [OF n(1,2)] by blast
  with s1 n c assms(6) show ?thesis
    by (auto simp: edit_file_def edit_text_def io_bind_run fs_exists_def)
qed

lemma range_edit_run:
  assumes "join_target cfg tenant user path = Inr target"
    and "node_at s target = Some (File b t)" "node_at s (path_parent target) = Some (Dir t' k)"
    and "range_edit (universal (tl_decode lib b)) x y new = Inr m"
  shows "\<exists>d s1. edit_file cfg lib tenant user path None old (Some x) (Some y) new s =
      (Inr d, put_node target (File (tl_encode lib m) (fs_now s)) s1) \<and> extends s s1"
proof -
  obtain s1 where s1: "fs_join cfg tenant user path s = (Inr target, s1)" "extends s s1" by (rule fs_join_ok [OF assms(1)])
  have n: "node_at s1 target = Some (File b t)" "node_at s1 (path_parent target) = Some (Dir t' k)" "fs_now s1 = fs_now s"
    using assms(2-3) extendsD [OF s1(2)] by simp_all
  obtain d where "finish_edit lib target path (universal (tl_decode lib b)) m s1 =
      (Inr d, put_node target (File (tl_encode lib m) (fs_now s1)) s1)" using finish_edit_run [OF n(1,2)] by blast
  with s1 n assms(4) show ?thesis
    by (auto simp: edit_file_def edit_text_def io_bind_run fs_exists_def)
qed

text \<open>What a read records.\<close>

lemma read_file_records:
  assumes "join_target cfg tenant user path = Inr target" "sc_resolve cfg target = Inr key"
    and "node_at s target = Some (File b t)"
  shows "dget (fs_observed (snd (read_file cfg lib tenant user path offset limit s))) (path_str key) =
      Some (signature_of lib (File b t)) \<and>
    (\<forall>p n. node_at s p = Some n \<longrightarrow> node_at (snd (read_file cfg lib tenant user path offset limit s)) p = Some n) \<and>
    fs_now (snd (read_file cfg lib tenant user path offset limit s)) = fs_now s"
proof -
  obtain s1 where s1: "fs_join cfg tenant user path s = (Inr target, s1)" "extends s s1" by (rule fs_join_ok [OF assms(1)])
  have n: "node_at s1 target = Some (File b t)" using assms(3) extendsD [OF s1(2)] by simp
  have "snd (read_file cfg lib tenant user path offset limit s) =
      s1\<lparr>fs_observed := dset (path_str key) (signature_of lib (File b t)) (fs_observed s1)\<rparr>"
    using s1(1) n assms(2) by (simp add: read_file_def io_bind_run fs_exists_def observe_def Let_def)
  then show ?thesis using extendsD [OF s1(2)] by simp
qed

section \<open>Properties\<close>

text \<open>C15: Whatever a tool writes, in whatever way, the files and directories outside the workspace of its user stay as they
  are. This rests on the file system resolving paths to absolute ones.\<close>

theorem files_outside_stay:
  assumes "\<And>p q. wf_path p \<Longrightarrow> sc_resolve cfg p = Inr q \<Longrightarrow> canonical q"
    and "join_target cfg tenant user path = Inr target" "user_dir cfg tenant user = Inr dir"
    and "sc_resolve cfg (path_join dir ''workspace'') = Inr base"
    and "node_at s q = Some n" "\<nexists>rest. p_parts q = p_parts base @ rest"
  shows "node_at (snd (write_file cfg lib tenant user path content s)) q = Some n \<and>
    node_at (snd (edit_file cfg lib tenant user path old new a b c s)) q = Some n"
proof -
  have "fst (safe_join cfg fs_mkdir tenant user path s) = Inr target"
    using fs_join_run [of s cfg tenant user path] assms(2) by (simp add: fs_join_def)
  moreover have "path_resolution (sc_resolve cfg)" using assms(1) by unfold_locales
  ultimately have "\<exists>rest. p_parts target = p_parts base @ rest"
    using path_resolution.safe_join_below [of "sc_resolve cfg" cfg, OF _ refl] assms(3,4) by fastforce
  with assms(6) have "q \<noteq> target" by blast
  then show ?thesis
    using write_file_touches [OF assms(2), of s lib content] edit_file_touches [OF assms(2), of s lib old new a b c] assms(5)
    unfolding touches_def by blast
qed

definition demo_lib :: text_lib where
  "demo_lib = \<lparr>tl_decode = (\<lambda>s. s), tl_encode = (\<lambda>s. s), tl_md5 = (\<lambda>s. s), tl_diff = (\<lambda>a b x y. [])\<rparr>"

definition demo_path :: "string list \<Rightarrow> ppath" where
  "demo_path ps = \<lparr>p_root = ''/'', p_parts = ps\<rparr>"

abbreviation demo_ws :: "string list" where
  "demo_ws \<equiv> [''srv'', ''sb'', ''acme'', ''ann'', ''workspace'']"

definition demo_notes :: ppath where
  "demo_notes = demo_path (demo_ws @ [''notes.txt''])"

definition demo_text :: string where
  "demo_text = ''one'' @ [cr, lf] @ ''two'' @ [cr, lf]"

definition demo_fs :: fs where
  "demo_fs = \<lparr>fs_nodes = [(demo_path demo_ws, Dir 1 0), (demo_notes, File demo_text 5), (demo_path [''etc'', ''passwd''], File ''root'' 1)],
     fs_now = 9, fs_observed = []\<rparr>"

lemma demo_join: "join_target link_free ''acme'' ''ann'' ''notes.txt'' = Inr demo_notes"
  by (simp add: join_target_def demo_notes_def demo_path_def eval_paths)

lemma demo_resolve: "sc_resolve link_free demo_notes = Inr demo_notes"
  by (simp add: link_free_def demo_notes_def demo_path_def norm_path_def)

lemma demo_node: "node_at demo_fs demo_notes = Some (File demo_text 5)"
  by (simp add: node_at_def demo_fs_def demo_notes_def demo_path_def)

lemma demo_parent: "node_at demo_fs (path_parent demo_notes) = Some (Dir 1 0)"
  by (simp add: node_at_def demo_fs_def demo_notes_def demo_path_def path_parent_def)

lemma link_free_law: "wf_path p \<Longrightarrow> sc_resolve link_free p = Inr q \<Longrightarrow> canonical q"
  by (auto simp: link_free_def norm_path_canonical)

theorem files_outside_stay_witness:
  "node_at (snd (write_file link_free demo_lib ''acme'' ''ann'' ''notes.txt'' ''x'' demo_fs)) (demo_path [''etc'', ''passwd''])
     = Some (File ''root'' 1) \<and>
   node_at (snd (edit_file link_free demo_lib ''acme'' ''ann'' ''notes.txt'' None None (Some 1) (Some 1) (Some ''x'') demo_fs))
     (demo_path [''etc'', ''passwd'']) = Some (File ''root'' 1)"
proof (rule files_outside_stay [OF link_free_law demo_join])
  show "user_dir link_free ''acme'' ''ann'' = Inr (demo_path [''srv'', ''sb'', ''acme'', ''ann''])"
    by (simp add: eval_paths demo_path_def)
  show "sc_resolve link_free (path_join (demo_path [''srv'', ''sb'', ''acme'', ''ann'']) ''workspace'') = Inr (demo_path demo_ws)"
    by (simp add: eval_paths demo_path_def)
  show "node_at demo_fs (demo_path [''etc'', ''passwd'']) = Some (File ''root'' 1)"
    by (simp add: node_at_def demo_fs_def demo_path_def demo_notes_def)
  show "\<nexists>rest. p_parts (demo_path [''etc'', ''passwd'']) = p_parts (demo_path demo_ws) @ rest" by (simp add: demo_path_def)
qed simp_all

text \<open>C13: After a file was read, a change of it by anyone makes a write and an exact edit be refused, and the change
  is kept.\<close>

theorem stale_view_is_refused:
  assumes "join_target cfg tenant user path = Inr target" "sc_resolve cfg target = Inr key"
    and "node_at s target = Some (File b t)"
    and "fs_observed s1 = fs_observed (snd (read_file cfg lib tenant user path offset limit s))"
    and "node_at s1 target = Some (File b1 t1)" "signature_of lib (File b1 t1) \<noteq> signature_of lib (File b t)"
    and "exact_edit (universal (tl_decode lib b1)) old new = Inr m"
  shows "fst (write_file cfg lib tenant user path content s1) = Inr (err_dict_of changed) \<and>
    node_at (snd (write_file cfg lib tenant user path content s1)) target = Some (File b1 t1) \<and>
    fst (edit_file cfg lib tenant user path (Some old) new x y z s1) = Inr (err_dict_of changed) \<and>
    node_at (snd (edit_file cfg lib tenant user path (Some old) new x y z s1)) target = Some (File b1 t1)"
proof -
  have "dget (fs_observed s1) (path_str key) = Some (signature_of lib (File b t))"
    using read_file_records [OF assms(1-3), of lib offset limit] assms(4) by simp
  from stale_write [OF assms(1,2) this assms(5,6)] stale_edit [OF assms(1,2) this assms(5,6,7)] show ?thesis by blast
qed

definition demo_changed :: fs where
  "demo_changed = put_node demo_notes (File ''one'' 7) (snd (read_file link_free demo_lib ''acme'' ''ann'' ''notes.txt'' 0 200 demo_fs))"

theorem stale_view_is_refused_witness:
  "fst (write_file link_free demo_lib ''acme'' ''ann'' ''notes.txt'' ''x'' demo_changed) = Inr (err_dict_of changed) \<and>
   node_at (snd (write_file link_free demo_lib ''acme'' ''ann'' ''notes.txt'' ''x'' demo_changed)) demo_notes = Some (File ''one'' 7) \<and>
   fst (edit_file link_free demo_lib ''acme'' ''ann'' ''notes.txt'' (Some ''one'') (Some ''1'') None None None demo_changed) =
     Inr (err_dict_of changed) \<and>
   node_at (snd (edit_file link_free demo_lib ''acme'' ''ann'' ''notes.txt'' (Some ''one'') (Some ''1'') None None None demo_changed))
     demo_notes = Some (File ''one'' 7)"
proof (rule stale_view_is_refused [OF demo_join demo_resolve demo_node])
  show "exact_edit (universal (tl_decode demo_lib ''one'')) ''one'' (Some ''1'') = Inr ''1''"
    by (simp add: exact_edit_def demo_lib_def count_sub.simps starts_with_def)
qed (simp_all add: demo_changed_def demo_lib_def signature_of_def)

text \<open>The line-range mode does not ask the guard: whatever was read and whoever changed the file since, the
  edit goes through and the change is lost but for the lines that are kept.\<close>

theorem range_edit_ignores_guard:
  assumes "join_target cfg tenant user path = Inr target"
    and "node_at s target = Some (File b t)" "node_at s (path_parent target) = Some (Dir t' k)"
    and "range_edit (universal (tl_decode lib b)) x y new = Inr m"
  shows "node_at (snd (edit_file cfg lib tenant user path None old (Some x) (Some y) new (s\<lparr>fs_observed := seen\<rparr>))) target =
    Some (File (tl_encode lib m) (fs_now s))"
proof -
  have n: "node_at (s\<lparr>fs_observed := seen\<rparr>) target = Some (File b t)"
    "node_at (s\<lparr>fs_observed := seen\<rparr>) (path_parent target) = Some (Dir t' k)" using assms(2,3) by simp_all
  obtain d s1 where "edit_file cfg lib tenant user path None old (Some x) (Some y) new (s\<lparr>fs_observed := seen\<rparr>) =
      (Inr d, put_node target (File (tl_encode lib m) (fs_now (s\<lparr>fs_observed := seen\<rparr>))) s1)"
    using range_edit_run [OF assms(1) n assms(4)] by blast
  then show ?thesis by simp
qed

lemma demo_range: "range_edit (universal (tl_decode demo_lib demo_text)) 1 1 (Some ''1'') = Inr (''1'' @ [lf] @ ''two'' @ [lf])"
  by (simp add: range_edit_def demo_lib_def demo_text_def lines_keep_def line_break_def ends_with_def Let_def)

theorem range_edit_ignores_guard_witness:
  "node_at (snd (edit_file link_free demo_lib ''acme'' ''ann'' ''notes.txt'' None None (Some 1) (Some 1) (Some ''1'')
     (demo_fs\<lparr>fs_observed := [(path_str demo_notes, (0, 0, []))]\<rparr>))) demo_notes = Some (File (''1'' @ [lf] @ ''two'' @ [lf]) 9)"
  using range_edit_ignores_guard [OF demo_join demo_node demo_parent demo_range] by (simp add: demo_lib_def demo_fs_def)

text \<open>An edit does not refresh what was recorded: after a read and an exact edit that went through, the next exact edit
  of the same caller is refused as if someone else had changed the file.\<close>

theorem second_edit_is_refused:
  assumes "join_target cfg tenant user path = Inr target" "sc_resolve cfg target = Inr key"
    and "node_at s target = Some (File b t)" "node_at s (path_parent target) = Some (Dir t' k)"
    and "exact_edit (universal (tl_decode lib b)) old new = Inr m"
    and "signature_of lib (File (tl_encode lib m) (fs_now s)) \<noteq> signature_of lib (File b t)"
    and "exact_edit (universal (tl_decode lib (tl_encode lib m))) old2 new2 = Inr m2"
    and "s1 = snd (read_file cfg lib tenant user path offset limit s)"
    and "s2 = snd (edit_file cfg lib tenant user path (Some old) new None None None s1)"
  shows "node_at s2 target = Some (File (tl_encode lib m) (fs_now s)) \<and>
    fst (edit_file cfg lib tenant user path (Some old2) new2 None None None s2) = Inr (err_dict_of changed)"
proof -
  have r: "dget (fs_observed s1) (path_str key) = Some (signature_of lib (File b t))"
    "node_at s1 target = Some (File b t)" "node_at s1 (path_parent target) = Some (Dir t' k)" "fs_now s1 = fs_now s"
    using read_file_records [OF assms(1-3), of lib offset limit] assms(3,4) unfolding assms(8) by simp_all
  then have o: "dget (fs_observed s1) (path_str key) \<in> {None, Some (signature_of lib (File b t))}" by simp
  obtain d s3 where e: "s2 = put_node target (File (tl_encode lib m) (fs_now s1)) s3" "extends s1 s3"
    using exact_edit_run [OF assms(1,2) r(2,3) o assms(5), of None None None] unfolding assms(9) by auto
  then have n: "node_at s2 target = Some (File (tl_encode lib m) (fs_now s))"
    "dget (fs_observed s2) (path_str key) = Some (signature_of lib (File b t))"
    using extendsD(3) [OF e(2)] r(1,4) by simp_all
  from stale_edit [OF assms(1,2) n(2,1) assms(6,7)] n(1) show ?thesis by simp
qed

theorem second_edit_is_refused_witness:
  "fst (edit_file link_free demo_lib ''acme'' ''ann'' ''notes.txt'' (Some ''two'') (Some ''2'') None None None
     (snd (edit_file link_free demo_lib ''acme'' ''ann'' ''notes.txt'' (Some ''one'') (Some ''1'') None None None
        (snd (read_file link_free demo_lib ''acme'' ''ann'' ''notes.txt'' 0 200 demo_fs))))) = Inr (err_dict_of changed)"
proof -
  have e1: "exact_edit (universal (tl_decode demo_lib demo_text)) ''one'' (Some ''1'') = Inr (''1'' @ [lf] @ ''two'' @ [lf])"
    by (simp add: exact_edit_def demo_lib_def demo_text_def count_sub.simps starts_with_def)
  have e2: "exact_edit (universal (tl_decode demo_lib (tl_encode demo_lib (''1'' @ [lf] @ ''two'' @ [lf])))) ''two'' (Some ''2'') =
      Inr (''1'' @ [lf] @ ''2'' @ [lf])"
    by (simp add: exact_edit_def demo_lib_def count_sub.simps starts_with_def)
  have sg: "signature_of demo_lib (File (tl_encode demo_lib (''1'' @ [lf] @ ''two'' @ [lf])) (fs_now demo_fs)) \<noteq>
      signature_of demo_lib (File demo_text 5)"
    by (simp add: signature_of_def demo_lib_def demo_text_def)
  show ?thesis
    using second_edit_is_refused [OF demo_join demo_resolve demo_node demo_parent e1 sg e2 refl refl] by simp
qed

text \<open>An exact edit that goes through changes one place, but it also rewrites the end of every line: the new file is
  the text that was read, whose carriage returns are gone, with the replacement in place of the old text.\<close>

theorem exact_edit_rewrites_line_ends:
  assumes "join_target cfg tenant user path = Inr target" "sc_resolve cfg target = Inr key"
    and "node_at s target = Some (File b t)" "node_at s (path_parent target) = Some (Dir t' k)"
    and "dget (fs_observed s) (path_str key) \<in> {None, Some (signature_of lib (File b t))}"
    and "exact_edit (universal (tl_decode lib b)) old (Some new) = Inr m" "old \<noteq> []" "cr \<notin> set new"
  shows "\<exists>pre post. universal (tl_decode lib b) = pre @ old @ post \<and>
    node_at (snd (edit_file cfg lib tenant user path (Some old) (Some new) None None None s)) target =
      Some (File (tl_encode lib (pre @ new @ post)) (fs_now s)) \<and> cr \<notin> set (pre @ new @ post)"
proof -
  obtain pre post where p: "universal (tl_decode lib b) = pre @ old @ post" "m = pre @ new @ post"
    using exact_edit_text [OF assms(6,7)] by blast
  obtain d s1 where "edit_file cfg lib tenant user path (Some old) (Some new) None None None s =
      (Inr d, put_node target (File (tl_encode lib m) (fs_now s)) s1)"
    using exact_edit_run [OF assms(1-6), of None None None] by blast
  moreover have "cr \<notin> set (pre @ new @ post)"
    using universal_no_cr [of "tl_decode lib b"] assms(8) unfolding p(1) by simp
  ultimately show ?thesis using p by auto
qed

theorem exact_edit_rewrites_line_ends_witness:
  "\<exists>pre post. universal (tl_decode demo_lib demo_text) = pre @ ''one'' @ post \<and>
    node_at (snd (edit_file link_free demo_lib ''acme'' ''ann'' ''notes.txt'' (Some ''one'') (Some ''1'') None None None demo_fs)) demo_notes =
      Some (File (tl_encode demo_lib (pre @ ''1'' @ post)) (fs_now demo_fs)) \<and> cr \<notin> set (pre @ ''1'' @ post)"
proof (rule exact_edit_rewrites_line_ends [OF demo_join demo_resolve demo_node demo_parent])
  show "exact_edit (universal (tl_decode demo_lib demo_text)) ''one'' (Some ''1'') = Inr (''1'' @ [lf] @ ''two'' @ [lf])"
    by (simp add: exact_edit_def demo_lib_def demo_text_def count_sub.simps starts_with_def)
qed (simp_all add: demo_fs_def)

text \<open>A line-range edit keeps the text before and after the range as it was read and puts the new lines between.\<close>

theorem range_edit_keeps_the_rest:
  assumes "range_edit original lo hi (Some new) = Inr m"
  shows "\<exists>before range after body. original = before @ range @ after \<and> m = before @ body @ after \<and>
    before = concat (take (nat (lo - 1)) (lines_keep original)) \<and>
    after = concat (drop (nat hi) (lines_keep original)) \<and> range \<noteq> [] \<and> (body = new \<or> body = new @ [lf])"
proof -
  let ?ls = "lines_keep original"
  define body where "body = (if new \<noteq> [] \<and> \<not> ends_with [lf] new then new @ [lf] else new)"
  from assms have b: "1 \<le> lo" "lo \<le> hi" "lo \<le> int (length ?ls)"
    and m: "m = concat (take (nat (lo - 1)) ?ls @ [body] @ drop (nat (min hi (int (length ?ls)))) ?ls)"
    by (auto simp: range_edit_def Let_def body_def split: if_splits)
  define range where "range = take (nat hi - nat (lo - 1)) (drop (nat (lo - 1)) ?ls)"
  have d: "drop (nat (min hi (int (length ?ls)))) ?ls = drop (nat hi) ?ls" by (simp add: min_def)
  have "?ls = take (nat (lo - 1)) ?ls @ range @ drop (nat hi) ?ls"
  proof -
    define k where "k = nat hi - nat (lo - 1)"
    define zs where "zs = drop (nat (lo - 1)) ?ls"
    have "nat hi = k + nat (lo - 1)" using b by (simp add: k_def)
    then have "drop (nat hi) ?ls = drop k zs" by (simp add: zs_def)
    moreover have "?ls = take (nat (lo - 1)) ?ls @ zs" by (simp add: zs_def)
    ultimately show ?thesis by (simp add: range_def flip: k_def zs_def)
  qed
  then have o: "original = concat (take (nat (lo - 1)) ?ls) @ concat range @ concat (drop (nat hi) ?ls)"
    using lines_keep_concat [of original] by (metis concat_append)
  have ne: "[] \<notin> set (split_keep cur s)" for cur s
    by (induction cur s rule: split_keep.induct) (auto split: list.split)
  have "range \<noteq> []" using b by (simp add: range_def) linarith
  moreover have "[] \<notin> set range" using ne by (auto simp: range_def lines_keep_def dest: in_set_takeD in_set_dropD)
  ultimately have "concat range \<noteq> []" by (cases range) auto
  moreover have "m = concat (take (nat (lo - 1)) ?ls) @ body @ concat (drop (nat hi) ?ls)" using m d by simp
  moreover have "body = new \<or> body = new @ [lf]" by (simp add: body_def)
  ultimately show ?thesis using o by blast
qed

theorem range_edit_keeps_the_rest_witness:
  "\<exists>before range after body. universal (tl_decode demo_lib demo_text) = before @ range @ after \<and>
    ''1'' @ [lf] @ ''two'' @ [lf] = before @ body @ after \<and>
    before = concat (take (nat (1 - 1)) (lines_keep (universal (tl_decode demo_lib demo_text)))) \<and>
    after = concat (drop (nat 1) (lines_keep (universal (tl_decode demo_lib demo_text)))) \<and> range \<noteq> [] \<and>
    (body = ''1'' \<or> body = ''1'' @ [lf])"
  by (rule range_edit_keeps_the_rest [OF demo_range])

text \<open>Code of printable characters without quotation marks and backslashes, in lines.\<close>

definition simple_char :: "char \<Rightarrow> bool" where
  "simple_char c \<longleftrightarrow> c = lf \<or> (32 \<le> (of_char c :: nat) \<and> (of_char c :: nat) \<le> 126 \<and> c \<noteq> dquote \<and> c \<noteq> bs)"

definition flat_char :: "char \<Rightarrow> string" where
  "flat_char c = (if c = lf then [bs, CHR ''n''] else [c])"

lemma json_simple: "simple_char c \<Longrightarrow> json_char c = flat_char c"
proof -
  assume s: "simple_char c"
  have n: "(of_char c :: nat) = 34 \<longleftrightarrow> c = dquote" "(of_char c :: nat) = 92 \<longleftrightarrow> c = bs"
    unfolding quote_chars using of_char_eq_iff [of c "CHR 0x22", where 'a = nat] of_char_eq_iff [of c bs, where 'a = nat] by simp_all
  show ?thesis
  proof (cases "c = lf")
    case True
    then show ?thesis by (simp add: json_char_def flat_char_def)
  next
    case False
    with s have "32 \<le> (of_char c :: nat)" "(of_char c :: nat) \<le> 126" "c \<noteq> dquote" "c \<noteq> bs" by (simp_all add: simple_char_def)
    with n False show ?thesis by (simp add: json_char_def flat_char_def Let_def)
  qed
qed

lemma shlex_flat:
  "list_all simple_char code \<Longrightarrow>
   shlex (InQuote dquote) tok True (concat (map json_char code) @ [dquote]) = Inr [tok @ concat (map flat_char code)]"
proof (induction code arbitrary: tok)
  case Nil
  then show ?case by simp
next
  case (Cons c code)
  then have s: "simple_char c" by simp
  then have "shlex (InQuote dquote) tok True (flat_char c @ rest) = shlex (InQuote dquote) (tok @ flat_char c) True rest" for rest
    by (auto simp: flat_char_def simple_char_def quote_chars)
  with Cons show ?case by (simp add: json_simple)
qed

lemma shlex_quote_seen: "s \<noteq> [] \<Longrightarrow> shlex (InQuote q) tok seen s = shlex (InQuote q) tok True s"
  by (cases s) simp_all

text \<open>Code of several lines does not reach the interpreter as it was given: the ends of its lines are escaped for JSON,
  which the words of a command do not know, so that the interpreter gets one line with a backslash and an \<open>n\<close> in it.\<close>

theorem python_code_loses_its_lines:
  assumes "code \<noteq> []" "list_all simple_char code" "has_escape (''python -c '' @ json_text code) = None"
  shows "execute_python cfg mkdir spawn tenant user code timeout =
    start_command cfg mkdir spawn tenant user [''python'', ''-c'', concat (map flat_char code)] timeout"
proof -
  have w: "plain_word ''python''" "plain_word ''-c''"
    unfolding plain_word_def plain_char_def is_blank_def is_quote_def quote_chars by simp_all
  have "shlex_split (''python '' @ ''-c '' @ json_text code) = Inr [''python'', ''-c'', concat (map flat_char code)]"
    using shlex_word [OF w(1), of "[]" False "'' '' @ ''-c '' @ json_text code"]
      shlex_word [OF w(2), of "[]" False "'' '' @ json_text code"] shlex_flat [OF assms(2), of "[]"]
      shlex_quote_seen [of "concat (map json_char code) @ [dquote]" dquote "[]" False]
    by (simp add: shlex_split_def is_blank_def json_text_def open_state_def is_quote_def quote_chars)
  then have s: "shlex_split (''python -c '' @ json_text code) = Inr [''python'', ''-c'', concat (map flat_char code)]" by simp
  have "\<not> is_space dquote" unfolding quote_chars by (simp add: is_space_def)
  then have t: "py_strip (''python -c '' @ json_text code) = ''python -c '' @ json_text code"
    by (intro py_strip_id) (simp add: json_text_def is_space_def)
  have e: "normalize_exe ''python'' = ''python''"
    by (simp add: normalize_exe_def path_name_def path_of_def path_root_def starts_with_def lower_def lower_char_def ends_with_def)
  have "parse_command (''python -c '' @ json_text code) = Inr [''python'', ''-c'', concat (map flat_char code)]"
    unfolding parse_command_def t Let_def s by (simp add: e allowed_executables_def)
  then show ?thesis using assms(1,3) unfolding execute_python_def execute_command_def run_in_sandbox_def by simp
qed

definition two_lines :: string where
  "two_lines = ''x=1'' @ [lf] @ ''print(x)''"

lemma two_lines_pass: "has_escape (''python -c '' @ json_text two_lines) = None"
  by code_simp

theorem python_code_loses_its_lines_witness:
  "execute_python link_free no_mkdir (\<lambda>args ws env t. io_return (Finished 1 [] (last args))) ''acme'' ''ann'' two_lines 30 () =
   (Inr [(''exit_code'', PInt 1), (''stdout'', PStr []), (''stderr'', PStr (''x=1'' @ [bs] @ ''nprint(x)''))], ())"
proof -
  have "list_all simple_char two_lines" by (simp add: two_lines_def simple_char_def quote_chars)
  from python_code_loses_its_lines [OF _ this two_lines_pass, of link_free no_mkdir] show ?thesis
    by (simp add: start_command_def sandboxed_env_def wrap_command_def outcome_dict_def eval_paths kept_vars_def two_lines_def flat_char_def)
qed

end
