(* ===== verification/CodeGuard.thy ===== *)
theory CodeGuard
  imports PyVal
begin

text \<open>
  \<^verbatim>\<open>app/tools/code_guard.py\<close>: the static check of code before it runs in the engine's process, over the nodes of its
  syntax tree, and the table of built-in functions it runs with. The parser is an argument: it gives the nodes in the
  order of \<^verbatim>\<open>ast.walk\<close>, or nothing for a syntax error.
\<close>

section \<open>The static check\<close>

text \<open>
  The nodes the check looks at: an import with its names, an import from a module, a call of a name, a call of an
  attribute of a name, any other call, an attribute.
\<close>

datatype pynode =
    Import "string list"
  | ImportFrom "string option"
  | CallName string
  | CallAttr string string
  | CallOther
  | Attribute string
  | OtherNode

definition dangerous_modules :: "string list" where
  "dangerous_modules =
     [''os'', ''subprocess'', ''sys'', ''ctypes'', ''socket'', ''importlib'', ''pathlib'', ''shutil'', ''tempfile'', ''glob'',
      ''atexit'', ''signal'', ''multiprocessing'', ''pickle'', ''marshal'', ''dbm'', ''shelve'', ''asyncio.tasks'', ''http.client'',
      ''urllib'', ''requests'', ''telnetlib'', ''ftplib'', ''smtplib'', ''imaplib'', ''poplib'']"

definition dangerous_calls :: "string list" where
  "dangerous_calls = [''open'', ''exec'', ''eval'', ''compile'', ''__import__'', ''input'', ''breakpoint'']"

definition dangerous_attr_paths :: "string list" where
  "dangerous_attr_paths =
     [''os.system'', ''os.popen'', ''os.startfile'', ''os.remove'', ''os.rename'', ''os.chdir'', ''os.mkdir'', ''os.makedirs'',
      ''sys.exit'', ''subprocess.run'', ''subprocess.Popen'', ''subprocess.call'', ''socket.socket'', ''shutil.rmtree'',
      ''shutil.copy'', ''shutil.move'', ''pathlib.Path'']"

definition blocked_attrs :: "string list" where
  "blocked_attrs =
     [''__class__'', ''__subclasses__'', ''__base__'', ''__bases__'', ''__mro__'', ''__dict__'', ''__globals__'', ''__closure__'',
      ''__code__'', ''__getattribute__'', ''__build_class__'']"

definition root_module :: "string \<Rightarrow> string" where
  "root_module name = hd (split_char CHR ''.'' name)"

definition use_tools :: "string \<Rightarrow> string \<Rightarrow> string" where
  "use_tools kind name = kind @ quoted name @ '' is not allowed - use tools.* instead''"

definition check_node :: "pynode \<Rightarrow> string option" where
  "check_node n =
     (case n of
        Import names \<Rightarrow>
          map_option (use_tools ''module '') (find (\<lambda>w. root_module w \<in> set dangerous_modules) names)
      | ImportFrom None \<Rightarrow> None
      | ImportFrom (Some w) \<Rightarrow>
          if w \<noteq> [] \<and> root_module w \<in> set dangerous_modules then Some (use_tools ''module '' w) else None
      | CallName f \<Rightarrow> if f \<in> set dangerous_calls then Some (use_tools ''call '' (f @ ''()'')) else None
      | CallAttr v a \<Rightarrow>
          if v @ ''.'' @ a \<in> set dangerous_attr_paths then Some (use_tools ''call '' (v @ ''.'' @ a @ ''()'')) else None
      | CallOther \<Rightarrow> None
      | Attribute a \<Rightarrow>
          if a \<in> set blocked_attrs then Some (''attribute '' @ quoted a @ '' is not allowed (object introspection)'') else None
      | OtherNode \<Rightarrow> None)"

text \<open>The first node that is refused decides.\<close>

fun first_reason :: "pynode list \<Rightarrow> string option" where
  "first_reason [] = None"
| "first_reason (n # ns) = (case check_node n of Some r \<Rightarrow> Some r | None \<Rightarrow> first_reason ns)"

definition check_static :: "(string \<Rightarrow> pynode list option) \<Rightarrow> string \<Rightarrow> string option" where
  "check_static walk code = (case walk code of None \<Rightarrow> None | Some ns \<Rightarrow> first_reason ns)"

section \<open>Built-in functions at run time\<close>

definition safe_imports :: "string list" where
  "safe_imports =
     [''json'', ''math'', ''random'', ''datetime'', ''re'', ''collections'', ''itertools'', ''typing'', ''time'', ''functools'',
      ''decimal'', ''string'', ''asyncio'']"

definition blocked_builtins :: "string list" where
  "blocked_builtins = [''open'', ''exec'', ''eval'', ''compile'', ''input'', ''breakpoint'']"

definition blocked_reflective :: "string list" where
  "blocked_reflective = [''getattr'', ''setattr'', ''delattr'', ''dir'', ''vars'', ''locals'', ''globals'']"

text \<open>An entry of the table: the built-in itself, a stub that raises, or the guarded import.\<close>

datatype builtin = Original string | Blocked string | GuardedImport

definition blocked_call :: "string \<Rightarrow> 'a res" where
  "blocked_call name = Inl RuntimeError"

text \<open>What \<open>__import__(name)\<close> imports, for a name that may be missing.\<close>

definition guarded_import :: "string option \<Rightarrow> string res" where
  "guarded_import name =
     (let w = (case name of None \<Rightarrow> [] | Some s \<Rightarrow> s)
      in if root_module w \<in> set safe_imports then Inr w else Inl RuntimeError)"

definition safe_builtins :: "string list \<Rightarrow> (string, builtin) dict" where
  "safe_builtins names =
     (let orig = map (\<lambda>w. (w, Original w)) names;
          a = foldl (\<lambda>d w. dset w (Blocked w) d) orig blocked_builtins;
          b = foldl (\<lambda>d w. dset w (Blocked w) d) a blocked_reflective
      in ddel ''__builtins__'' (dset ''__import__'' GuardedImport b))"

section \<open>Properties\<close>

lemma root_no_dot: "CHR ''.'' \<notin> set (root_module w)"
proof -
  have "\<forall>x \<in> set (split_char CHR ''.'' w). CHR ''.'' \<notin> set x"
    by (induction w) (auto split: list.splits)
  then show ?thesis using split_char_not_Nil [of "CHR ''.''" w] by (simp add: root_module_def)
qed

lemma first_reason_None: "first_reason ns = None \<longleftrightarrow> list_all (\<lambda>n. check_node n = None) ns"
  by (induction ns) (auto split: option.split)

lemma fold_blocked:
  "dget (foldl (\<lambda>d w. dset w (Blocked w) d) d ws) w = (if w \<in> set ws then Some (Blocked w) else dget d w)"
  by (induction ws arbitrary: d) auto

text \<open>The check accepts exactly the code that cannot be parsed and the code without a listed import, call or attribute;
  a module counts by the first part of its name.\<close>

theorem static_check_complete:
  "check_static walk code = None \<longleftrightarrow>
     walk code = None \<or>
     (\<exists>ns. walk code = Some ns \<and>
        (\<forall>n \<in> set ns. case n of
           Import names \<Rightarrow> list_all (\<lambda>w. root_module w \<notin> set dangerous_modules) names
         | ImportFrom (Some w) \<Rightarrow> w = [] \<or> root_module w \<notin> set dangerous_modules
         | CallName f \<Rightarrow> f \<notin> set dangerous_calls
         | CallAttr v a \<Rightarrow> v @ ''.'' @ a \<notin> set dangerous_attr_paths
         | Attribute a \<Rightarrow> a \<notin> set blocked_attrs
         | _ \<Rightarrow> True))"
proof -
  have "check_node n = None \<longleftrightarrow>
      (case n of
         Import names \<Rightarrow> list_all (\<lambda>w. root_module w \<notin> set dangerous_modules) names
       | ImportFrom (Some w) \<Rightarrow> w = [] \<or> root_module w \<notin> set dangerous_modules
       | CallName f \<Rightarrow> f \<notin> set dangerous_calls
       | CallAttr v a \<Rightarrow> v @ ''.'' @ a \<notin> set dangerous_attr_paths
       | Attribute a \<Rightarrow> a \<notin> set blocked_attrs
       | _ \<Rightarrow> True)" for n
    by (auto simp: check_node_def find_None_iff list_all_iff split: pynode.split option.split)
  then show ?thesis
    by (auto simp: check_static_def first_reason_None list_all_iff split: option.split)
qed

text \<open>The guards let code start processes: the module \<^verbatim>\<open>asyncio\<close> may be imported at run time, and the static check
  passes an import of it or of any of its parts together with a call of any of its functions, \<^verbatim>\<open>create_subprocess_exec\<close>
  among them.\<close>

theorem asyncio_is_not_guarded:
  assumes "walk code = Some [Import [''asyncio''], Import [''asyncio.subprocess''], CallAttr ''asyncio'' f, Attribute f]"
    and "f \<notin> set blocked_attrs"
  shows "check_static walk code = None \<and> guarded_import (Some ''asyncio'') = Inr ''asyncio'' \<and>
    guarded_import (Some ''asyncio.subprocess'') = Inr ''asyncio.subprocess''"
  using assms
  by (simp add: check_static_def check_node_def guarded_import_def root_module_def dangerous_modules_def
      dangerous_attr_paths_def safe_imports_def)

theorem asyncio_is_not_guarded_witness:
  "check_static (\<lambda>code. Some [Import [''asyncio''], Import [''asyncio.subprocess''],
      CallAttr ''asyncio'' ''create_subprocess_exec'', Attribute ''create_subprocess_exec'']) ''code'' = None"
  using asyncio_is_not_guarded [of "\<lambda>code. Some [Import [''asyncio''], Import [''asyncio.subprocess''],
      CallAttr ''asyncio'' ''create_subprocess_exec'', Attribute ''create_subprocess_exec'']" "''code''" "''create_subprocess_exec''"]
  by (simp add: blocked_attrs_def)

text \<open>A listed module with a dot in its name is never recognised, so neither \<^verbatim>\<open>http.client\<close> nor \<^verbatim>\<open>asyncio.tasks\<close> is
  refused.\<close>

theorem dotted_entries_never_match:
  "(root_module w \<in> set dangerous_modules \<longleftrightarrow>
      root_module w \<in> set (filter (\<lambda>m. CHR ''.'' \<notin> set m) dangerous_modules)) \<and>
   check_node (Import [''http.client'']) = None"
proof -
  have "check_node (Import [''http.client'']) = None"
    by (simp add: check_node_def root_module_def dangerous_modules_def)
  then show ?thesis using root_no_dot [of w] by simp
qed

text \<open>In the table of built-in functions every blocked and every reflective function is a stub, imports are guarded
  and the table itself cannot be reached; everything else is as it was.\<close>

theorem builtins_are_guarded:
  "dget (safe_builtins names) w =
     (if w = ''__builtins__'' then None
      else if w = ''__import__'' then Some GuardedImport
      else if w \<in> set blocked_builtins \<union> set blocked_reflective then Some (Blocked w)
      else if w \<in> set names then Some (Original w) else None)"
proof -
  have "dget (map (\<lambda>w. (w, Original w)) names) w = (if w \<in> set names then Some (Original w) else None)"
    by (induction names) auto
  then show ?thesis
    by (simp add: safe_builtins_def fold_blocked del: foldl_Cons)
qed

end
