(* ===== verification/SkillStore.thy ===== *)
theory SkillStore
  imports Sandbox "HOL-Library.List_Lexorder" "HOL-Library.Char_ord"
begin

text \<open>
  \<^verbatim>\<open>app/skill/store.py\<close>: the store of skills on disk, with its directories for users, tenants and everybody, their order of
  search and the copies it makes of directories of an older layout. A file is the JSON value it holds; a file that is no
  JSON object, or whose name field is no text, cannot be loaded. The base directory is absolute and free of links.
\<close>

section \<open>Skills\<close>

record skill_def =
  sd_name :: string
  sd_description :: pyval
  sd_version :: pyval
  sd_author :: pyval
  sd_tags :: pyval
  sd_exec_type :: pyval
  sd_source :: pyval
  sd_parameters :: pyval
  sd_installed_at :: pyval
  sd_enabled :: pyval
  sd_scope :: string

definition skill_to_dict :: "skill_def \<Rightarrow> pydict" where
  "skill_to_dict s =
     [(''name'', PStr (sd_name s)), (''description'', sd_description s), (''version'', sd_version s), (''author'', sd_author s),
      (''tags'', sd_tags s), (''exec'', PDict [(''type'', sd_exec_type s), (''source'', sd_source s)]),
      (''parameters'', sd_parameters s), (''installed_at'', sd_installed_at s), (''enabled'', sd_enabled s)]"

text \<open>\<open>None\<close> is an exception of the load; the scope is filled in by the search.\<close>

definition load_skill :: "pydict \<Rightarrow> skill_def option" where
  "load_skill d =
     (case (dget d ''name'', dget_or d ''exec'' (PDict [])) of
        (Some (PStr name), PDict cfg) \<Rightarrow>
          Some \<lparr>sd_name = name, sd_description = dget_or d ''description'' (PStr []),
            sd_version = dget_or d ''version'' (PStr ''0.1.0''), sd_author = dget_or d ''author'' (PStr []),
            sd_tags = dget_or d ''tags'' (PList []), sd_exec_type = dget_or cfg ''type'' (PStr ''prompt''),
            sd_source = dget_or cfg ''source'' (PStr []), sd_parameters = dget_or d ''parameters'' (PList []),
            sd_installed_at = dget_or d ''installed_at'' (PInt 0), sd_enabled = dget_or d ''enabled'' (PBool True),
            sd_scope = ''user''\<rparr>
      | _ \<Rightarrow> None)"

section \<open>Files and directories\<close>

record skill_fs =
  sk_files :: "(ppath, pydict option) dict"
  sk_dirs :: "ppath list"

definition child :: "ppath \<Rightarrow> string \<Rightarrow> ppath" where
  "child d w = d\<lparr>p_parts := p_parts d @ [w]\<rparr>"

definition is_dir :: "skill_fs \<Rightarrow> ppath \<Rightarrow> bool" where
  "is_dir s d \<longleftrightarrow> d \<in> set (sk_dirs s)"

definition skill_ext :: string where
  "skill_ext = ''.skill.json''"

text \<open>The files of a directory by name, and those that \<^verbatim>\<open>glob("*.skill.json")\<close> gives.\<close>

definition dir_files :: "skill_fs \<Rightarrow> ppath \<Rightarrow> (string \<times> pydict option) list" where
  "dir_files s d =
     map (\<lambda>(p, c). (last (p_parts p), c)) (filter (\<lambda>(p, c). p_parts p \<noteq> [] \<and> path_parent p = d) (sk_files s))"

definition skill_files :: "skill_fs \<Rightarrow> ppath \<Rightarrow> (string \<times> pydict option) list" where
  "skill_files s d = filter (\<lambda>(w, c). ends_with skill_ext w) (dir_files s d)"

definition make_dirs :: "ppath \<Rightarrow> skill_fs \<Rightarrow> skill_fs" where
  "make_dirs d s = s\<lparr>sk_dirs := sk_dirs s @ map (\<lambda>i. d\<lparr>p_parts := take i (p_parts d)\<rparr>) [0..<Suc (length (p_parts d))]\<rparr>"

definition put_file :: "ppath \<Rightarrow> pydict option \<Rightarrow> skill_fs \<Rightarrow> skill_fs" where
  "put_file p c s = s\<lparr>sk_files := dset p c (sk_files s)\<rparr>"

definition copy_files :: "ppath \<Rightarrow> (string \<times> pydict option) list \<Rightarrow> skill_fs \<Rightarrow> skill_fs" where
  "copy_files d fs s = foldl (\<lambda>s (w, c). put_file (child d w) c s) s fs"

section \<open>Layouts\<close>

definition shared_dir :: string where
  "shared_dir = ''_shared''"

definition segment_char :: "char \<Rightarrow> bool" where
  "segment_char c \<longleftrightarrow>
     (let n = (of_char c :: int)
      in 97 \<le> n \<and> n \<le> 122 \<or> 65 \<le> n \<and> n \<le> 90 \<or> 48 \<le> n \<and> n \<le> 57 \<or> n = 95 \<or> n = 46 \<or> n = 45)"

definition segment_start :: "char \<Rightarrow> bool" where
  "segment_start c \<longleftrightarrow>
     (let n = (of_char c :: int) in 97 \<le> n \<and> n \<le> 122 \<or> 65 \<le> n \<and> n \<le> 90 \<or> 48 \<le> n \<and> n \<le> 57)"

definition segment_ok :: "string \<Rightarrow> bool" where
  "segment_ok v \<longleftrightarrow> v \<noteq> [] \<and> segment_start (hd v) \<and> list_all segment_char (tl v) \<and> length v \<le> 128"

definition safe_segment :: "string \<Rightarrow> string \<Rightarrow> string res" where
  "safe_segment value label =
     (let v = py_strip value
      in if v = [] then Inr []
         else if segment_ok v then Inr v
         else Inl (ValueError (''invalid '' @ label @ '' segment: '' @ repr_str value)))"

text \<open>The old global layout: its files and its directories, all of them, go to the shared directory.\<close>

definition below :: "ppath \<Rightarrow> ppath \<Rightarrow> string list option" where
  "below d p =
     (if p_root p = p_root d \<and> take (length (p_parts d)) (p_parts p) = p_parts d
      then Some (drop (length (p_parts d)) (p_parts p)) else None)"

definition copied_tree :: "ppath \<Rightarrow> ppath \<Rightarrow> ppath option" where
  "copied_tree base p =
     (case below base p of
        Some (n # rest) \<Rightarrow> if n \<noteq> shared_dir then Some (base\<lparr>p_parts := p_parts base @ shared_dir # n # rest\<rparr>) else None
      | _ \<Rightarrow> None)"

definition copy_trees :: "ppath \<Rightarrow> skill_fs \<Rightarrow> skill_fs \<Rightarrow> skill_fs" where
  "copy_trees base old s =
     (let inner = filter (\<lambda>(p, c). case below base p of Some (n # m # rest) \<Rightarrow> n \<noteq> shared_dir | _ \<Rightarrow> False) (sk_files old);
          files = foldl (\<lambda>s (p, c). case copied_tree base p of None \<Rightarrow> s | Some q \<Rightarrow> put_file q c s) s inner
      in files\<lparr>sk_dirs := sk_dirs files @ List.map_filter (copied_tree base) (sk_dirs old)\<rparr>)"

definition migrate_legacy :: "ppath \<Rightarrow> ppath \<Rightarrow> skill_fs \<Rightarrow> skill_fs" where
  "migrate_legacy base shared s =
     (if \<not> is_dir s base \<or> skill_files s shared \<noteq> [] \<or> skill_files s base = [] then s
      else copy_trees base s (copy_files shared (skill_files s base) (make_dirs shared s)))"

definition migrate_tenant :: "ppath \<Rightarrow> ppath \<Rightarrow> skill_fs \<Rightarrow> skill_fs" where
  "migrate_tenant tenant_root shared s =
     (if \<not> is_dir s tenant_root \<or> skill_files s shared \<noteq> [] \<or> skill_files s tenant_root = [] then s
      else copy_files shared (skill_files s tenant_root) (make_dirs shared s))"

record skill_roots =
  sr_write :: ppath
  sr_search :: "(ppath \<times> string) list"
  sr_write_scope :: string

text \<open>The first argument is the base directory; an explicit root is taken as it is.\<close>

definition resolve_skill_roots ::
  "ppath \<Rightarrow> ppath option \<Rightarrow> string \<Rightarrow> string \<Rightarrow> string \<Rightarrow> skill_fs \<Rightarrow> skill_roots res \<times> skill_fs"
where
  "resolve_skill_roots base explicit tenant_id user_id scope s =
     (case explicit of
        Some r \<Rightarrow> (Inr \<lparr>sr_write = r, sr_search = [(r, ''root'')], sr_write_scope = ''root''\<rparr>, s)
      | None \<Rightarrow>
          (case safe_segment tenant_id ''tenant_id'' of
             Inl e \<Rightarrow> (Inl e, s)
           | Inr tid \<Rightarrow>
               (case safe_segment user_id ''user_id'' of
                  Inl e \<Rightarrow> (Inl e, s)
                | Inr uid \<Rightarrow>
                    let global_shared = child base shared_dir; s1 = migrate_legacy base global_shared s
                    in if tid = [] \<and> uid = []
                       then (Inr \<lparr>sr_write = global_shared, sr_search = [(global_shared, ''shared'')], sr_write_scope = ''shared''\<rparr>, s1)
                       else if scope = ''tenant'' \<and> tid = []
                       then (Inl (ValueError (''scope='' @ quoted ''tenant'' @ '' requires a tenant_id'')), s1)
                       else
                         let tenant_root = path_join base tid; tenant_shared = child tenant_root shared_dir;
                             private = path_join tenant_root uid; s2 = migrate_tenant tenant_root tenant_shared s1;
                             search = (if uid \<noteq> [] then [(private, ''user'')] else [])
                               @ [(tenant_shared, ''tenant''), (global_shared, ''shared'')];
                             (target, target_scope) =
                               (if scope = ''tenant'' then (tenant_shared, ''tenant'')
                                else if uid \<noteq> [] then (private, ''user'') else (tenant_shared, ''tenant''))
                         in (Inr \<lparr>sr_write = target, sr_search = search, sr_write_scope = target_scope\<rparr>, s2))))"

section \<open>The store\<close>

text \<open>\<open>SkillStore(root, tenant_id, user_id, scope)\<close>: a store is its directories.\<close>

definition open_store ::
  "ppath \<Rightarrow> ppath option \<Rightarrow> string \<Rightarrow> string \<Rightarrow> string \<Rightarrow> skill_fs \<Rightarrow> skill_roots res \<times> skill_fs"
where
  "open_store base explicit tenant_id user_id scope s =
     (case resolve_skill_roots base explicit tenant_id user_id scope s of
        (Inl e, s1) \<Rightarrow> (Inl e, s1)
      | (Inr r, s1) \<Rightarrow> (Inr r, make_dirs (sr_write r) s1))"

definition skill_path :: "skill_roots \<Rightarrow> string \<Rightarrow> ppath" where
  "skill_path r name = path_join (sr_write r) (name @ skill_ext)"

text \<open>The skills in the order of search, each with its scope; files that cannot be loaded are skipped.\<close>

definition load_dir :: "skill_fs \<Rightarrow> ppath \<times> string \<Rightarrow> (skill_def \<times> string) list" where
  "load_dir s d =
     (if \<not> is_dir s (fst d) then []
      else map (\<lambda>k. (k, snd d))
             (List.map_filter (\<lambda>(w, c). Option.bind c load_skill) (sort_key fst (skill_files s (fst d)))))"

definition iter_search :: "skill_roots \<Rightarrow> skill_fs \<Rightarrow> (skill_def \<times> string) list" where
  "iter_search r s = concat (map (load_dir s) (sr_search r))"



definition get_skill :: "skill_roots \<Rightarrow> skill_fs \<Rightarrow> string \<Rightarrow> skill_def option" where
  "get_skill r s name =
     map_option (\<lambda>(k, scope). k\<lparr>sd_scope := scope\<rparr>) (find (\<lambda>(k, scope). sd_name k = name) (iter_search r s))"

text \<open>The path of the file is resolved, steps up included; its directory has to be there.\<close>

definition save_skill :: "skill_roots \<Rightarrow> skill_def \<Rightarrow> (skill_fs, unit) io" where
  "save_skill r k s =
     (let p = norm_path (skill_path r (sd_name k))
      in if is_dir s (path_parent p) then (Inr (), put_file p (Some (skill_to_dict k)) s)
         else (Inl (Ext ''FileNotFoundError''), s))"

definition delete_skill :: "skill_roots \<Rightarrow> skill_fs \<Rightarrow> string \<Rightarrow> bool \<times> skill_fs" where
  "delete_skill r s name =
     (let p = norm_path (skill_path r name)
      in if dget (sk_files s) p \<noteq> None then (True, s\<lparr>sk_files := ddel p (sk_files s)\<rparr>) else (False, s))"

section \<open>Search\<close>




text \<open>What is written for a skill is read back as it was; its scope is not written.\<close>

theorem skill_roundtrip: "load_skill (skill_to_dict k) = Some (k\<lparr>sd_scope := ''user''\<rparr>)"
  by (simp add: load_skill_def skill_to_dict_def dget_or_def)

section \<open>Directories whose files are named after their skills\<close>

definition named :: "skill_fs \<Rightarrow> ppath \<Rightarrow> bool" where
  "named s d \<longleftrightarrow> (\<forall>w c k. (w, Some c) \<in> set (skill_files s d) \<longrightarrow> load_skill c = Some k \<longrightarrow> w = sd_name k @ skill_ext)"

lemma child_iff: "p_parts p \<noteq> [] \<and> path_parent p = d \<and> last (p_parts p) = w \<longleftrightarrow> p = child d w" for p :: ppath
proof
  assume "p_parts p \<noteq> [] \<and> path_parent p = d \<and> last (p_parts p) = w"
  then show "p = child d w" by (cases p, cases d) (auto simp: path_parent_def child_def)
next
  assume "p = child d w"
  then show "p_parts p \<noteq> [] \<and> path_parent p = d \<and> last (p_parts p) = w"
    by (cases d) (simp add: path_parent_def child_def)
qed

lemma in_dir_files: "(w, c) \<in> set (dir_files s d) \<longleftrightarrow> (child d w, c) \<in> set (sk_files s)"
proof -
  have "(w, c) \<in> set (dir_files s d) \<longleftrightarrow>
      (\<exists>p. (p, c) \<in> set (sk_files s) \<and> p_parts p \<noteq> [] \<and> path_parent p = d \<and> last (p_parts p) = w)"
    unfolding dir_files_def set_map set_filter image_iff by (auto simp del: split_paired_Ex)
  then show ?thesis unfolding child_iff by blast
qed

lemma child_inj [simp]: "child d w = child d v \<longleftrightarrow> w = v" for d :: ppath
  by (cases d) (simp add: child_def)

lemma ext_name [simp]: "ends_with skill_ext (name @ skill_ext)"
  by (simp add: ends_with_def)

lemma in_skill_files:
  "wf_dict (sk_files s) \<Longrightarrow>
   (name @ skill_ext, c) \<in> set (skill_files s d) \<longleftrightarrow> dget (sk_files s) (child d (name @ skill_ext)) = Some c"
  by (simp add: skill_files_def in_dir_files wf_dget_iff)

lemma find_map_filter_unique:
  assumes "\<And>x y. x \<in> set xs \<Longrightarrow> f x = Some y \<Longrightarrow> P y \<Longrightarrow> x = z" "z \<in> set xs" "f z = Some v" "P v"
  shows "find P (List.map_filter f xs) = Some v"
  using assms
proof (induction xs)
  case (Cons x xs)
  show ?case
  proof (cases "\<exists>y. f x = Some y \<and> P y")
    case True
    then obtain y where "f x = Some y" "P y" by blast
    moreover from this Cons.prems(1) have "x = z" by simp
    ultimately show ?thesis using Cons.prems(3) by (simp add: List.map_filter_simps)
  next
    case False
    with Cons.prems(2,3,4) have "z \<in> set xs" by auto
    then have "find P (List.map_filter f xs) = Some v" using Cons.prems by (intro Cons.IH) simp_all
    with False show ?thesis by (cases "f x") (auto simp: List.map_filter_simps)
  qed
qed simp

text \<open>A skill in such a directory is found under its name.\<close>

lemma find_in_dir:
  assumes "is_dir s d" "wf_dict (sk_files s)" "named s d"
    and "dget (sk_files s) (child d (name @ skill_ext)) = Some (Some c)" "load_skill c = Some k" "sd_name k = name"
  shows "find (\<lambda>(k, scope). sd_name k = name) (load_dir s (d, scope)) = Some (k, scope)"
proof -
  have z: "(name @ skill_ext, Some c) \<in> set (sort_key fst (skill_files s d))"
    using assms(2,4) by (simp add: in_skill_files)
  have u: "x = (name @ skill_ext, Some c)" if x: "x \<in> set (sort_key fst (skill_files s d))"
    "(case x of (w, c) \<Rightarrow> Option.bind c load_skill) = Some y" "sd_name y = name" for x y
  proof -
    obtain w b where w: "x = (w, Some b)" "load_skill b = Some y"
      using x(2) by (cases x) (auto simp: Option.bind_eq_Some_conv)
    then have "w = name @ skill_ext" using x assms(3) by (auto simp: named_def)
    moreover from this w x(1) have "Some (Some b) = dget (sk_files s) (child d (name @ skill_ext))"
      using assms(2) by (simp add: in_skill_files)
    ultimately show ?thesis using w assms(4) by simp
  qed
  have "find (\<lambda>k. sd_name k = name) (List.map_filter (\<lambda>(w, c). Option.bind c load_skill) (sort_key fst (skill_files s d))) = Some k"
    by (rule find_map_filter_unique [OF u z]) (use assms(5,6) in auto)
  moreover have "find (\<lambda>(k, scope). sd_name k = name) (map (\<lambda>k. (k, scope)) ks) =
      map_option (\<lambda>k. (k, scope)) (find (\<lambda>k. sd_name k = name) ks)" for ks :: "skill_def list"
    by (induction ks) auto
  ultimately show ?thesis using assms(1) by (simp add: load_dir_def)
qed

lemma parent_child [simp]: "path_parent (child d w) = d" for d :: ppath
  by (cases d) (simp add: path_parent_def child_def)

lemma file_name_plain: "CHR ''/'' \<notin> set name \<Longrightarrow> plain_name (name @ skill_ext)"
proof -
  assume n: "CHR ''/'' \<notin> set name"
  have "11 \<le> length (name @ skill_ext)" by (simp add: skill_ext_def)
  then have "name @ skill_ext \<noteq> ''.''" "name @ skill_ext \<noteq> ''..''" by fastforce+
  with n show ?thesis by (simp add: plain_name_def part_ok_def skill_ext_def)
qed

lemma skill_path_child:
  "canonical (sr_write r) \<Longrightarrow> CHR ''/'' \<notin> set name \<Longrightarrow>
   norm_path (skill_path r name) = child (sr_write r) (name @ skill_ext)"
proof -
  assume c: "canonical (sr_write r)" "CHR ''/'' \<notin> set name"
  have p: "plain_name (name @ skill_ext)" by (rule file_name_plain [OF c(2)])
  then have "canonical (skill_path r name)" unfolding skill_path_def using c(1) by (intro canonical_join)
  then show ?thesis using p by (simp add: norm_canonical skill_path_def join_plain child_def)
qed

text \<open>A skill that a user saves in a directory whose files are named after their skills is what everybody who searches
  this directory first finds under its name.\<close>

theorem saved_skill_is_found:
  assumes "canonical (sr_write r)" "CHR ''/'' \<notin> set (sd_name k)"
    and "sr_search r = (sr_write r, scope) # others"
    and "is_dir s (sr_write r)" "wf_dict (sk_files s)" "named s (sr_write r)"
  shows "fst (save_skill r k s) = Inr () \<and>
    get_skill r (snd (save_skill r k s)) (sd_name k) = Some (k\<lparr>sd_scope := scope\<rparr>) \<and>
    named (snd (save_skill r k s)) (sr_write r)"
proof -
  let ?d = "sr_write r" and ?w = "sd_name k @ skill_ext"
  define s1 where "s1 = put_file (child ?d ?w) (Some (skill_to_dict k)) s"
  have save: "save_skill r k s = (Inr (), s1)"
    using assms(4) by (simp add: save_skill_def skill_path_child [OF assms(1,2)] s1_def)
  have d1: "is_dir s1 ?d" and w1: "wf_dict (sk_files s1)"
    using assms(4,5) by (simp_all add: s1_def put_file_def is_dir_def)
  have l: "load_skill (skill_to_dict k) = Some (k\<lparr>sd_scope := ''user''\<rparr>)"
    by (simp add: load_skill_def skill_to_dict_def dget_or_def)
  have n1: "named s1 ?d"
    unfolding named_def
  proof (intro allI impI)
    fix w c j assume j: "(w, Some c) \<in> set (skill_files s1 ?d)" "load_skill c = Some j"
    then have g: "dget (sk_files s1) (child ?d w) = Some (Some c)" "ends_with skill_ext w"
      using w1 by (auto simp: skill_files_def in_dir_files wf_dget_iff)
    show "w = sd_name j @ skill_ext"
    proof (cases "w = ?w")
      case True
      then have "c = skill_to_dict k" using g(1) by (simp add: s1_def put_file_def)
      then have "j = k\<lparr>sd_scope := ''user''\<rparr>" using j(2) l by simp
      then show ?thesis using True by simp
    next
      case False
      then have "dget (sk_files s) (child ?d w) = Some (Some c)" using g(1) by (simp add: s1_def put_file_def)
      then have "(w, Some c) \<in> set (skill_files s ?d)" using g(2) assms(5) by (simp add: skill_files_def in_dir_files wf_dget_iff)
      with assms(6) j(2) show ?thesis by (simp add: named_def)
    qed
  qed
  have "find (\<lambda>(j, scope). sd_name j = sd_name (k\<lparr>sd_scope := ''user''\<rparr>)) (load_dir s1 (?d, scope)) =
      Some (k\<lparr>sd_scope := ''user''\<rparr>, scope)"
    by (rule find_in_dir [OF d1 w1 n1 _ l]) (simp_all add: s1_def put_file_def)
  moreover have "find P (xs @ ys) = (case find P xs of None \<Rightarrow> find P ys | Some x \<Rightarrow> Some x)" for P and xs ys :: "(skill_def \<times> string) list"
    by (induction xs) auto
  ultimately have "get_skill r s1 (sd_name k) = Some (k\<lparr>sd_scope := scope\<rparr>)"
    using assms(3) by (simp add: get_skill_def iter_search_def)
  with save n1 show ?thesis by simp
qed

definition demo_skill :: skill_def where
  "demo_skill = \<lparr>sd_name = ''greet'', sd_description = PStr ''says hello'', sd_version = PStr ''1'', sd_author = PStr [],
     sd_tags = PList [], sd_exec_type = PStr ''prompt'', sd_source = PStr ''hello {name}'', sd_parameters = PList [],
     sd_installed_at = PInt 0, sd_enabled = PBool True, sd_scope = ''user''\<rparr>"

definition demo_base :: ppath where
  "demo_base = \<lparr>p_root = ''/'', p_parts = [''data'', ''skills'']\<rparr>"

definition demo_roots :: skill_roots where
  "demo_roots = \<lparr>sr_write = demo_base, sr_search = [(demo_base, ''root'')], sr_write_scope = ''root''\<rparr>"

theorem saved_skill_is_found_witness:
  "get_skill demo_roots (snd (save_skill demo_roots demo_skill \<lparr>sk_files = [], sk_dirs = [demo_base]\<rparr>)) ''greet'' =
     Some (demo_skill\<lparr>sd_scope := ''root''\<rparr>)"
  using saved_skill_is_found [of demo_roots demo_skill "''root''" "[]" "\<lparr>sk_files = [], sk_dirs = [demo_base]\<rparr>"]
  by (simp add: demo_roots_def demo_skill_def demo_base_def canonical_def wf_path_def part_ok_def is_dir_def named_def
      skill_files_def dir_files_def)

section \<open>Copies of older layouts\<close>

lemma segment_plain: "segment_ok w \<Longrightarrow> plain_name w \<and> w \<noteq> shared_dir \<and> py_strip w = w \<and> w \<noteq> []"
proof -
  assume w: "segment_ok w"
  then obtain c v where cv: "w = c # v" "segment_start c" "list_all segment_char v" by (cases w) (auto simp: segment_ok_def)
  have ch: "segment_char x" if "x \<in> set w" for x
    using that cv by (auto simp: segment_start_def segment_char_def list_all_iff Let_def)
  have ns: "\<not> is_space x \<and> x \<noteq> CHR ''/''" if "segment_char x" for x
  proof -
    have "(of_char x :: int) = int (of_char x)" by (rule of_nat_of_char [symmetric])
    then have "\<not> is_space x" using that unfolding segment_char_def is_space_def Let_def by linarith
    moreover have "x \<noteq> CHR ''/''" using that by (auto simp: segment_char_def)
    ultimately show ?thesis ..
  qed
  have "c \<noteq> CHR ''.''" "c \<noteq> CHR ''_''" using cv(2) by (auto simp: segment_start_def)
  then have "w \<noteq> ''.''" "w \<noteq> ''..''" "w \<noteq> shared_dir" using cv(1) by (auto simp: shared_dir_def)
  moreover have "py_strip w = w" using ns ch cv(1) by (intro py_strip_id) auto
  moreover have "CHR ''/'' \<notin> set w" using ns ch by blast
  ultimately show ?thesis using cv(1) by (simp add: plain_name_def part_ok_def)
qed

lemma child_distinct: "child d w \<noteq> d" "child (child d v) w \<noteq> d" "child (child d u) w \<noteq> child d v" for d :: ppath
  by (cases d; simp add: child_def)+

lemma child_eq: "child d w = child e v \<longleftrightarrow> d = e \<and> w = v" for d e :: ppath
  by (metis child_inj parent_child)

lemma join_child: "plain_name w \<Longrightarrow> path_join d w = child d w"
  by (simp add: join_plain child_def)

lemma join_Nil: "path_join d [] = d"
  by (simp add: path_join_def path_of_def path_root_def starts_with_def)

lemma safe_segment_ok: "segment_ok w \<Longrightarrow> safe_segment w label = Inr w"
  using segment_plain [of w] by (simp add: safe_segment_def)

lemma make_dirs_is_dir: "is_dir (make_dirs d s) d" "is_dir s e \<Longrightarrow> is_dir (make_dirs d s) e" "sk_files (make_dirs d s) = sk_files s"
  by (auto simp: is_dir_def make_dirs_def)


lemma shared_copy_is_found:
  assumes "sr_search r = [(own, ''user''), (shared, ''tenant''), (common, ''shared'')]" "is_dir s shared"
    and "skill_files s own = []" "skill_files s shared = [(w, Some (skill_to_dict k))]"
  shows "get_skill r s (sd_name k) = Some (k\<lparr>sd_scope := ''tenant''\<rparr>)"
proof -
  have "load_skill (skill_to_dict k) = Some (k\<lparr>sd_scope := ''user''\<rparr>)"
    by (simp add: load_skill_def skill_to_dict_def dget_or_def)
  then show ?thesis using assms by (simp add: get_skill_def iter_search_def load_dir_def List.map_filter_simps)
qed

text \<open>C30: A user without a tenant shares his directory with the tenant of his name: what he saves as his own skill is copied
  into the shared skills of that tenant the first time one of its users opens the store, and found by all of them.\<close>

theorem tenantless_skill_leaks:
  assumes "canonical base" "segment_ok acme" "segment_ok bob" "CHR ''/'' \<notin> set (sd_name k)"
  shows "\<exists>r1 s1 s2 r2 s3.
    open_store base None [] acme [] \<lparr>sk_files = [], sk_dirs = [base]\<rparr> = (Inr r1, s1) \<and> sr_write_scope r1 = ''user'' \<and>
    save_skill r1 k s1 = (Inr (), s2) \<and>
    open_store base None acme bob [] s2 = (Inr r2, s3) \<and>
    get_skill r2 s3 (sd_name k) = Some (k\<lparr>sd_scope := ''tenant''\<rparr>)"
proof -
  let ?own = "child base acme" and ?w = "sd_name k @ skill_ext" and ?d = "skill_to_dict k"
  let ?shared = "child ?own shared_dir" and ?bob = "child ?own bob"
  note a = segment_plain [OF assms(2)] and b = segment_plain [OF assms(3)]
  define s0 :: skill_fs where "s0 = \<lparr>sk_files = [], sk_dirs = [base]\<rparr>"
  define r1 where "r1 = \<lparr>sr_write = ?own, sr_search = [(?own, ''user''), (child base shared_dir, ''tenant''),
    (child base shared_dir, ''shared'')], sr_write_scope = ''user''\<rparr>"
  define s1 where "s1 = make_dirs ?own s0"
  define s2 where "s2 = put_file (child ?own ?w) (Some ?d) s1"
  define r2 where "r2 = \<lparr>sr_write = ?bob, sr_search = [(?bob, ''user''), (?shared, ''tenant''),
    (child base shared_dir, ''shared'')], sr_write_scope = ''user''\<rparr>"
  define s3 where "s3 = make_dirs ?bob (put_file (child ?shared ?w) (Some ?d) (make_dirs ?shared s2))"
  have none: "safe_segment [] label = Inr []" for label by (simp add: safe_segment_def py_strip_def py_lstrip_def)
  have f0: "skill_files s0 d = []" for d by (simp add: skill_files_def dir_files_def s0_def)
  have "open_store base None [] acme [] s0 = (Inr r1, s1)"
    using a by (simp add: open_store_def resolve_skill_roots_def none safe_segment_ok assms(2) migrate_legacy_def
        migrate_tenant_def f0 join_Nil join_child r1_def s1_def Let_def)
  moreover have "save_skill r1 k s1 = (Inr (), s2)"
  proof -
    have "canonical ?own" using canonical_join [OF assms(1)] a by (metis join_child)
    then have "norm_path (skill_path r1 (sd_name k)) = child ?own ?w"
      using skill_path_child [of r1 "sd_name k"] assms(4) by (simp add: r1_def)
    then show ?thesis by (simp add: save_skill_def s1_def make_dirs_is_dir s2_def)
  qed
  moreover have files2: "sk_files s2 = [(child ?own ?w, Some ?d)]"
    by (simp add: s2_def put_file_def s1_def make_dirs_is_dir s0_def)
  have own2: "is_dir s2 ?own" by (simp add: s2_def put_file_def is_dir_def s1_def make_dirs_def)
  have p: "p_parts (child d w) \<noteq> []" "last (p_parts (child d w)) = w" for d :: ppath and w by (simp_all add: child_def)
  have f2: "skill_files s2 d = (if d = ?own then [(?w, Some ?d)] else [])" for d
    using p by (simp add: skill_files_def dir_files_def files2)
  have "open_store base None acme bob [] s2 = (Inr r2, s3)"
    using a b own2 child_distinct child_distinct [symmetric]
    by (simp add: open_store_def resolve_skill_roots_def safe_segment_ok assms(2,3) migrate_legacy_def migrate_tenant_def f2
        join_child copy_files_def r2_def s3_def Let_def)
  moreover have "get_skill r2 s3 (sd_name k) = Some (k\<lparr>sd_scope := ''tenant''\<rparr>)"
  proof (rule shared_copy_is_found)
    have files3: "sk_files s3 = [(child ?own ?w, Some ?d), (child ?shared ?w, Some ?d)]"
      by (simp add: s3_def put_file_def make_dirs_is_dir files2 child_eq child_distinct(1) [symmetric])
    have "skill_files s3 d = (if d = ?own \<or> d = ?shared then [(?w, Some ?d)] else [])" for d
      using p child_distinct(1) [of ?own shared_dir] by (auto simp: skill_files_def dir_files_def files3)
    then show "skill_files s3 ?bob = []" "skill_files s3 ?shared = [(?w, Some ?d)]" using b child_distinct by simp_all
    show "is_dir s3 ?shared" by (simp add: s3_def make_dirs_is_dir put_file_def is_dir_def make_dirs_def)
  qed (simp add: r2_def)
  ultimately show ?thesis unfolding s0_def [symmetric] by (auto simp: r1_def)
qed

theorem tenantless_skill_leaks_witness:
  "\<exists>r1 s1 s2 r2 s3.
    open_store demo_base None [] ''acme'' [] \<lparr>sk_files = [], sk_dirs = [demo_base]\<rparr> = (Inr r1, s1) \<and> sr_write_scope r1 = ''user'' \<and>
    save_skill r1 demo_skill s1 = (Inr (), s2) \<and>
    open_store demo_base None ''acme'' ''bob'' [] s2 = (Inr r2, s3) \<and>
    get_skill r2 s3 (sd_name demo_skill) = Some (demo_skill\<lparr>sd_scope := ''tenant''\<rparr>)"
  by (rule tenantless_skill_leaks)
    (simp_all add: demo_base_def demo_skill_def canonical_def wf_path_def part_ok_def segment_ok_def segment_start_def segment_char_def)

end
