(* ===== verification/ContextWindow.thy ===== *)
theory ContextWindow
  imports Compaction MemoryProps
begin

text \<open>
  The window of a conversation, \<^verbatim>\<open>app/context/manager.py\<close>: the estimate of tokens, the trimming to a budget and
  the compression with a summary, which is made by a model, tried twice, or taken from the texts. What was
  compressed in the degraded mode is handed to the summaries of the memory by a task of its own; here the
  messages of that task are the second result of a compression. The gateway and the memory are arguments.
\<close>

section \<open>Tokens\<close>

definition system_overhead :: int where
  "system_overhead = 4"

text \<open>\<open>math.ceil(a / 4) + math.ceil(b / 2)\<close> over the characters in and outside ASCII.\<close>

definition count_tokens :: "string \<Rightarrow> int" where
  "count_tokens text =
     (if text = [] then 0
      else let a = int (length (filter (\<lambda>c. (of_char c :: nat) < 128) text));
               b = int (length (filter (\<lambda>c. \<not> (of_char c :: nat) < 128) text));
               tokens = (a + 3) div 4 + (b + 1) div 2
           in if py_strip text \<noteq> [] then max tokens 1 else 0)"

text \<open>The same of any value: what is not a text raises while it is iterated, or has no \<open>strip\<close>.\<close>

fun single_char :: "pyval \<Rightarrow> bool" where
  "single_char (PStr [c]) = True"
| "single_char v = False"

definition count_value :: "pyval \<Rightarrow> int res" where
  "count_value v =
     (if \<not> truthy v then Inr 0
      else case v of
             PStr s \<Rightarrow> Inr (count_tokens s)
           | _ \<Rightarrow> bind_res (py_iter v) (\<lambda>xs. Inl (if list_all single_char xs then AttributeError else TypeError)))"

definition part_tokens :: "pyval \<Rightarrow> int res" where
  "part_tokens p =
     (case p of
        PDict d \<Rightarrow> if mget d ''type'' = PStr ''text'' then count_value (dget_or d ''text'' (PStr [])) else Inr 0
      | PStr s \<Rightarrow> Inr (count_tokens s)
      | _ \<Rightarrow> Inr 0)"

definition content_tokens :: "pyval \<Rightarrow> int res" where
  "content_tokens v =
     (case v of
        PStr s \<Rightarrow> Inr (count_tokens s)
      | PList ps \<Rightarrow> bind_res (map_res part_tokens ps) (\<lambda>ns. Inr (sum_list ns))
      | _ \<Rightarrow> Inr 0)"

definition call_tokens :: "pyval \<Rightarrow> int" where
  "call_tokens c =
     (case c of
        PDict d \<Rightarrow> (case dget_or d ''arguments'' (PStr []) of PStr s \<Rightarrow> count_tokens s | _ \<Rightarrow> 0)
      | _ \<Rightarrow> 0)"

definition message_tokens :: "pydict \<Rightarrow> int res" where
  "message_tokens m =
     bind_res (content_tokens (dget_or m ''content'' (PStr []))) (\<lambda>n.
     bind_res (if truthy (mget m ''tool_calls'') then py_iter (mget m ''tool_calls'') else Inr []) (\<lambda>cs.
       Inr (system_overhead + n + sum_list (map call_tokens cs))))"

definition count_message_tokens :: "pydict list \<Rightarrow> int res" where
  "count_message_tokens ms = bind_res (map_res message_tokens ms) (\<lambda>ns. Inr (sum_list ns))"

section \<open>Trimming\<close>

text \<open>The first system message, and all others in their order.\<close>

fun split_system :: "pydict list \<Rightarrow> pydict list \<times> pydict list" where
  "split_system [] = ([], [])"
| "split_system (m # ms) = (if is_system m then ([m], ms) else let (sys, rest) = split_system ms in (sys, m # rest))"

text \<open>From the last message backwards; one is always kept.\<close>

fun keep_recent :: "int \<Rightarrow> int \<Rightarrow> pydict list \<Rightarrow> pydict list \<Rightarrow> pydict list res" where
  "keep_recent room used kept [] = Inr kept"
| "keep_recent room used kept (m # ms) =
     bind_res (message_tokens m) (\<lambda>n.
       if used + n > room \<and> kept \<noteq> [] then Inr kept else keep_recent room (used + n) (m # kept) ms)"

definition trim_to_fit :: "int \<Rightarrow> int option \<Rightarrow> pydict list \<Rightarrow> pydict list res" where
  "trim_to_fit own max_tokens ms =
     (let budget = (case max_tokens of None \<Rightarrow> own | Some n \<Rightarrow> n)
      in bind_res (count_message_tokens ms) (\<lambda>n.
           if n \<le> budget then Inr ms
           else let (sys, others) = split_system ms
                in bind_res (count_message_tokens sys) (\<lambda>k.
                   bind_res (keep_recent (budget - k) 0 [] (rev others)) (\<lambda>kept. Inr (sys @ kept)))))"

section \<open>Summaries\<close>

definition extractive_line :: "(pyfloat \<Rightarrow> string) \<Rightarrow> pydict \<Rightarrow> string option" where
  "extractive_line fl m =
     (case dget_or m ''content'' (PStr []) of
        PStr c \<Rightarrow>
          (if py_strip c \<noteq> []
           then Some (''['' @ py_str fl (dget_or m ''role'' (PStr ''user'')) @ '']: '' @ one_line (take 150 c)
             @ (if length c > 150 then ''...'' else []))
           else None)
      | _ \<Rightarrow> None)"

definition extractive_summary :: "(pyfloat \<Rightarrow> string) \<Rightarrow> pydict list \<Rightarrow> string" where
  "extractive_summary fl ms =
     (let parts = List.map_filter (extractive_line fl) ms
      in if parts \<noteq> [] then py_join [CHR 0x0A] parts else ''(no content to summarise)'')"

text \<open>The gateway answers a prompt with the content of its response.\<close>

type_synonym 's gateway = "pydict list \<Rightarrow> ('s, string) io"

definition compressor_prompt :: string where
  "compressor_prompt = ''You are a context compressor. Summarise the following conversation '' @
     ''messages concisely, preserving all key facts, decisions, and context '' @
     ''needed to continue the conversation. Reply with the summary only.''"

definition summary_prompt :: "(pyfloat \<Rightarrow> string) \<Rightarrow> pydict list \<Rightarrow> pydict list" where
  "summary_prompt fl ms =
     [[(''role'', PStr ''system''), (''content'', PStr compressor_prompt)],
      [(''role'', PStr ''user''),
       (''content'', PStr (py_join [CHR 0x0A]
          (map (\<lambda>m. ''['' @ py_str fl (dget_or m ''role'' (PStr ''user'')) @ '']: '' @ str_of (mget m ''content''))
            (filter (\<lambda>m. is_str (mget m ''content'')) ms))))]]"

definition llm_summarise :: "(pyfloat \<Rightarrow> string) \<Rightarrow> 's gateway \<Rightarrow> pydict list \<Rightarrow> ('s, string) io" where
  "llm_summarise fl g ms =
     io_bind (g (summary_prompt fl ms)) (\<lambda>content.
       io_return (if content \<noteq> [] then content else ''(summary generation produced no content)''))"

definition summarise_messages :: "(pyfloat \<Rightarrow> string) \<Rightarrow> 's gateway option \<Rightarrow> pydict list \<Rightarrow> ('s, string) io" where
  "summarise_messages fl gateway ms =
     (case gateway of
        None \<Rightarrow> io_return (extract_summary fl ms)
      | Some g \<Rightarrow> io_try (llm_summarise fl g ms) (\<lambda>e. io_return (extract_summary fl ms)))"

text \<open>Up to \<open>n\<close> attempts; no text when all of them fail.\<close>

fun attempts :: "nat \<Rightarrow> (pyfloat \<Rightarrow> string) \<Rightarrow> 's gateway \<Rightarrow> pydict list \<Rightarrow> ('s, string) io" where
  "attempts 0 fl g ms = io_return []"
| "attempts (Suc n) fl g ms = io_try (llm_summarise fl g ms) (\<lambda>e. attempts n fl g ms)"

section \<open>Compression\<close>

record window_config =
  wc_max :: int
  wc_threshold :: pyfloat

definition degraded_mark :: string where
  "degraded_mark = ''[DEGRADED MODE - extractive summary]'' @ [CHR 0x0A, CHR 0x0A]"

definition summary_message :: "bool \<Rightarrow> string \<Rightarrow> pydict" where
  "summary_message degraded text =
     [(''role'', PStr ''system''),
      (''content'', PStr (''[Context Summary]'' @ [CHR 0x0A] @
         ''The following is a compressed summary of earlier conversation messages '' @
         ''that were removed to stay within the context window.'' @ [CHR 0x0A, CHR 0x0A] @
         (if degraded then degraded_mark else []) @ text))]"

definition tail_length :: "nat \<Rightarrow> nat" where
  "tail_length n = max 4 (n div 3)"

definition compress_window ::
  "window_config \<Rightarrow> (pyfloat \<Rightarrow> string) \<Rightarrow> 's gateway option \<Rightarrow> bool \<Rightarrow> pydict list \<Rightarrow> ('s, pydict list \<times> pydict list option) io"
where
  "compress_window cfg fl gateway has_memory ms =
     io_bind (io_res (count_message_tokens ms)) (\<lambda>total.
       if total \<le> py_trunc (of_int (wc_max cfg) * wc_threshold cfg) then io_return (ms, None)
       else
         let (sys, others) = split_system ms; keep = tail_length (length others)
         in if length others \<le> keep then io_return (ms, None)
            else
              let middle = take (length others - keep) others; recent = drop (length others - keep) others
              in io_bind (case gateway of None \<Rightarrow> io_return [] | Some g \<Rightarrow> attempts 2 fl g middle) (\<lambda>text.
                 let degraded = (text = []);
                     content = (if degraded then extractive_summary fl middle else text);
                     compressed = sys @ [summary_message degraded content] @ recent
                 in io_bind (io_res (count_message_tokens compressed)) (\<lambda>n.
                    io_bind (if n > wc_max cfg then io_res (trim_to_fit (wc_max cfg) None compressed) else io_return compressed) (\<lambda>result.
                      io_return (result, if (degraded \<or> n > wc_max cfg) \<and> has_memory then Some middle else None)))))"

section \<open>Handing over to the memory\<close>

text \<open>A memory takes tenant, user, text and topics.\<close>

type_synonym 's summary_sink = "pyval \<Rightarrow> pyval \<Rightarrow> string \<Rightarrow> pyval \<Rightarrow> ('s, string option) io"

definition is_turn :: "pydict \<Rightarrow> bool" where
  "is_turn m \<longleftrightarrow> mget m ''role'' \<in> {PStr ''user'', PStr ''assistant''} \<and> truthy (mget m ''content'')"

definition scope_of :: "pydict list \<Rightarrow> pyval \<times> pyval" where
  "scope_of ms =
     (case find (\<lambda>(t, u). truthy t \<and> truthy u)
         (map (\<lambda>m. (dget_or m ''tenant_id'' (PStr ''default''), dget_or m ''user_id'' (PStr ''unknown''))) ms) of
        Some p \<Rightarrow> p
      | None \<Rightarrow> (PStr ''default'', PStr ''unknown''))"

text \<open>\<open>content[:200]\<close> in an f-string.\<close>

definition content_head :: "(pyfloat \<Rightarrow> string) \<Rightarrow> pyval \<Rightarrow> string res" where
  "content_head fl v =
     (case v of PStr s \<Rightarrow> Inr (take 200 s) | PList xs \<Rightarrow> Inr (py_str fl (PList (take 200 xs))) | _ \<Rightarrow> Inl TypeError)"

definition turn_line :: "(pyfloat \<Rightarrow> string) \<Rightarrow> pydict \<Rightarrow> string res" where
  "turn_line fl m =
     bind_res (content_head fl (dget_or m ''content'' (PStr []))) (\<lambda>s.
       Inr (''['' @ py_str fl (dget_or m ''role'' (PStr ''user'')) @ '']: '' @ s))"

definition submit_degraded :: "(pyfloat \<Rightarrow> string) \<Rightarrow> 's summary_sink \<Rightarrow> pydict list \<Rightarrow> ('s, unit) io" where
  "submit_degraded fl memory ms =
     io_try
       (let turns = filter is_turn ms
        in if turns = [] then io_return ()
           else case scope_of turns of (tenant, user) \<Rightarrow>
             io_bind (io_res (map_res (turn_line fl) turns)) (\<lambda>ls.
             io_bind (memory tenant user (py_join [CHR 0x0A] ls) (PList [PStr ''degraded_compaction''])) (\<lambda>r. io_return ())))
       (\<lambda>e. io_return ())"

section \<open>What is kept\<close>

definition cost :: "pydict \<Rightarrow> int" where
  "cost m = (case message_tokens m of Inl e \<Rightarrow> 0 | Inr n \<Rightarrow> n)"

abbreviation costs :: "pydict list \<Rightarrow> int" where
  "costs ms \<equiv> sum_list (map cost ms)"

definition countable_msg :: "pydict \<Rightarrow> bool" where
  "countable_msg m \<longleftrightarrow> (\<exists>n. message_tokens m = Inr n)"

lemma message_tokens_cost: "countable_msg m \<Longrightarrow> message_tokens m = Inr (cost m)"
  by (auto simp: countable_msg_def cost_def)

lemma map_res_ok: "map_res f xs = Inr ys \<Longrightarrow> x \<in> set xs \<Longrightarrow> \<exists>y \<in> set ys. f x = Inr y"
  by (induction xs arbitrary: ys) (auto simp: bind_res_Inr)

lemma map_res_members: "map_res f xs = Inr ys \<Longrightarrow> y \<in> set ys \<Longrightarrow> \<exists>x \<in> set xs. f x = Inr y"
  by (induction xs arbitrary: ys) (auto simp: bind_res_Inr)

lemma count_messages: "count_message_tokens ms = Inr n \<longleftrightarrow> list_all countable_msg ms \<and> n = costs ms"
proof
  assume "count_message_tokens ms = Inr n"
  then obtain ns where ns: "map_res message_tokens ms = Inr ns" "n = sum_list ns"
    by (auto simp: count_message_tokens_def bind_res_Inr)
  then have ok: "list_all countable_msg ms" by (auto simp: list_all_iff countable_msg_def dest: map_res_ok)
  with ns show "list_all countable_msg ms \<and> n = costs ms"
    using map_res_Inr [of ms message_tokens cost] by (auto simp: list_all_iff message_tokens_cost)
next
  assume "list_all countable_msg ms \<and> n = costs ms"
  then show "count_message_tokens ms = Inr n"
    using map_res_Inr [of ms message_tokens cost] by (auto simp: list_all_iff message_tokens_cost count_message_tokens_def)
qed

lemma count_tokens_nonneg [simp]: "0 \<le> count_tokens s"
  by (auto simp: count_tokens_def Let_def le_max_iff_disj)

lemma count_value_nonneg: "count_value v = Inr n \<Longrightarrow> 0 \<le> n"
  by (cases v) (auto simp: count_value_def bind_res_Inr split: if_splits)

lemma part_tokens_nonneg: "part_tokens p = Inr n \<Longrightarrow> 0 \<le> n"
  by (cases p) (auto simp: part_tokens_def count_value_nonneg split: if_splits)

lemma content_tokens_nonneg: "content_tokens v = Inr n \<Longrightarrow> 0 \<le> n"
proof (cases v)
  case (PList ps)
  assume "content_tokens v = Inr n"
  then obtain ns where "map_res part_tokens ps = Inr ns" "n = sum_list ns"
    by (auto simp: content_tokens_def PList bind_res_Inr)
  then show ?thesis using map_res_members part_tokens_nonneg by (fastforce intro!: sum_list_nonneg)
qed (auto simp: content_tokens_def)

lemma call_tokens_nonneg [simp]: "0 \<le> call_tokens c"
  by (simp add: call_tokens_def split: pyval.split)

lemma cost_pos: "countable_msg m \<Longrightarrow> 0 < cost m"
proof -
  assume "countable_msg m"
  then obtain n where n: "message_tokens m = Inr n" by (auto simp: countable_msg_def)
  then obtain k cs where k: "content_tokens (dget_or m ''content'' (PStr [])) = Inr k"
      "n = system_overhead + k + sum_list (map call_tokens cs)"
    by (auto simp: message_tokens_def bind_res_Inr)
  moreover have "0 \<le> sum_list (map call_tokens cs)" by (rule sum_list_nonneg) auto
  ultimately have "0 < n" using content_tokens_nonneg [OF k(1)] by (simp add: system_overhead_def)
  with n show "0 < cost m" by (simp add: cost_def)
qed

lemma split_system_ok:
  "split_system ms = (sys, others) \<Longrightarrow> list_all P ms \<longleftrightarrow> list_all P sys \<and> list_all P others"
  by (induction ms arbitrary: sys others) (auto split: if_splits prod.splits)

lemma split_system_costs: "split_system ms = (sys, others) \<Longrightarrow> costs ms = costs sys + costs others"
  by (induction ms arbitrary: sys others) (auto split: if_splits prod.splits)

lemma keep_recent_spec:
  assumes "list_all countable_msg ms"
  shows "\<exists>k \<le> length ms. keep_recent room used kept ms = Inr (rev (take k ms) @ kept) \<and>
    (k < length ms \<longrightarrow> room < used + costs (take (Suc k) ms)) \<and>
    (kept \<noteq> [] \<longrightarrow> k = 0 \<or> used + costs (take k ms) \<le> room) \<and>
    (kept = [] \<longrightarrow> ms \<noteq> [] \<longrightarrow> k \<noteq> 0 \<and> (k = 1 \<or> used + costs (take k ms) \<le> room))"
  using assms
proof (induction ms arbitrary: used kept)
  case (Cons m ms)
  have m: "message_tokens m = Inr (cost m)" using Cons.prems message_tokens_cost by simp
  show ?case
  proof (cases "used + cost m > room \<and> kept \<noteq> []")
    case True
    then show ?thesis using m by (intro exI [of _ 0]) simp
  next
    case False
    obtain k where k: "k \<le> length ms" "keep_recent room (used + cost m) (m # kept) ms = Inr (rev (take k ms) @ m # kept)"
      "k < length ms \<longrightarrow> room < used + cost m + costs (take (Suc k) ms)" "k = 0 \<or> used + cost m + costs (take k ms) \<le> room"
      using Cons.IH [of "used + cost m" "m # kept"] Cons.prems by auto
    then show ?thesis using m False by (intro exI [of _ "Suc k"]) (auto simp: algebra_simps)
  qed
qed simp

definition fits :: "int \<Rightarrow> pydict list \<Rightarrow> bool" where
  "fits budget ms \<longleftrightarrow> (\<exists>n. count_message_tokens ms = Inr n \<and> n \<le> budget)"

lemma fits_iff: "fits budget ms \<longleftrightarrow> list_all countable_msg ms \<and> costs ms \<le> budget"
  by (auto simp: fits_def count_messages)

lemma costs_mono: "list_all countable_msg ms \<Longrightarrow> i \<le> j \<Longrightarrow> costs (drop j ms) \<le> costs (drop i ms)"
proof -
  assume ok: "list_all countable_msg ms" and "i \<le> j"
  then have "drop i ms = take (j - i) (drop i ms) @ drop j ms" by (metis append_take_drop_id drop_drop le_add_diff_inverse2)
  moreover have "0 \<le> costs (take (j - i) (drop i ms))"
  proof (rule sum_list_nonneg)
    fix x assume "x \<in> set (map cost (take (j - i) (drop i ms)))"
    then obtain m where "m \<in> set ms" "x = cost m" by (auto dest: in_set_takeD in_set_dropD)
    with ok show "0 \<le> x" using cost_pos [of m] by (simp add: list_all_iff)
  qed
  ultimately show ?thesis using arg_cong [of "drop i ms" _ costs] by (metis le_add_same_cancel2 map_append sum_list_append)
qed

lemma costs_rev: "costs (rev ms) = costs ms"
  by (induction ms) simp_all

lemma trim_longest:
  assumes "trim_to_fit own budget ms = Inr r" "split_system ms = (sys, others)" "others \<noteq> []"
    and "b = (case budget of None \<Rightarrow> own | Some n \<Rightarrow> n)"
  shows "if fits b ms then r = ms
    else \<exists>k < length others. r = sys @ drop k others \<and> (\<forall>j < k. \<not> fits b (sys @ drop j others)) \<and>
      (fits b r \<or> Suc k = length others)"
proof -
  obtain n where n: "count_message_tokens ms = Inr n" using assms(1) by (auto simp: trim_to_fit_def Let_def bind_res_Inr)
  then have all: "list_all countable_msg ms" "n = costs ms" using count_messages by auto
  then have ok: "list_all countable_msg sys" "list_all countable_msg others" using split_system_ok [OF assms(2)] by auto
  show ?thesis
  proof (cases "fits b ms")
    case True
    then show ?thesis using assms(1,4) all n by (auto simp: trim_to_fit_def Let_def fits_iff)
  next
    case False
    let ?room = "b - costs sys"
    have sys: "count_message_tokens sys = Inr (costs sys)" using ok count_messages by simp
    obtain k where k: "k \<le> length others" "keep_recent ?room 0 [] (rev others) = Inr (rev (take k (rev others)))"
      "k < length others \<longrightarrow> ?room < costs (take (Suc k) (rev others))"
      "k \<noteq> 0" "k = 1 \<or> costs (take k (rev others)) \<le> ?room"
      using keep_recent_spec [of "rev others" ?room 0 "[]"] ok assms(3) by auto
    have ends: "rev (take i (rev others)) = drop (length others - i) others" for i by (simp add: take_rev)
    have ends_cost: "costs (take i (rev others)) = costs (drop (length others - i) others)" for i
      by (metis costs_rev ends)
    have r: "r = sys @ drop (length others - k) others"
      using assms(1,2,4) n False all sys k(2) ends by (auto simp: trim_to_fit_def Let_def fits_iff)
    have "\<not> fits b (sys @ drop j others)" if "j < length others - k" for j
    proof -
      have "?room < costs (drop (length others - Suc k) others)" using k(3) that by (simp add: ends_cost)
      also have "\<dots> \<le> costs (drop j others)" using costs_mono [OF ok(2)] that by simp
      finally show ?thesis by (simp add: fits_iff)
    qed
    moreover have "fits b r \<or> k = 1"
      using k(5) ok r by (auto simp: fits_iff ends_cost list_all_iff dest: in_set_dropD)
    ultimately show ?thesis using False r k(1,4) assms(3)
      by (auto intro!: exI [of _ "length others - k"] simp: Suc_diff_Suc)
  qed
qed

text \<open>C29: Trimming keeps the first system message and the longest end of the other messages that fits with it into the
  budget; the last message is kept even when it does not fit, and then the result is over the budget.\<close>

theorem trim_keeps_longest_end:
  assumes "trim_to_fit own budget ms = Inr r" "split_system ms = (sys, others)" "others \<noteq> []"
    and "b = (case budget of None \<Rightarrow> own | Some n \<Rightarrow> n)"
  shows "if fits b ms then r = ms
    else \<exists>k < length others. r = sys @ drop k others \<and> (\<forall>j < k. \<not> fits b (sys @ drop j others)) \<and>
      (fits b r \<or> Suc k = length others)"
  using assms by (rule trim_longest)

definition demo_message :: "string \<Rightarrow> string \<Rightarrow> pydict" where
  "demo_message role content = [(''role'', PStr role), (''content'', PStr content)]"

definition demo_messages :: "nat \<Rightarrow> pydict list" where
  "demo_messages n = demo_message ''system'' ''abcd'' # replicate n (demo_message ''user'' ''abcd'')"

lemma demo_costs [simp]: "message_tokens (demo_message r ''abcd'') = Inr 5"
  by (simp add: demo_message_def message_tokens_def content_tokens_def dget_or_def count_tokens_def system_overhead_def
      py_strip_def py_lstrip_def is_space_def)

lemma demo_role [simp]: "is_system (demo_message r c) \<longleftrightarrow> r = ''system''"
  by (simp add: demo_message_def is_system_def dget_or_def)

lemma demo_split [simp]: "split_system (demo_messages n) = ([demo_message ''system'' ''abcd''], replicate n (demo_message ''user'' ''abcd''))"
  by (simp add: demo_messages_def)

lemma trim_demo:
  "trim_to_fit 0 (Some 12) (demo_messages 3) = Inr [demo_message ''system'' ''abcd'', demo_message ''user'' ''abcd'']"
  unfolding trim_to_fit_def demo_split by (simp add: demo_messages_def count_message_tokens_def numeral_3_eq_3)

theorem trim_keeps_longest_end_witness:
  "if fits 12 (demo_messages 3) then [demo_message ''system'' ''abcd'', demo_message ''user'' ''abcd''] = demo_messages 3
   else \<exists>k < length (replicate 3 (demo_message ''user'' ''abcd'')).
     [demo_message ''system'' ''abcd'', demo_message ''user'' ''abcd''] =
       [demo_message ''system'' ''abcd''] @ drop k (replicate 3 (demo_message ''user'' ''abcd'')) \<and>
     (\<forall>j < k. \<not> fits 12 ([demo_message ''system'' ''abcd''] @ drop j (replicate 3 (demo_message ''user'' ''abcd'')))) \<and>
     (fits 12 [demo_message ''system'' ''abcd'', demo_message ''user'' ''abcd''] \<or>
      Suc k = length (replicate 3 (demo_message ''user'' ''abcd'')))"
  by (rule trim_keeps_longest_end [OF trim_demo demo_split]) simp_all

section \<open>What a compression does\<close>

lemma split_system_first: "split_system ms = ([p], others) \<Longrightarrow> is_system p"
  by (induction ms arbitrary: others) (auto split: if_splits prod.splits)

lemma compress_end:
  "io_bind (io_res (count_message_tokens c)) (\<lambda>n. io_bind (if n > b then io_res (trim_to_fit b None c) else io_return c)
     (\<lambda>result. io_return (result, f n))) s = (Inr (r, d), s1) \<Longrightarrow>
   if fits b c then r = c else trim_to_fit b None c = Inr r"
  by (auto simp: io_bind_run io_res_def fits_def split: if_splits sum.splits)

text \<open>A compression leaves the messages alone or keeps the system message and the end of the others, a third of them
  and at least four, with a summary between. When this is over the window, the summary is the first message that goes:
  what it stood for is lost although it was just made.\<close>

theorem compression_loses_its_summary:
  assumes "compress_window cfg fl gateway has_memory ms s = (Inr (r, degraded), s1)" "split_system ms = ([p], others)"
  shows "r = ms \<or>
    (\<exists>mark body. let recent = drop (length others - tail_length (length others)) others; m = summary_message mark body
       in if fits (wc_max cfg) (p # m # recent) then r = p # m # recent
          else \<exists>k < length recent. r = p # drop k recent)"
proof (cases "r = ms")
  case False
  let ?keep = "tail_length (length others)"
  let ?recent = "drop (length others - ?keep) others"
  let ?middle = "take (length others - ?keep) others"
  from False assms obtain out s' where out: "?keep < length others"
    "(case gateway of None \<Rightarrow> io_return [] | Some g \<Rightarrow> attempts 2 fl g ?middle) s = (Inr out, s')"
    "io_bind (io_res (count_message_tokens (p # summary_message (out = []) (if out = [] then extractive_summary fl ?middle else out) # ?recent)))
       (\<lambda>n. io_bind (if n > wc_max cfg
            then io_res (trim_to_fit (wc_max cfg) None (p # summary_message (out = []) (if out = [] then extractive_summary fl ?middle else out) # ?recent))
            else io_return (p # summary_message (out = []) (if out = [] then extractive_summary fl ?middle else out) # ?recent))
          (\<lambda>result. io_return (result, if (out = [] \<or> n > wc_max cfg) \<and> has_memory then Some ?middle else None))) s' =
     (Inr (r, degraded), s1)"
    by (cases "count_message_tokens ms";
        cases "(case gateway of None \<Rightarrow> io_return [] | Some g \<Rightarrow> attempts 2 fl g ?middle) s";
        cases "fst ((case gateway of None \<Rightarrow> io_return [] | Some g \<Rightarrow> attempts 2 fl g ?middle) s)")
      (simp_all add: compress_window_def io_bind_run Let_def split: if_splits)
  define mark body where "mark = (out = [])" and "body = (if out = [] then extractive_summary fl ?middle else out)"
  have d: "?keep < length others"
    "if fits (wc_max cfg) (p # summary_message mark body # ?recent) then r = p # summary_message mark body # ?recent
     else trim_to_fit (wc_max cfg) None (p # summary_message mark body # ?recent) = Inr r"
    using out(1) compress_end [OF out(3)] unfolding body_def [symmetric]
    unfolding mark_def [symmetric] by auto
  let ?m = "summary_message mark body"
  have "\<exists>k < length ?recent. r = p # drop k ?recent" if over: "\<not> fits (wc_max cfg) (p # ?m # ?recent)"
  proof -
    have split: "split_system (p # ?m # ?recent) = ([p], ?m # ?recent)" using split_system_first [OF assms(2)] by simp
    have t: "trim_to_fit (wc_max cfg) None (p # ?m # ?recent) = Inr r" using d(2) over by simp
    obtain k where k: "k < length (?m # ?recent)" "r = [p] @ drop k (?m # ?recent)"
      "fits (wc_max cfg) r \<or> Suc k = length (?m # ?recent)"
      using trim_longest [OF t split _ refl] over by fastforce
    have "4 \<le> length ?recent" using d(1) by (simp add: tail_length_def)
    then have "k \<noteq> 0" using k over by (cases k) auto
    then show ?thesis using k by (cases k) auto
  qed
  with d(2) show ?thesis unfolding Let_def by (metis (no_types))
qed simp

definition demo_window :: window_config where
  "demo_window = \<lparr>wc_max = 40, wc_threshold = 1 / 2\<rparr>"

definition demo_fl :: "pyfloat \<Rightarrow> string" where
  "demo_fl x = []"

lemma demo_compressed:
  "fst (compress_window demo_window demo_fl (None :: unit gateway option) True (demo_messages 6) ()) =
     Inr (demo_message ''system'' ''abcd'' # replicate 4 (demo_message ''user'' ''abcd''),
          Some (replicate 2 (demo_message ''user'' ''abcd'')))"
  by code_simp

theorem compression_loses_its_summary_witness:
  "demo_message ''system'' ''abcd'' # replicate 4 (demo_message ''user'' ''abcd'') = demo_messages 6 \<or>
    (\<exists>mark body. let recent = drop (length (replicate 6 (demo_message ''user'' ''abcd'')) - tail_length (length (replicate 6 (demo_message ''user'' ''abcd''))))
           (replicate 6 (demo_message ''user'' ''abcd'')); m = summary_message mark body
       in if fits (wc_max demo_window) (demo_message ''system'' ''abcd'' # m # recent)
          then demo_message ''system'' ''abcd'' # replicate 4 (demo_message ''user'' ''abcd'') = demo_message ''system'' ''abcd'' # m # recent
          else \<exists>k < length recent. demo_message ''system'' ''abcd'' # replicate 4 (demo_message ''user'' ''abcd'') =
            demo_message ''system'' ''abcd'' # drop k recent)"
  by (rule compression_loses_its_summary [where cfg = demo_window and fl = demo_fl and gateway = "None :: unit gateway option" and s = "()"
        and has_memory = True and ?s1.0 = "()" and degraded = "Some (replicate 2 (demo_message ''user'' ''abcd''))"])
    (use demo_compressed in \<open>simp_all add: prod_eq_iff\<close>)

section \<open>The memory gets it under nobody's name\<close>

lemma save_memory_summary_rows:
  "sv_sums (snd (save_memory_summary env i tenant user sid content topics ents s)) = sv_sums s \<or>
   (\<exists>r. sv_sums (snd (save_memory_summary env i tenant user sid content topics ents s)) = sv_sums s @ [r] \<and>
      su_tenant r = tenant \<and> su_user r = user \<and> su_content r = content)"
proof -
  have "sv_sums (snd (on_sums (save_summary st i tenant user sid content ts es 0 0) s)) = sv_sums s \<or>
      (\<exists>r. sv_sums (snd (on_sums (save_summary st i tenant user sid content ts es 0 0) s)) = sv_sums s @ [r] \<and>
        su_tenant r = tenant \<and> su_user r = user \<and> su_content r = content)" for st ts es
    by (simp add: on_sums_def io_on_run save_summary_rows)
  then show ?thesis by (auto simp: save_memory_summary_def io_try_run split: option.split sum.split)
qed

lemma nobody: "list_all (\<lambda>m. dget m ''tenant_id'' = None \<and> dget m ''user_id'' = None) ms \<Longrightarrow>
    scope_of ms = (PStr ''default'', PStr ''unknown'')"
  by (cases ms) (simp_all add: scope_of_def dget_or_def)

definition memory_sink :: "'w service_env \<Rightarrow> string \<Rightarrow> ('w service_state) summary_sink" where
  "memory_sink env i tenant user content topics =
     save_memory_summary env i (str_of tenant) (str_of user) [] content topics PNone"

text \<open>The messages of a conversation carry neither tenant nor user, so what a degraded compression hands to the memory is
  stored, if at all, for the user \<open>unknown\<close> of the tenant \<open>default\<close>, whoever was speaking: no user gets it back,
  and the texts of all users of all tenants come together there.\<close>

theorem degraded_content_is_nobodys:
  assumes "list_all (\<lambda>m. dget m ''tenant_id'' = None \<and> dget m ''user_id'' = None) ms"
    and "s1 = snd (submit_degraded fl (memory_sink env i) ms s)"
  shows "sv_sums s1 = sv_sums s \<or>
    (\<exists>r. sv_sums s1 = sv_sums s @ [r] \<and> su_tenant r = ''default'' \<and> su_user r = ''unknown'')"
proof -
  have "list_all (\<lambda>m. dget m ''tenant_id'' = None \<and> dget m ''user_id'' = None) (filter is_turn ms)"
    using assms(1) by (simp add: list_all_iff)
  note scope = nobody [OF this]
  show ?thesis
  proof (cases "map_res (turn_line fl) (filter is_turn ms)")
    case (Inl e)
    then show ?thesis using assms(2) by (simp add: submit_degraded_def io_try_run io_bind_run scope Let_def)
  next
    case (Inr ls)
    then show ?thesis
      using assms(2) save_memory_summary_rows [of env i "''default''" "''unknown''" "[]" "py_join [CHR 0x0A] ls" "PList [PStr ''degraded_compaction'']" PNone s]
      by (auto simp: submit_degraded_def io_try_run io_bind_run scope Let_def memory_sink_def split: sum.splits)
  qed
qed


definition demo_service :: "redis_map service_env" where
  "demo_service = map_service\<lparr>sv_store := Some map_env\<rparr>"

theorem degraded_content_is_nobodys_witness:
  "\<exists>r. sv_sums (snd (submit_degraded demo_fl (memory_sink demo_service ''m1'') (demo_messages 2) (ann_state (\<lambda>k. None)))) =
      sv_sums (ann_state (\<lambda>k. None)) @ [r] \<and> su_tenant r = ''default'' \<and> su_user r = ''unknown''"
proof -
  have d: "list_all (\<lambda>m. dget m ''tenant_id'' = None \<and> dget m ''user_id'' = None) (demo_messages 2)"
    by (simp add: demo_messages_def demo_message_def numeral_2_eq_2)
  have "sv_sums (snd (submit_degraded demo_fl (memory_sink demo_service ''m1'') (demo_messages 2) (ann_state (\<lambda>k. None)))) \<noteq>
      sv_sums (ann_state (\<lambda>k. None))"
    by (simp add: submit_degraded_def demo_messages_def demo_message_def numeral_2_eq_2 is_turn_def dget_or_def scope_of_def
        turn_line_def content_head_def io_try_run io_bind_run memory_sink_def save_memory_summary_def demo_service_def
        on_sums_def io_on_run save_summary_rows ann_state_def split: sum.split)
  then show ?thesis using degraded_content_is_nobodys [OF d refl] by blast
qed

end
