(* ===== verification/EngineLoop.thy ===== *)
theory EngineLoop
  imports AgentLoop Conflicts
begin

text \<open>
  The older engine, \<^verbatim>\<open>app/agent/engine.py\<close>: sessions in a table, the prompt with its extras, the window by number of
  messages and of characters, the execution of tools, side by side or after an approval, and the loop itself. Tools
  and the handler of approvals are coroutines: they run up to where they wait, and go on when the world has
  changed; what matters here is that the engine asks for the cancellation of its own task before it starts a
  tool. The model stream, the table's clock, JSON and \<^verbatim>\<open>str.format\<close> are arguments. The reader of the
  events is taken not to wait between two of them.
\<close>

section \<open>Coroutines\<close>

text \<open>What a coroutine does next: it is done, with a value or an exception, or it waits.\<close>

datatype ('w, 'a) step = Done "exn + 'a" | Wait "'w \<Rightarrow> 'w \<times> ('w, 'a) step"

type_synonym ('w, 'a) coroutine = "'w \<Rightarrow> 'w \<times> ('w, 'a) step"

text \<open>A coroutine to its end.\<close>

primrec resume :: "('w, 'a) step \<Rightarrow> 'w \<Rightarrow> (exn + 'a) \<times> 'w" where
  "resume (Done r) = (\<lambda>w. (r, w))"
| "resume (Wait k) = (\<lambda>w. case map_prod id resume (k w) of (w1, f) \<Rightarrow> f w1)"

text \<open>
  How an awaited operation of the loop ends: with a value, with an exception that \<open>except Exception\<close>
  catches, or by the cancellation of the task, which it does not. A state is the world and whether the
  cancellation of the task was asked for.
\<close>

datatype 'a ending = Value 'a | Raised exn | Cancelled

type_synonym ('w, 'a) op = "bool \<times> 'w \<Rightarrow> 'a ending \<times> bool \<times> 'w"

definition await :: "('w, 'a) coroutine \<Rightarrow> ('w, 'a) op" where
  "await c s =
     (case s of (cancel, w) \<Rightarrow>
        case c w of
          (w1, Done (Inl e)) \<Rightarrow> (Raised e, cancel, w1)
        | (w1, Done (Inr x)) \<Rightarrow> (Value x, cancel, w1)
        | (w1, Wait k) \<Rightarrow>
            if cancel then (Cancelled, False, w1)
            else (case resume (Wait k) w1 of
                    (Inl e, w2) \<Rightarrow> (Raised e, False, w2)
                  | (Inr x, w2) \<Rightarrow> (Value x, False, w2)))"

section \<open>Tasks, sessions, environment\<close>

record engine_task =
  gt_id :: string
  gt_tenant :: string
  gt_user :: string
  gt_session :: string
  gt_content :: string
  gt_system :: string
  gt_history :: "pydict list"
  gt_tools :: "pydict list"
  gt_llm :: pydict
  gt_max_turns :: int

datatype engine_event =
    GText string
  | GOutputBlocked
  | GInputBlocked
  | GToolCall pyval string pyval
  | GToolResult pyval string string
  | GDone int int
  | GError exn

record approval_request =
  ar_tool :: string
  ar_arguments :: pyval
  ar_risk :: string
  ar_description :: string

record approval_response =
  ap_approved :: bool
  ap_reason :: string

record engine_session =
  eg_id :: string
  eg_user :: string
  eg_messages :: "pydict list"
  eg_created :: pyfloat
  eg_updated :: pyfloat

text \<open>A row of the table \<^verbatim>\<open>agent_sessions\<close> without its key.\<close>

record session_row =
  sw_user :: string
  sw_messages :: string
  sw_created :: pyfloat
  sw_updated :: pyfloat

type_synonym session_table = "(string, session_row) dict"

text \<open>
  The chunks of a stream come with the exception at its end, the world after each number of chunks and, when the
  stream ever waits, the number of chunks before it first does. A table that is not there has no pool; \<open>en_db\<close> tells
  whether the database answers.
\<close>

record 'w engine_env =
  en_stream :: "string \<Rightarrow> chat_message list \<Rightarrow> pyval \<Rightarrow> pyval \<Rightarrow> pyval \<Rightarrow> pyval \<Rightarrow> 'w \<Rightarrow>
    chat_response list \<times> string option \<times> (nat \<Rightarrow> 'w) \<times> nat option"
  en_registry :: "(string \<Rightarrow> (pyval \<Rightarrow> ('w, pyval) coroutine) option) option"
  en_handler :: "(approval_request \<Rightarrow> ('w, approval_response) coroutine) option"
  en_decide :: "pyval \<Rightarrow> 'w \<Rightarrow> approval_response option \<times> 'w"
  en_loads :: "string \<Rightarrow> string + pyval"
  en_dumps :: "pyval \<Rightarrow> string"
  en_float :: "pyfloat \<Rightarrow> string"
  en_format :: "string \<Rightarrow> pydict \<Rightarrow> string res"
  en_base :: string
  en_extras :: "(string, string) dict"
  en_max_messages :: int
  en_max_chars :: int
  en_clock :: "'w \<Rightarrow> pyfloat"
  en_uuid :: "'w \<Rightarrow> string"
  en_pool :: bool
  en_db :: "'w \<Rightarrow> bool"
  en_default_model :: pyval
  en_default_max_tokens :: pyval
  en_default_temperature :: pyval
  en_default_turns :: int

section \<open>The prompt\<close>

text \<open>A template whose field is missing is taken as it is; another error of the format leaves the method.\<close>

definition fill_template :: "'w engine_env \<Rightarrow> pydict \<Rightarrow> string \<Rightarrow> string res" where
  "fill_template env ctx template =
     (case en_format env template ctx of
        Inl (KeyError k) \<Rightarrow> Inr template
      | r \<Rightarrow> r)"

definition assemble :: "'w engine_env \<Rightarrow> pydict option \<Rightarrow> string res" where
  "assemble env context =
     bind_res (map_res (\<lambda>(name, template). fill_template env (case context of None \<Rightarrow> [] | Some c \<Rightarrow> c) template) (en_extras env)) (\<lambda>ps.
       Inr (py_join [CHR 0x0A, CHR 0x0A] ((if en_base env \<noteq> [] then [en_base env] else []) @ ps)))"

section \<open>The window\<close>

definition text_length :: "pyval \<Rightarrow> int res" where
  "text_length v =
     (if \<not> truthy v then Inr 0
      else case v of
             PStr s \<Rightarrow> Inr (int (length s)) | PList xs \<Rightarrow> Inr (int (length xs)) | PDict d \<Rightarrow> Inr (int (length d)) | _ \<Rightarrow> Inl TypeError)"

definition content_length :: "pydict \<Rightarrow> int res" where
  "content_length m = text_length (dget_or m ''content'' es)"

text \<open>The oldest messages go while there are too many characters and more than two messages.\<close>

fun drop_oldest :: "int \<Rightarrow> int \<Rightarrow> pydict list \<Rightarrow> pydict list res" where
  "drop_oldest limit size_now [] = Inr []"
| "drop_oldest limit size_now (m # ms) =
     (if size_now > limit \<and> length (m # ms) > 2
      then bind_res (content_length m) (\<lambda>n. drop_oldest limit (size_now - n) ms)
      else Inr (m # ms))"

definition compress_messages :: "int \<Rightarrow> int \<Rightarrow> pydict list \<Rightarrow> pydict list res" where
  "compress_messages max_messages max_chars ms =
     (if ms = [] then Inr ms
      else
        let sys = filter is_system ms; others = filter (\<lambda>m. \<not> is_system m) ms;
            budget = max_messages - int (length sys);
            recent = (if int (length others) > budget then py_last budget others else others)
        in bind_res (map_res content_length (sys @ recent)) (\<lambda>ns.
           bind_res (drop_oldest max_chars (sum_list ns) recent) (\<lambda>kept. Inr (sys @ kept))))"

section \<open>Sessions\<close>

definition append_message :: "string \<Rightarrow> pyval \<Rightarrow> pyval \<Rightarrow> engine_session \<Rightarrow> engine_session res" where
  "append_message role content calls s =
     (if truthy calls
      then bind_res (make_message (PStr role) content es calls []) (\<lambda>m. Inr (s\<lparr>eg_messages := eg_messages s @ [m]\<rparr>))
      else Inr (s\<lparr>eg_messages := eg_messages s @ [[(''role'', PStr role), (''content'', content)]]\<rparr>))"

definition append_tool_result :: "pyval \<Rightarrow> string \<Rightarrow> engine_session \<Rightarrow> engine_session" where
  "append_tool_result i body s =
     s\<lparr>eg_messages := eg_messages s @ [[(''role'', PStr ''tool''), (''tool_call_id'', i), (''content'', PStr body)]]\<rparr>"

text \<open>\<open>AgentSession(...)\<close>: an empty identifier is replaced by a fresh one, missing times are now.\<close>

definition new_session :: "'w engine_env \<Rightarrow> string \<Rightarrow> string \<Rightarrow> 'w \<Rightarrow> engine_session" where
  "new_session env i user w =
     \<lparr>eg_id = (if i \<noteq> [] then i else en_uuid env w), eg_user = user, eg_messages = [], eg_created = en_clock env w,
      eg_updated = en_clock env w\<rparr>"

definition messages_of :: "pyval \<Rightarrow> pydict list" where
  "messages_of v = (case v of PList xs \<Rightarrow> map dict_of xs | _ \<Rightarrow> [])"

definition session_of_row :: "'w engine_env \<Rightarrow> string \<Rightarrow> session_row \<Rightarrow> exn + engine_session" where
  "session_of_row env i r =
     (case (if sw_messages r \<noteq> [] then en_loads env (sw_messages r) else Inr (PList [])) of
        Inl e \<Rightarrow> Inl (Py (ValueError e))
      | Inr v \<Rightarrow> Inr \<lparr>eg_id = i, eg_user = sw_user r, eg_messages = messages_of v, eg_created = sw_created r, eg_updated = sw_updated r\<rparr>)"

definition load_session :: "'w engine_env \<Rightarrow> string \<Rightarrow> session_table \<Rightarrow> 'w \<Rightarrow> exn + engine_session option" where
  "load_session env i tab w =
     (if \<not> en_pool env then Inr None
      else if \<not> en_db env w then Inl (Ext ''database'')
      else case dget tab i of
             None \<Rightarrow> Inr None
           | Some r \<Rightarrow> (case session_of_row env i r of Inl e \<Rightarrow> Inl e | Inr s \<Rightarrow> Inr (Some s)))"

text \<open>\<open>INSERT ... ON CONFLICT (id) DO UPDATE\<close> of the messages and the time.\<close>

definition save_session :: "'w engine_env \<Rightarrow> engine_session \<Rightarrow> 'w \<Rightarrow> session_table \<Rightarrow> session_table" where
  "save_session env s w tab =
     (let body = en_dumps env (PList (map PDict (eg_messages s)))
      in dset (eg_id s)
           (case dget tab (eg_id s) of
              None \<Rightarrow> \<lparr>sw_user = eg_user s, sw_messages = body, sw_created = eg_created s, sw_updated = en_clock env w\<rparr>
            | Some r \<Rightarrow> r\<lparr>sw_messages := body, sw_updated := en_clock env w\<rparr>) tab)"

definition load_or_create :: "'w engine_env \<Rightarrow> engine_task \<Rightarrow> session_table \<Rightarrow> 'w \<Rightarrow> exn + engine_session" where
  "load_or_create env t tab w =
     (case (if gt_session t \<noteq> [] \<and> en_pool env then load_session env (gt_session t) tab w else Inr None) of
        Inl e \<Rightarrow> Inl e
      | Inr (Some s) \<Rightarrow> Inr s
      | Inr None \<Rightarrow> Inr (new_session env (gt_session t) (gt_user t) w))"

section \<open>Tools\<close>

definition engine_dangerous :: "string list" where
  "engine_dangerous = [''write_file'', ''edit_file'', ''shell_exec'', ''execute_python'', ''execute_command'']"

definition needs_approval :: "string \<Rightarrow> bool" where
  "needs_approval name \<longleftrightarrow> name \<in> set engine_dangerous"

definition assess_risk :: "string \<Rightarrow> string" where
  "assess_risk name =
     (if name \<in> {''execute_python'', ''shell_exec'', ''execute_command''} then ''high''
      else if name \<in> {''write_file'', ''edit_file''} then ''medium'' else ''low'')"

text \<open>Arguments in JSON; a text that is none counts as empty.\<close>

definition parsed_args :: "'w engine_env \<Rightarrow> pyval \<Rightarrow> pyval" where
  "parsed_args env a = (case a of PStr s \<Rightarrow> (case en_loads env s of Inl e \<Rightarrow> PDict [] | Inr v \<Rightarrow> v) | _ \<Rightarrow> a)"

definition blanks :: "string \<Rightarrow> string" where
  "blanks s = map (\<lambda>c. if c = CHR ''_'' then CHR '' '' else c) s"

definition describe_call :: "'w engine_env \<Rightarrow> string \<Rightarrow> pyval \<Rightarrow> string res" where
  "describe_call env name args =
     (let field = (\<lambda>k d. case args of PDict m \<Rightarrow> Inr (dget_or m k d) | _ \<Rightarrow> Inl AttributeError);
          show_str = (\<lambda>v. py_str (en_float env) v)
      in if name \<in> {''write_file'', ''edit_file''}
         then bind_res (field ''path'' (PStr ''unknown'')) (\<lambda>p. Inr (''Will '' @ blanks name @ '' at path: '' @ show_str p))
         else if name \<in> {''shell_exec'', ''execute_command''}
         then bind_res (field ''command'' (PStr ''unknown'')) (\<lambda>c. Inr (''Will execute shell command: '' @ show_str c))
         else if name = ''execute_python''
         then bind_res (field ''code'' es) (\<lambda>c.
                case c of PStr s \<Rightarrow> Inr (''Will execute Python code: '' @ take 100 s @ (if length s > 100 then ''...'' else []))
                        | _ \<Rightarrow> Inl TypeError)
         else Inr (''Will run tool: '' @ name))"

text \<open>\<open>_execute_single_tool\<close> after its request for cancellation: the tool of the registry, or an error at once.\<close>

definition single_tool :: "'w engine_env \<Rightarrow> string \<Rightarrow> pyval \<Rightarrow> ('w, pyval) coroutine" where
  "single_tool env name a =
     (case Option.bind (en_registry env) (\<lambda>reg. reg name) of
        Some f \<Rightarrow> f (py_or (parsed_args env a) (PDict []))
      | None \<Rightarrow> (\<lambda>w. (w, Done (Inr (err (''Tool '' @ quoted name @ '' not found''))))))"

definition cancelled_answer :: "string \<Rightarrow> pyval" where
  "cancelled_answer name = err (''Tool '' @ quoted name @ '' cancelled'')"

definition exn_text :: "exn \<Rightarrow> string" where
  "exn_text e =
     (case e of
        Py (KeyError k) \<Rightarrow> repr_str k
      | Py (ValueError m) \<Rightarrow> m
      | Py e \<Rightarrow> []
      | Ext m \<Rightarrow> m)"

text \<open>
  A tool that runs beside others is a task of its own, which has asked for its cancellation: when the tool waits,
  the wait is cancelled; when it does not, the task ends as cancelled and its value is lost.
\<close>

datatype tool_answer = Answer pyval | CancelledTask

definition cancelled_child :: "'w engine_env \<Rightarrow> string \<times> pyval \<Rightarrow> 'w \<Rightarrow> tool_answer \<times> 'w" where
  "cancelled_child env call w =
     (case single_tool env (fst call) (snd call) w of
        (w1, Done (Inl e)) \<Rightarrow> (Answer (err (exn_text e)), w1)
      | (w1, Done (Inr v)) \<Rightarrow> (CancelledTask, w1)
      | (w1, Wait k) \<Rightarrow> (Answer (cancelled_answer (fst call)), w1))"

text \<open>\<open>asyncio.gather\<close>: every task runs up to where it waits, in order.\<close>

fun gather_tools :: "'w engine_env \<Rightarrow> (nat \<times> string \<times> pyval) list \<Rightarrow> 'w \<Rightarrow> (nat \<times> tool_answer) list \<times> 'w" where
  "gather_tools env [] w = ([], w)"
| "gather_tools env ((i, c) # cs) w =
     (case cancelled_child env c w of
        (a, w1) \<Rightarrow> (case gather_tools env cs w1 of (as, w2) \<Rightarrow> ((i, a) # as, w2)))"

text \<open>
  An approved tool runs in the task of the loop, whose cancellation is now asked for: a wait is cancelled and
  answered with an error, and a tool that does not wait leaves the request behind.
\<close>

definition approved_tool :: "'w engine_env \<Rightarrow> string \<Rightarrow> pyval \<Rightarrow> ('w, pyval) op" where
  "approved_tool env name a s =
     (case await (single_tool env name a) (True, snd s) of
        (Cancelled, s1) \<Rightarrow> (Value (cancelled_answer name), s1)
      | r \<Rightarrow> r)"

definition denied :: "string \<Rightarrow> string \<Rightarrow> pyval" where
  "denied name reason = err (''Tool '' @ quoted name @ '' denied: '' @ reason)"

text \<open>Without a handler someone else decides while the loop waits, or nobody does in time.\<close>

definition decision :: "'w engine_env \<Rightarrow> pyval \<Rightarrow> ('w, approval_response option) coroutine" where
  "decision env i w = (w, Wait (\<lambda>w1. case en_decide env i w1 of (d, w2) \<Rightarrow> (w2, Done (Inr d))))"

definition handle_approval :: "'w engine_env \<Rightarrow> pyval \<Rightarrow> string \<Rightarrow> pyval \<Rightarrow> ('w, pyval) op" where
  "handle_approval env i name a s =
     (case describe_call env name (parsed_args env a) of
        Inl e \<Rightarrow> (Raised (Py e), s)
      | Inr text \<Rightarrow>
          let req = \<lparr>ar_tool = name, ar_arguments = py_or (parsed_args env a) (PDict []), ar_risk = assess_risk name, ar_description = text\<rparr>
          in case en_handler env of
               Some h \<Rightarrow>
                 (case await (h req) s of
                    (Value r, s1) \<Rightarrow>
                      if ap_approved r
                      then (case approved_tool env name a s1 of
                              (Raised e, s2) \<Rightarrow> (Raised (Py (KeyError (str_of i))), s2)
                            | x \<Rightarrow> x)
                      else (Value (denied name (ap_reason r)), s1)
                  | (Raised e, s1) \<Rightarrow> (Value (err (''Approval handler error: '' @ exn_text e)), s1)
                  | (Cancelled, s1) \<Rightarrow> (Cancelled, s1))
             | None \<Rightarrow>
                 (case await (decision env i) s of
                    (Value None, s1) \<Rightarrow> (Value (err (''Tool '' @ quoted name @ '' approval timed out'')), s1)
                  | (Value (Some r), s1) \<Rightarrow>
                      if ap_approved r then approved_tool env name a s1 else (Value (denied name (ap_reason r)), s1)
                  | (Raised e, s1) \<Rightarrow> (Raised e, s1)
                  | (Cancelled, s1) \<Rightarrow> (Cancelled, s1)))"

fun approve_tools :: "'w engine_env \<Rightarrow> (nat \<times> pyval \<times> string \<times> pyval) list \<Rightarrow> ('w, (nat \<times> tool_answer) list) op" where
  "approve_tools env [] s = (Value [], s)"
| "approve_tools env ((n, i, name, a) # cs) s =
     (case handle_approval env i name a s of
        (Value v, s1) \<Rightarrow>
          (case approve_tools env cs s1 of
             (Value as, s2) \<Rightarrow> (Value ((n, Answer v) # as), s2)
           | x \<Rightarrow> x)
      | (Raised e, s1) \<Rightarrow> (Raised e, s1)
      | (Cancelled, s1) \<Rightarrow> (Cancelled, s1))"

section \<open>A batch of calls\<close>

datatype sorted_call = BlockedCall string | ApprovalCall | AutoCall

text \<open>What the guard and the list of dangerous tools say of a call.\<close>

definition sort_call :: "'w engine_env \<Rightarrow> string \<Rightarrow> pyval \<Rightarrow> sorted_call res" where
  "sort_call env name a =
     bind_res (tool_evaluate name (py_or (parsed_args env a) (PDict []))) (\<lambda>v.
       Inr (if tv_action v = Block then BlockedCall (tv_reason v)
            else if tv_action v = Confirm \<or> needs_approval name then ApprovalCall else AutoCall))"

type_synonym tool_call = "pyval \<times> string \<times> pyval"

definition sort_calls :: "'w engine_env \<Rightarrow> tool_call list \<Rightarrow> sorted_call list res" where
  "sort_calls env cs = map_res (\<lambda>(i, name, a). sort_call env name a) cs"

definition place :: "(nat \<times> tool_answer) list \<Rightarrow> tool_answer list \<Rightarrow> tool_answer list" where
  "place as rs = foldl (\<lambda>rs (n, a). rs[n := a]) rs as"

definition blocked_answer :: "string \<Rightarrow> string \<Rightarrow> tool_answer" where
  "blocked_answer name reason = Answer (err (''Tool '' @ quoted name @ '' blocked by guard: '' @ reason))"

definition execute_tool_calls :: "'w engine_env \<Rightarrow> tool_call list \<Rightarrow> ('w, tool_answer list) op" where
  "execute_tool_calls env cs s =
     (case sort_calls env cs of
        Inl e \<Rightarrow> (Raised (Py e), s)
      | Inr ks \<Rightarrow>
          let items = enumerate 0 (zip cs ks);
              start = map (\<lambda>((i, name, a), k). case k of BlockedCall r \<Rightarrow> blocked_answer name r | _ \<Rightarrow> Answer (PDict [])) (zip cs ks);
              autos = map (\<lambda>(n, (i, name, a), k). (n, name, a)) (filter (\<lambda>(n, c, k). k = AutoCall) items);
              asked = map (\<lambda>(n, (i, name, a), k). (n, i, name, a)) (filter (\<lambda>(n, c, k). k = ApprovalCall) items)
          in if autos \<noteq> [] \<and> fst s then (Cancelled, False, snd s)
             else case gather_tools env autos (snd s) of
                    (as, w1) \<Rightarrow>
                      (case approve_tools env asked (fst s, w1) of
                         (Value bs, s2) \<Rightarrow> (Value (place bs (place as start)), s2)
                       | (Raised e, s2) \<Rightarrow> (Raised e, s2)
                       | (Cancelled, s2) \<Rightarrow> (Cancelled, s2)))"

section \<open>The loop\<close>

record engine_state =
  es_session :: engine_session
  es_guard :: output_guard
  es_in :: int
  es_out :: int

text \<open>A chunk: its events, the text so far, the guard, the calls, the totals; the guard may cut the stream.\<close>

record stream_acc =
  sa_text :: string
  sa_calls :: "tool_call list"
  sa_guard :: output_guard
  sa_in :: int
  sa_out :: int

definition chunk_calls :: "chat_response \<Rightarrow> tool_call list" where
  "chunk_calls c = map (\<lambda>k. (cl_id k, str_of (cl_name k), cl_arguments k)) (cr_tool_calls c)"

definition engine_chunk :: "chat_response \<Rightarrow> stream_acc \<Rightarrow> engine_event list \<times> stream_acc \<times> bool" where
  "engine_chunk c a =
     (let (evs, a1) =
        (if chunk_text (cr_content c) = [] then ([], a)
         else case og_sanitize (chunk_text (cr_content c)) (sa_guard a) of
                (safe, g) \<Rightarrow> (if safe = [] then [] else [GText safe], a\<lparr>sa_text := sa_text a @ safe, sa_guard := g\<rparr>))
      in if chunk_text (cr_content c) \<noteq> [] \<and> og_blocked (sa_guard a1) then (evs @ [GOutputBlocked], a1, True)
         else (evs, a1\<lparr>sa_calls := sa_calls a1 @ chunk_calls c, sa_in := sa_in a1 + tokens_of (cr_input_tokens c),
                      sa_out := sa_out a1 + tokens_of (cr_output_tokens c)\<rparr>, False))"

fun engine_chunks :: "chat_response list \<Rightarrow> stream_acc \<Rightarrow> engine_event list \<times> stream_acc \<times> nat \<times> bool" where
  "engine_chunks [] a = ([], a, 0, False)"
| "engine_chunks (c # cs) a =
     (case engine_chunk c a of
        (evs, a1, True) \<Rightarrow> (evs, a1, 1, True)
      | (evs, a1, False) \<Rightarrow> (case engine_chunks cs a1 of (evs', a2, n, b) \<Rightarrow> (evs @ evs', a2, Suc n, b)))"

definition engine_tool :: "'w engine_env \<Rightarrow> pydict \<Rightarrow> pyval" where
  "engine_tool env t =
     (let ps = (case (mget t ''parameters'', mget t ''parameters_json'') of
          (PNone, PStr s) \<Rightarrow> (case en_loads env s of Inl e \<Rightarrow> PDict [] | Inr v \<Rightarrow> v)
        | (p, q) \<Rightarrow> p)
      in PDict [(''type'', PStr ''function''), (''function'', PDict [(''name'', dget_or t ''name'' es),
           (''description'', dget_or t ''description'' es), (''parameters'', py_or ps (PDict []))])])"

definition engine_tools :: "'w engine_env \<Rightarrow> pydict list \<Rightarrow> pyval" where
  "engine_tools env ts = (if ts = [] then PNone else PList (map (engine_tool env) ts))"

definition raw_messages :: "string \<Rightarrow> pydict list \<Rightarrow> pydict list" where
  "raw_messages system ms = (if system \<noteq> [] then [[(''role'', PStr ''system''), (''content'', PStr system)]] else []) @ ms"

definition engine_request :: "'w engine_env \<Rightarrow> string \<Rightarrow> engine_session \<Rightarrow> chat_message list res" where
  "engine_request env system s =
     bind_res (compress_messages (en_max_messages env) (en_max_chars env) (raw_messages system (eg_messages s))) to_chat_messages"

text \<open>The results, one after the other: each is written as JSON, cleaned, kept and shown. A task that ended as cancelled
  is no JSON.\<close>

fun show_results :: "'w engine_env \<Rightarrow> (tool_call \<times> tool_answer) list \<Rightarrow> engine_session \<Rightarrow> engine_event list \<times> engine_session \<times> py_error option"
where
  "show_results env [] s = ([], s, None)"
| "show_results env (((i, name, a), CancelledTask) # rs) s = ([], s, Some TypeError)"
| "show_results env (((i, name, a), Answer v) # rs) s =
     (let body = fst (og_sanitize (en_dumps env v) (new_output_guard 10000))
      in case show_results env rs (append_tool_result i body s) of (evs, s1, e) \<Rightarrow> (GToolResult i name body # evs, s1, e))"

text \<open>How a turn ends: with another turn, with the answer, with an exception, or with the cancellation of the loop.\<close>

datatype turn_end = Again | Answered | Broke exn | CancelledLoop

definition engine_calls ::
  "'w engine_env \<Rightarrow> tool_call list \<Rightarrow> engine_state \<Rightarrow> bool \<times> 'w \<Rightarrow> engine_event list \<times> turn_end \<times> engine_state \<times> bool \<times> 'w" where
  "engine_calls env cs st s =
     (let evs = map (\<lambda>(i, name, a). GToolCall i name a) cs
      in case execute_tool_calls env cs s of
           (Raised e, s1) \<Rightarrow> (evs, Broke e, st, s1)
         | (Cancelled, s1) \<Rightarrow> (evs, CancelledLoop, st, s1)
         | (Value as, s1) \<Rightarrow>
             (case append_message ''assistant'' PNone (PList (map (\<lambda>(i, name, a). call_dict i (PStr name) a) cs)) (es_session st) of
                Inl e \<Rightarrow> (evs, Broke (Py e), st, s1)
              | Inr se \<Rightarrow>
                  (case show_results env (zip cs as) se of
                     (evs', se', None) \<Rightarrow> (evs @ evs', Again, st\<lparr>es_session := se'\<rparr>, s1)
                   | (evs', se', Some e) \<Rightarrow> (evs @ evs', Broke (Py e), st\<lparr>es_session := se'\<rparr>, s1))))"

definition absorb_stream :: "stream_acc \<Rightarrow> engine_state \<Rightarrow> engine_state" where
  "absorb_stream a st = st\<lparr>es_guard := sa_guard a, es_in := sa_in a, es_out := sa_out a\<rparr>"

definition engine_answer :: "stream_acc \<Rightarrow> engine_state \<Rightarrow> turn_end \<times> engine_state" where
  "engine_answer a st =
     (if sa_text a = [] then (Answered, st)
      else (Answered, st\<lparr>es_session := es_session st\<lparr>eg_messages := eg_messages (es_session st) @
              [[(''role'', PStr ''assistant''), (''content'', PStr (sa_text a))]]\<rparr>\<rparr>))"

definition engine_turn ::
  "'w engine_env \<Rightarrow> engine_task \<Rightarrow> string \<Rightarrow> engine_state \<Rightarrow> bool \<times> 'w \<Rightarrow>
   engine_event list \<times> turn_end \<times> engine_state \<times> bool \<times> 'w" where
  "engine_turn env t system st s =
     (case engine_request env system (es_session st) of
        Inl e \<Rightarrow> ([], Broke (Py e), st, s)
      | Inr cms \<Rightarrow>
          (case en_stream env (gt_tenant t) cms (dget_or (gt_llm t) ''model'' (en_default_model env))
             (dget_or (gt_llm t) ''max_tokens'' (en_default_max_tokens env))
             (dget_or (gt_llm t) ''temperature'' (en_default_temperature env)) (engine_tools env (gt_tools t)) (snd s) of
             (chunks, exn, world, waits) \<Rightarrow>
               (let stop = (case waits of Some n \<Rightarrow> if fst s then Some n else None | None \<Rightarrow> None);
                    got = (case stop of Some n \<Rightarrow> take n chunks | None \<Rightarrow> chunks)
                in case engine_chunks got \<lparr>sa_text = [], sa_calls = [], sa_guard = es_guard st, sa_in = es_in st, sa_out = es_out st\<rparr> of
                     (evs, a, n, quit) \<Rightarrow>
                       (if \<not> quit \<and> stop \<noteq> None then (evs, CancelledLoop, absorb_stream a st, False, world n)
                        else case (if quit then None else exn) of
                               Some e \<Rightarrow> (evs, Broke (Ext e), absorb_stream a st, fst s, world n)
                             | None \<Rightarrow>
                                 (if sa_calls a = []
                                  then (case engine_answer a (absorb_stream a st) of (r, st1) \<Rightarrow> (evs, r, st1, fst s, world n))
                                  else case engine_calls env (sa_calls a) (absorb_stream a st) (fst s, world n) of
                                         (evs', r) \<Rightarrow> (evs @ evs', r))))))"

fun engine_turns ::
  "'w engine_env \<Rightarrow> engine_task \<Rightarrow> string \<Rightarrow> nat \<Rightarrow> engine_state \<Rightarrow> bool \<times> 'w \<Rightarrow>
   engine_event list \<times> turn_end \<times> engine_state \<times> bool \<times> 'w" where
  "engine_turns env t system 0 st s = ([], Answered, st, s)"
| "engine_turns env t system (Suc n) st s =
     (case engine_turn env t system st s of
        (evs, Again, st1, s1) \<Rightarrow> (case engine_turns env t system n st1 s1 of (evs', r) \<Rightarrow> (evs @ evs', r))
      | x \<Rightarrow> x)"

text \<open>The table after a run: a save waits, so it is cancelled as well when that is still asked for.\<close>

definition save_at_end :: "'w engine_env \<Rightarrow> engine_session \<Rightarrow> bool \<times> 'w \<Rightarrow> session_table \<Rightarrow> session_table \<times> bool" where
  "save_at_end env se s tab =
     (if \<not> en_pool env then (tab, False)
      else if fst s then (tab, True)
      else (if en_db env (snd s) then save_session env se (snd s) tab else tab, False))"

record 'w run_result =
  rr_events :: "engine_event list"
  rr_failed :: "exn option"
  rr_cancelled :: bool
  rr_session :: "engine_session option"
  rr_guard :: output_guard
  rr_table :: session_table
  rr_world :: 'w

definition end_events :: "turn_end \<Rightarrow> engine_state \<Rightarrow> engine_event list" where
  "end_events r st =
     (case r of CancelledLoop \<Rightarrow> [] | Broke e \<Rightarrow> [GError e] | _ \<Rightarrow> [GDone (es_in st) (es_out st)])"

definition run_session ::
  "'w engine_env \<Rightarrow> engine_task \<Rightarrow> engine_session \<Rightarrow> output_guard \<Rightarrow> session_table \<Rightarrow> 'w \<Rightarrow> 'w run_result" where
  "run_session env t se0 g tab w =
     (let se = se0\<lparr>eg_messages := eg_messages se0 @ [[(''role'', PStr ''user''), (''content'', PStr (gt_content t))]]\<rparr>
      in if input_check (gt_content t) \<noteq> None
         then \<lparr>rr_events = [GInputBlocked], rr_failed = None, rr_cancelled = False, rr_session = Some se, rr_guard = g, rr_table = tab, rr_world = w\<rparr>
         else case (if gt_system t \<noteq> [] then Inr (gt_system t) else assemble env None) of
                Inl e \<Rightarrow> \<lparr>rr_events = [], rr_failed = Some (Py e), rr_cancelled = False, rr_session = Some se, rr_guard = g, rr_table = tab, rr_world = w\<rparr>
              | Inr system \<Rightarrow>
                  (case engine_turns env t system (nat (if gt_max_turns t = 0 then en_default_turns env else gt_max_turns t))
                      \<lparr>es_session = se, es_guard = g, es_in = 0, es_out = 0\<rparr> (False, w) of
                     (evs, r, st, s) \<Rightarrow>
                       (case save_at_end env (es_session st) s tab of
                          (tab', late) \<Rightarrow>
                            \<lparr>rr_events = evs @ end_events r st, rr_failed = None, rr_cancelled = (r = CancelledLoop \<or> late),
                             rr_session = Some (es_session st), rr_guard = es_guard st, rr_table = tab', rr_world = snd s\<rparr>)))"

text \<open>\<open>run(task, session)\<close>; loading is before everything that is caught.\<close>

definition engine_run ::
  "'w engine_env \<Rightarrow> engine_task \<Rightarrow> engine_session option \<Rightarrow> output_guard \<Rightarrow> session_table \<Rightarrow> 'w \<Rightarrow> 'w run_result" where
  "engine_run env t session g tab w =
     (case (case session of Some se \<Rightarrow> Inr se | None \<Rightarrow> load_or_create env t tab w) of
        Inl e \<Rightarrow> \<lparr>rr_events = [], rr_failed = Some e, rr_cancelled = False, rr_session = None, rr_guard = g, rr_table = tab, rr_world = w\<rparr>
      | Inr se \<Rightarrow> run_session env t se g tab w)"

section \<open>Answers of tools\<close>

lemma length_place [simp]: "length (place as rs) = length rs"
  by (induction as arbitrary: rs) (auto simp: place_def)




definition fails :: "tool_answer \<Rightarrow> bool" where
  "fails a \<longleftrightarrow> a = CancelledTask \<or> (\<exists>m. a = Answer (err m))"


lemma blocked_fails [simp]: "fails (blocked_answer name r)"
  by (auto simp: fails_def blocked_answer_def)



lemma sort_calls_nth:
  assumes "sort_calls env cs = Inr ks" "i < length cs" "cs ! i = (k, name, a)"
  shows "length ks = length cs" "sort_call env name a = Inr (ks ! i)"
proof -
  have "length ks = length cs \<and> (\<forall>i < length cs. case cs ! i of (k, name, a) \<Rightarrow> sort_call env name a = Inr (ks ! i))"
    using assms(1) unfolding sort_calls_def
  proof (induction cs arbitrary: ks)
    case (Cons c cs)
    then obtain y ys where y: "ks = y # ys" "(case c of (i, name, a) \<Rightarrow> sort_call env name a) = Inr y"
      "map_res (\<lambda>(i, name, a). sort_call env name a) cs = Inr ys" by (auto simp: bind_res_Inr)
    show ?case using Cons.IH [OF y(3)] y(1,2) by (auto simp: nth_Cons' split: prod.splits)
  qed simp
  then show "length ks = length cs" "sort_call env name a = Inr (ks ! i)" using assms(2,3) by auto
qed




definition slow_tool :: "pyval \<Rightarrow> (nat, pyval) coroutine" where
  "slow_tool a w = (w + 1, Wait (\<lambda>w1. (w1 + 1, Done (Inr (PDict [])))))"

definition quick_tool :: "pyval \<Rightarrow> (nat, pyval) coroutine" where
  "quick_tool a w = (w + 1, Done (Inr (PDict [])))"

definition yes_handler :: "approval_request \<Rightarrow> (nat, approval_response) coroutine" where
  "yes_handler req w = (w, Done (Inr \<lparr>ap_approved = True, ap_reason = []\<rparr>))"

text \<open>An instance whose stream waits for its first chunk, with two tools and a file to write.\<close>

definition demo_engine :: "nat engine_env" where
  "demo_engine =
     \<lparr>en_stream = (\<lambda>tenant ms model toks temp tools w. ([], None, \<lambda>n. w, Some 0)),
      en_registry = Some (\<lambda>name. if name = ''slow'' then Some slow_tool
        else if name \<in> {''quick'', ''write_file''} then Some quick_tool else None),
      en_handler = Some yes_handler, en_decide = (\<lambda>i w. (None, w)), en_loads = (\<lambda>s. Inr (PList [])), en_dumps = (\<lambda>v. []),
      en_float = (\<lambda>x. []), en_format = (\<lambda>s d. Inr s), en_base = [], en_extras = [], en_max_messages = 100, en_max_chars = 120000,
      en_clock = (\<lambda>w. 0), en_uuid = (\<lambda>w. ''u''), en_pool = True, en_db = (\<lambda>w. True), en_default_model = es,
      en_default_max_tokens = PInt 1, en_default_temperature = PInt 0, en_default_turns = 10\<rparr>"

lemma demo_engine_sel [simp]:
  "en_registry demo_engine = Some (\<lambda>name. if name = ''slow'' then Some slow_tool
     else if name \<in> {''quick'', ''write_file''} then Some quick_tool else None)"
  "en_handler demo_engine = Some yes_handler" "en_max_messages demo_engine = 100" "en_max_chars demo_engine = 120000"
  "en_stream demo_engine tenant ms model toks temp tools w = ([], None, \<lambda>n. w, Some 0)"
  by (simp_all add: demo_engine_def)

lemma demo_sort: "sort_call demo_engine ''slow'' (PDict []) = Inr AutoCall" "sort_call demo_engine ''quick'' (PDict []) = Inr AutoCall"
  "sort_call demo_engine ''write_file'' (PDict []) = Inr ApprovalCall"
  by (simp_all add: sort_call_def parsed_args_def py_or_def evaluate_dict_def escape_keys_def Guards.dangerous_tools_def verdict_def
      needs_approval_def engine_dangerous_def)



definition demo_state :: engine_state where
  "demo_state = \<lparr>es_session = \<lparr>eg_id = ''s'', eg_user = ''ann'', eg_messages = [], eg_created = 0, eg_updated = 0\<rparr>,
     es_guard = new_output_guard 3, es_in = 0, es_out = 0\<rparr>"

lemma make_call_message:
  "make_message (PStr ''assistant'') PNone es (PList [call_dict i (PStr name) a]) [] =
     Inr [(''role'', PStr ''assistant''), (''content'', es), (''tool_calls'', PList [call_dict i (PStr name) a])]"
  by (simp add: make_message_def roles_def call_dict_def dget_or_def merge_extra_def)

text \<open>A tool that answers at once and needs no approval ends the run with an error: its answer is no JSON. The call stays
  in the session without an answer.\<close>

theorem quick_tool_ends_the_run:
  assumes "sort_call env name a = Inr AutoCall" "single_tool env name a w = (w1, Done (Inr v))"
  shows "engine_calls env [(i, name, a)] st (False, w) =
    ([GToolCall i name a], Broke (Py TypeError),
     st\<lparr>es_session := es_session st\<lparr>eg_messages := eg_messages (es_session st) @
       [[(''role'', PStr ''assistant''), (''content'', es), (''tool_calls'', PList [call_dict i (PStr name) a])]]\<rparr>\<rparr>, False, w1)"
  using assms
  by (simp add: engine_calls_def execute_tool_calls_def sort_calls_def enumerate_eq_zip cancelled_child_def place_def
      append_message_def make_call_message)

theorem quick_tool_ends_the_run_witness:
  "engine_calls demo_engine [(PStr ''c1'', ''quick'', PDict [])] demo_state (False, 0) =
    ([GToolCall (PStr ''c1'') ''quick'' (PDict [])], Broke (Py TypeError),
     demo_state\<lparr>es_session := es_session demo_state\<lparr>eg_messages := eg_messages (es_session demo_state) @
       [[(''role'', PStr ''assistant''), (''content'', es), (''tool_calls'', PList [call_dict (PStr ''c1'') (PStr ''quick'') (PDict [])])]]\<rparr>\<rparr>,
     False, 1)"
  by (rule quick_tool_ends_the_run [OF demo_sort(2)]) (simp add: single_tool_def quick_tool_def)

text \<open>After an approved tool that answered at once the loop itself is cancelled at its next wait: the next request to
  the model, whatever it is, brings no chunk and no event, not even the one that ends a run.\<close>

theorem approved_tool_cancels_the_loop:
  assumes "describe_call env name (parsed_args env a) = Inr d" "en_handler env = Some h"
    and "\<And>req. h req w = (w1, Done (Inr r))" "ap_approved r" "single_tool env name a w1 = (w2, Done (Inr v))"
    and "engine_request env system (es_session st) = Inr cms"
    and "\<And>model toks temp. en_stream env (gt_tenant t) cms model toks temp (engine_tools env (gt_tools t)) w2 = (cs, exn, world, Some 0)"
  shows "handle_approval env i name a (False, w) = (Value v, True, w2) \<and>
    engine_turn env t system st (True, w2) = ([], CancelledLoop, st, False, world 0)"
  using assms
  by (simp add: handle_approval_def await_def approved_tool_def engine_turn_def absorb_stream_def)

definition demo_engine_task :: engine_task where
  "demo_engine_task = \<lparr>gt_id = ''t'', gt_tenant = ''acme'', gt_user = ''bob'', gt_session = ''s'', gt_content = ''hi'', gt_system = [],
     gt_history = [], gt_tools = [], gt_llm = [], gt_max_turns = 5\<rparr>"

theorem approved_tool_cancels_the_loop_witness:
  "handle_approval demo_engine (PStr ''c1'') ''write_file'' (PDict []) (False, 0) = (Value (PDict []), True, 1) \<and>
   engine_turn demo_engine demo_engine_task [] demo_state (True, 1) = ([], CancelledLoop, demo_state, False, 1)"
  by (rule approved_tool_cancels_the_loop [where h = yes_handler and r = "\<lparr>ap_approved = True, ap_reason = []\<rparr>" and cms = "[]" and
        world = "\<lambda>n. 1" and cs = "[]" and exn = None and ?w1.0 = 0 and d = "''Will write file at path: unknown''"])
    (simp_all add: yes_handler_def single_tool_def quick_tool_def describe_call_def parsed_args_def dget_or_def blanks_def
      engine_request_def demo_state_def raw_messages_def compress_messages_def to_chat_messages_def)

section \<open>Approvals\<close>

text \<open>A handler that never says yes, and an answer that never comes or is never yes.\<close>

definition never_approves :: "'w engine_env \<Rightarrow> bool" where
  "never_approves env \<longleftrightarrow>
     (case en_handler env of
        Some h \<Rightarrow> (\<forall>req w. \<exists>w1 r. h req w = (w1, Done (Inr r)) \<and> \<not> ap_approved r)
      | None \<Rightarrow> (\<forall>i w r w1. en_decide env i w = (Some r, w1) \<longrightarrow> \<not> ap_approved r))"

lemma handle_denied:
  assumes "never_approves env"
  shows "handle_approval (env\<lparr>en_registry := reg\<rparr>) i name a s = handle_approval env i name a s"
proof -
  have p: "parsed_args (env\<lparr>en_registry := reg\<rparr>) a = parsed_args env a" by (simp add: parsed_args_def split: pyval.split)
  have dc: "describe_call (env\<lparr>en_registry := reg\<rparr>) name v = describe_call env name v" for v by (simp add: describe_call_def)
  obtain c w where s: "s = (c, w)" by fastforce
  show ?thesis
  proof (cases "describe_call env name (parsed_args env a)")
    case (Inl e)
    then show ?thesis by (simp add: handle_approval_def p dc)
  next
    case (Inr d)
    show ?thesis
    proof (cases "en_handler env")
      case None
      obtain r w1 where r: "en_decide env i w = (r, w1)" by fastforce
      have "\<forall>i w r w1. en_decide env i w = (Some r, w1) \<longrightarrow> \<not> ap_approved r" using assms None by (simp add: never_approves_def)
      with r have "r = None \<or> \<not> ap_approved (the r)" by (cases r) (simp, metis option.sel)
      with r show ?thesis using None Inr r by (cases r) (auto simp: handle_approval_def p dc s await_def decision_def)
    next
      case (Some h)
      let ?req = "\<lparr>ar_tool = name, ar_arguments = py_or (parsed_args env a) (PDict []), ar_risk = assess_risk name, ar_description = d\<rparr>"
      obtain w1 r where "h ?req w = (w1, Done (Inr r))" "\<not> ap_approved r" using assms Some by (force simp: never_approves_def)
      then show ?thesis using Some Inr by (simp add: handle_approval_def p dc s await_def)
    qed
  qed
qed

lemma approve_denied:
  "never_approves env \<Longrightarrow> approve_tools (env\<lparr>en_registry := reg\<rparr>) cs s = approve_tools env cs s"
  by (induction env cs s rule: approve_tools.induct) (simp_all add: handle_denied split: ending.split prod.split)

text \<open>A dangerous call runs nothing before it is approved: when nobody approves, a batch of calls that the guard blocks or
  that need approval ends the same whatever the tools are.\<close>

theorem denied_calls_touch_nothing:
  assumes "never_approves env" "\<And>k name a. (k, name, a) \<in> set cs \<Longrightarrow> sort_call env name a \<noteq> Inr AutoCall"
  shows "execute_tool_calls (env\<lparr>en_registry := reg\<rparr>) cs s = execute_tool_calls env cs s"
proof -
  have "sort_call (env\<lparr>en_registry := reg\<rparr>) name a = sort_call env name a" for name a
    by (simp add: sort_call_def parsed_args_def split: pyval.split)
  then have sort: "sort_calls (env\<lparr>en_registry := reg\<rparr>) cs = sort_calls env cs" by (simp add: sort_calls_def)
  show ?thesis
  proof (cases "sort_calls env cs")
    case (Inr ks)
    have "y \<noteq> AutoCall" if item: "(n, c, y) \<in> set (enumerate 0 (zip cs ks))" for n c y
    proof -
      have n: "n < length cs" "c = cs ! n" "y = ks ! n" using item by (auto simp: in_set_enumerate_eq)
      obtain k name a where c: "cs ! n = (k, name, a)" by (cases "cs ! n") auto
      with n have "(k, name, a) \<in> set cs" by (metis nth_mem)
      then show ?thesis using assms(2) sort_calls_nth [OF Inr n(1) c] n(3) by metis
    qed
    then have "filter (\<lambda>(n, c, k). k = AutoCall) (enumerate 0 (zip cs ks)) = []"
      unfolding filter_empty_conv by (metis (mono_tags, lifting) prod.case prod_cases3)
    then show ?thesis by (simp add: execute_tool_calls_def sort Inr approve_denied [OF assms(1)])
  qed (simp add: execute_tool_calls_def sort)
qed

definition no_handler :: "approval_request \<Rightarrow> (nat, approval_response) coroutine" where
  "no_handler req w = (w, Done (Inr \<lparr>ap_approved = False, ap_reason = ''no''\<rparr>))"

theorem denied_calls_touch_nothing_witness:
  "execute_tool_calls (demo_engine\<lparr>en_handler := Some no_handler, en_registry := None\<rparr>) [(PStr ''c1'', ''write_file'', PDict [])] (False, 0) =
   execute_tool_calls (demo_engine\<lparr>en_handler := Some no_handler\<rparr>) [(PStr ''c1'', ''write_file'', PDict [])] (False, 0)"
  by (rule denied_calls_touch_nothing)
    (auto simp: never_approves_def no_handler_def sort_call_def parsed_args_def py_or_def evaluate_dict_def escape_keys_def
      Guards.dangerous_tools_def verdict_def needs_approval_def engine_dangerous_def)

section \<open>Sessions\<close>

text \<open>What a run saved is loaded again: its messages, and the user who made the session. Whoever names the session gets it;
  neither the user nor the tenant of the task is compared with its owner.\<close>

theorem saved_session_is_anyones:
  assumes "\<And>v. en_loads env (en_dumps env v) = Inr v" "\<And>v. en_dumps env v \<noteq> []" "en_pool env" "en_db env w"
    and "gt_session t = eg_id s" "eg_id s \<noteq> []"
  shows "\<exists>s'. load_or_create env t (save_session env s w tab) w = Inr s' \<and> eg_messages s' = eg_messages s \<and> eg_id s' = eg_id s \<and>
    eg_user s' = (case dget tab (eg_id s) of None \<Rightarrow> eg_user s | Some r \<Rightarrow> sw_user r)"
  using assms
  by (simp add: load_or_create_def load_session_def save_session_def session_of_row_def Let_def messages_of_def dict_of_def o_def
      split: option.split)


definition json_engine :: "nat engine_env" where
  "json_engine = demo_engine\<lparr>en_loads := (\<lambda>s. me_loads map_redis (tl s)), en_dumps := (\<lambda>v. CHR ''j'' # me_dumps map_redis v)\<rparr>"

theorem saved_session_is_anyones_witness:
  "\<exists>s'. load_or_create json_engine demo_engine_task (save_session json_engine (es_session demo_state) 0 []) 0 = Inr s' \<and>
     eg_messages s' = eg_messages (es_session demo_state) \<and> eg_id s' = eg_id (es_session demo_state) \<and>
     eg_user s' = (case dget ([] :: session_table) (eg_id (es_session demo_state)) of None \<Rightarrow> eg_user (es_session demo_state) | Some r \<Rightarrow> sw_user r)"
proof (rule saved_session_is_anyones)
  show "en_loads json_engine (en_dumps json_engine v) = Inr v" for v
    using map_redis_json by (simp add: json_engine_def json_laws_def)
qed (simp_all add: json_engine_def demo_engine_def demo_engine_task_def demo_state_def)

section \<open>The window\<close>

definition char_count :: "pydict list \<Rightarrow> int" where
  "char_count ms = sum_list (map (\<lambda>m. case content_length m of Inl e \<Rightarrow> 0 | Inr n \<Rightarrow> n) ms)"

lemma char_count_sum: "map_res content_length ms = Inr ns \<Longrightarrow> char_count ms = sum_list ns"
  by (induction ms arbitrary: ns) (auto simp: char_count_def bind_res_Inr)

lemma drop_oldest_end:
  assumes "drop_oldest limit (base + char_count ms) ms = Inr r"
  shows "\<exists>k. r = drop k ms \<and> (base + char_count r \<le> limit \<or> length r \<le> 2)"
  using assms
proof (induction ms arbitrary: r)
  case (Cons m ms)
  show ?case
  proof (cases "base + char_count (m # ms) > limit \<and> length (m # ms) > 2")
    case True
    then obtain n where n: "content_length m = Inr n" "drop_oldest limit (base + char_count ms) ms = Inr r"
      using Cons.prems by (auto simp: bind_res_Inr char_count_def add.assoc)
    from Cons.IH [OF n(2)] obtain k where k: "r = drop k ms" "base + char_count r \<le> limit \<or> length r \<le> 2" by blast
    then show ?thesis by (intro exI [of _ "Suc k"]) simp
  next
    case False
    then show ?thesis using Cons.prems by (intro exI [of _ 0]) (auto split: if_splits)
  qed
qed simp

lemma char_count_append: "char_count (xs @ ys) = char_count xs + char_count ys"
  by (simp add: char_count_def)

lemma engine_compress_end:
  assumes "compress_messages mm mc ms = Inr r"
  shows "\<exists>k. r = filter is_system ms @ drop k (let others = filter (\<lambda>m. \<not> is_system m) ms; budget = mm - int (length (filter is_system ms))
      in if int (length others) > budget then py_last budget others else others) \<and>
    (char_count r \<le> mc \<or> length (drop k (let others = filter (\<lambda>m. \<not> is_system m) ms; budget = mm - int (length (filter is_system ms))
      in if int (length others) > budget then py_last budget others else others)) \<le> 2)"
proof (cases "ms = []")
  case False
  let ?recent = "let others = filter (\<lambda>m. \<not> is_system m) ms; budget = mm - int (length (filter is_system ms))
      in if int (length others) > budget then py_last budget others else others"
  let ?sys = "filter is_system ms"
  obtain ns kept where ns: "map_res content_length (?sys @ ?recent) = Inr ns" "drop_oldest mc (sum_list ns) ?recent = Inr kept"
    "r = ?sys @ kept" using assms False by (auto simp: compress_messages_def Let_def bind_res_Inr)
  then have "drop_oldest mc (char_count ?sys + char_count ?recent) ?recent = Inr kept"
    using char_count_sum [OF ns(1)] by (simp add: char_count_append)
  from drop_oldest_end [OF this] show ?thesis unfolding ns(3) char_count_append by blast
qed (use assms in \<open>auto simp: compress_messages_def py_last_def char_count_def intro: exI [of _ 0]\<close>)

text \<open>The window of the engine keeps all system messages and an end of the others. With room for others the number
  of messages is within its limit; the number of characters is, unless only two other messages are left.\<close>

theorem engine_window_is_bounded:
  assumes "compress_messages mm mc ms = Inr r" "int (length (filter is_system ms)) < mm"
  shows "filter is_system r = filter is_system ms \<and> int (length r) \<le> mm \<and>
    (char_count r \<le> mc \<or> length (filter (\<lambda>m. \<not> is_system m) r) \<le> 2) \<and>
    (\<exists>k. filter (\<lambda>m. \<not> is_system m) r = drop k (filter (\<lambda>m. \<not> is_system m) ms))"
proof -
  let ?others = "filter (\<lambda>m. \<not> is_system m) ms" and ?b = "mm - int (length (filter is_system ms))"
  let ?recent = "if int (length ?others) > ?b then py_last ?b ?others else ?others"
  obtain k where k: "r = filter is_system ms @ drop k ?recent" "char_count r \<le> mc \<or> length (drop k ?recent) \<le> 2"
    using engine_compress_end [OF assms(1)] by (auto simp: Let_def)
  obtain j where j: "?recent = drop j ?others" by (metis py_last_def drop_0)
  have len: "int (length ?recent) \<le> ?b" using assms(2) by (simp add: length_py_last)
  have "filter is_system (drop k ?recent) = []" "filter (\<lambda>m. \<not> is_system m) (drop k ?recent) = drop k ?recent"
    unfolding j by (auto simp: filter_empty_conv filter_id_conv dest!: in_set_dropD)
  moreover have "filter (\<lambda>m. \<not> is_system m) (filter is_system ms) = []" by (simp add: filter_empty_conv)
  ultimately have parts: "filter is_system r = filter is_system ms" "filter (\<lambda>m. \<not> is_system m) r = drop k ?recent"
    unfolding k(1) by simp_all
  have "int (length r) \<le> mm" using len unfolding k(1) by simp
  moreover have "drop k ?recent = drop (k + j) ?others" unfolding j by simp
  ultimately show ?thesis using k(2) parts by metis
qed

text \<open>When the system messages fill the limit exactly, nothing is dropped: the empty budget is the slice of
  everything, and the limit has no effect.\<close>

theorem full_system_lifts_the_limit:
  assumes "mm = int (length (filter is_system ms))" "map_res content_length (filter is_system ms @ filter (\<lambda>m. \<not> is_system m) ms) = Inr ns"
    and "sum_list ns \<le> mc"
  shows "compress_messages mm mc ms = Inr (filter is_system ms @ filter (\<lambda>m. \<not> is_system m) ms)"
proof -
  have "drop_oldest mc (sum_list ns) xs = Inr xs" for xs using assms(3) by (cases xs) simp_all
  moreover have "(if int (length xs) > mm - int (length (filter is_system ms)) then py_last (mm - int (length (filter is_system ms))) xs else xs) = xs"
    for xs :: "pydict list" by (simp add: assms(1) py_last_zero)
  ultimately show ?thesis by (cases "ms = []") (simp_all add: compress_messages_def Let_def assms(2))
qed

end
