(* ===== verification/PlainLoop.thy ===== *)
theory PlainLoop
  imports AgentLoop
begin

text \<open>
  The plain inference loop, \<^verbatim>\<open>app/agent/loop.py\<close>, once over the chunks of the gateway and once over the
  dictionaries of a provider: one call to the model, whose tool calls are executed elsewhere. The events
  are a function of the chunks and of the exception that ends them, if any. \<open>loads\<close> is \<^verbatim>\<open>json.loads\<close>.
\<close>

datatype plain_event =
    PlainText pyval
  | PlainCall pyval pyval pyval
  | PlainUsage int int
  | PlainDone
  | PlainError

section \<open>Messages and tools\<close>

definition history_call :: "pyval \<Rightarrow> chat_call res" where
  "history_call c =
     (case c of
        PDict d \<Rightarrow>
          (let fn = (case mget d ''function'' of PDict f \<Rightarrow> f | _ \<Rightarrow> d)
           in Inr \<lparr>cl_id = dget_or d ''id'' es, cl_name = dget_or fn ''name'' es, cl_arguments = dget_or fn ''arguments'' es\<rparr>)
      | _ \<Rightarrow> Inl AttributeError)"

definition history_entry :: "pydict \<Rightarrow> chat_message res" where
  "history_entry m =
     bind_res (if truthy (mget m ''tool_calls'')
        then bind_res (py_iter (mget m ''tool_calls'')) (\<lambda>cs. bind_res (map_res history_call cs) (\<lambda>ks. Inr (Some ks)))
        else Inr None) (\<lambda>calls.
       Inr \<lparr>ch_role = dget_or m ''role'' (PStr ''user''), ch_content = dget_or m ''content'' es,
            ch_tool_call_id = dget_or m ''tool_call_id'' es, ch_tool_calls = calls\<rparr>)"

definition plain_message :: "string \<Rightarrow> string \<Rightarrow> chat_message" where
  "plain_message role content = \<lparr>ch_role = PStr role, ch_content = PStr content, ch_tool_call_id = es, ch_tool_calls = None\<rparr>"

definition plain_messages :: "string \<Rightarrow> pydict list \<Rightarrow> string \<Rightarrow> chat_message list res" where
  "plain_messages system history content =
     bind_res (map_res history_entry history) (\<lambda>hs.
       Inr ((if system \<noteq> [] then [plain_message ''system'' system] else []) @ hs @
            (if content \<noteq> [] then [plain_message ''user'' content] else [])))"

definition plain_tool :: "(string \<Rightarrow> string + pyval) \<Rightarrow> pydict \<Rightarrow> pyval" where
  "plain_tool loads t =
     PDict [(''type'', PStr ''function''), (''function'', PDict [(''name'', dget_or t ''name'' es),
       (''description'', dget_or t ''description'' es),
       (''parameters'', case mget t ''parameters_json'' of
          PStr s \<Rightarrow> (case loads s of Inl e \<Rightarrow> PDict [] | Inr v \<Rightarrow> v)
        | _ \<Rightarrow> dget_or t ''parameters'' (PDict []))])]"

section \<open>The chunks of the gateway\<close>

definition text_event :: "pyval \<Rightarrow> plain_event list" where
  "text_event v = (if truthy v then [PlainText v] else [])"

text \<open>The end of a stream without a last chunk: with tools there is no event.\<close>

definition plain_end :: "bool \<Rightarrow> bool \<Rightarrow> plain_event list" where
  "plain_end tools failed = (if failed then [PlainError] else if tools then [] else [PlainDone])"

fun plain_chunks :: "bool \<Rightarrow> bool \<Rightarrow> chat_response list \<Rightarrow> int \<Rightarrow> int \<Rightarrow> plain_event list \<times> int \<times> int" where
  "plain_chunks tools failed [] a b = (plain_end tools failed, a, b)"
| "plain_chunks tools failed (c # cs) a b =
     (if cr_tool_calls c \<noteq> []
      then (text_event (cr_content c) @ map (\<lambda>k. PlainCall (cl_id k) (cl_name k) (cl_arguments k)) (cr_tool_calls c), a, b)
      else
        let a1 = a + tokens_of (cr_input_tokens c); b1 = b + tokens_of (cr_output_tokens c)
        in if cr_finish c \<in> {PStr ''stop'', PStr ''length''} then (text_event (cr_content c) @ [PlainDone], a1, b1)
           else if cr_finish c = PStr ''error'' then (text_event (cr_content c) @ [PlainError], a1, b1)
           else case plain_chunks tools failed cs a1 b1 of (evs, r) \<Rightarrow> (text_event (cr_content c) @ evs, r))"

text \<open>Whatever happens, the loop over the turns is left in the first one. A stream is its chunks and whether an exception ended it.\<close>

definition run_plain :: "int \<Rightarrow> bool \<Rightarrow> (chat_message list \<Rightarrow> chat_response list \<times> bool) \<Rightarrow> string \<Rightarrow> pydict list \<Rightarrow> string \<Rightarrow> plain_event list res" where
  "run_plain max_turns tools stream system history content =
     bind_res (plain_messages system history content) (\<lambda>ms.
       Inr (if max_turns \<le> 0 then [PlainUsage 0 0]
            else case stream ms of
                   (cs, failed) \<Rightarrow> (case plain_chunks tools failed cs 0 0 of (evs, a, b) \<Rightarrow> evs @ [PlainUsage a b])))"

section \<open>The dictionaries of a provider\<close>

definition provider_message :: "pydict \<Rightarrow> pydict" where
  "provider_message m =
     [(''role'', dget_or m ''role'' (PStr ''user'')), (''content'', dget_or m ''content'' es),
      (''tool_call_id'', dget_or m ''tool_call_id'' es)]
     @ (if truthy (mget m ''tool_calls'') then [(''tool_calls'', mget m ''tool_calls'')] else [])"

definition provider_messages :: "string \<Rightarrow> pydict list \<Rightarrow> string \<Rightarrow> pydict list" where
  "provider_messages system history content =
     (if system \<noteq> [] then [[(''role'', PStr ''system''), (''content'', PStr system)]] else [])
     @ map provider_message history
     @ (if content \<noteq> [] then [[(''role'', PStr ''user''), (''content'', PStr content)]] else [])"

definition provider_call :: "pyval \<Rightarrow> plain_event res" where
  "provider_call c =
     (case c of
        PDict d \<Rightarrow> Inr (PlainCall (dget_or d ''id'' es) (dget_or d ''name'' es) (dget_or d ''arguments'' es))
      | _ \<Rightarrow> Inl AttributeError)"

text \<open>The events of a prefix of calls are out before one of them raises.\<close>

fun provider_calls :: "pyval list \<Rightarrow> plain_event list \<times> bool" where
  "provider_calls [] = ([], False)"
| "provider_calls (c # cs) =
     (case provider_call c of
        Inl e \<Rightarrow> ([], True)
      | Inr e \<Rightarrow> (case provider_calls cs of (evs, bad) \<Rightarrow> (e # evs, bad)))"

definition usage_tokens :: "pydict \<Rightarrow> (int \<times> int) res" where
  "usage_tokens c =
     (case dget_or c ''usage'' (PDict []) of
        PDict u \<Rightarrow> Inr (tokens_of (dget_or u ''prompt_tokens'' (PInt 0)), tokens_of (dget_or u ''completion_tokens'' (PInt 0)))
      | _ \<Rightarrow> Inl AttributeError)"

fun provider_chunks :: "bool \<Rightarrow> bool \<Rightarrow> pydict list \<Rightarrow> int \<Rightarrow> int \<Rightarrow> plain_event list \<times> int \<times> int" where
  "provider_chunks tools failed [] a b = (plain_end tools failed, a, b)"
| "provider_chunks tools failed (c # cs) a b =
     (if truthy (mget c ''tool_calls'')
      then (case py_iter (mget c ''tool_calls'') of
              Inl e \<Rightarrow> (text_event (mget c ''content'') @ [PlainError], a, b)
            | Inr ks \<Rightarrow> (case provider_calls ks of
                (evs, bad) \<Rightarrow> (text_event (mget c ''content'') @ evs @ (if bad then [PlainError] else []), a, b)))
      else case usage_tokens c of
             Inl e \<Rightarrow> (text_event (mget c ''content'') @ [PlainError], a, b)
           | Inr (i, n) \<Rightarrow>
               if mget c ''finish_reason'' \<in> {PStr ''stop'', PStr ''length''} then (text_event (mget c ''content'') @ [PlainDone], a + i, b + n)
               else if mget c ''finish_reason'' = PStr ''error'' then (text_event (mget c ''content'') @ [PlainError], a + i, b + n)
               else case provider_chunks tools failed cs (a + i) (b + n) of (evs, r) \<Rightarrow> (text_event (mget c ''content'') @ evs, r))"

definition run_provider :: "int \<Rightarrow> bool \<Rightarrow> (pydict list \<Rightarrow> pydict list \<times> bool) \<Rightarrow> string \<Rightarrow> pydict list \<Rightarrow> string \<Rightarrow> plain_event list" where
  "run_provider max_turns tools stream system history content =
     (if max_turns \<le> 0 then [PlainUsage 0 0]
      else case stream (provider_messages system history content) of
             (cs, failed) \<Rightarrow> (case provider_chunks tools failed cs 0 0 of (evs, a, b) \<Rightarrow> evs @ [PlainUsage a b]))"

section \<open>Properties\<close>

text \<open>A chunk of the gateway as a provider would give it.\<close>

definition chunk_dict :: "chat_response \<Rightarrow> pydict" where
  "chunk_dict c =
     [(''content'', cr_content c),
      (''tool_calls'', PList (map (\<lambda>k. call_dict (cl_id k) (cl_name k) (cl_arguments k)) (cr_tool_calls c))),
      (''usage'', PDict [(''prompt_tokens'', cr_input_tokens c), (''completion_tokens'', cr_output_tokens c)]),
      (''finish_reason'', cr_finish c)]"

lemma provider_calls_dicts:
  "provider_calls (map (\<lambda>k. call_dict (cl_id k) (cl_name k) (cl_arguments k)) ks) =
     (map (\<lambda>k. PlainCall (cl_id k) (cl_name k) (cl_arguments k)) ks, False)"
  by (induction ks) (simp_all add: provider_call_def call_dict_def dget_or_def)

lemma chunk_dict_sel [simp]:
  "mget (chunk_dict c) ''content'' = cr_content c" "mget (chunk_dict c) ''finish_reason'' = cr_finish c"
  "mget (chunk_dict c) ''tool_calls'' = PList (map (\<lambda>k. call_dict (cl_id k) (cl_name k) (cl_arguments k)) (cr_tool_calls c))"
  "usage_tokens (chunk_dict c) = Inr (tokens_of (cr_input_tokens c), tokens_of (cr_output_tokens c))"
  by (simp_all add: chunk_dict_def usage_tokens_def dget_or_def)

text \<open>The two loops agree: over the dictionaries of a provider the second one has the events that the first one has over the
  chunks of the gateway.\<close>

theorem plain_loops_agree:
  "provider_chunks tools failed (map chunk_dict cs) a b = plain_chunks tools failed cs a b"
  by (induction cs arbitrary: a b) (simp_all add: provider_calls_dicts split: prod.split)

text \<open>The tokens of an answer with tool calls are never counted: the stream is left before the tokens of that chunk and of
  all later ones are looked at, so the usage that is reported and billed is that of the chunks before.\<close>

theorem tool_turns_are_not_counted:
  assumes "plain_messages system history content = Inr ms" "stream ms = (quiet @ c # rest, failed)" "0 < max_turns"
    and "cr_tool_calls c \<noteq> []"
    and "list_all (\<lambda>q. cr_tool_calls q = [] \<and> cr_finish q = es \<and> tokens_of (cr_input_tokens q) = 0 \<and> tokens_of (cr_output_tokens q) = 0) quiet"
  shows "\<exists>evs. run_plain max_turns tools stream system history content = Inr (evs @ [PlainUsage 0 0])"
proof -
  have "snd (plain_chunks tools failed (quiet @ c # rest) a b) = (a, b)" for a b
    using assms(5) by (induction quiet) (auto simp: assms(4) split: prod.split)
  then show ?thesis using assms(1-3) by (cases "plain_chunks tools failed (quiet @ c # rest) 0 0")
      (auto simp: run_plain_def dest: arg_cong [of _ _ snd])
qed

definition tool_chunk :: chat_response where
  "tool_chunk = \<lparr>cr_content = es, cr_reasoning = es, cr_tool_calls = [\<lparr>cl_id = PStr ''c1'', cl_name = PStr ''read'', cl_arguments = es\<rparr>],
     cr_finish = PStr ''tool_calls'', cr_message = [], cr_input_tokens = PInt 900, cr_output_tokens = PInt 20, cr_provider = [],
     cr_model = [], cr_latency_ms = 0\<rparr>"

theorem tool_turns_are_not_counted_witness:
  "\<exists>evs. run_plain 5 True (\<lambda>ms. ([] @ tool_chunk # [], False)) [] [] ''hi'' = Inr (evs @ [PlainUsage 0 0])"
  by (rule tool_turns_are_not_counted [where ms = "[plain_message ''user'' ''hi'']" and quiet = "[]" and c = tool_chunk and rest = "[]" and failed = False])
    (simp_all add: plain_messages_def tool_chunk_def)

end
