(* ===== verification/Tracing.thy ===== *)
theory Tracing
  imports Workflow Conflicts
begin

text \<open>
  The engine with traces, \<^verbatim>\<open>app/workflow/tracing_engine.py\<close>: it runs a graph with the node functions of the
  plain engine, writes events and spans, goes on after a node that failed, and applies edits of the configuration
  that were left for the instance. Identifiers of nodes are distinct, so that a node is its identifier;
  JSON and the clock are arguments. Durations and times in results, events and spans are left out.
\<close>

section \<open>Edit sessions\<close>

record edit_command =
  ec_node :: string
  ec_command :: string
  ec_updates :: pydict
  ec_tenant :: string

record edit_session =
  ed_instance :: string
  ed_tenant :: string
  ed_commands :: "edit_command list"
  ed_expires :: pyfloat

type_synonym edit_sessions = "(string, edit_session) dict"

definition edit_session_ttl :: pyfloat where
  "edit_session_ttl = 3600"

definition edit_expired :: "pyfloat \<Rightarrow> edit_session \<Rightarrow> bool" where
  "edit_expired now s \<longleftrightarrow> ed_expires s \<noteq> 0 \<and> now > ed_expires s"

definition get_edit_session :: "pyfloat \<Rightarrow> string \<Rightarrow> edit_sessions \<Rightarrow> edit_session option \<times> edit_sessions" where
  "get_edit_session now sid d =
     (case dget d sid of
        None \<Rightarrow> (None, d)
      | Some s \<Rightarrow> if edit_expired now s then (None, ddel sid d) else (Some s, d))"

definition create_edit_session :: "pyfloat \<Rightarrow> string \<Rightarrow> string \<Rightarrow> string \<Rightarrow> pyfloat \<Rightarrow> edit_sessions \<Rightarrow> edit_sessions" where
  "create_edit_session now sid inst tenant ttl d =
     dset sid \<lparr>ed_instance = inst, ed_tenant = tenant, ed_commands = [], ed_expires = now + ttl\<rparr> d"

definition check_edit_commands :: "pyfloat \<Rightarrow> string \<Rightarrow> string \<Rightarrow> edit_sessions \<Rightarrow> (string \<times> edit_session) option" where
  "check_edit_commands now inst tenant d =
     find (\<lambda>(sid, s). ed_instance s = inst \<and> ed_tenant s = tenant \<and> \<not> edit_expired now s) d"

text \<open>\<open>{**current, **updates}\<close> for every command of this node.\<close>

definition apply_edits :: "edit_command list \<Rightarrow> wf_node \<Rightarrow> wf_node" where
  "apply_edits cs n =
     foldl (\<lambda>n c. if ec_node c = wn_id n \<and> ec_command c = ''update_config''
        then n\<lparr>wn_config := dict_update (wn_config n) (ec_updates c)\<rparr> else n) n cs"

section \<open>The run\<close>

datatype trace_event =
    WfStart string nat
  | NodeStart string string pyval nat nat
  | NodeError string string
  | SpanError pyval string
  | SpanNode pyval string string nat
  | WfDone nat nat nat
  | WfError string

text \<open>The nodes of the graph change by the edits; the engine looks them up when a node runs.\<close>

record 'w traced =
  td_nodes :: "wf_node list"
  td_state :: pydict
  td_results :: "(string, node_result) dict"
  td_sessions :: edit_sessions
  td_world :: 'w

record ('w) trace_env =
  te_services :: "'w services"
  te_clock :: "'w \<Rightarrow> pyfloat"
  te_dumps :: "pyval \<Rightarrow> string"
  te_loads :: "string \<Rightarrow> string + pyval"

definition label_of :: "wf_node \<Rightarrow> pyval" where
  "label_of n = (case wn_label n of None \<Rightarrow> PStr (wn_id n) | Some l \<Rightarrow> l)"

definition edit_step :: "'w trace_env \<Rightarrow> string \<Rightarrow> string \<Rightarrow> string \<Rightarrow> 'w traced \<Rightarrow> 'w traced" where
  "edit_step env inst tenant i s =
     (case check_edit_commands (te_clock env (td_world s)) inst tenant (td_sessions s) of
        None \<Rightarrow> s
      | Some (sid, e) \<Rightarrow>
          s\<lparr>td_nodes := map (\<lambda>n. if wn_id n = i then apply_edits (ed_commands e) n else n) (td_nodes s),
            td_sessions := ddel sid (td_sessions s)\<rparr>)"

text \<open>What a node gives is written as JSON, kept so, and read back into the state.\<close>

definition absorb_output :: "'w trace_env \<Rightarrow> string \<Rightarrow> pydict \<Rightarrow> pydict" where
  "absorb_output env out st =
     (if out = [] then st
      else case te_loads env out of Inr (PDict d) \<Rightarrow> dict_update st d | _ \<Rightarrow> st)"

definition run_traced_node ::
  "'w trace_env \<Rightarrow> wf_graph \<Rightarrow> string \<Rightarrow> 'w traced \<Rightarrow> (string + string) \<times> 'w" where
  "run_traced_node env g i s =
     (case build_node_fns (te_services env) (g\<lparr>wg_nodes := td_nodes s\<rparr>) of
        Inl e \<Rightarrow> (Inl e, td_world s)
      | Inr fns \<Rightarrow>
          (case fns i (td_state s) (td_world s) of
             (Inl e, w) \<Rightarrow> (Inl e, w)
           | (Inr v, w) \<Rightarrow> (Inr (te_dumps env (PDict [(out_key i, v)])), w)))"

definition traced_node ::
  "'w trace_env \<Rightarrow> wf_graph \<Rightarrow> string \<Rightarrow> string \<Rightarrow> nat \<Rightarrow> nat \<Rightarrow> wf_node \<Rightarrow> 'w traced \<Rightarrow> trace_event list \<times> 'w traced" where
  "traced_node env g inst tenant m idx n s =
     (let i = wn_id n; kind = (case wn_type n of None \<Rightarrow> ''default'' | Some t \<Rightarrow> t); l = label_of n;
          s1 = edit_step env inst tenant i s
      in if i \<notin> wn_id ` set (td_nodes s1)
         then (let e = ''Unknown node type: '' @ kind @ '' (id='' @ i @ '')''
               in ([NodeStart i kind l idx m, SpanError l e, NodeError i e, SpanNode l kind ''error'' idx],
                   s1\<lparr>td_results := dset i \<lparr>nr_node_id = i, nr_status = ''error'', nr_output = [], nr_error = e\<rparr> (td_results s1)\<rparr>))
         else case run_traced_node env g i s1 of
           (Inl e, w) \<Rightarrow>
             ([NodeStart i kind l idx m, SpanError l e, SpanNode l kind ''error'' idx],
              s1\<lparr>td_results := dset i \<lparr>nr_node_id = i, nr_status = ''error'', nr_output = [], nr_error = e\<rparr> (td_results s1), td_world := w\<rparr>)
         | (Inr out, w) \<Rightarrow>
             ([NodeStart i kind l idx m, SpanNode l kind ''completed'' idx],
              s1\<lparr>td_results := dset i \<lparr>nr_node_id = i, nr_status = ''completed'', nr_output = out, nr_error = []\<rparr> (td_results s1),
                 td_state := absorb_output env out (td_state s1), td_world := w\<rparr>))"

fun traced_nodes ::
  "'w trace_env \<Rightarrow> wf_graph \<Rightarrow> string \<Rightarrow> string \<Rightarrow> nat \<Rightarrow> nat \<Rightarrow> wf_node list \<Rightarrow> 'w traced \<Rightarrow> trace_event list \<times> 'w traced" where
  "traced_nodes env g inst tenant m idx [] s = ([], s)"
| "traced_nodes env g inst tenant m idx (n # ns) s =
     (case traced_node env g inst tenant m idx n s of
        (evs, s1) \<Rightarrow> (case traced_nodes env g inst tenant m (Suc idx) ns s1 of (evs', s2) \<Rightarrow> (evs @ evs', s2)))"

definition count_status :: "string \<Rightarrow> (string, node_result) dict \<Rightarrow> nat" where
  "count_status st res = length (filter (\<lambda>(i, r). nr_status r = st) res)"

definition run_workflow_with_trace ::
  "'w trace_env \<Rightarrow> wf_graph \<Rightarrow> pydict \<Rightarrow> string \<Rightarrow> string \<Rightarrow> edit_sessions \<Rightarrow> 'w \<Rightarrow> trace_event list \<times> 'w traced" where
  "run_workflow_with_trace env g init inst tenant sessions w =
     (let s = \<lparr>td_nodes = wg_nodes g, td_state = init, td_results = [], td_sessions = sessions, td_world = w\<rparr>;
          order = topological_sort wn_id (wg_nodes g) (wg_edges g); start = WfStart (wg_name g) (length (wg_nodes g))
      in case build_node_fns (te_services env) g of
           Inl e \<Rightarrow> ([start, WfError e], s)
         | Inr fns \<Rightarrow>
             (case traced_nodes env g inst tenant (length order) 0 order s of
                (evs, s1) \<Rightarrow>
                  (start # evs @ [WfDone (length (wg_nodes g)) (count_status ''completed'' (td_results s1)) (count_status ''error'' (td_results s1))],
                   s1)))"

section \<open>Properties\<close>

lemma dict_update_one [simp]: "dict_update st [(k, v)] = dset k v st"
  by (simp add: dict_update_def)

lemma apply_edits_id [simp]: "wn_id (apply_edits cs n) = wn_id n" "wn_type (apply_edits cs n) = wn_type n"
proof -
  have "wn_id (foldl f n cs) = wn_id n \<and> wn_type (foldl f n cs) = wn_type n"
    if "\<And>n c. wn_id (f n c) = wn_id n \<and> wn_type (f n c) = wn_type n" for f
    using that by (induction cs arbitrary: n) simp_all
  then show "wn_id (apply_edits cs n) = wn_id n" "wn_type (apply_edits cs n) = wn_type n"
    unfolding apply_edits_def by simp_all
qed

lemma edit_step_ids [simp]: "map wn_id (td_nodes (edit_step env inst tenant i s)) = map wn_id (td_nodes s)"
  by (auto simp: edit_step_def split: option.split)

lemma edit_step_idset [simp]: "wn_id ` set (td_nodes (edit_step env inst tenant i s)) = wn_id ` set (td_nodes s)"
  using edit_step_ids [of env inst tenant i s] by (metis list.set_map)

lemma edit_step_results [simp]: "td_results (edit_step env inst tenant i s) = td_results s"
  by (simp add: edit_step_def split: option.split)

lemma traced_node_results:
  assumes "traced_node env g inst tenant m idx n s = (evs, s1)"
  shows "map wn_id (td_nodes s1) = map wn_id (td_nodes s) \<and>
    (\<exists>r. td_results s1 = dset (wn_id n) r (td_results s) \<and> nr_status r \<in> {''completed'', ''error''}) \<and>
    (wn_id n \<in> wn_id ` set (td_nodes s) \<longrightarrow> (\<forall>i e. NodeError i e \<notin> set evs))"
  using assms by (auto simp: traced_node_def Let_def split: if_splits prod.splits sum.splits)

lemma traced_nodes_results:
  assumes "traced_nodes env g inst tenant m idx ns s = (evs, s1)" "wn_id ` set ns \<subseteq> wn_id ` set (td_nodes s)"
    and "list_all (\<lambda>(i, r). nr_status r \<in> {''completed'', ''error''}) (td_results s)" "distinct (keys (td_results s) @ map wn_id ns)"
  shows "keys (td_results s1) = keys (td_results s) @ map wn_id ns \<and>
    list_all (\<lambda>(i, r). nr_status r \<in> {''completed'', ''error''}) (td_results s1) \<and> (\<forall>i e. NodeError i e \<notin> set evs)"
  using assms
proof (induction ns arbitrary: idx s evs)
  case (Cons n ns)
  obtain e1 s2 e2 where e: "traced_node env g inst tenant m idx n s = (e1, s2)"
    "traced_nodes env g inst tenant m (Suc idx) ns s2 = (e2, s1)" "evs = e1 @ e2"
    using Cons.prems(1) by (auto split: prod.splits)
  obtain r where r: "map wn_id (td_nodes s2) = map wn_id (td_nodes s)" "td_results s2 = dset (wn_id n) r (td_results s)"
    "nr_status r \<in> {''completed'', ''error''}" "\<forall>i e. NodeError i e \<notin> set e1"
    using traced_node_results [OF e(1)] Cons.prems(2) by auto
  have new: "wn_id n \<notin> set (keys (td_results s))" using Cons.prems(4) by auto
  then have res: "td_results s2 = td_results s @ [(wn_id n, r)]" using r(2) by (simp add: dset_fresh)
  have "wn_id ` set ns \<subseteq> wn_id ` set (td_nodes s2)" using Cons.prems(2) arg_cong [OF r(1), of set] by auto
  from Cons.IH [OF e(2) this] res r(3,4) Cons.prems(3,4) e(3) show ?case by auto
qed simp

text \<open>A traced run of a graph with distinct identifiers goes on after nodes that failed: it ends with the event that it is done,
  whose numbers of completed and of failed nodes add up to the number of nodes, and never tells of a failed node by an
  event of its own.\<close>

theorem failed_nodes_go_unreported:
  assumes "distinct (map wn_id (wg_nodes g))" "build_node_fns (te_services env) g = Inr fns"
  shows "\<exists>evs c e s. run_workflow_with_trace env g init inst tenant sessions w = (evs @ [WfDone (length (wg_nodes g)) c e], s) \<and>
    c + e = length (wg_nodes g) \<and> (\<forall>i x. NodeError i x \<notin> set evs)"
proof -
  let ?order = "topological_sort wn_id (wg_nodes g) (wg_edges g)"
  let ?s = "\<lparr>td_nodes = wg_nodes g, td_state = init, td_results = [], td_sessions = sessions, td_world = w\<rparr>"
  have perm: "mset ?order = mset (wg_nodes g)" using assms(1) by (rule mset_topological_sort)
  then have sets: "set ?order = set (wg_nodes g)" "distinct (map wn_id ?order)" "length ?order = length (wg_nodes g)"
    using assms(1) by (metis set_mset_mset, metis mset_eq_imp_distinct_iff mset_map, metis size_mset)
  obtain evs s1 where run: "traced_nodes env g inst tenant (length ?order) 0 ?order ?s = (evs, s1)" by fastforce
  have res: "keys (td_results s1) = map wn_id ?order" "list_all (\<lambda>(i, r). nr_status r \<in> {''completed'', ''error''}) (td_results s1)"
    "\<forall>i e. NodeError i e \<notin> set evs"
    using traced_nodes_results [OF run] sets by auto
  have "count_status ''completed'' rs + count_status ''error'' rs = length rs"
    if "list_all (\<lambda>(i, r). nr_status r \<in> {''completed'', ''error''}) rs" for rs
    using that by (induction rs) (auto simp: count_status_def)
  moreover have "length (td_results s1) = length (wg_nodes g)" using arg_cong [OF res(1), of length] sets(3) by simp
  ultimately show ?thesis using run res
    by (auto simp: run_workflow_with_trace_def assms(2) Let_def intro!: exI [of _ "WfStart (wg_name g) (length (wg_nodes g)) # evs"])
qed

text \<open>A graph and a run that satisfy what the two properties suppose.\<close>

definition sample_trace :: "unit trace_env" where
  "sample_trace = \<lparr>te_services = sample_services, te_clock = (\<lambda>_. 0), te_dumps = (\<lambda>_. ''x''), te_loads = (\<lambda>_. Inl [])\<rparr>"

theorem failed_nodes_go_unreported_witness:
  "\<exists>evs c e s. run_workflow_with_trace sample_trace sample_graph [] ''i'' ''t'' [] () = (evs @ [WfDone 2 c e], s) \<and>
     c + e = 2 \<and> (\<forall>i x. NodeError i x \<notin> set evs)"
  using failed_nodes_go_unreported [of sample_graph sample_trace _ "[]" "''i''" "''t''" "[]" "()"]
  by (auto simp: sample_graph_def sample_trace_def build_node_fns_def)





lemma apply_edits_other: "\<forall>c \<in> set cs. ec_node c \<noteq> wn_id n \<Longrightarrow> apply_edits cs n = n"
  unfolding apply_edits_def by (induction cs) auto

text \<open>The first node that runs consumes the edits of the instance: when the waiting edit session changes later nodes
  only, the run does exactly what it does when that session was never made, so the edits are lost.\<close>

theorem edits_for_later_nodes_are_lost:
  assumes "build_node_fns (te_services env) g = Inr fns"
    and "topological_sort wn_id (wg_nodes g) (wg_edges g) = n # ns"
    and "check_edit_commands (te_clock env w) inst tenant sessions = Some (sid, e)"
    and "\<forall>c \<in> set (ed_commands e). ec_node c \<noteq> wn_id n"
    and "check_edit_commands (te_clock env w) inst tenant (ddel sid sessions) = None"
  shows "run_workflow_with_trace env g init inst tenant sessions w =
    run_workflow_with_trace env g init inst tenant (ddel sid sessions) w"
proof -
  let ?s = "\<lambda>ss. \<lparr>td_nodes = wg_nodes g, td_state = init, td_results = [], td_sessions = ss, td_world = w\<rparr>"
  have "map (\<lambda>k. if wn_id k = wn_id n then apply_edits (ed_commands e) k else k) ks = ks" for ks
    by (rule map_idI) (use assms(4) apply_edits_other in metis)
  then have "edit_step env inst tenant (wn_id n) (?s sessions) = ?s (ddel sid sessions)"
    by (simp add: edit_step_def assms(3))
  moreover have "edit_step env inst tenant (wn_id n) (?s (ddel sid sessions)) = ?s (ddel sid sessions)"
    by (simp add: edit_step_def assms(5))
  ultimately have "traced_node env g inst tenant m 0 n (?s sessions) = traced_node env g inst tenant m 0 n (?s (ddel sid sessions))" for m
    by (simp add: traced_node_def)
  then show ?thesis by (simp add: run_workflow_with_trace_def Let_def assms(1,2))
qed

definition later_edit :: edit_sessions where
  "later_edit = [(''e'', \<lparr>ed_instance = ''i'', ed_tenant = ''t'', ed_commands = [\<lparr>ec_node = ''b'', ec_command = ''update_config'',
     ec_updates = [], ec_tenant = ''t''\<rparr>], ed_expires = 9\<rparr>)]"

theorem edits_for_later_nodes_are_lost_witness:
  "run_workflow_with_trace sample_trace sample_graph [] ''i'' ''t'' later_edit () =
   run_workflow_with_trace sample_trace sample_graph [] ''i'' ''t'' [] ()"
proof -
  have fns: "build_node_fns (te_services sample_trace) sample_graph = Inr (projr (build_node_fns sample_services sample_graph))"
    by (simp add: sample_trace_def sample_graph_def build_node_fns_def)
  have order: "topological_sort wn_id (wg_nodes sample_graph) (wg_edges sample_graph) =
      [wg_nodes sample_graph ! 1, wg_nodes sample_graph ! 0]" by code_simp
  have "check_edit_commands (te_clock sample_trace ()) ''i'' ''t'' later_edit = Some (hd later_edit)"
    by (simp add: check_edit_commands_def later_edit_def edit_expired_def sample_trace_def)
  moreover have "hd later_edit = (''e'', snd (hd later_edit))" "ddel ''e'' later_edit = []" by (simp_all add: later_edit_def)
  ultimately show ?thesis
    using edits_for_later_nodes_are_lost [OF fns order, of "()" "''i''" "''t''" later_edit "''e''" "snd (hd later_edit)" "[]"]
    by (simp add: later_edit_def sample_graph_def check_edit_commands_def)
qed

end
