(* ===== verification/MultiAgent.thy ===== *)
theory MultiAgent
  imports AgentLoop Workflow
begin

text \<open>
  Sub-agents and their dispatcher, \<^verbatim>\<open>app/agent/multi_agent.py\<close>: a loop of its own for a named agent, whose tool calls go
  to the registry of tools, and a table of tasks in the background. The stream of the gateway, the handlers of the tools
  and JSON are arguments as in \<open>AgentLoop\<close>. The duration of a result is left out.
\<close>

section \<open>One sub-agent\<close>

record sub_agent =
  sg_name :: string
  sg_description :: string
  sg_prompt :: string
  sg_tools :: "pydict list"
  sg_gateway :: bool
  sg_model :: pyval
  sg_max_turns :: int
  sg_max_tokens :: int
  sg_temperature :: pyfloat

record sub_result =
  sx_success :: bool
  sx_output :: string
  sx_calls :: "chat_call list"
  sx_in :: int
  sx_out :: int
  sx_error :: string

record ('h, 'w) sub_env =
  se_stream :: "string \<Rightarrow> chat_message list \<Rightarrow> pyval \<Rightarrow> pyval \<Rightarrow> pyval \<Rightarrow> pyval \<Rightarrow> 'w \<Rightarrow>
    chat_response list \<times> string option \<times> (nat \<Rightarrow> 'w)"
  se_tools :: "'h tools"
  se_handler :: "'h \<Rightarrow> pyval \<Rightarrow> 'w \<Rightarrow> (string + pyval) \<times> 'w"
  se_dumps :: "pyval \<Rightarrow> string"
  se_loads :: "string \<Rightarrow> string + pyval"
  se_float :: "pyfloat \<Rightarrow> string"

definition new_sub_agent :: "string \<Rightarrow> string \<Rightarrow> string \<Rightarrow> pydict list option \<Rightarrow> bool \<Rightarrow> pyval \<Rightarrow> int \<Rightarrow> sub_agent" where
  "new_sub_agent name descr prompt tools gateway model max_turns =
     \<lparr>sg_name = name, sg_description = descr, sg_prompt = prompt, sg_tools = (case tools of None \<Rightarrow> [] | Some ts \<Rightarrow> ts),
      sg_gateway = gateway, sg_model = model, sg_max_turns = max_turns, sg_max_tokens = 4096, sg_temperature = 7 / 10\<rparr>"

definition sub_prompt :: "(pyfloat \<Rightarrow> string) \<Rightarrow> sub_agent \<Rightarrow> pydict option \<Rightarrow> string" where
  "sub_prompt fl a ctx =
     (case ctx of
        Some (kv # kvs) \<Rightarrow>
          sg_prompt a @ [CHR 0x0A, CHR 0x0A] @ ''## Context'' @ newline @
          py_join newline (map (\<lambda>(k, v). ''- '' @ k @ '': '' @ py_str fl v) (kv # kvs))
      | _ \<Rightarrow> sg_prompt a)"

definition sub_tool :: "pydict \<Rightarrow> pyval" where
  "sub_tool t = PDict [(''type'', PStr ''function''), (''function'', PDict [(''name'', dget_or t ''name'' es),
     (''description'', dget_or t ''description'' es), (''parameters'', dget_or t ''parameters'' (PDict []))])]"

definition sub_tools :: "sub_agent \<Rightarrow> pyval" where
  "sub_tools a = (if sg_tools a = [] then PNone else PList (map sub_tool (sg_tools a)))"

definition chat_text :: "string \<Rightarrow> string \<Rightarrow> chat_message" where
  "chat_text role content = \<lparr>ch_role = PStr role, ch_content = PStr content, ch_tool_call_id = es, ch_tool_calls = None\<rparr>"

definition sub_start :: "(pyfloat \<Rightarrow> string) \<Rightarrow> sub_agent \<Rightarrow> string \<Rightarrow> pydict option \<Rightarrow> chat_message list" where
  "sub_start fl a task ctx =
     (if sub_prompt fl a ctx \<noteq> [] then [chat_text ''system'' (sub_prompt fl a ctx)] else []) @ [chat_text ''user'' task]"

text \<open>The chunks of one answer, up to a chunk that finishes it or reports an error.\<close>

record sub_acc =
  sa_text :: string
  sa_calls :: "chat_call list"
  sa_in :: int
  sa_out :: int

datatype chunks_end = StreamEnd | Finished | ErrorChunk

definition sub_chunk :: "chat_response \<Rightarrow> sub_acc \<Rightarrow> sub_acc" where
  "sub_chunk c a = a\<lparr>sa_text := sa_text a @ chunk_text (cr_content c), sa_calls := sa_calls a @ cr_tool_calls c,
     sa_in := sa_in a + tokens_of (cr_input_tokens c), sa_out := sa_out a + tokens_of (cr_output_tokens c)\<rparr>"

fun sub_chunks :: "chat_response list \<Rightarrow> sub_acc \<Rightarrow> sub_acc \<times> chunks_end \<times> nat" where
  "sub_chunks [] a = (a, StreamEnd, 0)"
| "sub_chunks (c # cs) a =
     (let a1 = sub_chunk c a
      in if cr_finish c \<in> {PStr ''stop'', PStr ''length''} then (a1, Finished, 1)
         else if cr_finish c = PStr ''error'' then (a1, ErrorChunk, 1)
         else case sub_chunks cs a1 of (a2, e, n) \<Rightarrow> (a2, e, Suc n))"

text \<open>The user of the tool context, and the execution of one call by the registry.\<close>

definition sub_user :: "pydict option \<Rightarrow> string \<Rightarrow> string" where
  "sub_user ctx tenant =
     (let u = (case ctx of None \<Rightarrow> es | Some d \<Rightarrow> mget d ''user_id'')
      in if truthy u then str_of u else if tenant \<noteq> [] then tenant else ''anonymous'')"

definition sub_args :: "('h, 'w) sub_env \<Rightarrow> pyval \<Rightarrow> pyval" where
  "sub_args env raw =
     (let v = (case raw of PStr s \<Rightarrow> (case se_loads env s of Inl e \<Rightarrow> PDict [(''input'', raw)] | Inr v \<Rightarrow> v)
               | _ \<Rightarrow> py_or raw (PDict []))
      in if is_dict v then v else PDict [(''input'', v)])"

definition sub_execute :: "('h, 'w) sub_env \<Rightarrow> string \<Rightarrow> chat_call \<Rightarrow> 'w \<Rightarrow> pyval \<times> 'w" where
  "sub_execute env user c w =
     (case tg_execute (se_handler env) user (str_of (cl_name c)) (sub_args env (cl_arguments c)) [] (se_tools env) w of
        (d, w') \<Rightarrow> (PDict (dict_update [(''tool'', cl_name c)] d), w'))"

definition tool_message :: "('h, 'w) sub_env \<Rightarrow> chat_call \<Rightarrow> pyval \<Rightarrow> chat_message" where
  "tool_message env c r =
     \<lparr>ch_role = PStr ''tool'', ch_content = PStr (se_dumps env r), ch_tool_call_id = cl_id c, ch_tool_calls = None\<rparr>"

fun sub_calls :: "('h, 'w) sub_env \<Rightarrow> string \<Rightarrow> chat_call list \<Rightarrow> 'w \<Rightarrow> chat_message list \<times> 'w" where
  "sub_calls env user [] w = ([], w)"
| "sub_calls env user (c # cs) w =
     (case sub_execute env user c w of
        (r, w1) \<Rightarrow> (case sub_calls env user cs w1 of (ms, w2) \<Rightarrow> (tool_message env c r # ms, w2)))"

definition call_message :: "sub_acc \<Rightarrow> chat_message" where
  "call_message a = \<lparr>ch_role = PStr ''assistant'', ch_content = PStr (sa_text a), ch_tool_call_id = es, ch_tool_calls = Some (sa_calls a)\<rparr>"

record sub_state =
  sb_messages :: "chat_message list"
  sb_calls :: "chat_call list"
  sb_in :: int
  sb_out :: int

datatype sub_step = SubAgain | SubAnswer string | SubFailed string string

definition sub_stream :: "('h, 'w) sub_env \<Rightarrow> sub_agent \<Rightarrow> string \<Rightarrow> chat_message list \<Rightarrow> 'w \<Rightarrow>
  chat_response list \<times> string option \<times> (nat \<Rightarrow> 'w)" where
  "sub_stream env a tenant ms w =
     se_stream env tenant ms (sg_model a) (PInt (sg_max_tokens a)) (PFloat (sg_temperature a)) (sub_tools a) w"

definition sub_turn :: "('h, 'w) sub_env \<Rightarrow> sub_agent \<Rightarrow> string \<Rightarrow> string \<Rightarrow> sub_state \<Rightarrow> 'w \<Rightarrow> sub_step \<times> sub_state \<times> 'w" where
  "sub_turn env a tenant user s w =
     (case sub_stream env a tenant (sb_messages s) w of
        (chunks, exn, world) \<Rightarrow>
          (case sub_chunks chunks \<lparr>sa_text = [], sa_calls = [], sa_in = sb_in s, sa_out = sb_out s\<rparr> of
             (acc, e, n) \<Rightarrow>
               (let s1 = s\<lparr>sb_in := sa_in acc, sb_out := sa_out acc\<rparr>; s2 = s1\<lparr>sb_calls := sb_calls s @ sa_calls acc\<rparr>
                in case (e, exn) of
                     (ErrorChunk, _) \<Rightarrow> (SubFailed (sa_text acc) ''LLM returned error'', s1, world n)
                   | (StreamEnd, Some x) \<Rightarrow> (SubFailed [] x, s1, world n)
                   | _ \<Rightarrow>
                       (if sa_calls acc = [] then (SubAnswer (sa_text acc), s2, world n)
                        else case sub_calls env user (sa_calls acc) (world n) of
                               (rs, w1) \<Rightarrow> (SubAgain, s2\<lparr>sb_messages := sb_messages s @ call_message acc # rs\<rparr>, w1)))))"

text \<open>The turns, with the messages of every request.\<close>

fun sub_turns :: "('h, 'w) sub_env \<Rightarrow> sub_agent \<Rightarrow> string \<Rightarrow> string \<Rightarrow> nat \<Rightarrow> sub_state \<Rightarrow> 'w \<Rightarrow>
  chat_message list list \<times> sub_step \<times> sub_state \<times> 'w" where
  "sub_turns env a tenant user 0 s w = ([], SubAnswer [], s, w)"
| "sub_turns env a tenant user (Suc n) s w =
     (case sub_turn env a tenant user s w of
        (SubAgain, s1, w1) \<Rightarrow> (case sub_turns env a tenant user n s1 w1 of (qs, r) \<Rightarrow> (sb_messages s # qs, r))
      | (r, s1, w1) \<Rightarrow> ([sb_messages s], r, s1, w1))"

definition sub_result_of :: "sub_step \<Rightarrow> sub_state \<Rightarrow> sub_result" where
  "sub_result_of r s =
     (case r of
        SubFailed out e \<Rightarrow> \<lparr>sx_success = False, sx_output = out, sx_calls = sb_calls s, sx_in = sb_in s, sx_out = sb_out s, sx_error = e\<rparr>
      | SubAnswer out \<Rightarrow> \<lparr>sx_success = True, sx_output = out, sx_calls = sb_calls s, sx_in = sb_in s, sx_out = sb_out s, sx_error = []\<rparr>
      | SubAgain \<Rightarrow> \<lparr>sx_success = True, sx_output = [], sx_calls = sb_calls s, sx_in = sb_in s, sx_out = sb_out s, sx_error = []\<rparr>)"

definition failed_result :: "string \<Rightarrow> sub_result" where
  "failed_result e = \<lparr>sx_success = False, sx_output = [], sx_calls = [], sx_in = 0, sx_out = 0, sx_error = e\<rparr>"

definition sub_run :: "('h, 'w) sub_env \<Rightarrow> sub_agent \<Rightarrow> string \<Rightarrow> pydict option \<Rightarrow> string \<Rightarrow> 'w \<Rightarrow>
  chat_message list list \<times> sub_result \<times> 'w" where
  "sub_run env a task ctx tenant w =
     (if \<not> sg_gateway a then ([], failed_result ''No gateway configured for this sub-agent'', w)
      else case sub_turns env a tenant (sub_user ctx tenant) (nat (sg_max_turns a))
              \<lparr>sb_messages = sub_start (se_float env) a task ctx, sb_calls = [], sb_in = 0, sb_out = 0\<rparr> w of
             (qs, r, s, w1) \<Rightarrow> (qs, sub_result_of r s, w1))"

section \<open>The dispatcher\<close>

text \<open>
  The table of agents, the tasks in the background by their identifiers, and the results in the order in which they came.
  \<open>di_running\<close> are the tasks of the event loop, which the dispatcher itself does not keep.
\<close>

record dispatcher =
  di_agents :: "(string, sub_agent) dict"
  di_active :: "string list"
  di_results :: "(string, sub_result) dict"
  di_running :: "string list"

definition max_results :: nat where
  "max_results = 500"

definition register_agent :: "sub_agent \<Rightarrow> dispatcher \<Rightarrow> dispatcher" where
  "register_agent a d = d\<lparr>di_agents := dset (sg_name a) a (di_agents d)\<rparr>"

definition bound_results :: "(string, sub_result) dict \<Rightarrow> (string, sub_result) dict" where
  "bound_results rs = drop (length rs - max_results) rs"

definition cleanup_results :: "dispatcher \<Rightarrow> nat \<times> dispatcher" where
  "cleanup_results d = (length (di_results d) - max_results, d\<lparr>di_results := bound_results (di_results d)\<rparr>)"

definition agent_missing :: "string \<Rightarrow> sub_result" where
  "agent_missing name = failed_result (''Agent '' @ quoted name @ '' not found'')"

definition dispatch_agent :: "('h, 'w) sub_env \<Rightarrow> string \<Rightarrow> string \<Rightarrow> pydict option \<Rightarrow> string \<Rightarrow> dispatcher \<Rightarrow> 'w \<Rightarrow> sub_result \<times> 'w" where
  "dispatch_agent env name task ctx tenant d w =
     (case dget (di_agents d) name of
        None \<Rightarrow> (agent_missing name, w)
      | Some a \<Rightarrow> snd (sub_run env a task ctx tenant w))"

text \<open>A task is launched under a fresh identifier; it ends with a result or is cancelled; \<open>cancel_all\<close> first asks the
  tasks it knows and, when they have ended, forgets all tasks.\<close>

definition store_result :: "string \<Rightarrow> sub_result \<Rightarrow> dispatcher \<Rightarrow> dispatcher" where
  "store_result i r d = d\<lparr>di_results := bound_results (dset i r (di_results d))\<rparr>"

definition dispatch_async :: "string \<Rightarrow> string \<Rightarrow> dispatcher \<Rightarrow> dispatcher" where
  "dispatch_async name i d =
     (if dget (di_agents d) name = None then store_result i (agent_missing name) d
      else d\<lparr>di_active := di_active d @ [i], di_running := di_running d @ [i]\<rparr>)"

definition task_ends :: "string \<Rightarrow> sub_result \<Rightarrow> dispatcher \<Rightarrow> dispatcher" where
  "task_ends i r d =
     (let d1 = store_result i r d in d1\<lparr>di_active := remove1 i (di_active d1), di_running := remove1 i (di_running d1)\<rparr>)"

definition task_cancelled :: "string \<Rightarrow> dispatcher \<Rightarrow> dispatcher" where
  "task_cancelled i d = d\<lparr>di_running := remove1 i (di_running d)\<rparr>"

definition forget_all :: "dispatcher \<Rightarrow> dispatcher" where
  "forget_all d = d\<lparr>di_active := []\<rparr>"

datatype poll = Ready sub_result | Pending | Unknown

definition get_result :: "string \<Rightarrow> dispatcher \<Rightarrow> poll" where
  "get_result i d =
     (case dget (di_results d) i of
        Some r \<Rightarrow> Ready r
      | None \<Rightarrow> if i \<in> set (di_active d) then Pending else Unknown)"

definition active_count :: "dispatcher \<Rightarrow> nat" where
  "active_count d = length (di_active d)"

section \<open>What the model is sent\<close>

text \<open>A conversation in which the calls of a message are answered right after it, in their order, and nothing else is an answer.\<close>

definition calls_in :: "chat_message \<Rightarrow> chat_call list" where
  "calls_in m = (case ch_tool_calls m of None \<Rightarrow> [] | Some cs \<Rightarrow> cs)"

definition is_answer :: "chat_message \<Rightarrow> bool" where
  "is_answer m \<longleftrightarrow> ch_role m = PStr ''tool''"

function well_paired :: "chat_message list \<Rightarrow> bool" where
  "well_paired [] = True"
| "well_paired (m # ms) =
     (let n = length (calls_in m)
      in \<not> is_answer m \<and> map ch_tool_call_id (take n ms) = map cl_id (calls_in m) \<and> list_all is_answer (take n ms) \<and> well_paired (drop n ms))"
  by pat_completeness auto
termination by (relation "measure length") simp_all

lemma well_paired_append: "well_paired xs \<Longrightarrow> well_paired ys \<Longrightarrow> well_paired (xs @ ys)"
proof (induction xs rule: well_paired.induct)
  case (2 m ms)
  have "length (take (length (calls_in m)) ms) = length (calls_in m)"
    using 2(2) map_eq_imp_length_eq by (fastforce simp: Let_def)
  then have "length (calls_in m) \<le> length ms" by simp
  with 2 show ?case by (simp add: Let_def)
qed simp

lemma sub_calls_answers:
  "sub_calls env user cs w = (rs, w') \<Longrightarrow> map ch_tool_call_id rs = map cl_id cs \<and> list_all is_answer rs \<and> length rs = length cs"
  by (induction cs arbitrary: rs w) (auto simp: tool_message_def is_answer_def split: prod.splits)

lemma answered_block: "sub_calls env user (sa_calls a) w = (rs, w') \<Longrightarrow> well_paired (call_message a # rs)"
  using sub_calls_answers [of env user "sa_calls a" w rs w'] by (simp add: call_message_def calls_in_def is_answer_def)

lemma sub_turn_again:
  assumes "sub_turn env a tenant user s w = (SubAgain, s1, w1)"
  shows "\<exists>rs. sb_messages s1 = sb_messages s @ rs \<and> well_paired rs"
  using assms by (auto simp del: well_paired.simps simp: sub_turn_def Let_def dest: answered_block split: prod.splits chunks_end.splits option.splits if_splits)

lemma sub_turns_requests:
  assumes "sub_turns env a tenant user n s w = (qs, r)" "well_paired (sb_messages s)" "\<exists>ys. sb_messages s = start @ ys"
  shows "length qs \<le> n \<and> (\<forall>q \<in> set qs. well_paired q \<and> (\<exists>ys. q = start @ ys))"
  using assms
proof (induction n arbitrary: s w qs r)
  case (Suc n)
  obtain st s1 w1 where t: "sub_turn env a tenant user s w = (st, s1, w1)" using prod_cases3 by blast
  show ?case
  proof (cases st)
    case SubAgain
    obtain qs1 where qs: "sub_turns env a tenant user n s1 w1 = (qs1, r)" "qs = sb_messages s # qs1"
      using Suc.prems(1) t SubAgain by (auto split: prod.splits)
    obtain rs where s1: "sb_messages s1 = sb_messages s @ rs" "well_paired rs" using sub_turn_again t SubAgain by metis
    have "well_paired (sb_messages s1)" "\<exists>ys. sb_messages s1 = start @ ys"
      using well_paired_append [OF Suc.prems(2) s1(2)] Suc.prems(3) s1(1) by auto
    from Suc.IH [OF qs(1) this] Suc.prems qs(2) show ?thesis by auto
  qed (use Suc.prems t in auto)
qed simp

lemma well_paired_start: "well_paired (sub_start fl a task ctx)"
  by (simp add: sub_start_def chat_text_def calls_in_def is_answer_def)

text \<open>A sub-agent sends at most as many requests as it has turns; each begins with its prompt and its task, and every tool
  call in it is followed by its own answer, in the order of the calls.\<close>

theorem sub_agent_requests_are_answered:
  "length (fst (sub_run env a task ctx tenant w)) \<le> nat (sg_max_turns a) \<and>
   list_all (\<lambda>q. well_paired q \<and> (\<exists>ys. q = sub_start (se_float env) a task ctx @ ys)) (fst (sub_run env a task ctx tenant w))"
proof -
  let ?s = "\<lparr>sb_messages = sub_start (se_float env) a task ctx, sb_calls = [], sb_in = 0, sb_out = 0\<rparr>"
  obtain qs r where run: "sub_turns env a tenant (sub_user ctx tenant) (nat (sg_max_turns a)) ?s w = (qs, r)" by (metis surj_pair)
  have "length qs \<le> nat (sg_max_turns a) \<and> (\<forall>q \<in> set qs. well_paired q \<and> (\<exists>ys. q = sub_start (se_float env) a task ctx @ ys))"
    by (rule sub_turns_requests [OF run]) (simp_all add: well_paired_start)
  then show ?thesis by (simp add: sub_run_def run list_all_iff split: prod.splits)
qed

section \<open>Turns that only call tools\<close>

lemma sub_chunks_calling:
  assumes "list_all (\<lambda>c. cr_finish c = PStr ''tool_calls'') cs"
  shows "case sub_chunks cs a of (a', e, n) \<Rightarrow> e = StreamEnd \<and> n = length cs \<and> sa_calls a' = sa_calls a @ concat (map cr_tool_calls cs)"
  using assms
proof (induction cs arbitrary: a)
  case (Cons c cs)
  with Cons.IH [of "sub_chunk c a"] show ?case by (auto simp: Let_def sub_chunk_def split: prod.splits)
qed simp

text \<open>A model that calls tools in whatever conversation.\<close>

definition keeps_calling :: "('h, 'w) sub_env \<Rightarrow> sub_agent \<Rightarrow> string \<Rightarrow> bool" where
  "keeps_calling env a tenant \<longleftrightarrow> (\<forall>ms w. case sub_stream env a tenant ms w of (chunks, exn, world) \<Rightarrow>
     exn = None \<and> list_all (\<lambda>c. cr_finish c = PStr ''tool_calls'') chunks \<and> list_ex (\<lambda>c. cr_tool_calls c \<noteq> []) chunks)"

lemma calling_turn:
  assumes "keeps_calling env a tenant"
  shows "\<exists>s1 w1. sub_turn env a tenant user s w = (SubAgain, s1, w1)"
proof -
  obtain chunks exn world where st: "sub_stream env a tenant (sb_messages s) w = (chunks, exn, world)" by (metis surj_pair)
  with assms have c: "exn = None" "list_all (\<lambda>c. cr_finish c = PStr ''tool_calls'') chunks" "concat (map cr_tool_calls chunks) \<noteq> []"
    by (auto simp: keeps_calling_def list_ex_iff dest!: spec [of _ "sb_messages s"] spec [of _ w])
  obtain acc where "sub_chunks chunks \<lparr>sa_text = [], sa_calls = [], sa_in = sb_in s, sa_out = sb_out s\<rparr> = (acc, StreamEnd, length chunks)"
    "sa_calls acc \<noteq> []" using sub_chunks_calling [OF c(2), of "\<lparr>sa_text = [], sa_calls = [], sa_in = sb_in s, sa_out = sb_out s\<rparr>"] c(3)
    by (auto split: prod.splits)
  then show ?thesis using c(1) by (auto simp: sub_turn_def st Let_def split: prod.splits)
qed

lemma calling_turns:
  "keeps_calling env a tenant \<Longrightarrow>
   \<exists>qs s1 w1. sub_turns env a tenant user n s w = (qs, SubAnswer [], s1, w1) \<and> length qs = n"
proof (induction n arbitrary: s w)
  case (Suc n)
  obtain s1 w1 where t: "sub_turn env a tenant user s w = (SubAgain, s1, w1)" using calling_turn [OF Suc.prems] by metis
  obtain qs s2 w2 where "sub_turns env a tenant user n s1 w1 = (qs, SubAnswer [], s2, w2)" "length qs = n"
    using Suc.IH [OF Suc.prems] by metis
  then show ?case by (simp add: t)
qed simp

text \<open>A sub-agent whose model still calls tools in its last turn has no answer, and reports success with an empty text.\<close>

theorem exhausted_agent_succeeds:
  assumes "keeps_calling env a tenant" and "sg_gateway a"
  shows "\<exists>qs r w1. sub_run env a task ctx tenant w = (qs, r, w1) \<and> length qs = nat (sg_max_turns a) \<and>
    sx_success r \<and> sx_output r = [] \<and> sx_error r = []"
proof -
  let ?s = "\<lparr>sb_messages = sub_start (se_float env) a task ctx, sb_calls = [], sb_in = 0, sb_out = 0\<rparr>"
  obtain qs s1 w1 where "sub_turns env a tenant (sub_user ctx tenant) (nat (sg_max_turns a)) ?s w = (qs, SubAnswer [], s1, w1)"
    "length qs = nat (sg_max_turns a)" using calling_turns [OF assms(1)] by metis
  then show ?thesis by (simp add: sub_run_def assms(2) sub_result_of_def)
qed

definition looping_chunk :: chat_response where
  "looping_chunk = \<lparr>cr_content = es, cr_reasoning = es, cr_tool_calls = [\<lparr>cl_id = PStr ''c1'', cl_name = PStr ''grep'', cl_arguments = PStr ''x''\<rparr>],
     cr_finish = PStr ''tool_calls'', cr_message = [], cr_input_tokens = PInt 1, cr_output_tokens = PInt 1, cr_provider = ''p'',
     cr_model = ''m'', cr_latency_ms = 0\<rparr>"

definition looping_env :: "(string, nat) sub_env" where
  "looping_env = \<lparr>se_stream = (\<lambda>t ms m k d ts w. ([looping_chunk], None, \<lambda>n. w)), se_tools = [], se_handler = (\<lambda>h v w. (Inr PNone, Suc w)),
     se_dumps = (\<lambda>v. ''{}''), se_loads = (\<lambda>s. Inr (PDict [(''pattern'', PStr ''a sk-abcdefghijklmnopqrstuvwx'')])), se_float = (\<lambda>f. [])\<rparr>"

lemma looping_env_calls: "keeps_calling looping_env a tenant"
  by (simp add: keeps_calling_def sub_stream_def looping_env_def looping_chunk_def)

theorem exhausted_agent_succeeds_witness:
  "\<exists>qs r w1. sub_run looping_env (new_sub_agent ''a'' [] [] None True PNone 3) ''t'' None ''acme'' 0 = (qs, r, w1) \<and> length qs = 3 \<and>
     sx_success r \<and> sx_output r = [] \<and> sx_error r = []"
  using exhausted_agent_succeeds [OF looping_env_calls, of "new_sub_agent ''a'' [] [] None True PNone 3" "''t''" None "''acme''" 0]
  by (simp add: new_sub_agent_def)

text \<open>The agent node of the workflow engine, with this sub-agent behind it.\<close>

definition workflow_sub_agent :: "agent_config \<Rightarrow> sub_agent" where
  "workflow_sub_agent c = new_sub_agent (str_of (ac_name c)) (str_of (ac_description c)) (str_of (ac_system_prompt c)) None True
     (ac_model c) (ac_max_turns c)"

definition workflow_agent ::
  "('h, 'w) sub_env \<Rightarrow> string \<Rightarrow> agent_config \<Rightarrow> string \<Rightarrow> 'w \<Rightarrow> (string + (bool \<times> string \<times> pyval)) \<times> 'w" where
  "workflow_agent env tenant c task w =
     (case sub_run env (workflow_sub_agent c) task None (if tenant = [] then ''default'' else tenant) w of
        (qs, r, w1) \<Rightarrow> (Inr (sx_success r, sx_error r, PStr (sx_output r)), w1))"

lemma exhausted_workflow_agent:
  assumes "keeps_calling env (workflow_sub_agent c) (if tenant = [] then ''default'' else tenant)"
  shows "\<exists>w1. workflow_agent env tenant c task w = (Inr (True, [], PStr []), w1)"
proof -
  let ?t = "if tenant = [] then ''default'' else tenant"
  obtain qs s1 w1 where "sub_turns env (workflow_sub_agent c) ?t (sub_user None ?t) (nat (sg_max_turns (workflow_sub_agent c)))
      \<lparr>sb_messages = sub_start (se_float env) (workflow_sub_agent c) task None, sb_calls = [], sb_in = 0, sb_out = 0\<rparr> w = (qs, SubAnswer [], s1, w1)"
    using calling_turns [OF assms] by metis
  then show ?thesis
    by (simp add: workflow_agent_def sub_run_def sub_result_of_def) (simp add: workflow_sub_agent_def new_sub_agent_def)
qed

text \<open>An agent node of a workflow whose agent never comes to an answer is completed with an empty output, not with an error.\<close>

theorem exhausted_agent_node_is_empty:
  assumes "\<And>c. keeps_calling env (workflow_sub_agent c) (if tenant = [] then ''default'' else tenant)"
    and "truthy (py_or (cfg node ''task'' empty_str) (PStr (prev_output (sv_float sv) edges st i)))"
    and "to_int (py_or (cfg node ''max_turns'' (PInt 6)) (PInt 6)) = Inr n"
  shows "fst (agent_node (sv\<lparr>sv_agent := workflow_agent env tenant\<rparr>) edges node st i w) = PStr []"
proof -
  have "fst (workflow_agent env tenant c task w) = Inr (True, [], PStr [])" for c task
    using exhausted_workflow_agent [OF assms(1), of c task w] by auto
  then show ?thesis using assms(2,3) by (simp add: agent_node_def Let_def case_prod_beta)
qed

definition looping_node :: wf_node where
  "looping_node = \<lparr>wn_id = ''n'', wn_type = Some ''agent'', wn_label = None, wn_config = [(''task'', PStr ''t'')]\<rparr>"

definition looping_services :: "nat services" where
  "looping_services = \<lparr>sv_chat = (\<lambda>ms m w. (([''hi''], None), w)), sv_tool = (\<lambda>n p w. (Inr PNone, w)),
     sv_skill = (\<lambda>n p w. (Inr [], w)), sv_kb = (\<lambda>k q n w. (Inr PNone, w)),
     sv_agent = (\<lambda>c t w. (Inl ''none'', w)), sv_float = (\<lambda>_. ''0.0''), sv_agent_description = [], sv_agent_prompt = []\<rparr>"

theorem exhausted_agent_node_is_empty_witness:
  "fst (agent_node (looping_services\<lparr>sv_agent := workflow_agent looping_env ''acme''\<rparr>) [] looping_node [] ''n'' 0) = PStr []"
  by (rule exhausted_agent_node_is_empty [where n = 6, OF looping_env_calls])
    (simp_all add: looping_node_def py_or_def dget_or_def cfg_def)

section \<open>Guards\<close>

text \<open>A tool call that the guard of the agent runtime blocks, so that the world stays as it is, is executed with the same
  arguments when it comes from a sub-agent: sub-agents have no guard and ask for no approval.\<close>

theorem sub_agents_are_not_guarded:
  assumes "cl_name k = PStr name" and "cl_arguments k = PStr s" and "se_loads env s = Inr (PDict d)"
    and "dget (se_tools env) name = Some t" and "td_owners t = []"
    and "ae_loads rt = se_loads env" and "tv_action (evaluate_dict name d) = Block"
  shows "(\<exists>r. run_tool rt task (cl_id k) name (cl_arguments k) w = ([], Inr r, w)) \<and>
    snd (sub_execute env user k w) = snd (se_handler env (td_handler t) (PDict d) w)"
  using assms
  by (auto simp: run_tool_def guard_args_def sub_execute_def sub_args_def tg_execute_def tool_visible_def py_or_def Let_def
      split: prod.splits sum.splits pyval.splits)

theorem sub_agents_are_not_guarded_witness:
  "snd (sub_execute (looping_env\<lparr>se_tools := [(''grep'', \<lparr>td_name = ''grep'', td_description = [], td_parameters = PNone,
      td_handler = [], td_owners = []\<rparr>)], se_loads := (\<lambda>s. Inr (PDict [(''command'', PStr ''git clone https://h/r'')]))\<rparr>) ''u''
     \<lparr>cl_id = PStr ''c1'', cl_name = PStr ''grep'', cl_arguments = PStr ''x''\<rparr> 0) = 1"
proof -
  let ?d = "[(''command'', PStr ''git clone https://h/r'')]"
  let ?t = "\<lparr>td_name = ''grep'', td_description = [], td_parameters = PNone, td_handler = [], td_owners = []\<rparr>"
  let ?env = "looping_env\<lparr>se_tools := [(''grep'', ?t)], se_loads := (\<lambda>s. Inr (PDict ?d))\<rparr>"
  let ?k = "\<lparr>cl_id = PStr ''c1'', cl_name = PStr ''grep'', cl_arguments = PStr ''x''\<rparr>"
  obtain rt :: "(string, nat) agent_env" where rt: "ae_loads rt = se_loads ?env" by (rule that [of "undefined\<lparr>ae_loads := se_loads ?env\<rparr>"]) simp
  have "tv_action (evaluate_dict ''grep'' ?d) = Block" by code_simp
  from sub_agents_are_not_guarded [of ?k "''grep''" "''x''" ?env ?d ?t rt _ 0 "''u''", OF _ _ _ _ _ rt this]
  show ?thesis by (simp add: looping_env_def)
qed

section \<open>Histories of a dispatcher\<close>

text \<open>
  The states of a dispatcher with a fixed table of agents, with the results in the order in which they came and the
  identifiers given out, which are never given out again.
\<close>

inductive di_reach :: "(string, sub_agent) dict \<Rightarrow> (string, sub_result) dict \<Rightarrow> string list \<Rightarrow> dispatcher \<Rightarrow> bool" where
  start: "di_reach ag [] [] \<lparr>di_agents = ag, di_active = [], di_results = [], di_running = []\<rparr>"
| launch: "di_reach ag hist ids d \<Longrightarrow> i \<notin> set ids \<Longrightarrow>
    di_reach ag (hist @ (if dget ag name = None then [(i, agent_missing name)] else [])) (i # ids) (dispatch_async name i d)"
| ends: "di_reach ag hist ids d \<Longrightarrow> i \<in> set (di_running d) \<Longrightarrow> di_reach ag (hist @ [(i, r)]) ids (task_ends i r d)"
| cancelled: "di_reach ag hist ids d \<Longrightarrow> i \<in> set (di_running d) \<Longrightarrow> di_reach ag hist ids (task_cancelled i d)"
| forgotten: "di_reach ag hist ids d \<Longrightarrow> di_reach ag hist ids (forget_all d)"
| cleaned: "di_reach ag hist ids d \<Longrightarrow> di_reach ag hist ids (snd (cleanup_results d))"

definition last_results :: "(string, sub_result) dict \<Rightarrow> (string, sub_result) dict" where
  "last_results hist = drop (length hist - max_results) hist"

lemma bound_last [simp]: "bound_results (last_results hist) = last_results hist"
  by (simp add: bound_results_def last_results_def)

lemma last_results_snoc: "last_results (hist @ [x]) = drop (length hist - 499) hist @ [x]"
  by (simp add: last_results_def max_results_def)

lemma bound_last_snoc: "bound_results (last_results hist @ [x]) = last_results (hist @ [x])"
proof (cases "500 \<le> length hist")
  case True
  then have "Suc (length hist - 500) = length hist - 499" by simp
  with True show ?thesis by (simp add: bound_results_def last_results_def max_results_def)
qed (simp add: bound_results_def last_results_def max_results_def)

lemma keys_drop: "set (keys (drop n d)) \<subseteq> set (keys d)"
  by (metis drop_map set_drop_subset)

lemma keys_last_results: "set (keys (last_results hist)) \<subseteq> set (keys hist)"
  unfolding last_results_def by (rule keys_drop)

text \<open>Every identifier is given out once; it waits, runs, or has its result, and never two of them.\<close>

lemma di_reach_inv:
  assumes "di_reach ag hist ids d"
  shows "di_agents d = ag \<and> di_results d = last_results hist \<and> distinct (di_running d) \<and> distinct (keys hist) \<and>
    set (di_running d) \<subseteq> set ids \<and> set (keys hist) \<subseteq> set ids \<and> set (di_active d) \<subseteq> set ids \<and>
    set (di_running d) \<inter> set (keys hist) = {} \<and> set (di_active d) \<inter> set (keys hist) = {} \<and> distinct (di_active d)"
  using assms
proof (induction rule: di_reach.induct)
  case (launch ag hist ids d i name)
  then have "i \<notin> set (keys (last_results hist))" using keys_last_results [of hist] by auto
  with launch show ?case
    by (auto simp: dispatch_async_def store_result_def dset_fresh bound_last_snoc)
next
  case (ends ag hist ids d i r)
  then have "i \<notin> set (keys (last_results hist))" using keys_last_results [of hist] by (meson disjoint_iff subsetD)
  with ends show ?case
    by (auto simp: task_ends_def store_result_def dset_fresh bound_last_snoc Let_def dest: set_mp [OF set_remove1_subset])
next
  case (cleaned ag hist ids d)
  then show ?case by (simp add: cleanup_results_def)
qed (auto simp: task_cancelled_def forget_all_def last_results_def max_results_def dest: set_mp [OF set_remove1_subset])

text \<open>C28: Whatever was launched, ended, cancelled and cleaned, the dispatcher holds the last five hundred results in the order in
  which they came, and gives out each of them under its own identifier.\<close>

theorem dispatcher_keeps_the_last_results:
  assumes "di_reach ag hist ids d"
  shows "di_results d = drop (length hist - 500) hist \<and> distinct (keys hist) \<and>
    list_all (\<lambda>(i, r). get_result i d = Ready r) (di_results d)"
proof -
  note inv = di_reach_inv [OF assms]
  then have "di_results d = drop (length hist - 500) hist" "distinct (keys hist)" by (simp_all add: last_results_def max_results_def)
  moreover from this have "distinct (keys (di_results d))" by (metis distinct_drop drop_map)
  ultimately show ?thesis by (auto simp: list_all_iff get_result_def split: option.split)
qed

definition demo_agents :: "(string, sub_agent) dict" where
  "demo_agents = [(''code'', new_sub_agent ''code'' [] [] None True PNone 5)]"

definition idle :: dispatcher where
  "idle = \<lparr>di_agents = demo_agents, di_active = [], di_results = [], di_running = []\<rparr>"

lemma idle_reach: "di_reach demo_agents [] [] idle"
  unfolding idle_def by (rule di_reach.start)

theorem dispatcher_keeps_the_last_results_witness:
  "get_result ''t1'' (dispatch_async ''nobody'' ''t1'' idle) = Ready (agent_missing ''nobody'')"
  using dispatcher_keeps_the_last_results [OF di_reach.launch [OF idle_reach, of "''t1''" "''nobody''"]]
  by (simp add: dispatch_async_def idle_def demo_agents_def store_result_def bound_results_def max_results_def)

text \<open>A task that is launched while \<open>cancel_all\<close> waits for the tasks it asked to end is forgotten: it runs on, and until its
  result comes nobody is told of it.\<close>

theorem task_launched_during_cancel_is_lost:
  assumes "di_reach ag hist ids d" and "i \<notin> set ids" and "dget ag name = Some a"
  shows "\<exists>d1. di_reach ag hist (i # ids) d1 \<and> d1 = forget_all (dispatch_async name i d) \<and> i \<in> set (di_running d1) \<and>
    active_count d1 = 0 \<and> get_result i d1 = Unknown \<and> get_result i (task_ends i r d1) = Ready r"
proof -
  note inv = di_reach_inv [OF assms(1)]
  let ?d1 = "forget_all (dispatch_async name i d)"
  have reach: "di_reach ag hist (i # ids) ?d1"
    using di_reach.forgotten [OF di_reach.launch [OF assms(1,2), of name]] assms(3) by simp
  have fresh: "i \<notin> set (keys (di_results d))" using inv assms(2) keys_last_results [of hist] by auto
  have "i \<in> set (di_running ?d1)" "get_result i ?d1 = Unknown" "active_count ?d1 = 0"
    using inv assms(3) fresh
    by (simp_all add: forget_all_def dispatch_async_def get_result_def active_count_def dget_None_keys [THEN iffD2])
  moreover have "get_result i (task_ends i r ?d1) = Ready r"
  proof -
    have "bound_results (di_results d @ [(i, r)]) = last_results (hist @ [(i, r)])" using inv by (simp add: bound_last_snoc)
    moreover have "dget (last_results (hist @ [(i, r)])) i = Some r"
    proof -
      have "i \<notin> set (keys (drop (length hist - 499) hist))" using inv assms(2) keys_drop [of "length hist - 499" hist] by blast
      then show ?thesis by (simp add: last_results_snoc map_add_def dget_None_keys [THEN iffD2])
    qed
    moreover have "di_results ?d1 = di_results d" using inv assms(3) by (simp add: forget_all_def dispatch_async_def)
    then have "di_results (task_ends i r ?d1) = bound_results (di_results d @ [(i, r)])"
      by (simp add: task_ends_def store_result_def Let_def dset_fresh [OF fresh])
    ultimately show ?thesis by (simp add: get_result_def)
  qed
  ultimately show ?thesis using reach by blast
qed

theorem task_launched_during_cancel_is_lost_witness:
  "get_result ''t1'' (forget_all (dispatch_async ''code'' ''t1'' idle)) = Unknown \<and>
   ''t1'' \<in> set (di_running (forget_all (dispatch_async ''code'' ''t1'' idle)))"
  using task_launched_during_cancel_is_lost [OF idle_reach, of "''t1''" "''code''" "new_sub_agent ''code'' [] [] None True PNone 5"]
  by (simp add: demo_agents_def)

end
