(* ===== verification/Spec2Isabelle.thy ===== *)
theory Spec2Isabelle
  imports KeyPool Coalescer Router Workflow ContextBus Capabilities TaskRouter Collab Messages Compaction
    Approvals AgentSession RagIndex MemoryProps NetGuard Sandbox FileTools CodeGuard SkillStore ContextWindow EngineLoop
    PlainLoop Tracing MultiAgent
begin

text \<open>
  A verification library for the Python engine of MiniCC (\<^verbatim>\<open>src/python-engine/app\<close>): the LLM
  gateway, the workflow engine, the routing of tasks to capabilities, the collaboration of
  agents, the context bus, the agent runtime with its guards, tools and sessions, the task queue, the
  index of documents, and the memory layers.

  \<^bold>\<open>How the program works.\<close> Requests to language models go through the gateway: the router
  normalises the messages, asks the response cache, selects a provider whose circuit breaker
  admits the request, checks the token budget of the tenant, calls the provider and records the
  outcome with breaker, cache, budget and latency. Keys of providers live in a pool with a breaker
  per key; identical requests in flight are coalesced. Above the gateway, the task router turns an
  utterance into subtasks, matches them with registered capabilities, orders them and executes
  them in rounds; the workflow engine runs a graph of nodes in topological order; the
  collaboration hub runs the subtasks of a plan in waves. Workstations exchange messages over the
  context bus. A run of an agent starts a memory session, recalls what is known of the user into the
  system prompt, loads the history of the session, and then calls the model in turns; tool calls pass
  a guard and, when they are dangerous, wait for the user's approval; the history is compacted and
  repaired before each call, kept in a neutral format with codecs to the formats of the vendors, and
  saved at the end. Long tasks, such as indexing documents and consolidating memory, go through a
  queue with retries and dead letters. The memory of a user has three layers: bookkeeping of
  sessions, a card of items with conflicts that wait for the user's decision, and summaries of
  conversations that are recalled by similarity, recency and use.

  \<^bold>\<open>Theories and sources.\<close>
  \<^item> \<open>Prelude\<close>: dictionaries with insertion order (association lists), raised exceptions as a sum
    type, slices, strings, integers as text, runs of events, the locale \<open>bounded_log\<close>.
    \<open>PyVal\<close>: dynamically typed values with truth value, \<open>str\<close>, \<open>repr\<close>, \<open>int\<close> and iteration.
    \<open>Effects\<close>: commands on outside state that may raise, with the rules for what they keep and preserve.
    \<open>Weighted\<close>: the cumulative-weight choice that the key pool and the router share. \<open>Tenancy\<close>: the
    locale \<open>tenant_store\<close> of stores that many users share.
  \<^item> \<open>Circuit\<close> (\<^verbatim>\<open>gateway/circuit_breaker.py\<close>): the three-state breaker and the locale \<open>breaker\<close>, the
    contract of every breaker; the breaker of the router and the one of a key interpret it.
  \<^item> \<open>KeyPool\<close> (\<^verbatim>\<open>gateway/smart_key_pool.py\<close>): the pool, its selection with waiting and retry, reports
    and administration. \<open>Coalescer\<close> (\<^verbatim>\<open>gateway/coalescer.py\<close>): one step per atomic section of
    \<^verbatim>\<open>coalesce\<close>, so a run is an interleaving of tasks, with cancellation.
  \<^item> \<open>TenantLimits\<close> (\<^verbatim>\<open>gateway/ratelimit.py\<close>, \<^verbatim>\<open>gateway/budget.py\<close>), \<open>Lru\<close> with the locale \<open>recency\<close>,
    \<open>Cache\<close> (\<^verbatim>\<open>gateway/cache.py\<close>, \<^verbatim>\<open>gateway/provider.py\<close>), \<open>Router\<close> (\<^verbatim>\<open>gateway/router.py\<close>).
  \<^item> \<open>Kahn\<close>: Kahn's algorithm as the workflow engine and the task router use it, on nodes with an
    identifier function. \<open>Workflow\<close> (\<^verbatim>\<open>workflow/engine.py\<close>): the node functions, the run of a graph,
    the instance table.
  \<^item> \<open>ContextBus\<close> (\<^verbatim>\<open>core/context_bus.py\<close>): the in-memory bus and the message handling of the Redis bus;
    the log of a topic interprets \<open>bounded_log\<close>.
  \<^item> \<open>Capabilities\<close> (\<^verbatim>\<open>core/capabilities.py\<close>), \<open>Layering\<close>: the rounds of ready items that the task router
    and the hub build, \<open>TaskRouter\<close> (\<^verbatim>\<open>core/task_router.py\<close>), \<open>Collab\<close> (\<^verbatim>\<open>agent/collaboration.py\<close>).
  \<^item> \<open>Messages\<close> (\<^verbatim>\<open>agent/message_codec.py\<close>), \<open>Compaction\<close> (the history functions of
    \<^verbatim>\<open>agent/runtime.py\<close>), \<open>Modes\<close> (\<^verbatim>\<open>agent/modes.py\<close>).
  \<^item> \<open>Regex\<close>: a backtracking matcher with its declarative meaning; \<open>Guards\<close> (\<^verbatim>\<open>agent/guards.py\<close>);
    \<open>ToolRegistry\<close> (\<^verbatim>\<open>tools/registry.py\<close>); \<open>Approvals\<close>: pending approvals as steps of several runs.
  \<^item> \<open>AgentLoop\<close>, \<open>AgentRun\<close> (\<^verbatim>\<open>agent/runtime.py\<close>, \<^verbatim>\<open>tools/skill_catalog.py\<close>): one turn, and the run around the
    turns; \<open>AgentProps\<close>, \<open>AgentSession\<close>: what holds of runs and of the history over the runs of a session.
    \<open>SessionStore\<close> (\<^verbatim>\<open>session_store.py\<close>) interprets \<open>recency\<close> and the locale \<open>session_cache\<close>, on which the
    resumption of a session rests.
  \<^item> \<open>JobQueue\<close> (\<^verbatim>\<open>queue/\<close>), \<open>Chunking\<close> and \<open>RagBuild\<close> (\<^verbatim>\<open>rag/builder.py\<close>, \<^verbatim>\<open>rag/retriever.py\<close>), \<open>RagIndex\<close>: the
    indexing task of \<^verbatim>\<open>queue/worker.py\<close> with its payment.
  \<^item> \<open>Conflicts\<close> (\<^verbatim>\<open>memory/layers.py\<close>, \<^verbatim>\<open>memory/conflict_manager.py\<close>), \<open>ProfileCards\<close> (\<^verbatim>\<open>memory/profile_card.py\<close>)
    and its histories \<open>CardHistory\<close>; \<open>Summaries\<close> (\<^verbatim>\<open>memory/summary_store.py\<close>, \<^verbatim>\<open>memory/consolidator.py\<close>) and
    \<open>SummaryHistory\<close>; cards and summaries interpret \<open>tenant_store\<close>. \<open>MemoryService\<close> (\<^verbatim>\<open>memory/service.py\<close>,
    \<^verbatim>\<open>memory/session_meta.py\<close>) puts them together, \<open>MemoryProps\<close> composes the service with the agent.
  \<^item> \<open>IpAddr\<close>, \<open>NetGuard\<close> (\<^verbatim>\<open>tools/ssrf.py\<close>): addresses as words and the checks of an address before each request.
    \<open>Sandbox\<close> (\<^verbatim>\<open>tools/sandbox.py\<close>, \<^verbatim>\<open>tools/context.py\<close>): workspaces and the filters of commands, over the locale
    \<open>path_resolution\<close> that the lexical resolution interprets; \<open>FileTools\<close> (\<^verbatim>\<open>tools/core.py\<close>, \<^verbatim>\<open>tools/edit_file.py\<close>,
    \<^verbatim>\<open>tools/fs_guard.py\<close>), \<open>CodeGuard\<close> (\<^verbatim>\<open>tools/code_guard.py\<close>), \<open>SkillStore\<close> (\<^verbatim>\<open>skill/store.py\<close>).
  \<^item> \<open>ContextWindow\<close> (\<^verbatim>\<open>context/manager.py\<close>): counting, trimming and compressing a conversation, and the content
    that a failed compression hands to the memory. \<open>EngineLoop\<close> (\<^verbatim>\<open>agent/engine.py\<close>): the older engine, whose tools
    are coroutines and where a request to cancel a task takes effect at its next wait; \<open>PlainLoop\<close>
    (\<^verbatim>\<open>agent/loop.py\<close>); \<open>Tracing\<close> (\<^verbatim>\<open>workflow/tracing_engine.py\<close>), a refinement of \<open>Workflow\<close>; \<open>MultiAgent\<close>
    (\<^verbatim>\<open>agent/multi_agent.py\<close>): sub-agents, also behind the agent node of a workflow, and the
    dispatcher as a relation of steps between background tasks.

  \<^bold>\<open>Conventions.\<close> A class is a record and a method a function that returns the updated record; an
  exception is the left side of a sum or its own constructor; clock readings, random numbers,
  digests, JSON, database and Redis commands, providers, tools and embedding
  services are arguments. Where a theorem needs what such an argument does, the documented effect
  is a hypothesis (\<open>zset_laws\<close>, \<open>hash_laws\<close>, \<open>redis_laws\<close>, \<open>json_laws\<close>) and the witness instantiates it. Tables that
  the engine itself writes (profile items, summaries, bases, documents, credits) are part of the
  state and each SQL statement is a function on them. The state of the outside
  world is a type variable threaded through the calls. Floats are exact rationals. Characters are
  those of Latin-1; other texts of the program are arguments. Coroutines are
  atomic between awaits; where interleaving matters (coalescer, rate limiter, hub, approvals) the steps are
  separate definitions.

  \<^bold>\<open>What the lemmas show.\<close> Each component has its invariant or frame lemmas (\<open>cb_inv_step\<close>, \<open>weights_ok_step\<close>,
  \<open>co_inv_step\<close>, \<open>hub_ok_step\<close>, \<open>kahn_inv_step\<close>, \<open>step_ok\<close>, \<open>coherent_run\<close>, \<open>sum_step_ok\<close>) and its functional ones; the
  properties are the numbered theorems: order and coverage of the
  workflow, of the rounds of tasks and of the waves; refinement of the caches to their
  least-recently-used specifications, of the bus query to the window of the log, of a cached card to
  the table; round trips of the codecs, the bus, the cache and the conflicts; validity of the histories a run
  sends and saves; the gate before tools; money and retries; bounds of windows, quotas and cards;
  isolation of users; and the error paths, some of which show defects (a cached profile that never reaches the
  prompt, a kept value that is overwritten, a conflict that anyone can decide).

  \<^bold>\<open>Termination.\<close> Loops are total functions: structural recursion, or a measure (Kahn's loop:
  open edges and queue; rounds: items left; the search over capabilities: identifiers not visited;
  the widening of the kept history: its start index). Two loops may run forever and are partial
  functions whose results are optional: the splitter of the builder (\<open>chunk_loop\<close>, which hangs when the overlap is
  not smaller than the chunk) and the scan of the session keys (\<open>clear_scan\<close>, which ends when the cursor does).
  No fuel is used.

  \<^bold>\<open>Not modelled.\<close> Input and output (HTTP, SQL texts, processes, browser), the web interface, prompt texts, the
  reconnect loop of the Redis bus, the consumer loop of the queue, the table of default capabilities,
  document parsers and clients of vector databases, trace records, and the parts of the engine
  listed in the manifest as not modelled: the older memory stores, the table of roles, the manager of skills of
  MCP servers, plugins, the unified executor behind its web interface, and the built-in tools that call
  libraries. Times and durations are left out of results and spans. Of the older engine
  the table of waiting approvals, and of the context window the set of background tasks, are left out.
\<close>

end
